(* ===== verification/Prelude.thy ===== *)
theory Prelude
  imports Complex_Main "HOL-Library.Word" "HOL-Library.Char_ord"
    "HOL-Library.List_Lexorder" "HOL-Library.Product_Lexorder" "HOL-Library.AList"
begin

text \<open>
  The vocabulary the component theories share.

  \<^item> Python's \<^verbatim>\<open>bytes\<close> are lists of 8-bit words; the lexicographic order of
    List_Lexorder on them is the order Python compares bytes by.
  \<^item> Python's \<^verbatim>\<open>str\<close> is Isabelle's \<open>string\<close>, one \<open>char\<close> per code point. A \<open>char\<close>
    ranges over the code points 0 to 255, so text outside Latin-1 is not represented.
  \<^item> A finite Python \<^verbatim>\<open>float\<close> is a rational; the comparisons the program makes are exact
    on them, rounding of sums is not modelled. Infinities and NaN occur where a value
    comes off the wire and are constructors of \<open>pyfloat\<close>.
  \<^item> A \<^verbatim>\<open>dict\<close> is an association list in insertion order, updated with \<open>AList.update\<close>
    (which keeps the place of a key that is present and appends a new one, as Python
    does) and \<open>AList.delete\<close>.
  \<^item> \<open>pyval\<close> is what \<^verbatim>\<open>json.loads\<close> and \<^verbatim>\<open>msgpack.unpackb\<close> can return.
\<close>

section \<open>Types\<close>

type_synonym byte = "8 word"
type_synonym bytes = "byte list"
type_synonym hexid = string
type_synonym secs = rat

datatype py_error =
    TypeError | ValueError | KeyError | IndexError | OverflowError | AttributeError
  | IntegrityError | InterfaceError

datatype pyfloat = Finite rat | PosInf | NegInf | NotANumber

datatype pyval =
    PNone
  | PBool bool
  | PInt int
  | PFloat pyfloat
  | PStr string
  | PBytes bytes
  | PList "pyval list"
  | PTuple "pyval list"
  | PDict "(pyval \<times> pyval) list"

text \<open>Collections the component theories add to: facts that unfold a component's
  operations, and facts that carry its invariant through them.\<close>

named_theorems op_defs "definitions of a component's operations, for unfolding"
named_theorems inv_intros "preservation of a component's invariant by its operations"

section \<open>Computations that may raise\<close>

text \<open>A value or the exception raised; \<open>ebind m f\<close> goes on with the value.\<close>

definition ebind :: "'e + 'a \<Rightarrow> ('a \<Rightarrow> 'e + 'b) \<Rightarrow> 'e + 'b" where
  "ebind m f = (case m of Inl e \<Rightarrow> Inl e | Inr x \<Rightarrow> f x)"

lemma ebind_simps [simp]:
  "ebind (Inl e) f = Inl e"
  "ebind (Inr x) f = f x"
  by (simp_all add: ebind_def)

lemma ebind_Inr: "ebind m f = Inr y \<longleftrightarrow> (\<exists>x. m = Inr x \<and> f x = Inr y)"
  by (cases m) auto

lemma ebind_cong [fundef_cong]: "m = m' \<Longrightarrow> (\<And>x. m' = Inr x \<Longrightarrow> f x = g x) \<Longrightarrow> ebind m f = ebind m' g"
  by (cases m') auto

fun each :: "('a \<Rightarrow> 'e + 'b) \<Rightarrow> 'a list \<Rightarrow> 'e + 'b list" where
  "each f [] = Inr []"
| "each f (x # xs) = ebind (f x) (\<lambda>y. ebind (each f xs) (\<lambda>ys. Inr (y # ys)))"

section \<open>Values\<close>

text \<open>Truth of a value in a Python condition.\<close>

fun truthy :: "pyval \<Rightarrow> bool" where
  "truthy PNone = False"
| "truthy (PBool b) = b"
| "truthy (PInt i) = (i \<noteq> 0)"
| "truthy (PFloat f) = (f \<noteq> Finite 0)"
| "truthy (PStr s) = (s \<noteq> [])"
| "truthy (PBytes b) = (b \<noteq> [])"
| "truthy (PList xs) = (xs \<noteq> [])"
| "truthy (PTuple xs) = (xs \<noteq> [])"
| "truthy (PDict d) = (d \<noteq> [])"

fun hashable :: "pyval \<Rightarrow> bool" where
  "hashable (PList _) = False"
| "hashable (PDict _) = False"
| "hashable (PTuple xs) = list_all hashable xs"
| "hashable _ = True"

fun is_str :: "pyval \<Rightarrow> bool" where
  "is_str (PStr _) = True"
| "is_str _ = False"

text \<open>\<^verbatim>\<open>isinstance(v, (list, tuple))\<close>, giving the elements.\<close>

fun seq_of :: "pyval \<Rightarrow> pyval list option" where
  "seq_of (PList xs) = Some xs"
| "seq_of (PTuple xs) = Some xs"
| "seq_of _ = None"

section \<open>Dictionaries\<close>

text \<open>\<^verbatim>\<open>d.get(k, v)\<close> for a dict \<open>d\<close>.\<close>

definition get_or :: "'v \<Rightarrow> ('k \<times> 'v) list \<Rightarrow> 'k \<Rightarrow> 'v" where
  "get_or v d k = (case map_of d k of None \<Rightarrow> v | Some x \<Rightarrow> x)"

lemma get_or_simps [simp]:
  "map_of d k = None \<Longrightarrow> get_or v d k = v"
  "map_of d k = Some x \<Longrightarrow> get_or v d k = x"
  by (simp_all add: get_or_def)

lemma map_of_update [simp]: "map_of (AList.update k v d) k' = (if k' = k then Some v else map_of d k')"
  by (simp add: update_conv')

lemma map_of_delete_if [simp]: "map_of (AList.delete k d) k' = (if k' = k then None else map_of d k')"
  by (simp add: delete_conv')

lemma dom_fst_iff: "(map_of d k = None) \<longleftrightarrow> k \<notin> fst ` set d"
  by (simp add: map_of_eq_None_iff)

lemma distinct_keys_update [intro]:
  "distinct (map fst d) \<Longrightarrow> distinct (map fst (AList.update k v d))"
  by (rule distinct_update)

lemma distinct_keys_delete [intro]:
  "distinct (map fst d) \<Longrightarrow> distinct (map fst (AList.delete k d))"
  by (rule distinct_delete)

lemma distinct_keys_filter [intro]:
  "distinct (map fst d) \<Longrightarrow> distinct (map fst (filter P d))"
  by (induction d) auto

lemma length_update_new:
  "length (AList.update k v d) = (if k \<in> fst ` set d then length d else Suc (length d))"
  by (induction d) auto

lemma length_delete_present:
  "distinct (map fst d) \<Longrightarrow> k \<in> fst ` set d \<Longrightarrow> Suc (length (AList.delete k d)) = length d"
  by (induction d) (auto simp: rev_image_eqI)

lemma set_update_sub: "set (AList.update k v d) \<subseteq> insert (k, v) (set d)"
  by (induction d) auto

lemma set_delete_sub: "set (AList.delete k d) \<subseteq> set d"
  by (induction d) auto

lemma list_all_update: "list_all P d \<Longrightarrow> P (k, v) \<Longrightarrow> list_all P (AList.update k v d)"
  using set_update_sub [of k v d] by (auto simp: list_all_iff)

lemma list_all_delete: "list_all P d \<Longrightarrow> list_all P (AList.delete k d)"
  using set_delete_sub [of k d] by (auto simp: list_all_iff)

lemma update_update [simp]: "AList.update k v (AList.update k w d) = AList.update k v d"
  by (induction d) auto

lemma delete_update_same [simp]: "AList.delete k (AList.update k v d) = AList.delete k d"
  by (induction d) auto

lemma get_or_cases: "get_or x d k = x \<or> (k, get_or x d k) \<in> set d"
  by (cases "map_of d k") (auto dest: map_of_SomeD)

lemma get_or_entry_ok: "list_all P d \<Longrightarrow> get_or x d k \<noteq> x \<Longrightarrow> P (k, get_or x d k)"
  using get_or_cases [of x d k] by (auto simp: list_all_iff)

lemma get_or_update [simp]: "get_or x (AList.update k v d) k' = (if k' = k then v else get_or x d k')"
  by (simp add: get_or_def)

lemma get_or_delete [simp]: "get_or x (AList.delete k d) k' = (if k' = k then x else get_or x d k')"
  by (simp add: get_or_def)

section \<open>Bytes and hexadecimal text\<close>

definition hex_val :: "char \<Rightarrow> nat option" where
  "hex_val c =
     (let n = of_char c :: nat
      in if 48 \<le> n \<and> n \<le> 57 then Some (n - 48)
         else if 97 \<le> n \<and> n \<le> 102 then Some (n - 87)
         else if 65 \<le> n \<and> n \<le> 70 then Some (n - 55)
         else None)"

definition hex_digit :: "nat \<Rightarrow> char" where
  "hex_digit n = (if n < 10 then char_of (48 + n) else char_of (87 + n))"

definition is_ascii_space :: "char \<Rightarrow> bool" where
  "is_ascii_space c = (let n = of_char c :: nat in n = 32 \<or> (9 \<le> n \<and> n \<le> 13))"

text \<open>\<^verbatim>\<open>bytes.fromhex\<close>: pairs of hexadecimal digits, ASCII white space allowed between
  the pairs; anything else is a ValueError (here \<open>None\<close>).\<close>

fun fromhex :: "string \<Rightarrow> bytes option" where
  "fromhex [] = Some []"
| "fromhex [c] = (if is_ascii_space c then Some [] else None)"
| "fromhex (c # d # s) =
     (if is_ascii_space c then fromhex (d # s)
      else case (hex_val c, hex_val d) of
             (Some a, Some b) \<Rightarrow> map_option (\<lambda>bs. of_nat (16 * a + b) # bs) (fromhex s)
           | _ \<Rightarrow> None)"

text \<open>\<^verbatim>\<open>bytes.hex\<close>.\<close>

definition to_hex :: "bytes \<Rightarrow> string" where
  "to_hex bs = concat (map (\<lambda>b. [hex_digit (unat b div 16), hex_digit (unat b mod 16)]) bs)"

lemma of_char_hex_digit:
  "n < 16 \<Longrightarrow> (of_char (hex_digit n) :: nat) = (if n < 10 then 48 + n else 87 + n)"
  by (simp add: hex_digit_def)

lemma hex_val_digit: "n < 16 \<Longrightarrow> hex_val (hex_digit n) = Some n"
  by (simp add: hex_val_def of_char_hex_digit)

lemma hex_digit_not_space: "n < 16 \<Longrightarrow> \<not> is_ascii_space (hex_digit n)"
  by (simp add: is_ascii_space_def of_char_hex_digit)

lemma to_hex_simps [simp]:
  "to_hex [] = []"
  "to_hex (b # bs) = hex_digit (unat b div 16) # hex_digit (unat b mod 16) # to_hex bs"
  by (simp_all add: to_hex_def)

lemma length_to_hex [simp]: "length (to_hex bs) = 2 * length bs"
  by (induction bs) auto

lemma byte_div16: "unat (b :: byte) div 16 < 16"
  using unsigned_less [of b, where ?'a = nat] by simp

theorem fromhex_to_hex [simp]: "fromhex (to_hex bs) = Some bs"
  by (induction bs) (auto simp: hex_val_digit hex_digit_not_space byte_div16)

lemma to_hex_inj: "to_hex a = to_hex b \<Longrightarrow> a = b"
  by (metis fromhex_to_hex option.inject)

text \<open>\<^verbatim>\<open>str.encode\<close> (UTF-8) of a code point below 256, and of a text.\<close>

definition utf8_char :: "char \<Rightarrow> bytes" where
  "utf8_char c =
     (let n = of_char c :: nat
      in if n < 128 then [of_nat n] else [of_nat (192 + n div 64), of_nat (128 + n mod 64)])"

definition utf8 :: "string \<Rightarrow> bytes" where
  "utf8 s = concat (map utf8_char s)"

text \<open>White space at the ends (\<^verbatim>\<open>str.strip()\<close>) and a chosen character (\<^verbatim>\<open>str.strip(c)\<close>).\<close>

definition is_py_space :: "char \<Rightarrow> bool" where
  "is_py_space c = (let n = of_char c :: nat
     in (9 \<le> n \<and> n \<le> 13) \<or> (28 \<le> n \<and> n \<le> 32) \<or> n = 133 \<or> n = 160)"

definition strip_by :: "('a \<Rightarrow> bool) \<Rightarrow> 'a list \<Rightarrow> 'a list" where
  "strip_by p s = rev (dropWhile p (rev (dropWhile p s)))"

lemma dropWhile_shorter: "s \<noteq> [] \<Longrightarrow> p (hd s) \<Longrightarrow> length (dropWhile p s) < length s"
  by (cases s) (auto intro: le_imp_less_Suc length_dropWhile_le)

lemma dropWhile_fixed: "s = [] \<or> \<not> p (hd s) \<Longrightarrow> dropWhile p s = s"
  by (cases s) auto

text \<open>A text is unchanged by stripping exactly when neither end is stripped: the test
  \<^verbatim>\<open>name != name.strip()\<close>.\<close>

lemma strip_by_fixed_iff:
  "strip_by p s = s \<longleftrightarrow> s = [] \<or> (\<not> p (hd s) \<and> \<not> p (last s))"
proof (cases "s = [] \<or> \<not> p (hd s)")
  case True
  then have d: "dropWhile p s = s" by (rule dropWhile_fixed)
  show ?thesis
  proof (cases "s = [] \<or> \<not> p (last s)")
    case True
    then have "dropWhile p (rev s) = rev s" by (intro dropWhile_fixed) (simp add: hd_rev)
    with d True \<open>s = [] \<or> \<not> p (hd s)\<close> show ?thesis by (auto simp: strip_by_def)
  next
    case False
    then have "length (dropWhile p (rev s)) < length (rev s)"
      by (intro dropWhile_shorter) (simp_all add: hd_rev)
    with d False show ?thesis by (auto simp: strip_by_def dest: arg_cong [where f = length])
  qed
next
  case False
  have "length (strip_by p s) \<le> length (dropWhile p s)"
    using length_dropWhile_le [of p "rev (dropWhile p s)"] by (simp add: strip_by_def)
  also have "\<dots> < length s" using False by (intro dropWhile_shorter) simp_all
  finally show ?thesis using False by auto
qed

lemma utf8_char_cases:
  "utf8_char c = (if of_char c < (128::nat) then [of_nat (of_char c)]
     else [of_nat (192 + of_char c div 64), of_nat (128 + of_char c mod 64)])"
  by (simp add: utf8_char_def Let_def)

lemma char_eq_iff: "c = d \<longleftrightarrow> (of_char c :: nat) = of_char d"
  by simp

lemma unat_small: "n < 256 \<Longrightarrow> unat (of_nat n :: byte) = n"
  by (simp add: unsigned_of_nat take_bit_nat_eq_self)

lemma byte_of_nat_inj: "(of_nat m :: byte) = of_nat n \<Longrightarrow> m < 256 \<Longrightarrow> n < 256 \<Longrightarrow> m = n"
  by (metis unat_small)

lemma utf8_char_prefix_free:
  assumes "utf8_char c @ s = utf8_char d @ t"
  shows "c = d \<and> s = t"
proof -
  let ?n = "of_char c :: nat" and ?m = "of_char d :: nat"
  have n: "?n < 256" and m: "?m < 256" by simp_all
  have q: "?n div 64 < 4" "?m div 64 < 4" and r: "?n mod 64 < 64" "?m mod 64 < 64"
    using less_mult_imp_div_less [of ?n 4 64] less_mult_imp_div_less [of ?m 4 64] n m by simp_all
  have "?n = ?m \<and> s = t"
  proof (cases "?n < 128"; cases "?m < 128")
    assume a: "?n < 128" "?m < 128"
    then have "(of_nat ?n :: byte) = of_nat ?m" "s = t"
      using assms by (simp_all add: utf8_char_cases del: of_char_of)
    then show ?thesis using n m by (blast intro: byte_of_nat_inj)
  next
    assume a: "?n < 128" "\<not> ?m < 128"
    then have "(of_nat ?n :: byte) = of_nat (192 + ?m div 64)"
      using assms by (simp add: utf8_char_cases)
    then have "?n = 192 + ?m div 64" by (rule byte_of_nat_inj) (use n m q r in linarith)+
    then show ?thesis using a by simp
  next
    assume a: "\<not> ?n < 128" "?m < 128"
    then have "(of_nat (192 + ?n div 64) :: byte) = of_nat ?m"
      using assms by (simp add: utf8_char_cases)
    then have "192 + ?n div 64 = ?m" by (rule byte_of_nat_inj) (use n m q r in linarith)+
    then show ?thesis using a by simp
  next
    assume a: "\<not> ?n < 128" "\<not> ?m < 128"
    then have e: "(of_nat (192 + ?n div 64) :: byte) = of_nat (192 + ?m div 64)"
      "(of_nat (128 + ?n mod 64) :: byte) = of_nat (128 + ?m mod 64)" and st: "s = t"
      using assms by (simp_all add: utf8_char_cases)
    have "192 + ?n div 64 = 192 + ?m div 64" by (rule byte_of_nat_inj [OF e(1)]) (use n m q r in linarith)+
    moreover have "128 + ?n mod 64 = 128 + ?m mod 64"
      by (rule byte_of_nat_inj [OF e(2)]) (use n m q r in linarith)+
    ultimately show ?thesis using st by (metis add_left_cancel div_mult_mod_eq)
  qed
  then show ?thesis by simp
qed

lemma utf8_simps [simp]: "utf8 [] = []" "utf8 (c # s) = utf8_char c @ utf8 s"
  by (simp_all add: utf8_def)

lemma utf8_char_nonempty [simp]: "utf8_char c \<noteq> []"
  by (simp add: utf8_char_cases)

lemma utf8_inj: "utf8 s = utf8 t \<Longrightarrow> s = t"
proof (induction s arbitrary: t)
  case Nil
  then show ?case by (cases t) auto
next
  case (Cons c s)
  then show ?case by (cases t) (auto dest: utf8_char_prefix_free)
qed

text \<open>\<^verbatim>\<open>str.lower()\<close> and \<^verbatim>\<open>str.isprintable()\<close> on a code point below 256.\<close>

definition lower_char :: "char \<Rightarrow> char" where
  "lower_char c =
     (let n = of_char c :: nat
      in if (65 \<le> n \<and> n \<le> 90) \<or> (192 \<le> n \<and> n \<le> 222 \<and> n \<noteq> 215) then char_of (n + 32) else c)"

definition lower :: "string \<Rightarrow> string" where
  "lower s = map lower_char s"

definition is_printable :: "char \<Rightarrow> bool" where
  "is_printable c =
     (let n = of_char c :: nat in (32 \<le> n \<and> n \<le> 126) \<or> (161 \<le> n \<and> n \<noteq> 173))"

section \<open>Decimal text\<close>

text \<open>\<^verbatim>\<open>str\<close> of an integer.\<close>

fun dec_nat :: "nat \<Rightarrow> string" where
  "dec_nat n = (if n < 10 then [char_of (48 + n)] else dec_nat (n div 10) @ [char_of (48 + n mod 10)])"

declare dec_nat.simps [simp del]

definition dec_int :: "int \<Rightarrow> string" where
  "dec_int i = (if i < 0 then CHR ''-'' # dec_nat (nat (- i)) else dec_nat (nat i))"

definition undec :: "string \<Rightarrow> nat" where
  "undec s = foldl (\<lambda>n c. 10 * n + (of_char c - 48)) 0 s"

lemma undec_snoc: "undec (s @ [c]) = 10 * undec s + (of_char c - 48)"
  by (simp add: undec_def)

lemma undec_dec_nat: "undec (dec_nat n) = n"
proof (induction n rule: dec_nat.induct)
  case (1 n)
  show ?case
  proof (cases "n < 10")
    case True
    then show ?thesis by (simp add: dec_nat.simps [of n] undec_def)
  next
    case False
    with 1 show ?thesis by (simp add: dec_nat.simps [of n] undec_snoc)
  qed
qed

lemma dec_nat_inj: "dec_nat m = dec_nat n \<Longrightarrow> m = n"
  by (metis undec_dec_nat)

section \<open>Lists\<close>

text \<open>\<^verbatim>\<open>min(xs, key=f)\<close>: the first element with the least key.\<close>

fun min_by :: "('a \<Rightarrow> 'b::linorder) \<Rightarrow> 'a \<Rightarrow> 'a list \<Rightarrow> 'a" where
  "min_by f m [] = m"
| "min_by f m (x # xs) = (if f x < f m then min_by f x xs else min_by f m xs)"

lemma min_by_in: "min_by f m xs \<in> insert m (set xs)"
  by (induction xs arbitrary: m) auto

lemma min_by_le: "x \<in> insert m (set xs) \<Longrightarrow> f (min_by f m xs) \<le> f x"
proof (induction xs arbitrary: m x)
  case Nil
  then show ?case by simp
next
  case (Cons a xs)
  let ?m = "if f a < f m then a else m"
  have eq: "min_by f m (a # xs) = min_by f ?m xs" by simp
  have "f (min_by f ?m xs) \<le> f ?m" by (rule Cons.IH) simp
  moreover have "f ?m \<le> f a" "f ?m \<le> f m" by auto
  ultimately show ?case using Cons.prems Cons.IH [of x ?m] eq by (auto intro: order.trans)
qed

lemma sorted_key_filter: "sorted (map f xs) \<Longrightarrow> sorted (map f (filter P xs))"
  by (rule sorted_filter)

text \<open>\<^verbatim>\<open>x or v\<close> where \<open>None\<close> is the only falsy value of \<open>x\<close>.\<close>

definition or_else :: "'a \<Rightarrow> 'a option \<Rightarrow> 'a" where
  "or_else v x = (case x of None \<Rightarrow> v | Some y \<Rightarrow> y)"

lemma or_else_simps [simp]: "or_else v None = v" "or_else v (Some y) = y"
  by (simp_all add: or_else_def)

end
