(* ===== verification/Permissions.thy ===== *)
theory Permissions
  imports Prelude
begin

text \<open>
  \<^verbatim>\<open>trenchchat/core/permissions.py\<close>: roles, permissions, the presets, and what a stored
  permissions document grants. A document is the \<^verbatim>\<open>dict\<close> that \<^verbatim>\<open>json.loads\<close> returns, of
  any shape: nothing is assumed of it, since it may come from a peer's signed member list.
  \<open>permissions_from_json\<close> takes the outcome of \<^verbatim>\<open>json.loads\<close>, \<open>None\<close> for the TypeError or
  ValueError it raises. Log lines are left out; the exception that the arguments of one
  log line can raise (unhashable list elements) is kept.
\<close>

section \<open>Roles and permissions\<close>

abbreviation ROLE_OWNER :: string where "ROLE_OWNER \<equiv> ''owner''"
abbreviation ROLE_ADMIN :: string where "ROLE_ADMIN \<equiv> ''admin''"
abbreviation ROLE_MEMBER :: string where "ROLE_MEMBER \<equiv> ''member''"

definition ALL_ROLES :: "string list" where
  "ALL_ROLES = [ROLE_OWNER, ROLE_ADMIN, ROLE_MEMBER]"

definition role_rank :: "string \<Rightarrow> int" where
  "role_rank role = get_or (-1) [(ROLE_MEMBER, 0), (ROLE_ADMIN, 1), (ROLE_OWNER, 2)] role"

abbreviation SEND_MESSAGE :: string where "SEND_MESSAGE \<equiv> ''send_message''"
abbreviation INVITE :: string where "INVITE \<equiv> ''invite''"
abbreviation KICK :: string where "KICK \<equiv> ''kick''"
abbreviation MANAGE_ROLES :: string where "MANAGE_ROLES \<equiv> ''manage_roles''"
abbreviation MANAGE_CHANNEL :: string where "MANAGE_CHANNEL \<equiv> ''manage_channel''"
abbreviation CREATE_CHANNEL :: string where "CREATE_CHANNEL \<equiv> ''create_channel''"
abbreviation FULL_SYNC :: string where "FULL_SYNC \<equiv> ''full_sync''"
abbreviation VOICE_CHAT :: string where "VOICE_CHAT \<equiv> ''voice_chat''"
abbreviation SHARE_FILES :: string where "SHARE_FILES \<equiv> ''share_files''"

definition ADMIN_ONLY_PERMISSIONS :: "string list" where
  "ADMIN_ONLY_PERMISSIONS = [KICK, MANAGE_ROLES]"

definition ALL_PERMISSIONS :: "string list" where
  "ALL_PERMISSIONS = [SEND_MESSAGE, INVITE, KICK, MANAGE_ROLES, MANAGE_CHANNEL,
                      CREATE_CHANNEL, FULL_SYNC, VOICE_CHAT, SHARE_FILES]"

abbreviation FLAG_OPEN_JOIN :: string where "FLAG_OPEN_JOIN \<equiv> ''open_join''"
abbreviation FLAG_DISCOVERABLE :: string where "FLAG_DISCOVERABLE \<equiv> ''discoverable''"

type_synonym perms = "(pyval \<times> pyval) list"

definition preset :: "bool \<Rightarrow> bool \<Rightarrow> string list \<Rightarrow> string list \<Rightarrow> perms" where
  "preset open_join discoverable admin member =
     [(PStr FLAG_OPEN_JOIN, PBool open_join), (PStr FLAG_DISCOVERABLE, PBool discoverable),
      (PStr ROLE_ADMIN, PList (map PStr admin)), (PStr ROLE_MEMBER, PList (map PStr member))]"

definition PRESET_PRIVATE :: perms where
  "PRESET_PRIVATE = preset False False
     [SEND_MESSAGE, INVITE, KICK, MANAGE_ROLES, VOICE_CHAT, SHARE_FILES]
     [SEND_MESSAGE, VOICE_CHAT, SHARE_FILES]"

definition PRESET_OPEN :: perms where
  "PRESET_OPEN = preset True True
     [SEND_MESSAGE, INVITE, KICK, MANAGE_ROLES, VOICE_CHAT, SHARE_FILES]
     [SEND_MESSAGE, INVITE, VOICE_CHAT, SHARE_FILES]"

definition PRESET_SERVER :: perms where
  "PRESET_SERVER = preset False False
     [SEND_MESSAGE, INVITE, KICK, MANAGE_ROLES, CREATE_CHANNEL, VOICE_CHAT, SHARE_FILES]
     [SEND_MESSAGE, VOICE_CHAT, SHARE_FILES]"

section \<open>Helpers\<close>

definition perm_get :: "perms \<Rightarrow> string \<Rightarrow> pyval option" where
  "perm_get d k = map_of d (PStr k)"

fun flag_ok :: "pyval option \<Rightarrow> bool" where
  "flag_ok None = True"
| "flag_ok (Some (PBool _)) = True"
| "flag_ok (Some _) = False"

fun role_ok :: "pyval option \<Rightarrow> bool" where
  "role_ok None = True"
| "role_ok (Some (PList granted)) = list_all is_str granted"
| "role_ok (Some _) = False"

definition is_valid_permissions :: "pyval \<Rightarrow> bool" where
  "is_valid_permissions v =
     (case v of
        PDict d \<Rightarrow>
          list_all (\<lambda>flag. flag_ok (perm_get d flag)) [FLAG_OPEN_JOIN, FLAG_DISCOVERABLE]
          \<and> list_all (\<lambda>role. role_ok (perm_get d role)) [ROLE_OWNER, ROLE_ADMIN, ROLE_MEMBER]
      | _ \<Rightarrow> False)"

definition is_open_join :: "perms \<Rightarrow> bool" where
  "is_open_join d = truthy (case perm_get d FLAG_OPEN_JOIN of None \<Rightarrow> PBool False | Some v \<Rightarrow> v)"

definition is_discoverable :: "perms \<Rightarrow> bool" where
  "is_discoverable d = truthy (case perm_get d FLAG_DISCOVERABLE of None \<Rightarrow> PBool True | Some v \<Rightarrow> v)"

definition grantable_to :: "string \<Rightarrow> string list" where
  "grantable_to role =
     (if role = ROLE_MEMBER then filter (\<lambda>p. p \<notin> set ADMIN_ONLY_PERMISSIONS) ALL_PERMISSIONS
      else ALL_PERMISSIONS)"

definition offered_permissions :: "perms \<Rightarrow> string \<Rightarrow> string list" where
  "offered_permissions d role =
     (let offered = grantable_to role
      in if is_open_join d then filter (\<lambda>p. p \<noteq> FULL_SYNC) offered else offered)"

definition admin_only_value :: "pyval \<Rightarrow> bool" where
  "admin_only_value p = (p \<in> set (map PStr ADMIN_ONLY_PERMISSIONS))"

definition sanitise_permissions :: "perms \<Rightarrow> py_error + perms" where
  "sanitise_permissions d =
     (case perm_get d ROLE_MEMBER of
        Some (PList granted) \<Rightarrow>
          (let allowed = filter (\<lambda>p. \<not> admin_only_value p) granted
           in if length allowed = length granted then Inr d
              else if \<not> list_all hashable granted then Inl TypeError
              else Inr (AList.update (PStr ROLE_MEMBER) (PList allowed) d))
      | _ \<Rightarrow> Inr d)"

definition permissions_from_json :: "pyval option \<Rightarrow> py_error + perms" where
  "permissions_from_json loaded =
     (case loaded of
        None \<Rightarrow> Inr PRESET_PRIVATE
      | Some v \<Rightarrow>
          if \<not> is_valid_permissions v then Inr PRESET_PRIVATE
          else case v of PDict d \<Rightarrow> sanitise_permissions d | _ \<Rightarrow> Inr PRESET_PRIVATE)"

text \<open>\<^verbatim>\<open>s in v\<close> for a string \<open>s\<close>: membership in a list or the keys of a dict, the substring
  test in a string, a TypeError in anything else.\<close>

fun has_infix :: "'a list \<Rightarrow> 'a list \<Rightarrow> bool" where
  "has_infix s [] = (s = [])"
| "has_infix s (c # t) = (take (length s) (c # t) = s \<or> has_infix s t)"

fun py_in :: "string \<Rightarrow> pyval \<Rightarrow> py_error + bool" where
  "py_in s (PList xs) = Inr (PStr s \<in> set xs)"
| "py_in s (PTuple xs) = Inr (PStr s \<in> set xs)"
| "py_in s (PDict d) = Inr (PStr s \<in> fst ` set d)"
| "py_in s (PStr t) = Inr (has_infix s t)"
| "py_in s _ = Inl TypeError"

definition mentions_permission :: "perms \<Rightarrow> string \<Rightarrow> bool" where
  "mentions_permission d permission =
     list_ex (\<lambda>role. case perm_get d role of
                       Some (PList granted) \<Rightarrow> PStr permission \<in> set granted
                     | _ \<Rightarrow> False) ALL_ROLES"

definition has_permission :: "perms \<Rightarrow> string \<Rightarrow> string \<Rightarrow> py_error + bool" where
  "has_permission d role permission =
     (if role = ROLE_OWNER then Inr True
      else let granted = (case perm_get d role of None \<Rightarrow> PList [] | Some v \<Rightarrow> v)
           in case py_in permission granted of
                Inl e \<Rightarrow> Inl e
              | Inr b \<Rightarrow>
                  if b then Inr True
                  else if permission = SHARE_FILES \<and> \<not> mentions_permission d SHARE_FILES
                  then py_in SEND_MESSAGE granted
                  else Inr False)"

text \<open>The permission check as its callers read it: granted, and no exception.\<close>

definition granted :: "perms \<Rightarrow> string \<Rightarrow> string \<Rightarrow> bool" where
  "granted d role permission = (has_permission d role permission = Inr True)"

lemmas permission_defs [op_defs] =
  perm_get_def is_valid_permissions_def sanitise_permissions_def permissions_from_json_def
  mentions_permission_def has_permission_def preset_def PRESET_PRIVATE_def

section \<open>What a document can grant\<close>

lemma is_str_hashable: "is_str v \<Longrightarrow> hashable v"
  by (cases v) auto

lemma strs_hashable: "list_all is_str xs \<Longrightarrow> list_all hashable xs"
  by (auto simp: list_all_iff is_str_hashable)

lemma perm_get_update [simp]:
  "perm_get (AList.update (PStr k) v d) k' = (if k' = k then Some v else perm_get d k')"
  by (simp add: perm_get_def)

text \<open>The shape of a valid document, read off role by role.\<close>

fun str_of :: "pyval \<Rightarrow> string" where
  "str_of (PStr s) = s"
| "str_of _ = []"

fun role_list :: "pyval option \<Rightarrow> string list" where
  "role_list (Some (PList xs)) = map str_of xs"
| "role_list _ = []"

lemma is_strE: "is_str v \<Longrightarrow> v = PStr (str_of v)"
  by (cases v) auto

lemma PStr_in_strs: "list_all is_str xs \<Longrightarrow> (PStr s \<in> set xs) = (s \<in> set (map str_of xs))"
  by (force simp: list_all_iff dest: is_strE)

lemma py_in_role_list:
  "role_ok r \<Longrightarrow>
     py_in s (case r of None \<Rightarrow> PList [] | Some v \<Rightarrow> v) = Inr (s \<in> set (role_list r))"
  by (cases r rule: role_ok.cases) (simp_all add: PStr_in_strs)

lemma has_permission_role_list:
  assumes "role_ok (perm_get d role)" and "role \<noteq> ROLE_OWNER"
  shows "has_permission d role p =
    Inr (let xs = set (role_list (perm_get d role)) in
         p \<in> xs \<or> (p = SHARE_FILES \<and> \<not> mentions_permission d SHARE_FILES \<and> SEND_MESSAGE \<in> xs))"
  using assms(2) by (simp add: has_permission_def Let_def py_in_role_list [OF assms(1)])

lemma valid_role_ok:
  "is_valid_permissions (PDict d) \<Longrightarrow> role \<in> set ALL_ROLES \<Longrightarrow> role_ok (perm_get d role)"
  by (auto simp: is_valid_permissions_def ALL_ROLES_def)

lemma filter_same_length: "length (filter P xs) = length xs \<Longrightarrow> filter P xs = xs"
  by (metis filter_id_conv length_filter_less less_irrefl)

lemma admin_only_str: "is_str p \<Longrightarrow> admin_only_value p = (str_of p \<in> set ADMIN_ONLY_PERMISSIONS)"
  by (cases p) (auto simp: admin_only_value_def)

lemma allowed_strs:
  "list_all is_str ys \<Longrightarrow>
     set (map str_of (filter (\<lambda>p. \<not> admin_only_value p) ys)) = set (map str_of ys) - set ADMIN_ONLY_PERMISSIONS"
  by (auto simp: list_all_iff admin_only_str)

text \<open>Sanitising a valid document succeeds, keeps it valid, takes the restricted
  permissions from the member role and touches nothing else.\<close>

lemma sanitise_valid:
  assumes "is_valid_permissions (PDict d)"
  obtains d' where "sanitise_permissions d = Inr d'" "is_valid_permissions (PDict d')"
    "set (role_list (perm_get d' ROLE_MEMBER)) = set (role_list (perm_get d ROLE_MEMBER)) - set ADMIN_ONLY_PERMISSIONS"
    "\<And>k. k \<noteq> ROLE_MEMBER \<Longrightarrow> perm_get d' k = perm_get d k"
proof (cases "perm_get d ROLE_MEMBER" rule: role_ok.cases)
  case 1
  then show ?thesis using assms that [of d] by (simp add: sanitise_permissions_def)
next
  case (2 ys)
  with assms have str: "list_all is_str ys"
    by (simp add: is_valid_permissions_def)
  let ?a = "filter (\<lambda>p. \<not> admin_only_value p) ys"
  let ?d = "AList.update (PStr ROLE_MEMBER) (PList ?a) d"
  have a_str: "list_all is_str ?a" using str by (auto simp: list_all_iff)
  have minus: "set (map str_of ?a) = set (map str_of ys) - set ADMIN_ONLY_PERMISSIONS"
    using str by (rule allowed_strs)
  show ?thesis
  proof (cases "length ?a = length ys")
    case True
    from filter_same_length [OF this] minus
    show ?thesis using 2 assms True that [of d] by (simp add: sanitise_permissions_def)
  next
    case False
    with 2 str have "sanitise_permissions d = Inr ?d"
      by (simp add: sanitise_permissions_def strs_hashable)
    moreover have "is_valid_permissions (PDict ?d)"
      using assms a_str by (simp add: is_valid_permissions_def)
    ultimately show ?thesis using minus 2 that [of ?d] by simp
  qed
qed (use assms in \<open>auto simp: is_valid_permissions_def\<close>)

lemma preset_private_valid: "is_valid_permissions (PDict PRESET_PRIVATE)"
  by (simp add: is_valid_permissions_def PRESET_PRIVATE_def preset_def perm_get_def)

lemma preset_private_member:
  "role_list (perm_get PRESET_PRIVATE ROLE_MEMBER) = [SEND_MESSAGE, VOICE_CHAT, SHARE_FILES]"
  by (simp add: PRESET_PRIVATE_def preset_def perm_get_def)

lemma permissions_from_json_cases:
  obtains (fallback) "permissions_from_json v = Inr PRESET_PRIVATE"
  | (parsed) d where "v = Some (PDict d)" "is_valid_permissions (PDict d)"
      "permissions_from_json v = sanitise_permissions d"
proof (cases "\<exists>d. v = Some (PDict d) \<and> is_valid_permissions (PDict d)")
  case True
  then show ?thesis using parsed by (auto simp: permissions_from_json_def)
next
  case False
  then have "permissions_from_json v = Inr PRESET_PRIVATE"
    by (auto simp: permissions_from_json_def is_valid_permissions_def split: option.split pyval.split)
  then show ?thesis by (rule fallback)
qed

text \<open>Whatever was loaded, reading it returns a valid document with no restricted
  permission in the member's list.\<close>

lemma loaded_permissions:
  obtains d where "permissions_from_json v = Inr d" "is_valid_permissions (PDict d)"
    "set (role_list (perm_get d ROLE_MEMBER)) \<inter> set ADMIN_ONLY_PERMISSIONS = {}"
proof (cases v rule: permissions_from_json_cases)
  case fallback
  then show ?thesis
    by (rule that [OF _ preset_private_valid]) (simp add: preset_private_member ADMIN_ONLY_PERMISSIONS_def)
next
  case (parsed d)
  from parsed(2) obtain d' where "sanitise_permissions d = Inr d'" "is_valid_permissions (PDict d')"
    "set (role_list (perm_get d' ROLE_MEMBER)) = set (role_list (perm_get d ROLE_MEMBER)) - set ADMIN_ONLY_PERMISSIONS"
    by (rule sanitise_valid)
  with parsed(3) that [of d'] show ?thesis by auto
qed

lemma owner_has_all: "has_permission d ROLE_OWNER p = Inr True"
  by (simp add: has_permission_def)

lemma loaded_valid: "permissions_from_json v = Inr d \<Longrightarrow> is_valid_permissions (PDict d)"
  by (metis loaded_permissions sum.inject(2))

lemma valid_has_permission:
  "is_valid_permissions (PDict d) \<Longrightarrow> role \<in> set ALL_ROLES \<Longrightarrow> \<exists>b. has_permission d role p = Inr b"
  by (cases "role = ROLE_OWNER") (blast intro: owner_has_all has_permission_role_list valid_role_ok)+

lemma member_refused:
  assumes "is_valid_permissions (PDict d)" and "q \<in> set ADMIN_ONLY_PERMISSIONS"
    and "set (role_list (perm_get d ROLE_MEMBER)) \<inter> set ADMIN_ONLY_PERMISSIONS = {}"
  shows "has_permission d ROLE_MEMBER q = Inr False"
proof -
  have "role_ok (perm_get d ROLE_MEMBER)" using assms(1) by (rule valid_role_ok) (simp add: ALL_ROLES_def)
  moreover have "q \<noteq> SHARE_FILES" "q \<notin> set (role_list (perm_get d ROLE_MEMBER))"
    using assms(2,3) by (auto simp: ADMIN_ONLY_PERMISSIONS_def)
  ultimately show ?thesis by (simp add: has_permission_role_list)
qed

text \<open>Fail-closed permission reading. For every possible outcome of parsing a stored or
  received permissions blob, reading it raises nothing and yields a well-shaped document;
  under it every role query is answered without an exception, the owner holds every
  permission, and the member role is refused KICK and MANAGE_ROLES whatever the blob said.\<close>

theorem member_never_admin_only:
  "\<exists>d. permissions_from_json loaded = Inr d \<and> is_valid_permissions (PDict d)
     \<and> (\<exists>b. has_permission d ROLE_ADMIN p = Inr b) \<and> (\<exists>b. has_permission d ROLE_MEMBER p = Inr b)
     \<and> has_permission d ROLE_OWNER p = Inr True
     \<and> has_permission d ROLE_MEMBER KICK = Inr False
     \<and> has_permission d ROLE_MEMBER MANAGE_ROLES = Inr False"
proof -
  obtain d where d: "permissions_from_json loaded = Inr d" "is_valid_permissions (PDict d)"
    "set (role_list (perm_get d ROLE_MEMBER)) \<inter> set ADMIN_ONLY_PERMISSIONS = {}"
    by (rule loaded_permissions)
  have "has_permission d ROLE_MEMBER KICK = Inr False" "has_permission d ROLE_MEMBER MANAGE_ROLES = Inr False"
    using d(2,3) by (auto intro!: member_refused simp: ADMIN_ONLY_PERMISSIONS_def)
  moreover have "\<exists>b. has_permission d ROLE_ADMIN p = Inr b" "\<exists>b. has_permission d ROLE_MEMBER p = Inr b"
    using d(2) by (rule valid_has_permission, simp add: ALL_ROLES_def)+
  ultimately show ?thesis using d(1,2) owner_has_all by blast
qed

text \<open>Reading a document that was read before changes nothing.\<close>

lemma sanitise_idempotent:
  "is_valid_permissions (PDict d) \<Longrightarrow> sanitise_permissions d = Inr d' \<Longrightarrow> sanitise_permissions d' = Inr d'"
  by (cases "perm_get d ROLE_MEMBER" rule: role_ok.cases)
    (auto simp: sanitise_permissions_def Let_def split: if_splits)

end
