(* ===== verification/Protocol.thy ===== *)
theory Protocol
  imports Prelude
begin

text \<open>
  \<^verbatim>\<open>trenchchat/core/protocol.py\<close>: the field dictionaries TrenchChat puts on the wire,
  mentions, message identifiers, the bounded unpacking of peer payloads, plausible
  timestamps, file manifests, and the digest an author signs.

  Parameters stand for code outside the repository: \<open>sha\<close> for SHA-256, \<open>packb\<close> and
  \<open>unpackb\<close> for msgpack (\<open>None\<close> where it raises), \<open>decode\<close> for UTF-8 decoding with
  replacement (its output may leave Latin-1), \<open>repr\<close> for \<^verbatim>\<open>str()\<close> of values that are
  neither text nor integers, \<open>parse_float\<close> for \<^verbatim>\<open>float()\<close> of a text or bytes value, and
  \<open>kt\<close>, \<open>kd\<close>, \<open>ki\<close> for the field numbers that the LXMF library reserves.
\<close>

type_synonym fields = "(pyval \<times> pyval) list"

section \<open>Field keys\<close>

abbreviation F_CHANNEL_HASH :: int where "F_CHANNEL_HASH \<equiv> 0x01"
abbreviation F_DISPLAY_NAME :: int where "F_DISPLAY_NAME \<equiv> 0x02"
abbreviation F_TIMESTAMP :: int where "F_TIMESTAMP \<equiv> 0x03"
abbreviation F_MESSAGE_ID :: int where "F_MESSAGE_ID \<equiv> 0x04"
abbreviation F_REPLY_TO :: int where "F_REPLY_TO \<equiv> 0x05"
abbreviation F_LAST_SEEN_ID :: int where "F_LAST_SEEN_ID \<equiv> 0x06"
abbreviation F_IMAGE_DATA :: int where "F_IMAGE_DATA \<equiv> 0x0D"
abbreviation F_AUTHOR_SIG :: int where "F_AUTHOR_SIG \<equiv> 0x70"
abbreviation F_MSG_TYPE :: int where "F_MSG_TYPE \<equiv> 0x10"
abbreviation F_INVITE_TOKEN :: int where "F_INVITE_TOKEN \<equiv> 0x11"
abbreviation F_INVITEE_HASH :: int where "F_INVITEE_HASH \<equiv> 0x12"
abbreviation F_EXPIRY_TS :: int where "F_EXPIRY_TS \<equiv> 0x13"
abbreviation F_ADMIN_HASH :: int where "F_ADMIN_HASH \<equiv> 0x14"
abbreviation F_INVITE_ISSUED_TS :: int where "F_INVITE_ISSUED_TS \<equiv> 0x15"
abbreviation F_MEMBER_LIST_DOC :: int where "F_MEMBER_LIST_DOC \<equiv> 0x21"
abbreviation F_CHANNEL_NAME :: int where "F_CHANNEL_NAME \<equiv> 0x22"
abbreviation F_CHANNEL_DESC :: int where "F_CHANNEL_DESC \<equiv> 0x23"
abbreviation F_CHANNEL_CREATOR :: int where "F_CHANNEL_CREATOR \<equiv> 0x24"
abbreviation F_CHANNEL_ACCESS :: int where "F_CHANNEL_ACCESS \<equiv> 0x25"
abbreviation F_CHANNEL_CREATED_AT :: int where "F_CHANNEL_CREATED_AT \<equiv> 0x26"
abbreviation F_CHANNEL_PERMISSIONS :: int where "F_CHANNEL_PERMISSIONS \<equiv> 0x27"
abbreviation F_SCOPE_KIND :: int where "F_SCOPE_KIND \<equiv> 0x28"
abbreviation F_FRIEND_NOTE :: int where "F_FRIEND_NOTE \<equiv> 0x80"
abbreviation F_FILE_NAME :: int where "F_FILE_NAME \<equiv> 0x90"
abbreviation F_FILE_SIZE :: int where "F_FILE_SIZE \<equiv> 0x91"
abbreviation F_FILE_HASH :: int where "F_FILE_HASH \<equiv> 0x92"
abbreviation F_FILE_CHUNK_ROOT :: int where "F_FILE_CHUNK_ROOT \<equiv> 0x93"

abbreviation MT_SUBSCRIBE :: string where "MT_SUBSCRIBE \<equiv> ''subscribe''"
abbreviation MT_UNSUBSCRIBE :: string where "MT_UNSUBSCRIBE \<equiv> ''unsubscribe''"
abbreviation MT_SUBSCRIBER_LIST :: string where "MT_SUBSCRIBER_LIST \<equiv> ''subscriber_list''"
abbreviation MT_INVITE :: string where "MT_INVITE \<equiv> ''invite''"
abbreviation MT_JOIN_REQUEST :: string where "MT_JOIN_REQUEST \<equiv> ''join_request''"
abbreviation MT_MEMBER_LIST_UPDATE :: string where "MT_MEMBER_LIST_UPDATE \<equiv> ''member_list_update''"
abbreviation MT_MISSED_DELIVERY :: string where "MT_MISSED_DELIVERY \<equiv> ''missed_delivery''"
abbreviation MT_SYNC_REQUEST :: string where "MT_SYNC_REQUEST \<equiv> ''sync_request''"
abbreviation MT_SYNC_RESPONSE :: string where "MT_SYNC_RESPONSE \<equiv> ''sync_response''"
abbreviation MT_PRESENCE :: string where "MT_PRESENCE \<equiv> ''presence''"
abbreviation MT_GOODBYE :: string where "MT_GOODBYE \<equiv> ''goodbye''"
abbreviation MT_REACTION :: string where "MT_REACTION \<equiv> ''reaction''"

definition SYNC_WINDOW_SECS :: secs where "SYNC_WINDOW_SECS = 7 * 86400"

definition field_get :: "fields \<Rightarrow> int \<Rightarrow> pyval" where
  "field_get fields k = get_or PNone fields (PInt k)"

section \<open>Mentions\<close>

definition MENTION_HEX_CHARS :: nat where "MENTION_HEX_CHARS = 32"
definition MAX_MENTIONS_PER_MESSAGE :: nat where "MAX_MENTIONS_PER_MESSAGE = 32"

definition is_hex :: "char \<Rightarrow> bool" where
  "is_hex c = (hex_val c \<noteq> None)"

definition mention_token :: "hexid \<Rightarrow> string" where
  "mention_token identity_hash_hex = CHR ''@'' # identity_hash_hex"

text \<open>The regular expression \<^verbatim>\<open>@([0-9a-fA-F]{32})(?![0-9a-fA-F])\<close> just after its first
  character, and the leftmost matches of it that do not overlap.\<close>

definition mention_group :: "string \<Rightarrow> bool" where
  "mention_group s =
     (length (take MENTION_HEX_CHARS s) = MENTION_HEX_CHARS
      \<and> list_all is_hex (take MENTION_HEX_CHARS s)
      \<and> (case drop MENTION_HEX_CHARS s of [] \<Rightarrow> True | c # _ \<Rightarrow> \<not> is_hex c))"

fun mention_matches :: "string \<Rightarrow> string list" where
  "mention_matches [] = []"
| "mention_matches (c # s) =
     (if c = CHR ''@'' \<and> mention_group s
      then take MENTION_HEX_CHARS s # mention_matches (drop MENTION_HEX_CHARS s)
      else mention_matches s)"

text \<open>The loop over the matches: lower-cased, without repeats, up to the cap.\<close>

fun collect_mentions :: "string list \<Rightarrow> string list \<Rightarrow> string list" where
  "collect_mentions found [] = found"
| "collect_mentions found (m # ms) =
     (let hex_hash = lower m
      in if hex_hash \<in> set found then collect_mentions found ms
         else if length (found @ [hex_hash]) \<ge> MAX_MENTIONS_PER_MESSAGE then found @ [hex_hash]
         else collect_mentions (found @ [hex_hash]) ms)"

definition mentions_in :: "string \<Rightarrow> string list" where
  "mentions_in content =
     (if content = [] \<or> CHR ''@'' \<notin> set content then []
      else collect_mentions [] (mention_matches content))"

definition mentions_identity :: "string \<Rightarrow> hexid \<Rightarrow> bool" where
  "mentions_identity content identity_hash_hex =
     (identity_hash_hex \<noteq> [] \<and> lower identity_hash_hex \<in> set (mentions_in content))"

section \<open>Message identifiers\<close>

definition MESSAGE_ID_BYTES :: nat where "MESSAGE_ID_BYTES = 32"

definition message_id_to_wire :: "string option \<Rightarrow> pyval" where
  "message_id_to_wire message_id =
     (case message_id of
        None \<Rightarrow> PNone
      | Some m \<Rightarrow>
          if m = [] then PNone
          else (case fromhex m of
                  None \<Rightarrow> PStr m
                | Some raw \<Rightarrow> if length raw = MESSAGE_ID_BYTES then PBytes raw else PStr m))"

definition message_id_from_wire :: "(bytes \<Rightarrow> string) \<Rightarrow> pyval \<Rightarrow> string" where
  "message_id_from_wire decode v =
     (case v of
        PBytes b \<Rightarrow> if length b = MESSAGE_ID_BYTES then to_hex b else decode b
      | PStr s \<Rightarrow> s
      | _ \<Rightarrow> [])"

section \<open>Bounded unpacking and the envelope\<close>

definition MAX_WIRE_PAYLOAD :: nat where "MAX_WIRE_PAYLOAD = 4 * 1024 * 1024"

definition unpack_wire :: "(bytes \<Rightarrow> pyval option) \<Rightarrow> bytes \<Rightarrow> pyval option" where
  "unpack_wire unpackb payload =
     (if length payload > MAX_WIRE_PAYLOAD then None else unpackb payload)"

lemma unpack_wire_code [code]:
  "unpack_wire unpackb payload = (if int (length payload) > 4194304 then None else unpackb payload)"
  by (simp add: unpack_wire_def MAX_WIRE_PAYLOAD_def)

definition ENVELOPE_TYPE :: string where "ENVELOPE_TYPE = ''trenchchat/1''"
definition DM_ENVELOPE_TYPE :: string where "DM_ENVELOPE_TYPE = ''trenchchat/dm/1''"

definition envelope_type :: "(bytes \<Rightarrow> string) \<Rightarrow> int \<Rightarrow> fields \<Rightarrow> string option" where
  "envelope_type decode kt fields =
     (case (if fields = [] then PNone else field_get fields kt) of
        PBytes b \<Rightarrow> Some (decode b)
      | PStr s \<Rightarrow> Some s
      | _ \<Rightarrow> None)"

definition pack_fields :: "(pyval \<Rightarrow> bytes) \<Rightarrow> int \<Rightarrow> int \<Rightarrow> fields \<Rightarrow> fields" where
  "pack_fields packb kt kd fields =
     [(PInt kt, PStr ENVELOPE_TYPE), (PInt kd, PBytes (packb (PDict fields)))]"

definition is_protocol_envelope :: "(bytes \<Rightarrow> string) \<Rightarrow> int \<Rightarrow> fields \<Rightarrow> bool" where
  "is_protocol_envelope decode kt fields = (envelope_type decode kt fields = Some ENVELOPE_TYPE)"

definition unpack_fields ::
    "(bytes \<Rightarrow> string) \<Rightarrow> (bytes \<Rightarrow> pyval option) \<Rightarrow> int \<Rightarrow> int \<Rightarrow> fields \<Rightarrow> fields option" where
  "unpack_fields decode unpackb kt kd fields =
     (if \<not> is_protocol_envelope decode kt fields then None
      else case field_get fields kd of
             PBytes payload \<Rightarrow>
               (case unpack_wire unpackb payload of
                  Some (PDict d) \<Rightarrow> Some d
                | _ \<Rightarrow> None)
           | _ \<Rightarrow> None)"

definition pack_dm_envelope ::
    "(pyval \<Rightarrow> bytes) \<Rightarrow> string \<Rightarrow> secs \<Rightarrow> string \<Rightarrow> string option \<Rightarrow> string option
      \<Rightarrow> bytes option \<Rightarrow> bytes" where
  "pack_dm_envelope packb message_id timestamp display_name reply_to last_seen_id author_sig =
     packb (PDict
       [(PStr ''message_id'', message_id_to_wire (Some message_id)),
        (PStr ''timestamp'', PFloat (Finite timestamp)),
        (PStr ''display_name'', PStr display_name),
        (PStr ''reply_to'', message_id_to_wire reply_to),
        (PStr ''last_seen_id'', message_id_to_wire last_seen_id),
        (PStr ''author_sig'', case author_sig of None \<Rightarrow> PNone | Some b \<Rightarrow> PBytes b)])"

definition dm_id_from_wire :: "(bytes \<Rightarrow> string) \<Rightarrow> fields \<Rightarrow> string \<Rightarrow> fields" where
  "dm_id_from_wire decode d key =
     (case map_of d (PStr key) of
        None \<Rightarrow> d
      | Some PNone \<Rightarrow> d
      | Some v \<Rightarrow> AList.update (PStr key) (PStr (message_id_from_wire decode v)) d)"

definition unpack_dm_envelope ::
    "(bytes \<Rightarrow> string) \<Rightarrow> (bytes \<Rightarrow> pyval option) \<Rightarrow> int \<Rightarrow> int \<Rightarrow> fields \<Rightarrow> fields option" where
  "unpack_dm_envelope decode unpackb kt kd fields =
     (if envelope_type decode kt fields \<noteq> Some DM_ENVELOPE_TYPE then None
      else case field_get fields kd of
             PBytes payload \<Rightarrow>
               (case unpack_wire unpackb payload of
                  Some (PDict d) \<Rightarrow>
                    Some (foldl (dm_id_from_wire decode) d [''message_id'', ''reply_to'', ''last_seen_id''])
                | _ \<Rightarrow> None)
           | _ \<Rightarrow> None)"

text \<open>The first bytes part of a list or tuple, or the value itself; empty bytes are no
  image.\<close>

fun first_bytes :: "pyval list \<Rightarrow> pyval" where
  "first_bytes [] = PNone"
| "first_bytes (PBytes b # _) = PBytes b"
| "first_bytes (_ # xs) = first_bytes xs"

definition inbound_image :: "int \<Rightarrow> fields \<Rightarrow> bytes option" where
  "inbound_image ki fields =
     (if fields = [] then None
      else let value = field_get fields ki;
               value = (case seq_of value of Some parts \<Rightarrow> first_bytes parts | None \<Rightarrow> value)
           in case value of PBytes b \<Rightarrow> (if b = [] then None else Some b) | _ \<Rightarrow> None)"

section \<open>Timestamps\<close>

definition MAX_CLOCK_SKEW_SECS :: secs where "MAX_CLOCK_SKEW_SECS = 300"

text \<open>\<^verbatim>\<open>float(v)\<close>; an integer too large for a double is an OverflowError.\<close>

definition float_of ::
    "(pyval \<Rightarrow> pyfloat option) \<Rightarrow> pyval \<Rightarrow> py_error + pyfloat" where
  "float_of parse_float v =
     (case v of
        PFloat f \<Rightarrow> Inr f
      | PBool b \<Rightarrow> Inr (Finite (if b then 1 else 0))
      | PInt i \<Rightarrow> if \<bar>i\<bar> < 2 ^ 1024 - 2 ^ 970 then Inr (Finite (of_int i)) else Inl OverflowError
      | PStr s \<Rightarrow> (case parse_float v of None \<Rightarrow> Inl ValueError | Some f \<Rightarrow> Inr f)
      | PBytes b \<Rightarrow> (case parse_float v of None \<Rightarrow> Inl ValueError | Some f \<Rightarrow> Inr f)
      | _ \<Rightarrow> Inl TypeError)"

definition wire_timestamp ::
    "(pyval \<Rightarrow> pyfloat option) \<Rightarrow> pyval \<Rightarrow> secs \<Rightarrow> py_error + secs option" where
  "wire_timestamp parse_float v now =
     (case float_of parse_float v of
        Inl TypeError \<Rightarrow> Inr None
      | Inl ValueError \<Rightarrow> Inr None
      | Inl e \<Rightarrow> Inl e
      | Inr (Finite ts) \<Rightarrow>
          if ts < 0 \<or> ts > now + MAX_CLOCK_SKEW_SECS then Inr None else Inr (Some ts)
      | Inr _ \<Rightarrow> Inr None)"

section \<open>Chunks and manifests\<close>

definition FILE_CHUNK_BYTES :: nat where "FILE_CHUNK_BYTES = 32 * 1024"
definition MAX_SHARED_FILE_BYTES :: int where "MAX_SHARED_FILE_BYTES = 5 * 1024 * 1024"
definition MAX_FILE_NAME_CHARS :: nat where "MAX_FILE_NAME_CHARS = 128"
definition FILE_DIGEST_BYTES :: nat where "FILE_DIGEST_BYTES = 32"

function chunks_of :: "nat \<Rightarrow> 'a list \<Rightarrow> 'a list list" where
  "chunks_of n xs = (if n = 0 \<or> xs = [] then [] else take n xs # chunks_of n (drop n xs))"
  by pat_completeness auto
termination by (relation "measure (\<lambda>(n, xs). length xs)") auto

declare chunks_of.simps [simp del]

definition chunk_hashes :: "(bytes \<Rightarrow> bytes) \<Rightarrow> bytes \<Rightarrow> bytes list" where
  "chunk_hashes sha data = map sha (chunks_of FILE_CHUNK_BYTES data)"

definition chunk_root :: "(bytes \<Rightarrow> bytes) \<Rightarrow> bytes list \<Rightarrow> bytes" where
  "chunk_root sha hash_list = sha (concat hash_list)"

record manifest =
  man_name :: pyval
  man_size :: pyval
  man_hash :: "bytes option"
  man_root :: "bytes option"

definition name_is_clean :: "string \<Rightarrow> bool" where
  "name_is_clean name =
     (if name = [] \<or> length name > MAX_FILE_NAME_CHARS then False
      else if name \<noteq> strip_by (\<lambda>c. c = CHR ''.'') (strip_by is_py_space name) then False
      else if list_ex (\<lambda>c. c \<in> set name) [CHR ''/'', CHR 0x5C, CHR 0x22] then False
      else list_all is_printable name)"

definition file_manifest :: "pyval \<Rightarrow> pyval \<Rightarrow> bytes option \<Rightarrow> bytes option \<Rightarrow> manifest option" where
  "file_manifest name fsize file_hash root_digest =
     (case name of
        PStr n \<Rightarrow>
          if \<not> name_is_clean n then None
          else (case fsize of
                  PInt k \<Rightarrow>
                    if k < 1 \<or> k > MAX_SHARED_FILE_BYTES then None
                    else (case (file_hash, root_digest) of
                            (Some h, Some r) \<Rightarrow>
                              if length h \<noteq> FILE_DIGEST_BYTES \<or> length r \<noteq> FILE_DIGEST_BYTES then None
                              else Some \<lparr>man_name = name, man_size = fsize, man_hash = Some h, man_root = Some r\<rparr>
                          | _ \<Rightarrow> None)
                | _ \<Rightarrow> None)
      | _ \<Rightarrow> None)"

definition digest_from_wire :: "(bytes \<Rightarrow> string) \<Rightarrow> pyval \<Rightarrow> bytes option" where
  "digest_from_wire decode v =
     (let hex_digest = (\<lambda>s. case fromhex (strip_by is_py_space s) of
                              None \<Rightarrow> None
                            | Some raw \<Rightarrow> if length raw = FILE_DIGEST_BYTES then Some raw else None)
      in case v of
           PBytes b \<Rightarrow> if length b = FILE_DIGEST_BYTES then Some b else hex_digest (decode b)
         | PStr s \<Rightarrow> hex_digest s
         | _ \<Rightarrow> None)"

definition manifest_from_wire ::
    "(bytes \<Rightarrow> string) \<Rightarrow> pyval \<Rightarrow> pyval \<Rightarrow> pyval \<Rightarrow> pyval \<Rightarrow> manifest option" where
  "manifest_from_wire decode name fsize file_hash root_digest =
     (if name = PNone \<and> fsize = PNone \<and> file_hash = PNone \<and> root_digest = PNone then None
      else Some \<lparr>man_name = (case name of PBytes b \<Rightarrow> PStr (decode b) | _ \<Rightarrow> name),
                 man_size = fsize,
                 man_hash = digest_from_wire decode file_hash,
                 man_root = digest_from_wire decode root_digest\<rparr>)"

definition inbound_manifest :: "(bytes \<Rightarrow> string) \<Rightarrow> fields \<Rightarrow> manifest option" where
  "inbound_manifest decode fs =
     (if fs = [] then None
      else manifest_from_wire decode (field_get fs F_FILE_NAME) (field_get fs F_FILE_SIZE)
             (field_get fs F_FILE_HASH) (field_get fs F_FILE_CHUNK_ROOT))"

definition carries_manifest :: "fields \<Rightarrow> bool" where
  "carries_manifest fs =
     (fs \<noteq> [] \<and> list_ex (\<lambda>k. PInt k \<in> fst ` set fs)
        [F_FILE_NAME, F_FILE_SIZE, F_FILE_HASH, F_FILE_CHUNK_ROOT])"

definition opt_bytes :: "bytes option \<Rightarrow> pyval" where
  "opt_bytes b = (case b of None \<Rightarrow> PNone | Some x \<Rightarrow> PBytes x)"

definition manifest_fields :: "manifest \<Rightarrow> fields" where
  "manifest_fields m =
     [(PInt F_FILE_NAME, man_name m), (PInt F_FILE_SIZE, man_size m),
      (PInt F_FILE_HASH, opt_bytes (man_hash m)), (PInt F_FILE_CHUNK_ROOT, opt_bytes (man_root m))]"

section \<open>The author digest\<close>

text \<open>\<^verbatim>\<open>struct.pack(">I", n)\<close>; a length of 2^32 or more is a struct.error (\<open>None\<close>).\<close>

definition be32 :: "nat \<Rightarrow> bytes" where
  "be32 n = [of_nat (n div 2 ^ 24), of_nat (n div 2 ^ 16 mod 256), of_nat (n div 2 ^ 8 mod 256), of_nat (n mod 256)]"

fun length_prefixed :: "bytes list \<Rightarrow> bytes option" where
  "length_prefixed [] = Some []"
| "length_prefixed (p # ps) =
     (if length p \<ge> 2 ^ 32 then None
      else map_option (\<lambda>rest. be32 (length p) @ p @ rest) (length_prefixed ps))"

text \<open>\<^verbatim>\<open>f"{t:.6f}"\<close>: the exact value rounded half to even at the sixth decimal.\<close>

definition round_half_even :: "rat \<Rightarrow> int" where
  "round_half_even x =
     (let f = \<lfloor>x\<rfloor>; r = x - of_int f
      in if r < 1/2 then f else if r > 1/2 then f + 1 else if even f then f else f + 1)"

definition pad6 :: "nat \<Rightarrow> string" where
  "pad6 n = (let s = dec_nat n in replicate (6 - length s) (CHR ''0'') @ s)"

definition fmt6 :: "secs \<Rightarrow> string" where
  "fmt6 t =
     (let n = nat (round_half_even (\<bar>t\<bar> * 10 ^ 6))
      in (if t < 0 then [CHR ''-''] else []) @ dec_nat (n div 10 ^ 6) @ [CHR ''.''] @ pad6 (n mod 10 ^ 6))"

definition str_or_empty :: "(pyval \<Rightarrow> string) \<Rightarrow> pyval \<Rightarrow> string" where
  "str_or_empty repr v =
     (if \<not> truthy v then [] else case v of PStr s \<Rightarrow> s | PInt i \<Rightarrow> dec_int i | _ \<Rightarrow> repr v)"

definition str_or_zero :: "(pyval \<Rightarrow> string) \<Rightarrow> pyval \<Rightarrow> string" where
  "str_or_zero repr v =
     (if \<not> truthy v then ''0'' else case v of PStr s \<Rightarrow> s | PInt i \<Rightarrow> dec_int i | _ \<Rightarrow> repr v)"

definition AUTHOR_SIG_DOMAIN :: bytes where
  "AUTHOR_SIG_DOMAIN = utf8 ''trenchchat-author-v1''"

definition or_empty :: "'a list option \<Rightarrow> 'a list" where
  "or_empty x = (case x of None \<Rightarrow> [] | Some s \<Rightarrow> s)"

record signed_message =
  sm_id :: string
  sm_timestamp :: secs
  sm_content :: string
  sm_reply_to :: "string option"
  sm_last_seen :: "string option"
  sm_image :: "bytes option"
  sm_manifest :: "manifest option"

definition author_parts ::
    "(bytes \<Rightarrow> bytes) \<Rightarrow> (pyval \<Rightarrow> string) \<Rightarrow> bytes \<Rightarrow> signed_message \<Rightarrow> bytes list" where
  "author_parts sha repr channel m =
     [AUTHOR_SIG_DOMAIN, channel, utf8 (sm_id m), utf8 (fmt6 (sm_timestamp m)),
      utf8 (or_empty (sm_reply_to m)), utf8 (or_empty (sm_last_seen m)),
      sha (or_empty (sm_image m)), utf8 (sm_content m)]
     @ (case sm_manifest m of
          None \<Rightarrow> []
        | Some man \<Rightarrow>
            [or_empty (man_hash man), or_empty (man_root man),
             utf8 (str_or_empty repr (man_name man)), utf8 (str_or_zero repr (man_size man))])"

definition author_digest ::
    "(bytes \<Rightarrow> bytes) \<Rightarrow> (pyval \<Rightarrow> string) \<Rightarrow> hexid \<Rightarrow> signed_message \<Rightarrow> bytes option" where
  "author_digest sha repr channel_hash_hex m =
     (case fromhex channel_hash_hex of
        None \<Rightarrow> None
      | Some channel \<Rightarrow> map_option sha (length_prefixed (author_parts sha repr channel m)))"

lemmas protocol_defs [op_defs] =
  mentions_in_def mentions_identity_def message_id_to_wire_def message_id_from_wire_def
  unpack_wire_def envelope_type_def pack_fields_def unpack_fields_def wire_timestamp_def
  name_is_clean_def file_manifest_def manifest_from_wire_def inbound_manifest_def

section \<open>Evaluation\<close>

lemma round_nonneg: "0 \<le> x \<Longrightarrow> 0 \<le> round_half_even x"
  by (simp add: round_half_even_def Let_def)

text \<open>Evaluation over the integers, where numbers are binary.\<close>

lemma fmt6_code [code]:
  "fmt6 t = (let i = round_half_even (\<bar>t\<bar> * 1000000)
     in (if t < 0 then [CHR ''-''] else []) @ dec_nat (nat (i div 1000000)) @ [CHR ''.''] @ pad6 (nat (i mod 1000000)))"
  using round_nonneg [of "\<bar>t\<bar> * 1000000"] by (simp add: fmt6_def Let_def nat_div_distrib nat_mod_distrib)

lemma length_prefixed_code [code]:
  "length_prefixed [] = Some []"
  "length_prefixed (p # ps) =
     (if int (length p) \<ge> 4294967296 then None
      else map_option (\<lambda>rest. be32 (length p) @ p @ rest) (length_prefixed ps))"
proof -
  have "(length p \<ge> 2 ^ 32) = (int (length p) \<ge> 4294967296)" by (simp add: nat_le_iff [symmetric])
  then show "length_prefixed (p # ps) =
     (if int (length p) \<ge> 4294967296 then None
      else map_option (\<lambda>rest. be32 (length p) @ p @ rest) (length_prefixed ps))" by simp
qed simp
lemma be32_code [code]:
  "be32 n = (let i = int n in [of_int (i div 16777216), of_int (i div 65536 mod 256), of_int (i div 256 mod 256), of_int (i mod 256)])"
proof -
  have "int n div 16777216 = int (n div 2 ^ 24)" "int n div 65536 mod 256 = int (n div 2 ^ 16 mod 256)"
    "int n div 256 mod 256 = int (n div 2 ^ 8 mod 256)" "int n mod 256 = int (n mod 256)"
    by (simp_all add: zdiv_int zmod_int)
  then show ?thesis unfolding be32_def Let_def by (simp only: of_int_of_nat_eq)
qed

section \<open>Mentions: what is read out of a text\<close>

definition identity_hex :: "string \<Rightarrow> bool" where
  "identity_hex h = (length h = MENTION_HEX_CHARS \<and> list_all is_hex h)"

lemma hex_val_lower: "is_hex c \<Longrightarrow> is_hex (lower_char c)"
  by (auto simp: is_hex_def hex_val_def lower_char_def Let_def split: if_splits)

lemma identity_hex_lower: "identity_hex h \<Longrightarrow> identity_hex (lower h)"
  by (auto simp: identity_hex_def lower_def list_all_iff hex_val_lower)

lemma mention_matches_hex: "m \<in> set (mention_matches s) \<Longrightarrow> identity_hex m"
  by (induction s rule: mention_matches.induct)
    (auto simp: mention_group_def identity_hex_def split: if_splits)

lemma collect_mentions_inv:
  assumes "distinct found" "length found < MAX_MENTIONS_PER_MESSAGE"
    "list_all identity_hex found" "list_all identity_hex ms"
  shows "distinct (collect_mentions found ms)
    \<and> length (collect_mentions found ms) \<le> MAX_MENTIONS_PER_MESSAGE
    \<and> list_all identity_hex (collect_mentions found ms)"
  using assms
  by (induction found ms rule: collect_mentions.induct) (auto simp: Let_def identity_hex_lower)

text \<open>What a reader extracts from any text: no identity twice, never more than the cap,
  and only 32-character hexadecimal hashes.\<close>

theorem mentions_in_sound:
  "distinct (mentions_in content) \<and> length (mentions_in content) \<le> MAX_MENTIONS_PER_MESSAGE
   \<and> list_all identity_hex (mentions_in content)"
  using collect_mentions_inv [of "[]" "mention_matches content"]
  by (auto simp: mentions_in_def MAX_MENTIONS_PER_MESSAGE_def list_all_iff mention_matches_hex)

lemma mention_matches_skip: "CHR ''@'' \<notin> set pre \<Longrightarrow> mention_matches (pre @ s) = mention_matches s"
  by (induction pre) auto

lemma mention_matches_none: "CHR ''@'' \<notin> set s \<Longrightarrow> mention_matches s = []"
  by (induction s) auto

lemma mention_matches_token:
  assumes "identity_hex h" and "CHR ''@'' \<notin> set post"
  shows "mention_matches (mention_token h @ post) = (if post \<noteq> [] \<and> is_hex (hd post) then [] else [h])"
proof -
  have at: "\<not> is_hex (CHR ''@'')" by (simp add: is_hex_def hex_val_def)
  then have "CHR ''@'' \<notin> set h" using assms(1) by (auto simp: identity_hex_def list_all_iff)
  then have rest: "mention_matches (h @ post) = []" "mention_matches post = []"
    using assms(2) by (simp_all add: mention_matches_none)
  have "mention_group (h @ post) = (\<not> (post \<noteq> [] \<and> is_hex (hd post)))"
    using assms(1) by (cases post) (auto simp: mention_group_def identity_hex_def)
  then show ?thesis using assms(1) rest by (simp add: mention_token_def identity_hex_def)
qed

text \<open>A written mention is read back. A token placed in a text that holds no other
  at-sign names exactly its identity (lower-cased), unless a hexadecimal character follows
  it, in which case the run is longer than a hash and names nobody.\<close>

theorem mention_token_read:
  assumes "identity_hex h" and "CHR ''@'' \<notin> set pre" and "CHR ''@'' \<notin> set post"
  shows "mentions_in (pre @ mention_token h @ post)
           = (if post \<noteq> [] \<and> is_hex (hd post) then [] else [lower h])
    \<and> mentions_identity (pre @ mention_token h @ post) h = (\<not> (post \<noteq> [] \<and> is_hex (hd post)))"
proof -
  have "h \<noteq> []" using assms(1) by (auto simp: identity_hex_def MENTION_HEX_CHARS_def)
  moreover have "CHR ''@'' \<in> set (pre @ mention_token h @ post)" by (simp add: mention_token_def)
  moreover have "mention_matches (pre @ mention_token h @ post) = mention_matches (mention_token h @ post)"
    using assms(2) by (rule mention_matches_skip)
  ultimately show ?thesis
    using mention_matches_token [OF assms(1,3)]
    by (auto simp: mentions_in_def mentions_identity_def MAX_MENTIONS_PER_MESSAGE_def Let_def)
qed

theorem mention_token_read_witness:
  "mentions_in (''hi '' @ mention_token (replicate 32 (CHR ''A'')) @ ''!'') = [replicate 32 (CHR ''a'')]
   \<and> \<not> mentions_identity (''hi '' @ mention_token (replicate 32 (CHR ''A'')) @ ''0'') (replicate 32 (CHR ''A''))"
proof -
  have h: "identity_hex (replicate 32 (CHR ''A''))"
    by (simp add: identity_hex_def MENTION_HEX_CHARS_def is_hex_def hex_val_def list_all_iff)
  have a: "CHR ''@'' \<notin> set ''hi ''" "CHR ''@'' \<notin> set ''!''" "CHR ''@'' \<notin> set ''0''" by simp_all
  have l: "lower (replicate 32 (CHR ''A'')) = replicate 32 (CHR ''a'')"
    by code_simp
  show ?thesis
    using mention_token_read [OF h a(1,2)] mention_token_read [OF h a(1,3)] l
    by (simp add: is_hex_def hex_val_def)
qed

section \<open>Identifiers, envelopes and timestamps\<close>

lemma message_id_any:
  "message_id_from_wire decode (message_id_to_wire (Some m)) =
     (case fromhex m of
        Some raw \<Rightarrow> if length raw = MESSAGE_ID_BYTES then to_hex raw else m
      | None \<Rightarrow> m)"
  by (cases "m = []") (auto simp: message_id_to_wire_def message_id_from_wire_def MESSAGE_ID_BYTES_def
      split: option.splits)

text \<open>A message identifier survives the wire: the hexadecimal text of a 32-byte digest
  comes back unchanged, text that is not a digest comes back unchanged, and only the
  spelling of a digest (capitals, white space) is normalised.\<close>

theorem message_id_wire_roundtrip:
  "message_id_from_wire decode (message_id_to_wire (Some (to_hex digest))) = to_hex digest
   \<and> message_id_from_wire decode (message_id_to_wire (Some m)) =
       (case fromhex m of
          Some raw \<Rightarrow> if length raw = MESSAGE_ID_BYTES then to_hex raw else m
        | None \<Rightarrow> m)"
  using message_id_any [of decode "to_hex digest"] message_id_any [of decode m] by simp

text \<open>The envelope round trip: whatever field dictionary a sender wraps, the receiver
  recognises the envelope and unwraps the same dictionary, provided msgpack reads back what
  it wrote and the packed form is under the payload cap.\<close>

theorem envelope_roundtrip:
  assumes "kt \<noteq> kd" and "unpackb (packb (PDict d)) = Some (PDict d)"
    and "length (packb (PDict d)) \<le> MAX_WIRE_PAYLOAD"
  shows "is_protocol_envelope decode kt (pack_fields packb kt kd d)
    \<and> unpack_fields decode unpackb kt kd (pack_fields packb kt kd d) = Some d"
  using assms
  by (simp add: is_protocol_envelope_def envelope_type_def pack_fields_def unpack_fields_def
      field_get_def unpack_wire_def)

theorem envelope_roundtrip_witness:
  "unpack_fields (\<lambda>_. []) (\<lambda>b. Some (PDict [(PInt F_CHANNEL_HASH, PBytes b)])) 251 252
     (pack_fields (\<lambda>v. case v of PDict [(_, PBytes b)] \<Rightarrow> b | _ \<Rightarrow> []) 251 252
        [(PInt F_CHANNEL_HASH, PBytes [1, 2, 3])]) = Some [(PInt F_CHANNEL_HASH, PBytes [1, 2, 3])]"
  using envelope_roundtrip [where kt = 251 and kd = 252 and decode = "\<lambda>_. []"
      and unpackb = "\<lambda>b. Some (PDict [(PInt F_CHANNEL_HASH, PBytes b)])"
      and packb = "\<lambda>v. case v of PDict [(_, PBytes b)] \<Rightarrow> b | _ \<Rightarrow> []"
      and d = "[(PInt F_CHANNEL_HASH, PBytes [1, 2, 3])]"]
  by (simp add: MAX_WIRE_PAYLOAD_def)

text \<open>A timestamp accepted off the wire is a number between zero and the receiver's
  clock plus the allowed skew, and every such number is accepted as it is.\<close>

theorem wire_timestamp_exact:
  "(wire_timestamp parse_float v now = Inr (Some ts)) =
     (float_of parse_float v = Inr (Finite ts) \<and> 0 \<le> ts \<and> ts \<le> now + MAX_CLOCK_SKEW_SECS)"
  by (auto simp: wire_timestamp_def split: sum.splits py_error.splits pyfloat.splits if_splits)

section \<open>Manifests and chunk roots\<close>

lemma file_manifest_Some:
  assumes "file_manifest name fsize fh r = Some m"
  obtains n k h r' where "name = PStr n" "fsize = PInt k" "fh = Some h" "r = Some r'"
    "name_is_clean n" "1 \<le> k" "k \<le> MAX_SHARED_FILE_BYTES"
    "length h = FILE_DIGEST_BYTES" "length r' = FILE_DIGEST_BYTES"
    "m = \<lparr>man_name = PStr n, man_size = PInt k, man_hash = Some h, man_root = Some r'\<rparr>"
  using assms that by (auto simp: file_manifest_def split: pyval.splits option.splits if_splits)

lemma name_is_clean_props:
  assumes "name_is_clean n"
  shows "n \<noteq> [] \<and> length n \<le> MAX_FILE_NAME_CHARS \<and> CHR ''/'' \<notin> set n \<and> CHR 0x5C \<notin> set n
    \<and> CHR 0x22 \<notin> set n \<and> list_all is_printable n"
  using assms by (auto simp: name_is_clean_def split: if_splits)

text \<open>Only usable manifests are accepted. A manifest that passes the check names a
  printable file of 1 byte to 5 MiB without path separators or quotes, under two 32-byte
  digests, and the four wire fields written from it are read back as the same manifest.\<close>

theorem file_manifest_sound:
  assumes "file_manifest name fsize fh r = Some m"
  shows "inbound_manifest decode (manifest_fields m) = Some m
    \<and> carries_manifest (manifest_fields m)
    \<and> (\<exists>n k. man_name m = PStr n \<and> man_size m = PInt k
         \<and> n \<noteq> [] \<and> length n \<le> MAX_FILE_NAME_CHARS \<and> list_all is_printable n
         \<and> CHR ''/'' \<notin> set n \<and> CHR 0x5C \<notin> set n \<and> CHR 0x22 \<notin> set n
         \<and> 1 \<le> k \<and> k \<le> MAX_SHARED_FILE_BYTES)"
proof -
  obtain n k h r' where m: "m = \<lparr>man_name = PStr n, man_size = PInt k, man_hash = Some h, man_root = Some r'\<rparr>"
    and clean: "name_is_clean n" and k: "1 \<le> k" "k \<le> MAX_SHARED_FILE_BYTES"
    and len: "length h = FILE_DIGEST_BYTES" "length r' = FILE_DIGEST_BYTES"
    using assms by (rule file_manifest_Some) blast
  have "inbound_manifest decode (manifest_fields m) = Some m"
    using len by (simp add: m inbound_manifest_def manifest_fields_def manifest_from_wire_def
        field_get_def opt_bytes_def digest_from_wire_def get_or_def)
  moreover have "carries_manifest (manifest_fields m)"
    by (simp add: carries_manifest_def manifest_fields_def)
  ultimately show ?thesis using name_is_clean_props [OF clean] k by (simp add: m)
qed

theorem file_manifest_sound_witness:
  "inbound_manifest (\<lambda>_. []) (manifest_fields
     \<lparr>man_name = PStr ''a.txt'', man_size = PInt 12, man_hash = Some (replicate 32 1), man_root = Some (replicate 32 2)\<rparr>)
   = Some \<lparr>man_name = PStr ''a.txt'', man_size = PInt 12, man_hash = Some (replicate 32 1), man_root = Some (replicate 32 2)\<rparr>"
proof -
  have "name_is_clean ''a.txt''" by code_simp
  then have "file_manifest (PStr ''a.txt'') (PInt 12) (Some (replicate 32 1)) (Some (replicate 32 2)) =
    Some \<lparr>man_name = PStr ''a.txt'', man_size = PInt 12, man_hash = Some (replicate 32 1), man_root = Some (replicate 32 2)\<rparr>"
    by (simp add: file_manifest_def MAX_SHARED_FILE_BYTES_def FILE_DIGEST_BYTES_def)
  from file_manifest_sound [OF this] show ?thesis by blast
qed

lemma concat_chunks_of: "0 < n \<Longrightarrow> concat (chunks_of n xs) = xs"
  by (induction n xs rule: chunks_of.induct) (subst chunks_of.simps, simp)

lemma concat_blocks_inj:
  assumes "\<And>x. x \<in> set xs \<union> set ys \<Longrightarrow> length x = n" and "0 < n" and "concat xs = concat ys"
  shows "xs = ys"
  using assms
proof (induction xs arbitrary: ys)
  case Nil
  then show ?case by (cases ys) fastforce+
next
  case (Cons x xs)
  then obtain y ys' where ys: "ys = y # ys'" by (cases ys) fastforce+
  with Cons.prems have "x = y" "concat xs = concat ys'" by (auto simp: append_eq_append_conv)
  moreover have "xs = ys'" using Cons.prems(1,2) calculation(2) ys by (intro Cons.IH) auto
  ultimately show ?case using ys by simp
qed

lemma chunks_of_short: "xs \<noteq> [] \<Longrightarrow> length xs \<le> n \<Longrightarrow> chunks_of n xs = [xs]"
proof -
  assume "xs \<noteq> []" and "length xs \<le> n"
  then have "0 < n" by (cases xs) auto
  with \<open>xs \<noteq> []\<close> \<open>length xs \<le> n\<close> show ?thesis
    by (simp add: chunks_of.simps [of n xs] chunks_of.simps [of n "[]"])
qed

text \<open>The chunk root commits to the file. Where SHA-256 has 32-byte values and no
  collision among the chunks and hash lists of the two files, two different files never
  have the same chunk root.\<close>

theorem chunk_root_binds:
  assumes len: "\<And>x. length (sha x) = FILE_DIGEST_BYTES"
    and inj: "inj_on sha (set (chunks_of FILE_CHUNK_BYTES a) \<union> set (chunks_of FILE_CHUNK_BYTES b)
                \<union> {concat (chunk_hashes sha a), concat (chunk_hashes sha b)})"
    and diff: "a \<noteq> b"
  shows "chunk_root sha (chunk_hashes sha a) \<noteq> chunk_root sha (chunk_hashes sha b)"
proof
  assume root_eq: "chunk_root sha (chunk_hashes sha a) = chunk_root sha (chunk_hashes sha b)"
  then have "concat (chunk_hashes sha a) = concat (chunk_hashes sha b)"
    unfolding chunk_root_def by (rule inj_onD [OF inj]) simp_all
  then have "chunk_hashes sha a = chunk_hashes sha b"
    by (intro concat_blocks_inj [where n = FILE_DIGEST_BYTES])
      (auto simp: chunk_hashes_def len, simp add: FILE_DIGEST_BYTES_def)
  then have "chunks_of FILE_CHUNK_BYTES a = chunks_of FILE_CHUNK_BYTES b"
    unfolding chunk_hashes_def by (rule map_inj_on) (rule inj_on_subset [OF inj], blast)
  then have "a = b"
    using concat_chunks_of [of FILE_CHUNK_BYTES a] concat_chunks_of [of FILE_CHUNK_BYTES b]
    by (simp add: FILE_CHUNK_BYTES_def)
  with diff show False ..
qed

text \<open>A stand-in for the hash in the witnesses: the length, then the first 31 bytes, padded.\<close>

definition pad_hash :: "bytes \<Rightarrow> bytes" where
  "pad_hash x = of_nat (length x) # take 31 (x @ replicate 31 0)"

lemma length_pad_hash: "length (pad_hash x) = 32"
  by (simp add: pad_hash_def)

theorem chunk_root_binds_witness:
  "chunk_root pad_hash (chunk_hashes pad_hash [1, 2]) \<noteq> chunk_root pad_hash (chunk_hashes pad_hash [1, 3])"
proof -
  have c: "chunks_of FILE_CHUNK_BYTES [1, x] = [[1, x :: byte]]" for x
    by (rule chunks_of_short) (simp_all add: FILE_CHUNK_BYTES_def)
  have l: "length (pad_hash x) = FILE_DIGEST_BYTES" for x
    by (simp add: length_pad_hash FILE_DIGEST_BYTES_def)
  have inj: "inj_on pad_hash ({[1, 2]} \<union> {[1, 3]} \<union> {pad_hash [1, 2], pad_hash [1, 3]})"
    by (simp add: inj_on_def pad_hash_def numeral_eq_Suc)
  show ?thesis
    by (rule chunk_root_binds [OF l]) (use inj in \<open>simp_all add: c chunk_hashes_def\<close>)
qed

section \<open>What a signature binds\<close>

lemma div_join:
  fixes m :: nat
  assumes "m div (a * 256) = n div (a * 256)" and "m div a mod 256 = n div a mod 256"
  shows "m div a = n div a"
proof -
  have "m div a = m div a div 256 * 256 + m div a mod 256" by simp
  also have "\<dots> = n div a div 256 * 256 + n div a mod 256" using assms by (simp only: div_mult2_eq)
  also have "\<dots> = n div a" by simp
  finally show ?thesis .
qed

lemma be32_inj:
  assumes "be32 m = be32 n" and "m < 2 ^ 32" and "n < 2 ^ 32"
  shows "m = n"
proof -
  have b: "m div 2 ^ 24 < 256" "n div 2 ^ 24 < 256"
    using assms(2,3) by (simp_all add: less_mult_imp_div_less)
  from assms(1) have e: "(of_nat (m div 2 ^ 24) :: byte) = of_nat (n div 2 ^ 24)"
    "(of_nat (m div 2 ^ 16 mod 256) :: byte) = of_nat (n div 2 ^ 16 mod 256)"
    "(of_nat (m div 2 ^ 8 mod 256) :: byte) = of_nat (n div 2 ^ 8 mod 256)"
    "(of_nat (m mod 256) :: byte) = of_nat (n mod 256)"
    by (simp_all only: be32_def list.inject)
  have d: "m div 2 ^ 24 = n div 2 ^ 24" using e(1) b by (rule byte_of_nat_inj)
  have c: "m div 2 ^ 16 mod 256 = n div 2 ^ 16 mod 256" by (rule byte_of_nat_inj [OF e(2)]) simp_all
  have b': "m div 2 ^ 8 mod 256 = n div 2 ^ 8 mod 256" by (rule byte_of_nat_inj [OF e(3)]) simp_all
  have a: "m mod 256 = n mod 256" by (rule byte_of_nat_inj [OF e(4)]) simp_all
  have "m div 2 ^ 16 = n div 2 ^ 16" using div_join [of m "2 ^ 16" n] d c by simp
  then have "m div 2 ^ 8 = n div 2 ^ 8" using div_join [of m "2 ^ 8" n] b' by simp
  then show ?thesis using div_join [of m 1 n] a by simp
qed

lemma length_be32 [simp]: "length (be32 n) = 4"
  by (simp add: be32_def)

text \<open>The framing is injective: no part's contents can impersonate a boundary.\<close>

lemma length_prefixed_inj:
  "length_prefixed ps = Some b \<Longrightarrow> length_prefixed qs = Some b \<Longrightarrow> ps = qs"
proof (induction ps arbitrary: qs b)
  case Nil
  then show ?case by (cases qs) (auto simp: be32_def split: if_splits)
next
  case (Cons p ps)
  from Cons.prems(1) obtain r where p: "length p < 2 ^ 32" "length_prefixed ps = Some r"
    and b: "b = be32 (length p) @ p @ r" by (auto split: if_splits)
  then have "b \<noteq> []" by (simp add: be32_def)
  with Cons.prems(2) obtain q qs' where qs: "qs = q # qs'" by (cases qs) auto
  with Cons.prems(2) obtain r' where q: "length q < 2 ^ 32" "length_prefixed qs' = Some r'"
    and b': "b = be32 (length q) @ q @ r'" by (auto split: if_splits)
  from b b' have "be32 (length p) = be32 (length q)" and pq: "p @ r = q @ r'"
    by (auto simp: append_eq_append_conv)
  then have "length p = length q" using p(1) q(1) by (blast intro: be32_inj)
  with pq have "p = q" "r = r'" by auto
  with Cons.IH [OF p(2), of qs'] q(2) qs show ?case by simp
qed

definition digest_inputs ::
    "(bytes \<Rightarrow> bytes) \<Rightarrow> (pyval \<Rightarrow> string) \<Rightarrow> hexid \<Rightarrow> signed_message \<Rightarrow> bytes set" where
  "digest_inputs sha repr ch m =
     {or_empty (sm_image m)} \<union> set_option (length_prefixed (author_parts sha repr (the (fromhex ch)) m))"

text \<open>The author digest binds the message. If two messages have the same digest and
  SHA-256 does not collide on what was hashed for them, they agree on the channel address,
  the identifier, the text, the timestamp to the microsecond, both threading references,
  the image, whether there is a file at all, and the file's digests and printed name and
  size.\<close>

theorem author_digest_binds:
  assumes "author_digest sha repr ch m = Some d" and "author_digest sha repr ch' m' = Some d"
    and "inj_on sha (digest_inputs sha repr ch m \<union> digest_inputs sha repr ch' m')"
  shows "fromhex ch = fromhex ch' \<and> sm_id m = sm_id m' \<and> sm_content m = sm_content m'
    \<and> fmt6 (sm_timestamp m) = fmt6 (sm_timestamp m')
    \<and> or_empty (sm_reply_to m) = or_empty (sm_reply_to m')
    \<and> or_empty (sm_last_seen m) = or_empty (sm_last_seen m')
    \<and> or_empty (sm_image m) = or_empty (sm_image m')
    \<and> rel_option (\<lambda>x y. or_empty (man_hash x) = or_empty (man_hash y)
         \<and> or_empty (man_root x) = or_empty (man_root y)
         \<and> str_or_empty repr (man_name x) = str_or_empty repr (man_name y)
         \<and> str_or_zero repr (man_size x) = str_or_zero repr (man_size y))
       (sm_manifest m) (sm_manifest m')"
proof -
  obtain c b where c: "fromhex ch = Some c" "length_prefixed (author_parts sha repr c m) = Some b" "sha b = d"
    using assms(1) by (auto simp: author_digest_def split: option.splits)
  obtain c' b' where c': "fromhex ch' = Some c'" "length_prefixed (author_parts sha repr c' m') = Some b'" "sha b' = d"
    using assms(2) by (auto simp: author_digest_def split: option.splits)
  have "b = b'" by (rule inj_onD [OF assms(3)]) (simp_all add: c c' digest_inputs_def)
  with c(2) c'(2) have parts: "author_parts sha repr c m = author_parts sha repr c' m'"
    by (blast intro: length_prefixed_inj)
  then have img: "sha (or_empty (sm_image m)) = sha (or_empty (sm_image m'))"
    by (simp add: author_parts_def split: option.splits)
  have "or_empty (sm_image m) = or_empty (sm_image m')"
    by (rule inj_onD [OF assms(3) img]) (simp_all add: digest_inputs_def)
  with parts c(1) c'(1) show ?thesis
    by (cases "sm_manifest m"; cases "sm_manifest m'") (auto simp: author_parts_def dest!: utf8_inj)
qed

lemma length_prefixed_total:
  "list_all (\<lambda>p. length p < 2 ^ 32) ps \<Longrightarrow> \<exists>b. length_prefixed ps = Some b"
  by (induction ps) auto

lemma length_utf8: "length (utf8 s) \<le> 2 * length s"
  by (induction s) (auto simp: utf8_char_cases)

theorem author_digest_binds_witness:
  "let m = \<lparr>sm_id = ''6d'', sm_timestamp = 1, sm_content = ''hi'', sm_reply_to = None,
             sm_last_seen = None, sm_image = None, sm_manifest = None\<rparr>;
       m' = m\<lparr>sm_reply_to := Some []\<rparr>
   in author_digest (\<lambda>x. x) (\<lambda>_. []) ''00'' m = author_digest (\<lambda>x. x) (\<lambda>_. []) ''00'' m'
      \<and> m \<noteq> m' \<and> sm_content m = sm_content m' \<and> or_empty (sm_reply_to m) = or_empty (sm_reply_to m')"
proof -
  let ?m = "\<lparr>sm_id = ''6d'', sm_timestamp = 1, sm_content = ''hi'', sm_reply_to = None,
             sm_last_seen = None, sm_image = None, sm_manifest = None\<rparr>"
  let ?m' = "?m\<lparr>sm_reply_to := Some []\<rparr>"
  have p: "author_parts (\<lambda>x. x) (\<lambda>_. []) c ?m = author_parts (\<lambda>x. x) (\<lambda>_. []) c ?m'" for c
    by (simp add: author_parts_def or_empty_def)
  have eq: "author_digest (\<lambda>x. x) (\<lambda>_. []) ''00'' ?m = author_digest (\<lambda>x. x) (\<lambda>_. []) ''00'' ?m'"
    by (simp only: author_digest_def p)
  have "length (fmt6 1) \<le> 20"
    by (simp add: fmt6_def round_half_even_def pad6_def dec_nat.simps)
  then have "length (utf8 (fmt6 1)) \<le> 40" using length_utf8 [of "fmt6 1"] by simp
  then have "\<exists>b. length_prefixed (author_parts (\<lambda>x. x) (\<lambda>_. []) [0] ?m) = Some b"
    by (intro length_prefixed_total)
       (simp add: author_parts_def or_empty_def AUTHOR_SIG_DOMAIN_def utf8_char_cases)
  moreover have "fromhex ''00'' = Some [0]" by code_simp
  ultimately have "author_digest (\<lambda>x. x) (\<lambda>_. []) ''00'' ?m \<noteq> None"
    by (auto simp: author_digest_def)
  then obtain d where d: "author_digest (\<lambda>x. x) (\<lambda>_. []) ''00'' ?m = Some d" by blast
  have "inj_on (\<lambda>x. x) S" for S :: "bytes set" by (simp add: inj_on_def)
  from author_digest_binds [OF d d [unfolded eq] this]
  have "sm_content ?m = sm_content ?m' \<and> or_empty (sm_reply_to ?m) = or_empty (sm_reply_to ?m')" by blast
  moreover have "?m \<noteq> ?m'" by simp
  ultimately show ?thesis using eq unfolding Let_def by blast
qed

end
