(* ===== verification/Sync_Ranges.thy ===== *)
theory Sync_Ranges
  imports Protocol "HOL-Library.Multiset"
begin

text \<open>
  \<^verbatim>\<open>trenchchat/core/sync_ranges.py\<close>: set reconciliation over message identifiers as
  timestamp ranges. A row is what \<^verbatim>\<open>Storage.get_message_index\<close> returns; a range is a
  constructor of \<open>sync_range\<close> with the bounds, and the count and digest or the prefixes.

  Parameters: \<open>sha\<close> for SHA-256, \<open>psize\<close> for the size of a description packed by msgpack.
  The ceiling of the float division \<^verbatim>\<open>total / fanout\<close> is the exact ceiling.
\<close>

section \<open>Rows and ranges\<close>

record row =
  r_id :: string
  r_ts :: secs
  r_sig :: bool

datatype sync_range =
    FpRange (rlo: secs) (rhi: secs) nat bytes
  | IdRange (rlo: secs) (rhi: secs) "bytes list"

definition SYNC_FINGERPRINT_BYTES :: nat where "SYNC_FINGERPRINT_BYTES = 16"
definition SYNC_ID_PREFIX_BYTES :: nat where "SYNC_ID_PREFIX_BYTES = 8"
definition SYNC_RANGE_FANOUT :: nat where "SYNC_RANGE_FANOUT = 16"
definition SYNC_LEAF_IDS :: nat where "SYNC_LEAF_IDS = 32"
definition SYNC_DESCRIPTION_BUDGET_BYTES :: nat where "SYNC_DESCRIPTION_BUDGET_BYTES = 512"
definition SYNC_SUMMARY_LADDER :: "nat list" where "SYNC_SUMMARY_LADDER = [8, 16, 32, 64, 128]"
definition PROBE_ALIGN_SECS :: secs where "PROBE_ALIGN_SECS = 86400"
definition MAX_PROBED_CHANNELS :: nat where "MAX_PROBED_CHANNELS = 16"
definition CHANNEL_HASH_BYTES :: nat where "CHANNEL_HASH_BYTES = 16"
definition MAX_SYNC_RANGES :: nat where "MAX_SYNC_RANGES = 32"
definition MAX_SYNC_LIST_IDS :: nat where "MAX_SYNC_LIST_IDS = SYNC_RANGE_FANOUT * SYNC_LEAF_IDS"
definition MAX_SYNC_NEEDS :: nat where "MAX_SYNC_NEEDS = 50"

lemmas sync_constants =
  SYNC_FINGERPRINT_BYTES_def SYNC_ID_PREFIX_BYTES_def SYNC_RANGE_FANOUT_def SYNC_LEAF_IDS_def
  SYNC_DESCRIPTION_BUDGET_BYTES_def SYNC_SUMMARY_LADDER_def MAX_SYNC_RANGES_def
  MAX_SYNC_LIST_IDS_def MAX_SYNC_NEEDS_def

definition id_bytes :: "string \<Rightarrow> bytes" where
  "id_bytes message_id = (case fromhex message_id of Some b \<Rightarrow> b | None \<Rightarrow> utf8 message_id)"

definition id_prefix :: "string \<Rightarrow> bytes" where
  "id_prefix message_id = take SYNC_ID_PREFIX_BYTES (id_bytes message_id)"

definition fingerprint :: "(bytes \<Rightarrow> bytes) \<Rightarrow> string list \<Rightarrow> bytes" where
  "fingerprint sha message_ids =
     take SYNC_FINGERPRINT_BYTES (sha (concat (map id_bytes (sort message_ids))))"

definition prefixes_of :: "row list \<Rightarrow> bytes set" where
  "prefixes_of rows = set (map (\<lambda>r. id_prefix (r_id r)) rows)"

definition sort_rows :: "row list \<Rightarrow> row list" where
  "sort_rows rows = sort_key (\<lambda>r. (r_ts r, r_id r)) rows"

definition sorted_prefixes :: "row list \<Rightarrow> bytes list" where
  "sorted_prefixes rows = sort (remdups (map (\<lambda>r. id_prefix (r_id r)) rows))"

definition id_list_range :: "secs \<Rightarrow> secs \<Rightarrow> row list \<Rightarrow> sync_range" where
  "id_list_range lo hi rows = IdRange lo hi (sorted_prefixes rows)"

definition fingerprint_range :: "(bytes \<Rightarrow> bytes) \<Rightarrow> secs \<Rightarrow> secs \<Rightarrow> row list \<Rightarrow> sync_range" where
  "fingerprint_range sha lo hi rows =
     (let ids = map r_id rows in FpRange lo hi (length ids) (fingerprint sha ids))"

definition rows_in :: "row list \<Rightarrow> secs \<Rightarrow> secs \<Rightarrow> row list" where
  "rows_in rows lo hi = filter (\<lambda>r. lo \<le> r_ts r \<and> r_ts r < hi) rows"

section \<open>Cutting a window\<close>

text \<open>The loop of \<^verbatim>\<open>_split_bounds\<close>: the rows not yet visited, the start of the open
  sub-range, the rows counted in it and the bounds emitted. The last row never cuts.\<close>

fun split_loop ::
    "nat \<Rightarrow> nat \<Rightarrow> secs \<Rightarrow> nat \<Rightarrow> (secs \<times> secs) list \<Rightarrow> row list \<Rightarrow> (secs \<times> secs) list \<times> secs" where
  "split_loop target fanout start n bounds (row # nxt # rest) =
     (let n = n + 1
      in if n < target \<or> length bounds \<ge> fanout - 1
         then split_loop target fanout start n bounds (nxt # rest)
         else let boundary = r_ts nxt
              in if boundary \<le> r_ts row
                 then split_loop target fanout start n bounds (nxt # rest)
                 else split_loop target fanout boundary 0 (bounds @ [(start, boundary)]) (nxt # rest))"
| "split_loop target fanout start n bounds [] = (bounds, start)"
| "split_loop target fanout start n bounds [row] = (bounds, start)"

definition split_bounds :: "row list \<Rightarrow> secs \<Rightarrow> secs \<Rightarrow> nat \<Rightarrow> (secs \<times> secs) list" where
  "split_bounds rows lo hi fanout =
     (let total = length rows;
          target = max 1 ((total + fanout - 1) div fanout);
          (bounds, start) = split_loop target fanout lo 0 [] rows
      in bounds @ [(start, hi)])"

text \<open>The inner loop of \<^verbatim>\<open>_ladder_bounds\<close>: back to the first row of a timestamp group.\<close>

fun group_start :: "row list \<Rightarrow> nat \<Rightarrow> nat" where
  "group_start rows 0 = 0"
| "group_start rows (Suc i) =
     (if r_ts (rows ! i) = r_ts (rows ! Suc i) then group_start rows i else Suc i)"

fun ladder_cuts :: "row list \<Rightarrow> secs \<Rightarrow> nat \<Rightarrow> secs list \<Rightarrow> nat list \<Rightarrow> secs list" where
  "ladder_cuts rows lo taken cuts [] = cuts"
| "ladder_cuts rows lo taken cuts (step # sizes) =
     (let taken = taken + step; total = length rows
      in if taken \<ge> total then cuts
         else let idx = group_start rows (total - taken)
              in if idx = 0 then cuts
                 else let boundary = r_ts (rows ! idx)
                      in if boundary \<le> lo \<or> (cuts \<noteq> [] \<and> boundary \<ge> last cuts)
                         then ladder_cuts rows lo taken cuts sizes
                         else ladder_cuts rows lo taken (cuts @ [boundary]) sizes)"

fun bounds_between :: "secs \<Rightarrow> secs list \<Rightarrow> secs \<Rightarrow> (secs \<times> secs) list" where
  "bounds_between start [] hi = [(start, hi)]"
| "bounds_between start (boundary # bs) hi = (start, boundary) # bounds_between boundary bs hi"

definition ladder_bounds :: "row list \<Rightarrow> secs \<Rightarrow> secs \<Rightarrow> (secs \<times> secs) list" where
  "ladder_bounds rows lo hi =
     bounds_between lo (rev (ladder_cuts rows lo 0 [] SYNC_SUMMARY_LADDER)) hi"

fun describe_ladder :: "(bytes \<Rightarrow> bytes) \<Rightarrow> row list \<Rightarrow> (secs \<times> secs) list \<Rightarrow> sync_range list" where
  "describe_ladder sha rows [] = []"
| "describe_ladder sha rows ((sub_lo, sub_hi) # bounds) =
     (let sub = rows_in rows sub_lo sub_hi; newest = (bounds = [])
      in (if newest \<and> length sub \<le> SYNC_LEAF_IDS then id_list_range sub_lo sub_hi sub
          else fingerprint_range sha sub_lo sub_hi sub) # describe_ladder sha rows bounds)"

definition summarise :: "(bytes \<Rightarrow> bytes) \<Rightarrow> row list \<Rightarrow> secs \<Rightarrow> secs \<Rightarrow> bool \<Rightarrow> sync_range list" where
  "summarise sha rows0 lo hi ladder =
     (let rows = sort_rows (rows_in rows0 lo hi)
      in if length rows \<le> hd SYNC_SUMMARY_LADDER then [id_list_range lo hi rows]
         else if \<not> ladder then [fingerprint_range sha lo hi rows]
         else describe_ladder sha rows (ladder_bounds rows lo hi))"

section \<open>Narrowing under a budget\<close>

definition split_describe ::
    "(bytes \<Rightarrow> bytes) \<Rightarrow> row list \<Rightarrow> secs \<Rightarrow> secs \<Rightarrow> nat \<Rightarrow> sync_range list" where
  "split_describe sha rows lo hi fanout =
     (let bounds = split_bounds rows lo hi fanout
      in if length bounds < 2
         then (if length rows > MAX_SYNC_LIST_IDS then [fingerprint_range sha lo hi rows]
               else [id_list_range lo hi rows])
         else map (\<lambda>(sub_lo, sub_hi).
                let sub = rows_in rows sub_lo sub_hi
                in if length sub \<le> SYNC_LEAF_IDS then id_list_range sub_lo sub_hi sub
                   else fingerprint_range sha sub_lo sub_hi sub) bounds)"

text \<open>The search of \<^verbatim>\<open>_fit_budget\<close> for the first longest id list, by position.\<close>

fun widest_idlist :: "nat \<Rightarrow> (nat \<times> nat) option \<Rightarrow> sync_range list \<Rightarrow> (nat \<times> nat) option" where
  "widest_idlist i best [] = best"
| "widest_idlist i best (FpRange _ _ _ _ # rs) = widest_idlist (Suc i) best rs"
| "widest_idlist i best (IdRange _ _ payload # rs) =
     widest_idlist (Suc i)
       (case best of None \<Rightarrow> Some (length payload, i)
        | Some (widest, _) \<Rightarrow> if length payload > widest then Some (length payload, i) else best) rs"

fun is_idlist :: "sync_range \<Rightarrow> bool" where
  "is_idlist (IdRange _ _ _) = True"
| "is_idlist _ = False"

lemma widest_idlist_Some:
  "widest_idlist i best rs = Some (w, k) \<Longrightarrow>
     best = Some (w, k) \<or> (\<exists>j < length rs. k = i + j \<and> is_idlist (rs ! j))"
proof (induction i best rs rule: widest_idlist.induct)
  case (2 i best a b c d rs)
  then show ?case by (auto intro: exI [of _ "Suc _"])
next
  case (3 i best a b payload rs)
  then consider "(case best of None \<Rightarrow> Some (length payload, i)
      | Some (widest, _) \<Rightarrow> if length payload > widest then Some (length payload, i) else best) = Some (w, k)"
    | j where "j < length rs" "k = Suc i + j" "is_idlist (rs ! j)" by auto
  then show ?case
  proof cases
    case 1
    then show ?thesis by (auto split: option.splits prod.splits if_splits intro!: exI [of _ 0])
  next
    case 2
    then show ?thesis by (intro disjI2 exI [of _ "Suc j"]) auto
  qed
qed simp

lemma widest_idlist_None: "widest_idlist i best rs = None \<Longrightarrow> best = None \<and> list_all (\<lambda>r. \<not> is_idlist r) rs"
  by (induction i best rs rule: widest_idlist.induct) (auto split: option.splits if_splits)

lemma filter_list_update_less:
  "k < length xs \<Longrightarrow> P (xs ! k) \<Longrightarrow> \<not> P y \<Longrightarrow> length (filter P (xs[k := y])) < length (filter P xs)"
  by (induction xs arbitrary: k) (auto split: nat.splits)

function fit_budget ::
    "(bytes \<Rightarrow> bytes) \<Rightarrow> (sync_range list \<Rightarrow> nat) \<Rightarrow> row list \<Rightarrow> nat \<Rightarrow> sync_range list \<Rightarrow> sync_range list" where
  "fit_budget sha psize rows budget described =
     (if psize described > budget
      then (case widest_idlist 0 None described of
              None \<Rightarrow> described
            | Some (_, chosen) \<Rightarrow>
                let lo = rlo (described ! chosen); hi = rhi (described ! chosen)
                in fit_budget sha psize rows budget
                     (described[chosen := fingerprint_range sha lo hi (rows_in rows lo hi)]))
      else described)"
  by pat_completeness auto
termination
proof (relation "measure (\<lambda>(sha, psize, rows, budget, described). length (filter is_idlist described))")
  fix sha psize rows budget described x y chosen lo hi
  assume "widest_idlist 0 None described = Some x" and "(y, chosen) = x"
  then have "chosen < length described" "is_idlist (described ! chosen)"
    using widest_idlist_Some [of 0 None described y chosen] by auto
  then show "((sha, psize, rows, budget, described[chosen := fingerprint_range sha lo hi (rows_in rows lo hi)]),
      sha, psize, rows, budget, described)
      \<in> measure (\<lambda>(sha, psize, rows, budget, described). length (filter is_idlist described))"
    by (simp add: fingerprint_range_def Let_def filter_list_update_less)
qed simp

declare fit_budget.simps [simp del]

text \<open>\<^verbatim>\<open>_FINGERPRINT_RANGE_BYTES\<close>: measured on a range with a large count.\<close>

definition FINGERPRINT_RANGE_BYTES :: "(sync_range list \<Rightarrow> nat) \<Rightarrow> nat" where
  "FINGERPRINT_RANGE_BYTES psize =
     psize [FpRange (10 ^ 10) (10 ^ 10) (10 ^ 9) (replicate SYNC_FINGERPRINT_BYTES 0)]"

definition describe ::
    "(bytes \<Rightarrow> bytes) \<Rightarrow> (sync_range list \<Rightarrow> nat) \<Rightarrow> row list \<Rightarrow> secs \<Rightarrow> secs \<Rightarrow> nat \<Rightarrow> sync_range list" where
  "describe sha psize rows0 lo hi budget =
     (let rows = sort_rows (rows_in rows0 lo hi)
      in if length rows \<le> SYNC_LEAF_IDS then [id_list_range lo hi rows]
         else let described = split_describe sha rows lo hi SYNC_RANGE_FANOUT
              in if length described < 2 then described
                 else let described = fit_budget sha psize rows budget described
                      in if psize described \<le> budget then described
                         else let coarse = max 2 (budget div FINGERPRINT_RANGE_BYTES psize)
                              in fit_budget sha psize rows budget (split_describe sha rows lo hi coarse))"

definition id_count :: "sync_range list \<Rightarrow> nat" where
  "id_count ranges = sum_list (map (\<lambda>r. case r of IdRange _ _ payload \<Rightarrow> length payload | _ \<Rightarrow> 0) ranges)"

definition append_ranges ::
    "(sync_range list \<Rightarrow> nat) \<Rightarrow> sync_range list \<Rightarrow> sync_range list \<Rightarrow> nat \<Rightarrow> bool \<times> sync_range list" where
  "append_ranges psize target described budget =
     (if length target + length described > MAX_SYNC_RANGES then (False, target)
      else if id_count target + id_count described > MAX_SYNC_LIST_IDS then (False, target)
      else if target \<noteq> [] \<and> psize (target @ described) > budget then (False, target)
      else (True, target @ described))"

section \<open>Probes and comparisons\<close>

definition signed_rows :: "row list \<Rightarrow> row list" where
  "signed_rows index = filter r_sig index"

definition probe_floor :: "secs \<Rightarrow> secs" where
  "probe_floor now = of_int \<lfloor>now / PROBE_ALIGN_SECS\<rfloor> * PROBE_ALIGN_SECS - SYNC_WINDOW_SECS"

definition probe :: "(bytes \<Rightarrow> bytes) \<Rightarrow> row list \<Rightarrow> nat \<times> bytes" where
  "probe sha rows = (let ids = map r_id rows in (length ids, fingerprint sha ids))"

definition matches_fingerprint :: "(bytes \<Rightarrow> bytes) \<Rightarrow> row list \<Rightarrow> nat \<Rightarrow> bytes \<Rightarrow> bool" where
  "matches_fingerprint sha rows n digest =
     (let ids = map r_id rows in length ids = n \<and> fingerprint sha ids = digest)"

definition ids_they_lack :: "row list \<Rightarrow> bytes list \<Rightarrow> string list" where
  "ids_they_lack rows their_prefixes =
     map r_id (filter (\<lambda>r. id_prefix (r_id r) \<notin> set their_prefixes) (sort_rows rows))"

definition prefixes_we_lack :: "row list \<Rightarrow> bytes list \<Rightarrow> bytes list" where
  "prefixes_we_lack rows their_prefixes = filter (\<lambda>p. p \<notin> prefixes_of rows) their_prefixes"

section \<open>Wire format\<close>

definition finite_ts :: "pyval \<Rightarrow> secs option" where
  "finite_ts v =
     (case v of
        PInt i \<Rightarrow> if i < 0 then None else Some (of_int i)
      | PFloat (Finite x) \<Rightarrow> if x < 0 then None else Some x
      | _ \<Rightarrow> None)"

text \<open>\<^verbatim>\<open>v == k\<close> for an integer \<open>k\<close>: booleans and floats compare by value. (Integers off
  msgpack have at most 64 bits, so \<^verbatim>\<open>float(v)\<close> above does not overflow.)\<close>

fun int_equal :: "pyval \<Rightarrow> int \<Rightarrow> bool" where
  "int_equal (PInt i) k = (i = k)"
| "int_equal (PBool b) k = ((if b then 1 else 0) = k)"
| "int_equal (PFloat (Finite x)) k = (x = of_int k)"
| "int_equal _ k = False"

fun check_prefixes :: "bytes list \<Rightarrow> pyval list \<Rightarrow> bytes list option" where
  "check_prefixes acc [] = Some acc"
| "check_prefixes acc (PBytes p # ps) =
     (if length p \<noteq> SYNC_ID_PREFIX_BYTES then None
      else if acc \<noteq> [] \<and> p \<le> last acc then None
      else check_prefixes (acc @ [p]) ps)"
| "check_prefixes acc (_ # ps) = None"

definition check_payload :: "secs \<Rightarrow> secs \<Rightarrow> nat \<Rightarrow> pyval \<Rightarrow> pyval \<Rightarrow> (nat \<times> sync_range) option" where
  "check_payload lo hi total_ids mode payload =
     (if int_equal mode 0 then
        (case seq_of payload of
           Some [PInt n, PBytes digest] \<Rightarrow>
             if n < 0 \<or> length digest \<noteq> SYNC_FINGERPRINT_BYTES then None
             else Some (total_ids, FpRange lo hi (nat n) digest)
         | _ \<Rightarrow> None)
      else if int_equal mode 1 then
        (case Option.bind (seq_of payload) (check_prefixes []) of
           None \<Rightarrow> None
         | Some prefixes \<Rightarrow>
             if total_ids + length prefixes > MAX_SYNC_LIST_IDS then None
             else Some (total_ids + length prefixes, IdRange lo hi prefixes))
      else None)"

text \<open>The loop of \<^verbatim>\<open>validate_ranges\<close>: the parsed ranges, \<^verbatim>\<open>previous_hi\<close> and the id total.\<close>

fun check_ranges :: "sync_range list \<Rightarrow> secs option \<Rightarrow> nat \<Rightarrow> pyval list \<Rightarrow> sync_range list option" where
  "check_ranges parsed prev ids [] = Some parsed"
| "check_ranges parsed prev ids (item # items) =
     (case seq_of item of
        Some [lo, hi, mode, payload] \<Rightarrow>
          (case (finite_ts lo, finite_ts hi) of
             (Some l, Some h) \<Rightarrow>
               if l > h then None
               else if (case prev of None \<Rightarrow> False | Some q \<Rightarrow> l < q) then None
               else (case check_payload l h ids mode payload of
                       None \<Rightarrow> None
                     | Some (ids', r) \<Rightarrow> check_ranges (parsed @ [r]) (Some h) ids' items)
           | _ \<Rightarrow> None)
      | _ \<Rightarrow> None)"

definition validate_ranges :: "pyval \<Rightarrow> sync_range list option" where
  "validate_ranges v =
     (case seq_of v of
        None \<Rightarrow> None
      | Some items \<Rightarrow> if length items > MAX_SYNC_RANGES then None else check_ranges [] None 0 items)"

fun check_needs :: "(secs \<times> secs \<times> bytes) list \<Rightarrow> pyval list \<Rightarrow> (secs \<times> secs \<times> bytes) list option" where
  "check_needs parsed [] = Some parsed"
| "check_needs parsed (item # items) =
     (case seq_of item of
        Some [lo, hi, PBytes prefix] \<Rightarrow>
          (case (finite_ts lo, finite_ts hi) of
             (Some l, Some h) \<Rightarrow>
               if l > h \<or> length prefix \<noteq> SYNC_ID_PREFIX_BYTES then None
               else check_needs (parsed @ [(l, h, prefix)]) items
           | _ \<Rightarrow> None)
      | _ \<Rightarrow> None)"

definition validate_needs :: "pyval \<Rightarrow> (secs \<times> secs \<times> bytes) list option" where
  "validate_needs v =
     (case seq_of v of
        None \<Rightarrow> None
      | Some items \<Rightarrow> if length items > MAX_SYNC_NEEDS then None else check_needs [] items)"

fun check_probes :: "(bytes \<times> nat \<times> bytes) list \<Rightarrow> pyval list \<Rightarrow> (bytes \<times> nat \<times> bytes) list option" where
  "check_probes probes [] = Some probes"
| "check_probes probes (PList [PBytes channel, PInt n, PBytes digest] # entries) =
     (if length channel \<noteq> CHANNEL_HASH_BYTES \<or> n < 0 \<or> length digest \<noteq> SYNC_FINGERPRINT_BYTES then None
      else check_probes (probes @ [(channel, nat n, digest)]) entries)"
| "check_probes probes (_ # entries) = None"

definition validate_probes :: "pyval \<Rightarrow> (bytes \<times> nat \<times> bytes) list option" where
  "validate_probes v =
     (case v of
        PList entries \<Rightarrow> if length entries > MAX_PROBED_CHANNELS then None else check_probes [] entries
      | _ \<Rightarrow> None)"

definition unpack_with ::
    "(bytes \<Rightarrow> pyval option) \<Rightarrow> (pyval \<Rightarrow> 'a option) \<Rightarrow> pyval \<Rightarrow> 'a option" where
  "unpack_with unpackb validator payload =
     (case payload of PBytes b \<Rightarrow> Option.bind (unpack_wire unpackb b) validator | _ \<Rightarrow> None)"

text \<open>A description as \<^verbatim>\<open>pack\<close> hands it to msgpack and a peer unpacks it.\<close>

fun range_value :: "sync_range \<Rightarrow> pyval" where
  "range_value (FpRange lo hi n fp) =
     PList [PFloat (Finite lo), PFloat (Finite hi), PInt 0, PList [PInt (int n), PBytes fp]]"
| "range_value (IdRange lo hi ps) =
     PList [PFloat (Finite lo), PFloat (Finite hi), PInt 1, PList (map PBytes ps)]"

definition ranges_value :: "sync_range list \<Rightarrow> pyval" where
  "ranges_value rs = PList (map range_value rs)"

end
