(* ===== verification/Reconcile.thy ===== *)
theory Reconcile
  imports Sync_Ranges
begin

text \<open>
  What a description of a window promises its receiver, and that \<open>summarise\<close> and
  \<open>describe\<close> of Sync_Ranges keep the promise. The interface is the locale \<open>describer\<close>:
  the ranges tile the window and each tells the truth about the rows it covers. Its client
  lemma is the reason the protocol works: whatever row the describing side lacks, some
  range shows the difference.
\<close>

section \<open>Tilings\<close>

fun bchain :: "secs \<Rightarrow> (secs \<times> secs) list \<Rightarrow> secs \<Rightarrow> bool" where
  "bchain lo [] hi = (lo = hi)"
| "bchain lo ((a, b) # bs) hi = (a = lo \<and> a \<le> b \<and> bchain b bs hi)"

definition bounds_of :: "sync_range list \<Rightarrow> (secs \<times> secs) list" where
  "bounds_of rs = map (\<lambda>r. (rlo r, rhi r)) rs"

definition tiles :: "secs \<Rightarrow> sync_range list \<Rightarrow> secs \<Rightarrow> bool" where
  "tiles lo rs hi = bchain lo (bounds_of rs) hi"

lemma bchain_snoc [simp]: "bchain lo (bs @ [(a, b)]) hi = (bchain lo bs a \<and> a \<le> b \<and> b = hi)"
  by (induction lo bs a rule: bchain.induct) auto

lemma bchain_le: "bchain lo bs hi \<Longrightarrow> lo \<le> hi"
  by (induction lo bs hi rule: bchain.induct) auto

lemma bchain_within: "bchain lo bs hi \<Longrightarrow> (a, b) \<in> set bs \<Longrightarrow> lo \<le> a \<and> a \<le> b \<and> b \<le> hi"
  by (induction lo bs hi rule: bchain.induct) (fastforce dest: bchain_le)+

lemma bchain_covers: "bchain lo bs hi \<Longrightarrow> lo \<le> t \<Longrightarrow> t < hi \<Longrightarrow> \<exists>(a, b) \<in> set bs. a \<le> t \<and> t < b"
proof (induction lo bs hi rule: bchain.induct)
  case (2 lo a b bs hi)
  then show ?case by (cases "t < b") auto
qed simp

lemma bchain_after_hd: "bchain lo (x # bs) hi \<Longrightarrow> (a, b) \<in> set bs \<Longrightarrow> snd x \<le> a"
  by (cases x) (auto dest: bchain_within)

lemma length_bounds_of [simp]: "length (bounds_of rs) = length rs"
  by (simp add: bounds_of_def)

lemma in_bounds_of: "r \<in> set rs \<Longrightarrow> (rlo r, rhi r) \<in> set (bounds_of rs)"
  by (auto simp: bounds_of_def)

lemma tiles_single [simp]: "tiles lo [id_list_range lo hi rs] hi = (lo \<le> hi)"
  "tiles lo [fingerprint_range sha lo hi rs] hi = (lo \<le> hi)"
  by (auto simp: tiles_def bounds_of_def id_list_range_def fingerprint_range_def Let_def)

section \<open>Truthful ranges\<close>

text \<open>A range tells the truth about a set of rows when its payload is what those of them
  that it covers give. Only their multiset matters.\<close>

definition truthful :: "(bytes \<Rightarrow> bytes) \<Rightarrow> row list \<Rightarrow> sync_range \<Rightarrow> bool" where
  "truthful sha rows r =
     (case r of
        FpRange lo hi n fp \<Rightarrow> matches_fingerprint sha (rows_in rows lo hi) n fp
      | IdRange lo hi ps \<Rightarrow> ps = sorted_prefixes (rows_in rows lo hi))"

lemma sort_mset_cong: "mset xs = mset ys \<Longrightarrow> sort xs = sort (ys :: 'a::linorder list)"
  by (rule properties_for_sort) simp_all

lemma fingerprint_mset: "mset xs = mset ys \<Longrightarrow> fingerprint sha xs = fingerprint sha ys"
  unfolding fingerprint_def by (drule sort_mset_cong) simp

lemma sorted_prefixes_set [simp]: "set (sorted_prefixes rows) = prefixes_of rows"
  by (simp add: sorted_prefixes_def prefixes_of_def)

lemma sorted_prefixes_strict: "sorted_wrt (<) (sorted_prefixes rows)"
  by (simp add: sorted_prefixes_def strict_sorted_iff)

lemma sorted_prefixes_set_cong: "prefixes_of xs = prefixes_of ys \<Longrightarrow> sorted_prefixes xs = sorted_prefixes ys"
  by (rule sorted_distinct_set_unique) (simp_all add: sorted_prefixes_def prefixes_of_def)

lemma mset_rows_in: "mset (rows_in rows lo hi) = filter_mset (\<lambda>r. lo \<le> r_ts r \<and> r_ts r < hi) (mset rows)"
  by (simp add: rows_in_def)

lemma mset_sort_rows [simp]: "mset (sort_rows rows) = mset rows"
  by (simp add: sort_rows_def)

lemma set_sort_rows [simp]: "set (sort_rows rows) = set rows"
  by (simp add: sort_rows_def)

lemma length_sort_rows [simp]: "length (sort_rows rows) = length rows"
  by (simp add: sort_rows_def)

lemma sorted_ts_sort_rows: "sorted (map r_ts (sort_rows rows))"
proof -
  have "sorted (map (\<lambda>r. (r_ts r, r_id r)) (sort_rows rows))"
    by (simp add: sort_rows_def)
  then have "sorted_wrt (\<lambda>r s. (r_ts r, r_id r) \<le> (r_ts s, r_id s)) (sort_rows rows)"
    by (simp only: sorted_map)
  then have "sorted_wrt (\<lambda>r s. r_ts r \<le> r_ts s) (sort_rows rows)"
    by (rule sorted_wrt_mono_rel [rotated]) (auto simp: less_eq_prod_def)
  then show ?thesis by (simp only: sorted_map)
qed

lemma matches_mset: "mset xs = mset ys \<Longrightarrow> matches_fingerprint sha xs n fp = matches_fingerprint sha ys n fp"
  using mset_eq_length [of xs ys] fingerprint_mset [of "map r_id xs" "map r_id ys" sha]
  by (simp add: matches_fingerprint_def)

lemma truthful_mset:
  assumes "mset (rows_in xs (rlo r) (rhi r)) = mset (rows_in ys (rlo r) (rhi r))"
  shows "truthful sha xs r = truthful sha ys r"
proof (cases r)
  case (FpRange lo hi n fp)
  then show ?thesis using matches_mset [OF assms, of sha n fp] by (simp add: truthful_def)
next
  case (IdRange lo hi ps)
  have "prefixes_of (rows_in xs lo hi) = prefixes_of (rows_in ys lo hi)"
    using assms mset_eq_setD [of "rows_in xs lo hi" "rows_in ys lo hi"] IdRange by (simp add: prefixes_of_def)
  then have "sorted_prefixes (rows_in xs lo hi) = sorted_prefixes (rows_in ys lo hi)"
    by (rule sorted_prefixes_set_cong)
  then show ?thesis using IdRange by (simp add: truthful_def)
qed

lemma rows_in_within:
  "lo \<le> a \<Longrightarrow> b \<le> hi \<Longrightarrow> mset (rows_in (sort_rows (rows_in rows lo hi)) a b) = mset (rows_in rows a b)"
  by (simp add: mset_rows_in filter_filter_mset) (rule filter_mset_cong, auto)

lemma truthful_sub:
  assumes "truthful sha (sort_rows (rows_in rows lo hi)) r" and "lo \<le> rlo r" "rhi r \<le> hi"
  shows "truthful sha rows r"
  using assms truthful_mset [OF rows_in_within [OF assms(2,3)]] by blast

lemma rows_in_id: "(\<And>r. r \<in> set rows \<Longrightarrow> lo \<le> r_ts r \<and> r_ts r < hi) \<Longrightarrow> rows_in rows lo hi = rows"
  by (simp add: rows_in_def)

lemma rows_in_idem [simp]: "rows_in (sort_rows (rows_in rows lo hi)) lo hi = sort_rows (rows_in rows lo hi)"
  by (rule rows_in_id) (simp add: rows_in_def)

lemma truthful_made [simp]:
  "truthful sha rows (id_list_range lo hi (rows_in rows lo hi))"
  "truthful sha rows (fingerprint_range sha lo hi (rows_in rows lo hi))"
  by (simp_all add: truthful_def id_list_range_def fingerprint_range_def matches_fingerprint_def Let_def)

lemma made_bounds [simp]:
  "rlo (id_list_range lo hi rs) = lo" "rhi (id_list_range lo hi rs) = hi"
  "rlo (fingerprint_range sha lo hi rs) = lo" "rhi (fingerprint_range sha lo hi rs) = hi"
  by (simp_all add: id_list_range_def fingerprint_range_def Let_def)

section \<open>The cuts tile the window\<close>

lemma split_loop_chain:
  assumes "sorted (map r_ts rows)" and "\<And>r. r \<in> set rows \<Longrightarrow> start \<le> r_ts r \<and> r_ts r < hi"
    and "bchain lo bounds start" and "start \<le> hi"
    and "split_loop target fanout start n bounds rows = (bs, st)"
  shows "bchain lo bs st \<and> st \<le> hi"
  using assms
proof (induction target fanout start n bounds rows rule: split_loop.induct)
  case (1 target fanout start n bounds row nxt rest)
  show ?case
  proof (cases "n + 1 < target \<or> length bounds \<ge> fanout - 1")
    case True
    then show ?thesis using "1.IH"(1) [OF refl True] "1.prems" by (simp add: Let_def)
  next
    case F: False
    show ?thesis
    proof (cases "r_ts nxt \<le> r_ts row")
      case True
      then show ?thesis using "1.IH"(2) [OF refl F refl True] "1.prems" F by (simp add: Let_def)
    next
      case False
      have "start \<le> r_ts nxt" "r_ts nxt \<le> hi" using "1.prems"(2) [of nxt] by simp_all
      moreover have "\<And>r. r \<in> set (nxt # rest) \<Longrightarrow> r_ts nxt \<le> r_ts r \<and> r_ts r < hi"
        using "1.prems"(1,2) by auto
      ultimately show ?thesis
        using "1.IH"(3) [OF refl F refl False] "1.prems" F False by (simp add: Let_def)
    qed
  qed
qed auto

lemma split_bounds_chain:
  assumes "sorted (map r_ts rows)" "\<And>r. r \<in> set rows \<Longrightarrow> lo \<le> r_ts r \<and> r_ts r < hi" "lo \<le> hi"
  shows "bchain lo (split_bounds rows lo hi fanout) hi"
proof -
  obtain bs st where l: "split_loop (max 1 ((length rows + fanout - 1) div fanout)) fanout lo 0 [] rows = (bs, st)"
    by fastforce
  from split_loop_chain [OF assms(1,2) _ assms(3) l] show ?thesis
    by (simp only: split_bounds_def Let_def l prod.case bchain_snoc) simp
qed

lemma group_start_le: "group_start rows k \<le> k"
  by (induction k) auto

lemma desc_snoc: "sorted_wrt (>) xs \<Longrightarrow> xs = [] \<or> y < last xs \<Longrightarrow> sorted_wrt (>) (xs @ [y :: 'a::linorder])"
  by (induction xs) (auto simp: less_trans split: if_splits)

lemma ladder_cuts_inv:
  assumes "\<And>r. r \<in> set rows \<Longrightarrow> r_ts r < hi" and "0 \<notin> set sizes" and "sorted_wrt (>) cuts"
    and "\<And>c. c \<in> set cuts \<Longrightarrow> lo < c \<and> c < hi"
  shows "sorted_wrt (>) (ladder_cuts rows lo taken cuts sizes)
    \<and> (\<forall>c \<in> set (ladder_cuts rows lo taken cuts sizes). lo < c \<and> c < hi)"
  using assms
proof (induction rows lo taken cuts sizes rule: ladder_cuts.induct)
  case (2 rows lo taken cuts step sizes)
  let ?i = "group_start rows (length rows - (taken + step))"
  let ?b = "r_ts (rows ! ?i)"
  show ?case
  proof (cases "length rows \<le> taken + step \<or> ?i = 0")
    case True
    then show ?thesis using "2.prems" by (auto simp: Let_def)
  next
    case F: False
    moreover have "0 < step" using "2.prems"(2) by simp
    ultimately have "length rows - (taken + step) < length rows" by linarith
    then have "?i < length rows" using group_start_le [of rows "length rows - (taken + step)"] by linarith
    from nth_mem [OF this] have hi: "?b < hi" by (rule "2.prems"(1))
    show ?thesis
    proof (cases "?b \<le> lo \<or> (cuts \<noteq> [] \<and> last cuts \<le> ?b)")
      case True
      then show ?thesis using F "2.IH"(1) [OF refl refl _ refl _ refl True] "2.prems" by (simp add: Let_def)
    next
      case False
      then have srt: "sorted_wrt (>) (cuts @ [?b])" using "2.prems"(3) desc_snoc [of cuts ?b] by (auto simp: not_le)
      have bnd: "lo < c \<and> c < hi" if "c \<in> set (cuts @ [?b])" for c
        using that False hi "2.prems"(4) by auto
      have "0 \<notin> set sizes" using "2.prems"(2) by simp
      from "2.IH"(2) [OF refl refl _ refl _ refl False "2.prems"(1) this srt bnd] F False
      show ?thesis by (auto simp: Let_def)
    qed
  qed
qed simp

lemma bounds_between_chain: "sorted (lo # bs @ [hi]) \<Longrightarrow> bchain lo (bounds_between lo bs hi) hi"
  by (induction lo bs hi rule: bounds_between.induct) auto

lemma ladder_bounds_chain:
  assumes "\<And>r. r \<in> set rows \<Longrightarrow> r_ts r < hi" and "lo \<le> hi"
  shows "bchain lo (ladder_bounds rows lo hi) hi"
proof -
  let ?c = "ladder_cuts rows lo 0 [] SYNC_SUMMARY_LADDER"
  have c: "sorted_wrt (>) ?c" "\<And>x. x \<in> set ?c \<Longrightarrow> lo < x \<and> x < hi"
    using ladder_cuts_inv [of rows hi SYNC_SUMMARY_LADDER "[]" lo 0, OF assms(1)]
    by (auto simp: SYNC_SUMMARY_LADDER_def)
  then have "sorted_wrt (<) (rev ?c)" by (simp add: sorted_wrt_rev)
  then have "sorted (rev ?c)" by (simp add: strict_sorted_iff)
  then have "sorted (lo # rev ?c @ [hi])" using c(2) assms(2) by (auto simp: sorted_append intro: less_imp_le)
  then show ?thesis unfolding ladder_bounds_def by (rule bounds_between_chain)
qed

section \<open>Descriptions tile and tell the truth\<close>

lemma bounds_describe_ladder: "bounds_of (describe_ladder sha rows bs) = bs"
  by (induction sha rows bs rule: describe_ladder.induct) (auto simp: bounds_of_def Let_def)

lemma truthful_describe_ladder: "r \<in> set (describe_ladder sha rows bs) \<Longrightarrow> truthful sha rows r"
  by (induction sha rows bs rule: describe_ladder.induct) (auto simp: Let_def split: if_splits)

lemma bounds_split_describe:
  "bounds_of (split_describe sha rows lo hi fanout) =
     (if length (split_bounds rows lo hi fanout) < 2 then [(lo, hi)] else split_bounds rows lo hi fanout)"
  by (auto simp: split_describe_def bounds_of_def Let_def comp_def case_prod_beta intro!: map_idI)

lemma truthful_split_describe:
  "rows_in rows lo hi = rows \<Longrightarrow> r \<in> set (split_describe sha rows lo hi fanout) \<Longrightarrow> truthful sha rows r"
  using truthful_made [of sha rows lo hi]
  by (auto simp: split_describe_def Let_def split: if_splits)

lemma fit_budget_step:
  assumes "psize rs > budget" and "widest_idlist 0 None rs = Some (w, k)"
  shows "fit_budget sha psize rows budget rs =
    fit_budget sha psize rows budget
      (rs[k := fingerprint_range sha (rlo (rs ! k)) (rhi (rs ! k)) (rows_in rows (rlo (rs ! k)) (rhi (rs ! k)))])"
  using assms by (simp add: fit_budget.simps [of _ _ _ _ rs] Let_def)

lemma fit_budget_inv:
  assumes "\<And>rs k. P rs \<Longrightarrow> k < length rs \<Longrightarrow>
     P (rs[k := fingerprint_range sha (rlo (rs ! k)) (rhi (rs ! k)) (rows_in rows (rlo (rs ! k)) (rhi (rs ! k)))])"
    and "P rs"
  shows "P (fit_budget sha psize rows budget rs)
    \<and> (psize (fit_budget sha psize rows budget rs) \<le> budget
       \<or> list_all (\<lambda>r. \<not> is_idlist r) (fit_budget sha psize rows budget rs))"
  using assms(2)
proof (induction "length (filter is_idlist rs)" arbitrary: rs rule: less_induct)
  case less
  show ?case
  proof (cases "psize rs > budget")
    case True
    show ?thesis
    proof (cases "widest_idlist 0 None rs")
      case None
      then show ?thesis using True less.prems widest_idlist_None [OF None] by (simp add: fit_budget.simps [of _ _ _ _ rs])
    next
      case (Some wk)
      obtain w k where wk: "widest_idlist 0 None rs = Some (w, k)" using Some by (cases wk) simp
      from widest_idlist_Some [OF wk] have k: "k < length rs" "is_idlist (rs ! k)" by auto
      show ?thesis unfolding fit_budget_step [where psize = psize and rs = rs, OF True wk]
        by (rule less.hyps)
          (use k assms(1) [OF less.prems k(1)] in \<open>simp_all add: filter_list_update_less fingerprint_range_def Let_def\<close>)
    qed
  next
    case False
    then show ?thesis using less.prems by (simp add: fit_budget.simps [of _ _ _ _ rs])
  qed
qed

lemma bounds_update:
  "k < length rs \<Longrightarrow> bounds_of (rs[k := fingerprint_range sha (rlo (rs ! k)) (rhi (rs ! k)) X]) = bounds_of rs"
  by (simp add: bounds_of_def map_update list_update_same_conv)

lemma fit_budget_bounds: "bounds_of (fit_budget sha psize rows budget rs) = bounds_of rs"
  using fit_budget_inv [of "\<lambda>xs. bounds_of xs = bounds_of rs"] bounds_update by metis

lemma fit_budget_truthful:
  assumes "\<And>r. r \<in> set rs \<Longrightarrow> truthful sha rows r" and "r \<in> set (fit_budget sha psize rows budget rs)"
  shows "truthful sha rows r"
proof -
  have "\<forall>r \<in> set (fit_budget sha psize rows budget rs). truthful sha rows r"
    by (rule fit_budget_inv [of "\<lambda>xs. \<forall>r \<in> set xs. truthful sha rows r", THEN conjunct1])
      (use assms(1) in \<open>auto dest!: subsetD [OF set_update_subset_insert]\<close>)
  then show ?thesis using assms(2) by blast
qed

text \<open>The interface: what a receiver may assume of a description.\<close>

locale describer =
  fixes desc :: "row list \<Rightarrow> secs \<Rightarrow> secs \<Rightarrow> sync_range list"
    and sha :: "bytes \<Rightarrow> bytes"
  assumes covers: "lo \<le> hi \<Longrightarrow> tiles lo (desc rows lo hi) hi"
    and honest: "lo \<le> hi \<Longrightarrow> r \<in> set (desc rows lo hi) \<Longrightarrow> truthful sha rows r"
begin

lemma covering_range:
  assumes "lo \<le> t" and "t < hi"
  obtains r where "r \<in> set (desc rows lo hi)" "rlo r \<le> t" "t < rhi r" "truthful sha rows r" "lo \<le> rlo r" "rhi r \<le> hi"
proof -
  have t: "bchain lo (bounds_of (desc rows lo hi)) hi"
    using covers [of lo hi rows] assms by (simp add: tiles_def)
  from bchain_covers [OF t assms] obtain r where r: "r \<in> set (desc rows lo hi)" "rlo r \<le> t" "t < rhi r"
    by (auto simp: bounds_of_def)
  moreover have "lo \<le> rlo r \<and> rlo r \<le> rhi r \<and> rhi r \<le> hi"
    using t by (rule bchain_within) (use r in \<open>auto simp: bounds_of_def\<close>)
  ultimately show ?thesis using that honest [of lo hi r rows] assms by auto
qed

end

lemma sorted_window:
  "sorted (map r_ts (sort_rows (rows_in rows lo hi)))"
  "r \<in> set (sort_rows (rows_in rows lo hi)) \<Longrightarrow> lo \<le> r_ts r \<and> r_ts r < hi"
  by (rule sorted_ts_sort_rows) (simp add: rows_in_def)

interpretation summary: describer "\<lambda>rows lo hi. summarise sha rows lo hi ladder" sha for sha ladder
proof
  fix lo hi :: secs and rows
  assume le: "lo \<le> hi"
  let ?w = "sort_rows (rows_in rows lo hi)"
  have l: "bchain lo (ladder_bounds ?w lo hi) hi"
    using le by (intro ladder_bounds_chain) (simp_all add: rows_in_def)
  have single: "truthful sha rows (id_list_range lo hi ?w)" "truthful sha rows (fingerprint_range sha lo hi ?w)"
    using truthful_made [of sha ?w lo hi] by (auto intro: truthful_sub)
  show "tiles lo (summarise sha rows lo hi ladder) hi"
    using l le by (simp add: summarise_def Let_def) (simp add: tiles_def bounds_describe_ladder)
  fix r
  assume r: "r \<in> set (summarise sha rows lo hi ladder)"
  then consider "r = id_list_range lo hi ?w" | "r = fingerprint_range sha lo hi ?w"
    | "r \<in> set (describe_ladder sha ?w (ladder_bounds ?w lo hi))"
    by (auto simp: summarise_def Let_def split: if_splits)
  then show "truthful sha rows r"
  proof cases
    case 3
    then have "(rlo r, rhi r) \<in> set (ladder_bounds ?w lo hi)"
      using in_bounds_of [OF 3] by (simp only: bounds_describe_ladder)
    from bchain_within [OF l this] have i: "lo \<le> rlo r" "rhi r \<le> hi" by blast+
    show ?thesis by (rule truthful_sub [OF truthful_describe_ladder [OF 3] i])
  qed (use single in simp_all)
qed

text \<open>The shapes of a narrowing description: a leaf, an unsplittable window, or a split
  brought under the budget.\<close>

abbreviation window :: "row list \<Rightarrow> secs \<Rightarrow> secs \<Rightarrow> row list" where
  "window rows lo hi \<equiv> sort_rows (rows_in rows lo hi)"

lemma describe_shape:
  obtains (leaf) "describe sha psize rows lo hi budget = [id_list_range lo hi (window rows lo hi)]" "length (window rows lo hi) \<le> SYNC_LEAF_IDS"
  | (whole) "describe sha psize rows lo hi budget = split_describe sha (window rows lo hi) lo hi SYNC_RANGE_FANOUT"
      "length (split_bounds (window rows lo hi) lo hi SYNC_RANGE_FANOUT) < 2" "SYNC_LEAF_IDS < length (window rows lo hi)"
  | (cut) fanout where "2 \<le> fanout" "fanout \<le> max SYNC_RANGE_FANOUT (budget div FINGERPRINT_RANGE_BYTES psize)"
      "describe sha psize rows lo hi budget = fit_budget sha psize (window rows lo hi) budget (split_describe sha (window rows lo hi) lo hi fanout)"
      "SYNC_LEAF_IDS < length (window rows lo hi)"
proof -
  let ?w = "window rows lo hi"
  let ?d = "split_describe sha ?w lo hi SYNC_RANGE_FANOUT"
  let ?c = "max 2 (budget div FINGERPRINT_RANGE_BYTES psize)"
  have len: "length ?d = (if length (split_bounds ?w lo hi SYNC_RANGE_FANOUT) < 2 then 1
      else length (split_bounds ?w lo hi SYNC_RANGE_FANOUT))"
    using arg_cong [OF bounds_split_describe, of length] by (auto split: if_splits)
  consider "length ?w \<le> SYNC_LEAF_IDS" | "SYNC_LEAF_IDS < length ?w" "length ?d < 2"
    | "SYNC_LEAF_IDS < length ?w" "\<not> length ?d < 2" "psize (fit_budget sha psize ?w budget ?d) \<le> budget"
    | "SYNC_LEAF_IDS < length ?w" "\<not> length ?d < 2" "\<not> psize (fit_budget sha psize ?w budget ?d) \<le> budget"
    by linarith
  then show thesis
  proof cases
    case 1
    then show ?thesis by (intro leaf) (simp_all add: describe_def )
  next
    case 2
    then show ?thesis using len by (intro whole) (auto simp: describe_def  Let_def split: if_splits)
  next
    case 3
    then show ?thesis by (intro cut [of SYNC_RANGE_FANOUT]) (simp_all add: describe_def  Let_def SYNC_RANGE_FANOUT_def)
  next
    case 4
    then show ?thesis by (intro cut [of ?c]) (simp_all add: describe_def  Let_def SYNC_RANGE_FANOUT_def)
  qed
qed

interpretation narrowing: describer "\<lambda>rows lo hi. describe sha psize rows lo hi budget" sha for sha psize budget
proof
  fix lo hi :: secs and rows
  assume le: "lo \<le> hi"
  let ?w = "window rows lo hi"
  have w: "rows_in ?w lo hi = ?w" by simp
  have b: "bchain lo (bounds_of (split_describe sha ?w lo hi f)) hi" for f
    using split_bounds_chain [of ?w lo hi f] sorted_window(1) [of rows lo hi] sorted_window(2) [of _ rows lo hi] le by (simp add: bounds_split_describe)
  show "tiles lo (describe sha psize rows lo hi budget) hi"
    by (cases rule: describe_shape [of sha psize rows lo hi budget]) (use b le in \<open>simp_all add: tiles_def fit_budget_bounds\<close>,
      simp add: bounds_of_def)
  fix r
  assume r: "r \<in> set (describe sha psize rows lo hi budget)"
  have t: "truthful sha ?w r"
  proof (cases rule: describe_shape [of sha psize rows lo hi budget])
    case leaf
    then show ?thesis using r truthful_made(1) [of sha ?w lo hi] by (simp add: w)
  next
    case whole
    then show ?thesis using r by (intro truthful_split_describe [OF w]) simp
  next
    case (cut f)
    then show ?thesis using r by (intro fit_budget_truthful [OF truthful_split_describe [OF w]]) simp_all
  qed
  have "lo \<le> rlo r \<and> rlo r \<le> rhi r \<and> rhi r \<le> hi"
    using \<open>tiles lo (describe sha psize rows lo hi budget) hi\<close> unfolding tiles_def
    by (rule bchain_within) (rule in_bounds_of [OF r])
  then show "truthful sha rows r" by (intro truthful_sub [OF t]) simp_all
qed

section \<open>Every difference shows\<close>

text \<open>A message identifier as the program makes it: the hexadecimal text of a SHA-256.\<close>

definition canonical :: "row \<Rightarrow> bool" where
  "canonical r = (case fromhex (r_id r) of None \<Rightarrow> False | Some d \<Rightarrow> length d = 32 \<and> r_id r = to_hex d)"

text \<open>No collision of the truncated digest on what the two sides hold in a fingerprint range.\<close>

definition collision_free :: "(bytes \<Rightarrow> bytes) \<Rightarrow> row list \<Rightarrow> row list \<Rightarrow> sync_range \<Rightarrow> bool" where
  "collision_free sha A B r =
     (case r of
        IdRange _ _ _ \<Rightarrow> True
      | FpRange lo hi _ _ \<Rightarrow>
          (let a = map r_id (rows_in A lo hi); b = map r_id (rows_in B lo hi)
           in fingerprint sha a = fingerprint sha b \<longrightarrow>
              concat (map id_bytes (sort a)) = concat (map id_bytes (sort b))))"

text \<open>A range shows the receiver holding \<open>B\<close> that row \<open>b\<close> is missing on the other side:
  its id list does not account for the row, or its fingerprint does not match.\<close>

definition shows_missing :: "(bytes \<Rightarrow> bytes) \<Rightarrow> row list \<Rightarrow> row \<Rightarrow> sync_range \<Rightarrow> bool" where
  "shows_missing sha B b r =
     (rlo r \<le> r_ts b \<and> r_ts b < rhi r \<and>
      (case r of
         IdRange lo hi ps \<Rightarrow> r_id b \<in> set (ids_they_lack (rows_in B lo hi) ps)
       | FpRange lo hi n fp \<Rightarrow> \<not> matches_fingerprint sha (rows_in B lo hi) n fp))"

lemma canonical_bytes: "canonical r \<Longrightarrow> length (id_bytes (r_id r)) = 32 \<and> to_hex (id_bytes (r_id r)) = r_id r"
  by (auto simp: canonical_def id_bytes_def split: option.splits)

lemma canonical_ids_eq:
  assumes "list_all canonical A" and "list_all canonical B"
    and "concat (map id_bytes (sort (map r_id A))) = concat (map id_bytes (sort (map r_id B)))"
  shows "r_id ` set A = r_id ` set B"
proof -
  have hex: "map to_hex (map id_bytes (sort (map r_id X))) = sort (map r_id X)" if "list_all canonical X" for X
    using that by (auto simp: list_all_iff canonical_bytes intro!: map_idI)
  have "map id_bytes (sort (map r_id A)) = map id_bytes (sort (map r_id B))"
    by (rule concat_blocks_inj [where n = 32, OF _ _ assms(3)])
      (use assms(1,2) in \<open>auto simp: list_all_iff canonical_bytes\<close>)
  then have "sort (map r_id A) = sort (map r_id B)" by (metis hex assms(1,2))
  then have "set (sort (map r_id A)) = set (sort (map r_id B))" by (rule arg_cong)
  then show ?thesis by simp
qed

lemma shows_missing_if:
  assumes "truthful sha A r" and "rlo r \<le> r_ts b" "r_ts b < rhi r" and "b \<in> set B"
    and "id_prefix (r_id b) \<notin> prefixes_of A" and "collision_free sha A B r"
    and "list_all canonical A" "list_all canonical B"
  shows "shows_missing sha B b r"
proof (cases r)
  case (IdRange lo hi ps)
  have "prefixes_of (rows_in A lo hi) \<subseteq> prefixes_of A" by (auto simp: prefixes_of_def rows_in_def)
  then show ?thesis using assms(1-5) IdRange
    by (auto simp: shows_missing_def truthful_def ids_they_lack_def rows_in_def)
next
  case (FpRange lo hi n fp)
  let ?A = "rows_in A lo hi" and ?B = "rows_in B lo hi"
  have b: "b \<in> set ?B" using assms(2-4) FpRange by (simp add: rows_in_def)
  have "\<not> matches_fingerprint sha ?B n fp"
  proof
    assume m: "matches_fingerprint sha ?B n fp"
    with assms(1,6) FpRange have "concat (map id_bytes (sort (map r_id ?A))) = concat (map id_bytes (sort (map r_id ?B)))"
      by (simp add: truthful_def matches_fingerprint_def collision_free_def Let_def)
    then have "r_id ` set ?A = r_id ` set ?B"
      by (intro canonical_ids_eq) (use assms(7,8) in \<open>auto simp: rows_in_def list_all_iff\<close>)
    with b obtain a where "a \<in> set ?A" "r_id a = r_id b" by (metis imageE imageI)
    then have "id_prefix (r_id b) \<in> prefixes_of A" by (auto simp: prefixes_of_def rows_in_def intro: image_eqI [of _ _ a])
    with assms(5) show False ..
  qed
  then show ?thesis using assms(2,3) FpRange by (simp add: shows_missing_def)
qed

context describer
begin

lemma difference_found:
  assumes "b \<in> set B" "lo \<le> r_ts b" "r_ts b < hi" and "id_prefix (r_id b) \<notin> prefixes_of A"
    and "list_all (collision_free sha A B) (desc A lo hi)" and "list_all canonical A" "list_all canonical B"
  shows "list_ex (shows_missing sha B b) (desc A lo hi)"
proof -
  obtain r where "r \<in> set (desc A lo hi)" "rlo r \<le> r_ts b" "r_ts b < rhi r" "truthful sha A r"
    using assms(2,3) by (rule covering_range)
  moreover from this have "shows_missing sha B b r"
    by (intro shows_missing_if [where A = A]) (use assms in \<open>auto simp: list_all_iff\<close>)
  ultimately show ?thesis by (auto simp: list_ex_iff)
qed

end

text \<open>C25. Every description of a window, fresh or narrowing, tiles it from end to end and
  tells the truth about the rows it covers, whatever the budget.\<close>

theorem descriptions_tile_truthfully:
  assumes "lo \<le> hi"
  shows "tiles lo (summarise sha rows lo hi ladder) hi
    \<and> list_all (truthful sha rows) (summarise sha rows lo hi ladder)
    \<and> tiles lo (describe sha psize rows lo hi budget) hi
    \<and> list_all (truthful sha rows) (describe sha psize rows lo hi budget)"
  using summary.covers narrowing.covers summary.honest narrowing.honest assms by (simp add: list_all_iff)

theorem descriptions_tile_truthfully_witness:
  "tiles 0 (describe (\<lambda>x. x) length [\<lparr>r_id = ''00'', r_ts = 5, r_sig = True\<rparr>] 0 10 512) 10"
proof -
  have "(0 :: secs) \<le> 10" by simp
  from descriptions_tile_truthfully [OF this] show ?thesis by blast
qed

text \<open>C24. No difference stays hidden. Let one side describe its rows \<open>A\<close> of a window to a
  side holding \<open>B\<close>. If \<open>B\<close> has a row in the window whose prefix no row of \<open>A\<close> has, then in
  a fresh summary and in a narrowing description alike some range covers the row and shows
  it missing: by id, or by a fingerprint that does not match. Identifiers are digests, and
  the truncated hash does not collide on the ranges sent.\<close>

theorem difference_always_shows:
  assumes "b \<in> set B" "lo \<le> r_ts b" "r_ts b < hi" and "id_prefix (r_id b) \<notin> prefixes_of A"
    and "list_all canonical A" "list_all canonical B"
    and "list_all (collision_free sha A B) (summarise sha A lo hi ladder)"
    and "list_all (collision_free sha A B) (describe sha psize A lo hi budget)"
  shows "list_ex (shows_missing sha B b) (summarise sha A lo hi ladder)
    \<and> list_ex (shows_missing sha B b) (describe sha psize A lo hi budget)"
  using summary.difference_found [OF assms(1-4,7,5,6)] narrowing.difference_found [OF assms(1-4,8,5,6)] ..

definition sample_row :: "byte \<Rightarrow> secs \<Rightarrow> row" where
  "sample_row x t = \<lparr>r_id = to_hex (replicate 32 x), r_ts = t, r_sig = True\<rparr>"

lemma sample_row [simp]:
  "canonical (sample_row x t)" "r_ts (sample_row x t) = t" "id_prefix (r_id (sample_row x t)) = replicate 8 x"
  by (simp_all add: canonical_def sample_row_def id_prefix_def id_bytes_def SYNC_ID_PREFIX_BYTES_def)

lemma small_window:
  assumes "length (rows_in rows lo hi) \<le> 8"
  shows "summarise sha rows lo hi ladder = [id_list_range lo hi (window rows lo hi)]"
    and "describe sha psize rows lo hi budget = [id_list_range lo hi (window rows lo hi)]"
  using assms by (simp_all add: summarise_def describe_def SYNC_SUMMARY_LADDER_def SYNC_LEAF_IDS_def)

theorem difference_always_shows_witness:
  "list_ex (shows_missing (\<lambda>x. x) [sample_row 1 3, sample_row 2 5] (sample_row 2 5))
     (describe (\<lambda>x. x) length [sample_row 1 3] 0 10 512)"
proof -
  have l: "length (rows_in [sample_row 1 3] 0 10) \<le> 8" by (simp add: rows_in_def)
  have c: "list_all (collision_free (\<lambda>x. x) [sample_row 1 3] [sample_row 1 3, sample_row 2 5])
      (summarise (\<lambda>x. x) [sample_row 1 3] 0 10 True)"
    "list_all (collision_free (\<lambda>x. x) [sample_row 1 3] [sample_row 1 3, sample_row 2 5])
      (describe (\<lambda>x. x) length [sample_row 1 3] 0 10 512)"
    by (simp_all add: small_window [OF l] collision_free_def id_list_range_def)
  have p: "id_prefix (r_id (sample_row 2 5)) \<notin> prefixes_of [sample_row 1 3]"
    by (simp add: prefixes_of_def numeral_eq_Suc)
  show ?thesis
    using difference_always_shows [where b = "sample_row 2 5" and B = "[sample_row 1 3, sample_row 2 5]",
        OF _ _ _ p _ _ c] by simp
qed

section \<open>Bounds and progress\<close>

lemma split_loop_rows:
  assumes "set rows \<subseteq> R" and "bounds \<noteq> [] \<longrightarrow> (\<exists>r \<in> R. r_ts r < snd (hd bounds)) \<and> (\<exists>r \<in> R. start \<le> r_ts r)"
    and "split_loop target fanout start n bounds rows = (bs, st)"
  shows "bs \<noteq> [] \<longrightarrow> (\<exists>r \<in> R. r_ts r < snd (hd bs)) \<and> (\<exists>r \<in> R. st \<le> r_ts r)"
  using assms
proof (induction target fanout start n bounds rows rule: split_loop.induct)
  case (1 target fanout start n bounds row nxt rest)
  show ?case
  proof (cases "n + 1 < target \<or> length bounds \<ge> fanout - 1")
    case True
    then show ?thesis using "1.IH"(1) [OF refl True] "1.prems" by (simp add: Let_def)
  next
    case F: False
    show ?thesis
    proof (cases "r_ts nxt \<le> r_ts row")
      case True
      then show ?thesis using "1.IH"(2) [OF refl F refl True] "1.prems" F by (simp add: Let_def)
    next
      case False
      let ?b = "bounds @ [(start, r_ts nxt)]"
      have "(\<exists>r \<in> R. r_ts r < snd (hd ?b)) \<and> (\<exists>r \<in> R. r_ts nxt \<le> r_ts r)"
        using "1.prems"(1,2) False by (cases bounds) force+
      with F False "1.prems"(1,3) show ?thesis
        by (intro "1.IH"(3) [OF refl F refl False]) (auto simp: Let_def)
    qed
  qed
qed auto

lemma split_loop_length:
  "split_loop target fanout start n bounds rows = (bs, st) \<Longrightarrow> length bs \<le> max (length bounds) (fanout - 1)"
proof (induction target fanout start n bounds rows rule: split_loop.induct)
  case (1 target fanout start n bounds row nxt rest)
  then show ?case by (fastforce simp: Let_def split: if_splits)
qed auto

lemma length_split_bounds: "length (split_bounds rows lo hi fanout) \<le> max 1 fanout"
proof -
  obtain bs st where l: "split_loop (max 1 ((length rows + fanout - 1) div fanout)) fanout lo 0 [] rows = (bs, st)"
    by fastforce
  then show ?thesis using split_loop_length [OF l] unfolding split_bounds_def Let_def l by simp
qed

text \<open>A cut is progress: each of two or more sub-ranges covers fewer rows than the whole.\<close>

lemma split_bounds_fewer:
  assumes "sorted (map r_ts rows)" "\<And>r. r \<in> set rows \<Longrightarrow> lo \<le> r_ts r \<and> r_ts r < hi" "lo \<le> hi"
    and ab: "(a, b) \<in> set (split_bounds rows lo hi fanout)" and two: "2 \<le> length (split_bounds rows lo hi fanout)"
  shows "length (rows_in rows a b) < length rows"
proof -
  obtain bs st where l: "split_loop (max 1 ((length rows + fanout - 1) div fanout)) fanout lo 0 [] rows = (bs, st)"
    by fastforce
  have sb: "split_bounds rows lo hi fanout = bs @ [(st, hi)]" unfolding split_bounds_def Let_def l by simp
  with two obtain x bs' where bs: "bs = x # bs'" by (cases bs) auto
  have "bs \<noteq> [] \<longrightarrow> (\<exists>r \<in> set rows. r_ts r < snd (hd bs)) \<and> (\<exists>r \<in> set rows. st \<le> r_ts r)"
    by (rule split_loop_rows [OF _ _ l]) simp_all
  with bs obtain r s where r: "r \<in> set rows" "r_ts r < snd x" and s: "s \<in> set rows" "st \<le> r_ts s" by auto
  have chain: "bchain lo (x # bs' @ [(st, hi)]) hi"
    using split_bounds_chain [OF assms(1-3), of fanout] by (simp add: sb bs)
  have "\<exists>q \<in> set rows. \<not> (a \<le> r_ts q \<and> r_ts q < b)"
  proof (cases "(a, b) = x")
    case True
    have "snd x \<le> st" using bchain_after_hd [OF chain, of st hi] by simp
    then show ?thesis using s True by (intro bexI [OF _ s(1)]) auto
  next
    case False
    then have "(a, b) \<in> set (bs' @ [(st, hi)])" using ab by (simp add: sb bs)
    with chain have "snd x \<le> a" by (rule bchain_after_hd)
    then show ?thesis using r by (intro bexI [OF _ r(1)]) auto
  qed
  then show ?thesis by (auto simp: rows_in_def intro: length_filter_less)
qed

lemma length_sorted_prefixes: "length (sorted_prefixes rows) \<le> length rows"
  using length_remdups_leq [of "map (\<lambda>r. id_prefix (r_id r)) rows"] by (simp add: sorted_prefixes_def)

lemma length_rows_in_window: "lo \<le> a \<Longrightarrow> b \<le> hi \<Longrightarrow> length (rows_in (window rows lo hi) a b) = length (rows_in rows a b)"
  using rows_in_within [of lo a b hi rows] by (rule mset_eq_length)

lemma cut_fewer:
  assumes "lo \<le> hi" and "2 \<le> length (split_bounds (window rows lo hi) lo hi fanout)"
    and r: "(rlo r, rhi r) \<in> set (split_bounds (window rows lo hi) lo hi fanout)"
  shows "length (rows_in rows (rlo r) (rhi r)) < length (rows_in rows lo hi)"
proof -
  have chain: "bchain lo (split_bounds (window rows lo hi) lo hi fanout) hi"
    by (rule split_bounds_chain) (use assms(1) sorted_window(2) sorted_ts_sort_rows in auto)
  have "lo \<le> rlo r \<and> rlo r \<le> rhi r \<and> rhi r \<le> hi" using chain r by (rule bchain_within)
  moreover have "length (rows_in (window rows lo hi) (rlo r) (rhi r)) < length (window rows lo hi)"
    by (rule split_bounds_fewer [OF _ _ assms(1) r assms(2)]) (use sorted_window(2) sorted_ts_sort_rows in auto)
  ultimately show ?thesis using length_rows_in_window [of lo "rlo r" "rhi r" hi rows] by simp
qed

text \<open>C27. Narrowing makes progress and stays within bounds. A narrowing description is
  either one range, or every range in it covers strictly fewer rows than the window; it has
  at most as many ranges as the fan-out or the budget pays for; and it fits the byte budget
  unless it is a single range or nothing but fingerprints.\<close>

theorem describe_progress:
  assumes "lo \<le> hi"
  shows "(length (describe sha psize rows lo hi budget) = 1 \<or>
     list_all (\<lambda>r. length (rows_in rows (rlo r) (rhi r)) < length (rows_in rows lo hi))
       (describe sha psize rows lo hi budget))
   \<and> length (describe sha psize rows lo hi budget)
       \<le> max SYNC_RANGE_FANOUT (budget div FINGERPRINT_RANGE_BYTES psize)
   \<and> (psize (describe sha psize rows lo hi budget) \<le> budget
      \<or> list_all (\<lambda>r. \<not> is_idlist r) (describe sha psize rows lo hi budget)
      \<or> length (describe sha psize rows lo hi budget) = 1)"
proof (cases rule: describe_shape [of sha psize rows lo hi budget])
  case leaf
  then show ?thesis by (simp add: SYNC_RANGE_FANOUT_def)
next
  case whole
  then show ?thesis by (auto simp: split_describe_def SYNC_RANGE_FANOUT_def)
next
  case (cut f)
  let ?w = "window rows lo hi" and ?rs = "describe sha psize rows lo hi budget"
  have b: "bounds_of ?rs = (if length (split_bounds ?w lo hi f) < 2 then [(lo, hi)] else split_bounds ?w lo hi f)"
    using cut(3) by (simp add: fit_budget_bounds bounds_split_describe)
  have len: "length ?rs = (if length (split_bounds ?w lo hi f) < 2 then 1 else length (split_bounds ?w lo hi f))"
    using arg_cong [OF b, of length] by (auto split: if_splits)
  have fewer: "length (rows_in rows (rlo r) (rhi r)) < length (rows_in rows lo hi)"
    if "r \<in> set ?rs" "length ?rs \<noteq> 1" for r
    using that in_bounds_of [OF that(1)] b len cut_fewer [OF assms, of rows f r] by (auto split: if_splits)
  have "length ?rs \<le> max SYNC_RANGE_FANOUT (budget div FINGERPRINT_RANGE_BYTES psize)"
    using len cut(1,2) length_split_bounds [of ?w lo hi f] by (auto split: if_splits)
  moreover have "psize ?rs \<le> budget \<or> list_all (\<lambda>r. \<not> is_idlist r) ?rs"
    unfolding cut(3) by (rule fit_budget_inv [of "\<lambda>_. True", THEN conjunct2]) simp_all
  ultimately show ?thesis using fewer by (auto simp: list_all_iff)
qed

theorem describe_progress_witness:
  "length (describe (\<lambda>x. x) length [sample_row 1 3] 0 10 512) \<le> max 16 (512 div 1)"
proof -
  have "(0 :: secs) \<le> 10" by simp
  from describe_progress [OF this, where sha = "\<lambda>x. x" and psize = length and rows = "[sample_row 1 3]" and budget = 512]
  show ?thesis by (simp add: SYNC_RANGE_FANOUT_def FINGERPRINT_RANGE_BYTES_def)
qed

section \<open>A description is accepted by the peer that receives it\<close>

definition wf_range :: "sync_range \<Rightarrow> bool" where
  "wf_range r =
     (0 \<le> rlo r \<and> rlo r \<le> rhi r \<and>
      (case r of
         FpRange _ _ _ fp \<Rightarrow> length fp = SYNC_FINGERPRINT_BYTES
       | IdRange _ _ ps \<Rightarrow> sorted_wrt (<) ps \<and> list_all (\<lambda>p. length p = SYNC_ID_PREFIX_BYTES) ps))"

lemma check_prefixes_accepts:
  "sorted_wrt (<) (acc @ ps) \<Longrightarrow> list_all (\<lambda>p. length p = SYNC_ID_PREFIX_BYTES) ps \<Longrightarrow>
     check_prefixes acc (map PBytes ps) = Some (acc @ ps)"
proof (induction ps arbitrary: acc)
  case (Cons p ps)
  have "\<not> (acc \<noteq> [] \<and> p \<le> last acc)"
    using Cons.prems(1) by (cases acc rule: rev_cases) (auto simp: sorted_wrt_append not_le)
  then show ?case using Cons.IH [of "acc @ [p]"] Cons.prems by simp
qed simp

lemma check_ranges_accepts:
  assumes "list_all wf_range rs" and "bchain lo (bounds_of rs) hi"
    and "case prev of None \<Rightarrow> True | Some q \<Rightarrow> q \<le> lo"
    and "ids + id_count rs \<le> MAX_SYNC_LIST_IDS"
  shows "check_ranges parsed prev ids (map range_value rs) = Some (parsed @ rs)"
  using assms
proof (induction rs arbitrary: parsed prev ids lo)
  case (Cons r rs)
  have nn: "0 \<le> rlo r" "rlo r \<le> rhi r" "rlo r = lo" "bchain (rhi r) (bounds_of rs) hi"
    using Cons.prems(1,2) by (auto simp: wf_range_def bounds_of_def)
  have prev: "\<not> (case prev of None \<Rightarrow> False | Some q \<Rightarrow> lo < q)"
    using Cons.prems(3) by (auto split: option.splits)
  show ?case
  proof (cases r)
    case (FpRange a b n fp)
    then have "check_payload a b ids (PInt 0) (PList [PInt (int n), PBytes fp]) = Some (ids, r)"
      using Cons.prems(1) by (simp add: check_payload_def wf_range_def)
    moreover have "id_count (r # rs) = id_count rs" using FpRange by (simp add: id_count_def)
    ultimately show ?thesis
      using Cons.IH [of "rhi r" "Some (rhi r)" ids "parsed @ [r]"] Cons.prems(1,4) nn prev FpRange
      by (auto simp: finite_ts_def)
  next
    case (IdRange a b ps)
    have c: "id_count (r # rs) = length ps + id_count rs" using IdRange by (simp add: id_count_def)
    have "check_prefixes [] (map PBytes ps) = Some ps"
      using Cons.prems(1) IdRange check_prefixes_accepts [of "[]" ps] by (simp add: wf_range_def)
    then have "check_payload a b ids (PInt 1) (PList (map PBytes ps)) = Some (ids + length ps, r)"
      using IdRange Cons.prems(4) c by (simp add: check_payload_def)
    then show ?thesis
      using Cons.IH [of "rhi r" "Some (rhi r)" "ids + length ps" "parsed @ [r]"] Cons.prems(1,4) c nn prev IdRange
      by (auto simp: finite_ts_def)
  qed
qed simp

lemma truthful_wf:
  assumes "truthful sha rows r" and "0 \<le> rlo r" "rlo r \<le> rhi r"
    and "list_all canonical rows" and "\<And>x. SYNC_FINGERPRINT_BYTES \<le> length (sha x)"
  shows "wf_range r"
proof (cases r)
  case (FpRange a b n fp)
  then show ?thesis
    using assms(1-3) assms(5) by (auto simp: wf_range_def truthful_def matches_fingerprint_def fingerprint_def Let_def)
next
  case (IdRange a b ps)
  have "length p = SYNC_ID_PREFIX_BYTES" if "p \<in> prefixes_of (rows_in rows a b)" for p
  proof -
    from that obtain x where "x \<in> set rows" "p = id_prefix (r_id x)" by (auto simp: prefixes_of_def rows_in_def)
    with assms(4) canonical_bytes [of x] show ?thesis
      by (auto simp: list_all_iff id_prefix_def SYNC_ID_PREFIX_BYTES_def)
  qed
  then show ?thesis
    using assms(1-3) IdRange sorted_prefixes_strict
    by (auto simp: wf_range_def truthful_def list_all_iff)
qed

lemma description_wf:
  assumes "tiles lo rs hi" and "list_all (truthful sha rows) rs" and "0 \<le> lo"
    and "list_all canonical rows" and "\<And>x. SYNC_FINGERPRINT_BYTES \<le> length (sha x)"
  shows "list_all wf_range rs"
proof (unfold list_all_iff, rule ballI)
  fix r assume r: "r \<in> set rs"
  have "lo \<le> rlo r \<and> rlo r \<le> rhi r \<and> rhi r \<le> hi"
    using assms(1) in_bounds_of [OF r] unfolding tiles_def by (rule bchain_within)
  moreover have "truthful sha rows r" using assms(2) r by (simp add: list_all_iff)
  ultimately show "wf_range r" using assms(3) by (intro truthful_wf [OF _ _ _ assms(4,5)]) auto
qed

lemma id_count_simps [simp]:
  "id_count [] = 0" "id_count (r # rs) = (case r of IdRange _ _ ps \<Rightarrow> length ps | _ \<Rightarrow> 0) + id_count rs"
  "id_count (rs @ rs') = id_count rs + id_count rs'"
  by (simp_all add: id_count_def)

lemma id_count_update: "k < length rs \<Longrightarrow> id_count (rs[k := fingerprint_range sha lo hi X]) \<le> id_count rs"
  by (induction rs arbitrary: k) (auto simp: fingerprint_range_def Let_def split: nat.splits intro: trans_le_add2)

lemma id_count_fit_budget: "id_count (fit_budget sha psize rows budget rs) \<le> id_count rs"
  by (rule fit_budget_inv [of "\<lambda>xs. id_count xs \<le> id_count rs", THEN conjunct1])
    (auto intro: le_trans [OF id_count_update])

lemma id_count_map:
  "(\<And>x. x \<in> set xs \<Longrightarrow> (case f x of IdRange _ _ ps \<Rightarrow> length ps | _ \<Rightarrow> 0) \<le> m) \<Longrightarrow> id_count (map f xs) \<le> length xs * m"
  by (induction xs) (auto simp: add_le_mono)

lemma id_list_count: "length rows \<le> m \<Longrightarrow> (case id_list_range lo hi rows of IdRange _ _ ps \<Rightarrow> length ps | _ \<Rightarrow> 0) \<le> m"
  using length_sorted_prefixes [of rows] by (simp add: id_list_range_def)

lemma fp_count: "(case fingerprint_range sha lo hi rows of IdRange _ _ ps \<Rightarrow> length ps | _ \<Rightarrow> 0) = (0 :: nat)"
  by (simp add: fingerprint_range_def Let_def)

lemma id_count_split_describe:
  assumes "fanout \<le> SYNC_RANGE_FANOUT"
  shows "id_count (split_describe sha rows lo hi fanout) \<le> MAX_SYNC_LIST_IDS"
proof (cases "length (split_bounds rows lo hi fanout) < 2")
  case True
  then show ?thesis using id_list_count [of rows MAX_SYNC_LIST_IDS lo hi]
    by (auto simp: split_describe_def fp_count)
next
  case False
  let ?b = "split_bounds rows lo hi fanout"
  have "id_count (split_describe sha rows lo hi fanout) \<le> length ?b * SYNC_LEAF_IDS"
    using False unfolding split_describe_def Let_def
    by (simp del: id_count_simps) (rule id_count_map, auto simp: fp_count id_list_count)
  also have "\<dots> \<le> MAX_SYNC_LIST_IDS"
  proof -
    have "length ?b \<le> SYNC_RANGE_FANOUT" using length_split_bounds [of rows lo hi fanout] False assms by linarith
    then show ?thesis unfolding MAX_SYNC_LIST_IDS_def by (rule mult_le_mono1)
  qed
  finally show ?thesis .
qed

lemma id_count_describe:
  assumes "budget div FINGERPRINT_RANGE_BYTES psize \<le> SYNC_RANGE_FANOUT"
  shows "id_count (describe sha psize rows lo hi budget) \<le> MAX_SYNC_LIST_IDS"
proof (cases rule: describe_shape [of sha psize rows lo hi budget])
  case leaf
  then show ?thesis using id_list_count [of "window rows lo hi" SYNC_LEAF_IDS lo hi]
    by (simp add: MAX_SYNC_LIST_IDS_def SYNC_LEAF_IDS_def SYNC_RANGE_FANOUT_def)
next
  case whole
  then show ?thesis by (simp add: id_count_split_describe)
next
  case (cut f)
  then show ?thesis using le_trans [OF id_count_fit_budget id_count_split_describe [of f]] assms by simp
qed

lemma accepted:
  assumes "tiles lo rs hi" "list_all wf_range rs" "length rs \<le> MAX_SYNC_RANGES" "id_count rs \<le> MAX_SYNC_LIST_IDS"
  shows "validate_ranges (ranges_value rs) = Some rs"
  using assms check_ranges_accepts [of rs lo hi None 0 "[]"]
  by (simp add: validate_ranges_def ranges_value_def tiles_def)

text \<open>An honest description is never refused. A narrowing description of canonical rows,
  written to the wire and read back, passes the receiver's validation and comes out as the
  ranges that were sent, under the constants of the program (a budget that pays for at most
  sixteen fingerprint ranges).\<close>

theorem description_accepted:
  assumes "0 \<le> lo" "lo \<le> hi" and "list_all canonical rows"
    and "\<And>x. SYNC_FINGERPRINT_BYTES \<le> length (sha x)"
    and "budget div FINGERPRINT_RANGE_BYTES psize \<le> SYNC_RANGE_FANOUT"
  shows "validate_ranges (ranges_value (describe sha psize rows lo hi budget))
           = Some (describe sha psize rows lo hi budget)"
proof (rule accepted)
  show t: "tiles lo (describe sha psize rows lo hi budget) hi" using assms(2) by (rule narrowing.covers)
  show "list_all wf_range (describe sha psize rows lo hi budget)"
    by (rule description_wf [OF t _ assms(1,3,4)]) (use assms(2) narrowing.honest in \<open>auto simp: list_all_iff\<close>)
  obtain rs where rs: "rs = describe sha psize rows lo hi budget" by simp
  have "length rs \<le> SYNC_RANGE_FANOUT"
  proof (cases rule: describe_shape [of sha psize rows lo hi budget])
    case (cut f)
    have "length rs = length (split_describe sha (window rows lo hi) lo hi f)"
      using arg_cong [OF fit_budget_bounds, of length] cut(3) rs by simp
    also have "\<dots> = (if length (split_bounds (window rows lo hi) lo hi f) < 2 then 1
        else length (split_bounds (window rows lo hi) lo hi f))"
      using arg_cong [OF bounds_split_describe, of length] by (auto split: if_splits)
    also have "\<dots> \<le> max 1 f" using length_split_bounds [of "window rows lo hi" lo hi f] by auto
    finally show ?thesis using cut(1,2) assms(5) by (simp add: SYNC_RANGE_FANOUT_def)
  qed (auto simp: rs split_describe_def SYNC_RANGE_FANOUT_def)
  then show "length (describe sha psize rows lo hi budget) \<le> MAX_SYNC_RANGES"
    by (simp add: rs SYNC_RANGE_FANOUT_def MAX_SYNC_RANGES_def)
  show "id_count (describe sha psize rows lo hi budget) \<le> MAX_SYNC_LIST_IDS"
    using assms(5) by (rule id_count_describe)
qed

theorem description_accepted_witness:
  "validate_ranges (ranges_value (describe pad_hash (\<lambda>rs. 45 * length rs) [sample_row 1 3] 0 10 512))
     = Some (describe pad_hash (\<lambda>rs. 45 * length rs) [sample_row 1 3] 0 10 512)"
  by (rule description_accepted)
    (simp_all add: length_pad_hash SYNC_FINGERPRINT_BYTES_def FINGERPRINT_RANGE_BYTES_def SYNC_RANGE_FANOUT_def)

section \<open>What validation admits\<close>

lemma check_prefixes_wf:
  "check_prefixes acc vs = Some ps \<Longrightarrow> sorted_wrt (<) acc \<Longrightarrow> list_all (\<lambda>p. length p = SYNC_ID_PREFIX_BYTES) acc \<Longrightarrow>
     sorted_wrt (<) ps \<and> list_all (\<lambda>p. length p = SYNC_ID_PREFIX_BYTES) ps"
proof (induction acc vs rule: check_prefixes.induct)
  case (2 acc p vs)
  have ok: "length p = SYNC_ID_PREFIX_BYTES" "\<not> (acc \<noteq> [] \<and> p \<le> last acc)"
    using "2.prems"(1) by (auto split: if_splits)
  have "sorted_wrt (<) (acc @ [p])"
    using "2.prems"(2) ok(2) by (cases acc rule: rev_cases) (auto simp: sorted_wrt_append not_le dest: less_trans)
  then show ?case using "2.IH" "2.prems" ok by simp
qed auto

lemma finite_ts_nonneg: "finite_ts v = Some x \<Longrightarrow> 0 \<le> x"
  by (auto simp: finite_ts_def split: pyval.splits pyfloat.splits if_splits)

lemma check_payload_wf:
  assumes "check_payload lo hi ids mode payload = Some (ids', r)" and "0 \<le> lo" "lo \<le> hi" "ids \<le> MAX_SYNC_LIST_IDS"
  shows "wf_range r \<and> rlo r = lo \<and> rhi r = hi \<and> ids' = ids + id_count [r] \<and> ids' \<le> MAX_SYNC_LIST_IDS"
proof (cases "int_equal mode 0")
  case True
  with assms show ?thesis
    by (auto simp: check_payload_def wf_range_def split: option.splits list.splits pyval.splits if_splits)
next
  case False
  with assms(1) obtain ps where ps: "Option.bind (seq_of payload) (check_prefixes []) = Some ps"
    "ids + length ps \<le> MAX_SYNC_LIST_IDS" "ids' = ids + length ps" "r = IdRange lo hi ps"
    by (auto simp: check_payload_def split: option.splits if_splits)
  then obtain vs where "check_prefixes [] vs = Some ps" by (auto simp: bind_eq_Some_conv)
  from check_prefixes_wf [OF this] ps assms(2,3) show ?thesis by (auto simp: wf_range_def)
qed

text \<open>The receiver may act on what it accepted: ranges in order that do not overlap.\<close>

fun ordered_from :: "secs \<Rightarrow> sync_range list \<Rightarrow> bool" where
  "ordered_from q [] = True"
| "ordered_from q (r # rs) = (q \<le> rlo r \<and> rlo r \<le> rhi r \<and> ordered_from (rhi r) rs)"

lemma check_ranges_sound:
  assumes "check_ranges parsed prev ids vs = Some rs" and "ids \<le> MAX_SYNC_LIST_IDS"
  shows "\<exists>new. rs = parsed @ new \<and> length new = length vs \<and> list_all wf_range new
    \<and> ids + id_count new \<le> MAX_SYNC_LIST_IDS \<and> ordered_from (case prev of None \<Rightarrow> 0 | Some q \<Rightarrow> q) new"
  using assms
proof (induction vs arbitrary: parsed prev ids)
  case (Cons item vs)
  from Cons.prems(1) obtain lo hi mode payload l h ids' r where
    item: "seq_of item = Some [lo, hi, mode, payload]" "finite_ts lo = Some l" "finite_ts hi = Some h"
      "\<not> h < l" "\<not> (case prev of None \<Rightarrow> False | Some q \<Rightarrow> l < q)"
      "check_payload l h ids mode payload = Some (ids', r)"
    and rest: "check_ranges (parsed @ [r]) (Some h) ids' vs = Some rs"
    by (auto split: option.splits list.splits prod.splits if_splits)
  have r: "wf_range r" "rlo r = l" "rhi r = h" "ids' = ids + id_count [r]" "ids' \<le> MAX_SYNC_LIST_IDS"
    using check_payload_wf [OF item(6)] finite_ts_nonneg [OF item(2)] item(4) Cons.prems(2) by auto
  from Cons.IH [OF rest r(5)] obtain new where
    "rs = parsed @ r # new" "length new = length vs" "list_all wf_range new"
    "ids' + id_count new \<le> MAX_SYNC_LIST_IDS" "ordered_from h new" by auto
  then show ?case
    using r item(4,5) finite_ts_nonneg [OF item(2)]
    by (intro exI [of _ "r # new"]) (auto split: option.splits)
qed simp

text \<open>What the receiver lets in, from any unpacked value: at most 32 ranges and 512
  named ids in all, bounds that are ordered, non-negative and do not overlap, fingerprints
  of full width, and id lists strictly ascending with no repeats.\<close>

theorem validate_ranges_sound:
  assumes "validate_ranges v = Some rs"
  shows "length rs \<le> MAX_SYNC_RANGES \<and> id_count rs \<le> MAX_SYNC_LIST_IDS
    \<and> list_all wf_range rs \<and> ordered_from 0 rs"
proof -
  from assms obtain items where "check_ranges [] None 0 items = Some rs" "length items \<le> MAX_SYNC_RANGES"
    by (auto simp: validate_ranges_def split: option.splits if_splits)
  with check_ranges_sound [of "[]" None 0 items rs] show ?thesis by auto
qed

theorem validate_ranges_sound_witness:
  "ordered_from 0 [FpRange 0 1 3 (replicate 16 7)]"
proof -
  have "validate_ranges (PTuple [PList [PInt 0, PFloat (Finite 1), PBool False,
           PList [PInt 3, PBytes (replicate 16 7)]]]) = Some [FpRange 0 1 3 (replicate 16 7)]"
    by (simp add: validate_ranges_def check_payload_def finite_ts_def MAX_SYNC_RANGES_def SYNC_FINGERPRINT_BYTES_def)
  from validate_ranges_sound [OF this] show ?thesis by blast
qed

section \<open>Two timestamps can be unsplittable\<close>

lemma split_loop_tie:
  "list_all (\<lambda>r. r_ts r = t) rows \<Longrightarrow> split_loop target fanout start n bounds rows = (bounds, start)"
  by (induction target fanout start n bounds rows rule: split_loop.induct) (auto simp: Let_def)

text \<open>A window is spelled out whole also when it holds two timestamps: a first group
  smaller than the target count and one tie after it leave no cut, though a boundary exists.\<close>

theorem two_groups_not_split:
  assumes "r_ts r0 < t" "list_all (\<lambda>r. r_ts r = t) ws" and "SYNC_LEAF_IDS \<le> length ws" "length ws < MAX_SYNC_LIST_IDS"
  shows "split_describe sha (r0 # ws) lo hi SYNC_RANGE_FANOUT = [id_list_range lo hi (r0 # ws)]"
proof -
  obtain w ws' where ws: "ws = w # ws'" using assms(3) by (cases ws) (auto simp: SYNC_LEAF_IDS_def)
  have tgt: "Suc 0 < (length (r0 # w # ws') + SYNC_RANGE_FANOUT - 1) div SYNC_RANGE_FANOUT"
    using assms(3) by (simp add: ws SYNC_RANGE_FANOUT_def SYNC_LEAF_IDS_def)
  have tie: "\<And>tg st n bs. split_loop tg SYNC_RANGE_FANOUT st n bs (w # ws') = (bs, st)"
    using split_loop_tie [OF assms(2)] by (simp add: ws)
  have "split_bounds (r0 # ws) lo hi SYNC_RANGE_FANOUT = [(lo, hi)]"
    using tgt tie by (simp add: split_bounds_def Let_def ws less_max_iff_disj)
  then show ?thesis using assms(4) by (simp add: split_describe_def Let_def)
qed

theorem two_groups_not_split_witness:
  "split_describe (\<lambda>b. b) (\<lparr>r_id = ''aa'', r_ts = 1, r_sig = True\<rparr>
      # replicate 32 \<lparr>r_id = ''bb'', r_ts = 2, r_sig = True\<rparr>) 0 5 SYNC_RANGE_FANOUT
    = [id_list_range 0 5 (\<lparr>r_id = ''aa'', r_ts = 1, r_sig = True\<rparr>
      # replicate 32 \<lparr>r_id = ''bb'', r_ts = 2, r_sig = True\<rparr>)]"
  by (rule two_groups_not_split [where t = 2])
     (simp_all add: list_all_iff SYNC_LEAF_IDS_def MAX_SYNC_LIST_IDS_def SYNC_RANGE_FANOUT_def)

end
