(* ===== verification/Contracts.thy ===== *)
theory Contracts
  imports Prelude
begin

text \<open>
  The interfaces components rely on, and the SQL statements the storage layer is built
  from. A table is the list of its rows in the order SQLite stores them (by rowid).

  \<^item> \<open>machine\<close>: a state, its initial value and the steps the rest of the program can make
    it take; a property the initial value has and every step keeps holds after any history.
\<close>

section \<open>Histories\<close>

locale machine =
  fixes init :: 's and step :: "'e \<Rightarrow> 's \<Rightarrow> 's" and inv :: "'s \<Rightarrow> bool"
  assumes inv_init: "inv init"
    and inv_step: "inv s \<Longrightarrow> inv (step e s)"
begin

lemma inv_steps: "inv s \<Longrightarrow> inv (fold step es s)"
  by (induction es arbitrary: s) (auto intro: inv_step)

lemma inv_run: "inv (fold step es init)"
  by (rule inv_steps [OF inv_init])

text \<open>A predicate that fails at first and holds in the end was made to hold by some step.\<close>

lemma first_cause:
  "\<not> P init \<Longrightarrow> P (fold step es init) \<Longrightarrow>
   \<exists>pre e post. es = pre @ e # post \<and> \<not> P (fold step pre init) \<and> P (step e (fold step pre init))
     \<and> inv (fold step pre init)"
proof (induction es rule: rev_induct)
  case (snoc e es)
  show ?case
  proof (cases "P (fold step es init)")
    case True
    with snoc obtain pre e' post where "es = pre @ e' # post" "\<not> P (fold step pre init)"
      "P (step e' (fold step pre init))" by blast
    then show ?thesis using inv_run [of pre] by (intro exI [of _ pre] exI [of _ e'] exI [of _ "post @ [e]"]) simp
  next
    case False
    then show ?thesis using snoc.prems inv_run [of es] by (intro exI [of _ es] exI [of _ e] exI [of _ "[]"]) simp
  qed
qed simp

end

section \<open>Tables\<close>

text \<open>\<^verbatim>\<open>SELECT ... WHERE key = ?\<close> on a primary key; \<^verbatim>\<open>INSERT ... ON CONFLICT(key) DO UPDATE\<close>;
  \<^verbatim>\<open>UPDATE ... WHERE key = ?\<close>; \<^verbatim>\<open>DELETE ... WHERE key = ?\<close>; \<^verbatim>\<open>INSERT OR IGNORE\<close>; and
  \<^verbatim>\<open>INSERT OR REPLACE\<close>, which deletes the old row and stores the new one last.\<close>

definition row_of :: "('r \<Rightarrow> 'k) \<Rightarrow> 'r list \<Rightarrow> 'k \<Rightarrow> 'r option" where
  "row_of key rows k = find (\<lambda>r. key r = k) rows"

definition has_key :: "('r \<Rightarrow> 'k) \<Rightarrow> 'r list \<Rightarrow> 'k \<Rightarrow> bool" where
  "has_key key rows k = list_ex (\<lambda>r. key r = k) rows"

definition update_where :: "('r \<Rightarrow> bool) \<Rightarrow> ('r \<Rightarrow> 'r) \<Rightarrow> 'r list \<Rightarrow> 'r list" where
  "update_where p f rows = map (\<lambda>r. if p r then f r else r) rows"

definition delete_where :: "('r \<Rightarrow> bool) \<Rightarrow> 'r list \<Rightarrow> 'r list" where
  "delete_where p rows = filter (\<lambda>r. \<not> p r) rows"

definition upsert :: "('r \<Rightarrow> 'k) \<Rightarrow> 'r \<Rightarrow> ('r \<Rightarrow> 'r) \<Rightarrow> 'r list \<Rightarrow> 'r list" where
  "upsert key new f rows =
     (if has_key key rows (key new) then update_where (\<lambda>r. key r = key new) f rows else rows @ [new])"

definition insert_ignore :: "('r \<Rightarrow> 'k) \<Rightarrow> 'r \<Rightarrow> 'r list \<Rightarrow> 'r list" where
  "insert_ignore key new rows = (if has_key key rows (key new) then rows else rows @ [new])"

definition insert_replace :: "('r \<Rightarrow> 'k) \<Rightarrow> 'r \<Rightarrow> 'r list \<Rightarrow> 'r list" where
  "insert_replace key new rows = delete_where (\<lambda>r. key r = key new) rows @ [new]"

definition unique_key :: "('r \<Rightarrow> 'k) \<Rightarrow> 'r list \<Rightarrow> bool" where
  "unique_key key rows = distinct (map key rows)"

lemma has_key_iff: "has_key key rows k \<longleftrightarrow> k \<in> key ` set rows"
  by (auto simp: has_key_def list_ex_iff)

lemma row_of_Nil [simp]: "row_of key [] k = None"
  by (simp add: row_of_def)

lemma row_of_Cons [simp]: "row_of key (r # rs) k = (if key r = k then Some r else row_of key rs k)"
  by (simp add: row_of_def)

lemma row_of_append: "row_of key (rs @ ss) k = (case row_of key rs k of None \<Rightarrow> row_of key ss k | Some r \<Rightarrow> Some r)"
  by (induction rs) auto

lemma row_of_None: "row_of key rows k = None \<longleftrightarrow> \<not> has_key key rows k"
  by (induction rows) (auto simp: has_key_def)

lemma has_key_row: "has_key key rows k \<longleftrightarrow> row_of key rows k \<noteq> None"
  by (simp add: row_of_None)

lemma row_of_Some: "row_of key rows k = Some r \<Longrightarrow> r \<in> set rows \<and> key r = k"
  by (induction rows) (auto split: if_splits)

lemma row_of_in: "unique_key key rows \<Longrightarrow> r \<in> set rows \<Longrightarrow> row_of key rows (key r) = Some r"
  by (induction rows) (auto simp: unique_key_def rev_image_eqI)

lemma row_of_update [simp]:
  assumes "\<And>r. key (f r) = key r"
  shows "row_of key (update_where (\<lambda>r. key r = k) f rows) k' =
    (if k' = k then map_option f (row_of key rows k) else row_of key rows k')"
  using assms by (induction rows) (auto simp: update_where_def)

lemma row_of_delete [simp]:
  "row_of key (delete_where (\<lambda>r. key r = k) rows) k' = (if k' = k then None else row_of key rows k')"
  by (induction rows) (auto simp: delete_where_def)

lemma row_of_upsert [simp]:
  assumes "\<And>r. key (f r) = key r"
  shows "row_of key (upsert key new f rows) k =
    (if k = key new then Some (case row_of key rows k of None \<Rightarrow> new | Some r \<Rightarrow> f r) else row_of key rows k)"
  using assms by (auto simp: upsert_def row_of_append has_key_row split: option.splits)

lemma row_of_replace [simp]:
  "row_of key (insert_replace key new rows) k = (if k = key new then Some new else row_of key rows k)"
  by (auto simp: insert_replace_def row_of_append split: option.splits)

lemma row_of_ignore [simp]:
  "row_of key (insert_ignore key new rows) k =
    (if k = key new \<and> row_of key rows k = None then Some new else row_of key rows k)"
  by (auto simp: insert_ignore_def row_of_append has_key_row split: option.splits)

lemma unique_key_update:
  assumes "\<And>r. key (f r) = key r" and "unique_key key rows"
  shows "unique_key key (update_where p f rows)"
proof -
  have "map key (update_where p f rows) = map key rows" using assms(1) by (simp add: update_where_def)
  with assms(2) show ?thesis by (simp add: unique_key_def)
qed

lemma unique_key_delete: "unique_key key rows \<Longrightarrow> unique_key key (delete_where p rows)"
  by (simp add: unique_key_def delete_where_def distinct_map_filter)

lemma unique_key_snoc: "unique_key key rows \<Longrightarrow> \<not> has_key key rows (key new) \<Longrightarrow> unique_key key (rows @ [new])"
  by (auto simp: unique_key_def has_key_iff)

lemma unique_key_upsert:
  "(\<And>r. key (f r) = key r) \<Longrightarrow> unique_key key rows \<Longrightarrow> unique_key key (upsert key new f rows)"
  by (simp add: upsert_def unique_key_update unique_key_snoc)

lemma unique_key_replace: "unique_key key rows \<Longrightarrow> unique_key key (insert_replace key new rows)"
  unfolding insert_replace_def
  by (rule unique_key_snoc [OF unique_key_delete]) (auto simp: has_key_iff delete_where_def)

lemma unique_key_ignore: "unique_key key rows \<Longrightarrow> unique_key key (insert_ignore key new rows)"
  by (simp add: insert_ignore_def unique_key_snoc)

lemmas unique_key_intros = unique_key_update unique_key_delete unique_key_upsert
  unique_key_replace unique_key_ignore

text \<open>How many rows of a kind a statement leaves.\<close>

lemma count_delete_other:
  "length (filter q (delete_where p rows)) \<le> length (filter q rows)"
  by (induction rows) (auto simp: delete_where_def)

lemma count_delete_one:
  assumes "r \<in> set rows" "p r" "q r"
  shows "length (filter q (delete_where p rows)) < length (filter q rows)"
  using assms
proof (induction rows)
  case (Cons a rows)
  show ?case
  proof (cases "a = r")
    case True
    have "length (filter q (delete_where p rows)) < Suc (length (filter q rows))"
      using count_delete_other [of q p rows] by simp
    then show ?thesis using True Cons.prems by (simp add: delete_where_def)
  next
    case False
    then show ?thesis using Cons by (auto simp: delete_where_def)
  qed
qed simp

lemma count_update_le:
  assumes "\<And>r. r \<in> set rows \<Longrightarrow> p r \<Longrightarrow> q (f r) \<Longrightarrow> q r"
  shows "length (filter q (update_where p f rows)) \<le> length (filter q rows)"
  using assms by (induction rows) (auto simp: update_where_def)

lemma count_update_one:
  assumes "unique_key key rows"
  shows "length (filter q (update_where (\<lambda>r. key r = k) f rows)) \<le> Suc (length (filter q rows))"
  using assms
proof (induction rows)
  case (Cons a rows)
  have u: "unique_key key rows" and a: "key a \<notin> key ` set rows" using Cons.prems by (auto simp: unique_key_def)
  show ?case
  proof (cases "key a = k")
    case True
    have "update_where (\<lambda>r. key r = k) f rows = rows"
      unfolding update_where_def using a True by (intro map_idI) (metis imageI)
    then show ?thesis using True by (simp add: update_where_def)
  next
    case False
    then show ?thesis using Cons.IH [OF u] by (simp add: update_where_def)
  qed
qed (simp add: update_where_def)

end
