(* ===== verification/Control_Retry.thy ===== *)
theory Control_Retry
  imports Contracts "HOL-Library.Multiset"
begin

text \<open>
  \<^verbatim>\<open>trenchchat/core/control_retry.py\<close>: control messages held for peers whose path is not
  known yet. \<open>'f\<close> is the type of the field dictionaries it holds. \<^verbatim>\<open>time.time()\<close> is the
  argument \<open>now\<close>. The manager's send function is a parameter of \<open>flush\<close>; it may itself
  call \<open>queue\<close>, so it maps the queue it finds to the one it leaves, with its result or
  \<open>None\<close> when it raises. Log lines and the lock are left out.
\<close>

definition MAX_QUEUED_PER_PEER :: nat where "MAX_QUEUED_PER_PEER = 16"
definition QUEUE_TTL_SECS :: secs where "QUEUE_TTL_SECS = 3600"
definition MAX_TRACKED_PEERS :: nat where "MAX_TRACKED_PEERS = 256"

record 'f retry_queue =
  rq_ttl :: secs
  rq_queued :: "(string \<times> (secs \<times> 'f) list) list"

definition new_retry_queue :: "secs \<Rightarrow> 'f retry_queue" where
  "new_retry_queue ttl_secs = \<lparr>rq_ttl = ttl_secs, rq_queued = []\<rparr>"

section \<open>Operations\<close>

text \<open>The first loop of \<^verbatim>\<open>_prune\<close>: expired entries go, and peers left with none.\<close>

definition drop_expired ::
    "secs \<Rightarrow> secs \<Rightarrow> (string \<times> (secs \<times> 'f) list) list \<Rightarrow> (string \<times> (secs \<times> 'f) list) list" where
  "drop_expired ttl now queued =
     filter (\<lambda>p. snd p \<noteq> [])
       (map (apsnd (filter (\<lambda>e. now - fst e < ttl))) queued)"

definition drop_oldest_peers :: "(string \<times> (secs \<times> 'f) list) list \<Rightarrow> (string \<times> (secs \<times> 'f) list) list" where
  "drop_oldest_peers queued =
     (if length queued > MAX_TRACKED_PEERS
      then let oldest = sort_key (\<lambda>p. fst (snd p ! 0)) queued
           in fold (\<lambda>p. AList.delete (fst p)) (take (length queued - MAX_TRACKED_PEERS) oldest) queued
      else queued)"

definition rq_prune :: "secs \<Rightarrow> 'f retry_queue \<Rightarrow> 'f retry_queue" where
  "rq_prune now q = q\<lparr>rq_queued := drop_oldest_peers (drop_expired (rq_ttl q) now (rq_queued q))\<rparr>"

definition rq_queue :: "secs \<Rightarrow> string \<Rightarrow> 'f \<Rightarrow> 'f retry_queue \<Rightarrow> 'f retry_queue" where
  "rq_queue now dest_hex fs q =
     (let q = rq_prune now q;
          waiting = get_or [] (rq_queued q) dest_hex;
          waiting = (if length waiting \<ge> MAX_QUEUED_PER_PEER then tl waiting else waiting)
      in q\<lparr>rq_queued := AList.update dest_hex (waiting @ [(now, fs)]) (rq_queued q)\<rparr>)"

text \<open>The loop of \<^verbatim>\<open>flush\<close> over the entries it has taken out.\<close>

fun send_all :: "(string \<Rightarrow> 'f \<Rightarrow> 'q \<Rightarrow> 'q \<times> bool option) \<Rightarrow> string \<Rightarrow> (secs \<times> 'f) list \<Rightarrow> nat \<Rightarrow> 'q \<Rightarrow> 'q \<times> nat" where
  "send_all send dest_hex [] sent q = (q, sent)"
| "send_all send dest_hex ((_, fs) # waiting) sent q =
     (let (q, r) = send dest_hex fs q
      in send_all send dest_hex waiting (if r = Some True then sent + 1 else sent) q)"

definition rq_take :: "secs \<Rightarrow> string \<Rightarrow> 'f retry_queue \<Rightarrow> 'f retry_queue \<times> (secs \<times> 'f) list" where
  "rq_take now dest_hex q =
     (let q = rq_prune now q
      in (q\<lparr>rq_queued := AList.delete dest_hex (rq_queued q)\<rparr>, get_or [] (rq_queued q) dest_hex))"

definition rq_flush ::
    "secs \<Rightarrow> string \<Rightarrow> (string \<Rightarrow> 'f \<Rightarrow> 'f retry_queue \<Rightarrow> 'f retry_queue \<times> bool option)
     \<Rightarrow> 'f retry_queue \<Rightarrow> 'f retry_queue \<times> nat" where
  "rq_flush now dest_hex send q =
     (let (q, waiting) = rq_take now dest_hex q
      in if waiting = [] then (q, 0) else send_all send dest_hex waiting 0 q)"

definition rq_pending_for :: "string \<Rightarrow> 'f retry_queue \<Rightarrow> nat" where
  "rq_pending_for dest_hex q = length (get_or [] (rq_queued q) dest_hex)"

lemmas rq_defs = rq_prune_def rq_queue_def rq_take_def rq_flush_def rq_pending_for_def

section \<open>The invariant\<close>

text \<open>No peer is listed twice or with nothing to send, none holds more than 16 messages, and
  at most 257 peers are held: a prune leaves 256, and one may be added before the next.\<close>

definition rq_inv :: "'f retry_queue \<Rightarrow> bool" where
  "rq_inv q \<longleftrightarrow> distinct (map fst (rq_queued q)) \<and> length (rq_queued q) \<le> MAX_TRACKED_PEERS + 1
    \<and> list_all (\<lambda>p. snd p \<noteq> [] \<and> length (snd p) \<le> MAX_QUEUED_PER_PEER) (rq_queued q)"

lemma drop_expired_Nil [simp]: "drop_expired ttl now [] = []"
  by (simp add: drop_expired_def)

lemma rq_ttl_simps [simp]: "rq_ttl (rq_prune now q) = rq_ttl q" "rq_ttl (rq_queue now dest f q) = rq_ttl q"
  by (simp_all add: rq_prune_def rq_queue_def Let_def)

lemma drop_expired_Cons:
  "drop_expired ttl now (p # qs) =
    (if filter (\<lambda>e. now - fst e < ttl) (snd p) = [] then drop_expired ttl now qs
     else (fst p, filter (\<lambda>e. now - fst e < ttl) (snd p)) # drop_expired ttl now qs)"
  by (cases p) (simp add: drop_expired_def)

lemma drop_expired_subset: "fst ` set (drop_expired ttl now qs) \<subseteq> fst ` set qs"
  by (induction qs) (auto simp: drop_expired_Cons)

lemma drop_expired_keys: "distinct (map fst qs) \<Longrightarrow> distinct (map fst (drop_expired ttl now qs))"
  by (induction qs) (use drop_expired_subset [of ttl now] in \<open>auto simp: drop_expired_Cons\<close>)

lemma drop_expired_length: "length (drop_expired ttl now qs) \<le> length qs"
  unfolding drop_expired_def by (metis length_filter_le length_map)

lemma drop_expired_entries:
  "list_all (\<lambda>p. length (snd p) \<le> n) qs \<Longrightarrow>
   list_all (\<lambda>p. snd p \<noteq> [] \<and> length (snd p) \<le> n) (drop_expired ttl now qs)"
  by (induction qs) (auto simp: drop_expired_Cons intro: order.trans [OF length_filter_le])

lemma map_of_drop_expired:
  assumes "distinct (map fst qs)"
  shows "get_or [] (drop_expired ttl now qs) p = filter (\<lambda>e. now - fst e < ttl) (get_or [] qs p)"
  using assms
proof (induction qs)
  case (Cons a qs)
  have "fst a \<notin> fst ` set (drop_expired ttl now qs)"
    using Cons.prems drop_expired_subset [of ttl now qs] by auto
  then have "map_of (drop_expired ttl now qs) (fst a) = None" by (simp add: map_of_eq_None_iff)
  then show ?case using Cons by (cases a) (auto simp: drop_expired_Cons get_or_def)
qed (simp add: drop_expired_def)

lemma fold_delete: "fold (\<lambda>p. AList.delete (fst p)) ks d = filter (\<lambda>p. fst p \<notin> fst ` set ks) d"
proof (induction ks arbitrary: d)
  case (Cons x ks)
  have "AList.delete (fst x) d = filter (\<lambda>p. fst p \<noteq> fst x) d"
    by (induction d) auto
  then show ?case by (auto simp: Cons.IH intro!: filter_cong)
qed simp

lemma filter_keys_append:
  "fst ` set a \<inter> fst ` set b = {} \<Longrightarrow> filter (\<lambda>p. fst p \<notin> fst ` set a) (a @ b) = b"
  by (auto simp: filter_empty_conv filter_id_conv disjoint_iff)

abbreviation oldest_first :: "(string \<times> (secs \<times> 'f) list) list \<Rightarrow> (string \<times> (secs \<times> 'f) list) list" where
  "oldest_first \<equiv> sort_key (\<lambda>p. fst (snd p ! 0))"

lemma drop_oldest_eq:
  "drop_oldest_peers qs = filter (\<lambda>p. fst p \<notin> fst ` set (take (length qs - MAX_TRACKED_PEERS) (oldest_first qs))) qs"
  by (cases "length qs > MAX_TRACKED_PEERS") (simp_all add: drop_oldest_peers_def fold_delete Let_def)

lemma length_drop_oldest:
  assumes "distinct (map fst qs)"
  shows "length (drop_oldest_peers qs) = min (length qs) MAX_TRACKED_PEERS"
proof (cases "length qs > MAX_TRACKED_PEERS")
  case True
  let ?n = "length qs - MAX_TRACKED_PEERS"
  let ?a = "take ?n (oldest_first qs)" and ?b = "drop ?n (oldest_first qs)"
  have "mset (map fst (oldest_first qs)) = mset (map fst qs)" by simp
  then have "distinct (map fst (oldest_first qs))" using assms mset_eq_imp_distinct_iff by blast
  then have "distinct (map fst ?a @ map fst ?b)" by (metis append_take_drop_id map_append)
  then have *: "fst ` set ?a \<inter> fst ` set ?b = {}" by simp
  have "filter (\<lambda>p. fst p \<notin> fst ` set ?a) (?a @ ?b) = ?b" by (rule filter_keys_append [OF *])
  then have "filter (\<lambda>p. fst p \<notin> fst ` set ?a) (oldest_first qs) = ?b" by (simp only: append_take_drop_id)
  moreover have "\<And>P. mset (filter P qs) = mset (filter P (oldest_first qs))" by (simp add: mset_filter)
  ultimately have "mset (drop_oldest_peers qs) = mset ?b" unfolding drop_oldest_eq by metis
  then have "length (drop_oldest_peers qs) = length ?b" by (rule mset_eq_length)
  then show ?thesis using True by simp
qed (simp add: drop_oldest_peers_def)

lemma drop_oldest_set: "set (drop_oldest_peers qs) \<subseteq> set qs"
  by (auto simp: drop_oldest_eq)

lemma drop_oldest_keys: "distinct (map fst qs) \<Longrightarrow> distinct (map fst (drop_oldest_peers qs))"
  by (simp add: drop_oldest_eq distinct_keys_filter)

section \<open>Every operation keeps it\<close>

lemma rq_inv_prune [inv_intros]:
  assumes "rq_inv q"
  shows "rq_inv (rq_prune now q) \<and> length (rq_queued (rq_prune now q)) \<le> MAX_TRACKED_PEERS"
proof -
  let ?d = "drop_expired (rq_ttl q) now (rq_queued q)"
  have d: "distinct (map fst ?d)" using assms by (auto simp: rq_inv_def intro: drop_expired_keys)
  have e: "list_all (\<lambda>p. snd p \<noteq> [] \<and> length (snd p) \<le> MAX_QUEUED_PER_PEER) ?d"
    using assms by (intro drop_expired_entries) (auto simp: rq_inv_def list_all_iff)
  have "list_all (\<lambda>p. snd p \<noteq> [] \<and> length (snd p) \<le> MAX_QUEUED_PER_PEER) (drop_oldest_peers ?d)"
    using e drop_oldest_set [of ?d] unfolding list_all_iff by blast
  then show ?thesis
    using length_drop_oldest [OF d] drop_oldest_keys [OF d] by (simp add: rq_inv_def rq_prune_def)
qed

lemma rq_inv_queue [inv_intros]:
  assumes "rq_inv q"
  shows "rq_inv (rq_queue now dest f q)"
proof -
  let ?q = "rq_prune now q"
  have i: "rq_inv ?q" "length (rq_queued ?q) \<le> MAX_TRACKED_PEERS" using rq_inv_prune [OF assms] by auto
  have w: "length (get_or [] (rq_queued ?q) dest) \<le> MAX_QUEUED_PER_PEER"
  proof (cases "get_or [] (rq_queued ?q) dest = []")
    case False
    then show ?thesis using i(1) get_or_entry_ok [OF _ False] by (fastforce simp: rq_inv_def)
  qed simp
  define qs where "qs = rq_queued ?q"
  define es where "es = (if length (get_or [] qs dest) \<ge> MAX_QUEUED_PER_PEER then tl (get_or [] qs dest) else get_or [] qs dest)"
  have e: "length (es @ [(now, f)]) \<le> MAX_QUEUED_PER_PEER" using w by (simp add: es_def qs_def MAX_QUEUED_PER_PEER_def)
  have d: "distinct (map fst qs)" "list_all (\<lambda>p. snd p \<noteq> [] \<and> length (snd p) \<le> MAX_QUEUED_PER_PEER) qs"
    using i(1) by (simp_all add: rq_inv_def qs_def)
  have "rq_queued (rq_queue now dest f q) = AList.update dest (es @ [(now, f)]) qs"
    by (simp add: rq_queue_def Let_def es_def qs_def)
  then show ?thesis
    using i(2) e distinct_keys_update [OF d(1), of dest] list_all_update [OF d(2), of dest "es @ [(now, f)]"]
    by (simp add: rq_inv_def length_update_new qs_def)
qed

lemma rq_inv_take [inv_intros]: "rq_inv q \<Longrightarrow> rq_inv (fst (rq_take now dest q))"
  using rq_inv_prune [of q now]
  by (auto simp: rq_take_def rq_inv_def Let_def list_all_delete intro: distinct_keys_delete order.trans [OF length_delete_le])

lemma rq_inv_send_all [inv_intros]:
  "(\<And>f q. rq_inv q \<Longrightarrow> rq_inv (fst (send dest f q))) \<Longrightarrow> rq_inv q \<Longrightarrow>
   rq_inv (fst (send_all send dest waiting n q))"
proof (induction waiting arbitrary: n q)
  case (Cons x waiting)
  have "rq_inv (fst (send dest (snd x) q))" using Cons.prems by blast
  then show ?case using Cons.prems(1) by (cases x; cases "send dest (snd x) q") (auto intro: Cons.IH)
qed simp

lemma rq_inv_flush [inv_intros]:
  "(\<And>f q. rq_inv q \<Longrightarrow> rq_inv (fst (send dest f q))) \<Longrightarrow> rq_inv q \<Longrightarrow> rq_inv (fst (rq_flush now dest send q))"
  using rq_inv_take [of q now dest] rq_inv_send_all [of send dest]
  by (auto simp: rq_flush_def Let_def split: prod.splits)

lemma rq_inv_new: "rq_inv (new_retry_queue ttl)"
  by (simp add: rq_inv_def new_retry_queue_def)

section \<open>Properties\<close>

text \<open>The calls the program makes on a queue. A flush is given what the send function does.\<close>

datatype 'f rq_event =
    Queue secs string 'f
  | Flush secs string "string \<Rightarrow> 'f \<Rightarrow> bool option" "string \<Rightarrow> 'f \<Rightarrow> bool"

text \<open>The managers' send functions: they call \<open>queue\<close> with the same message when the path is
  not known (the last argument), and otherwise leave the queue alone.\<close>

definition requeueing ::
    "secs \<Rightarrow> (string \<Rightarrow> 'f \<Rightarrow> bool option) \<Rightarrow> (string \<Rightarrow> 'f \<Rightarrow> bool) \<Rightarrow>
     string \<Rightarrow> 'f \<Rightarrow> 'f retry_queue \<Rightarrow> 'f retry_queue \<times> bool option" where
  "requeueing now result unknown dest_hex f q =
     (if unknown dest_hex f then (rq_queue now dest_hex f q, Some False) else (q, result dest_hex f))"

fun rq_step :: "'f rq_event \<Rightarrow> 'f retry_queue \<Rightarrow> 'f retry_queue" where
  "rq_step (Queue now dest_hex f) q = rq_queue now dest_hex f q"
| "rq_step (Flush now dest_hex result unknown) q = fst (rq_flush now dest_hex (requeueing now result unknown) q)"

lemma rq_inv_step: "rq_inv q \<Longrightarrow> rq_inv (rq_step e q)"
  by (cases e) (auto simp: requeueing_def intro!: rq_inv_queue rq_inv_flush)

interpretation retry: machine "new_retry_queue ttl" rq_step rq_inv for ttl
  by unfold_locales (simp_all add: rq_inv_new rq_inv_step)

text \<open>However peers come and go, a queue holds at most 16 messages for one peer and
  messages for at most 257 peers, no peer twice: its memory is bounded.\<close>

theorem retry_queue_bounded:
  "rq_pending_for p (fold rq_step es (new_retry_queue ttl)) \<le> MAX_QUEUED_PER_PEER
   \<and> length (rq_queued (fold rq_step es (new_retry_queue ttl))) \<le> MAX_TRACKED_PEERS + 1
   \<and> distinct (map fst (rq_queued (fold rq_step es (new_retry_queue ttl))))"
proof -
  let ?q = "fold rq_step es (new_retry_queue ttl)"
  have i: "rq_inv ?q" by (rule retry.inv_run)
  have "length (get_or [] (rq_queued ?q) p) \<le> MAX_QUEUED_PER_PEER"
  proof (cases "get_or [] (rq_queued ?q) p = []")
    case False
    then show ?thesis using i get_or_entry_ok [OF _ False] by (fastforce simp: rq_inv_def)
  qed simp
  then show ?thesis using i by (simp add: rq_inv_def rq_pending_for_def)
qed

text \<open>A queue with nothing to drop at a time is left alone by a prune then.\<close>

definition rq_fresh :: "secs \<Rightarrow> 'f retry_queue \<Rightarrow> bool" where
  "rq_fresh now q \<longleftrightarrow> distinct (map fst (rq_queued q)) \<and> length (rq_queued q) \<le> MAX_TRACKED_PEERS
     \<and> list_all (\<lambda>p. snd p \<noteq> [] \<and> list_all (\<lambda>e. now - fst e < rq_ttl q) (snd p)) (rq_queued q)"

lemma drop_expired_fresh:
  "list_all (\<lambda>p. snd p \<noteq> [] \<and> list_all (\<lambda>e. now - fst e < ttl) (snd p)) qs \<Longrightarrow> drop_expired ttl now qs = qs"
  by (induction qs) (auto simp: drop_expired_Cons list_all_iff filter_id_conv filter_empty_conv neq_Nil_conv)

lemma prune_fresh: "rq_fresh now q \<Longrightarrow> rq_prune now q = q"
  by (simp add: rq_fresh_def rq_prune_def drop_expired_fresh drop_oldest_peers_def)

lemma drop_expired_all_fresh:
  "list_all (\<lambda>p. snd p \<noteq> [] \<and> list_all (\<lambda>e. now - fst e < ttl) (snd p)) (drop_expired ttl now qs)"
  by (induction qs) (auto simp: drop_expired_Cons list_all_iff)

lemma rq_fresh_prune: "rq_inv q \<Longrightarrow> rq_fresh now (rq_prune now q)"
  using rq_inv_prune [of q now] drop_expired_all_fresh [of now "rq_ttl q" "rq_queued q"]
    drop_oldest_set [of "drop_expired (rq_ttl q) now (rq_queued q)"]
  by (simp add: rq_fresh_def rq_inv_def list_all_iff) (auto simp: rq_prune_def)

lemma rq_queue_fresh:
  assumes "rq_fresh now q" "length (get_or [] (rq_queued q) dest) < MAX_QUEUED_PER_PEER"
  shows "rq_queued (rq_queue now dest f q) =
    AList.update dest (get_or [] (rq_queued q) dest @ [(now, f)]) (rq_queued q)"
  using assms(2) by (simp add: rq_queue_def prune_fresh [OF assms(1)] Let_def)

lemma rq_fresh_queue:
  assumes "rq_fresh now q" "0 < rq_ttl q" "length (get_or [] (rq_queued q) dest) < MAX_QUEUED_PER_PEER"
    and room: "dest \<in> fst ` set (rq_queued q) \<or> length (rq_queued q) < MAX_TRACKED_PEERS"
  shows "rq_fresh now (rq_queue now dest f q)"
proof -
  let ?es = "get_or [] (rq_queued q) dest"
  have "list_all (\<lambda>e. now - fst e < rq_ttl q) ?es"
  proof (cases "?es = []")
    case False
    then show ?thesis using assms(1) get_or_entry_ok [OF _ False] by (fastforce simp: rq_fresh_def)
  qed simp
  then have "list_all (\<lambda>p. snd p \<noteq> [] \<and> list_all (\<lambda>e. now - fst e < rq_ttl q) (snd p))
      (AList.update dest (?es @ [(now, f)]) (rq_queued q))"
    using assms(1,2) by (intro list_all_update) (simp_all add: rq_fresh_def)
  moreover have "length (AList.update dest (?es @ [(now, f)]) (rq_queued q)) \<le> MAX_TRACKED_PEERS"
    using assms(1) room by (auto simp: length_update_new rq_fresh_def)
  moreover have "distinct (map fst (AList.update dest (?es @ [(now, f)]) (rq_queued q)))"
    using assms(1) by (simp add: rq_fresh_def distinct_keys_update)
  ultimately show ?thesis by (simp add: rq_fresh_def rq_queue_fresh [OF assms(1,3)])
qed

lemma send_all_requeue:
  assumes "rq_fresh now q" "0 < rq_ttl q"
    "length (get_or [] (rq_queued q) dest) + length waiting \<le> MAX_QUEUED_PER_PEER"
    "dest \<in> fst ` set (rq_queued q) \<or> length (rq_queued q) < MAX_TRACKED_PEERS"
    "\<And>f. unknown dest f"
  shows "snd (send_all (requeueing now result unknown) dest waiting n q) = n \<and>
    rq_queued (fst (send_all (requeueing now result unknown) dest waiting n q)) =
      (if waiting = [] then rq_queued q
       else AList.update dest (get_or [] (rq_queued q) dest @ map (\<lambda>(_, f). (now, f)) waiting) (rq_queued q))"
  using assms
proof (induction waiting arbitrary: n q)
  case (Cons x waiting)
  obtain t f where x: "x = (t, f)" by (cases x)
  let ?q = "rq_queue now dest f q"
  have l: "length (get_or [] (rq_queued q) dest) < MAX_QUEUED_PER_PEER" using Cons.prems(3) by simp
  note qs = rq_queue_fresh [OF Cons.prems(1) l, of f]
  have "rq_fresh now ?q" using Cons.prems(1,2,4) l by (intro rq_fresh_queue)
  moreover have "dest \<in> fst ` set (rq_queued ?q)" by (simp add: qs dom_update)
  ultimately have "snd (send_all (requeueing now result unknown) dest waiting n ?q) = n \<and>
    rq_queued (fst (send_all (requeueing now result unknown) dest waiting n ?q)) =
      (if waiting = [] then rq_queued ?q
       else AList.update dest (get_or [] (rq_queued ?q) dest @ map (\<lambda>(_, f). (now, f)) waiting) (rq_queued ?q))"
    using Cons.prems(2,3,5) by (intro Cons.IH) (simp_all add: qs)
  moreover have "requeueing now result unknown dest f q = (?q, Some False)"
    using Cons.prems(5) by (simp add: requeueing_def)
  ultimately show ?case by (simp add: x qs)
qed simp

text \<open>A flush towards a peer that is still unreachable loses nothing and duplicates
  nothing: every message still fresh is held again, in order, and no other peer's are touched.
  Each one's age starts again at the time of the flush.\<close>

theorem flush_unreachable_keeps:
  assumes "rq_inv q" and "0 < rq_ttl q" and "\<And>f. unknown dest f"
  shows "snd (rq_flush now dest (requeueing now result unknown) q) = 0
    \<and> get_or [] (rq_queued (fst (rq_flush now dest (requeueing now result unknown) q))) p
      = (if p = dest then map (\<lambda>(_, f). (now, f)) (get_or [] (rq_queued (rq_prune now q)) p)
         else get_or [] (rq_queued (rq_prune now q)) p)"
proof -
  let ?q = "rq_prune now q"
  let ?w = "get_or [] (rq_queued ?q) dest"
  let ?q' = "?q\<lparr>rq_queued := AList.delete dest (rq_queued ?q)\<rparr>"
  have fr: "rq_fresh now ?q" and i: "rq_inv ?q" using rq_fresh_prune rq_inv_prune assms(1) by blast+
  show ?thesis
  proof (cases "?w = []")
    case True
    then show ?thesis by (simp add: rq_flush_def rq_take_def Let_def)
  next
    case False
    then have m: "dest \<in> fst ` set (rq_queued ?q)" by (metis get_or_simps(1) dom_fst_iff)
    have "rq_fresh now ?q'"
      using fr by (auto simp: rq_fresh_def distinct_keys_delete list_all_delete intro: order.trans [OF length_delete_le])
    moreover have "length (rq_queued ?q') < MAX_TRACKED_PEERS"
      using length_delete_present [OF _ m] fr by (simp add: rq_fresh_def)
    moreover have "length ?w \<le> MAX_QUEUED_PER_PEER"
      using i get_or_entry_ok [OF _ False] by (fastforce simp: rq_inv_def)
    ultimately have "snd (send_all (requeueing now result unknown) dest ?w 0 ?q') = 0 \<and>
      rq_queued (fst (send_all (requeueing now result unknown) dest ?w 0 ?q')) =
        (if ?w = [] then rq_queued ?q'
         else AList.update dest (get_or [] (rq_queued ?q') dest @ map (\<lambda>(_, f). (now, f)) ?w) (rq_queued ?q'))"
      using assms(2,3) by (intro send_all_requeue) simp_all
    then show ?thesis using False by (simp add: rq_flush_def rq_take_def Let_def)
  qed
qed

theorem flush_unreachable_keeps_witness:
  "rq_pending_for ''ab'' (fst (rq_flush 9 ''ab'' (requeueing 9 (\<lambda>_ _. None) (\<lambda>_ _. True))
     \<lparr>rq_ttl = 10, rq_queued = [(''ab'', [(1, ()), (2, ())])]\<rparr>)) = 2"
proof -
  let ?q = "\<lparr>rq_ttl = 10, rq_queued = [(''ab'', [(1, ()), (2, ())])]\<rparr>"
  have q: "rq_inv ?q" "0 < rq_ttl ?q" "rq_prune 9 ?q = ?q"
    by (simp_all add: rq_inv_def MAX_TRACKED_PEERS_def MAX_QUEUED_PER_PEER_def rq_prune_def drop_expired_def
        drop_oldest_peers_def)
  from flush_unreachable_keeps [OF q(1,2), where unknown = "\<lambda>_ _. True" and now = 9 and dest = "''ab''" and p = "''ab''"
      and result = "\<lambda>_ _. None"]
  show ?thesis by (simp add: q(3) rq_pending_for_def get_or_def)
qed

end
