(* ===== verification/Direct.thy ===== *)
theory Direct
  imports Contracts
begin

text \<open>
  \<^verbatim>\<open>trenchchat/core/naming.py\<close>, \<^verbatim>\<open>trenchchat/core/direct.py\<close> and the conversation table of
  \<^verbatim>\<open>storage.py\<close>: names, addresses derived from identities, and who a direct message may
  pass between. Parameters: \<open>sha\<close> for SHA-256, \<open>dest_hash\<close> for \<^verbatim>\<open>RNS.Destination.hash\<close>, and
  \<open>w\<close> for the width in bytes of a Reticulum hash. The \<^verbatim>\<open>channels\<close> row written beside a
  conversation is left out, and so is the listing of conversations for the window.
\<close>

section \<open>Names\<close>

text \<open>\<^verbatim>\<open>str.isalnum()\<close> on a code point below 256.\<close>

definition is_alnum :: "char \<Rightarrow> bool" where
  "is_alnum c =
     (let n = of_char c :: nat
      in (48 \<le> n \<and> n \<le> 57) \<or> (65 \<le> n \<and> n \<le> 90) \<or> (97 \<le> n \<and> n \<le> 122)
         \<or> n \<in> {170, 178, 179, 181, 185, 186, 188, 189, 190} \<or> (192 \<le> n \<and> n \<noteq> 215 \<and> n \<noteq> 247))"

definition sanitise_name :: "string \<Rightarrow> string" where
  "sanitise_name name =
     (let sanitised = map (\<lambda>c. if is_alnum c \<or> c = CHR ''-'' then c else CHR ''-'') (lower name)
      in strip_by (\<lambda>c. c = CHR ''-'') (take 32 sanitised))"

definition APP_NAME :: string where "APP_NAME = ''trenchchat''"
definition APP_ASPECT_CHANNEL :: string where "APP_ASPECT_CHANNEL = ''channel''"
definition APP_ASPECT_SERVER :: string where "APP_ASPECT_SERVER = ''server''"

definition channel_hash_for :: "(bytes \<Rightarrow> string list \<Rightarrow> bytes) \<Rightarrow> bytes \<Rightarrow> string \<Rightarrow> hexid" where
  "channel_hash_for dest_hash creator name =
     to_hex (dest_hash creator [APP_NAME, APP_ASPECT_CHANNEL, sanitise_name name])"

definition server_hash_for :: "(bytes \<Rightarrow> string list \<Rightarrow> bytes) \<Rightarrow> bytes \<Rightarrow> string \<Rightarrow> hexid" where
  "server_hash_for dest_hash creator name =
     to_hex (dest_hash creator [APP_NAME, APP_ASPECT_SERVER, sanitise_name name])"

definition DM_HASH_DOMAIN :: bytes where "DM_HASH_DOMAIN = utf8 ''trenchchat-dm-v1''"

definition dm_hash_for :: "(bytes \<Rightarrow> bytes) \<Rightarrow> nat \<Rightarrow> hexid \<Rightarrow> hexid \<Rightarrow> hexid option" where
  "dm_hash_for sha w a_hash_hex b_hash_hex =
     (case fromhex a_hash_hex of
        None \<Rightarrow> None
      | Some a \<Rightarrow>
          (case fromhex b_hash_hex of
             None \<Rightarrow> None
           | Some b \<Rightarrow>
               (let (lo, hi) = (if a \<le> b then (a, b) else (b, a))
                in Some (to_hex (take w (sha (DM_HASH_DOMAIN @ lo @ hi)))))))"

section \<open>Conversations\<close>

definition IDENTITY_HASH_HEX_LEN :: nat where "IDENTITY_HASH_HEX_LEN = 32"

text \<open>\<^verbatim>\<open>_is_valid_hash\<close>, the same in \<^verbatim>\<open>direct.py\<close> and \<^verbatim>\<open>friends.py\<close>.\<close>

definition is_valid_hash :: "hexid \<Rightarrow> bool" where
  "is_valid_hash v = (length v = IDENTITY_HASH_HEX_LEN \<and> fromhex v \<noteq> None)"

record conversation =
  cv_hash :: hexid
  cv_peer :: hexid
  cv_created :: secs
  cv_read :: secs
  cv_trenchchat :: bool

definition conversation_hash :: "(bytes \<Rightarrow> bytes) \<Rightarrow> nat \<Rightarrow> hexid \<Rightarrow> hexid \<Rightarrow> hexid option" where
  "conversation_hash sha w self peer =
     (if \<not> is_valid_hash peer then None
      else if peer = self then None
      else dm_hash_for sha w self peer)"

definition create_dm_conversation :: "secs \<Rightarrow> hexid \<Rightarrow> hexid \<Rightarrow> conversation list \<Rightarrow> conversation list" where
  "create_dm_conversation now h peer convs =
     insert_ignore cv_hash \<lparr>cv_hash = h, cv_peer = peer, cv_created = now, cv_read = 0, cv_trenchchat = False\<rparr> convs"

definition is_dm :: "conversation list \<Rightarrow> hexid \<Rightarrow> bool" where
  "is_dm convs h = has_key cv_hash convs h"

definition get_dm_peer :: "conversation list \<Rightarrow> hexid \<Rightarrow> hexid option" where
  "get_dm_peer convs h = map_option cv_peer (row_of cv_hash convs h)"

definition set_dm_peer_is_trenchchat :: "hexid \<Rightarrow> conversation list \<Rightarrow> conversation list" where
  "set_dm_peer_is_trenchchat h = update_where (\<lambda>c. cv_hash c = h) (\<lambda>c. c\<lparr>cv_trenchchat := True\<rparr>)"

definition dm_peer_is_trenchchat :: "conversation list \<Rightarrow> hexid \<Rightarrow> bool" where
  "dm_peer_is_trenchchat convs h = (case row_of cv_hash convs h of Some c \<Rightarrow> cv_trenchchat c | None \<Rightarrow> False)"

definition note_trenchchat_peer ::
    "(bytes \<Rightarrow> bytes) \<Rightarrow> nat \<Rightarrow> hexid \<Rightarrow> hexid \<Rightarrow> conversation list \<Rightarrow> conversation list" where
  "note_trenchchat_peer sha w self peer convs =
     (case conversation_hash sha w self peer of
        Some h \<Rightarrow> set_dm_peer_is_trenchchat h convs
      | None \<Rightarrow> convs)"

definition mark_read :: "secs \<Rightarrow> hexid \<Rightarrow> conversation list \<Rightarrow> conversation list \<times> bool" where
  "mark_read now h convs =
     (if \<not> is_dm convs h then (convs, False)
      else (update_where (\<lambda>c. cv_hash c = h) (\<lambda>c. c\<lparr>cv_read := now\<rparr>) convs, True))"

text \<open>The gate. \<open>is_friend\<close> is \<^verbatim>\<open>FriendsManager.is_friend\<close>.\<close>

definition may_dm :: "hexid \<Rightarrow> (hexid \<Rightarrow> bool) \<Rightarrow> hexid \<Rightarrow> bool" where
  "may_dm self is_friend peer =
     (if \<not> is_valid_hash peer then False
      else if peer = self then False
      else is_friend peer)"

definition open_conversation ::
    "(bytes \<Rightarrow> bytes) \<Rightarrow> nat \<Rightarrow> hexid \<Rightarrow> (hexid \<Rightarrow> bool) \<Rightarrow> secs \<Rightarrow> hexid \<Rightarrow> conversation list
     \<Rightarrow> conversation list \<times> hexid option" where
  "open_conversation sha w self is_friend now peer convs =
     (if \<not> may_dm self is_friend peer then (convs, None)
      else case conversation_hash sha w self peer of
             None \<Rightarrow> (convs, None)
           | Some h \<Rightarrow> (create_dm_conversation now h peer convs, Some h))"

lemmas direct_defs [op_defs] = conversation_hash_def create_dm_conversation_def is_dm_def get_dm_peer_def
  set_dm_peer_is_trenchchat_def dm_peer_is_trenchchat_def note_trenchchat_peer_def mark_read_def
  may_dm_def open_conversation_def

section \<open>Names are canonical\<close>

lemma sanitised_char:
  "c \<in> set (sanitise_name name) \<Longrightarrow> (is_alnum c \<or> c = CHR ''-'') \<and> lower_char c = c"
proof -
  assume c: "c \<in> set (sanitise_name name)"
  have sub: "set (strip_by p s) \<subseteq> set s" for p and s :: string
    unfolding strip_by_def by (auto dest!: set_dropWhileD)
  have "c \<in> set (map (\<lambda>c. if is_alnum c \<or> c = CHR ''-'' then c else CHR ''-'') (map lower_char name))"
    using c subsetD [OF sub] unfolding sanitise_name_def Let_def lower_def by (blast dest: in_set_takeD)
  then obtain d where d: "c = (if is_alnum (lower_char d) \<or> lower_char d = CHR ''-'' then lower_char d else CHR ''-'')"
    unfolding set_map image_iff by blast
  have "lower_char (lower_char d) = lower_char d"
    by (auto simp: lower_char_def Let_def)
  moreover have "lower_char (CHR ''-'') = CHR ''-''" by (simp add: lower_char_def)
  ultimately show ?thesis using d by (auto split: if_splits)
qed

lemma sanitised_length: "length (sanitise_name name) \<le> 32"
proof -
  have "length (strip_by p s) \<le> length s" for p and s :: string
    unfolding strip_by_def using length_dropWhile_le [of p "rev (dropWhile p s)"] length_dropWhile_le [of p s] by simp
  then show ?thesis unfolding sanitise_name_def Let_def by (rule order.trans) simp
qed

lemma strip_by_idem: "strip_by p (strip_by p s) = strip_by p s"
proof (rule iffD2 [OF strip_by_fixed_iff])
  let ?t = "dropWhile p s"
  show "strip_by p s = [] \<or> \<not> p (hd (strip_by p s)) \<and> \<not> p (last (strip_by p s))"
  proof (cases "strip_by p s = []")
    case False
    then have d: "dropWhile p (rev ?t) \<noteq> []" by (simp add: strip_by_def)
    have t: "?t \<noteq> []" using d by (metis dropWhile.simps(1) rev.simps(1))
    have "\<not> p (last (strip_by p s))" using hd_dropWhile [OF d] by (simp add: strip_by_def last_rev)
    moreover have "last (dropWhile p (rev ?t)) = last (rev ?t)" using d by (metis dropWhile_eq_drop last_drop drop_eq_Nil not_le)
    then have "\<not> p (hd (strip_by p s))" using d t hd_dropWhile [OF t] by (simp add: strip_by_def hd_rev last_rev)
    ultimately show ?thesis by simp
  qed simp
qed

text \<open>A sanitised name is a fixed point, so a name and its sanitised form derive the same
  channel and server addresses, for every creator.\<close>

theorem sanitised_name_same_address:
  "sanitise_name (sanitise_name name) = sanitise_name name
   \<and> channel_hash_for dest_hash creator (sanitise_name name) = channel_hash_for dest_hash creator name
   \<and> server_hash_for dest_hash creator (sanitise_name name) = server_hash_for dest_hash creator name
   \<and> length (sanitise_name name) \<le> 32"
proof -
  let ?s = "sanitise_name name"
  have "lower ?s = ?s" unfolding lower_def by (rule map_idI) (use sanitised_char in blast)
  moreover have "map (\<lambda>c. if is_alnum c \<or> c = CHR ''-'' then c else CHR ''-'') ?s = ?s"
    by (rule map_idI) (use sanitised_char in \<open>simp split: if_splits; blast\<close>)
  ultimately have "sanitise_name ?s = strip_by (\<lambda>c. c = CHR ''-'') ?s"
    using sanitised_length [of name] by (simp add: sanitise_name_def [of ?s])
  also have "\<dots> = ?s" by (simp add: sanitise_name_def Let_def strip_by_idem)
  finally show ?thesis using sanitised_length by (simp add: channel_hash_for_def server_hash_for_def)
qed

section \<open>Addresses\<close>

lemma fromhex_length: "fromhex s = Some b \<Longrightarrow> 2 * length b \<le> length s"
  by (induction s arbitrary: b rule: fromhex.induct) (auto split: if_splits option.splits)

lemma dm_hash_sym: "dm_hash_for sha w a b = dm_hash_for sha w b a"
  by (auto simp: dm_hash_for_def split: option.splits)

lemma dm_parts_bind:
  fixes a b c d :: bytes
  assumes "(if a \<le> b then a @ b else b @ a) = (if c \<le> d then c @ d else d @ c)"
    and "length a = n" "length b = n" "length c = n" "length d = n"
  shows "{a, b} = {c, d}"
  using assms by (auto split: if_splits)

text \<open>What is hashed for a pair of identities.\<close>

definition dm_preimage :: "bytes \<Rightarrow> bytes \<Rightarrow> bytes" where
  "dm_preimage a b = DM_HASH_DOMAIN @ (if a \<le> b then a @ b else b @ a)"

lemma dm_hash_preimage:
  "fromhex a = Some a' \<Longrightarrow> fromhex b = Some b' \<Longrightarrow>
   dm_hash_for sha w a b = Some (to_hex (take w (sha (dm_preimage a' b'))))"
  by (simp add: dm_hash_for_def dm_preimage_def)

text \<open>The address of a conversation does not depend on which side computes it, and two
  pairs of identities share one only when they are the same pair, provided SHA-256, truncated
  to the width of an address, does not collide on what is hashed for the two pairs.\<close>

theorem conversation_address_agreed:
  assumes "fromhex a = Some a'" and "fromhex b = Some b'" and "fromhex c = Some c'" and "fromhex d = Some d'"
    and "length a' = n" and "length b' = n" and "length c' = n" and "length d' = n"
    and inj: "inj_on (\<lambda>x. take w (sha x)) {dm_preimage a' b', dm_preimage c' d'}"
  shows "dm_hash_for sha w a b = dm_hash_for sha w b a
    \<and> (dm_hash_for sha w a b = dm_hash_for sha w c d \<longleftrightarrow> {a', b'} = {c', d'})"
proof -
  have "dm_hash_for sha w a b = dm_hash_for sha w c d \<longleftrightarrow> dm_preimage a' b' = dm_preimage c' d'"
    using assms(1-4) inj by (auto simp: dm_hash_preimage dest: to_hex_inj inj_onD)
  also have "\<dots> \<longleftrightarrow> {a', b'} = {c', d'}"
  proof
    assume "dm_preimage a' b' = dm_preimage c' d'"
    then show "{a', b'} = {c', d'}" by (intro dm_parts_bind [OF _ assms(5-8)]) (simp add: dm_preimage_def)
  qed (auto simp: dm_preimage_def doubleton_eq_iff)
  finally show ?thesis using dm_hash_sym by blast
qed

theorem conversation_address_agreed_witness:
  "dm_hash_for (\<lambda>b. b) 18 ''02'' ''01'' = dm_hash_for (\<lambda>b. b) 18 ''01'' ''02''
   \<and> dm_hash_for (\<lambda>b. b) 18 ''02'' ''01'' \<noteq> dm_hash_for (\<lambda>b. b) 18 ''02'' ''02''"
proof -
  have h: "fromhex ''01'' = Some [1]" "fromhex ''02'' = Some [2]" by (simp_all add: hex_val_def is_ascii_space_def)
  have i: "inj_on (\<lambda>x. take 18 x) {dm_preimage [2] [1], dm_preimage [2] [2]}"
    by (simp add: dm_preimage_def DM_HASH_DOMAIN_def utf8_char_def)
  from conversation_address_agreed [OF h(2,1) h(2,2), of 1 18 "\<lambda>b. b"] i show ?thesis by auto
qed

section \<open>The gate\<close>

text \<open>What every stored conversation satisfies: one row per address, under the address its
  peer's identity derives, a well-formed hash that is not our own.\<close>

definition convs_ok :: "(bytes \<Rightarrow> bytes) \<Rightarrow> nat \<Rightarrow> hexid \<Rightarrow> conversation list \<Rightarrow> bool" where
  "convs_ok sha w self convs \<longleftrightarrow> unique_key cv_hash convs
     \<and> list_all (\<lambda>c. is_valid_hash (cv_peer c) \<and> cv_peer c \<noteq> self
         \<and> dm_hash_for sha w self (cv_peer c) = Some (cv_hash c)) convs"

lemma convs_ok_update:
  "convs_ok sha w self convs \<Longrightarrow> (\<And>c. cv_hash (f c) = cv_hash c) \<Longrightarrow> (\<And>c. cv_peer (f c) = cv_peer c) \<Longrightarrow>
   convs_ok sha w self (update_where p f convs)"
  by (auto simp: convs_ok_def unique_key_update) (auto simp: update_where_def list_all_iff)

lemma convs_ok_note [inv_intros]:
  "convs_ok sha w self convs \<Longrightarrow> convs_ok sha w self (note_trenchchat_peer sha w self peer convs)"
  by (auto simp: note_trenchchat_peer_def set_dm_peer_is_trenchchat_def convs_ok_update split: option.splits)

lemma convs_ok_mark_read [inv_intros]:
  "convs_ok sha w self convs \<Longrightarrow> convs_ok sha w self (fst (mark_read now h convs))"
  by (auto simp: mark_read_def convs_ok_update)

lemma convs_ok_open [inv_intros]:
  assumes "convs_ok sha w self convs"
  shows "convs_ok sha w self (fst (open_conversation sha w self is_friend now peer convs))"
proof -
  have "convs_ok sha w self (create_dm_conversation now h peer convs)"
    if "may_dm self is_friend peer" "conversation_hash sha w self peer = Some h" for h
    using that assms
    by (auto simp: convs_ok_def create_dm_conversation_def unique_key_ignore conversation_hash_def)
       (auto simp: insert_ignore_def split: if_splits)
  then show ?thesis using assms by (auto simp: open_conversation_def split: option.splits)
qed

end
