(* ===== verification/Friends.thy ===== *)
theory Friends
  imports Control_Retry Direct Protocol
begin

text \<open>
  \<^verbatim>\<open>trenchchat/core/friends.py\<close> with the \<^verbatim>\<open>friends\<close> and \<^verbatim>\<open>message_requests\<close> tables of
  \<^verbatim>\<open>storage.py\<close> and the message filer of \<^verbatim>\<open>actions.py\<close>: saved contacts, the friend-request
  handshake, and the words held from strangers. \<open>friends\<close> is the manager's state together
  with its tables; \<open>world\<close> is what an operation finds outside: the clock, which peers
  Reticulum can address, which sends succeed, which LXMF addresses it can resolve, and the
  decoding of peer text. Messages given to the router are recorded in \<open>fm_sent\<close> before
  \<^verbatim>\<open>pack_fields\<close>, callbacks fired in \<open>fm_calls\<close>. Path requests, log lines and the rows built
  for display (\<^verbatim>\<open>get_friends\<close>, \<^verbatim>\<open>get_pending_requests\<close>) are left out.
\<close>

datatype fstate = ACCEPTED | PENDING_OUT | PENDING_IN

record friend_row =
  fr_hash :: hexid
  fr_nickname :: string
  fr_note :: string
  fr_added :: secs
  fr_seen :: secs
  fr_state :: fstate

record message_request =
  mq_id :: nat
  mq_hash :: hexid
  mq_body :: string
  mq_received :: secs
  mq_sent :: secs
  mq_trenchchat :: bool

definition FRIEND_SEEN_WRITE_INTERVAL_SECS :: secs where "FRIEND_SEEN_WRITE_INTERVAL_SECS = 60"
definition MAX_PENDING_FRIEND_REQUESTS :: nat where "MAX_PENDING_FRIEND_REQUESTS = 64"
definition MAX_FRIEND_NOTE_CHARS :: nat where "MAX_FRIEND_NOTE_CHARS = 140"
definition MAX_REQUEST_BODY_CHARS :: nat where "MAX_REQUEST_BODY_CHARS = MAX_FRIEND_NOTE_CHARS"
definition MAX_HELD_PER_SENDER :: nat where "MAX_HELD_PER_SENDER = 3"
definition MAX_HELD_MESSAGES :: nat where "MAX_HELD_MESSAGES = 128"
definition MESSAGE_REQUEST_TTL_SECS :: secs where "MESSAGE_REQUEST_TTL_SECS = 30 * 24 * 3600"

abbreviation MT_FRIEND_REQUEST :: string where "MT_FRIEND_REQUEST \<equiv> ''friend_request''"
abbreviation MT_FRIEND_ACCEPT :: string where "MT_FRIEND_ACCEPT \<equiv> ''friend_accept''"
abbreviation MT_FRIEND_DECLINE :: string where "MT_FRIEND_DECLINE \<equiv> ''friend_decline''"

section \<open>The tables\<close>

definition upsert_friend :: "secs \<Rightarrow> hexid \<Rightarrow> string \<Rightarrow> string \<Rightarrow> fstate \<Rightarrow> friend_row list \<Rightarrow> friend_row list" where
  "upsert_friend now h nickname note st =
     upsert fr_hash \<lparr>fr_hash = h, fr_nickname = nickname, fr_note = note, fr_added = now, fr_seen = 0, fr_state = st\<rparr>
       (\<lambda>r. r\<lparr>fr_nickname := nickname, fr_note := note, fr_state := st\<rparr>)"

definition set_friend_state :: "hexid \<Rightarrow> fstate \<Rightarrow> friend_row list \<Rightarrow> friend_row list" where
  "set_friend_state h st = update_where (\<lambda>r. fr_hash r = h) (\<lambda>r. r\<lparr>fr_state := st\<rparr>)"

definition get_friend :: "friend_row list \<Rightarrow> hexid \<Rightarrow> friend_row option" where
  "get_friend rows h = row_of fr_hash rows h"

definition get_friend_state :: "friend_row list \<Rightarrow> hexid \<Rightarrow> fstate option" where
  "get_friend_state rows h = map_option fr_state (row_of fr_hash rows h)"

definition count_friends_in_state :: "fstate \<Rightarrow> friend_row list \<Rightarrow> nat" where
  "count_friends_in_state st rows = length (filter (\<lambda>r. fr_state r = st) rows)"

definition oldest_friend_in_state :: "fstate \<Rightarrow> friend_row list \<Rightarrow> hexid option" where
  "oldest_friend_in_state st rows =
     (case filter (\<lambda>r. fr_state r = st) rows of
        [] \<Rightarrow> None
      | r # rs \<Rightarrow> Some (fr_hash (min_by fr_added r rs)))"

definition delete_friend :: "hexid \<Rightarrow> friend_row list \<Rightarrow> friend_row list" where
  "delete_friend h = delete_where (\<lambda>r. fr_hash r = h)"

definition get_friend_hashes :: "friend_row list \<Rightarrow> hexid set" where
  "get_friend_hashes rows = fr_hash ` set (filter (\<lambda>r. fr_state r = ACCEPTED) rows)"

definition touch_friend_seen :: "hexid \<Rightarrow> secs \<Rightarrow> friend_row list \<Rightarrow> friend_row list" where
  "touch_friend_seen h seen_at = update_where (\<lambda>r. fr_hash r = h) (\<lambda>r. r\<lparr>fr_seen := seen_at\<rparr>)"

text \<open>The ids that \<^verbatim>\<open>ORDER BY received_at DESC, id DESC LIMIT n\<close> selects.\<close>

definition newest_ids :: "nat \<Rightarrow> message_request list \<Rightarrow> nat list" where
  "newest_ids n rows = map mq_id (take n (rev (sort_key (\<lambda>m. (mq_received m, mq_id m)) rows)))"

definition next_rowid :: "message_request list \<Rightarrow> nat" where
  "next_rowid rows = Suc (foldr (\<lambda>m n. max (mq_id m) n) rows 0)"

definition add_message_request ::
    "secs \<Rightarrow> hexid \<Rightarrow> string \<Rightarrow> bool \<Rightarrow> secs \<Rightarrow> nat \<Rightarrow> nat \<Rightarrow> message_request list \<Rightarrow> message_request list" where
  "add_message_request now h body from_trenchchat sent_at max_per_sender max_total rows =
     (let rows = rows @ [\<lparr>mq_id = next_rowid rows, mq_hash = h, mq_body = body, mq_received = now,
                          mq_sent = sent_at, mq_trenchchat = from_trenchchat\<rparr>];
          keep = newest_ids max_per_sender (filter (\<lambda>m. mq_hash m = h) rows);
          rows = delete_where (\<lambda>m. mq_hash m = h \<and> mq_id m \<notin> set keep) rows;
          keep = newest_ids max_total rows
      in delete_where (\<lambda>m. mq_id m \<notin> set keep) rows)"

definition get_message_requests :: "hexid \<Rightarrow> message_request list \<Rightarrow> message_request list" where
  "get_message_requests h rows = sort_key (\<lambda>m. (mq_sent m, mq_id m)) (filter (\<lambda>m. mq_hash m = h) rows)"

definition clear_message_requests :: "hexid \<Rightarrow> message_request list \<Rightarrow> message_request list" where
  "clear_message_requests h = delete_where (\<lambda>m. mq_hash m = h)"

definition prune_message_requests :: "secs \<Rightarrow> message_request list \<Rightarrow> message_request list" where
  "prune_message_requests older_than = delete_where (\<lambda>m. mq_received m < older_than)"

section \<open>The manager's state and its world\<close>

record friends =
  fm_self :: hexid
  fm_rows :: "friend_row list"
  fm_held :: "message_request list"
  fm_hashes :: "hexid set"
  fm_last_write :: "(hexid \<times> secs) list"
  fm_last_seen :: "(hexid \<times> secs) list"
  fm_resolving :: "(hexid \<times> (string \<times> string)) list"
  fm_retry :: "fields retry_queue"
  fm_convs :: "conversation list"
  fm_filed :: "(hexid \<times> hexid \<times> string \<times> secs) list"
  fm_sent :: "(hexid \<times> fields) list"
  fm_calls :: "hexid list"
  fm_requests :: "(hexid \<times> string \<times> string) list"

record world =
  w_now :: secs
  w_router :: bool
  w_identity :: bool
  w_filer :: bool
  w_display_name :: string
  w_path :: "hexid \<Rightarrow> bool"
  w_sends :: "hexid \<Rightarrow> fields \<Rightarrow> bool"
  w_address :: "hexid \<Rightarrow> hexid option"
  w_source :: "bytes \<Rightarrow> bytes option"
  w_decode :: "bytes \<Rightarrow> string"
  w_repr :: "pyval \<Rightarrow> string"
  w_sha :: "bytes \<Rightarrow> bytes"
  w_width :: nat

definition new_friends :: "hexid \<Rightarrow> friend_row list \<Rightarrow> message_request list \<Rightarrow> conversation list \<Rightarrow> friends" where
  "new_friends self rows held convs =
     \<lparr>fm_self = self, fm_rows = rows, fm_held = held, fm_hashes = get_friend_hashes rows,
      fm_last_write = [], fm_last_seen = [], fm_resolving = [],
      fm_retry = new_retry_queue QUEUE_TTL_SECS, fm_convs = convs, fm_filed = [], fm_sent = [],
      fm_calls = [], fm_requests = []\<rparr>"

definition is_friend :: "friends \<Rightarrow> hexid \<Rightarrow> bool" where
  "is_friend s h = (h \<in> fm_hashes s)"

definition fire :: "hexid \<Rightarrow> friends \<Rightarrow> friends" where
  "fire h s = s\<lparr>fm_calls := fm_calls s @ [h]\<rparr>"

section \<open>Sending\<close>

definition send_raw :: "world \<Rightarrow> hexid \<Rightarrow> fields \<Rightarrow> friends \<Rightarrow> friends \<times> bool" where
  "send_raw w dest fs s =
     (if \<not> w_router w then (s, False)
      else case fromhex dest of
             None \<Rightarrow> (s, False)
           | Some _ \<Rightarrow>
               (if \<not> w_path w dest
                then (s\<lparr>fm_retry := rq_queue (w_now w) dest fs (fm_retry s)\<rparr>, False)
                else if w_sends w dest fs then (s\<lparr>fm_sent := fm_sent s @ [(dest, fs)]\<rparr>, True)
                else (s, False)))"

definition handshake_fields :: "world \<Rightarrow> string \<Rightarrow> string \<Rightarrow> fields" where
  "handshake_fields w msg_type note =
     [(PInt F_MSG_TYPE, PStr msg_type), (PInt F_DISPLAY_NAME, PStr (w_display_name w))]
     @ (if msg_type = MT_FRIEND_REQUEST \<and> note \<noteq> []
        then [(PInt F_FRIEND_NOTE, PStr (take MAX_FRIEND_NOTE_CHARS note))] else [])"

definition send :: "world \<Rightarrow> hexid \<Rightarrow> string \<Rightarrow> string \<Rightarrow> friends \<Rightarrow> friends" where
  "send w dest msg_type note s =
     (if \<not> w_router w \<or> \<not> w_identity w then s
      else fst (send_raw w dest (handshake_fields w msg_type note) s))"

definition flush_pending :: "world \<Rightarrow> hexid \<Rightarrow> friends \<Rightarrow> friends \<times> nat" where
  "flush_pending w dest s =
     (let (q, waiting) = rq_take (w_now w) dest (fm_retry s); s = s\<lparr>fm_retry := q\<rparr>
      in if waiting = [] then (s, 0)
         else send_all (\<lambda>dest fs s. map_prod id Some (send_raw w dest fs s)) dest waiting 0 s)"

section \<open>Held words\<close>

definition take_message_requests :: "hexid \<Rightarrow> friends \<Rightarrow> friends \<times> message_request list" where
  "take_message_requests h s =
     (let held = get_message_requests h (fm_held s)
      in (if held \<noteq> [] then s\<lparr>fm_held := clear_message_requests h (fm_held s)\<rparr> else s, held))"

text \<open>\<^verbatim>\<open>actions.file_message_requests\<close>; each \<^verbatim>\<open>store_held_message\<close> is an entry of \<open>fm_filed\<close>.\<close>

definition file_message_requests :: "world \<Rightarrow> hexid \<Rightarrow> friends \<Rightarrow> friends" where
  "file_message_requests w h s =
     (let (s, held) = take_message_requests h s
      in if held = [] then s
         else let (convs, c) = open_conversation (w_sha w) (w_width w) (fm_self s) (is_friend s) (w_now w) h (fm_convs s)
              in case c of
                   None \<Rightarrow> s\<lparr>fm_convs := convs\<rparr>
                 | Some conv \<Rightarrow>
                     s\<lparr>fm_convs := (if list_ex mq_trenchchat held
                                    then note_trenchchat_peer (w_sha w) (w_width w) (fm_self s) h convs else convs),
                       fm_filed := fm_filed s @ map (\<lambda>m. (conv, h, mq_body m,
                                     if mq_sent m \<noteq> 0 then mq_sent m else mq_received m)) held\<rparr>)"

definition file_held_messages :: "world \<Rightarrow> hexid \<Rightarrow> friends \<Rightarrow> friends" where
  "file_held_messages w h s = (if w_filer w then file_message_requests w h s else s)"

definition asked_us :: "hexid \<Rightarrow> friends \<Rightarrow> bool" where
  "asked_us h s = (let held = get_message_requests h (fm_held s) in held = [] \<or> list_ex mq_trenchchat held)"

section \<open>Contacts\<close>

definition add_friend :: "world \<Rightarrow> hexid \<Rightarrow> string \<Rightarrow> string \<Rightarrow> friends \<Rightarrow> friends \<times> bool" where
  "add_friend w h nickname note s =
     (if \<not> is_valid_hash h \<or> h = fm_self s then (s, False)
      else let was_pending_in = (get_friend_state (fm_rows s) h = Some PENDING_IN);
               s = s\<lparr>fm_rows := upsert_friend (w_now w) h nickname note ACCEPTED (fm_rows s),
                     fm_hashes := insert h (fm_hashes s)\<rparr>;
               s = (if was_pending_in \<and> asked_us h s then send w h MT_FRIEND_ACCEPT [] s else s)
           in (fire h (file_held_messages w h s), True))"

definition update_friend :: "world \<Rightarrow> hexid \<Rightarrow> string option \<Rightarrow> string option \<Rightarrow> friends \<Rightarrow> friends \<times> bool" where
  "update_friend w h nickname note s =
     (case get_friend (fm_rows s) h of
        None \<Rightarrow> (s, False)
      | Some existing \<Rightarrow>
          (let new_nickname = (case nickname of None \<Rightarrow> fr_nickname existing | Some n \<Rightarrow> n);
               new_note = (case note of None \<Rightarrow> fr_note existing | Some n \<Rightarrow> n)
           in (fire h (s\<lparr>fm_rows := upsert_friend (w_now w) h new_nickname new_note (fr_state existing) (fm_rows s)\<rparr>), True)))"

definition remove_friend :: "hexid \<Rightarrow> friends \<Rightarrow> friends \<times> bool" where
  "remove_friend h s =
     (case get_friend (fm_rows s) h of
        None \<Rightarrow> (s, False)
      | Some _ \<Rightarrow>
          (fire h (s\<lparr>fm_rows := delete_friend h (fm_rows s),
                     fm_held := clear_message_requests h (fm_held s),
                     fm_hashes := fm_hashes s - {h},
                     fm_last_write := AList.delete h (fm_last_write s),
                     fm_last_seen := AList.delete h (fm_last_seen s)\<rparr>), True))"

datatype address_state = Invalid | Resolving | Added hexid

definition address_key :: "string \<Rightarrow> hexid" where
  "address_key lxmf_hash_hex = lower (strip_by is_py_space lxmf_hash_hex)"

definition add_lxmf_address :: "world \<Rightarrow> string \<Rightarrow> string \<Rightarrow> string \<Rightarrow> friends \<Rightarrow> friends \<times> address_state" where
  "add_lxmf_address w lxmf_hash_hex nickname note s =
     (let lxmf_hex = address_key lxmf_hash_hex
      in if \<not> is_valid_hash lxmf_hex then (s, Invalid)
         else case w_address w lxmf_hex of
                None \<Rightarrow> (s\<lparr>fm_resolving := AList.update lxmf_hex (nickname, note) (fm_resolving s)\<rparr>, Resolving)
              | Some ident_hex \<Rightarrow>
                  (if ident_hex = fm_self s then (s, Invalid)
                   else (fst (add_friend w ident_hex nickname note s), Added ident_hex)))"

definition resolve_one :: "world \<Rightarrow> hexid \<times> (string \<times> string) \<Rightarrow> friends \<Rightarrow> friends" where
  "resolve_one w = (\<lambda>(lxmf_hex, nickname, note) s.
     (case w_address w lxmf_hex of
        None \<Rightarrow> s
      | Some ident_hex \<Rightarrow>
          (let s = s\<lparr>fm_resolving := AList.delete lxmf_hex (fm_resolving s)\<rparr>
           in if ident_hex = fm_self s then s else fst (add_friend w ident_hex nickname note s))))"

definition tick :: "world \<Rightarrow> friends \<Rightarrow> friends" where
  "tick w s = fold (resolve_one w) (fm_resolving s) s"

section \<open>The handshake\<close>

definition accept_friend_request :: "world \<Rightarrow> hexid \<Rightarrow> string \<Rightarrow> friends \<Rightarrow> friends \<times> bool" where
  "accept_friend_request w h nickname s =
     (if get_friend_state (fm_rows s) h \<noteq> Some PENDING_IN then (s, False)
      else let existing = get_friend (fm_rows s) h;
               nick = (if nickname \<noteq> [] then nickname else case existing of None \<Rightarrow> [] | Some r \<Rightarrow> fr_nickname r);
               note = (case existing of None \<Rightarrow> [] | Some r \<Rightarrow> fr_note r);
               s = s\<lparr>fm_rows := upsert_friend (w_now w) h nick note ACCEPTED (fm_rows s),
                     fm_hashes := insert h (fm_hashes s)\<rparr>;
               s = (if asked_us h s then send w h MT_FRIEND_ACCEPT [] s else s)
           in (fire h (file_held_messages w h s), True))"

definition send_friend_request :: "world \<Rightarrow> hexid \<Rightarrow> string \<Rightarrow> string \<Rightarrow> friends \<Rightarrow> friends \<times> bool" where
  "send_friend_request w h note nickname s =
     (if \<not> is_valid_hash h \<or> h = fm_self s then (s, False)
      else let state = get_friend_state (fm_rows s) h
           in if state = Some ACCEPTED then (s, True)
              else if state = Some PENDING_IN then accept_friend_request w h nickname s
              else let s = s\<lparr>fm_rows := upsert_friend (w_now w) h nickname note PENDING_OUT (fm_rows s)\<rparr>;
                       s = send w h MT_FRIEND_REQUEST note s
                   in (fire h s, True))"

definition decline_friend_request :: "world \<Rightarrow> hexid \<Rightarrow> friends \<Rightarrow> friends \<times> bool" where
  "decline_friend_request w h s =
     (if get_friend_state (fm_rows s) h \<noteq> Some PENDING_IN then (s, False)
      else let held = get_message_requests h (fm_held s);
               s = s\<lparr>fm_rows := delete_friend h (fm_rows s), fm_held := clear_message_requests h (fm_held s)\<rparr>;
               s = (if held = [] \<or> list_ex mq_trenchchat held then send w h MT_FRIEND_DECLINE [] s else s)
           in (fire h s, True))"

definition cancel_friend_request :: "hexid \<Rightarrow> friends \<Rightarrow> friends \<times> bool" where
  "cancel_friend_request h s =
     (if get_friend_state (fm_rows s) h \<noteq> Some PENDING_OUT then (s, False)
      else (fire h (s\<lparr>fm_rows := delete_friend h (fm_rows s)\<rparr>), True))"

text \<open>The loop of \<^verbatim>\<open>_evict_oldest_pending\<close>. Every turn deletes a pending row, so it ends.\<close>

definition drop_pending :: "hexid \<Rightarrow> friends \<Rightarrow> friends" where
  "drop_pending h s = s\<lparr>fm_rows := delete_friend h (fm_rows s), fm_held := clear_message_requests h (fm_held s)\<rparr>"

lemma oldest_is_pending:
  assumes "oldest_friend_in_state st rows = Some h"
  obtains r where "r \<in> set rows" "fr_hash r = h" "fr_state r = st"
proof -
  from assms obtain r rs where f: "filter (\<lambda>r. fr_state r = st) rows = r # rs" and h: "h = fr_hash (min_by fr_added r rs)"
    by (auto simp: oldest_friend_in_state_def split: list.splits)
  have "min_by fr_added r rs \<in> set (filter (\<lambda>r. fr_state r = st) rows)"
    unfolding f using min_by_in [of fr_added r rs] by simp
  then show ?thesis using that h by auto
qed

lemma count_drop_oldest:
  "oldest_friend_in_state st rows = Some h \<Longrightarrow>
   count_friends_in_state st (delete_friend h rows) < count_friends_in_state st rows"
  by (erule oldest_is_pending) (auto simp: count_friends_in_state_def delete_friend_def intro: count_delete_one)

function evict_oldest_pending :: "friends \<Rightarrow> friends" where
  "evict_oldest_pending s =
     (if count_friends_in_state PENDING_IN (fm_rows s) \<ge> MAX_PENDING_FRIEND_REQUESTS
      then case oldest_friend_in_state PENDING_IN (fm_rows s) of
             None \<Rightarrow> s
           | Some oldest \<Rightarrow> evict_oldest_pending (drop_pending oldest s)
      else s)"
  by pat_completeness auto

termination
  by (relation "measure (\<lambda>s. count_friends_in_state PENDING_IN (fm_rows s))")
     (auto simp: drop_pending_def count_drop_oldest)

declare evict_oldest_pending.simps [simp del]

definition hold_message_request ::
    "world \<Rightarrow> hexid \<Rightarrow> string \<Rightarrow> bool \<Rightarrow> secs option \<Rightarrow> friends \<Rightarrow> friends \<times> bool" where
  "hold_message_request w h body from_trenchchat sent_at s =
     (if \<not> is_valid_hash h \<or> h = fm_self s then (s, False)
      else let state = get_friend_state (fm_rows s) h
           in if state = Some ACCEPTED then (s, False)
              else let s = s\<lparr>fm_held := prune_message_requests (w_now w - MESSAGE_REQUEST_TTL_SECS) (fm_held s)\<rparr>;
                       s = (if state \<noteq> Some PENDING_IN \<and> state \<noteq> Some PENDING_OUT
                            then let s = evict_oldest_pending s
                                 in s\<lparr>fm_rows := upsert_friend (w_now w) h [] [] PENDING_IN (fm_rows s)\<rparr>
                            else s);
                       s = s\<lparr>fm_held := add_message_request (w_now w) h (take MAX_REQUEST_BODY_CHARS body)
                               from_trenchchat (case sent_at of Some t \<Rightarrow> t | None \<Rightarrow> w_now w)
                               MAX_HELD_PER_SENDER MAX_HELD_MESSAGES (fm_held s)\<rparr>
                   in (fire h s, True))"

section \<open>Inbound messages\<close>

definition text_of :: "world \<Rightarrow> pyval \<Rightarrow> string" where
  "text_of w v = (case v of PBytes b \<Rightarrow> w_decode w b | _ \<Rightarrow> str_or_empty (w_repr w) v)"

definition handle_request :: "world \<Rightarrow> hexid \<Rightarrow> fields \<Rightarrow> friends \<Rightarrow> friends" where
  "handle_request w h fs s =
     (case get_friend_state (fm_rows s) h of
        Some ACCEPTED \<Rightarrow> send w h MT_FRIEND_ACCEPT [] s
      | Some PENDING_OUT \<Rightarrow>
          (let s = s\<lparr>fm_rows := set_friend_state h ACCEPTED (fm_rows s), fm_hashes := insert h (fm_hashes s)\<rparr>
           in fire h (send w h MT_FRIEND_ACCEPT [] s))
      | Some PENDING_IN \<Rightarrow> s
      | None \<Rightarrow>
          (let s = evict_oldest_pending s;
               note = take MAX_FRIEND_NOTE_CHARS (text_of w (field_get fs F_FRIEND_NOTE));
               display_name = text_of w (field_get fs F_DISPLAY_NAME);
               s = fire h (s\<lparr>fm_rows := upsert_friend (w_now w) h [] note PENDING_IN (fm_rows s)\<rparr>)
           in s\<lparr>fm_requests := fm_requests s @ [(h, display_name, note)]\<rparr>))"

definition handle_accept :: "hexid \<Rightarrow> friends \<Rightarrow> friends" where
  "handle_accept h s =
     (if get_friend_state (fm_rows s) h \<noteq> Some PENDING_OUT then s
      else fire h (s\<lparr>fm_rows := set_friend_state h ACCEPTED (fm_rows s), fm_hashes := insert h (fm_hashes s)\<rparr>))"

definition handle_decline :: "hexid \<Rightarrow> friends \<Rightarrow> friends" where
  "handle_decline h s =
     (if get_friend_state (fm_rows s) h \<noteq> Some PENDING_OUT then s
      else fire h (s\<lparr>fm_rows := delete_friend h (fm_rows s)\<rparr>))"

definition sender_hex :: "world \<Rightarrow> bytes \<Rightarrow> hexid" where
  "sender_hex w source_hash =
     (case (if source_hash \<noteq> [] then w_source w source_hash else None) of
        Some identity_hash \<Rightarrow> to_hex identity_hash
      | None \<Rightarrow> to_hex source_hash)"

definition message_type :: "world \<Rightarrow> fields \<Rightarrow> pyval" where
  "message_type w fs = (case field_get fs F_MSG_TYPE of PBytes b \<Rightarrow> PStr (w_decode w b) | v \<Rightarrow> v)"

definition on_friend_message :: "world \<Rightarrow> bytes \<Rightarrow> fields \<Rightarrow> friends \<Rightarrow> friends" where
  "on_friend_message w source_hash fs s =
     (let msg_type = message_type w fs
      in if msg_type \<notin> {PStr MT_FRIEND_REQUEST, PStr MT_FRIEND_ACCEPT, PStr MT_FRIEND_DECLINE} then s
         else let h = sender_hex w source_hash
              in if \<not> is_valid_hash h \<or> h = fm_self s then s
                 else if msg_type = PStr MT_FRIEND_REQUEST then handle_request w h fs s
                 else if msg_type = PStr MT_FRIEND_ACCEPT then handle_accept h s
                 else handle_decline h s)"

section \<open>Presence\<close>

definition record_seen :: "world \<Rightarrow> hexid \<Rightarrow> friends \<Rightarrow> friends" where
  "record_seen w h s =
     (if h \<notin> fm_hashes s then s
      else let now = w_now w;
               s = s\<lparr>fm_last_seen := AList.update h now (fm_last_seen s)\<rparr>
           in if now - get_or 0 (fm_last_write s) h < FRIEND_SEEN_WRITE_INTERVAL_SECS then s
              else s\<lparr>fm_last_write := AList.update h now (fm_last_write s),
                     fm_rows := touch_friend_seen h now (fm_rows s)\<rparr>)"

definition record_presence :: "hexid \<Rightarrow> bool \<Rightarrow> friends \<Rightarrow> friends" where
  "record_presence h is_online s =
     (if is_online then s
      else if h \<notin> fm_hashes s then s
      else let seen = get_or 0 (fm_last_seen s) h
           in if seen \<le> 0 \<or> seen \<le> get_or 0 (fm_last_write s) h then s
              else s\<lparr>fm_last_write := AList.update h seen (fm_last_write s),
                     fm_rows := touch_friend_seen h seen (fm_rows s)\<rparr>)"

section \<open>What each statement does to the contacts\<close>

lemma state_upsert [simp]:
  "get_friend_state (upsert_friend now h nick note st rows) k =
    (if k = h then Some st else get_friend_state rows k)"
  by (auto simp: get_friend_state_def upsert_friend_def split: option.splits)

lemma state_set [simp]:
  "get_friend_state (set_friend_state h st rows) k =
    (if k = h then map_option (\<lambda>_. st) (get_friend_state rows h) else get_friend_state rows k)"
  by (simp add: get_friend_state_def set_friend_state_def option.map_comp comp_def)

lemma state_delete [simp]:
  "get_friend_state (delete_friend h rows) k = (if k = h then None else get_friend_state rows k)"
  by (simp add: get_friend_state_def delete_friend_def)

lemma state_touch [simp]: "get_friend_state (touch_friend_seen h t rows) k = get_friend_state rows k"
  by (simp add: get_friend_state_def touch_friend_seen_def option.map_comp comp_def)

lemma get_friend_known: "get_friend rows h = Some r \<Longrightarrow> get_friend_state rows h = Some (fr_state r)"
  by (simp add: get_friend_def get_friend_state_def)

lemma state_None: "get_friend_state rows h = None \<longleftrightarrow> get_friend rows h = None"
  by (simp add: get_friend_def get_friend_state_def)

lemma unique_friends [simp]:
  assumes "unique_key fr_hash rows"
  shows "unique_key fr_hash (upsert_friend now h nick note st rows)"
    and "unique_key fr_hash (set_friend_state h st rows)"
    and "unique_key fr_hash (delete_friend h rows)"
    and "unique_key fr_hash (touch_friend_seen h t rows)"
  using assms
  by (simp_all add: upsert_friend_def set_friend_state_def delete_friend_def touch_friend_seen_def
      unique_key_upsert unique_key_update unique_key_delete)

lemma row_state: "unique_key fr_hash rows \<Longrightarrow> r \<in> set rows \<Longrightarrow> get_friend_state rows (fr_hash r) = Some (fr_state r)"
  by (simp add: get_friend_state_def row_of_in)

lemma state_row: "get_friend_state rows h = Some st \<Longrightarrow> \<exists>r \<in> set rows. fr_hash r = h \<and> fr_state r = st"
  by (auto simp: get_friend_state_def dest: row_of_Some)

lemma friend_hashes_iff:
  "unique_key fr_hash rows \<Longrightarrow> h \<in> get_friend_hashes rows \<longleftrightarrow> get_friend_state rows h = Some ACCEPTED"
  by (auto simp: get_friend_hashes_def row_state dest: state_row)

abbreviation pending :: "friend_row list \<Rightarrow> nat" where
  "pending \<equiv> count_friends_in_state PENDING_IN"

lemma pending_delete [simp]: "pending (delete_friend h rows) \<le> pending rows"
  by (simp add: count_friends_in_state_def delete_friend_def count_delete_other)

lemma pending_touch: "pending (touch_friend_seen h t rows) = pending rows"
  by (induction rows) (auto simp: count_friends_in_state_def touch_friend_seen_def update_where_def)

lemma pending_set: "st \<noteq> PENDING_IN \<Longrightarrow> pending (set_friend_state h st rows) \<le> pending rows"
  by (auto simp: count_friends_in_state_def set_friend_state_def intro!: count_update_le)

lemma pending_upsert:
  assumes "unique_key fr_hash rows" and "st = PENDING_IN \<Longrightarrow> get_friend_state rows h = Some PENDING_IN"
  shows "pending (upsert_friend now h nick note st rows) \<le> pending rows"
proof (cases "has_key fr_hash rows h")
  case True
  have "r \<in> set rows \<Longrightarrow> fr_hash r = h \<Longrightarrow> st = PENDING_IN \<Longrightarrow> fr_state r = PENDING_IN" for r
    using row_state [OF assms(1), of r] assms(2) by auto
  then show ?thesis using True
    by (auto simp: count_friends_in_state_def upsert_friend_def upsert_def intro!: count_update_le)
next
  case False
  then have "st \<noteq> PENDING_IN" using assms(2) by (auto simp: get_friend_state_def has_key_row)
  then show ?thesis using False by (simp add: count_friends_in_state_def upsert_friend_def upsert_def)
qed

lemma pending_upsert_new:
  "unique_key fr_hash rows \<Longrightarrow> pending (upsert_friend now h nick note st rows) \<le> Suc (pending rows)"
  using count_update_one [of fr_hash rows]
  by (simp add: count_friends_in_state_def upsert_friend_def upsert_def)

section \<open>The contacts' invariant\<close>

text \<open>One row per hash, the in-memory set holds exactly the accepted ones, and at most 64
  requests wait on the user.\<close>

definition rows_ok :: "friends \<Rightarrow> bool" where
  "rows_ok s \<longleftrightarrow> unique_key fr_hash (fm_rows s)
     \<and> (\<forall>h. h \<in> fm_hashes s \<longleftrightarrow> get_friend_state (fm_rows s) h = Some ACCEPTED)
     \<and> pending (fm_rows s) \<le> MAX_PENDING_FRIEND_REQUESTS"

lemma fire_simps [simp]:
  "fm_self (fire h s) = fm_self s" "fm_rows (fire h s) = fm_rows s" "fm_held (fire h s) = fm_held s"
  "fm_hashes (fire h s) = fm_hashes s" "fm_retry (fire h s) = fm_retry s" "fm_resolving (fire h s) = fm_resolving s"
  "fm_sent (fire h s) = fm_sent s" "fm_convs (fire h s) = fm_convs s" "fm_filed (fire h s) = fm_filed s"
  by (simp_all add: fire_def)

lemma send_raw_simps [simp]:
  "fm_self (fst (send_raw w d f s)) = fm_self s" "fm_rows (fst (send_raw w d f s)) = fm_rows s"
  "fm_held (fst (send_raw w d f s)) = fm_held s" "fm_hashes (fst (send_raw w d f s)) = fm_hashes s"
  "fm_resolving (fst (send_raw w d f s)) = fm_resolving s"
  by (auto simp: send_raw_def split: option.splits)

lemma send_simps [simp]:
  "fm_self (send w d t n s) = fm_self s" "fm_rows (send w d t n s) = fm_rows s"
  "fm_held (send w d t n s) = fm_held s" "fm_hashes (send w d t n s) = fm_hashes s"
  "fm_resolving (send w d t n s) = fm_resolving s"
  by (simp_all add: send_def)

lemma file_held_simps [simp]:
  "fm_self (file_held_messages w h s) = fm_self s" "fm_rows (file_held_messages w h s) = fm_rows s"
  "fm_hashes (file_held_messages w h s) = fm_hashes s" "fm_retry (file_held_messages w h s) = fm_retry s"
  "fm_resolving (file_held_messages w h s) = fm_resolving s"
  by (auto simp: file_held_messages_def file_message_requests_def take_message_requests_def Let_def
      split: prod.splits option.splits)

lemma flush_simps [simp]:
  "fm_rows (fst (flush_pending w d s)) = fm_rows s" "fm_hashes (fst (flush_pending w d s)) = fm_hashes s"
  "fm_held (fst (flush_pending w d s)) = fm_held s" "fm_resolving (fst (flush_pending w d s)) = fm_resolving s"
proof -
  have "fm_rows (fst (send_all (\<lambda>d f s. map_prod id Some (send_raw w d f s)) d es n s)) = fm_rows s
    \<and> fm_hashes (fst (send_all (\<lambda>d f s. map_prod id Some (send_raw w d f s)) d es n s)) = fm_hashes s
    \<and> fm_held (fst (send_all (\<lambda>d f s. map_prod id Some (send_raw w d f s)) d es n s)) = fm_held s
    \<and> fm_resolving (fst (send_all (\<lambda>d f s. map_prod id Some (send_raw w d f s)) d es n s)) = fm_resolving s" for es n and s :: friends
    by (induction es arbitrary: n s) (auto simp: Let_def map_prod_def case_prod_unfold)
  then show "fm_rows (fst (flush_pending w d s)) = fm_rows s" "fm_hashes (fst (flush_pending w d s)) = fm_hashes s"
    "fm_held (fst (flush_pending w d s)) = fm_held s" "fm_resolving (fst (flush_pending w d s)) = fm_resolving s"
    by (auto simp: flush_pending_def Let_def split: prod.splits)
qed

lemma rows_ok_store:
  assumes "rows_ok s" "st = PENDING_IN \<Longrightarrow> get_friend_state (fm_rows s) h = Some PENDING_IN"
    and "hs = (if st = ACCEPTED then insert h (fm_hashes s) else fm_hashes s - {h})"
  shows "rows_ok (s\<lparr>fm_rows := upsert_friend now h nick note st (fm_rows s), fm_hashes := hs\<rparr>)"
  using assms pending_upsert [of "fm_rows s" st h now nick "note"]
  by (auto simp: rows_ok_def split: if_splits)

lemma rows_ok_agree: "rows_ok s \<Longrightarrow> fm_rows s' = fm_rows s \<Longrightarrow> fm_hashes s' = fm_hashes s \<Longrightarrow> rows_ok s'"
  by (simp add: rows_ok_def)

lemma rows_ok_accept:
  "rows_ok s \<Longrightarrow> rows_ok (s\<lparr>fm_rows := upsert_friend now h nick note ACCEPTED (fm_rows s), fm_hashes := insert h (fm_hashes s)\<rparr>)"
  by (rule rows_ok_store) simp_all

lemma rows_ok_add [inv_intros]: "rows_ok s \<Longrightarrow> rows_ok (fst (add_friend w h nick note s))"
  by (auto simp: add_friend_def Let_def elim!: rows_ok_agree [OF rows_ok_accept])

lemma rows_ok_accept_request [inv_intros]: "rows_ok s \<Longrightarrow> rows_ok (fst (accept_friend_request w h nick s))"
  by (auto simp: accept_friend_request_def Let_def elim!: rows_ok_agree [OF rows_ok_accept])

lemma rows_ok_update [inv_intros]: "rows_ok s \<Longrightarrow> rows_ok (fst (update_friend w h nick note s))"
  by (auto simp: update_friend_def Let_def rows_ok_def get_friend_known split: option.splits
      intro!: order.trans [OF pending_upsert])

lemma rows_ok_remove [inv_intros]: "rows_ok s \<Longrightarrow> rows_ok (fst (remove_friend h s))"
  by (auto simp: remove_friend_def rows_ok_def split: option.splits intro: order.trans [OF pending_delete])

lemma rows_ok_decline [inv_intros]: "rows_ok s \<Longrightarrow> rows_ok (fst (decline_friend_request w h s))"
  by (auto simp: decline_friend_request_def Let_def rows_ok_def intro: order.trans [OF pending_delete])

lemma rows_ok_cancel [inv_intros]: "rows_ok s \<Longrightarrow> rows_ok (fst (cancel_friend_request h s))"
  by (auto simp: cancel_friend_request_def rows_ok_def intro: order.trans [OF pending_delete])

lemma rows_ok_send_request [inv_intros]: "rows_ok s \<Longrightarrow> rows_ok (fst (send_friend_request w h note nick s))"
  using pending_upsert [of "fm_rows s" PENDING_OUT h]
  by (auto simp: send_friend_request_def Let_def rows_ok_accept_request)
     (auto simp: rows_ok_def intro: order.trans)

lemma rows_ok_drop: "rows_ok s \<Longrightarrow> get_friend_state (fm_rows s) h \<noteq> Some ACCEPTED \<Longrightarrow> rows_ok (drop_pending h s)"
  by (auto simp: drop_pending_def rows_ok_def intro: order.trans [OF pending_delete])

lemma oldest_not_accepted:
  "rows_ok s \<Longrightarrow> oldest_friend_in_state PENDING_IN (fm_rows s) = Some h \<Longrightarrow>
   get_friend_state (fm_rows s) h = Some PENDING_IN"
  by (erule oldest_is_pending) (use row_state in \<open>fastforce simp: rows_ok_def\<close>)

text \<open>Eviction makes room, and takes away nothing but waiting requests and their words.\<close>

lemma evict_room: "pending (fm_rows (evict_oldest_pending s)) < MAX_PENDING_FRIEND_REQUESTS"
proof (induction s rule: evict_oldest_pending.induct)
  case (1 s)
  have "oldest_friend_in_state PENDING_IN (fm_rows s) \<noteq> None" if "pending (fm_rows s) \<ge> MAX_PENDING_FRIEND_REQUESTS"
    using that by (auto simp: oldest_friend_in_state_def count_friends_in_state_def MAX_PENDING_FRIEND_REQUESTS_def split: list.splits)
  then show ?case using 1 by (subst evict_oldest_pending.simps) (auto split: option.splits)
qed

lemma evict_state:
  "rows_ok s \<Longrightarrow> rows_ok (evict_oldest_pending s) \<and> fm_hashes (evict_oldest_pending s) = fm_hashes s
   \<and> fm_resolving (evict_oldest_pending s) = fm_resolving s \<and> fm_self (evict_oldest_pending s) = fm_self s
   \<and> (get_friend_state (fm_rows (evict_oldest_pending s)) h = get_friend_state (fm_rows s) h
      \<or> get_friend_state (fm_rows s) h = Some PENDING_IN \<and> get_friend_state (fm_rows (evict_oldest_pending s)) h = None)"
proof (induction s rule: evict_oldest_pending.induct)
  case (1 s)
  show ?case
  proof (cases "pending (fm_rows s) \<ge> MAX_PENDING_FRIEND_REQUESTS \<and> oldest_friend_in_state PENDING_IN (fm_rows s) \<noteq> None")
    case True
    then obtain o' where o': "oldest_friend_in_state PENDING_IN (fm_rows s) = Some o'" by auto
    have eq: "evict_oldest_pending s = evict_oldest_pending (drop_pending o' s)"
      using True o' by (subst evict_oldest_pending.simps) simp
    have st: "get_friend_state (fm_rows s) o' = Some PENDING_IN" by (rule oldest_not_accepted [OF 1(2) o'])
    show ?thesis
      unfolding eq using 1(1) [OF _ o'] True rows_ok_drop [OF 1(2), of o'] st
      by (auto simp: drop_pending_def split: if_splits)
  next
    case False
    then have "evict_oldest_pending s = s" by (subst evict_oldest_pending.simps) auto
    then show ?thesis using 1 by simp
  qed
qed

lemma rows_ok_pending:
  assumes "rows_ok s" "get_friend_state (fm_rows s) h = None"
  shows "rows_ok ((evict_oldest_pending s)\<lparr>fm_rows :=
    upsert_friend now h nick note PENDING_IN (fm_rows (evict_oldest_pending s))\<rparr>)"
  using evict_state [OF assms(1), of h] assms(2) evict_room [of s]
    pending_upsert_new [of "fm_rows (evict_oldest_pending s)" now h nick "note" PENDING_IN]
  by (auto simp: rows_ok_def)

lemma rows_ok_irrelevant [simp]:
  "rows_ok (fire h s) = rows_ok s" "rows_ok (send w d t n s) = rows_ok s"
  "rows_ok (s\<lparr>fm_held := x\<rparr>) = rows_ok s" "rows_ok (s\<lparr>fm_requests := y\<rparr>) = rows_ok s"
  "rows_ok (s\<lparr>fm_resolving := z\<rparr>) = rows_ok s"
  by (simp_all add: rows_ok_def)

lemma rows_ok_hold [inv_intros]:
  assumes "rows_ok s"
  shows "rows_ok (fst (hold_message_request w h body tc at_time s))"
proof (cases "get_friend_state (fm_rows s) h")
  case None
  let ?p = "s\<lparr>fm_held := prune_message_requests (w_now w - MESSAGE_REQUEST_TTL_SECS) (fm_held s)\<rparr>"
  have "rows_ok ((evict_oldest_pending ?p)\<lparr>fm_rows :=
      upsert_friend (w_now w) h [] [] PENDING_IN (fm_rows (evict_oldest_pending ?p))\<rparr>)"
    by (rule rows_ok_pending) (use assms None in simp_all)
  then show ?thesis using assms None by (simp add: hold_message_request_def Let_def)
next
  case (Some st)
  then show ?thesis using assms by (cases st) (simp_all add: hold_message_request_def Let_def)
qed

lemma rows_ok_set_accepted:
  "rows_ok s \<Longrightarrow> get_friend_state (fm_rows s) h = Some st \<Longrightarrow>
   rows_ok (s\<lparr>fm_rows := set_friend_state h ACCEPTED (fm_rows s), fm_hashes := insert h (fm_hashes s)\<rparr>)"
  by (auto simp: rows_ok_def intro: order.trans [OF pending_set])

lemma rows_ok_request [inv_intros]: "rows_ok s \<Longrightarrow> rows_ok (handle_request w h fs s)"
  by (auto simp: handle_request_def Let_def split: option.splits fstate.splits
      intro!: rows_ok_set_accepted rows_ok_pending)

lemma rows_ok_handle_accept [inv_intros]: "rows_ok s \<Longrightarrow> rows_ok (handle_accept h s)"
  by (auto simp: handle_accept_def elim!: rows_ok_agree [OF rows_ok_set_accepted])

lemma rows_ok_handle_decline [inv_intros]: "rows_ok s \<Longrightarrow> rows_ok (handle_decline h s)"
  by (auto simp: handle_decline_def rows_ok_def intro: order.trans [OF pending_delete])

lemma rows_ok_message [inv_intros]: "rows_ok s \<Longrightarrow> rows_ok (on_friend_message w src fs s)"
  by (auto simp: on_friend_message_def Let_def intro!: inv_intros)

lemma rows_ok_address [inv_intros]: "rows_ok s \<Longrightarrow> rows_ok (fst (add_lxmf_address w a nick n s))"
  by (auto simp: add_lxmf_address_def Let_def rows_ok_add split: option.splits elim: rows_ok_agree)

lemma rows_ok_resolve: "rows_ok s \<Longrightarrow> rows_ok (resolve_one w x s)"
  by (cases x) (auto simp: resolve_one_def Let_def split: option.splits intro!: rows_ok_add elim!: rows_ok_agree)

lemma rows_ok_tick [inv_intros]: "rows_ok s \<Longrightarrow> rows_ok (tick w s)"
proof -
  have "rows_ok s \<Longrightarrow> rows_ok (fold (resolve_one w) xs s)" for xs
    by (induction xs arbitrary: s) (auto intro: rows_ok_resolve)
  then show "rows_ok s \<Longrightarrow> rows_ok (tick w s)" by (simp add: tick_def)
qed

lemma rows_ok_presence [inv_intros]:
  "rows_ok s \<Longrightarrow> rows_ok (record_seen w h s)" "rows_ok s \<Longrightarrow> rows_ok (record_presence h online s)"
  by (auto simp: record_seen_def record_presence_def Let_def rows_ok_def pending_touch)

lemma rows_ok_flush [inv_intros]: "rows_ok s \<Longrightarrow> rows_ok (fst (flush_pending w d s))"
  by (erule rows_ok_agree) simp_all

section \<open>The bounds on held words\<close>

definition held_ok :: "message_request list \<Rightarrow> bool" where
  "held_ok rows \<longleftrightarrow> distinct (map mq_id rows) \<and> length rows \<le> MAX_HELD_MESSAGES
     \<and> (\<forall>h. length (filter (\<lambda>m. mq_hash m = h) rows) \<le> MAX_HELD_PER_SENDER)
     \<and> list_all (\<lambda>m. length (mq_body m) \<le> MAX_REQUEST_BODY_CHARS) rows"

lemma length_keep:
  assumes "distinct (map mq_id rows)" "length keep \<le> n"
  shows "length (filter (\<lambda>m. mq_id m \<in> set keep) rows) \<le> n"
proof -
  have d: "distinct (map mq_id (filter (\<lambda>m. mq_id m \<in> set keep) rows))"
    using assms(1) by (simp add: distinct_map_filter)
  have "length (filter (\<lambda>m. mq_id m \<in> set keep) rows) = card (mq_id ` set (filter (\<lambda>m. mq_id m \<in> set keep) rows))"
    using distinct_card [OF d] by simp
  also have "\<dots> \<le> card (set keep)" by (rule card_mono) auto
  also have "\<dots> \<le> n" using card_length [of keep] assms(2) by simp
  finally show ?thesis .
qed

lemma length_newest_ids: "length (newest_ids n rows) \<le> n"
  by (simp add: newest_ids_def)

lemma next_rowid_above: "m \<in> set rows \<Longrightarrow> mq_id m < next_rowid rows"
  by (induction rows) (auto simp: next_rowid_def less_Suc_eq_le le_max_iff_disj)

lemma held_ok_subset:
  assumes "held_ok rows"
  shows "held_ok (delete_where p rows)"
proof -
  have "length (filter q (delete_where p rows)) \<le> length (filter q rows)" for q
    by (rule count_delete_other)
  from order.trans [OF this] show ?thesis
    using assms by (auto simp: held_ok_def list_all_iff delete_where_def distinct_map_filter
        intro: order.trans [OF length_filter_le])
qed

lemma held_ok_add:
  assumes "held_ok rows" "length body \<le> MAX_REQUEST_BODY_CHARS"
  shows "held_ok (add_message_request now h body tc st MAX_HELD_PER_SENDER MAX_HELD_MESSAGES rows)"
proof -
  define new where "new = \<lparr>mq_id = next_rowid rows, mq_hash = h, mq_body = body, mq_received = now, mq_sent = st, mq_trenchchat = tc\<rparr>"
  let ?r1 = "rows @ [new]"
  define k1 where "k1 = newest_ids MAX_HELD_PER_SENDER (filter (\<lambda>m. mq_hash m = h) ?r1)"
  let ?r2 = "delete_where (\<lambda>m. mq_hash m = h \<and> mq_id m \<notin> set k1) ?r1"
  define k2 where "k2 = newest_ids MAX_HELD_MESSAGES ?r2"
  let ?r3 = "delete_where (\<lambda>m. mq_id m \<notin> set k2) ?r2"
  have eq: "add_message_request now h body tc st MAX_HELD_PER_SENDER MAX_HELD_MESSAGES rows = ?r3"
    by (simp add: add_message_request_def Let_def new_def k1_def k2_def)
  have d1: "distinct (map mq_id ?r1)"
    using assms(1) next_rowid_above [of _ rows] by (fastforce simp: held_ok_def new_def)
  then have d2: "distinct (map mq_id ?r2)" unfolding delete_where_def by (rule distinct_map_filter)
  have sub: "length (filter q (filter p xs)) \<le> length (filter q xs)" for q p and xs :: "message_request list"
    by (induction xs) auto
  have per: "length (filter (\<lambda>m. mq_hash m = k) ?r2) \<le> MAX_HELD_PER_SENDER" for k
  proof (cases "k = h")
    case True
    have "filter (\<lambda>m. mq_hash m = h) ?r2 = filter (\<lambda>m. mq_id m \<in> set k1) (filter (\<lambda>m. mq_hash m = h) ?r1)"
      by (auto simp: delete_where_def intro: filter_cong)
    moreover have "distinct (map mq_id (filter (\<lambda>m. mq_hash m = h) ?r1))" using d1 by (rule distinct_map_filter)
    ultimately show ?thesis using length_keep [of "filter (\<lambda>m. mq_hash m = h) ?r1" k1 MAX_HELD_PER_SENDER]
      by (simp add: True k1_def length_newest_ids)
  next
    case False
    have "length (filter (\<lambda>m. mq_hash m = k) ?r2) \<le> length (filter (\<lambda>m. mq_hash m = k) ?r1)"
      unfolding delete_where_def by (rule sub)
    also have "\<dots> = length (filter (\<lambda>m. mq_hash m = k) rows)" using False by (simp add: new_def)
    finally show ?thesis using assms(1) by (auto simp: held_ok_def intro: order.trans)
  qed
  have "length ?r3 \<le> MAX_HELD_MESSAGES"
    using length_keep [OF d2, of k2 MAX_HELD_MESSAGES] by (simp add: delete_where_def k2_def length_newest_ids)
  moreover have "length (filter (\<lambda>m. mq_hash m = k) ?r3) \<le> MAX_HELD_PER_SENDER" for k
    using per [of k] sub [of "\<lambda>m. mq_hash m = k" _ ?r2] unfolding delete_where_def [of _ ?r2] by (blast intro: order.trans)
  moreover have "distinct (map mq_id ?r3)" using d2 unfolding delete_where_def [of _ ?r2] by (rule distinct_map_filter)
  moreover have "list_all (\<lambda>m. length (mq_body m) \<le> MAX_REQUEST_BODY_CHARS) ?r3"
    using assms by (auto simp: held_ok_def list_all_iff delete_where_def new_def)
  ultimately show ?thesis unfolding eq held_ok_def by blast
qed

section \<open>Every step keeps every bound\<close>

definition friends_ok :: "friends \<Rightarrow> bool" where
  "friends_ok s \<longleftrightarrow> rows_ok s \<and> held_ok (fm_held s) \<and> rq_inv (fm_retry s)"

definition rest_ok :: "friends \<Rightarrow> bool" where
  "rest_ok s \<longleftrightarrow> held_ok (fm_held s) \<and> rq_inv (fm_retry s)"

lemma rest_ok_fire [simp]: "rest_ok (fire h s) = rest_ok s"
  by (simp add: rest_ok_def)

lemma rest_ok_irrelevant [simp]:
  "rest_ok (s\<lparr>fm_rows := a\<rparr>) = rest_ok s" "rest_ok (s\<lparr>fm_rows := a, fm_hashes := b\<rparr>) = rest_ok s"
  "rest_ok (s\<lparr>fm_requests := c\<rparr>) = rest_ok s" "rest_ok (s\<lparr>fm_resolving := d\<rparr>) = rest_ok s"
  "rest_ok (s\<lparr>fm_hashes := b\<rparr>) = rest_ok s"
  by (simp_all add: rest_ok_def)

lemma rest_ok_send_raw: "rest_ok s \<Longrightarrow> rest_ok (fst (send_raw w d f s))"
  by (auto simp: send_raw_def rest_ok_def intro: rq_inv_queue split: option.splits)

lemma rest_ok_send [intro]: "rest_ok s \<Longrightarrow> rest_ok (send w d t n s)"
  by (simp add: send_def rest_ok_send_raw)

lemma rest_ok_clear: "rest_ok s \<Longrightarrow> rest_ok (s\<lparr>fm_held := clear_message_requests h (fm_held s)\<rparr>)"
  "rest_ok s \<Longrightarrow> rest_ok (s\<lparr>fm_rows := a, fm_held := clear_message_requests h (fm_held s)\<rparr>)"
  by (simp_all add: rest_ok_def clear_message_requests_def held_ok_subset)

lemma rest_ok_file [intro]: "rest_ok s \<Longrightarrow> rest_ok (file_held_messages w h s)"
  by (auto simp: file_held_messages_def file_message_requests_def take_message_requests_def Let_def
      rest_ok_def clear_message_requests_def held_ok_subset split: prod.splits option.splits)

lemma rest_ok_flush: "rest_ok s \<Longrightarrow> rest_ok (fst (flush_pending w d s))"
proof -
  assume s: "rest_ok s"
  have all: "rest_ok s \<Longrightarrow> rest_ok (fst (send_all (\<lambda>d f s. map_prod id Some (send_raw w d f s)) d es n s))" for es n s
  proof (induction es arbitrary: n s)
    case (Cons e es)
    from Cons.IH [OF rest_ok_send_raw [OF Cons.prems]] show ?case
      by (cases e) (simp add: Let_def map_prod_def case_prod_unfold)
  qed simp
  have "rest_ok (s\<lparr>fm_retry := fst (rq_take (w_now w) d (fm_retry s))\<rparr>)"
    using s rq_inv_take by (auto simp: rest_ok_def)
  then show ?thesis using all by (auto simp: flush_pending_def Let_def split: prod.splits)
qed

lemma rest_ok_drop: "rest_ok s \<Longrightarrow> rest_ok (drop_pending h s)"
  by (simp add: rest_ok_def drop_pending_def clear_message_requests_def held_ok_subset)

lemma rest_ok_evict: "rest_ok s \<Longrightarrow> rest_ok (evict_oldest_pending s)"
proof (induction s rule: evict_oldest_pending.induct)
  case (1 s)
  then show ?case by (subst evict_oldest_pending.simps) (auto split: option.splits intro: rest_ok_drop)
qed

lemma rest_ok_add [intro]: "rest_ok s \<Longrightarrow> rest_ok (fst (add_friend w h nick n s))"
  by (auto simp: add_friend_def Let_def intro!: rest_ok_file rest_ok_send)

lemma rest_ok_accept [intro]: "rest_ok s \<Longrightarrow> rest_ok (fst (accept_friend_request w h nick s))"
  by (auto simp: accept_friend_request_def Let_def intro!: rest_ok_file rest_ok_send)

lemma rest_ok_update [intro]: "rest_ok s \<Longrightarrow> rest_ok (fst (update_friend w h nick n s))"
  by (auto simp: update_friend_def Let_def split: option.splits)

lemma rest_ok_remove [intro]: "rest_ok s \<Longrightarrow> rest_ok (fst (remove_friend h s))"
  by (auto simp: remove_friend_def Let_def rest_ok_def clear_message_requests_def held_ok_subset split: option.splits)

lemma rest_ok_send_request [intro]: "rest_ok s \<Longrightarrow> rest_ok (fst (send_friend_request w h n nick s))"
  by (auto simp: send_friend_request_def Let_def intro!: rest_ok_send)

lemma rest_ok_decline [intro]: "rest_ok s \<Longrightarrow> rest_ok (fst (decline_friend_request w h s))"
  by (auto simp: decline_friend_request_def Let_def intro!: rest_ok_send rest_ok_clear)

lemma rest_ok_cancel [intro]: "rest_ok s \<Longrightarrow> rest_ok (fst (cancel_friend_request h s))"
  by (simp add: cancel_friend_request_def)

lemma rest_ok_store_held:
  "rest_ok s \<Longrightarrow> length body \<le> MAX_REQUEST_BODY_CHARS \<Longrightarrow>
   rest_ok (s\<lparr>fm_held := add_message_request now h body tc t MAX_HELD_PER_SENDER MAX_HELD_MESSAGES (fm_held s)\<rparr>)"
  by (simp add: rest_ok_def held_ok_add)

lemma rest_ok_hold [intro]: "rest_ok s \<Longrightarrow> rest_ok (fst (hold_message_request w h body tc t s))"
proof -
  assume s: "rest_ok s"
  let ?p = "s\<lparr>fm_held := prune_message_requests (w_now w - MESSAGE_REQUEST_TTL_SECS) (fm_held s)\<rparr>"
  have p: "rest_ok ?p" using s by (simp add: rest_ok_def prune_message_requests_def held_ok_subset)
  let ?e = "evict_oldest_pending ?p"
  have e: "rest_ok (?e\<lparr>fm_rows := upsert_friend (w_now w) h [] [] PENDING_IN (fm_rows ?e)\<rparr>)"
    using rest_ok_evict [OF p] by simp
  have b: "length (take MAX_REQUEST_BODY_CHARS body) \<le> MAX_REQUEST_BODY_CHARS" by simp
  note h = rest_ok_store_held [OF p b] rest_ok_store_held [OF e b]
  then show ?thesis using s by (simp add: hold_message_request_def Let_def)
qed

lemma rest_ok_message [intro]: "rest_ok s \<Longrightarrow> rest_ok (on_friend_message w src fs s)"
proof -
  assume s: "rest_ok s"
  have "rest_ok (handle_request w h fs s)" for h
    using s by (auto simp: handle_request_def Let_def rest_ok_evict intro!: rest_ok_send split: option.splits fstate.splits)
  moreover have "rest_ok (handle_accept h s)" "rest_ok (handle_decline h s)" for h
    using s by (simp_all add: handle_accept_def handle_decline_def)
  ultimately show ?thesis using s by (simp add: on_friend_message_def Let_def)
qed

lemma rest_ok_address [intro]: "rest_ok s \<Longrightarrow> rest_ok (fst (add_lxmf_address w a nick n s))"
  by (auto simp: add_lxmf_address_def Let_def split: option.splits)

lemma rest_ok_tick [intro]: "rest_ok s \<Longrightarrow> rest_ok (tick w s)"
proof -
  have one: "rest_ok s \<Longrightarrow> rest_ok (resolve_one w x s)" for x s
    by (cases x) (auto simp: resolve_one_def Let_def intro!: rest_ok_add split: option.splits)
  have "rest_ok s \<Longrightarrow> rest_ok (fold (resolve_one w) xs s)" for xs
    by (induction xs arbitrary: s) (auto intro: one)
  then show "rest_ok s \<Longrightarrow> rest_ok (tick w s)" by (simp add: tick_def)
qed

lemma rest_ok_presence [intro]:
  "rest_ok s \<Longrightarrow> rest_ok (record_seen w h s)" "rest_ok s \<Longrightarrow> rest_ok (record_presence h online s)"
  by (auto simp: record_seen_def record_presence_def Let_def rest_ok_def)

section \<open>Histories\<close>

text \<open>Everything that can happen to the manager: what the user asks for, what the network
  delivers, the timer, presence, and a restart, which reloads the set from the table.\<close>

datatype friends_event =
    AddFriend hexid string string
  | UpdateFriend hexid "string option" "string option"
  | RemoveFriend hexid
  | AddAddress string string string
  | SendRequest hexid string string
  | AcceptRequest hexid string
  | DeclineRequest hexid
  | CancelRequest hexid
  | Tick
  | HoldWords hexid string bool "secs option"
  | Inbound bytes fields
  | PathFound hexid
  | Seen hexid
  | Presence hexid bool
  | Restart

fun friends_step :: "world \<times> friends_event \<Rightarrow> friends \<Rightarrow> friends" where
  "friends_step (w, AddFriend h nick n) s = fst (add_friend w h nick n s)"
| "friends_step (w, UpdateFriend h nick n) s = fst (update_friend w h nick n s)"
| "friends_step (w, RemoveFriend h) s = fst (remove_friend h s)"
| "friends_step (w, AddAddress a nick n) s = fst (add_lxmf_address w a nick n s)"
| "friends_step (w, SendRequest h n nick) s = fst (send_friend_request w h n nick s)"
| "friends_step (w, AcceptRequest h nick) s = fst (accept_friend_request w h nick s)"
| "friends_step (w, DeclineRequest h) s = fst (decline_friend_request w h s)"
| "friends_step (w, CancelRequest h) s = fst (cancel_friend_request h s)"
| "friends_step (w, Tick) s = tick w s"
| "friends_step (w, HoldWords h body tc t) s = fst (hold_message_request w h body tc t s)"
| "friends_step (w, Inbound src fs) s = on_friend_message w src fs s"
| "friends_step (w, PathFound h) s = fst (flush_pending w h s)"
| "friends_step (w, Seen h) s = record_seen w h s"
| "friends_step (w, Presence h online) s = record_presence h online s"
| "friends_step (w, Restart) s = new_friends (fm_self s) (fm_rows s) (fm_held s) (fm_convs s)"

lemma friends_ok_step: "friends_ok s \<Longrightarrow> friends_ok (friends_step e s)"
proof -
  assume "friends_ok s"
  then have r: "rows_ok s" and q: "rest_ok s" by (simp_all add: friends_ok_def rest_ok_def)
  obtain w a where e: "e = (w, a)" by (cases e)
  have "rows_ok (new_friends (fm_self s) (fm_rows s) (fm_held s) (fm_convs s))"
    using r by (simp add: rows_ok_def new_friends_def friend_hashes_iff)
  then have "rows_ok (friends_step e s)" using r by (cases a) (auto simp: e intro!: inv_intros)
  moreover have "rest_ok (friends_step e s)"
    using q by (cases a) (auto simp: e intro: rest_ok_flush, simp add: rest_ok_def new_friends_def rq_inv_new)
  ultimately show ?thesis by (simp add: friends_ok_def rest_ok_def)
qed

definition fresh_friends :: "hexid \<Rightarrow> friends" where
  "fresh_friends self = new_friends self [] [] []"

lemma friends_ok_init: "friends_ok (fresh_friends self)"
  by (simp add: friends_ok_def fresh_friends_def new_friends_def rows_ok_def held_ok_def rq_inv_new unique_key_def
      get_friend_hashes_def get_friend_state_def count_friends_in_state_def)

interpretation contacts: machine "fresh_friends self" friends_step friends_ok for self
  by unfold_locales (simp_all add: friends_ok_init friends_ok_step)

section \<open>Friendship needs our consent\<close>

text \<open>The contact is one we trust or have asked.\<close>

definition chosen :: "hexid \<Rightarrow> friends \<Rightarrow> bool" where
  "chosen p s \<longleftrightarrow> get_friend_state (fm_rows s) p \<in> {Some ACCEPTED, Some PENDING_OUT}"

lemma chosen_irrelevant [simp]:
  "chosen p (fire h s) = chosen p s" "chosen p (send w d t n s) = chosen p s"
  "chosen p (file_held_messages w h s) = chosen p s"
  by (simp_all add: chosen_def)

lemma chosen_add: "chosen p (fst (add_friend w h nick n s)) \<Longrightarrow> \<not> chosen p s \<Longrightarrow> p = h"
  by (auto simp: add_friend_def Let_def chosen_def split: if_splits)

lemma chosen_accept: "chosen p (fst (accept_friend_request w h nick s)) \<Longrightarrow> \<not> chosen p s \<Longrightarrow> p = h"
  by (auto simp: accept_friend_request_def Let_def chosen_def split: if_splits)

lemma chosen_send_request: "chosen p (fst (send_friend_request w h n nick s)) \<Longrightarrow> \<not> chosen p s \<Longrightarrow> p = h"
  using chosen_accept [of p w h nick s]
  by (auto simp: send_friend_request_def Let_def split: if_splits) (auto simp: chosen_def split: if_splits)

lemma chosen_update: "chosen p (fst (update_friend w h nick n s)) = chosen p s"
  by (auto simp: update_friend_def Let_def chosen_def get_friend_known split: option.splits)

lemma chosen_evict:
  assumes "rows_ok s" "\<not> chosen p s"
  shows "\<not> chosen p ((evict_oldest_pending s)\<lparr>fm_rows :=
    upsert_friend now h nick n PENDING_IN (fm_rows (evict_oldest_pending s))\<rparr>)"
  using evict_state [OF assms(1), of p] assms(2) by (auto simp: chosen_def)

lemma chosen_hold: "rows_ok s \<Longrightarrow> chosen p (fst (hold_message_request w h body tc t s)) \<Longrightarrow> chosen p s"
proof (rule ccontr)
  assume a: "rows_ok s" "chosen p (fst (hold_message_request w h body tc t s))" "\<not> chosen p s"
  let ?p = "s\<lparr>fm_held := prune_message_requests (w_now w - MESSAGE_REQUEST_TTL_SECS) (fm_held s)\<rparr>"
  have "\<not> chosen p ((evict_oldest_pending ?p)\<lparr>fm_rows :=
    upsert_friend (w_now w) h [] [] PENDING_IN (fm_rows (evict_oldest_pending ?p))\<rparr>)"
    by (rule chosen_evict) (use a in \<open>simp_all add: chosen_def\<close>)
  with a show False by (auto simp: hold_message_request_def Let_def chosen_def split: if_splits)
qed

lemma chosen_message: "rows_ok s \<Longrightarrow> chosen p (on_friend_message w src fs s) \<Longrightarrow> chosen p s"
proof -
  assume r: "rows_ok s" and c: "chosen p (on_friend_message w src fs s)"
  have "chosen p (handle_request w h fs s) \<Longrightarrow> chosen p s" for h
    using chosen_evict [OF r, of p "w_now w" h "[]"]
    by (auto simp: handle_request_def Let_def split: option.splits fstate.splits) (auto simp: chosen_def split: if_splits)
  moreover have "chosen p (handle_accept h s) \<Longrightarrow> chosen p s" "chosen p (handle_decline h s) \<Longrightarrow> chosen p s" for h
    by (auto simp: handle_accept_def handle_decline_def chosen_def split: if_splits)
  ultimately show ?thesis using c by (auto simp: on_friend_message_def Let_def split: if_splits)
qed

lemma chosen_resolve:
  "chosen p (resolve_one w x s) \<Longrightarrow> \<not> chosen p s \<Longrightarrow> w_address w (fst x) = Some p"
  by (cases x) (auto simp: resolve_one_def Let_def chosen_def [of p "s\<lparr>fm_resolving := _\<rparr>"] chosen_def [of p s]
      split: option.splits if_splits dest!: chosen_add)

lemma chosen_tick:
  assumes "chosen p (tick w s)" "\<not> chosen p s"
  shows "\<exists>a \<in> fst ` set (fm_resolving s). w_address w a = Some p"
proof -
  have "chosen p (fold (resolve_one w) xs s) \<Longrightarrow> \<not> chosen p s \<Longrightarrow> \<exists>a \<in> fst ` set xs. w_address w a = Some p" for xs
  proof (induction xs arbitrary: s)
    case (Cons x xs)
    then show ?case by (cases "chosen p (resolve_one w x s)") (auto dest: chosen_resolve)
  qed simp
  then show ?thesis using assms by (simp add: tick_def)
qed

text \<open>The user asked for this contact, by its identity or by an address that resolved to it.\<close>

definition asked_for :: "hexid \<Rightarrow> (world \<times> friends_event) list \<Rightarrow> bool" where
  "asked_for p es \<longleftrightarrow>
     (\<exists>w nick n. (w, AddFriend p nick n) \<in> set es \<or> (w, SendRequest p n nick) \<in> set es \<or> (w, AcceptRequest p nick) \<in> set es)
     \<or> (\<exists>w a nick n w' e. (w, AddAddress a nick n) \<in> set es \<and> (w', e) \<in> set es \<and> w_address w' (address_key a) = Some p)"

lemma chosen_step:
  assumes "friends_ok s" "\<not> chosen p s" "chosen p (friends_step (w, e) s)"
  shows "(\<exists>nick n. e = AddFriend p nick n \<or> e = SendRequest p n nick \<or> e = AcceptRequest p nick)
    \<or> (\<exists>a nick n. e = AddAddress a nick n \<and> w_address w (address_key a) = Some p)
    \<or> (e = Tick \<and> (\<exists>a \<in> fst ` set (fm_resolving s). w_address w a = Some p))"
proof -
  have r: "rows_ok s" using assms(1) by (simp add: friends_ok_def)
  have addr: "w_address w (address_key a) = Some p" if "chosen p (fst (add_lxmf_address w a nick n s))" for a nick n
    using that assms(2) by (auto simp: add_lxmf_address_def Let_def chosen_def [of p "s\<lparr>fm_resolving := _\<rparr>"] chosen_def [of p s]
        split: option.splits if_splits dest!: chosen_add)
  show ?thesis
  proof (cases e)
    case (RemoveFriend h)
    then show ?thesis using assms by (auto simp: remove_friend_def chosen_def split: option.splits if_splits)
  next
    case (DeclineRequest h)
    then show ?thesis using assms by (auto simp: decline_friend_request_def Let_def chosen_def split: if_splits)
  next
    case (CancelRequest h)
    then show ?thesis using assms by (auto simp: cancel_friend_request_def chosen_def split: if_splits)
  next
    case (PathFound h)
    then show ?thesis using assms by (auto simp: chosen_def)
  next
    case (Seen h)
    then show ?thesis using assms by (auto simp: record_seen_def Let_def chosen_def split: if_splits)
  next
    case (Presence h x)
    then show ?thesis using assms by (auto simp: record_presence_def Let_def chosen_def split: if_splits)
  next
    case Restart
    then show ?thesis using assms by (auto simp: new_friends_def chosen_def)
  qed (use assms r in \<open>auto dest: chosen_add chosen_accept chosen_send_request chosen_hold chosen_message chosen_tick addr
        simp: chosen_update\<close>)
qed

lemma resolving_step:
  assumes "a \<notin> fst ` set (fm_resolving s)" "a \<in> fst ` set (fm_resolving (friends_step (w, e) s))"
  shows "\<exists>b nick n. e = AddAddress b nick n \<and> address_key b = a"
proof -
  have add: "fm_resolving (fst (add_friend w h nick n s)) = fm_resolving s" for h nick n and s :: friends
    by (simp add: add_friend_def Let_def)
  have acc: "fm_resolving (fst (accept_friend_request w h nick s)) = fm_resolving s" for h nick
    by (simp add: accept_friend_request_def Let_def)
  have del: "fst ` set (AList.delete k d) \<subseteq> fst ` set d" for k and d :: "(hexid \<times> string \<times> string) list"
    by (rule dom_delete_subset)
  have evict: "fm_resolving (evict_oldest_pending s) = fm_resolving s" for s
  proof (induction s rule: evict_oldest_pending.induct)
    case (1 s)
    then show ?case by (subst evict_oldest_pending.simps) (auto split: option.splits simp: drop_pending_def)
  qed
  have one: "fst ` set (fm_resolving (resolve_one w x s)) \<subseteq> fst ` set (fm_resolving s)" for x s
    using del by (cases x) (auto simp: resolve_one_def Let_def add split: option.splits if_splits dest: subsetD)
  have "fst ` set (fm_resolving (fold (resolve_one w) xs s)) \<subseteq> fst ` set (fm_resolving s)" for xs s
  proof (induction xs arbitrary: s)
    case (Cons x xs)
    from order.trans [OF Cons one [of x s]] show ?case by simp
  qed simp
  then have tick: "fst ` set (fm_resolving (tick w s)) \<subseteq> fst ` set (fm_resolving s)" by (simp add: tick_def)
  show ?thesis
  proof (cases e)
    case (AddAddress b nick n)
    then show ?thesis using assms by (auto simp: add_lxmf_address_def Let_def add dom_update split: option.splits if_splits)
  next
    case Tick
    then show ?thesis using assms tick by auto
  next
    case (Inbound src fs)
    then show ?thesis using assms
      by (auto simp: on_friend_message_def handle_request_def handle_accept_def handle_decline_def Let_def evict
          split: if_splits option.splits fstate.splits)
  qed (use assms in \<open>auto simp: add acc update_friend_def remove_friend_def send_friend_request_def decline_friend_request_def
      cancel_friend_request_def hold_message_request_def record_seen_def record_presence_def new_friends_def Let_def evict
      split: option.splits if_splits\<close>)
qed

text \<open>C33. Nothing that arrives from the network, in any order, makes anyone a friend: after any
  history of a fresh install, whoever passes the gate for direct messages is someone the user
  added, asked or accepted, or reached by an address the user gave that resolved to them.\<close>

theorem friendship_needs_consent:
  assumes "is_friend (fold friends_step es (fresh_friends self)) p"
  shows "asked_for p es"
proof -
  let ?s = "fold friends_step es (fresh_friends self)"
  have "rows_ok ?s" using contacts.inv_run [of es self] by (simp add: friends_ok_def)
  then have "chosen p ?s" using assms by (simp add: rows_ok_def is_friend_def chosen_def)
  moreover have "\<not> chosen p (fresh_friends self)"
    by (simp add: chosen_def fresh_friends_def new_friends_def get_friend_state_def)
  ultimately obtain pre w e post where es: "es = pre @ (w, e) # post"
    and before: "\<not> chosen p (fold friends_step pre (fresh_friends self))"
    and after_step: "chosen p (friends_step (w, e) (fold friends_step pre (fresh_friends self)))"
    using contacts.first_cause [of "chosen p" self es] by (metis prod.exhaust)
  let ?t = "fold friends_step pre (fresh_friends self)"
  from chosen_step [OF contacts.inv_run before after_step]
  consider "\<exists>nick n. e = AddFriend p nick n \<or> e = SendRequest p n nick \<or> e = AcceptRequest p nick"
    | a nick n where "e = AddAddress a nick n" "w_address w (address_key a) = Some p"
    | a where "e = Tick" "a \<in> fst ` set (fm_resolving ?t)" "w_address w a = Some p" by blast
  then show ?thesis
  proof cases
    case 1
    then show ?thesis unfolding asked_for_def es by auto
  next
    case (2 a nick n)
    then have "(w, AddAddress a nick n) \<in> set es" by (simp add: es)
    then show ?thesis using 2(2) unfolding asked_for_def by blast
  next
    case (3 a)
    have "a \<notin> fst ` set (fm_resolving (fresh_friends self))" by (simp add: fresh_friends_def new_friends_def)
    then obtain pre' w' e' post' where pre: "pre = pre' @ (w', e') # post'"
      and "a \<notin> fst ` set (fm_resolving (fold friends_step pre' (fresh_friends self)))"
      and "a \<in> fst ` set (fm_resolving (friends_step (w', e') (fold friends_step pre' (fresh_friends self))))"
      using contacts.first_cause [of "\<lambda>s. a \<in> fst ` set (fm_resolving s)" self pre] 3(2) by (metis prod.exhaust)
    then obtain b nick n where "e' = AddAddress b nick n" "address_key b = a" using resolving_step by blast
    then have "(w', AddAddress b nick n) \<in> set es" "(w, e) \<in> set es" "w_address w (address_key b) = Some p"
      using 3 by (simp_all add: es pre)
    then show ?thesis unfolding asked_for_def by blast
  qed
qed

text \<open>A world for concrete runs: no path to anyone, text decoded byte by byte.\<close>

definition still_world :: world where
  "still_world = \<lparr>w_now = 100, w_router = True, w_identity = True, w_filer = True, w_display_name = ''me'',
     w_path = (\<lambda>_. False), w_sends = (\<lambda>_ _. True), w_address = (\<lambda>_. None), w_source = (\<lambda>_. None),
     w_decode = map (char_of o unat), w_repr = (\<lambda>_. []), w_sha = (\<lambda>b. b), w_width = 16\<rparr>"

abbreviation peer_hex :: hexid where "peer_hex \<equiv> to_hex (replicate 16 7)"

lemma peer_hex_valid: "is_valid_hash peer_hex"
  by (simp add: is_valid_hash_def IDENTITY_HASH_HEX_LEN_def)

theorem friendship_needs_consent_witness:
  "asked_for peer_hex [(still_world, AddFriend peer_hex [] []), (still_world, Seen peer_hex)]"
proof (rule friendship_needs_consent [where self = "[]"])
  have "peer_hex \<noteq> []" by (metis length_greater_0_conv length_to_hex length_replicate zero_less_numeral mult_pos_pos)
  then show "is_friend (fold friends_step [(still_world, AddFriend peer_hex [] []), (still_world, Seen peer_hex)] (fresh_friends [])) peer_hex"
    using peer_hex_valid
    by (simp add: is_friend_def add_friend_def record_seen_def Let_def fresh_friends_def new_friends_def)
qed

text \<open>The store stays bounded and consistent through any history: the set the gate reads is
  exactly the accepted rows of the table, at most 64 requests wait on the user, and at most 3
  messages of one stranger and 128 in all are held, each capped in length.\<close>

theorem friends_store_bounded:
  "let s = fold friends_step es (fresh_friends self)
   in fm_hashes s = get_friend_hashes (fm_rows s)
      \<and> count_friends_in_state PENDING_IN (fm_rows s) \<le> MAX_PENDING_FRIEND_REQUESTS
      \<and> length (fm_held s) \<le> MAX_HELD_MESSAGES
      \<and> length (get_message_requests h (fm_held s)) \<le> MAX_HELD_PER_SENDER
      \<and> list_all (\<lambda>m. length (mq_body m) \<le> MAX_REQUEST_BODY_CHARS) (fm_held s)"
proof -
  have "friends_ok (fold friends_step es (fresh_friends self))" by (rule contacts.inv_run)
  then show ?thesis
    by (simp add: Let_def friends_ok_def rows_ok_def held_ok_def get_message_requests_def set_eq_iff friend_hashes_iff)
qed

text \<open>When a peer we asked answers with an accept, the words it sent before are not filed:
  it becomes a friend, and what was held of it stays held, outside any conversation.\<close>

theorem accept_strands_held_words:
  assumes "get_friend_state (fm_rows s) h = Some PENDING_OUT"
    and "is_valid_hash h" and "h \<noteq> fm_self s"
    and "sender_hex w src = h" and "message_type w fs = PStr MT_FRIEND_ACCEPT"
  shows "is_friend (on_friend_message w src fs s) h
    \<and> fm_held (on_friend_message w src fs s) = fm_held s
    \<and> fm_filed (on_friend_message w src fs s) = fm_filed s
    \<and> fm_convs (on_friend_message w src fs s) = fm_convs s"
  using assms by (simp add: on_friend_message_def Let_def handle_accept_def is_friend_def)

theorem accept_strands_held_words_witness:
  "\<exists>s. fm_held s \<noteq> [] \<and> fm_held (on_friend_message still_world (replicate 16 7) [(PInt F_MSG_TYPE, PStr MT_FRIEND_ACCEPT)] s) = fm_held s
     \<and> is_friend (on_friend_message still_world (replicate 16 7) [(PInt F_MSG_TYPE, PStr MT_FRIEND_ACCEPT)] s) peer_hex"
proof -
  let ?s = "fst (hold_message_request still_world peer_hex ''hi'' True None
              (fst (send_friend_request still_world peer_hex [] [] (fresh_friends []))))"
  have ne: "peer_hex \<noteq> []" by (metis length_greater_0_conv length_to_hex length_replicate zero_less_numeral mult_pos_pos)
  have st: "get_friend_state (fm_rows ?s) peer_hex = Some PENDING_OUT" and self: "fm_self ?s = []"
    using peer_hex_valid ne
    by (simp_all add: send_friend_request_def hold_message_request_def Let_def fresh_friends_def new_friends_def
        get_friend_state_def [of "[]"])
  have held: "fm_held ?s \<noteq> []"
    using peer_hex_valid ne
    by (simp add: send_friend_request_def hold_message_request_def Let_def fresh_friends_def new_friends_def
        get_friend_state_def [of "[]"] add_message_request_def prune_message_requests_def delete_where_def newest_ids_def
        MAX_HELD_PER_SENDER_def MAX_HELD_MESSAGES_def)
  have "sender_hex still_world (replicate 16 7) = peer_hex"
    by (simp add: sender_hex_def still_world_def)
  moreover have "message_type still_world [(PInt F_MSG_TYPE, PStr MT_FRIEND_ACCEPT)] = PStr MT_FRIEND_ACCEPT"
    by (simp add: message_type_def field_get_def get_or_def)
  ultimately have "is_friend (on_friend_message still_world (replicate 16 7) [(PInt F_MSG_TYPE, PStr MT_FRIEND_ACCEPT)] ?s) peer_hex
    \<and> fm_held (on_friend_message still_world (replicate 16 7) [(PInt F_MSG_TYPE, PStr MT_FRIEND_ACCEPT)] ?s) = fm_held ?s"
    using accept_strands_held_words [OF st peer_hex_valid] ne self by metis
  then show ?thesis using held by blast
qed

end
