(* ===== verification/Sync_Status.thy ===== *)
theory Sync_Status
  imports Contracts
begin

text \<open>
  \<^verbatim>\<open>trenchchat/core/sync_status.py\<close>: what each channel has asked of whom and what came back,
  and the state shown for it. \<^verbatim>\<open>time.time()\<close> is the argument \<open>now\<close>; the channels the callbacks
  are fired for are recorded in \<open>tr_fired\<close>. \<^verbatim>\<open>get_status\<close>, which reads the last sync time from
  storage for display, is left out.
\<close>

definition PEER_RESPONSE_TIMEOUT_SECS :: secs where "PEER_RESPONSE_TIMEOUT_SECS = 300"

datatype sync_state = UNKNOWN | SYNCING | SYNCED | INCOMPLETE | WAITING
datatype peer_sync_state = PENDING | ANSWERED | SILENT | UNREACHABLE

record peer_record =
  ps_state :: peer_sync_state
  ps_requested_at :: secs
  ps_received :: int
  ps_rejected :: int
  ps_truncated :: bool

record channel_record =
  ch_peers :: "(hexid \<times> peer_record) list"
  ch_gap :: bool
  ch_received :: int
  ch_attempted :: bool

record tracker =
  tr_channels :: "(hexid \<times> channel_record) list"
  tr_fired :: "hexid list"

definition new_peer_record :: peer_record where
  "new_peer_record = \<lparr>ps_state = PENDING, ps_requested_at = 0, ps_received = 0, ps_rejected = 0, ps_truncated = False\<rparr>"

definition new_channel_record :: channel_record where
  "new_channel_record = \<lparr>ch_peers = [], ch_gap = False, ch_received = 0, ch_attempted = False\<rparr>"

definition new_tracker :: tracker where
  "new_tracker = \<lparr>tr_channels = [], tr_fired = []\<rparr>"

section \<open>The state of a channel\<close>

definition derive :: "channel_record option \<Rightarrow> sync_state" where
  "derive rec_opt =
     (case rec_opt of
        None \<Rightarrow> UNKNOWN
      | Some c \<Rightarrow>
          if ch_peers c = []
          then (if ch_gap c then INCOMPLETE else if ch_attempted c then WAITING else UNKNOWN)
          else let states = map (ps_state o snd) (ch_peers c)
               in if PENDING \<in> set states then SYNCING
                  else if ch_gap c \<or> list_ex (ps_truncated o snd) (ch_peers c) then INCOMPLETE
                  else if ANSWERED \<in> set states \<and> list_all (\<lambda>s. s \<in> {ANSWERED, UNREACHABLE}) states then SYNCED
                  else WAITING)"

definition get_state :: "tracker \<Rightarrow> hexid \<Rightarrow> sync_state" where
  "get_state t ch = derive (map_of (tr_channels t) ch)"

definition has_gap :: "tracker \<Rightarrow> hexid \<Rightarrow> bool" where
  "has_gap t ch = (case map_of (tr_channels t) ch of None \<Rightarrow> False | Some c \<Rightarrow> ch_gap c)"

type_synonym snapshot = "sync_state \<times> (hexid \<times> peer_sync_state \<times> int \<times> bool) list \<times> bool \<times> int"

definition snapshot_of :: "channel_record option \<Rightarrow> snapshot" where
  "snapshot_of rec_opt =
     (case rec_opt of
        None \<Rightarrow> (UNKNOWN, [], False, 0)
      | Some c \<Rightarrow>
          (derive (Some c),
           map (\<lambda>(h, p). (h, ps_state p, ps_received p, ps_truncated p)) (sort_key fst (ch_peers c)),
           ch_gap c, ch_received c))"

section \<open>Operations\<close>

text \<open>What the calls share: fetch or create the record, change it, and fire the callbacks when
  the summary of the channel changed.\<close>

definition change_channel :: "hexid \<Rightarrow> (channel_record \<Rightarrow> channel_record) \<Rightarrow> tracker \<Rightarrow> tracker" where
  "change_channel ch f t =
     (let before = snapshot_of (map_of (tr_channels t) ch);
          c = f (get_or new_channel_record (tr_channels t) ch);
          changed = (before \<noteq> snapshot_of (Some c))
      in \<lparr>tr_channels = AList.update ch c (tr_channels t),
          tr_fired = (if changed then tr_fired t @ [ch] else tr_fired t)\<rparr>)"

definition change_peer :: "hexid \<Rightarrow> (peer_record \<Rightarrow> peer_record) \<Rightarrow> channel_record \<Rightarrow> channel_record" where
  "change_peer peer f c = c\<lparr>ch_peers := AList.update peer (f (get_or new_peer_record (ch_peers c) peer)) (ch_peers c)\<rparr>"

definition note_no_peers :: "hexid \<Rightarrow> tracker \<Rightarrow> tracker" where
  "note_no_peers ch = change_channel ch (\<lambda>c. c\<lparr>ch_attempted := True\<rparr>)"

text \<open>Whether a request is a routine re-check, which leaves the reported state alone. The record
  consulted already holds the peer: a peer not asked before is pending in it.\<close>

definition quiet_request :: "bool \<Rightarrow> bool \<Rightarrow> hexid \<Rightarrow> channel_record \<Rightarrow> bool" where
  "quiet_request continuation reaching_back peer c =
     (\<not> continuation \<and> \<not> reaching_back
      \<and> ps_state (get_or new_peer_record (ch_peers c) peer) = ANSWERED
      \<and> derive (Some (change_peer peer id c)) = SYNCED)"

definition request_sent :: "secs \<Rightarrow> hexid \<Rightarrow> hexid \<Rightarrow> bool \<Rightarrow> bool \<Rightarrow> tracker \<Rightarrow> tracker" where
  "request_sent now ch peer continuation reaching_back =
     change_channel ch
       (\<lambda>c. let c = c\<lparr>ch_attempted := True\<rparr>
            in if quiet_request continuation reaching_back peer c
               then change_peer peer (\<lambda>p. p\<lparr>ps_requested_at := now\<rparr>) c
               else change_peer peer (\<lambda>p. p\<lparr>ps_requested_at := now, ps_state := PENDING, ps_truncated := False\<rparr>) c)"

definition request_unreachable :: "hexid \<Rightarrow> hexid \<Rightarrow> tracker \<Rightarrow> tracker" where
  "request_unreachable ch peer =
     change_channel ch (\<lambda>c. change_peer peer (\<lambda>p. p\<lparr>ps_state := UNREACHABLE\<rparr>) (c\<lparr>ch_attempted := True\<rparr>))"

definition response_received :: "hexid \<Rightarrow> hexid \<Rightarrow> int \<Rightarrow> int \<Rightarrow> bool \<Rightarrow> int \<Rightarrow> tracker \<Rightarrow> tracker" where
  "response_received ch peer received inserted truncated rejected =
     change_channel ch
       (\<lambda>c. let c = change_peer peer (\<lambda>p. p\<lparr>ps_state := ANSWERED, ps_received := ps_received p + received,
                       ps_rejected := ps_rejected p + rejected, ps_truncated := truncated\<rparr>) c;
                c = c\<lparr>ch_received := ch_received c + inserted\<rparr>
            in if rejected \<noteq> 0 then c\<lparr>ch_gap := True\<rparr> else c)"

definition response_malformed :: "hexid \<Rightarrow> hexid \<Rightarrow> tracker \<Rightarrow> tracker" where
  "response_malformed ch peer = change_channel ch (change_peer peer (\<lambda>p. p\<lparr>ps_state := SILENT\<rparr>))"

definition set_gap :: "hexid \<Rightarrow> bool \<Rightarrow> tracker \<Rightarrow> tracker" where
  "set_gap ch present t =
     (case map_of (tr_channels t) ch of
        None \<Rightarrow>
          if \<not> present then t
          else \<lparr>tr_channels = AList.update ch (new_channel_record\<lparr>ch_gap := True\<rparr>) (tr_channels t),
                tr_fired = tr_fired t @ [ch]\<rparr>
      | Some c \<Rightarrow>
          if ch_gap c = present then t
          else \<lparr>tr_channels = AList.update ch (c\<lparr>ch_gap := present\<rparr>) (tr_channels t),
                tr_fired = tr_fired t @ [ch]\<rparr>)"

definition note_gap :: "hexid \<Rightarrow> tracker \<Rightarrow> tracker" where
  "note_gap ch = set_gap ch True"

definition clear_gap :: "hexid \<Rightarrow> tracker \<Rightarrow> tracker" where
  "clear_gap ch = set_gap ch False"

definition expire_peer :: "secs \<Rightarrow> peer_record \<Rightarrow> peer_record" where
  "expire_peer now p =
     (if ps_state p = PENDING \<and> now - ps_requested_at p > PEER_RESPONSE_TIMEOUT_SECS
      then p\<lparr>ps_state := SILENT\<rparr> else p)"

definition expire_channel :: "secs \<Rightarrow> channel_record \<Rightarrow> channel_record" where
  "expire_channel now c = c\<lparr>ch_peers := map (apsnd (expire_peer now)) (ch_peers c)\<rparr>"

definition prune_tracker :: "secs \<Rightarrow> tracker \<Rightarrow> tracker" where
  "prune_tracker now t =
     \<lparr>tr_channels = map (apsnd (expire_channel now)) (tr_channels t),
      tr_fired = tr_fired t @ map fst (filter (\<lambda>(ch, c). snapshot_of (Some c) \<noteq> snapshot_of (Some (expire_channel now c)))
                                         (tr_channels t))\<rparr>"

lemmas tracker_ops = note_no_peers_def request_sent_def request_unreachable_def response_received_def
  response_malformed_def note_gap_def clear_gap_def

section \<open>What SYNCED means\<close>

lemma derive_synced_iff:
  "derive (Some c) = SYNCED \<longleftrightarrow>
     \<not> ch_gap c \<and> (\<exists>h p. (h, p) \<in> set (ch_peers c) \<and> ps_state p = ANSWERED)
     \<and> (\<forall>(h, p) \<in> set (ch_peers c). ps_state p \<in> {ANSWERED, UNREACHABLE} \<and> \<not> ps_truncated p)"
proof -
  have "derive (Some c) = SYNCED \<longleftrightarrow> ch_peers c \<noteq> [] \<and> PENDING \<notin> ps_state ` snd ` set (ch_peers c)
      \<and> \<not> ch_gap c \<and> \<not> list_ex (ps_truncated o snd) (ch_peers c)
      \<and> ANSWERED \<in> ps_state ` snd ` set (ch_peers c)
      \<and> (\<forall>x \<in> set (ch_peers c). ps_state (snd x) \<in> {ANSWERED, UNREACHABLE})"
    by (auto simp: derive_def Let_def list_all_iff image_image)
  also have "\<dots> \<longleftrightarrow> \<not> ch_gap c \<and> (\<exists>h p. (h, p) \<in> set (ch_peers c) \<and> ps_state p = ANSWERED)
     \<and> (\<forall>(h, p) \<in> set (ch_peers c). ps_state p \<in> {ANSWERED, UNREACHABLE} \<and> \<not> ps_truncated p)"
    by (force simp: list_ex_iff image_iff)
  finally show ?thesis .
qed

text \<open>The events of a channel's life.\<close>

datatype sync_event =
    NoPeers hexid
  | RequestSent secs hexid hexid bool bool
  | RequestUnreachable hexid hexid
  | ResponseReceived hexid hexid int int bool int
  | ResponseMalformed hexid hexid
  | NoteGap hexid
  | ClearGap hexid
  | Prune secs

fun tracker_step :: "sync_event \<Rightarrow> tracker \<Rightarrow> tracker" where
  "tracker_step (NoPeers ch) t = note_no_peers ch t"
| "tracker_step (RequestSent now ch peer cont back) t = request_sent now ch peer cont back t"
| "tracker_step (RequestUnreachable ch peer) t = request_unreachable ch peer t"
| "tracker_step (ResponseReceived ch peer received inserted trunc rejected) t =
     response_received ch peer received inserted trunc rejected t"
| "tracker_step (ResponseMalformed ch peer) t = response_malformed ch peer t"
| "tracker_step (NoteGap ch) t = note_gap ch t"
| "tracker_step (ClearGap ch) t = clear_gap ch t"
| "tracker_step (Prune now) t = prune_tracker now t"

definition channel_of :: "tracker \<Rightarrow> hexid \<Rightarrow> channel_record option" where
  "channel_of t ch = map_of (tr_channels t) ch"

definition peer_of :: "tracker \<Rightarrow> hexid \<Rightarrow> hexid \<Rightarrow> peer_record option" where
  "peer_of t ch peer = (case map_of (tr_channels t) ch of None \<Rightarrow> None | Some c \<Rightarrow> map_of (ch_peers c) peer)"

lemma map_of_apsnd: "map_of (map (apsnd f) al) k = map_option f (map_of al k)"
  by (induction al) auto

lemma channel_change [simp]:
  "channel_of (change_channel ch f t) ch' =
    (if ch' = ch then Some (f (case channel_of t ch of None \<Rightarrow> new_channel_record | Some c \<Rightarrow> c)) else channel_of t ch')"
  by (auto simp: change_channel_def Let_def channel_of_def get_or_def)

lemma channel_set_gap [simp]:
  "channel_of (set_gap ch b t) ch' =
    (if ch' = ch then (case channel_of t ch of None \<Rightarrow> (if b then Some (new_channel_record\<lparr>ch_gap := True\<rparr>) else None)
                        | Some c \<Rightarrow> Some (c\<lparr>ch_gap := b\<rparr>))
     else channel_of t ch')"
  by (auto simp: set_gap_def channel_of_def split: option.splits)

lemma channel_prune [simp]: "channel_of (prune_tracker now t) ch = map_option (expire_channel now) (channel_of t ch)"
  by (simp add: prune_tracker_def channel_of_def map_of_apsnd)

lemma peers_change [simp]:
  "map_of (ch_peers (change_peer peer f c)) h =
    (if h = peer then Some (f (case map_of (ch_peers c) peer of None \<Rightarrow> new_peer_record | Some p \<Rightarrow> p))
     else map_of (ch_peers c) h)"
  by (simp add: change_peer_def get_or_def split: option.splits)

lemma change_peer_gap [simp]: "ch_gap (change_peer peer f c) = ch_gap c"
  by (simp add: change_peer_def)

lemma peers_expire [simp]:
  "map_of (ch_peers (expire_channel now c)) h = map_option (expire_peer now) (map_of (ch_peers c) h)"
  by (simp add: expire_channel_def map_of_apsnd)

lemma peer_of_channel: "peer_of t ch h = (case channel_of t ch of None \<Rightarrow> None | Some c \<Rightarrow> map_of (ch_peers c) h)"
  by (simp add: peer_of_def channel_of_def)

lemma new_channel_peers [simp]: "ch_peers new_channel_record = []" "ch_gap new_channel_record = False"
  by (simp_all add: new_channel_record_def)

text \<open>What a step can leave in a peer's record.\<close>

lemma step_answered:
  assumes "peer_of (tracker_step e t) ch h = Some p" "ps_state p = ANSWERED"
  shows "(\<exists>p'. peer_of t ch h = Some p' \<and> ps_state p' = ANSWERED) \<or> (\<exists>r i tr rej. e = ResponseReceived ch h r i tr rej)"
  using assms
  by (cases e) (auto simp: peer_of_channel tracker_ops Let_def quiet_request_def expire_peer_def new_peer_record_def get_or_def
      split: option.splits if_splits)

lemma step_unreachable:
  assumes "peer_of (tracker_step e t) ch h = Some p" "ps_state p = UNREACHABLE"
  shows "(\<exists>p'. peer_of t ch h = Some p' \<and> ps_state p' = UNREACHABLE) \<or> e = RequestUnreachable ch h"
  using assms
  by (cases e) (auto simp: peer_of_channel tracker_ops Let_def quiet_request_def expire_peer_def new_peer_record_def get_or_def
      split: option.splits if_splits)

lemma step_asked:
  "peer_of t ch h \<noteq> None \<or> (\<exists>now c b. e = RequestSent now ch h c b) \<Longrightarrow> peer_of (tracker_step e t) ch h \<noteq> None"
  by (cases e) (auto simp: peer_of_channel tracker_ops Let_def split: option.splits if_splits)

lemma step_gap:
  "has_gap (tracker_step e t) ch \<longleftrightarrow>
    (has_gap t ch \<and> e \<noteq> ClearGap ch) \<or> e = NoteGap ch
     \<or> (\<exists>h r i tr rej. e = ResponseReceived ch h r i tr rej \<and> rej \<noteq> 0)"
proof -
  have g: "has_gap t ch = (case channel_of t ch of None \<Rightarrow> False | Some c \<Rightarrow> ch_gap c)" for t
    by (simp add: has_gap_def channel_of_def)
  show ?thesis
    by (cases e) (auto simp: g tracker_ops Let_def expire_channel_def split: option.splits if_splits)
qed

definition tracker_inv :: "tracker \<Rightarrow> bool" where
  "tracker_inv t \<longleftrightarrow> (\<forall>ch c. channel_of t ch = Some c \<longrightarrow> distinct (map fst (ch_peers c)))"

lemma distinct_peers_change: "distinct (map fst (ch_peers c)) \<Longrightarrow> distinct (map fst (ch_peers (change_peer h f c)))"
  by (simp add: change_peer_def distinct_keys_update)

lemma tracker_inv_step: "tracker_inv t \<Longrightarrow> tracker_inv (tracker_step e t)"
proof -
  assume t: "tracker_inv t"
  have old: "distinct (map fst (ch_peers (case channel_of t ch of None \<Rightarrow> new_channel_record | Some c \<Rightarrow> c)))" for ch
    using t by (auto simp: tracker_inv_def split: option.splits)
  have apsnd: "map fst (map (apsnd f) xs) = map fst xs" for f :: "peer_record \<Rightarrow> peer_record" and xs :: "(hexid \<times> peer_record) list"
    by (induction xs) auto
  show ?thesis
    by (cases e) (use t old in \<open>auto simp: tracker_inv_def tracker_ops Let_def expire_channel_def apsnd
        split: option.splits if_splits intro!: distinct_peers_change\<close>)
qed

interpretation syncing: machine new_tracker tracker_step tracker_inv
  by unfold_locales (auto simp: tracker_inv_step, simp add: tracker_inv_def channel_of_def new_tracker_def)

section \<open>What a channel shown as up to date has seen\<close>

abbreviation history :: "sync_event list \<Rightarrow> tracker" where
  "history es \<equiv> fold tracker_step es new_tracker"

lemma answered_caused:
  "peer_of (history es) ch h = Some p \<Longrightarrow> ps_state p = ANSWERED \<Longrightarrow> \<exists>r i tr rej. ResponseReceived ch h r i tr rej \<in> set es"
proof (induction es arbitrary: p rule: rev_induct)
  case (snoc e es)
  from step_answered [of e "history es" ch h p] snoc.prems snoc.IH show ?case by (simp, blast)
qed (simp add: peer_of_def new_tracker_def)

lemma unreachable_caused:
  "peer_of (history es) ch h = Some p \<Longrightarrow> ps_state p = UNREACHABLE \<Longrightarrow> RequestUnreachable ch h \<in> set es"
proof (induction es arbitrary: p rule: rev_induct)
  case (snoc e es)
  from step_unreachable [of e "history es" ch h p] snoc.prems snoc.IH show ?case by auto
qed (simp add: peer_of_def new_tracker_def)

lemma asked_recorded: "RequestSent now ch h c b \<in> set es \<Longrightarrow> peer_of (history es) ch h \<noteq> None"
proof (induction es rule: rev_induct)
  case (snoc e es)
  then show ?case using step_asked [of "history es" ch h e] by auto
qed simp

lemma synced_peer:
  assumes "get_state (history es) ch = SYNCED" "peer_of (history es) ch h = Some p"
  shows "ps_state p \<in> {ANSWERED, UNREACHABLE}"
proof -
  obtain c where c: "map_of (tr_channels (history es)) ch = Some c" and p: "map_of (ch_peers c) h = Some p"
    using assms(2) by (auto simp: peer_of_def split: option.splits)
  then show ?thesis using assms(1) map_of_SomeD [OF p] unfolding get_state_def c derive_synced_iff by blast
qed

text \<open>A channel shown as up to date has been answered: some peer responded on it, and every
  peer it was ever asked of has responded or could not be reached. Silence is never taken for
  an answer.\<close>

theorem synced_means_answered:
  assumes "get_state (history es) ch = SYNCED"
  shows "(\<exists>h r i tr rej. ResponseReceived ch h r i tr rej \<in> set es)
    \<and> (RequestSent now ch peer cont back \<in> set es \<longrightarrow>
        (\<exists>r i tr rej. ResponseReceived ch peer r i tr rej \<in> set es) \<or> RequestUnreachable ch peer \<in> set es)"
proof
  obtain c where c: "map_of (tr_channels (history es)) ch = Some c"
    using assms by (cases "map_of (tr_channels (history es)) ch") (auto simp: get_state_def derive_def)
  then obtain h p where hp: "(h, p) \<in> set (ch_peers c)" "ps_state p = ANSWERED"
    using assms unfolding get_state_def c derive_synced_iff by blast
  have "distinct (map fst (ch_peers c))" using syncing.inv_run [of es] c by (simp add: tracker_inv_def channel_of_def)
  then have "peer_of (history es) ch h = Some p" using hp(1) c by (simp add: peer_of_def)
  then show "\<exists>h r i tr rej. ResponseReceived ch h r i tr rej \<in> set es" using answered_caused hp(2) by blast
  show "RequestSent now ch peer cont back \<in> set es \<longrightarrow>
      (\<exists>r i tr rej. ResponseReceived ch peer r i tr rej \<in> set es) \<or> RequestUnreachable ch peer \<in> set es"
  proof
    assume "RequestSent now ch peer cont back \<in> set es"
    then obtain p where p: "peer_of (history es) ch peer = Some p" using asked_recorded by blast
    then show "(\<exists>r i tr rej. ResponseReceived ch peer r i tr rej \<in> set es) \<or> RequestUnreachable ch peer \<in> set es"
      using synced_peer [OF assms p] answered_caused unreachable_caused by blast
  qed
qed

theorem synced_means_answered_witness:
  "ResponseReceived ''c'' ''b'' 0 0 False 0 \<in> set [RequestSent 1 ''c'' ''b'' False False, ResponseReceived ''c'' ''b'' 0 0 False 0]
   \<and> get_state (history [RequestSent 1 ''c'' ''b'' False False, ResponseReceived ''c'' ''b'' 0 0 False 0]) ''c'' = SYNCED"
proof -
  let ?es = "[RequestSent 1 ''c'' ''b'' False False, ResponseReceived ''c'' ''b'' 0 0 False 0]"
  have "get_state (history ?es) ''c'' = SYNCED"
    by (simp add: tracker_ops change_channel_def change_peer_def quiet_request_def get_state_def derive_def Let_def get_or_def
        new_tracker_def new_channel_record_def new_peer_record_def)
  with synced_means_answered [OF this, of 1 "''b''" False False] show ?thesis by simp
qed

lemma gap_stays: "has_gap t ch \<Longrightarrow> ClearGap ch \<notin> set es \<Longrightarrow> has_gap (fold tracker_step es t) ch"
  by (induction es arbitrary: t) (auto simp: step_gap)

text \<open>History known to be missing is never hidden: once a hint names a gap on a channel, or
  a response carries rows that are refused, the channel is not shown as up to date until the
  gap is cleared, whatever is asked and answered in between.\<close>

theorem known_gap_not_synced:
  assumes "e = NoteGap ch \<or> (e = ResponseReceived ch peer r i tr rej \<and> rej \<noteq> 0)"
    and "ClearGap ch \<notin> set post"
  shows "has_gap (history (pre @ e # post)) ch \<and> get_state (history (pre @ e # post)) ch \<noteq> SYNCED"
proof -
  have "has_gap (tracker_step e (history pre)) ch" using assms(1) by (auto simp: step_gap)
  then have g: "has_gap (history (pre @ e # post)) ch" using gap_stays assms(2) by simp
  then obtain c where "map_of (tr_channels (history (pre @ e # post))) ch = Some c" "ch_gap c"
    by (auto simp: has_gap_def split: option.splits)
  then show ?thesis using g by (simp only: get_state_def derive_synced_iff) simp
qed

theorem known_gap_not_synced_witness:
  "get_state (history ([] @ ResponseReceived ''c'' ''b'' 2 1 False 1 # [ResponseReceived ''c'' ''d'' 0 0 False 0])) ''c'' \<noteq> SYNCED"
  using known_gap_not_synced [of "ResponseReceived ''c'' ''b'' 2 1 False 1" "''c''" "''b''" 2 1 False 1
      "[ResponseReceived ''c'' ''d'' 0 0 False 0]" "[]"] by simp

end
