(* ===== verification/Voice_Wire.thy ===== *)
theory Voice_Wire
  imports Prelude
begin

text \<open>
  \<^verbatim>\<open>trenchchat/network/voice_wire.py\<close>: the packets of a voice link. A ValueError is \<open>Inl\<close>.
  Bytes are 8-bit words; a 16-bit sequence number is Python's \<^verbatim>\<open>int\<close> reduced modulo \<open>2 ^ 16\<close>,
  as in the code.
\<close>

definition VOICE_WIRE_VERSION :: byte where "VOICE_WIRE_VERSION = 1"
definition VP_HELLO :: byte where "VP_HELLO = 1"
definition VP_ACCEPT :: byte where "VP_ACCEPT = 2"
definition VP_AUDIO :: byte where "VP_AUDIO = 3"
definition VP_BYE :: byte where "VP_BYE = 4"
definition VOICE_MAX_FRAME_BYTES :: nat where "VOICE_MAX_FRAME_BYTES = 255"
definition VOICE_MAX_FRAMES_PER_PACKET :: nat where "VOICE_MAX_FRAMES_PER_PACKET = 8"
definition VOICE_MAX_PACKET_PAYLOAD :: nat where "VOICE_MAX_PACKET_PAYLOAD = 400"
definition CHANNEL_HASH_LEN :: nat where "CHANNEL_HASH_LEN = 16"
definition SEQ_MODULUS :: int where "SEQ_MODULUS = 2 ^ 16"

definition seq_distance :: "int \<Rightarrow> int \<Rightarrow> int" where
  "seq_distance a b = ((a - b + SEQ_MODULUS div 2) mod SEQ_MODULUS) - SEQ_MODULUS div 2"

definition pack_hello :: "bytes \<Rightarrow> byte \<Rightarrow> py_error + bytes" where
  "pack_hello channel_hash codec_id =
     (if length channel_hash \<noteq> CHANNEL_HASH_LEN then Inl ValueError
      else Inr ([VP_HELLO, VOICE_WIRE_VERSION, codec_id] @ channel_hash))"

definition unpack_hello :: "bytes \<Rightarrow> py_error + byte \<times> byte \<times> bytes" where
  "unpack_hello payload =
     (if length payload \<noteq> 3 + CHANNEL_HASH_LEN \<or> payload ! 0 \<noteq> VP_HELLO then Inl ValueError
      else Inr (payload ! 1, payload ! 2, drop 3 payload))"

definition pack_accept :: bytes where "pack_accept = [VP_ACCEPT, VOICE_WIRE_VERSION]"

definition unpack_accept :: "bytes \<Rightarrow> py_error + byte" where
  "unpack_accept payload =
     (if length payload \<noteq> 2 \<or> payload ! 0 \<noteq> VP_ACCEPT then Inl ValueError else Inr (payload ! 1))"

definition pack_bye :: bytes where "pack_bye = [VP_BYE]"

definition u16be :: "int \<Rightarrow> bytes" where
  "u16be n = [of_int (n div 256), of_int (n mod 256)]"

definition of_u16be :: "byte \<Rightarrow> byte \<Rightarrow> int" where
  "of_u16be hi lo = 256 * uint hi + uint lo"

text \<open>The loop of \<^verbatim>\<open>pack_audio\<close>: the parts so far and their size.\<close>

fun pack_frames :: "bytes \<Rightarrow> nat \<Rightarrow> bytes list \<Rightarrow> py_error + bytes \<times> nat" where
  "pack_frames parts n [] = Inr (parts, n)"
| "pack_frames parts n (frame # frames) =
     (if frame = [] \<or> length frame > VOICE_MAX_FRAME_BYTES then Inl ValueError
      else pack_frames (parts @ [of_nat (length frame)] @ frame) (n + 1 + length frame) frames)"

definition pack_audio :: "int \<Rightarrow> bytes list \<Rightarrow> py_error + bytes" where
  "pack_audio seq frames =
     (if frames = [] \<or> length frames > VOICE_MAX_FRAMES_PER_PACKET then Inl ValueError
      else case pack_frames ([VP_AUDIO] @ u16be (seq mod SEQ_MODULUS) @ [of_nat (length frames)]) 4 frames of
             Inl e \<Rightarrow> Inl e
           | Inr (parts, n) \<Rightarrow> if n > VOICE_MAX_PACKET_PAYLOAD then Inl ValueError else Inr parts)"

fun bundle_loop :: "bytes list list \<Rightarrow> bytes list \<Rightarrow> nat \<Rightarrow> bytes list \<Rightarrow> bytes list list" where
  "bundle_loop bundles current n [] = (if current \<noteq> [] then bundles @ [current] else bundles)"
| "bundle_loop bundles current n (frame # frames) =
     (let need = 1 + length frame
      in if current \<noteq> [] \<and> (n + need > VOICE_MAX_PACKET_PAYLOAD \<or> length current \<ge> VOICE_MAX_FRAMES_PER_PACKET)
         then bundle_loop (bundles @ [current]) [frame] (4 + need) frames
         else bundle_loop bundles (current @ [frame]) (n + need) frames)"

definition bundle_frames :: "bytes list \<Rightarrow> bytes list list" where
  "bundle_frames frames = bundle_loop [] [] 4 frames"

text \<open>The loop of \<^verbatim>\<open>unpack_audio\<close>: the payload, the offset, and the frames still to read.\<close>

fun read_frames :: "bytes \<Rightarrow> nat \<Rightarrow> nat \<Rightarrow> py_error + bytes list \<times> nat" where
  "read_frames payload offset 0 = Inr ([], offset)"
| "read_frames payload offset (Suc n) =
     (if offset \<ge> length payload then Inl ValueError
      else let frame_len = unat (payload ! offset); offset = offset + 1
           in if frame_len = 0 \<or> frame_len > VOICE_MAX_FRAME_BYTES then Inl ValueError
              else let frame = take frame_len (drop offset payload)
                   in if length frame \<noteq> frame_len then Inl ValueError
                      else case read_frames payload (offset + frame_len) n of
                             Inl e \<Rightarrow> Inl e
                           | Inr (frames, end_at) \<Rightarrow> Inr (frame # frames, end_at))"

definition unpack_audio :: "bytes \<Rightarrow> py_error + int \<times> bytes list" where
  "unpack_audio payload =
     (if length payload < 4 \<or> payload ! 0 \<noteq> VP_AUDIO then Inl ValueError
      else let seq = of_u16be (payload ! 1) (payload ! 2); frame_count = unat (payload ! 3)
           in if \<not> (0 < frame_count \<and> frame_count \<le> VOICE_MAX_FRAMES_PER_PACKET) then Inl ValueError
              else case read_frames payload 4 frame_count of
                     Inl e \<Rightarrow> Inl e
                   | Inr (frames, offset) \<Rightarrow> if offset \<noteq> length payload then Inl ValueError else Inr (seq, frames))"

definition packet_type :: "bytes \<Rightarrow> py_error + byte" where
  "packet_type payload = (if payload = [] then Inl ValueError else Inr (payload ! 0))"

section \<open>Sequence numbers\<close>

text \<open>The distance is the difference of 16-bit words read as a signed number: it is the
  number of steps from one sequence number to the other, the short way around.\<close>

theorem seq_distance_signed:
  "seq_distance a b = sint (word_of_int (a - b) :: 16 word)"
  unfolding seq_distance_def SEQ_MODULUS_def int_word_sint by simp

lemma seq_distance_range: "- (SEQ_MODULUS div 2) \<le> seq_distance a b \<and> seq_distance a b < SEQ_MODULUS div 2"
  using pos_mod_bound [of SEQ_MODULUS "a - b + SEQ_MODULUS div 2"] pos_mod_sign [of SEQ_MODULUS "a - b + SEQ_MODULUS div 2"]
  by (simp add: seq_distance_def SEQ_MODULUS_def)

lemma seq_distance_near:
  assumes "- (SEQ_MODULUS div 2) \<le> x - y" "x - y < SEQ_MODULUS div 2"
  shows "seq_distance ((s + x) mod SEQ_MODULUS) ((s + y) mod SEQ_MODULUS) = x - y"
proof -
  have "((s + x) mod SEQ_MODULUS - (s + y) mod SEQ_MODULUS + SEQ_MODULUS div 2) mod SEQ_MODULUS
      = (x - y + SEQ_MODULUS div 2) mod SEQ_MODULUS"
    by (metis (no_types, opaque_lifting) add.commute add_diff_cancel_left mod_add_left_eq mod_diff_eq)
  also have "\<dots> = x - y + SEQ_MODULUS div 2"
    using assms by (intro mod_pos_pos_trivial) (simp_all add: SEQ_MODULUS_def)
  finally show ?thesis by (simp add: seq_distance_def)
qed

section \<open>Packets round trip\<close>

lemma u16be_roundtrip: "0 \<le> n \<Longrightarrow> n < 2 ^ 16 \<Longrightarrow> u16be n = [hi, lo] \<Longrightarrow> of_u16be hi lo = n"
  by (auto simp: u16be_def of_u16be_def uint_word_of_int)

abbreviation enc_frame :: "bytes \<Rightarrow> bytes" where
  "enc_frame f \<equiv> of_nat (length f) # f"

definition frame_ok :: "bytes \<Rightarrow> bool" where
  "frame_ok f \<longleftrightarrow> f \<noteq> [] \<and> length f \<le> VOICE_MAX_FRAME_BYTES"

abbreviation coded :: "bytes list \<Rightarrow> bytes" where
  "coded frames \<equiv> concat (map enc_frame frames)"

lemma pack_frames_ok:
  "list_all frame_ok frames \<Longrightarrow> pack_frames parts n frames = Inr (parts @ coded frames, n + length (coded frames))"
  by (induction parts n frames rule: pack_frames.induct) (auto simp: frame_ok_def)

lemma pack_frames_bad: "\<not> list_all frame_ok frames \<Longrightarrow> pack_frames parts n frames = Inl ValueError"
  by (induction parts n frames rule: pack_frames.induct) (auto simp: frame_ok_def)

lemma read_coded:
  assumes "list_all frame_ok frames"
  shows "read_frames (pre @ coded frames @ post) (length pre) (length frames) =
    Inr (frames, length pre + length (coded frames))"
  using assms
proof (induction frames arbitrary: pre)
  case (Cons f frames)
  have f: "f \<noteq> []" "length f \<le> 255" using Cons.prems by (simp_all add: frame_ok_def VOICE_MAX_FRAME_BYTES_def)
  then have u: "unat (of_nat (length f) :: byte) = length f" by (intro unat_small) simp
  have "read_frames ((pre @ enc_frame f) @ coded frames @ post) (length (pre @ enc_frame f)) (length frames) =
    Inr (frames, length (pre @ enc_frame f) + length (coded frames))"
    using Cons by (intro Cons.IH) simp
  then show ?case using f u by (simp add: Let_def VOICE_MAX_FRAME_BYTES_def nth_append)
qed simp

lemma read_frames_sound:
  "read_frames payload offset n = Inr (frames, e) \<Longrightarrow> offset \<le> length payload \<Longrightarrow>
   list_all frame_ok frames \<and> length frames = n \<and> offset \<le> e \<and> e \<le> length payload
   \<and> take (e - offset) (drop offset payload) = coded frames"
proof (induction payload offset n arbitrary: frames e rule: read_frames.induct)
  case (2 payload offset n)
  let ?l = "unat (payload ! offset)" and ?f = "take (unat (payload ! offset)) (drop (offset + 1) payload)"
  from "2.prems" obtain fs where c: "offset < length payload" "?l \<noteq> 0" "?l \<le> VOICE_MAX_FRAME_BYTES" "length ?f = ?l"
    and r: "read_frames payload (offset + 1 + ?l) n = Inr (fs, e)" and frames: "frames = ?f # fs"
    by (auto simp: Let_def split: if_splits sum.splits prod.splits)
  have le: "offset + 1 + ?l \<le> length payload" using c(1,4) by simp
  have ih: "list_all frame_ok fs" "length fs = n" "offset + 1 + ?l \<le> e" "e \<le> length payload"
    "take (e - (offset + 1 + ?l)) (drop (offset + 1 + ?l) payload) = coded fs"
    using "2.IH" [OF _ refl refl _ refl _ r le] c by auto
  have ok: "frame_ok ?f" using c by (auto simp: frame_ok_def)
  have "drop offset payload = payload ! offset # drop (Suc offset) payload"
    using c(1) by (simp add: Cons_nth_drop_Suc)
  moreover have e: "e - offset = Suc (?l + (e - (offset + 1 + ?l)))" using ih(3) by simp
  ultimately have "take (e - offset) (drop offset payload) =
    payload ! offset # take (?l + (e - (offset + 1 + ?l))) (drop (Suc offset) payload)"
    by (simp only: e take_Suc_Cons)
  also have "\<dots> = payload ! offset # ?f @ take (e - (offset + 1 + ?l)) (drop (offset + 1 + ?l) payload)"
    by (simp add: take_add add.commute add.left_commute)
  also have "payload ! offset = of_nat (length ?f)" unfolding c(4) by simp
  finally show ?case using ih ok by (simp add: frames)
qed auto

text \<open>Packing and unpacking voice frames are inverse to each other. What packs unpacks to the
  same frames and the sequence number modulo \<open>2 ^ 16\<close>; and a packet within the payload budget
  that unpacks is, byte for byte, what packing its frames gives: no two encodings of one bundle.\<close>

theorem audio_packet_roundtrip:
  "(pack_audio seq frames = Inr p \<longrightarrow> unpack_audio p = Inr (seq mod SEQ_MODULUS, frames))
   \<and> (unpack_audio p = Inr (seq, frames) \<and> length p \<le> VOICE_MAX_PACKET_PAYLOAD \<longrightarrow> pack_audio seq frames = Inr p)"
proof (intro conjI impI)
  assume pk: "pack_audio seq frames = Inr p"
  then have fr: "frames \<noteq> []" "length frames \<le> VOICE_MAX_FRAMES_PER_PACKET" by (auto simp: pack_audio_def split: if_splits)
  have ok: "list_all frame_ok frames"
    by (rule ccontr) (use pk fr in \<open>simp add: pack_audio_def pack_frames_bad\<close>)
  let ?n = "seq mod SEQ_MODULUS"
  have p: "p = [VP_AUDIO] @ u16be ?n @ [of_nat (length frames)] @ coded frames"
    using pk fr by (auto simp: pack_audio_def pack_frames_ok [OF ok] split: if_splits)
  let ?pre = "[VP_AUDIO] @ u16be ?n @ [of_nat (length frames)]"
  have u: "unat (of_nat (length frames) :: byte) = length frames"
    using fr by (intro unat_small) (simp add: VOICE_MAX_FRAMES_PER_PACKET_def)
  have pre: "length ?pre = 4" by (simp add: u16be_def)
  have r: "read_frames p 4 (length frames) = Inr (frames, length p)"
    using read_coded [OF ok, of ?pre "[]"] unfolding p pre by (simp add: u16be_def)
  have n: "0 \<le> ?n" "?n < 2 ^ 16" by (simp_all add: SEQ_MODULUS_def)
  have "of_u16be (p ! 1) (p ! 2) = ?n"
    using u16be_roundtrip [OF n, of "p ! 1" "p ! 2"] by (simp add: p u16be_def)
  then show "unpack_audio p = Inr (?n, frames)"
    using fr u r by (simp add: unpack_audio_def Let_def) (simp add: p u16be_def)
next
  assume a: "unpack_audio p = Inr (seq, frames) \<and> length p \<le> VOICE_MAX_PACKET_PAYLOAD"
  then have len: "4 \<le> length p" and t: "p ! 0 = VP_AUDIO" and sq: "seq = of_u16be (p ! 1) (p ! 2)"
    and count: "0 < unat (p ! 3)" "unat (p ! 3) \<le> VOICE_MAX_FRAMES_PER_PACKET"
    and rd: "read_frames p 4 (unat (p ! 3)) = Inr (frames, length p)"
    by (auto simp: unpack_audio_def Let_def split: if_splits sum.splits)
  have s: "list_all frame_ok frames" "length frames = unat (p ! 3)" "drop 4 p = coded frames"
    using read_frames_sound [OF rd] len by auto
  obtain b0 b1 b2 b3 rest where p: "p = b0 # b1 # b2 # b3 # rest"
    using len by (metis Suc_le_length_iff numeral_eq_Suc pred_numeral_simps(2) pred_numeral_simps(3) BitM.simps(1,2) One_nat_def)
  have sm: "seq mod SEQ_MODULUS = seq"
    using uint_lt2p [of b1] uint_lt2p [of b2] by (simp add: sq p of_u16be_def SEQ_MODULUS_def)
  have "u16be seq = [b1, b2]"
    using uint_lt2p [of b2] by (simp add: sq p of_u16be_def u16be_def)
  moreover have "of_nat (length frames) = b3" using s(2) by (simp add: p)
  ultimately have parts: "[VP_AUDIO] @ u16be (seq mod SEQ_MODULUS) @ [of_nat (length frames)] @ coded frames = p"
    using s(3) t by (simp add: sm p)
  have "4 + length (coded frames) = length p" using s(3) len by (metis length_drop le_add_diff_inverse)
  then show "pack_audio seq frames = Inr p"
    using a count s(2) parts by (auto simp: pack_audio_def pack_frames_ok [OF s(1)])
qed

theorem audio_packet_roundtrip_witness:
  "unpack_audio [3, 0, 7, 1, 2, 10, 11] = Inr (7, [[10, 11]])"
proof -
  have "pack_audio 65543 [[10, 11]] = Inr [3, 0, 7, 1, 2, 10, 11]"
    by (simp add: pack_audio_def VOICE_MAX_FRAMES_PER_PACKET_def VOICE_MAX_FRAME_BYTES_def VOICE_MAX_PACKET_PAYLOAD_def
        u16be_def SEQ_MODULUS_def VP_AUDIO_def)
  then have "unpack_audio [3, 0, 7, 1, 2, 10, 11] = Inr (65543 mod SEQ_MODULUS, [[10, 11]])"
    using audio_packet_roundtrip by blast
  then show ?thesis by (simp add: SEQ_MODULUS_def)
qed

section \<open>Bundles\<close>

text \<open>A bundle that fits one packet: at most 8 frames, at most 400 bytes with its header, or a
  single frame.\<close>

definition fits :: "bytes list \<Rightarrow> bool" where
  "fits b \<longleftrightarrow> b \<noteq> [] \<and> length b \<le> VOICE_MAX_FRAMES_PER_PACKET
     \<and> (length b = 1 \<or> 4 + length (coded b) \<le> VOICE_MAX_PACKET_PAYLOAD)"

lemma bundle_loop_spec:
  assumes "list_all fits bundles" and "current = [] \<or> fits current" and "n = 4 + length (coded current)"
  shows "list_all fits (bundle_loop bundles current n frames)
    \<and> concat (bundle_loop bundles current n frames) = concat bundles @ current @ frames"
  using assms
proof (induction bundles current n frames rule: bundle_loop.induct)
  case (2 bundles current n frame frames)
  let ?need = "1 + length frame"
  show ?case
  proof (cases "current \<noteq> [] \<and> (n + ?need > VOICE_MAX_PACKET_PAYLOAD \<or> length current \<ge> VOICE_MAX_FRAMES_PER_PACKET)")
    case True
    have "list_all fits (bundle_loop (bundles @ [current]) [frame] (4 + ?need) frames) \<and>
      concat (bundle_loop (bundles @ [current]) [frame] (4 + ?need) frames) = concat (bundles @ [current]) @ [frame] @ frames"
      by (rule "2.IH"(1) [OF refl True]) (use 2(3-) True in \<open>simp_all add: fits_def VOICE_MAX_FRAMES_PER_PACKET_def\<close>)
    then show ?thesis by (simp only: bundle_loop.simps Let_def if_P [OF True]) simp
  next
    case False
    have "list_all fits (bundle_loop bundles (current @ [frame]) (n + ?need) frames) \<and>
      concat (bundle_loop bundles (current @ [frame]) (n + ?need) frames) = concat bundles @ (current @ [frame]) @ frames"
      by (rule "2.IH"(2) [OF refl False])
         (use 2(3-) False in \<open>cases "current = []"; auto simp: fits_def VOICE_MAX_FRAMES_PER_PACKET_def\<close>)+
    then show ?thesis by (simp only: bundle_loop.simps Let_def if_not_P [OF False]) simp
  qed
qed auto

lemma single_frame_fits: "frame_ok f \<Longrightarrow> 4 + length (coded [f]) \<le> VOICE_MAX_PACKET_PAYLOAD"
  by (simp add: frame_ok_def VOICE_MAX_FRAME_BYTES_def VOICE_MAX_PACKET_PAYLOAD_def)

text \<open>Bundling loses, adds and reorders no frame, and every bundle of valid frames packs: no
  send fails on the frame count or the payload budget.\<close>

theorem bundles_pack:
  "concat (bundle_frames frames) = frames
   \<and> (list_all frame_ok frames \<longrightarrow> list_all (\<lambda>b. \<exists>p. pack_audio seq b = Inr p) (bundle_frames frames))"
proof -
  have b: "list_all fits (bundle_frames frames)" "concat (bundle_frames frames) = frames"
    using bundle_loop_spec [of "[]" "[]" 4 frames] by (simp_all add: bundle_frames_def)
  have "\<exists>p. pack_audio seq b = Inr p" if "list_all frame_ok frames" "b \<in> set (bundle_frames frames)" for b
  proof -
    have ok: "list_all frame_ok b" using that b(2) by (metis UN_I list_all_iff set_concat)
    have f: "fits b" using b(1) that(2) by (simp add: list_all_iff)
    then have "4 + length (coded b) \<le> VOICE_MAX_PACKET_PAYLOAD"
      using ok single_frame_fits by (auto simp: fits_def length_Suc_conv)
    then show ?thesis using f by (auto simp: pack_audio_def fits_def pack_frames_ok [OF ok])
  qed
  then show ?thesis using b(2) by (auto simp: list_all_iff)
qed

theorem bundles_pack_witness: "list_all (\<lambda>b. \<exists>p. pack_audio 0 b = Inr p) (bundle_frames [replicate 200 1, replicate 250 2])"
  using bundles_pack [of "[replicate 200 1, replicate 250 2]" 0] by (simp add: frame_ok_def VOICE_MAX_FRAME_BYTES_def)

end
