(* ===== verification/Jitter.thy ===== *)
theory Jitter
  imports Voice_Wire Contracts "HOL-Library.Multiset"
begin

text \<open>
  \<^verbatim>\<open>trenchchat/core/audio/jitter.py\<close>: the buffer that puts the frames of one voice stream
  back in order. The lock is left out. \<open>shrink\<close> is the eviction loop of \<^verbatim>\<open>push\<close>.
\<close>

definition JITTER_TARGET_FRAMES :: nat where "JITTER_TARGET_FRAMES = 4"
definition JITTER_MAX_FRAMES :: nat where "JITTER_MAX_FRAMES = 25"

record jitter =
  jb_target :: nat
  jb_max :: nat
  jb_frames :: "(int \<times> bytes) list"
  jb_next :: "int option"
  jb_filling :: bool
  jb_started :: bool

definition new_jitter :: "nat \<Rightarrow> nat \<Rightarrow> jitter" where
  "new_jitter target_frames max_frames =
     \<lparr>jb_target = target_frames, jb_max = max_frames, jb_frames = [], jb_next = None,
      jb_filling = True, jb_started = False\<rparr>"

lemma length_delete_member: "k \<in> fst ` set d \<Longrightarrow> length (AList.delete k d) < length d"
  by (induction d) (auto intro: le_imp_less_Suc length_delete_le)

text \<open>\<^verbatim>\<open>while len(frames) > max: ...\<close>, evicting the frame furthest behind the cursor.\<close>

function shrink :: "nat \<Rightarrow> int \<Rightarrow> (int \<times> bytes) list \<Rightarrow> (int \<times> bytes) list \<times> int" where
  "shrink mx nxt fs =
     (case map fst fs of
        [] \<Rightarrow> (fs, nxt)
      | k # ks \<Rightarrow>
          if length fs > mx
          then let oldest = min_by (\<lambda>s. seq_distance s nxt) k ks;
                   fs' = AList.delete oldest fs
               in shrink mx (if oldest = nxt then (nxt + 1) mod SEQ_MODULUS else nxt) fs'
          else (fs, nxt))"
  by pat_completeness auto

termination
proof (relation "measure (\<lambda>(mx, nxt, fs). length fs)")
  fix mx nxt and fs :: "(int \<times> bytes) list" and k ks oldest fs'
  assume a: "map fst fs = k # ks" and o': "oldest = min_by (\<lambda>s. seq_distance s nxt) k ks" and f: "fs' = AList.delete oldest fs"
  have "oldest \<in> insert k (set ks)" unfolding o' by (rule min_by_in)
  then have "oldest \<in> fst ` set fs" using a by (metis list.set(2) set_map)
  then show "((mx, if oldest = nxt then (nxt + 1) mod SEQ_MODULUS else nxt, fs'), mx, nxt, fs) \<in> measure (\<lambda>(mx, nxt, fs). length fs)"
    by (simp add: f length_delete_member)
qed simp

declare shrink.simps [simp del]

definition jb_store :: "int \<Rightarrow> bytes \<Rightarrow> jitter \<Rightarrow> jitter" where
  "jb_store seq frame j =
     (if seq \<in> fst ` set (jb_frames j) then j
      else let fs = AList.update seq frame (jb_frames j);
               nxt = (case jb_next j of None \<Rightarrow> seq | Some n \<Rightarrow> n);
               (fs, nxt) = shrink (jb_max j) nxt fs
           in j\<lparr>jb_frames := fs, jb_next := Some nxt\<rparr>)"

definition jb_push :: "int \<Rightarrow> bytes \<Rightarrow> jitter \<Rightarrow> jitter" where
  "jb_push seq frame j =
     (let seq = seq mod SEQ_MODULUS
      in case jb_next j of
           None \<Rightarrow> jb_store seq frame j
         | Some nxt \<Rightarrow>
             (let dist = seq_distance seq nxt
              in if dist < 0 \<and> jb_started j then j
                 else let j = (if dist < 0 then j\<lparr>jb_next := Some seq\<rparr> else j);
                          j = (if dist \<ge> int (jb_max j)
                               then j\<lparr>jb_frames := [], jb_next := Some seq, jb_filling := True\<rparr> else j)
                      in jb_store seq frame j))"

definition jb_pop :: "jitter \<Rightarrow> jitter \<times> bytes option" where
  "jb_pop j =
     (case jb_next j of
        None \<Rightarrow> (j, None)
      | Some nxt \<Rightarrow>
          if jb_filling j \<and> length (jb_frames j) < jb_target j then (j, None)
          else let j = j\<lparr>jb_filling := False\<rparr>;
                   frame = map_of (jb_frames j) nxt;
                   j = j\<lparr>jb_frames := AList.delete nxt (jb_frames j)\<rparr>
               in if frame = None \<and> jb_frames j = [] then (j\<lparr>jb_filling := True\<rparr>, None)
                  else (j\<lparr>jb_next := Some ((nxt + 1) mod SEQ_MODULUS),
                          jb_started := (jb_started j \<or> frame \<noteq> None)\<rparr>, frame))"

definition jb_reset :: "jitter \<Rightarrow> jitter" where
  "jb_reset j = j\<lparr>jb_frames := [], jb_next := None, jb_filling := True, jb_started := False\<rparr>"

definition jb_depth :: "jitter \<Rightarrow> nat" where
  "jb_depth j = length (jb_frames j)"

section \<open>The buffer is bounded\<close>

lemma shrink_small: "length fs \<le> mx \<Longrightarrow> shrink mx nxt fs = (fs, nxt)"
  by (subst shrink.simps) (simp split: list.splits)

definition jb_inv :: "jitter \<Rightarrow> bool" where
  "jb_inv j \<longleftrightarrow> distinct (map fst (jb_frames j)) \<and> length (jb_frames j) \<le> jb_max j
     \<and> list_all (\<lambda>s. 0 \<le> s \<and> s < SEQ_MODULUS) (map fst (jb_frames j))
     \<and> (jb_next j = None \<longrightarrow> jb_frames j = [] \<and> \<not> jb_started j)
     \<and> (\<forall>n. jb_next j = Some n \<longrightarrow> 0 \<le> n \<and> n < SEQ_MODULUS)"

lemma shrink_inv:
  "distinct (map fst fs) \<Longrightarrow> list_all (\<lambda>s. 0 \<le> s \<and> s < SEQ_MODULUS) (map fst fs) \<Longrightarrow> 0 \<le> nxt \<Longrightarrow> nxt < SEQ_MODULUS \<Longrightarrow>
   shrink mx nxt fs = (fs', nxt') \<Longrightarrow>
   distinct (map fst fs') \<and> length fs' \<le> mx \<and> list_all (\<lambda>s. 0 \<le> s \<and> s < SEQ_MODULUS) (map fst fs')
   \<and> 0 \<le> nxt' \<and> nxt' < SEQ_MODULUS \<and> set fs' \<subseteq> set fs"
proof (induction mx nxt fs arbitrary: fs' nxt' rule: shrink.induct)
  case (1 mx nxt fs)
  show ?case
  proof (cases "length fs > mx")
    case True
    then obtain k ks where ks: "map fst fs = k # ks" by (cases fs) auto
    define o' where "o' = min_by (\<lambda>s. seq_distance s nxt) k ks"
    let ?n = "if o' = nxt then (nxt + 1) mod SEQ_MODULUS else nxt"
    have eq: "shrink mx nxt fs = shrink mx ?n (AList.delete o' fs)"
      using True by (subst shrink.simps) (simp add: ks o'_def Let_def)
    have n: "0 \<le> ?n" "?n < SEQ_MODULUS" using 1(4,5) by (simp_all add: SEQ_MODULUS_def)
    have d: "distinct (map fst (AList.delete o' fs))" by (rule distinct_keys_delete [OF 1(2)])
    have l: "list_all (\<lambda>s. 0 \<le> s \<and> s < SEQ_MODULUS) (map fst (AList.delete o' fs))"
      using 1(3) set_delete_sub [of o' fs] by (auto simp: list_all_iff)
    from "1.IH" [OF ks True o'_def refl d l n] 1(6) set_delete_sub [of o' fs] show ?thesis unfolding eq by blast
  next
    case False
    then show ?thesis using 1 by (auto simp: shrink_small)
  qed
qed

lemma jb_inv_store:
  assumes "jb_inv j" "0 \<le> s" "s < SEQ_MODULUS"
  shows "jb_inv (jb_store s f j)"
proof (cases "s \<in> fst ` set (jb_frames j)")
  case False
  define nxt where "nxt = (case jb_next j of None \<Rightarrow> s | Some n \<Rightarrow> n)"
  let ?fs = "AList.update s f (jb_frames j)"
  obtain fs' nxt' where r: "shrink (jb_max j) nxt ?fs = (fs', nxt')" by fastforce
  have "distinct (map fst ?fs)" using assms(1) by (simp add: jb_inv_def distinct_keys_update)
  moreover have "list_all (\<lambda>s. 0 \<le> s \<and> s < SEQ_MODULUS) (map fst ?fs)"
    using assms set_update_sub [of s f "jb_frames j"] by (auto simp: jb_inv_def list_all_iff)
  moreover have "0 \<le> nxt" "nxt < SEQ_MODULUS" using assms by (auto simp: nxt_def jb_inv_def split: option.splits)
  ultimately have "distinct (map fst fs') \<and> length fs' \<le> jb_max j \<and> list_all (\<lambda>s. 0 \<le> s \<and> s < SEQ_MODULUS) (map fst fs')
   \<and> 0 \<le> nxt' \<and> nxt' < SEQ_MODULUS \<and> set fs' \<subseteq> set ?fs"
    by (rule shrink_inv [OF _ _ _ _ r])
  then show ?thesis using False by (simp add: jb_store_def Let_def r nxt_def [symmetric] jb_inv_def)
qed (use assms in \<open>simp add: jb_store_def\<close>)

lemma jb_inv_push: "jb_inv j \<Longrightarrow> jb_inv (jb_push s f j)"
proof -
  assume j: "jb_inv j"
  have m: "0 \<le> s mod SEQ_MODULUS" "s mod SEQ_MODULUS < SEQ_MODULUS" by (simp_all add: SEQ_MODULUS_def)
  show ?thesis
    using j m by (auto simp: jb_push_def Let_def split: option.splits intro!: jb_inv_store) (auto simp: jb_inv_def)
qed

lemma jb_inv_pop: "jb_inv j \<Longrightarrow> jb_inv (fst (jb_pop j))"
  by (auto simp: jb_pop_def Let_def jb_inv_def split: option.splits intro!: distinct_keys_delete order.trans [OF length_delete_le])
     (auto simp: list_all_iff SEQ_MODULUS_def dest: subsetD [OF set_delete_sub])

datatype jitter_op = Push int bytes | Pop | Reset

fun jb_step :: "jitter_op \<Rightarrow> jitter \<Rightarrow> jitter" where
  "jb_step (Push s f) j = jb_push s f j"
| "jb_step Pop j = fst (jb_pop j)"
| "jb_step Reset j = jb_reset j"

interpretation jitter_buffer: machine "new_jitter t m" jb_step jb_inv for t m
proof unfold_locales
  show "jb_inv (new_jitter t m)" by (simp add: jb_inv_def new_jitter_def)
  show "jb_inv (jb_step e j)" if "jb_inv j" for e j
    using that by (cases e) (auto simp: jb_inv_push jb_inv_pop, simp add: jb_reset_def jb_inv_def)
qed

lemma jb_max_shape: "jb_max (jb_push s f j) = jb_max j" "jb_max (fst (jb_pop j)) = jb_max j"
  "jb_target (jb_push s f j) = jb_target j"
  by (auto simp: jb_push_def jb_store_def jb_pop_def Let_def split: option.splits prod.splits)

lemma jb_max_run: "jb_max (fold jb_step ops j) = jb_max j"
proof (induction ops arbitrary: j)
  case (Cons e ops)
  then show ?case by (cases e) (simp_all add: jb_max_shape jb_reset_def)
qed simp

section \<open>Frames come out in order\<close>

text \<open>A frame older than the cursor of a stream that has started is dropped, and one already
  held does not replace the first.\<close>

lemma late_frame_dropped:
  "jb_started j \<Longrightarrow> jb_next j = Some n \<Longrightarrow> seq_distance (s mod SEQ_MODULUS) n < 0 \<Longrightarrow> jb_push s f j = j"
  by (simp add: jb_push_def Let_def)

text \<open>The buffer before anything was played, when the frames of the offsets \<open>ks\<close> after the
  sequence number \<open>s\<close> have arrived, in this order.\<close>

definition at_seq :: "int \<Rightarrow> nat \<Rightarrow> int" where
  "at_seq s k = (s + int k) mod SEQ_MODULUS"

definition filled :: "nat \<Rightarrow> nat \<Rightarrow> int \<Rightarrow> (nat \<Rightarrow> bytes) \<Rightarrow> nat list \<Rightarrow> jitter" where
  "filled t m s g ks =
     \<lparr>jb_target = t, jb_max = m, jb_frames = map (\<lambda>k. (at_seq s k, g k)) ks,
      jb_next = (if ks = [] then None else Some (at_seq s (Min (set ks)))),
      jb_filling = True, jb_started = False\<rparr>"

lemma at_seq_distance:
  assumes "a \<le> 2 ^ 14" "b \<le> 2 ^ 14"
  shows "seq_distance (at_seq s a) (at_seq s b) = int a - int b"
  unfolding at_seq_def by (rule seq_distance_near) (use assms in \<open>simp_all add: SEQ_MODULUS_def\<close>)

lemma at_seq_inj: "a \<le> 2 ^ 14 \<Longrightarrow> b \<le> 2 ^ 14 \<Longrightarrow> at_seq s a = at_seq s b \<Longrightarrow> a = b"
  using at_seq_distance [of a b s] at_seq_distance [of b b s] by simp

lemma update_absent: "k \<notin> fst ` set d \<Longrightarrow> AList.update k v d = d @ [(k, v)]"
  by (induction d) auto

lemma push_filled:
  assumes "m \<le> 2 ^ 14" "set (k # ks) \<subseteq> {..<m}" "k \<notin> set ks" "distinct ks"
  shows "jb_push (s + int k) (g k) (filled t m s g ks) = filled t m s g (ks @ [k])"
proof -
  have lt: "k < m" "i \<in> set ks \<Longrightarrow> i < m" for i using assms(2) by auto
  have fresh: "at_seq s k \<notin> fst ` set (map (\<lambda>k. (at_seq s k, g k)) ks)"
  proof
    assume "at_seq s k \<in> fst ` set (map (\<lambda>k. (at_seq s k, g k)) ks)"
    then obtain i where "i \<in> set ks" "at_seq s k = at_seq s i" by auto
    moreover from this have "k = i" using at_seq_inj [of k i s] assms(1) lt by fastforce
    ultimately show False using assms(3) by simp
  qed
  have "card (set (k # ks)) \<le> card {..<m}" by (rule card_mono [OF _ assms(2)]) simp
  then have room: "length ks + 1 \<le> m" using assms(3,4) by (simp add: distinct_card)
  have store: "jb_store (at_seq s k) (g k) (filled t m s g ks\<lparr>jb_next := Some n\<rparr>) =
      filled t m s g (ks @ [k])\<lparr>jb_next := Some n\<rparr>" for n
    using fresh room by (simp add: jb_store_def filled_def update_absent shrink_small)
  show ?thesis
  proof (cases "ks = []")
    case True
    then show ?thesis
      using room by (simp add: jb_push_def jb_store_def filled_def Let_def at_seq_def [symmetric] shrink_small)
  next
    case False
    define a where "a = Min (set ks)"
    have mem: "a \<in> set ks" using False Min_in [of "set ks"] by (simp add: a_def)
    have eq: "filled t m s g ks = \<lparr>jb_target = t, jb_max = m, jb_frames = map (\<lambda>k. (at_seq s k, g k)) ks,
        jb_next = Some (at_seq s a), jb_filling = True, jb_started = False\<rparr>"
      using False by (simp add: filled_def a_def)
    have mn: "filled t m s g (ks @ [k])\<lparr>jb_next := Some (at_seq s (min k a))\<rparr> = filled t m s g (ks @ [k])"
      using False by (simp add: filled_def a_def)
    have d: "seq_distance (at_seq s k) (at_seq s a) = int k - int a"
      using assms(1) lt(1) lt(2) [OF mem] by (intro at_seq_distance) simp_all
    have near: "\<not> int k - int a \<ge> int m" using lt(1) by simp
    have "jb_push (s + int k) (g k) (filled t m s g ks) =
      jb_store (at_seq s k) (g k) (filled t m s g ks\<lparr>jb_next := Some (at_seq s (min k a))\<rparr>)"
      unfolding eq using near by (auto simp: jb_push_def Let_def at_seq_def [symmetric] d min_def)
    also have "\<dots> = filled t m s g (ks @ [k])" unfolding store mn ..
    finally show ?thesis .
  qed
qed

lemma push_all:
  assumes "m \<le> 2 ^ 14" "set (js @ ks) \<subseteq> {..<m}" "distinct (js @ ks)"
  shows "fold (\<lambda>k. jb_push (s + int k) (g k)) ks (filled t m s g js) = filled t m s g (js @ ks)"
  using assms
proof (induction ks arbitrary: js)
  case (Cons k ks)
  have "jb_push (s + int k) (g k) (filled t m s g js) = filled t m s g (js @ [k])"
    using Cons.prems by (intro push_filled) auto
  then show ?case using Cons.IH [of "js @ [k]"] Cons.prems by simp
qed simp

fun pop_many :: "nat \<Rightarrow> jitter \<Rightarrow> bytes option list" where
  "pop_many 0 j = []"
| "pop_many (Suc n) j = (let (j', r) = jb_pop j in r # pop_many n j')"

lemma pop_in_order:
  assumes "n \<le> 2 ^ 14" "i \<le> n" "jb_next j = Some (at_seq s i)" "jb_filling j \<Longrightarrow> jb_target j \<le> length (jb_frames j)"
    and "\<And>k. i \<le> k \<Longrightarrow> k < n \<Longrightarrow> map_of (jb_frames j) (at_seq s k) = Some (g k)"
  shows "pop_many (n - i) j = map (Some o g) [i..<n]"
  using assms
proof (induction "n - i" arbitrary: i j)
  case (Suc d)
  then have i: "i < n" by simp
  obtain j' where j': "jb_pop j = (j', Some (g i))" "jb_next j' = Some (at_seq s (Suc i))" "\<not> jb_filling j'"
    "jb_frames j' = AList.delete (at_seq s i) (jb_frames j)"
  proof
    show "jb_pop j = (j\<lparr>jb_filling := False, jb_frames := AList.delete (at_seq s i) (jb_frames j),
        jb_next := Some ((at_seq s i + 1) mod SEQ_MODULUS), jb_started := True\<rparr>, Some (g i))"
      using Suc.prems(3,4) Suc.prems(5) [of i] i by (simp add: jb_pop_def Let_def not_less)
    show "jb_next (j\<lparr>jb_filling := False, jb_frames := AList.delete (at_seq s i) (jb_frames j),
        jb_next := Some ((at_seq s i + 1) mod SEQ_MODULUS), jb_started := True\<rparr>) = Some (at_seq s (Suc i))"
      by (simp add: at_seq_def mod_simps ac_simps)
  qed simp_all
  have "pop_many (n - Suc i) j' = map (Some o g) [Suc i..<n]"
  proof (rule Suc.hyps(1))
    show "map_of (jb_frames j') (at_seq s k) = Some (g k)" if "Suc i \<le> k" "k < n" for k
      using that Suc.prems(1,5) at_seq_inj [of k i s] by (auto simp: j'(4))
  qed (use Suc i j' in simp_all)
  moreover have "n - i = Suc (n - Suc i)" using i by simp
  ultimately show ?case using i by (simp add: j'(1) upt_conv_Cons)
qed simp

text \<open>Reordering is undone. When the first \<open>n\<close> frames of a stream arrive in any order, with
  as many as the buffer waits for and no more than it holds, they are played in the order they
  were sent, all of them, across the wrap-around of the 16-bit sequence number too.\<close>

theorem frames_play_in_order:
  assumes "mset ks = mset [0..<n]" and "t \<le> n" and "0 < n" and "n \<le> m" and "m \<le> 2 ^ 14"
  shows "pop_many n (fold (\<lambda>k. jb_push (s + int k) (g k)) ks (new_jitter t m)) = map (Some o g) [0..<n]"
proof -
  have ks: "set ks = {..<n}" "distinct ks" "length ks = n"
    using mset_eq_setD [OF assms(1)] mset_eq_imp_distinct_iff [OF assms(1)] mset_eq_length [OF assms(1)] by auto
  have "new_jitter t m = filled t m s g []" by (simp add: new_jitter_def filled_def)
  then have f: "fold (\<lambda>k. jb_push (s + int k) (g k)) ks (new_jitter t m) = filled t m s g ks"
    using push_all [of m "[]" ks s g t] assms(4,5) ks by auto
  have ne: "ks \<noteq> []" using ks(3) assms(3) by auto
  have "map_of (map (\<lambda>k. (at_seq s k, g k)) ks) (at_seq s k) = Some (g k)" if "k < n" for k
  proof (rule map_of_is_SomeI)
    have "inj_on (at_seq s) (set ks)"
      using at_seq_inj assms(4,5) by (intro inj_onI) (simp add: ks(1))
    then show "distinct (map fst (map (\<lambda>k. (at_seq s k, g k)) ks))"
      using ks(2) by (simp add: comp_def distinct_map)
    show "(at_seq s k, g k) \<in> set (map (\<lambda>k. (at_seq s k, g k)) ks)" using that ks(1) by auto
  qed
  moreover have "Min {..<n} = 0" using assms(3) by (intro Min_eqI) auto
  ultimately have "pop_many (n - 0) (filled t m s g ks) = map (Some o g) [0..<n]"
    using ne assms ks(1,3) by (intro pop_in_order [where s = s]) (simp_all add: filled_def)
  then show ?thesis by (simp add: f)
qed

theorem frames_play_in_order_witness:
  "pop_many 4 (fold (\<lambda>k. jb_push (65534 + int k) [of_nat k]) [2, 0, 3, 1] (new_jitter JITTER_TARGET_FRAMES JITTER_MAX_FRAMES))
    = [Some [0], Some [1], Some [2], Some [3]]"
proof -
  have "mset [2, 0, 3, 1] = mset [0..<4 :: nat]" by (simp add: upt_rec numeral_eq_Suc add_mset_commute)
  from frames_play_in_order [OF this, of JITTER_TARGET_FRAMES JITTER_MAX_FRAMES 65534 "\<lambda>k. [of_nat k]"]
  show ?thesis by (simp add: JITTER_TARGET_FRAMES_def JITTER_MAX_FRAMES_def upt_rec)
qed

text \<open>Whatever a peer sends, the buffer holds at most its maximum of frames, one per
  sequence number.\<close>

theorem jitter_bounded:
  "jb_depth (fold jb_step ops (new_jitter t m)) \<le> m
   \<and> distinct (map fst (jb_frames (fold jb_step ops (new_jitter t m))))"
  using jitter_buffer.inv_run [of ops t m] jb_max_run [of ops "new_jitter t m"]
  by (simp add: jb_inv_def jb_depth_def) (simp add: new_jitter_def)

end
