(* ===== verification/User_Directory.thy ===== *)
theory User_Directory
  imports Contracts
begin

text \<open>
  \<^verbatim>\<open>trenchchat/core/user_directory.py\<close>: the peers heard announcing TrenchChat. \<^verbatim>\<open>time.time()\<close>
  is the argument \<open>now\<close>; the callbacks fired are recorded in \<open>ud_fired\<close>.
\<close>

definition DIRECTORY_TTL_SECS :: secs where "DIRECTORY_TTL_SECS = 86400"
definition MAX_DIRECTORY_PEERS :: nat where "MAX_DIRECTORY_PEERS = 512"

record directory =
  ud_self :: hexid
  ud_ttl :: secs
  ud_entries :: "(hexid \<times> string \<times> secs) list"
  ud_fired :: "(hexid \<times> string) list"

definition new_directory :: "hexid \<Rightarrow> secs \<Rightarrow> directory" where
  "new_directory self ttl_secs = \<lparr>ud_self = self, ud_ttl = ttl_secs, ud_entries = [], ud_fired = []\<rparr>"

text \<open>\<^verbatim>\<open>min(entries, key=last_seen)\<close>, the first of the least recently seen.\<close>

definition least_recent :: "(hexid \<times> string \<times> secs) list \<Rightarrow> hexid option" where
  "least_recent entries = (case entries of [] \<Rightarrow> None | e # es \<Rightarrow> Some (fst (min_by (snd o snd) e es)))"

definition record_user :: "secs \<Rightarrow> hexid \<Rightarrow> string \<Rightarrow> directory \<Rightarrow> directory" where
  "record_user now peer_hex display_name d =
     (if peer_hex = ud_self d then d
      else let entries = ud_entries d;
               entries = (if length entries \<ge> MAX_DIRECTORY_PEERS \<and> map_of entries peer_hex = None
                          then case least_recent entries of
                                 Some oldest \<Rightarrow> AList.delete oldest entries
                               | None \<Rightarrow> entries
                          else entries);
               changed = (case map_of entries peer_hex of
                            None \<Rightarrow> True
                          | Some previous \<Rightarrow> fst previous \<noteq> display_name)
           in d\<lparr>ud_entries := AList.update peer_hex (display_name, now) entries,
                ud_fired := (if changed then ud_fired d @ [(peer_hex, display_name)] else ud_fired d)\<rparr>)"

text \<open>\<^verbatim>\<open>q in text\<close> for strings.\<close>

fun substring :: "string \<Rightarrow> string \<Rightarrow> bool" where
  "substring q [] = (q = [])"
| "substring q (c # s) = (take (length q) (c # s) = q \<or> substring q s)"

definition search :: "secs \<Rightarrow> string \<Rightarrow> directory \<Rightarrow> (hexid \<times> string) list" where
  "search now query d =
     (let q = lower (strip_by is_py_space query)
      in sort_key (lower o snd)
           (map (\<lambda>(h, name, _). (h, name))
             (filter (\<lambda>(h, name, seen). \<not> now - seen \<ge> ud_ttl d
                        \<and> \<not> (q \<noteq> [] \<and> \<not> substring q (lower name) \<and> \<not> substring q (lower h)))
               (ud_entries d))))"

definition contains :: "secs \<Rightarrow> hexid \<Rightarrow> directory \<Rightarrow> bool" where
  "contains now peer_hex d =
     (case map_of (ud_entries d) peer_hex of None \<Rightarrow> False | Some e \<Rightarrow> now - snd e < ud_ttl d)"

definition get_all :: "secs \<Rightarrow> directory \<Rightarrow> (hexid \<times> string) list" where
  "get_all now d = search now [] d"

definition prune_directory :: "secs \<Rightarrow> directory \<Rightarrow> directory" where
  "prune_directory now d = d\<lparr>ud_entries := filter (\<lambda>(h, name, seen). \<not> now - seen \<ge> ud_ttl d) (ud_entries d)\<rparr>"

section \<open>Bounds\<close>

definition directory_ok :: "directory \<Rightarrow> bool" where
  "directory_ok d \<longleftrightarrow> distinct (map fst (ud_entries d)) \<and> length (ud_entries d) \<le> MAX_DIRECTORY_PEERS
     \<and> ud_self d \<notin> fst ` set (ud_entries d)"

datatype directory_event = RecordUser secs hexid string | PruneDirectory secs

fun directory_step :: "directory_event \<Rightarrow> directory \<Rightarrow> directory" where
  "directory_step (RecordUser now h name) d = record_user now h name d"
| "directory_step (PruneDirectory now) d = prune_directory now d"

lemma least_recent_in: "least_recent entries = Some k \<Longrightarrow> k \<in> fst ` set entries"
proof (cases entries)
  case (Cons e es)
  assume "least_recent entries = Some k"
  then have "k = fst (min_by (snd o snd) e es)" by (simp add: Cons least_recent_def)
  then show ?thesis using min_by_in [of "snd o snd" e es] by (auto simp: Cons)
qed (simp add: least_recent_def)

lemma directory_ok_record: "directory_ok d \<Longrightarrow> directory_ok (record_user now h name d)"
proof -
  assume d: "directory_ok d"
  define es where "es = (if length (ud_entries d) \<ge> MAX_DIRECTORY_PEERS \<and> map_of (ud_entries d) h = None
    then case least_recent (ud_entries d) of Some oldest \<Rightarrow> AList.delete oldest (ud_entries d) | None \<Rightarrow> ud_entries d
    else ud_entries d)"
  have dist: "distinct (map fst es)" using d by (auto simp: es_def directory_ok_def intro: distinct_keys_delete split: option.splits)
  have sub: "set es \<subseteq> set (ud_entries d)" 
    by (auto simp: es_def split: option.splits dest: subsetD [OF set_delete_sub])
  have room: "h \<in> fst ` set es \<or> length es < MAX_DIRECTORY_PEERS"
  proof (cases "length (ud_entries d) \<ge> MAX_DIRECTORY_PEERS \<and> map_of (ud_entries d) h = None")
    case True
    then obtain k where k: "least_recent (ud_entries d) = Some k"
      by (cases "ud_entries d") (auto simp: least_recent_def MAX_DIRECTORY_PEERS_def)
    have "Suc (length (AList.delete k (ud_entries d))) = length (ud_entries d)"
      by (rule length_delete_present) (use d least_recent_in [OF k] in \<open>auto simp: directory_ok_def\<close>)
    then show ?thesis using True d by (simp add: es_def k directory_ok_def)
  next
    case False
    then show ?thesis by (auto simp: es_def dom_fst_iff)
  qed
  have small: "length es \<le> MAX_DIRECTORY_PEERS"
    using d by (auto simp: es_def directory_ok_def intro: order.trans [OF length_delete_le] split: option.splits)
  have "record_user now h name d = d \<or> (h \<noteq> ud_self d \<and> ud_self (record_user now h name d) = ud_self d
      \<and> ud_entries (record_user now h name d) = AList.update h (name, now) es)"
    by (simp add: record_user_def Let_def es_def)
  moreover have "ud_self d \<notin> fst ` set es" using d sub by (auto simp: directory_ok_def image_iff)
  moreover have "length (AList.update h (name, now) es) \<le> MAX_DIRECTORY_PEERS"
    using room small unfolding length_update_new by (cases "h \<in> fst ` set es") simp_all
  ultimately show ?thesis
    using d dist by (elim disjE) (auto simp: directory_ok_def distinct_keys_update dom_update)
qed

interpretation peers_heard: machine "new_directory self ttl" directory_step directory_ok for self ttl
proof unfold_locales
  show "directory_ok (new_directory self ttl)" by (simp add: directory_ok_def new_directory_def)
  show "directory_ok (directory_step e d)" if "directory_ok d" for e d
    using that directory_ok_record
    by (cases e) (auto simp: prune_directory_def directory_ok_def distinct_keys_filter intro: order.trans [OF length_filter_le])
qed

text \<open>However many identities announce, at most 512 are remembered, ourselves never, and the
  announce just heard always is: only a least recently seen other entry makes room for it.\<close>

theorem directory_bounded:
  "directory_ok (fold directory_step es (new_directory self ttl))
   \<and> (let d = fold directory_step es (new_directory self ttl); d' = record_user now h name d
      in if h = ud_self d then d' = d
         else map_of (ud_entries d') h = Some (name, now)
              \<and> (case least_recent (ud_entries d) of
                   None \<Rightarrow> True
                 | Some oldest \<Rightarrow> if k = h \<or> k = oldest then True
                                  else map_of (ud_entries d') k = map_of (ud_entries d) k))"
  using peers_heard.inv_run [of es self ttl]
  by (auto simp: Let_def record_user_def split: option.splits)

end
