(* ===== verification/Connectivity.thy ===== *)
theory Connectivity
  imports Contracts
begin

text \<open>
  \<^verbatim>\<open>trenchchat/core/connectivity.py\<close>: noticing that this node's own connection came back. The
  sample of Reticulum's interfaces is the argument \<open>sample_online\<close>, the time \<open>now\<close>. The
  callbacks made are recorded in \<open>lw_resyncs\<close> by their time; an exception in one is caught and
  changes nothing. The thread that polls is left out.
\<close>

definition OFFLINE_SAMPLES_BEFORE_OUTAGE :: nat where "OFFLINE_SAMPLES_BEFORE_OUTAGE = 3"
definition MIN_RESYNC_INTERVAL_SECS :: secs where "MIN_RESYNC_INTERVAL_SECS = 120"

record link_watcher =
  lw_min_resync_interval :: secs
  lw_online :: "bool option"
  lw_offline_samples :: nat
  lw_last_resync_at :: "secs option"
  lw_resyncs :: "secs list"

definition new_link_watcher :: "secs \<Rightarrow> link_watcher" where
  "new_link_watcher min_resync_interval =
     \<lparr>lw_min_resync_interval = min_resync_interval, lw_online = None, lw_offline_samples = 0,
      lw_last_resync_at = None, lw_resyncs = []\<rparr>"

definition usable :: "bool \<Rightarrow> bool \<Rightarrow> bool \<Rightarrow> bool" where
  "usable detached online local_client = (if detached \<or> \<not> online then False else \<not> local_client)"

definition any_interface_online :: "(bool \<times> bool \<times> bool) list \<Rightarrow> bool" where
  "any_interface_online interfaces = list_ex (\<lambda>(detached, online, local_client). usable detached online local_client) interfaces"

definition poll :: "secs \<Rightarrow> bool \<Rightarrow> link_watcher \<Rightarrow> link_watcher \<times> bool" where
  "poll now sample_online w =
     (let w = w\<lparr>lw_offline_samples := (if sample_online then 0 else lw_offline_samples w + 1)\<rparr>
      in if \<not> sample_online \<and> lw_offline_samples w < OFFLINE_SAMPLES_BEFORE_OUTAGE
         then (w, lw_online w \<noteq> Some False)
         else let now_online = sample_online;
                  was_online = lw_online w;
                  w = w\<lparr>lw_online := Some now_online\<rparr>
              in if was_online = None \<or> was_online = Some now_online then (w, now_online)
                 else if now_online
                 then (case lw_last_resync_at w of
                         Some at_time \<Rightarrow>
                           if now - at_time < lw_min_resync_interval w then (w, now_online)
                           else (w\<lparr>lw_last_resync_at := Some now, lw_resyncs := lw_resyncs w @ [now]\<rparr>, now_online)
                       | None \<Rightarrow> (w\<lparr>lw_last_resync_at := Some now, lw_resyncs := lw_resyncs w @ [now]\<rparr>, now_online))
                 else (w, now_online))"

section \<open>Resyncs are spaced\<close>

text \<open>Times at least \<open>gap\<close> apart, in order.\<close>

fun spaced :: "secs \<Rightarrow> secs list \<Rightarrow> bool" where
  "spaced gap (x # y # zs) = (gap \<le> y - x \<and> spaced gap (y # zs))"
| "spaced gap _ = True"

lemma spaced_snoc: "spaced gap (xs @ [x]) \<Longrightarrow> gap \<le> y - x \<Longrightarrow> spaced gap (xs @ [x, y])"
  by (induction gap "xs @ [x]" arbitrary: xs rule: spaced.induct) (auto simp: neq_Nil_conv append_eq_Cons_conv Cons_eq_append_conv)

definition watcher_ok :: "link_watcher \<Rightarrow> bool" where
  "watcher_ok w \<longleftrightarrow> spaced (lw_min_resync_interval w) (lw_resyncs w)
     \<and> lw_last_resync_at w = (if lw_resyncs w = [] then None else Some (last (lw_resyncs w)))
     \<and> (lw_online w = None \<longrightarrow> lw_resyncs w = [])"

definition poll_step :: "secs \<times> bool \<Rightarrow> link_watcher \<Rightarrow> link_watcher" where
  "poll_step s w = fst (poll (fst s) (snd s) w)"

lemma spaced_append:
  assumes "spaced gap rs" "rs = [] \<or> gap \<le> t - last rs"
  shows "spaced gap (rs @ [t])"
proof (cases rs rule: rev_cases)
  case (snoc xs x)
  then show ?thesis using assms spaced_snoc [of gap xs x t] by simp
qed simp

lemma watcher_ok_poll: "watcher_ok w \<Longrightarrow> watcher_ok (poll_step s w)"
  by (auto simp: poll_step_def poll_def Let_def watcher_ok_def split: option.splits if_splits intro!: spaced_append)

interpretation watching: machine "new_link_watcher i" poll_step watcher_ok for i
  by unfold_locales (simp add: watcher_ok_def new_link_watcher_def, rule watcher_ok_poll)

lemma poll_interval: "lw_min_resync_interval (fold poll_step ss w) = lw_min_resync_interval w"
  by (induction ss arbitrary: w) (auto simp: poll_step_def poll_def Let_def split: option.splits)

text \<open>A watcher that has never seen an outage: fewer than three offline samples in a row.\<close>

fun longest_outage :: "nat \<Rightarrow> bool list \<Rightarrow> nat" where
  "longest_outage run [] = run"
| "longest_outage run (b # bs) = (if b then max run (longest_outage 0 bs) else longest_outage (run + 1) bs)"

lemma longest_outage_ge: "run \<le> longest_outage run bs"
  by (induction run bs rule: longest_outage.induct) auto

lemma no_outage_no_resync:
  assumes "lw_offline_samples w = run" "lw_online w \<noteq> Some False" "lw_resyncs w = rs"
    and "longest_outage run (map snd ss) < OFFLINE_SAMPLES_BEFORE_OUTAGE"
  shows "lw_resyncs (fold poll_step ss w) = rs"
  using assms
proof (induction ss arbitrary: run w)
  case (Cons s ss)
  obtain t b where s: "s = (t, b)" by (cases s)
  show ?case
  proof (cases b)
    case True
    have "longest_outage 0 (map snd ss) < OFFLINE_SAMPLES_BEFORE_OUTAGE" using Cons.prems(4) True by (simp add: s)
    then show ?thesis
      using Cons.prems True by (simp add: s) (rule Cons.IH, auto simp: poll_step_def poll_def Let_def)
  next
    case False
    have "longest_outage (run + 1) (map snd ss) < OFFLINE_SAMPLES_BEFORE_OUTAGE" using Cons.prems(4) False by (simp add: s)
    moreover from this have "run + 1 < OFFLINE_SAMPLES_BEFORE_OUTAGE"
      using longest_outage_ge [of "run + 1"] by (rule le_less_trans [rotated])
    ultimately show ?thesis
      using Cons.prems False by (simp add: s) (rule Cons.IH, auto simp: poll_step_def poll_def Let_def)
  qed
qed simp

text \<open>A resync is asked of the mesh at most once per interval, however the link flaps, and
  not at all while no outage lasts three samples, start-up included.\<close>

theorem resyncs_spaced:
  "spaced i (lw_resyncs (fold poll_step ss (new_link_watcher i)))
   \<and> (longest_outage 0 (map snd ss) < OFFLINE_SAMPLES_BEFORE_OUTAGE \<longrightarrow>
      lw_resyncs (fold poll_step ss (new_link_watcher i)) = [])"
proof -
  have "lw_min_resync_interval (new_link_watcher i) = i" by (simp add: new_link_watcher_def)
  then show ?thesis
    using watching.inv_run [of ss i] no_outage_no_resync [of "new_link_watcher i" 0 "[]" ss]
    by (auto simp: watcher_ok_def poll_interval) (auto simp: new_link_watcher_def)
qed

theorem resyncs_spaced_witness:
  "lw_resyncs (fold poll_step [(1, True), (2, False), (3, False), (4, True), (5, False)] (new_link_watcher 120)) = []"
  using resyncs_spaced [of 120 "[(1, True), (2, False), (3, False), (4, True), (5, False)]"]
  by (simp add: OFFLINE_SAMPLES_BEFORE_OUTAGE_def)

end
