(* ===== verification/Link_Metrics.thy ===== *)
theory Link_Metrics
  imports Contracts
begin

text \<open>
  \<^verbatim>\<open>trenchchat/core/bandwidth.py\<close> and \<^verbatim>\<open>trenchchat/core/link_quality.py\<close>: byte counters over
  windows, and the classification of paths. The counters an interface source yields, the RTT of
  an active link and the life left of a path are arguments. Rates are kept exact where the code
  rounds them for display, and the labels of the tiers are left out.
\<close>

section \<open>Bandwidth\<close>

definition BANDWIDTH_WINDOWS_SECS :: "secs list" where "BANDWIDTH_WINDOWS_SECS = [10, 60, 300]"
definition MIN_SAMPLE_GAP_SECS :: secs where "MIN_SAMPLE_GAP_SECS = 1 / 4"
definition MAX_AGE_SLACK_SECS :: secs where "MAX_AGE_SLACK_SECS = 5"

type_synonym counters = "(string \<times> int \<times> int) list"

record sample =
  sa_at :: secs
  sa_rx :: int
  sa_tx :: int
  sa_ifaces :: counters

record bandwidth =
  bw_windows :: "secs list"
  bw_max_age :: secs
  bw_samples :: "sample list"

definition new_bandwidth :: "secs list \<Rightarrow> bandwidth" where
  "new_bandwidth windows_secs =
     (let windows = sort windows_secs
      in \<lparr>bw_windows = windows, bw_max_age = last windows + MAX_AGE_SLACK_SECS, bw_samples = []\<rparr>)"

text \<open>The dict comprehension over the source's rows: the last row of a name counts.\<close>

definition per_interface :: "(string \<times> int \<times> int) list \<Rightarrow> counters" where
  "per_interface rows = fold (\<lambda>(name, rx, tx). AList.update name (rx, tx)) rows []"

definition bw_sample :: "secs \<Rightarrow> (string \<times> int \<times> int) list \<Rightarrow> bandwidth \<Rightarrow> bandwidth" where
  "bw_sample now rows b =
     (let per_iface = per_interface rows;
          total_rx = sum_list (map (fst o snd) per_iface);
          total_tx = sum_list (map (snd o snd) per_iface)
      in if bw_samples b \<noteq> [] \<and> now - sa_at (last (bw_samples b)) < MIN_SAMPLE_GAP_SECS then b
         else let samples = bw_samples b @ [\<lparr>sa_at = now, sa_rx = total_rx, sa_tx = total_tx, sa_ifaces = per_iface\<rparr>];
                  cutoff = now - bw_max_age b
              in b\<lparr>bw_samples := dropWhile (\<lambda>s. sa_at s < cutoff) samples\<rparr>)"

definition counter_delta :: "int \<Rightarrow> int \<Rightarrow> int" where
  "counter_delta older newer = (if newer < older then newer else newer - older)"

definition window_delta :: "counters \<Rightarrow> counters \<Rightarrow> int \<times> int" where
  "window_delta older newer =
     fold (\<lambda>(name, new_rx, new_tx) (rx, tx).
             let (old_rx, old_tx) = get_or (0, 0) older name
             in (rx + counter_delta old_rx new_rx, tx + counter_delta old_tx new_tx)) newer (0, 0)"

definition oldest_within :: "sample list \<Rightarrow> secs \<Rightarrow> sample" where
  "oldest_within samples cutoff = (case find (\<lambda>s. sa_at s \<ge> cutoff) samples of Some s \<Rightarrow> s | None \<Rightarrow> last samples)"

record window_rate =
  wr_secs :: secs
  wr_span :: secs
  wr_rx :: int
  wr_tx :: int
  wr_rx_per_sec :: "rat option"
  wr_tx_per_sec :: "rat option"

definition window_rate_of :: "sample list \<Rightarrow> secs \<Rightarrow> window_rate" where
  "window_rate_of samples window_secs =
     (let latest = last samples;
          oldest = oldest_within samples (sa_at latest - window_secs);
          span = sa_at latest - sa_at oldest;
          (rx, tx) = window_delta (sa_ifaces oldest) (sa_ifaces latest)
      in \<lparr>wr_secs = window_secs, wr_span = span, wr_rx = rx, wr_tx = tx,
          wr_rx_per_sec = (if span > 0 then Some (of_int rx / span) else None),
          wr_tx_per_sec = (if span > 0 then Some (of_int tx / span) else None)\<rparr>)"

definition rates :: "secs \<Rightarrow> (string \<times> int \<times> int) list \<Rightarrow> bandwidth \<Rightarrow> bandwidth \<times> (secs \<times> (int \<times> int) \<times> window_rate list)" where
  "rates now rows b =
     (let b = bw_sample now rows b; samples = bw_samples b
      in if samples = [] then (b, now, (0, 0), [])
         else (b, sa_at (last samples), (sa_rx (last samples), sa_tx (last samples)),
               map (window_rate_of samples) (bw_windows b)))"

section \<open>Path quality\<close>

text \<open>The tiers, as \<^verbatim>\<open>LinkQuality\<close> numbers them.\<close>

datatype link_quality = UNKNOWN_Q | POOR | FAIR | GOOD | EXCELLENT

fun quality_rank :: "link_quality \<Rightarrow> int" where
  "quality_rank UNKNOWN_Q = 0"
| "quality_rank POOR = 1"
| "quality_rank FAIR = 2"
| "quality_rank GOOD = 3"
| "quality_rank EXCELLENT = 4"

instantiation link_quality :: linorder
begin

definition less_eq_link_quality :: "link_quality \<Rightarrow> link_quality \<Rightarrow> bool" where
  "less_eq_link_quality a b = (quality_rank a \<le> quality_rank b)"

definition less_link_quality :: "link_quality \<Rightarrow> link_quality \<Rightarrow> bool" where
  "less_link_quality a b = (quality_rank a < quality_rank b)"

instance
proof
  fix x y z :: link_quality
  show "x < y \<longleftrightarrow> x \<le> y \<and> \<not> y \<le> x" by (auto simp: less_eq_link_quality_def less_link_quality_def)
  show "x \<le> x" by (simp add: less_eq_link_quality_def)
  show "x \<le> y \<Longrightarrow> y \<le> z \<Longrightarrow> x \<le> z" by (simp add: less_eq_link_quality_def)
  show "x \<le> y \<Longrightarrow> y \<le> x \<Longrightarrow> x = y" by (cases x; cases y; simp add: less_eq_link_quality_def)
  show "x \<le> y \<or> y \<le> x" by (auto simp: less_eq_link_quality_def)
qed

end

definition quality_of_rank :: "int \<Rightarrow> link_quality option" where
  "quality_of_rank n =
     (if n = 0 then Some UNKNOWN_Q else if n = 1 then Some POOR else if n = 2 then Some FAIR
      else if n = 3 then Some GOOD else if n = 4 then Some EXCELLENT else None)"

definition score_path ::
    "rat option \<Rightarrow> rat option \<Rightarrow> int \<Rightarrow> rat option \<Rightarrow> rat option \<Rightarrow> rat option \<Rightarrow> link_quality" where
  "score_path rtt ttl hops rssi snr q =
     (case q of
        Some q \<Rightarrow> if q \<ge> 8 / 10 then EXCELLENT else if q \<ge> 5 / 10 then GOOD else if q \<ge> 2 / 10 then FAIR else POOR
      | None \<Rightarrow>
     (case snr of
        Some snr \<Rightarrow> if snr \<ge> 10 then EXCELLENT else if snr \<ge> 5 then GOOD else if snr \<ge> 0 then FAIR else POOR
      | None \<Rightarrow>
     (case rssi of
        Some rssi \<Rightarrow> if rssi \<ge> -70 then EXCELLENT else if rssi \<ge> -85 then GOOD else if rssi \<ge> -100 then FAIR else POOR
      | None \<Rightarrow>
     (case rtt of
        Some rtt \<Rightarrow> if rtt \<le> 50 \<and> hops \<le> 1 then EXCELLENT else if rtt \<le> 200 then GOOD
                    else if rtt \<le> 800 then FAIR else POOR
      | None \<Rightarrow>
          if hops = 0 then EXCELLENT
          else if hops = 1
          then (case ttl of None \<Rightarrow> EXCELLENT
                | Some ttl \<Rightarrow> if ttl \<ge> 120 then EXCELLENT else if ttl \<ge> 30 then GOOD else FAIR)
          else if hops = 2
          then (case ttl of None \<Rightarrow> FAIR | Some ttl \<Rightarrow> if ttl \<ge> 120 then GOOD else FAIR)
          else (case ttl of None \<Rightarrow> POOR | Some ttl \<Rightarrow> if ttl \<ge> 120 then FAIR else POOR)))))"

section \<open>A channel's summary\<close>

text \<open>A peer's reading: its identity, its tier and its hop count, \<open>None\<close> with no path.\<close>

record peer_reading =
  pg_identity :: hexid
  pg_quality :: link_quality
  pg_hops :: "int option"

definition lower_median :: "'a::linorder list \<Rightarrow> 'a" where
  "lower_median values = sort values ! ((length values - 1) div 2)"

record channel_summary =
  cs_level :: link_quality
  cs_reachable :: nat
  cs_total :: nat
  cs_median_hops :: "int option"
  cs_best_identity :: "hexid option"
  cs_best_hops :: "int option"

definition summarize_channel :: "peer_reading list \<Rightarrow> channel_summary" where
  "summarize_channel peers =
     (case filter (\<lambda>p. pg_hops p \<noteq> None) peers of
        [] \<Rightarrow> \<lparr>cs_level = UNKNOWN_Q, cs_reachable = 0, cs_total = length peers, cs_median_hops = None,
              cs_best_identity = None, cs_best_hops = None\<rparr>
      | p # ps \<Rightarrow>
          (let reachable = p # ps;
               hops = (\<lambda>p. case pg_hops p of Some h \<Rightarrow> h | None \<Rightarrow> 0);
               best = min_by (\<lambda>p. (- quality_rank (pg_quality p), hops p)) p ps
           in \<lparr>cs_level = lower_median (map pg_quality reachable), cs_reachable = length reachable,
               cs_total = length peers, cs_median_hops = Some (lower_median (map hops reachable)),
               cs_best_identity = Some (pg_identity best), cs_best_hops = Some (hops best)\<rparr>))"

section \<open>Properties\<close>

lemma fold_window_delta:
  "fold (\<lambda>(name, new_rx, new_tx) (rx, tx). let (old_rx, old_tx) = get_or (0, 0) older name
      in (rx + counter_delta old_rx new_rx, tx + counter_delta old_tx new_tx)) newer (a, b) =
   (a + (\<Sum>(n, x, y) \<leftarrow> newer. counter_delta (fst (get_or (0, 0) older n)) x),
    b + (\<Sum>(n, x, y) \<leftarrow> newer. counter_delta (snd (get_or (0, 0) older n)) y))"
  by (induction newer arbitrary: a b) (auto simp: Let_def split: prod.splits)

lemma length_filter_split:
  "(\<And>x. x \<in> set (drop m s) \<Longrightarrow> \<not> P x) \<Longrightarrow> length (filter P s) \<le> m"
proof -
  assume a: "\<And>x. x \<in> set (drop m s) \<Longrightarrow> \<not> P x"
  then have "filter P (drop m s) = []" by (simp add: filter_empty_conv)
  then have "filter P s = filter P (take m s)" by (metis append_take_drop_id filter_append append_Nil2)
  then show ?thesis using length_filter_le [of P "take m s"] by simp
qed

lemma median_count:
  fixes xs :: "'a::linorder list"
  assumes "xs \<noteq> []"
  shows "2 * length (filter (\<lambda>x. x < lower_median xs) xs) < length xs
    \<and> 2 * length (filter (\<lambda>x. lower_median xs < x) xs) \<le> length xs"
proof -
  let ?s = "sort xs" and ?m = "(length xs - 1) div 2"
  have n: "?m < length ?s" using assms by (cases xs) auto
  have filt: "length (filter P xs) = length (filter P ?s)" for P
    by (simp add: filter_sort)
  have "\<not> x < ?s ! ?m" if x: "x \<in> set (drop ?m ?s)" for x
  proof -
    obtain i where i: "i < length (drop ?m ?s)" "x = drop ?m ?s ! i"
      using x unfolding in_set_conv_nth by metis
    then have "x = ?s ! (?m + i)" "?m + i < length ?s" using n by simp_all
    then show ?thesis using sorted_nth_mono [OF sorted_sort, of ?m "?m + i" xs] by simp
  qed
  then have "length (filter (\<lambda>x. x < ?s ! ?m) ?s) \<le> ?m" by (rule length_filter_split)
  moreover have "length (filter (\<lambda>x. ?s ! ?m < x) ?s) \<le> length ?s - Suc ?m"
  proof -
    have "filter (\<lambda>x. ?s ! ?m < x) (take (Suc ?m) ?s) = []"
    proof -
      have "\<not> ?s ! ?m < x" if "x \<in> set (take (Suc ?m) ?s)" for x
      proof -
        obtain i where i: "i < Suc ?m" "x = ?s ! i" using \<open>x \<in> set (take (Suc ?m) ?s)\<close> by (auto simp: in_set_conv_nth)
        then have "x \<le> ?s ! ?m" using sorted_nth_mono [OF sorted_sort, of i ?m xs] n by simp
        then show ?thesis by simp
      qed
      then show ?thesis by (simp only: filter_empty_conv) blast
    qed
    then have "filter (\<lambda>x. ?s ! ?m < x) ?s = filter (\<lambda>x. ?s ! ?m < x) (drop (Suc ?m) ?s)"
      by (metis append_take_drop_id filter_append append_Nil)
    then show ?thesis using length_filter_le [of "\<lambda>x. ?s ! ?m < x" "drop (Suc ?m) ?s"] by simp
  qed
  ultimately show ?thesis
    using assms unfolding lower_median_def filt by (cases xs) auto
qed

text \<open>A channel's headline is honest: it counts exactly the peers with a path; fewer than half
  of them are worse than the level shown and at most half better; the peer named best is
  reachable and none scores higher.\<close>

theorem summary_is_median:
  assumes "filter (\<lambda>p. pg_hops p \<noteq> None) peers = reachable" and "reachable \<noteq> []"
  shows "cs_reachable (summarize_channel peers) = length reachable \<and> cs_total (summarize_channel peers) = length peers
    \<and> 2 * length (filter (\<lambda>p. pg_quality p < cs_level (summarize_channel peers)) reachable) < length reachable
    \<and> 2 * length (filter (\<lambda>p. cs_level (summarize_channel peers) < pg_quality p) reachable) \<le> length reachable
    \<and> (\<exists>best \<in> set reachable. cs_best_identity (summarize_channel peers) = Some (pg_identity best)
         \<and> cs_best_hops (summarize_channel peers) = pg_hops best
         \<and> (\<forall>p \<in> set reachable. pg_quality p \<le> pg_quality best))"
proof -
  obtain p ps where r: "reachable = p # ps" using assms(2) by (cases reachable) auto
  let ?hops = "\<lambda>p. case pg_hops p of Some h \<Rightarrow> h | None \<Rightarrow> 0"
  let ?key = "\<lambda>p. (- quality_rank (pg_quality p), ?hops p)"
  let ?best = "min_by ?key p ps"
  have s: "summarize_channel peers = \<lparr>cs_level = lower_median (map pg_quality reachable), cs_reachable = length reachable,
      cs_total = length peers, cs_median_hops = Some (lower_median (map ?hops reachable)),
      cs_best_identity = Some (pg_identity ?best), cs_best_hops = Some (?hops ?best)\<rparr>"
    using assms(1) by (simp add: summarize_channel_def r Let_def)
  have best: "?best \<in> set reachable" using min_by_in [of ?key p ps] by (simp add: r)
  then have hops: "Some (?hops ?best) = pg_hops ?best" using assms(1) by (auto split: option.splits)
  have top: "pg_quality x \<le> pg_quality ?best" if "x \<in> set reachable" for x
    using min_by_le [of x p ps ?key] that by (auto simp: r less_eq_link_quality_def less_eq_prod_def)
  have count: "length (filter P (map pg_quality reachable)) = length (filter (\<lambda>p. P (pg_quality p)) reachable)" for P
    by (simp add: filter_map comp_def)
  let ?level = "lower_median (map pg_quality reachable)"
  have m: "2 * length (filter (\<lambda>p. pg_quality p < ?level) reachable) < length reachable"
    "2 * length (filter (\<lambda>p. ?level < pg_quality p) reachable) \<le> length reachable"
    using median_count [of "map pg_quality reachable"] assms(2) unfolding count by simp_all
  have "\<exists>best \<in> set reachable. Some (pg_identity ?best) = Some (pg_identity best) \<and> Some (?hops ?best) = pg_hops best
      \<and> (\<forall>p \<in> set reachable. pg_quality p \<le> pg_quality best)"
    using best hops top by blast
  then show ?thesis unfolding s using m by simp
qed

theorem summary_is_median_witness:
  "cs_best_identity (summarize_channel [\<lparr>pg_identity = ''a'', pg_quality = FAIR, pg_hops = Some 3\<rparr>,
     \<lparr>pg_identity = ''b'', pg_quality = EXCELLENT, pg_hops = None\<rparr>]) = Some ''a''"
  using summary_is_median [of "[\<lparr>pg_identity = ''a'', pg_quality = FAIR, pg_hops = Some 3\<rparr>,
     \<lparr>pg_identity = ''b'', pg_quality = EXCELLENT, pg_hops = None\<rparr>]" "[\<lparr>pg_identity = ''a'', pg_quality = FAIR, pg_hops = Some 3\<rparr>]"]
  by simp

section \<open>The sample buffer\<close>

fun apart :: "secs \<Rightarrow> sample list \<Rightarrow> bool" where
  "apart gap (x # y # zs) = (gap \<le> sa_at y - sa_at x \<and> apart gap (y # zs))"
| "apart gap _ = True"

lemma apart_tl: "apart gap (x # xs) \<Longrightarrow> apart gap xs"
  by (cases xs) auto

lemma apart_dropWhile: "apart gap xs \<Longrightarrow> apart gap (dropWhile p xs)"
  by (induction xs) (auto dest: apart_tl)

lemma apart_snoc: "apart gap xs \<Longrightarrow> xs = [] \<or> gap \<le> sa_at y - sa_at (last xs) \<Longrightarrow> apart gap (xs @ [y])"
  by (induction gap xs rule: apart.induct) auto

lemma apart_span: "apart gap (x # xs) \<Longrightarrow> gap * of_nat (length xs) \<le> sa_at (last (x # xs)) - sa_at x"
proof (induction xs arbitrary: x)
  case (Cons y xs)
  then have "gap * of_nat (length xs) \<le> sa_at (last (y # xs)) - sa_at y" "gap \<le> sa_at y - sa_at x" by auto
  then show ?case by (simp add: algebra_simps)
qed simp

definition bandwidth_ok :: "bandwidth \<Rightarrow> bool" where
  "bandwidth_ok b \<longleftrightarrow> apart MIN_SAMPLE_GAP_SECS (bw_samples b)
     \<and> (bw_samples b \<noteq> [] \<longrightarrow> sa_at (last (bw_samples b)) - bw_max_age b \<le> sa_at (hd (bw_samples b)))"

lemma bandwidth_ok_sample:
  assumes "bandwidth_ok b" "0 \<le> bw_max_age b"
  shows "bandwidth_ok (bw_sample now rows b)"
proof -
  define new where "new = \<lparr>sa_at = now, sa_rx = sum_list (map (fst o snd) (per_interface rows)),
      sa_tx = sum_list (map (snd o snd) (per_interface rows)), sa_ifaces = per_interface rows\<rparr>"
  let ?ss = "dropWhile (\<lambda>s. sa_at s < now - bw_max_age b) (bw_samples b @ [new])"
  show ?thesis
  proof (cases "bw_samples b \<noteq> [] \<and> now - sa_at (last (bw_samples b)) < MIN_SAMPLE_GAP_SECS")
    case False
    then have "apart MIN_SAMPLE_GAP_SECS (bw_samples b @ [new])"
      using assms by (intro apart_snoc) (auto simp: bandwidth_ok_def new_def)
    then have a: "apart MIN_SAMPLE_GAP_SECS ?ss" by (rule apart_dropWhile)
    have kept: "\<not> sa_at new < now - bw_max_age b" using assms(2) by (simp add: new_def)
    have ne: "?ss \<noteq> []" using kept by auto
    have l: "last ?ss = new" using ne by (metis last_appendR last_snoc dropWhile_append3 dropWhile_eq_drop last_drop drop_eq_Nil not_le list.distinct(1))
    have h: "\<not> sa_at (hd ?ss) < now - bw_max_age b" using hd_dropWhile [OF ne] by simp
    have "bw_sample now rows b = b\<lparr>bw_samples := ?ss\<rparr>" unfolding bw_sample_def Let_def new_def if_not_P [OF False] by simp
    then show ?thesis using a l h by (simp add: bandwidth_ok_def new_def)
  qed (use assms in \<open>simp add: bw_sample_def Let_def\<close>)
qed

lemma max_age_kept [simp]: "bw_max_age (bw_sample now rows b) = bw_max_age b"
  by (simp add: bw_sample_def Let_def)

text \<open>A monitor over the default windows, sampled at any times.\<close>

definition monitor :: bandwidth where
  "monitor = new_bandwidth BANDWIDTH_WINDOWS_SECS"

definition sampled :: "secs \<times> (string \<times> int \<times> int) list \<Rightarrow> bandwidth \<Rightarrow> bandwidth" where
  "sampled s = bw_sample (fst s) (snd s)"

interpretation monitoring: machine monitor sampled "\<lambda>b. bandwidth_ok b \<and> bw_max_age b = 305"
  by unfold_locales
     (simp_all add: sampled_def bandwidth_ok_sample, simp add: monitor_def new_bandwidth_def bandwidth_ok_def
        BANDWIDTH_WINDOWS_SECS_def MAX_AGE_SLACK_SECS_def)

text \<open>However often it is polled, the monitor keeps at most 1221 samples: they are a quarter of
  a second apart and none is older than the largest window and its slack. And what it reports
  as moved is never negative, an interface that restarted its counters included.\<close>

theorem bandwidth_history_bounded:
  "length (bw_samples (fold sampled ss monitor)) \<le> 1221
   \<and> (list_all (\<lambda>(n, rx, tx). 0 \<le> rx \<and> 0 \<le> tx) older \<and> list_all (\<lambda>(n, rx, tx). 0 \<le> rx \<and> 0 \<le> tx) newer \<longrightarrow>
      0 \<le> fst (window_delta older newer) \<and> 0 \<le> snd (window_delta older newer))"
proof (intro conjI impI)
  let ?b = "fold sampled ss monitor"
  have b: "bandwidth_ok ?b" "bw_max_age ?b = 305" using monitoring.inv_run [of ss] by simp_all
  show "length (bw_samples ?b) \<le> 1221"
  proof (cases "bw_samples ?b")
    case (Cons x xs)
    have "MIN_SAMPLE_GAP_SECS * of_nat (length xs) \<le> sa_at (last (x # xs)) - sa_at x"
      by (rule apart_span) (use b(1) Cons in \<open>simp add: bandwidth_ok_def\<close>)
    also have "\<dots> \<le> 305" using b Cons by (simp add: bandwidth_ok_def algebra_simps)
    finally have "of_nat (length xs) \<le> (1220 :: rat)" by (simp add: MIN_SAMPLE_GAP_SECS_def)
    then have "length xs \<le> 1220" by (metis of_nat_le_iff of_nat_numeral)
    then show ?thesis using Cons by simp
  qed simp
next
  assume a: "list_all (\<lambda>(n, rx, tx). 0 \<le> rx \<and> 0 \<le> tx) older \<and> list_all (\<lambda>(n, rx, tx). 0 \<le> rx \<and> 0 \<le> tx) newer"
  have old: "0 \<le> fst (get_or (0, 0) older n) \<and> 0 \<le> snd (get_or (0, 0) older n)" for n
  proof (cases "get_or (0, 0) older n = (0, 0)")
    case False
    then show ?thesis using a get_or_entry_ok [OF _ False] by fastforce
  qed simp
  have "0 \<le> counter_delta x y" if "0 \<le> x" "0 \<le> y" for x y
    using that by (simp add: counter_delta_def)
  then show "0 \<le> fst (window_delta older newer)" "0 \<le> snd (window_delta older newer)"
    unfolding window_delta_def fold_window_delta using a old
    by (fastforce simp: list_all_iff intro!: sum_list_nonneg)+
qed

theorem bandwidth_history_bounded_witness:
  "0 \<le> fst (window_delta [(''eth'', 900, 10)] [(''eth'', 20, 30)])"
  using bandwidth_history_bounded [of "[]" "[(''eth'', 900, 10)]" "[(''eth'', 20, 30)]"] by simp

end
