(* ===== verification/Authorship.thy ===== *)
theory Authorship
  imports Contracts Protocol
begin

text \<open>
  \<^verbatim>\<open>trenchchat/core/authorship.py\<close> and the table \<^verbatim>\<open>identity_keys\<close>: public keys learned, checked
  and cached, and the check that a message was written by the author it names. Reticulum's
  identities are a parameter: \<open>rn_key_hash\<close> loads a public key and gives its hash (\<open>None\<close>
  where loading raises or leaves no hash), \<open>rn_delivery\<close> is the hash of the LXMF delivery
  destination of an identity (\<open>None\<close> for the TypeError), \<open>rn_recall\<close> looks an identity up by it,
  and \<open>rn_validate\<close> checks a signature (\<open>None\<close> where it raises).
\<close>

section \<open>State and operations\<close>

record peer_identity =
  pe_key :: "bytes option"
  pe_hash :: bytes

record rns =
  rn_key_hash :: "bytes \<Rightarrow> bytes option"
  rn_delivery :: "bytes \<Rightarrow> bytes option"
  rn_recall :: "bytes \<Rightarrow> peer_identity option"
  rn_validate :: "peer_identity \<Rightarrow> bytes \<Rightarrow> bytes \<Rightarrow> bool option"

record key_row =
  ky_id :: hexid
  ky_key :: bytes
  ky_learned :: secs

type_synonym keys = "key_row list"

definition remember_identity_key :: "secs \<Rightarrow> hexid \<Rightarrow> bytes \<Rightarrow> keys \<Rightarrow> keys" where
  "remember_identity_key now h key = insert_ignore ky_id \<lparr>ky_id = h, ky_key = key, ky_learned = now\<rparr>"

definition get_identity_key :: "keys \<Rightarrow> hexid \<Rightarrow> bytes option" where
  "get_identity_key ks h = (if h = [] then None else map_option ky_key (row_of ky_id ks h))"

definition identity_from_key :: "rns \<Rightarrow> bytes \<Rightarrow> hexid \<Rightarrow> peer_identity option" where
  "identity_from_key n public_key expected_hash_hex =
     (case rn_key_hash n public_key of
        None \<Rightarrow> None
      | Some h \<Rightarrow> if to_hex h \<noteq> expected_hash_hex then None else Some \<lparr>pe_key = Some public_key, pe_hash = h\<rparr>)"

definition key_matches :: "rns \<Rightarrow> bytes \<Rightarrow> hexid \<Rightarrow> bool" where
  "key_matches n public_key h = (identity_from_key n public_key h \<noteq> None)"

definition remember_identity :: "rns \<Rightarrow> secs \<Rightarrow> peer_identity \<Rightarrow> keys \<Rightarrow> keys" where
  "remember_identity n now peer ks =
     (case pe_key peer of
        None \<Rightarrow> ks
      | Some public_key \<Rightarrow>
          if public_key = [] \<or> \<not> key_matches n public_key (to_hex (pe_hash peer)) then ks
          else remember_identity_key now (to_hex (pe_hash peer)) public_key ks)"

definition remember_relayed_key :: "rns \<Rightarrow> secs \<Rightarrow> hexid \<Rightarrow> pyval \<Rightarrow> keys \<Rightarrow> keys \<times> bool" where
  "remember_relayed_key n now author public_key ks =
     (case public_key of
        PBytes key \<Rightarrow>
          if author = [] \<or> key = [] \<or> \<not> key_matches n key author then (ks, False)
          else (remember_identity_key now author key ks, True)
      | _ \<Rightarrow> (ks, False))"

definition resolve_author :: "rns \<Rightarrow> secs \<Rightarrow> hexid \<Rightarrow> keys \<Rightarrow> keys \<times> peer_identity option" where
  "resolve_author n now author ks =
     (if author = [] then (ks, None)
      else case (case get_identity_key ks author of
                   None \<Rightarrow> None
                 | Some cached \<Rightarrow> if cached = [] then None else identity_from_key n cached author) of
             Some peer \<Rightarrow> (ks, Some peer)
           | None \<Rightarrow>
               (case Option.bind (fromhex author) (rn_delivery n) of
                  None \<Rightarrow> (ks, None)
                | Some delivery_hash \<Rightarrow>
                    (case rn_recall n delivery_hash of
                       None \<Rightarrow> (ks, None)
                     | Some recalled \<Rightarrow> (remember_identity n now recalled ks, Some recalled))))"

definition public_key_for :: "rns \<Rightarrow> secs \<Rightarrow> hexid \<Rightarrow> keys \<Rightarrow> keys \<times> bytes option" where
  "public_key_for n now author ks =
     (let (ks, peer) = resolve_author n now author ks in (ks, Option.bind peer pe_key))"

text \<open>\<^verbatim>\<open>verify_message\<close>; the result is \<open>None\<close> where building the digest raises (a channel hash
  that is not hexadecimal, a field of 2^32 bytes).\<close>

definition verify_message ::
    "rns \<Rightarrow> (bytes \<Rightarrow> bytes) \<Rightarrow> (pyval \<Rightarrow> string) \<Rightarrow> secs \<Rightarrow> hexid \<Rightarrow> pyval \<Rightarrow> hexid \<Rightarrow> signed_message
     \<Rightarrow> keys \<Rightarrow> keys \<times> bool option" where
  "verify_message n sha repr now author signature channel m ks =
     (case signature of
        PBytes sig \<Rightarrow>
          if sig = [] then (ks, Some False)
          else (case resolve_author n now author ks of
                  (ks, None) \<Rightarrow> (ks, Some False)
                | (ks, Some peer) \<Rightarrow>
                    (case author_digest sha repr channel m of
                       None \<Rightarrow> (ks, None)
                     | Some digest \<Rightarrow> (ks, Some (rn_validate n peer sig digest = Some True))))
      | _ \<Rightarrow> (ks, Some False))"

definition sign_message ::
    "(bytes \<Rightarrow> bytes) \<Rightarrow> (bytes \<Rightarrow> bytes) \<Rightarrow> (pyval \<Rightarrow> string) \<Rightarrow> hexid \<Rightarrow> signed_message \<Rightarrow> bytes option" where
  "sign_message sign sha repr channel m = map_option sign (author_digest sha repr channel m)"

lemmas authorship_defs [op_defs] =
  remember_identity_key_def get_identity_key_def identity_from_key_def key_matches_def remember_identity_def
  remember_relayed_key_def resolve_author_def public_key_for_def verify_message_def sign_message_def

section \<open>Cached keys belong to their identity\<close>

definition keys_ok :: "rns \<Rightarrow> keys \<Rightarrow> bool" where
  "keys_ok n ks = (unique_key ky_id ks \<and>
     list_all (\<lambda>r. ky_key r \<noteq> [] \<and> map_option to_hex (rn_key_hash n (ky_key r)) = Some (ky_id r)) ks)"

datatype key_event =
    LearnIdentity secs peer_identity
  | LearnRelayed secs hexid pyval
  | Resolve secs hexid

fun key_step :: "rns \<Rightarrow> key_event \<Rightarrow> keys \<Rightarrow> keys" where
  "key_step n (LearnIdentity now peer) ks = remember_identity n now peer ks"
| "key_step n (LearnRelayed now author key) ks = fst (remember_relayed_key n now author key ks)"
| "key_step n (Resolve now author) ks = fst (resolve_author n now author ks)"

lemma key_matches_iff: "key_matches n key h \<longleftrightarrow> map_option to_hex (rn_key_hash n key) = Some h"
  by (auto simp: key_matches_def identity_from_key_def split: option.splits)

lemma keys_ok_remember [inv_intros]:
  "keys_ok n ks \<Longrightarrow> key \<noteq> [] \<Longrightarrow> key_matches n key h \<Longrightarrow> keys_ok n (remember_identity_key now h key ks)"
  by (auto simp: keys_ok_def remember_identity_key_def key_matches_iff insert_ignore_def has_key_iff unique_key_snoc)

lemma keys_ok_identity [inv_intros]: "keys_ok n ks \<Longrightarrow> keys_ok n (remember_identity n now peer ks)"
  by (auto simp: remember_identity_def intro: keys_ok_remember split: option.splits)

lemma keys_ok_resolve [inv_intros]: "keys_ok n ks \<Longrightarrow> keys_ok n (fst (resolve_author n now author ks))"
  by (auto simp: resolve_author_def intro: keys_ok_identity split: option.splits)

lemma keys_ok_relayed [inv_intros]: "keys_ok n ks \<Longrightarrow> keys_ok n (fst (remember_relayed_key n now author key ks))"
  by (auto simp: remember_relayed_key_def intro: keys_ok_remember split: pyval.splits)

lemma keys_ok_step: "keys_ok n ks \<Longrightarrow> keys_ok n (key_step n e ks)"
  by (cases e) (auto intro: inv_intros)

interpretation key_cache: machine "[]" "key_step n" "keys_ok n" for n
  by unfold_locales (simp add: keys_ok_def unique_key_def, rule keys_ok_step)

text \<open>A key, once cached, is never replaced: neither another key nor another peer displaces it.\<close>

lemma cached_key_stays:
  "get_identity_key ks h = Some key \<Longrightarrow> get_identity_key (fold (key_step n) es ks) h = Some key"
proof (induction es arbitrary: ks)
  case (Cons e es)
  have keep: "get_identity_key (remember_identity_key now h' k ks) h = Some key" for now h' k
    using Cons.prems by (auto simp: get_identity_key_def remember_identity_key_def split: if_splits)
  then have "get_identity_key (remember_identity n now peer ks) h = Some key" for now peer
    using Cons.prems by (auto simp: remember_identity_def split: option.splits)
  then have "get_identity_key (key_step n e ks) h = Some key"
    using Cons.prems keep
    by (cases e) (auto simp: remember_relayed_key_def resolve_author_def split: option.splits pyval.splits)
  then show ?case using Cons.IH by simp
qed simp

section \<open>A verified message was signed by its author\<close>

lemma resolved_peer:
  assumes "keys_ok n ks" and "snd (resolve_author n now author ks) = Some peer"
    and honest: "\<forall>d p. rn_recall n d = Some p \<longrightarrow>
        (\<exists>k. pe_key p = Some k \<and> rn_key_hash n k = Some (pe_hash p)) \<and> rn_delivery n (pe_hash p) = Some d"
    and apart: "inj_on (rn_delivery n) {h. rn_delivery n h \<noteq> None}"
  shows "\<exists>k. pe_key peer = Some k \<and> rn_key_hash n k = Some (pe_hash peer) \<and> fromhex author = Some (pe_hash peer)"
proof (cases "Option.bind (get_identity_key ks author) (\<lambda>c. if c = [] then None else identity_from_key n c author)")
  case (Some p)
  then have "p = peer" using assms(2) by (auto simp: resolve_author_def split: option.splits if_splits bind_splits)
  then show ?thesis using Some
    by (auto simp: identity_from_key_def fromhex_to_hex split: option.splits if_splits bind_splits)
next
  case None
  then have "author \<noteq> [] \<and> Option.bind (Option.bind (fromhex author) (rn_delivery n)) (rn_recall n) = Some peer"
    using assms(2) by (auto simp: resolve_author_def split: option.splits if_splits bind_splits)
  then obtain h d where h: "fromhex author = Some h" "rn_delivery n h = Some d" "rn_recall n d = Some peer"
    by (auto split: bind_splits)
  have "rn_delivery n (pe_hash peer) = Some d" using honest h(3) by blast
  then have "pe_hash peer = h" using h(2) apart by (auto simp: inj_on_def)
  then show ?thesis using honest h(1,3) by auto
qed

text \<open>C29. Whatever keys relays and announces handed over before, a message that verifies was signed
  by the identity it names: the signature validates, on the digest of the message as presented,
  under a key that hashes to the author. And the cache it is checked against holds one key for an identity,
  a key that hashes to it, which nothing that is learned later replaces. Reticulum is relied on for
  this: an identity recalled for a destination is that destination's, and no two identities share one.\<close>

theorem verified_means_signed:
  fixes n :: rns and es :: "key_event list"
  defines "ks \<equiv> fold (key_step n) es []"
  assumes honest: "\<forall>d p. rn_recall n d = Some p \<longrightarrow>
        (\<exists>k. pe_key p = Some k \<and> rn_key_hash n k = Some (pe_hash p)) \<and> rn_delivery n (pe_hash p) = Some d"
    and apart: "inj_on (rn_delivery n) {h. rn_delivery n h \<noteq> None}"
    and v: "snd (verify_message n sha repr now author signature channel m ks) = Some True"
  shows "(\<exists>peer key sig digest. signature = PBytes sig \<and> author_digest sha repr channel m = Some digest
      \<and> rn_validate n peer sig digest = Some True
      \<and> pe_key peer = Some key \<and> rn_key_hash n key = Some (pe_hash peer) \<and> fromhex author = Some (pe_hash peer))
    \<and> distinct (map ky_id ks)
    \<and> (\<forall>r \<in> set ks. map_option to_hex (rn_key_hash n (ky_key r)) = Some (ky_id r))
    \<and> (\<forall>h key es'. get_identity_key ks h = Some key \<longrightarrow> get_identity_key (fold (key_step n) es' ks) h = Some key)"
proof -
  obtain sig where sig: "signature = PBytes sig" "sig \<noteq> []"
    using v by (auto simp: verify_message_def split: pyval.splits if_splits)
  then obtain peer digest where p: "snd (resolve_author n now author ks) = Some peer"
      "author_digest sha repr channel m = Some digest" "rn_validate n peer sig digest = Some True"
    using v by (auto simp: verify_message_def split: prod.splits option.splits)
  have ok: "keys_ok n ks" unfolding ks_def by (rule key_cache.inv_run)
  have "\<exists>peer key sig digest. signature = PBytes sig \<and> author_digest sha repr channel m = Some digest
      \<and> rn_validate n peer sig digest = Some True
      \<and> pe_key peer = Some key \<and> rn_key_hash n key = Some (pe_hash peer) \<and> fromhex author = Some (pe_hash peer)"
    using resolved_peer [OF ok p(1) honest apart] p(2,3) sig(1) by blast
  then show ?thesis using ok cached_key_stays by (auto simp: keys_ok_def unique_key_def list_all_iff)
qed

text \<open>A node whose key hashes are the keys themselves, and a key handed over by a relay.\<close>

theorem verified_means_signed_witness:
  "\<exists>n m (peer :: peer_identity) key. n = \<lparr>rn_key_hash = Some, rn_delivery = Some, rn_recall = (\<lambda>_. None),
                rn_validate = (\<lambda>p s d. Some (pe_hash p = [10] \<and> s = [7]))\<rparr>
     \<and> snd (verify_message n (\<lambda>b. b) (\<lambda>_. []) 5 ''0a'' (PBytes [7]) [] m
              (fold (key_step n) [LearnRelayed 0 ''0a'' (PBytes [10])] [])) = Some True
     \<and> pe_key peer = Some key \<and> rn_key_hash n key = Some (pe_hash peer) \<and> fromhex ''0a'' = Some (pe_hash peer)
     \<and> get_identity_key (fold (key_step n) [LearnRelayed 6 ''0a'' (PBytes [11])]
         (fold (key_step n) [LearnRelayed 0 ''0a'' (PBytes [10])] [])) ''0a'' = Some [10]"
proof -
  let ?n = "\<lparr>rn_key_hash = Some, rn_delivery = Some, rn_recall = (\<lambda>_. None),
             rn_validate = (\<lambda>p s d. Some (pe_hash p = [10] \<and> s = [7]))\<rparr>"
  let ?m = "\<lparr>sm_id = ''ab'', sm_timestamp = 1, sm_content = ''hi'', sm_reply_to = None, sm_last_seen = None,
             sm_image = None, sm_manifest = None\<rparr>"
  have "length (fmt6 1) \<le> 20"
    by (simp add: fmt6_def round_half_even_def pad6_def dec_nat.simps)
  then have "length (utf8 (fmt6 1)) \<le> 40" using length_utf8 [of "fmt6 1"] by simp
  then have "\<exists>b. length_prefixed (author_parts (\<lambda>b. b) (\<lambda>_. []) [] ?m) = Some b"
    by (intro length_prefixed_total)
      (simp add: author_parts_def or_empty_def AUTHOR_SIG_DOMAIN_def utf8_char_cases)
  then obtain dg where dg: "author_digest (\<lambda>b. b) (\<lambda>_. []) [] ?m = Some dg"
    by (auto simp: author_digest_def)
  have hx: "to_hex [10] = ''0a''" by code_simp
  have v: "snd (verify_message ?n (\<lambda>b. b) (\<lambda>_. []) 5 ''0a'' (PBytes [7]) [] ?m
      (fold (key_step ?n) [LearnRelayed 0 ''0a'' (PBytes [10])] [])) = Some True"
    using dg by (simp add: authorship_defs insert_ignore_def has_key_def hx del: to_hex_simps)
  have inj: "inj_on (rn_delivery ?n) {h. rn_delivery ?n h \<noteq> None}" by (simp add: inj_on_def)
  have h: "\<forall>d p. rn_recall ?n d = Some p \<longrightarrow>
      (\<exists>k. pe_key p = Some k \<and> rn_key_hash ?n k = Some (pe_hash p)) \<and> rn_delivery ?n (pe_hash p) = Some d"
    by simp
  let ?ks = "fold (key_step ?n) [LearnRelayed 0 ''0a'' (PBytes [10])] []"
  have "get_identity_key ?ks ''0a'' = Some [10]"
    by (simp add: authorship_defs insert_ignore_def has_key_def hx del: to_hex_simps)
  then have "get_identity_key (fold (key_step ?n) [LearnRelayed 6 ''0a'' (PBytes [11])] ?ks) ''0a'' = Some [10]"
    using verified_means_signed [OF h inj v] by blast
  moreover from verified_means_signed [OF h inj v] obtain peer :: peer_identity and key where "pe_key peer = Some key"
    "rn_key_hash ?n key = Some (pe_hash peer)" "fromhex ''0a'' = Some (pe_hash peer)" by blast
  ultimately show ?thesis using v by blast
qed

end
