(* ===== verification/Values.thy ===== *)
theory Values
  imports Contracts "HOL-Library.Multiset"
begin

text \<open>
  How Python and SQLite treat the values that a peer's document may hold in any place:
  conversion to a list, a dict or a set, comparison, sorting, the values a column of
  REAL affinity stores and how SQL compares them, and the JSON round trip of a column.
  Dict and set elements are told apart as values; that Python identifies 1, 1.0 and True as
  such is not modelled.
\<close>

section \<open>Conversions\<close>

text \<open>\<^verbatim>\<open>list(v)\<close>.\<close>

fun py_list :: "pyval \<Rightarrow> py_error + pyval list" where
  "py_list (PList xs) = Inr xs"
| "py_list (PTuple xs) = Inr xs"
| "py_list (PBytes b) = Inr (map (\<lambda>x. PInt (uint x)) b)"
| "py_list (PStr s) = Inr (map (\<lambda>c. PStr [c]) s)"
| "py_list (PDict d) = Inr (map fst d)"
| "py_list _ = Inl TypeError"

text \<open>\<^verbatim>\<open>dict(v)\<close>: of a dict, or of an iterable of pairs.\<close>

fun dict_of_pairs :: "(pyval \<times> pyval) list \<Rightarrow> pyval list \<Rightarrow> py_error + (pyval \<times> pyval) list" where
  "dict_of_pairs d [] = Inr d"
| "dict_of_pairs d (x # xs) =
     ebind (py_list x)
       (\<lambda>kv. case kv of
              [k, v] \<Rightarrow> if hashable k then dict_of_pairs (AList.update k v d) xs else Inl TypeError
            | _ \<Rightarrow> Inl ValueError)"

definition py_dict :: "pyval \<Rightarrow> py_error + (pyval \<times> pyval) list" where
  "py_dict v = (case v of PDict d \<Rightarrow> Inr d | _ \<Rightarrow> ebind (py_list v) (dict_of_pairs []))"

text \<open>\<^verbatim>\<open>set(xs)\<close> of a list.\<close>

definition py_set :: "pyval list \<Rightarrow> py_error + pyval set" where
  "py_set xs = (if list_all hashable xs then Inr (set xs) else Inl TypeError)"

section \<open>Comparison\<close>

definition number_of :: "pyval \<Rightarrow> pyfloat option" where
  "number_of v =
     (case v of
        PBool b \<Rightarrow> Some (Finite (if b then 1 else 0))
      | PInt i \<Rightarrow> Some (Finite (of_int i))
      | PFloat f \<Rightarrow> Some f
      | _ \<Rightarrow> None)"

lemma number_of_simps [simp]:
  "number_of PNone = None" "number_of (PStr t) = None" "number_of (PBytes b) = None" "number_of (PList xs) = None"
  "number_of (PTuple xs) = None" "number_of (PDict d) = None" "number_of (PFloat f) = Some f"
  "number_of (PInt i) = Some (Finite (of_int i))" "number_of (PBool q) = Some (Finite (if q then 1 else 0))"
  by (simp_all add: number_of_def)

fun float_less :: "pyfloat \<Rightarrow> pyfloat \<Rightarrow> bool" where
  "float_less (Finite x) (Finite y) = (x < y)"
| "float_less (Finite _) PosInf = True"
| "float_less NegInf (Finite _) = True"
| "float_less NegInf PosInf = True"
| "float_less _ _ = False"

fun float_le :: "pyfloat \<Rightarrow> pyfloat \<Rightarrow> bool" where
  "float_le NotANumber _ = False"
| "float_le _ NotANumber = False"
| "float_le (Finite x) (Finite y) = (x \<le> y)"
| "float_le x y = (x = y \<or> float_less x y)"

text \<open>\<^verbatim>\<open>max(x, y)\<close> and \<^verbatim>\<open>min(x, y)\<close> of two floats: the second only where it compares greater, or less.
  And a float moved by a finite amount.\<close>

definition py_max :: "pyfloat \<Rightarrow> pyfloat \<Rightarrow> pyfloat" where
  "py_max x y = (if float_less x y then y else x)"

definition py_min :: "pyfloat \<Rightarrow> pyfloat \<Rightarrow> pyfloat" where
  "py_min x y = (if float_less y x then y else x)"

definition float_shift :: "pyfloat \<Rightarrow> rat \<Rightarrow> pyfloat" where
  "float_shift x d = (case x of Finite q \<Rightarrow> Finite (q + d) | _ \<Rightarrow> x)"

text \<open>\<^verbatim>\<open>v < w\<close>, for numbers and for two texts or two bytes values; a TypeError otherwise. (Lists
  and tuples compare too; where the program compares, they end as a refused document.)\<close>

definition py_less :: "pyval \<Rightarrow> pyval \<Rightarrow> py_error + bool" where
  "py_less v w =
     (case (number_of v, number_of w) of
        (Some x, Some y) \<Rightarrow> Inr (float_less x y)
      | _ \<Rightarrow> (case (v, w) of
                (PBytes a, PBytes b) \<Rightarrow> Inr (a < b)
              | (PStr a, PStr b) \<Rightarrow> Inr (a < b)
              | _ \<Rightarrow> Inl TypeError))"

definition py_equal :: "pyval \<Rightarrow> pyval \<Rightarrow> bool" where
  "py_equal v w =
     (case (number_of v, number_of w) of
        (Some x, Some y) \<Rightarrow> x = y \<and> x \<noteq> NotANumber
      | _ \<Rightarrow> v = w)"

text \<open>\<^verbatim>\<open>sorted\<close> by a key. Bytes sort by their lexicographic order and numbers by value; two
  elements that cannot be compared are a TypeError. With at most one element nothing is compared.\<close>

fun bytes_of :: "pyval \<Rightarrow> bytes option" where
  "bytes_of (PBytes b) = Some b"
| "bytes_of _ = None"

fun insert_by :: "('a \<Rightarrow> pyval) \<Rightarrow> 'a \<Rightarrow> 'a list \<Rightarrow> py_error + 'a list" where
  "insert_by key x [] = Inr [x]"
| "insert_by key x (y # ys) =
     ebind (py_less (key x) (key y))
       (\<lambda>less. if less then Inr (x # y # ys) else ebind (insert_by key x ys) (\<lambda>zs. Inr (y # zs)))"

definition sorted_by :: "('a \<Rightarrow> pyval) \<Rightarrow> 'a list \<Rightarrow> py_error + 'a list" where
  "sorted_by key xs = foldl (\<lambda>acc x. ebind acc (insert_by key x)) (Inr []) xs"

section \<open>Columns\<close>

text \<open>What a REAL column keeps of a value that is bound to it: numbers as floats, NaN as
  NULL, bytes as a blob. (A text that is a number would be converted; none is bound.)\<close>

definition real_column :: "pyval \<Rightarrow> pyval" where
  "real_column v =
     (case number_of v of
        Some NotANumber \<Rightarrow> PNone
      | Some f \<Rightarrow> PFloat f
      | None \<Rightarrow> v)"

text \<open>\<^verbatim>\<open>a <= b\<close> and \<^verbatim>\<open>a > b\<close> in SQL, for a bound number \<open>b\<close>: NULL compares as unknown, and texts and
  blobs come after every number.\<close>

definition sql_le :: "pyval \<Rightarrow> pyfloat \<Rightarrow> bool" where
  "sql_le v t = (case number_of v of Some f \<Rightarrow> float_le f t | None \<Rightarrow> False)"

definition sql_greater :: "pyval \<Rightarrow> pyfloat \<Rightarrow> bool" where
  "sql_greater v t =
     (case number_of v of Some f \<Rightarrow> float_less t f | None \<Rightarrow> v \<noteq> PNone \<and> t \<noteq> NotANumber)"

definition sql_ge :: "pyval \<Rightarrow> pyfloat \<Rightarrow> bool" where
  "sql_ge v t =
     (case number_of v of Some f \<Rightarrow> float_le t f | None \<Rightarrow> v \<noteq> PNone \<and> t \<noteq> NotANumber)"

text \<open>The order SQL sorts a column by: NULL, then numbers, then texts, then blobs.\<close>

definition sql_key :: "pyval \<Rightarrow> nat \<times> rat \<times> string \<times> bytes" where
  "sql_key v =
     (case number_of v of
        Some (Finite q) \<Rightarrow> (2, q, [], [])
      | Some NegInf \<Rightarrow> (1, 0, [], [])
      | Some PosInf \<Rightarrow> (3, 0, [], [])
      | Some NotANumber \<Rightarrow> (0, 0, [], [])
      | None \<Rightarrow> (case v of PStr t \<Rightarrow> (4, 0, t, []) | PBytes b \<Rightarrow> (5, 0, [], b) | _ \<Rightarrow> (0, 0, [], [])))"

text \<open>What binding a parameter of a statement raises: containers cannot be bound, nor integers
  beyond 64 bits.\<close>

definition bind_error :: "pyval \<Rightarrow> py_error option" where
  "bind_error v =
     (case v of
        PList _ \<Rightarrow> Some InterfaceError
      | PTuple _ \<Rightarrow> Some InterfaceError
      | PDict _ \<Rightarrow> Some InterfaceError
      | PInt i \<Rightarrow> if i < - (2 ^ 63) \<or> 2 ^ 63 \<le> i then Some OverflowError else None
      | _ \<Rightarrow> None)"

section \<open>JSON columns\<close>

text \<open>What \<^verbatim>\<open>json.loads\<close> makes of what \<^verbatim>\<open>json.dumps\<close> writes, \<open>None\<close> where \<^verbatim>\<open>dumps\<close> raises a
  TypeError: tuples come back as lists, bytes are refused. Keys here are text or bytes.\<close>

fun json_value :: "pyval \<Rightarrow> pyval option"
  and json_values :: "pyval list \<Rightarrow> pyval list option"
  and json_items :: "(pyval \<times> pyval) list \<Rightarrow> (pyval \<times> pyval) list option" where
  "json_value (PBytes _) = None"
| "json_value (PList xs) = map_option PList (json_values xs)"
| "json_value (PTuple xs) = map_option PList (json_values xs)"
| "json_value (PDict d) = map_option PDict (json_items d)"
| "json_value v = Some v"
| "json_values [] = Some []"
| "json_values (x # xs) =
     (case json_value x of None \<Rightarrow> None | Some y \<Rightarrow> map_option ((#) y) (json_values xs))"
| "json_items [] = Some []"
| "json_items ((k, v) # d) =
     (case (k, json_value v) of
        (PStr s, Some w) \<Rightarrow> map_option ((#) (PStr s, w)) (json_items d)
      | _ \<Rightarrow> None)"

section \<open>Facts\<close>

lemma insert_by_mset: "insert_by key x ys = Inr zs \<Longrightarrow> mset zs = add_mset x (mset ys)"
  by (induction ys arbitrary: zs) (auto simp: ebind_Inr split: if_splits)

lemma foldl_ebind_Inl [simp]: "foldl (\<lambda>acc x. ebind acc (f x)) (Inl e) xs = Inl e"
  by (induction xs) auto

lemma foldl_insert_mset:
  "foldl (\<lambda>acc x. ebind acc (insert_by key x)) (Inr ys) xs = Inr zs \<Longrightarrow> mset zs = mset ys + mset xs"
proof (induction xs arbitrary: ys)
  case (Cons x xs)
  then show ?case by (cases "insert_by key x ys") (auto dest: insert_by_mset)
qed simp

lemma sorted_by_mset: "sorted_by key xs = Inr ys \<Longrightarrow> mset ys = mset xs"
  using foldl_insert_mset [of key "[]" xs ys] by (simp add: sorted_by_def)

lemma sorted_by_set: "sorted_by key xs = Inr ys \<Longrightarrow> set ys = set xs"
  by (metis sorted_by_mset set_mset_mset)

lemma py_set_Inr: "py_set xs = Inr S \<longleftrightarrow> list_all hashable xs \<and> S = set xs"
  by (auto simp: py_set_def)

lemma float_less_trans: "float_less x y \<Longrightarrow> float_less y z \<Longrightarrow> float_less x z"
  by (cases x; cases y; cases z) auto

lemma float_trichotomy:
  "x \<noteq> NotANumber \<Longrightarrow> y \<noteq> NotANumber \<Longrightarrow> \<not> float_less x y \<Longrightarrow> x \<noteq> y \<Longrightarrow> float_less y x"
  by (cases x; cases y) auto

end
