(* ===== verification/Membership.thy ===== *)
theory Membership
  imports Values Permissions
begin

text \<open>
  The membership tables of \<^verbatim>\<open>trenchchat/core/storage.py\<close>: servers, channels, subscriptions,
  members and roles, tenure, member list versions, invite tokens and invites, and the cache
  that resolves a channel to the scope that owns its membership.

  \<^item> A column with a JSON text is \<open>None\<close> where empty, or else what \<^verbatim>\<open>json.loads\<close> makes of it
    (\<open>Some None\<close> where it fails); the parameter \<open>loads\<close> is \<^verbatim>\<open>json.loads\<close> on a text
    or bytes off the wire.
  \<^item> The blob of a stored document is kept as the document that was packed into it: every
    reader unpacks it again, and msgpack gives back what was packed.
  \<^item> A read through the cache is \<open>scope_for\<close>; the entry it leaves behind is the separate step
    \<open>scope_store\<close>, since the code makes it outside the database lock.
\<close>

section \<open>Rows\<close>

type_synonym json_column = "pyval option option"

record server_row =
  sr_hash :: hexid
  sr_name :: string
  sr_description :: string
  sr_creator :: hexid
  sr_permissions :: json_column
  sr_created :: pyval
  sr_seen :: secs

record channel_row =
  cr_hash :: hexid
  cr_name :: string
  cr_description :: string
  cr_creator :: hexid
  cr_permissions :: json_column
  cr_created :: pyval
  cr_seen :: secs
  cr_server :: "hexid option"
  cr_kind :: string

record subscription_row =
  sb_channel :: hexid
  sb_joined :: secs
  sb_synced :: secs
  sb_read :: secs

record member_row =
  mb_scope :: hexid
  mb_id :: hexid
  mb_name :: string
  mb_role :: string
  mb_added :: secs

record tenure_row =
  tn_scope :: hexid
  tn_id :: hexid
  tn_joined :: pyval
  tn_left :: pyval

text \<open>A member list document as \<^verbatim>\<open>invite.py\<close> holds it: every field of any shape, and the optional
  ones present or absent.\<close>

record document =
  dc_channel :: pyval
  dc_version :: pyval
  dc_published :: pyval
  dc_members :: "pyval list"
  dc_admins :: "pyval list"
  dc_signatures :: "(pyval \<times> pyval) list"
  dc_owners :: "pyval list option"
  dc_permissions :: "pyval option"
  dc_joined :: "(pyval \<times> pyval) list option"
  dc_departed :: "(pyval \<times> pyval list) list option"
  dc_channels :: "pyval option"

record version_row =
  vn_scope :: hexid
  vn_version :: int
  vn_published :: pyval
  vn_document :: document
  vn_received :: secs

record token_row =
  tk_scope :: hexid
  tk_hash :: string
  tk_invitee :: hexid
  tk_expiry :: pyfloat
  tk_recorded :: secs

record accepted_row =
  ai_scope :: hexid
  ai_admin :: hexid
  ai_expiry :: pyfloat
  ai_recorded :: secs

record pending_doc_row =
  pd_scope :: hexid
  pd_name :: string
  pd_admin :: hexid
  pd_document :: document
  pd_meta :: "(pyval \<times> pyval) list"
  pd_received :: secs

record pending_invite_row =
  pi_scope :: hexid
  pi_name :: string
  pi_token :: pyval
  pi_expiry :: pyfloat
  pi_admin :: hexid
  pi_received :: secs
  pi_issued :: secs

record store =
  st_servers :: "server_row list"
  st_channels :: "channel_row list"
  st_scopes :: "(hexid \<times> hexid) list"
  st_subs :: "subscription_row list"
  st_members :: "member_row list"
  st_tenure :: "tenure_row list"
  st_versions :: "version_row list"
  st_tokens :: "token_row list"
  st_accepted :: "accepted_row list"
  st_docs :: "pending_doc_row list"
  st_invites :: "pending_invite_row list"

definition empty_store :: store where
  "empty_store = \<lparr>st_servers = [], st_channels = [], st_scopes = [], st_subs = [], st_members = [],
     st_tenure = [], st_versions = [], st_tokens = [], st_accepted = [], st_docs = [], st_invites = []\<rparr>"

section \<open>Scopes\<close>

text \<open>\<^verbatim>\<open>_scope\<close>: a hit in the cache, or what the \<^verbatim>\<open>channels\<close> row says.\<close>

definition scope_fetch :: "store \<Rightarrow> hexid \<Rightarrow> hexid" where
  "scope_fetch s ch =
     (case row_of cr_hash (st_channels s) ch of
        Some r \<Rightarrow> (case cr_server r of Some server \<Rightarrow> if server = [] then ch else server | None \<Rightarrow> ch)
      | None \<Rightarrow> ch)"

definition scope_for :: "store \<Rightarrow> hexid \<Rightarrow> hexid" where
  "scope_for s ch = (case map_of (st_scopes s) ch of Some cached \<Rightarrow> cached | None \<Rightarrow> scope_fetch s ch)"

definition scope_store :: "hexid \<Rightarrow> hexid \<Rightarrow> store \<Rightarrow> store" where
  "scope_store ch scope s = s\<lparr>st_scopes := AList.update ch scope (st_scopes s)\<rparr>"

definition scope_forget :: "hexid \<Rightarrow> store \<Rightarrow> store" where
  "scope_forget ch s = s\<lparr>st_scopes := AList.delete ch (st_scopes s)\<rparr>"

section \<open>Servers and channels\<close>

text \<open>The text that ends up in a \<^verbatim>\<open>permissions\<close> column for an argument of any shape; \<open>preset\<close> is
  what an empty one stands for. Numbers become their text, which is JSON of the number.\<close>

definition permissions_column :: "(pyval \<Rightarrow> pyval option) \<Rightarrow> perms \<Rightarrow> pyval \<Rightarrow> py_error + json_column" where
  "permissions_column loads empty_preset v =
     (case v of
        PDict d \<Rightarrow> (case json_value v of None \<Rightarrow> Inl TypeError | Some w \<Rightarrow> Inr (Some (Some w)))
      | _ \<Rightarrow>
         if \<not> truthy v then Inr (Some (json_value (PDict empty_preset)))
         else (case v of
                 PStr _ \<Rightarrow> Inr (Some (loads v))
               | PList _ \<Rightarrow> Inl InterfaceError
               | PTuple _ \<Rightarrow> Inl InterfaceError
               | PBytes _ \<Rightarrow> Inr (Some (loads v))
               | _ \<Rightarrow> Inr (Some (Some v))))"

definition channel_permissions_column :: "(pyval \<Rightarrow> pyval option) \<Rightarrow> pyval \<Rightarrow> py_error + json_column" where
  "channel_permissions_column loads v =
     permissions_column loads PRESET_PRIVATE
       (if v = PStr ''public'' then PDict PRESET_OPEN else if v = PStr ''invite'' then PDict PRESET_PRIVATE else v)"

text \<open>A value bound to a column \<^verbatim>\<open>REAL NOT NULL\<close>.\<close>

definition real_not_null :: "pyval \<Rightarrow> py_error + pyval" where
  "real_not_null v =
     (case v of
        PList _ \<Rightarrow> Inl InterfaceError
      | PTuple _ \<Rightarrow> Inl InterfaceError
      | PDict _ \<Rightarrow> Inl InterfaceError
      | _ \<Rightarrow> if real_column v = PNone then Inl IntegrityError else Inr (real_column v))"

definition get_server :: "store \<Rightarrow> hexid \<Rightarrow> server_row option" where
  "get_server s h = row_of sr_hash (st_servers s) h"

definition is_server :: "store \<Rightarrow> hexid \<Rightarrow> bool" where
  "is_server s h = has_key sr_hash (st_servers s) h"

definition get_channel :: "store \<Rightarrow> hexid \<Rightarrow> channel_row option" where
  "get_channel s h = row_of cr_hash (st_channels s) h"

definition upsert_server ::
    "(pyval \<Rightarrow> pyval option) \<Rightarrow> secs \<Rightarrow> hexid \<Rightarrow> string \<Rightarrow> string \<Rightarrow> hexid \<Rightarrow> pyval \<Rightarrow> pyval \<Rightarrow> store
     \<Rightarrow> py_error + store" where
  "upsert_server loads now h name description creator permissions created s =
     ebind (permissions_column loads PRESET_SERVER permissions) (\<lambda>p.
     ebind (real_not_null created) (\<lambda>c.
       Inr (s\<lparr>st_servers :=
         upsert sr_hash
           \<lparr>sr_hash = h, sr_name = name, sr_description = description, sr_creator = creator,
            sr_permissions = p, sr_created = c, sr_seen = now\<rparr>
           (\<lambda>r. r\<lparr>sr_name := name, sr_description := description, sr_permissions := p, sr_seen := now\<rparr>)
           (st_servers s)\<rparr>)))"

definition upsert_channel ::
    "(pyval \<Rightarrow> pyval option) \<Rightarrow> secs \<Rightarrow> hexid \<Rightarrow> string \<Rightarrow> string \<Rightarrow> hexid \<Rightarrow> pyval \<Rightarrow> pyval \<Rightarrow> hexid option
     \<Rightarrow> store \<Rightarrow> py_error + store" where
  "upsert_channel loads now h name description creator permissions created server s =
     ebind (channel_permissions_column loads permissions) (\<lambda>p.
     ebind (real_not_null created) (\<lambda>c.
       Inr (scope_forget h (s\<lparr>st_channels :=
         upsert cr_hash
           \<lparr>cr_hash = h, cr_name = name, cr_description = description, cr_creator = creator,
            cr_permissions = p, cr_created = c, cr_seen = now, cr_server = server, cr_kind = ''channel''\<rparr>
           (\<lambda>r. r\<lparr>cr_name := name, cr_description := description, cr_permissions := p, cr_seen := now,
                 cr_kind := ''channel''\<rparr>)
           (st_channels s)\<rparr>))))"

definition update_discovered_metadata :: "secs \<Rightarrow> hexid \<Rightarrow> string \<Rightarrow> string \<Rightarrow> store \<Rightarrow> store" where
  "update_discovered_metadata now h name description s =
     scope_forget h (s\<lparr>st_channels :=
       update_where (\<lambda>r. cr_hash r = h) (\<lambda>r. r\<lparr>cr_name := name, cr_description := description, cr_seen := now\<rparr>)
         (st_channels s)\<rparr>)"

definition touch_channel :: "secs \<Rightarrow> hexid \<Rightarrow> store \<Rightarrow> store" where
  "touch_channel now h s =
     s\<lparr>st_channels := update_where (\<lambda>r. cr_hash r = h) (\<lambda>r. r\<lparr>cr_seen := now\<rparr>) (st_channels s)\<rparr>"

definition discard_empty_server :: "hexid \<Rightarrow> store \<Rightarrow> store \<times> bool" where
  "discard_empty_server h s =
     (if list_ex (\<lambda>m. mb_scope m = h) (st_members s) then (s, False)
      else if list_ex (\<lambda>r. cr_server r = Some h) (st_channels s) then (s, False)
      else (scope_forget h (s\<lparr>st_servers := delete_where (\<lambda>r. sr_hash r = h) (st_servers s)\<rparr>), is_server s h))"

text \<open>The \<^verbatim>\<open>channels\<close> row written and deleted beside a direct conversation.\<close>

definition add_dm_channel :: "secs \<Rightarrow> hexid \<Rightarrow> hexid \<Rightarrow> store \<Rightarrow> store" where
  "add_dm_channel now h peer s =
     scope_forget h (s\<lparr>st_channels :=
       insert_ignore cr_hash
         \<lparr>cr_hash = h, cr_name = peer, cr_description = [], cr_creator = peer, cr_permissions = Some (Some (PDict [])),
          cr_created = PFloat (Finite now), cr_seen = now, cr_server = None, cr_kind = ''dm''\<rparr>
         (st_channels s)\<rparr>)"

definition delete_dm_channel :: "hexid \<Rightarrow> store \<Rightarrow> store" where
  "delete_dm_channel h s =
     scope_forget h (s\<lparr>st_channels := delete_where (\<lambda>r. cr_hash r = h \<and> cr_kind r = ''dm'') (st_channels s)\<rparr>)"

definition get_scope_creator_hash :: "store \<Rightarrow> hexid \<Rightarrow> hexid option" where
  "get_scope_creator_hash s h =
     (case get_server s h of
        Some r \<Rightarrow> Some (sr_creator r)
      | None \<Rightarrow> map_option cr_creator (get_channel s h))"

text \<open>Permissions as read off a column: an empty one is the empty dict.\<close>

definition column_permissions :: "json_column \<Rightarrow> py_error + perms" where
  "column_permissions c = (case c of None \<Rightarrow> Inr [] | Some loaded \<Rightarrow> permissions_from_json loaded)"

definition get_server_permissions :: "store \<Rightarrow> hexid \<Rightarrow> py_error + perms" where
  "get_server_permissions s h =
     (case get_server s h of None \<Rightarrow> Inr [] | Some r \<Rightarrow> column_permissions (sr_permissions r))"

definition get_server_channels :: "store \<Rightarrow> hexid \<Rightarrow> channel_row list" where
  "get_server_channels s server =
     sort_key (\<lambda>r. sql_key (cr_created r)) (filter (\<lambda>r. cr_server r = Some server) (st_channels s))"

definition get_channel_permissions :: "store \<Rightarrow> hexid \<Rightarrow> py_error + perms" where
  "get_channel_permissions s h =
     (case get_channel s h of
        None \<Rightarrow> get_server_permissions s h
      | Some r \<Rightarrow> column_permissions (cr_permissions r))"

definition set_server_permissions :: "hexid \<Rightarrow> perms \<Rightarrow> store \<Rightarrow> py_error + store" where
  "set_server_permissions h permissions s =
     (case json_value (PDict permissions) of
        None \<Rightarrow> Inl TypeError
      | Some blob \<Rightarrow>
          Inr (s\<lparr>st_servers := update_where (\<lambda>r. sr_hash r = h) (\<lambda>r. r\<lparr>sr_permissions := Some (Some blob)\<rparr>) (st_servers s),
                st_channels := update_where (\<lambda>r. cr_server r = Some h) (\<lambda>r. r\<lparr>cr_permissions := Some (Some blob)\<rparr>)
                  (st_channels s)\<rparr>))"

definition set_channel_permissions :: "hexid \<Rightarrow> perms \<Rightarrow> store \<Rightarrow> py_error + store" where
  "set_channel_permissions h permissions s =
     (case json_value (PDict permissions) of
        None \<Rightarrow> Inl TypeError
      | Some blob \<Rightarrow>
          Inr (s\<lparr>st_channels := update_where (\<lambda>r. cr_hash r = h) (\<lambda>r. r\<lparr>cr_permissions := Some (Some blob)\<rparr>)
                  (st_channels s)\<rparr>))"

section \<open>Subscriptions\<close>

text \<open>\<^verbatim>\<open>INSERT OR IGNORE\<close> under the foreign key to \<^verbatim>\<open>channels\<close>, which it does not ignore.\<close>

definition subscribe :: "secs \<Rightarrow> hexid \<Rightarrow> store \<Rightarrow> py_error + store" where
  "subscribe now ch s =
     (if has_key sb_channel (st_subs s) ch then Inr s
      else if get_channel s ch = None then Inl IntegrityError
      else Inr (s\<lparr>st_subs := st_subs s @ [\<lparr>sb_channel = ch, sb_joined = now, sb_synced = 0, sb_read = 0\<rparr>]\<rparr>))"

definition unsubscribe :: "hexid \<Rightarrow> store \<Rightarrow> store" where
  "unsubscribe ch s = s\<lparr>st_subs := delete_where (\<lambda>r. sb_channel r = ch) (st_subs s)\<rparr>"

definition is_subscribed :: "store \<Rightarrow> hexid \<Rightarrow> bool" where
  "is_subscribed s ch = has_key sb_channel (st_subs s) ch"

definition get_last_sync :: "store \<Rightarrow> hexid \<Rightarrow> secs" where
  "get_last_sync s ch = (case row_of sb_channel (st_subs s) ch of Some r \<Rightarrow> sb_synced r | None \<Rightarrow> 0)"

definition update_last_sync :: "secs \<Rightarrow> hexid \<Rightarrow> store \<Rightarrow> store" where
  "update_last_sync ts ch s =
     s\<lparr>st_subs := update_where (\<lambda>r. sb_channel r = ch) (\<lambda>r. r\<lparr>sb_synced := ts\<rparr>) (st_subs s)\<rparr>"

definition mark_channel_read :: "secs \<Rightarrow> hexid \<Rightarrow> store \<Rightarrow> store \<times> bool" where
  "mark_channel_read ts ch s =
     (s\<lparr>st_subs := update_where (\<lambda>r. sb_channel r = ch) (\<lambda>r. r\<lparr>sb_read := ts\<rparr>) (st_subs s)\<rparr>, is_subscribed s ch)"

section \<open>Members\<close>

text \<open>Writes name the scope; reads resolve it.\<close>

definition upsert_member :: "secs \<Rightarrow> hexid \<Rightarrow> hexid \<Rightarrow> string \<Rightarrow> string \<Rightarrow> store \<Rightarrow> store" where
  "upsert_member now scope h name role s =
     s\<lparr>st_members := upsert (\<lambda>m. (mb_scope m, mb_id m))
        \<lparr>mb_scope = scope, mb_id = h, mb_name = name, mb_role = role, mb_added = now\<rparr>
        (\<lambda>m. m\<lparr>mb_name := name, mb_role := role\<rparr>) (st_members s)\<rparr>"

definition remove_member :: "hexid \<Rightarrow> hexid \<Rightarrow> store \<Rightarrow> store" where
  "remove_member scope h s =
     s\<lparr>st_members := delete_where (\<lambda>m. (mb_scope m, mb_id m) = (scope, h)) (st_members s)\<rparr>"

definition members_of :: "store \<Rightarrow> hexid \<Rightarrow> member_row list" where
  "members_of s scope = filter (\<lambda>m. mb_scope m = scope) (st_members s)"

definition get_members :: "store \<Rightarrow> hexid \<Rightarrow> member_row list" where
  "get_members s ch = sort_key mb_added (members_of s (scope_for s ch))"

definition member_row_of :: "store \<Rightarrow> hexid \<Rightarrow> hexid \<Rightarrow> member_row option" where
  "member_row_of s ch h = row_of (\<lambda>m. (mb_scope m, mb_id m)) (st_members s) (scope_for s ch, h)"

definition get_member_display_name :: "store \<Rightarrow> hexid \<Rightarrow> hexid \<Rightarrow> string option" where
  "get_member_display_name s ch h = map_option mb_name (member_row_of s ch h)"

definition is_member :: "store \<Rightarrow> hexid \<Rightarrow> hexid \<Rightarrow> bool" where
  "is_member s ch h = (member_row_of s ch h \<noteq> None)"

definition get_role :: "store \<Rightarrow> hexid \<Rightarrow> hexid \<Rightarrow> string option" where
  "get_role s ch h = map_option mb_role (member_row_of s ch h)"

definition is_admin :: "store \<Rightarrow> hexid \<Rightarrow> hexid \<Rightarrow> bool" where
  "is_admin s ch h = (get_role s ch h \<in> {Some ROLE_ADMIN, Some ROLE_OWNER})"

text \<open>A repeated identity violates the primary key; the transaction is rolled back.\<close>

definition replace_members :: "secs \<Rightarrow> hexid \<Rightarrow> (hexid \<times> string \<times> string) list \<Rightarrow> store \<Rightarrow> py_error + store" where
  "replace_members now scope rows s =
     (if \<not> distinct (map fst rows) then Inl IntegrityError
      else Inr (s\<lparr>st_members := delete_where (\<lambda>m. mb_scope m = scope) (st_members s)
             @ map (\<lambda>(h, name, role).
                 \<lparr>mb_scope = scope, mb_id = h, mb_name = name, mb_role = role, mb_added = now\<rparr>) rows\<rparr>))"

definition role_may :: "store \<Rightarrow> hexid \<Rightarrow> hexid \<Rightarrow> string \<Rightarrow> py_error + bool" where
  "role_may s ch h permission =
     (case get_role s ch h of
        None \<Rightarrow> Inr False
      | Some role \<Rightarrow> ebind (get_channel_permissions s ch) (\<lambda>p. has_permission p role permission))"

section \<open>Tenure\<close>

definition tenure_key :: "tenure_row \<Rightarrow> hexid \<times> hexid \<times> pyval" where
  "tenure_key r = (tn_scope r, tn_id r, tn_joined r)"

text \<open>\<^verbatim>\<open>INSERT OR IGNORE\<close>: neither a NULL in \<^verbatim>\<open>joined_at\<close> nor a repeated key is stored.\<close>

definition insert_tenure :: "hexid \<Rightarrow> hexid \<Rightarrow> pyval \<Rightarrow> pyval \<Rightarrow> tenure_row list \<Rightarrow> tenure_row list" where
  "insert_tenure scope h joined left rows =
     (if real_column joined = PNone then rows
      else insert_ignore tenure_key
        \<lparr>tn_scope = scope, tn_id = h, tn_joined = real_column joined, tn_left = real_column left\<rparr> rows)"

definition open_intervals :: "hexid \<Rightarrow> hexid \<Rightarrow> tenure_row list \<Rightarrow> tenure_row list" where
  "open_intervals scope h rows = filter (\<lambda>r. tn_scope r = scope \<and> tn_id r = h \<and> tn_left r = PNone) rows"

text \<open>\<^verbatim>\<open>MAX(joined_at)\<close>: the columns hold floats, infinities included.\<close>

definition later :: "pyval \<Rightarrow> pyval \<Rightarrow> pyval" where
  "later v w = (case (number_of v, number_of w) of
                  (Some x, Some y) \<Rightarrow> if float_less x y then w else v
                | _ \<Rightarrow> v)"

definition newest :: "pyval list \<Rightarrow> pyval option" where
  "newest vs = (case vs of [] \<Rightarrow> None | v # vs \<Rightarrow> Some (foldl later v vs))"

definition close_interval :: "hexid \<Rightarrow> hexid \<Rightarrow> pyval \<Rightarrow> tenure_row list \<Rightarrow> tenure_row list" where
  "close_interval scope h left rows =
     (case newest (map tn_joined (open_intervals scope h rows)) of
        None \<Rightarrow> rows
      | Some j \<Rightarrow> update_where (\<lambda>r. tn_scope r = scope \<and> tn_id r = h \<and> tn_left r = PNone \<and> tn_joined r = j)
                   (\<lambda>r. r\<lparr>tn_left := real_column left\<rparr>) rows)"

definition open_tenure :: "hexid \<Rightarrow> hexid \<Rightarrow> pyval \<Rightarrow> store \<Rightarrow> store" where
  "open_tenure scope h joined s = s\<lparr>st_tenure := insert_tenure scope h joined PNone (st_tenure s)\<rparr>"

definition close_tenure :: "hexid \<Rightarrow> hexid \<Rightarrow> pyval \<Rightarrow> store \<Rightarrow> store" where
  "close_tenure scope h left s = s\<lparr>st_tenure := close_interval scope h left (st_tenure s)\<rparr>"

text \<open>\<^verbatim>\<open>min(max(joined, 0.0), published)\<close> as Python computes it: the later argument only where it
  compares greater, or less.\<close>

definition clamp_joined :: "pyval \<Rightarrow> pyval \<Rightarrow> py_error + pyval" where
  "clamp_joined joined published =
     ebind (py_less joined (PFloat (Finite 0))) (\<lambda>neg.
       let j = (if neg then PFloat (Finite 0) else joined)
       in ebind (py_less published j) (\<lambda>past. Inr (if past then published else j)))"

text \<open>The loop over the added identities; an exception rolls the whole transaction back. (The code
  loops over sets; the rows of different identities do not depend on each other.)\<close>

fun open_added ::
    "hexid \<Rightarrow> pyval \<Rightarrow> (hexid \<times> pyval) list \<Rightarrow> hexid list \<Rightarrow> tenure_row list \<Rightarrow> py_error + tenure_row list" where
  "open_added scope published joined_map [] rows = Inr rows"
| "open_added scope published joined_map (h # hs) rows =
     ebind (clamp_joined (get_or published joined_map h) published) (\<lambda>joined.
       open_added scope published joined_map hs (insert_tenure scope h joined PNone rows))"

definition update_tenure ::
    "hexid \<Rightarrow> hexid list \<Rightarrow> hexid list \<Rightarrow> pyval \<Rightarrow> (hexid \<times> pyval) list \<Rightarrow> store \<Rightarrow> py_error + store" where
  "update_tenure scope old new published joined_map s =
     (let removed = filter (\<lambda>h. h \<notin> set new) old; added = filter (\<lambda>h. h \<notin> set old) new
      in ebind (open_added scope published joined_map added
                 (fold (\<lambda>h. close_interval scope h published) removed (st_tenure s)))
           (\<lambda>rows. Inr (s\<lparr>st_tenure := rows\<rparr>)))"

definition get_departed_within :: "store \<Rightarrow> hexid \<Rightarrow> secs \<Rightarrow> tenure_row list" where
  "get_departed_within s ch since =
     sort_key (\<lambda>r. (tn_id r, sql_key (tn_joined r)))
       (filter (\<lambda>r. tn_scope r = scope_for s ch \<and> tn_left r \<noteq> PNone \<and> sql_ge (tn_left r) (Finite since)) (st_tenure s))"

definition record_departed_tenure :: "hexid \<Rightarrow> hexid \<Rightarrow> pyval \<Rightarrow> pyval \<Rightarrow> store \<Rightarrow> store" where
  "record_departed_tenure ch h joined left s =
     s\<lparr>st_tenure := insert_tenure (scope_for s ch) h joined left (st_tenure s)\<rparr>"

definition covers :: "tenure_row \<Rightarrow> secs \<Rightarrow> bool" where
  "covers r t = (sql_le (tn_joined r) (Finite t) \<and> (tn_left r = PNone \<or> sql_greater (tn_left r) (Finite t)))"

definition was_member_at :: "store \<Rightarrow> hexid \<Rightarrow> hexid \<Rightarrow> secs \<Rightarrow> bool" where
  "was_member_at s ch h t =
     list_ex (\<lambda>r. tn_scope r = scope_for s ch \<and> tn_id r = h \<and> covers r t) (st_tenure s)"

definition get_open_tenure_joined_at :: "store \<Rightarrow> hexid \<Rightarrow> hexid \<Rightarrow> pyval option" where
  "get_open_tenure_joined_at s ch h = newest (map tn_joined (open_intervals (scope_for s ch) h (st_tenure s)))"

definition get_last_departure_at :: "store \<Rightarrow> hexid \<Rightarrow> hexid \<Rightarrow> pyval option" where
  "get_last_departure_at s ch h =
     newest (filter (\<lambda>v. v \<noteq> PNone)
       (map tn_left (filter (\<lambda>r. tn_scope r = scope_for s ch \<and> tn_id r = h) (st_tenure s))))"

definition has_any_tenure :: "store \<Rightarrow> hexid \<Rightarrow> bool" where
  "has_any_tenure s ch = list_ex (\<lambda>r. tn_scope r = scope_for s ch) (st_tenure s)"

section \<open>Member list versions\<close>

definition get_member_list_version :: "store \<Rightarrow> hexid \<Rightarrow> version_row option" where
  "get_member_list_version s ch = row_of vn_scope (st_versions s) (scope_for s ch)"

definition get_member_list_scopes :: "store \<Rightarrow> hexid list" where
  "get_member_list_scopes s = map vn_scope (st_versions s)"

definition upsert_member_list_version :: "secs \<Rightarrow> hexid \<Rightarrow> int \<Rightarrow> pyval \<Rightarrow> document \<Rightarrow> store \<Rightarrow> store" where
  "upsert_member_list_version now scope version published doc s =
     s\<lparr>st_versions := upsert vn_scope
        \<lparr>vn_scope = scope, vn_version = version, vn_published = real_column published, vn_document = doc,
         vn_received = now\<rparr>
        (\<lambda>r. r\<lparr>vn_version := version, vn_published := real_column published, vn_document := doc,
              vn_received := now\<rparr>) (st_versions s)\<rparr>"

section \<open>Invites and tokens\<close>

definition record_accepted_invite :: "secs \<Rightarrow> hexid \<Rightarrow> hexid \<Rightarrow> pyfloat \<Rightarrow> store \<Rightarrow> store" where
  "record_accepted_invite now scope admin expiry s =
     s\<lparr>st_accepted := insert_replace ai_scope
        \<lparr>ai_scope = scope, ai_admin = admin, ai_expiry = expiry, ai_recorded = now\<rparr> (st_accepted s)\<rparr>"

definition get_accepted_invite_admin :: "secs \<Rightarrow> store \<Rightarrow> hexid \<Rightarrow> hexid option" where
  "get_accepted_invite_admin now s scope =
     (case row_of ai_scope (st_accepted s) scope of
        None \<Rightarrow> None
      | Some r \<Rightarrow> if float_le (ai_expiry r) (Finite now) then None else Some (ai_admin r))"

definition clear_accepted_invite :: "hexid \<Rightarrow> store \<Rightarrow> store" where
  "clear_accepted_invite scope s = s\<lparr>st_accepted := delete_where (\<lambda>r. ai_scope r = scope) (st_accepted s)\<rparr>"

definition record_pending_member_doc ::
    "secs \<Rightarrow> hexid \<Rightarrow> string \<Rightarrow> hexid \<Rightarrow> document \<Rightarrow> (pyval \<times> pyval) list \<Rightarrow> store \<Rightarrow> store" where
  "record_pending_member_doc now scope name admin doc meta s =
     s\<lparr>st_docs := insert_replace pd_scope
        \<lparr>pd_scope = scope, pd_name = name, pd_admin = admin, pd_document = doc, pd_meta = meta, pd_received = now\<rparr>
        (st_docs s)\<rparr>"

definition get_pending_member_doc :: "store \<Rightarrow> hexid \<Rightarrow> pending_doc_row option" where
  "get_pending_member_doc s scope = row_of pd_scope (st_docs s) scope"

definition clear_pending_member_doc :: "hexid \<Rightarrow> store \<Rightarrow> store" where
  "clear_pending_member_doc scope s = s\<lparr>st_docs := delete_where (\<lambda>r. pd_scope r = scope) (st_docs s)\<rparr>"

definition record_pending_invite ::
    "secs \<Rightarrow> hexid \<Rightarrow> string \<Rightarrow> pyval \<Rightarrow> pyfloat \<Rightarrow> hexid \<Rightarrow> secs \<Rightarrow> store \<Rightarrow> py_error + store" where
  "record_pending_invite now scope name token expiry admin issued s =
     (case bind_error token of Some e \<Rightarrow> Inl e | None \<Rightarrow>
      if expiry = NotANumber \<or> token \<in> {PNone, PFloat NotANumber} then Inl IntegrityError
      else Inr (s\<lparr>st_invites := insert_replace pi_scope
        \<lparr>pi_scope = scope, pi_name = name, pi_token = token, pi_expiry = expiry, pi_admin = admin,
         pi_received = now, pi_issued = issued\<rparr> (st_invites s)\<rparr>))"

definition get_pending_invite_issued_at :: "store \<Rightarrow> hexid \<Rightarrow> secs option" where
  "get_pending_invite_issued_at s scope =
     (case row_of pi_scope (st_invites s) scope of
        None \<Rightarrow> None
      | Some r \<Rightarrow> if pi_issued r = 0 then None else Some (pi_issued r))"

definition get_pending_invites :: "secs \<Rightarrow> store \<Rightarrow> pending_invite_row list" where
  "get_pending_invites now s =
     sort_key pi_received (filter (\<lambda>r. float_less (Finite now) (pi_expiry r)) (st_invites s))"

definition clear_pending_invite :: "hexid \<Rightarrow> store \<Rightarrow> store" where
  "clear_pending_invite scope s = s\<lparr>st_invites := delete_where (\<lambda>r. pi_scope r = scope) (st_invites s)\<rparr>"

definition purge_expired_pending_invites :: "secs \<Rightarrow> store \<Rightarrow> store" where
  "purge_expired_pending_invites now s =
     s\<lparr>st_invites := delete_where (\<lambda>r. float_less (pi_expiry r) (Finite now)) (st_invites s)\<rparr>"

definition token_key :: "token_row \<Rightarrow> hexid \<times> string" where
  "token_key r = (tk_scope r, tk_hash r)"

text \<open>\<^verbatim>\<open>INSERT OR IGNORE\<close>: the second claim of a token stores nothing, nor does an expiry of NaN.\<close>

definition spend_invite_token ::
    "secs \<Rightarrow> hexid \<Rightarrow> string \<Rightarrow> hexid \<Rightarrow> pyfloat \<Rightarrow> store \<Rightarrow> store \<times> bool" where
  "spend_invite_token now ch token_hash invitee expiry s =
     (let scope = scope_for s ch
      in if expiry = NotANumber \<or> has_key token_key (st_tokens s) (scope, token_hash) then (s, False)
         else (s\<lparr>st_tokens := st_tokens s @ [\<lparr>tk_scope = scope, tk_hash = token_hash, tk_invitee = invitee,
                 tk_expiry = expiry, tk_recorded = now\<rparr>]\<rparr>, True))"

definition is_invite_token_spent :: "store \<Rightarrow> hexid \<Rightarrow> string \<Rightarrow> bool" where
  "is_invite_token_spent s ch token_hash = has_key token_key (st_tokens s) (scope_for s ch, token_hash)"

definition revoked_key :: "hexid \<Rightarrow> string" where
  "revoked_key invitee = ''revoked:'' @ invitee"

definition revoke_invite_tokens_for :: "secs \<Rightarrow> hexid \<Rightarrow> hexid \<Rightarrow> pyfloat \<Rightarrow> store \<Rightarrow> store" where
  "revoke_invite_tokens_for now ch invitee expiry s =
     s\<lparr>st_tokens := insert_replace token_key
        \<lparr>tk_scope = scope_for s ch, tk_hash = revoked_key invitee, tk_invitee = invitee, tk_expiry = expiry,
         tk_recorded = now\<rparr> (st_tokens s)\<rparr>"

definition invite_revoked_at :: "secs \<Rightarrow> store \<Rightarrow> hexid \<Rightarrow> hexid \<Rightarrow> secs option" where
  "invite_revoked_at now s ch invitee =
     (case row_of token_key (st_tokens s) (scope_for s ch, revoked_key invitee) of
        None \<Rightarrow> None
      | Some r \<Rightarrow> if float_le (tk_expiry r) (Finite now) then None else Some (tk_recorded r))"

definition purge_expired_invite_tokens :: "secs \<Rightarrow> store \<Rightarrow> store" where
  "purge_expired_invite_tokens now s =
     s\<lparr>st_tokens := delete_where (\<lambda>r. float_less (tk_expiry r) (Finite now)) (st_tokens s)\<rparr>"

section \<open>The cache of scopes\<close>

definition coherent :: "store \<Rightarrow> bool" where
  "coherent s = list_all (\<lambda>(ch, scope). scope = scope_fetch s ch) (st_scopes s)"

text \<open>Everything that writes the \<^verbatim>\<open>channels\<close> table, and a read of a scope as one step.\<close>

datatype channel_event =
    ReadScope hexid
  | UpsertChannel secs hexid string string hexid pyval pyval "hexid option"
  | Discovered secs hexid string string
  | TouchChannel secs hexid
  | SetChannelPermissions hexid perms
  | SetServerPermissions hexid perms
  | DiscardServer hexid
  | AddDm secs hexid hexid
  | DeleteDm hexid

definition on_success :: "store \<Rightarrow> py_error + store \<Rightarrow> store" where
  "on_success s r = (case r of Inl _ \<Rightarrow> s | Inr s' \<Rightarrow> s')"

fun channel_step :: "(pyval \<Rightarrow> pyval option) \<Rightarrow> channel_event \<Rightarrow> store \<Rightarrow> store" where
  "channel_step loads (ReadScope ch) s = (if map_of (st_scopes s) ch = None then scope_store ch (scope_fetch s ch) s else s)"
| "channel_step loads (UpsertChannel now h name desc creator perms created server) s =
     on_success s (upsert_channel loads now h name desc creator perms created server s)"
| "channel_step loads (Discovered now h name desc) s = update_discovered_metadata now h name desc s"
| "channel_step loads (TouchChannel now h) s = touch_channel now h s"
| "channel_step loads (SetChannelPermissions h p) s = on_success s (set_channel_permissions h p s)"
| "channel_step loads (SetServerPermissions h p) s = on_success s (set_server_permissions h p s)"
| "channel_step loads (DiscardServer h) s = fst (discard_empty_server h s)"
| "channel_step loads (AddDm now h peer) s = add_dm_channel now h peer s"
| "channel_step loads (DeleteDm h) s = delete_dm_channel h s"

lemma row_of_delete_key:
  "(\<And>r. p r \<Longrightarrow> key r = k) \<Longrightarrow> k' \<noteq> k \<Longrightarrow> row_of key (delete_where p rows) k' = row_of key rows k'"
  by (induction rows) (auto simp: delete_where_def)

lemma row_of_map:
  "(\<And>r. key (f r) = key r) \<Longrightarrow> row_of key (update_where p f rows) k = map_option (\<lambda>r. if p r then f r else r) (row_of key rows k)"
  by (induction rows) (auto simp: update_where_def)

text \<open>Which fields of a row the scope depends on, and what a write leaves of it.\<close>

definition parent :: "channel_row list \<Rightarrow> hexid \<Rightarrow> hexid option" where
  "parent rows ch = Option.bind (row_of cr_hash rows ch) cr_server"

lemma scope_fetch_parent:
  "scope_fetch s ch = (case parent (st_channels s) ch of Some server \<Rightarrow> if server = [] then ch else server | None \<Rightarrow> ch)"
  by (auto simp: scope_fetch_def parent_def split: option.splits)

lemma scope_fetch_cong: "parent (st_channels s) ch = parent (st_channels s') ch \<Longrightarrow> scope_fetch s ch = scope_fetch s' ch"
  by (simp add: scope_fetch_parent)

lemma parent_update:
  "(\<And>r. cr_hash (f r) = cr_hash r) \<Longrightarrow> (\<And>r. cr_server (f r) = cr_server r) \<Longrightarrow>
   parent (update_where p f rows) ch = parent rows ch"
  by (cases "row_of cr_hash rows ch") (simp_all add: parent_def row_of_map)

lemma coherent_forget:
  assumes "coherent s" and "\<And>ch. ch \<noteq> h \<Longrightarrow> parent (st_channels s') ch = parent (st_channels s) ch"
    and "st_scopes s' = st_scopes s"
  shows "coherent (scope_forget h s')"
proof -
  have "scope = scope_fetch s' ch" if "(ch, scope) \<in> set (AList.delete h (st_scopes s))" for ch scope
  proof -
    have "ch \<noteq> h" using that by (auto simp: AList.delete_eq)
    moreover have "(ch, scope) \<in> set (st_scopes s)" using that set_delete_sub [of h] by blast
    ultimately show ?thesis using assms(1) scope_fetch_cong [OF assms(2)] by (auto simp: coherent_def list_all_iff)
  qed
  then show ?thesis using assms(3)
    by (auto simp: coherent_def scope_forget_def list_all_iff scope_fetch_def)
qed

lemma coherent_same:
  assumes "coherent s" and "\<And>ch. parent (st_channels s') ch = parent (st_channels s) ch" and "st_scopes s' = st_scopes s"
  shows "coherent s'"
proof -
  have "scope_fetch s' ch = scope_fetch s ch" for ch by (rule scope_fetch_cong) (rule assms(2))
  then show ?thesis using assms by (simp add: coherent_def)
qed

lemma parent_upsert:
  "ch \<noteq> cr_hash new \<Longrightarrow> (\<And>r. cr_hash (f r) = cr_hash r) \<Longrightarrow> parent (upsert cr_hash new f rows) ch = parent rows ch"
  by (simp add: parent_def)

lemma coherent_upsert_channel:
  assumes "coherent s" and "upsert_channel loads now h name desc creator perms created server s = Inr s'"
  shows "coherent s'"
proof -
  obtain p c where s': "s' = scope_forget h (s\<lparr>st_channels := upsert cr_hash
      \<lparr>cr_hash = h, cr_name = name, cr_description = desc, cr_creator = creator,
       cr_permissions = p, cr_created = c, cr_seen = now, cr_server = server, cr_kind = ''channel''\<rparr>
      (\<lambda>r. r\<lparr>cr_name := name, cr_description := desc, cr_permissions := p, cr_seen := now,
            cr_kind := ''channel''\<rparr>) (st_channels s)\<rparr>)"
    using assms(2) by (auto simp: upsert_channel_def ebind_Inr)
  show ?thesis unfolding s' by (rule coherent_forget [OF assms(1)]) (simp_all add: parent_upsert)
qed

lemma coherent_step: "coherent s \<Longrightarrow> coherent (channel_step loads e s)"
proof (cases e)
  case (ReadScope ch)
  assume "coherent s"
  moreover have "(c, v) \<in> insert (ch, w) (set (st_scopes s))" if "(c, v) \<in> set (AList.update ch w (st_scopes s))" for c v w
    using that set_update_sub [of ch w "st_scopes s"] by blast
  ultimately show ?thesis using ReadScope
    by (fastforce simp: scope_store_def coherent_def list_all_iff scope_fetch_def)
next
  case (UpsertChannel now h name desc creator perms created server)
  then show "coherent s \<Longrightarrow> ?thesis"
    by (auto simp: on_success_def intro: coherent_upsert_channel split: sum.splits)
next
  case (SetServerPermissions h p)
  then show "coherent s \<Longrightarrow> ?thesis"
    by (auto simp: on_success_def set_server_permissions_def parent_update intro: coherent_same split: option.splits)
next
  case (SetChannelPermissions h p)
  then show "coherent s \<Longrightarrow> ?thesis"
    by (auto simp: on_success_def set_channel_permissions_def parent_update intro: coherent_same split: option.splits)
next
  case (DeleteDm h)
  have "parent (delete_where (\<lambda>r. cr_hash r = h \<and> cr_kind r = ''dm'') rows) ch = parent rows ch" if "ch \<noteq> h" for rows ch
    unfolding parent_def by (subst row_of_delete_key [where k = h]) (use that in auto)
  then show "coherent s \<Longrightarrow> ?thesis" using DeleteDm
    by (auto simp: delete_dm_channel_def intro: coherent_forget [where s = s])
next
  case (TouchChannel now h)
  then show "coherent s \<Longrightarrow> ?thesis"
    by (simp add: touch_channel_def, elim coherent_same) (simp_all add: parent_update)
qed (auto simp: update_discovered_metadata_def discard_empty_server_def add_dm_channel_def
       parent_update parent_def intro: coherent_forget [where s = s] coherent_same)

interpretation scope_cache: machine empty_store "channel_step loads" coherent for loads
  by unfold_locales (simp add: coherent_def empty_store_def, rule coherent_step)

lemma coherent_scope: "coherent s \<Longrightarrow> scope_for s ch = scope_fetch s ch"
  by (auto simp: coherent_def scope_for_def list_all_iff dest!: map_of_SomeD split: option.splits)

text \<open>C30. While reads of a scope are atomic the cache is invisible: after any history of writes to
  the channels and servers, and of reads that fill the cache, every scope read through it is
  the one the tables give. In particular no write moves a cached channel to another scope.\<close>

theorem scope_cache_transparent:
  "scope_for (fold (channel_step loads) es empty_store) ch = scope_fetch (fold (channel_step loads) es empty_store) ch"
  by (rule coherent_scope [OF scope_cache.inv_run])

text \<open>The channel whose cache entry an event drops: the one it creates, replaces or deletes.\<close>

fun drops_entry :: "channel_event \<Rightarrow> hexid option" where
  "drops_entry (UpsertChannel _ h _ _ _ _ _ _) = Some h"
| "drops_entry (Discovered _ h _ _) = Some h"
| "drops_entry (DiscardServer h) = Some h"
| "drops_entry (AddDm _ h _) = Some h"
| "drops_entry (DeleteDm h) = Some h"
| "drops_entry _ = None"

lemma channel_step_scope:
  assumes "drops_entry e \<noteq> Some ch" and "map_of (st_scopes s) ch = Some scope"
  shows "map_of (st_scopes (channel_step loads e s)) ch = Some scope \<and> scope_fetch (channel_step loads e s) ch = scope_fetch s ch"
proof -
  have row: "parent (delete_where (\<lambda>r. cr_hash r = h \<and> cr_kind r = ''dm'') rows) ch = parent rows ch" if "ch \<noteq> h" for rows h
    using row_of_delete_key [of "\<lambda>r. cr_hash r = h \<and> cr_kind r = ''dm''" cr_hash h ch rows] that by (simp add: parent_def)
  have ins: "parent (rows @ [new]) ch = parent rows ch" if "cr_hash new \<noteq> ch" for rows new
    using that by (simp add: parent_def row_of_append split: option.split)
  have "parent (st_channels (channel_step loads e s)) ch = parent (st_channels s) ch
      \<and> map_of (st_scopes (channel_step loads e s)) ch = Some scope"
    using assms
    by (cases e)
      (auto simp: on_success_def upsert_channel_def ebind_Inr update_discovered_metadata_def touch_channel_def
        set_channel_permissions_def set_server_permissions_def discard_empty_server_def add_dm_channel_def delete_dm_channel_def
        scope_forget_def scope_store_def parent_update parent_upsert row ins insert_ignore_def delete_conv Let_def
        split: sum.splits option.splits)
  then show ?thesis using scope_fetch_cong by blast
qed

lemma channel_step_tables:
  "st_members (channel_step loads e s) = st_members s \<and> st_tenure (channel_step loads e s) = st_tenure s
     \<and> st_versions (channel_step loads e s) = st_versions s"
  by (cases e)
    (auto simp: on_success_def upsert_channel_def ebind_Inr update_discovered_metadata_def touch_channel_def
      set_channel_permissions_def set_server_permissions_def discard_empty_server_def add_dm_channel_def delete_dm_channel_def
      scope_forget_def scope_store_def Let_def split: sum.splits option.splits)

lemma channel_steps_scope:
  "\<forall>e\<in>set es. drops_entry e \<noteq> Some ch \<Longrightarrow> map_of (st_scopes s) ch = Some scope \<Longrightarrow>
   map_of (st_scopes (fold (channel_step loads) es s)) ch = Some scope \<and> scope_fetch (fold (channel_step loads) es s) ch = scope_fetch s ch
   \<and> st_members (fold (channel_step loads) es s) = st_members s \<and> st_tenure (fold (channel_step loads) es s) = st_tenure s
   \<and> st_versions (fold (channel_step loads) es s) = st_versions s"
proof (induction es arbitrary: s)
  case (Cons e es)
  then show ?case
    using channel_step_scope [of e ch s scope loads] channel_step_tables [of loads e s] Cons.IH [of "channel_step loads e s"] by simp
qed simp

text \<open>C34. They are not atomic: the cache is filled outside the database lock. If a server's roster
  creates a channel between a reader's look at the table and its write to the cache, the
  channel keeps resolving to itself for that reader and all later ones, through any history of reads and of
  writes, until a roster or an announcement writes this very channel again: no role of the server
  is seen through it and its tenure records are out of sight.\<close>

theorem scope_cache_race:
  assumes "get_channel s ch = None" and "server \<noteq> []" and "server \<noteq> ch"
    and "upsert_channel loads now ch name desc creator perms created (Some server) s = Inr s'"
    and "list_all (\<lambda>m. mb_scope m \<noteq> ch) (st_members s)" and "list_all (\<lambda>r. tn_scope r \<noteq> ch) (st_tenure s)"
    and "\<forall>e\<in>set es. drops_entry e \<noteq> Some ch"
    and "s'' = fold (channel_step loads) es (scope_store ch (scope_fetch s ch) s')"
  shows "scope_fetch s'' ch = server \<and> scope_for s'' ch = ch
    \<and> get_role s'' ch h = None \<and> \<not> has_any_tenure s'' ch \<and> get_member_list_version s'' ch = row_of vn_scope (st_versions s) ch"
proof -
  have fetch: "scope_fetch s ch = ch" using assms(1) by (simp add: scope_fetch_def get_channel_def)
  let ?t = "scope_store ch (scope_fetch s ch) s'"
  have s': "row_of cr_hash (st_channels s') ch \<noteq> None \<and> parent (st_channels s') ch = Some server"
      "st_members s' = st_members s" "st_tenure s' = st_tenure s" "st_versions s' = st_versions s"
    using assms(1,4) by (auto simp: upsert_channel_def ebind_Inr scope_forget_def parent_def get_channel_def)
  have "map_of (st_scopes ?t) ch = Some ch" "scope_fetch ?t ch = server"
    using s'(1) assms(2) fetch by (simp_all add: scope_store_def scope_fetch_parent [of s'] scope_fetch_parent [of "s'\<lparr>st_scopes := x\<rparr>" for x])
  with channel_steps_scope [OF assms(7), of ?t ch loads] s'(2-4)
  have later: "map_of (st_scopes s'') ch = Some ch" "scope_fetch s'' ch = server" "st_members s'' = st_members s"
      "st_tenure s'' = st_tenure s" "st_versions s'' = st_versions s"
    by (simp_all add: assms(8) scope_store_def)
  moreover have "row_of (\<lambda>m. (mb_scope m, mb_id m)) (st_members s) (ch, h) = None"
    using assms(5) by (auto simp: row_of_None has_key_iff list_all_iff)
  ultimately show ?thesis using assms(6)
    by (auto simp: scope_for_def get_role_def member_row_of_def has_any_tenure_def get_member_list_version_def list_ex_iff list_all_iff)
qed

text \<open>The reader looks before the roster creates the channel; then another channel is created and the scope read again.\<close>

theorem scope_cache_race_witness:
  "\<exists>s' s''. upsert_channel (\<lambda>_. None) 0 ''c'' ''n'' [] ''k'' PNone (PInt 5) (Some ''sv'') empty_store = Inr s'
     \<and> s'' = fold (channel_step (\<lambda>_. None)) [UpsertChannel 1 ''d'' ''m'' [] ''k'' PNone (PInt 6) (Some ''sv''), ReadScope ''c'']
               (scope_store ''c'' (scope_fetch empty_store ''c'') s')
     \<and> scope_fetch s'' ''c'' = ''sv'' \<and> scope_for s'' ''c'' = ''c''"
proof -
  obtain s' where s': "upsert_channel (\<lambda>_. None) 0 ''c'' ''n'' [] ''k'' PNone (PInt 5) (Some ''sv'') empty_store = Inr s'"
    by (simp add: upsert_channel_def channel_permissions_column_def permissions_column_def real_not_null_def
        real_column_def number_of_def)
  let ?es = "[UpsertChannel 1 ''d'' ''m'' [] ''k'' PNone (PInt 6) (Some ''sv''), ReadScope ''c'']"
  have "\<forall>e\<in>set ?es. drops_entry e \<noteq> Some ''c''" by simp
  from scope_cache_race [OF _ _ _ s' _ _ this refl] s' show ?thesis
    by (simp add: get_channel_def empty_store_def del: fold_simps)
qed

text \<open>A write addressed to a channel inside a server grants nothing: making an identity a member
  there, whatever its role, changes no role that any read sees. So a creator who is stored as
  owner of a channel of a server does not become an owner of the server.\<close>

theorem child_write_grants_nothing:
  assumes "coherent s" and "scope_fetch s ch \<noteq> ch" and "list_all (\<lambda>r. cr_server r \<noteq> Some ch) (st_channels s)"
  shows "get_role (upsert_member now ch h name role s) c h' = get_role s c h'"
proof -
  let ?s = "upsert_member now ch h name role s"
  have "coherent ?s" using assms(1) by (simp add: coherent_def upsert_member_def scope_fetch_def)
  moreover have "scope_fetch ?s c = scope_fetch s c" by (simp add: upsert_member_def scope_fetch_def)
  ultimately have scope: "scope_for ?s c = scope_for s c" "scope_for s c = scope_fetch s c"
    using assms(1) by (simp_all add: coherent_scope)
  have "scope_fetch s c \<noteq> ch"
  proof (cases "c = ch")
    case False
    then show ?thesis using assms(3)
      by (auto simp: scope_fetch_def list_all_iff dest!: row_of_Some split: option.splits)
  qed (use assms(2) in simp)
  then show ?thesis using scope
    by (auto simp: get_role_def member_row_of_def upsert_member_def)
qed

lemma child_write_grants_nothing_witness:
  "\<exists>s. scope_fetch s ''c'' = ''sv'' \<and> get_role (upsert_member 7 ''c'' ''m'' [] ROLE_OWNER s) ''c'' ''m'' = None"
proof -
  let ?s = "empty_store\<lparr>st_channels := [\<lparr>cr_hash = ''c'', cr_name = [], cr_description = [], cr_creator = [],
      cr_permissions = None, cr_created = PInt 0, cr_seen = 0, cr_server = Some ''sv'', cr_kind = ''channel''\<rparr>]\<rparr>"
  have "scope_fetch ?s ''c'' = ''sv''" by (simp add: scope_fetch_def)
  moreover have "get_role (upsert_member 7 ''c'' ''m'' [] ROLE_OWNER ?s) ''c'' ''m'' = get_role ?s ''c'' ''m''"
    by (rule child_write_grants_nothing) (simp_all add: coherent_def empty_store_def scope_fetch_def)
  ultimately show ?thesis
    by (intro exI [of _ ?s]) (simp add: get_role_def member_row_of_def empty_store_def)
qed

end
