(* ===== verification/Documents.thy ===== *)
theory Documents
  imports Membership Protocol Direct
begin

text \<open>
  Member list documents: \<^verbatim>\<open>trenchchat/core/invite.py\<close> from the signed payload to the tables a
  document is applied to. A document is checked against stored state only (who signed it, what
  that signer may change, that it is newer than the one held) and is then applied in several
  transactions, which an exception leaves half done: results carry the state reached.

  A node is the record of what the code takes from outside: its own identity, Reticulum's
  \<^verbatim>\<open>Destination.hash\<close>, \<^verbatim>\<open>Identity.recall\<close> and \<^verbatim>\<open>validate\<close>, msgpack, JSON, \<^verbatim>\<open>float()\<close> of a text and
  \<^verbatim>\<open>str()\<close> of other values, SHA-256. An identity is its public key. \<open>nd_readable\<close> says that \<^verbatim>\<open>unpack_wire\<close>
  reads a stored document back (it may refuse one over its size limit).
\<close>

record node =
  nd_self :: bytes
  nd_self_key :: bytes
  nd_delivery :: "bytes \<Rightarrow> bytes option"
  nd_recall :: "bytes \<Rightarrow> bytes option"
  nd_verify :: "bytes \<Rightarrow> bytes \<Rightarrow> pyval \<Rightarrow> bool"
  nd_sign :: "bytes \<Rightarrow> bytes"
  nd_packb :: "pyval \<Rightarrow> bytes"
  nd_unpackb :: "bytes \<Rightarrow> pyval option"
  nd_readable :: "document \<Rightarrow> bool"
  nd_decode :: "bytes \<Rightarrow> string"
  nd_str :: "pyval \<Rightarrow> string"
  nd_loads :: "pyval \<Rightarrow> pyval option"
  nd_parse_float :: "pyval \<Rightarrow> pyfloat option"
  nd_dumps :: "json_column \<Rightarrow> string"
  nd_unpack_raw :: "bytes \<Rightarrow> pyval option"
  nd_sha :: "bytes \<Rightarrow> bytes"
  nd_address :: "bytes \<Rightarrow> string list \<Rightarrow> bytes"

definition MAX_MEMBER_LIST_VERSION :: int where "MAX_MEMBER_LIST_VERSION = 2 ^ 31 - 1"

text \<open>\<^verbatim>\<open>m.hex() if isinstance(m, bytes) else str(m)\<close>.\<close>

definition hex_or_str :: "node \<Rightarrow> pyval \<Rightarrow> string" where
  "hex_or_str n v = (case v of PBytes b \<Rightarrow> to_hex b | PStr t \<Rightarrow> t | _ \<Rightarrow> nd_str n v)"

text \<open>\<^verbatim>\<open>x or b""\<close> of a field that may be absent.\<close>

definition or_empty_bytes :: "pyval option \<Rightarrow> pyval" where
  "or_empty_bytes x = (case x of Some v \<Rightarrow> if truthy v then v else PBytes [] | None \<Rightarrow> PBytes [])"

section \<open>The signed payload\<close>

text \<open>The values packed and signed, in the four nested forms. Tuples and lists pack alike.\<close>

definition departed_items :: "(pyval \<times> pyval list) list \<Rightarrow> py_error + pyval list" where
  "departed_items departed =
     ebind (each (\<lambda>(m, interval). case interval of [jt, lt] \<Rightarrow> Inr [m, jt, lt] | _ \<Rightarrow> Inl ValueError) departed)
       (\<lambda>es. ebind (sorted_by hd es) (\<lambda>es. Inr (map PList es)))"

definition signed_payload ::
    "pyval \<Rightarrow> pyval \<Rightarrow> pyval \<Rightarrow> pyval list \<Rightarrow> pyval list \<Rightarrow> pyval list option \<Rightarrow> pyval
     \<Rightarrow> (pyval \<times> pyval) list option \<Rightarrow> (pyval \<times> pyval list) list option \<Rightarrow> pyval option \<Rightarrow> py_error + pyval" where
  "signed_payload channel version published members admins owners permissions joined departed channels =
     ebind (sorted_by id members) (\<lambda>ms.
     ebind (sorted_by id admins) (\<lambda>as.
       let items = [channel, version, published, PList ms, PList as]
       in case owners of
            None \<Rightarrow> Inr (PList items)
          | Some os \<Rightarrow>
              ebind (sorted_by id os) (\<lambda>os.
                let items = items @ [PList os, permissions]
                in case joined of
                     None \<Rightarrow> Inr (PList items)
                   | Some js \<Rightarrow>
                       ebind (sorted_by fst js) (\<lambda>js.
                       ebind (case departed of None \<Rightarrow> Inr [] | Some ds \<Rightarrow> ebind (departed_items ds) (\<lambda>es. Inr [PList es])) (\<lambda>des.
                         Inr (PList (items @ [PList (map (\<lambda>(k, v). PList [k, v]) js)] @ des
                               @ (case channels of None \<Rightarrow> [] | Some blob \<Rightarrow> [blob]))))))))"

definition payload_of :: "document \<Rightarrow> py_error + pyval" where
  "payload_of d =
     (case dc_owners d of
        Some os \<Rightarrow>
          signed_payload (dc_channel d) (dc_version d) (dc_published d) (dc_members d) (dc_admins d)
            (Some os) (or_else (PBytes []) (dc_permissions d)) (dc_joined d) (dc_departed d)
            (case dc_channels d of Some PNone \<Rightarrow> None | blob \<Rightarrow> blob)
      | None \<Rightarrow>
          signed_payload (dc_channel d) (dc_version d) (dc_published d) (dc_members d) (dc_admins d)
            None (PBytes []) None None None)"

section \<open>Who may sign\<close>

definition can_anchor :: "secs \<Rightarrow> store \<Rightarrow> hexid \<Rightarrow> bool" where
  "can_anchor now s ch =
     (if get_member_list_version s ch \<noteq> None then True
      else if (case get_scope_creator_hash s ch of Some c \<Rightarrow> c \<noteq> [] | None \<Rightarrow> False) then True
      else get_accepted_invite_admin now s ch \<noteq> None)"

definition anchors :: "secs \<Rightarrow> store \<Rightarrow> hexid \<Rightarrow> pyval set" where
  "anchors now s ch =
     set (List.map_filter
       (\<lambda>a. case a of
              None \<Rightarrow> None
            | Some h \<Rightarrow> if h = [] then None else map_option PBytes (fromhex h))
       [get_scope_creator_hash s ch, get_accepted_invite_admin now s ch])"

text \<open>\<^verbatim>\<open>trusted_signers\<close>; \<open>None\<close> where there is no trust anchor at all.\<close>

definition trusted_signers :: "secs \<Rightarrow> store \<Rightarrow> hexid \<Rightarrow> py_error + pyval set option" where
  "trusted_signers now s ch =
     (case get_member_list_version s ch of
        Some v \<Rightarrow>
          ebind (py_set (dc_admins (vn_document v))) (\<lambda>admins.
          ebind (py_set (or_else [] (dc_owners (vn_document v)))) (\<lambda>owners.
            Inr (Some (admins \<union> owners))))
      | None \<Rightarrow> Inr (if anchors now s ch = {} then None else Some (anchors now s ch)))"

text \<open>The loop over the signatures, in the order of their signers: the first trusted one that
  validates. (A signer that cannot be resolved is passed over.)\<close>

fun find_signer :: "node \<Rightarrow> pyval set \<Rightarrow> bytes \<Rightarrow> (pyval \<times> pyval) list \<Rightarrow> py_error + bytes option" where
  "find_signer n trusted payload [] = Inr None"
| "find_signer n trusted payload ((signer, sig) # sigs) =
     (if signer \<notin> trusted then find_signer n trusted payload sigs
      else case signer of
             PBytes b \<Rightarrow>
               if b = nd_self n
               then (if nd_verify n (nd_self_key n) payload sig then Inr (Some b)
                     else find_signer n trusted payload sigs)
               else (case nd_delivery n b of
                       None \<Rightarrow> Inl TypeError
                     | Some delivery_hash \<Rightarrow>
                         (case nd_recall n delivery_hash of
                            None \<Rightarrow> find_signer n trusted payload sigs
                          | Some key \<Rightarrow> if nd_verify n key payload sig then Inr (Some b)
                                       else find_signer n trusted payload sigs))
           | _ \<Rightarrow> Inl TypeError)"

definition validate_document :: "node \<Rightarrow> secs \<Rightarrow> document \<Rightarrow> hexid \<Rightarrow> store \<Rightarrow> py_error + bytes option" where
  "validate_document n now d ch s =
     ebind (trusted_signers now s ch) (\<lambda>t.
       case t of
         None \<Rightarrow> Inr None
       | Some trusted \<Rightarrow>
           ebind (payload_of d) (\<lambda>payload.
           ebind (sorted_by fst (dc_signatures d)) (\<lambda>sigs.
             find_signer n trusted (nd_packb n payload) sigs)))"

section \<open>What a signer may change\<close>

definition roster_hashes :: "node \<Rightarrow> pyval option \<Rightarrow> hexid set" where
  "roster_hashes n blob =
     (case blob of
        Some (PBytes b) \<Rightarrow>
          if b = [] then {}
          else (case unpack_wire (nd_unpackb n) b of
                  Some (PList entries) \<Rightarrow>
                    set (List.map_filter
                      (\<lambda>e. case e of PList (PBytes h # _) \<Rightarrow> Some (to_hex h) | _ \<Rightarrow> None) entries)
                | _ \<Rightarrow> {})
      | _ \<Rightarrow> {})"

definition roster_additions :: "node \<Rightarrow> document \<Rightarrow> document \<Rightarrow> hexid set" where
  "roster_additions n old d = roster_hashes n (dc_channels d) - roster_hashes n (dc_channels old)"

text \<open>The checks in the order of the code, each with the permission it needs.\<close>

definition signer_may_apply :: "node \<Rightarrow> document \<Rightarrow> hexid \<Rightarrow> bytes \<Rightarrow> store \<Rightarrow> py_error + bool" where
  "signer_may_apply n d ch signer s =
     (case get_member_list_version s ch of
        None \<Rightarrow> Inr True
      | Some v \<Rightarrow>
          if \<not> nd_readable n (vn_document v) then Inr False
          else
            let old = vn_document v; may = role_may s ch (to_hex signer)
            in ebind (py_set (dc_members old)) (\<lambda>old_members.
               ebind (py_set (dc_admins old)) (\<lambda>old_admins.
               ebind (py_set (or_else [] (dc_owners old))) (\<lambda>old_owners.
               ebind (py_set (dc_members d)) (\<lambda>new_members.
               ebind (py_set (dc_admins d)) (\<lambda>new_admins.
               ebind (py_set (or_else [] (dc_owners d))) (\<lambda>new_owners.
                 let removed = old_members - new_members
                 in ebind (if removed = {} then Inr True
                           else ebind (may KICK) (\<lambda>kick.
                             if \<not> kick then Inr False
                             else if removed \<inter> old_owners \<noteq> {} \<and> PBytes signer \<notin> old_owners then Inr False
                             else if removed \<inter> old_admins \<noteq> {} then may MANAGE_ROLES
                             else Inr True)) (\<lambda>ok.
                    if \<not> ok then Inr False
                    else ebind (if old_admins = new_admins then Inr True else may MANAGE_ROLES) (\<lambda>ok.
                    if \<not> ok then Inr False
                    else if old_owners \<noteq> new_owners \<and> PBytes signer \<notin> old_owners then Inr False
                    else if new_admins = {} \<and> new_owners = {} then Inr False
                    else let old_perms = or_empty_bytes (dc_permissions old); new_perms = or_empty_bytes (dc_permissions d)
                    in ebind (if new_perms \<noteq> PBytes [] \<and> new_perms \<noteq> old_perms then may MANAGE_CHANNEL else Inr True) (\<lambda>ok.
                    if \<not> ok then Inr False
                    else if roster_additions n old d = {} then Inr True
                    else may CREATE_CHANNEL))))))))))"

definition ordering_fields_are_sane :: "node \<Rightarrow> secs \<Rightarrow> document \<Rightarrow> py_error + bool" where
  "ordering_fields_are_sane n now d =
     (case dc_version d of
        PInt v \<Rightarrow>
          if v < 0 \<or> v > MAX_MEMBER_LIST_VERSION then Inr False
          else ebind (wire_timestamp (nd_parse_float n) (dc_published d) now) (\<lambda>t. Inr (t \<noteq> None))
      | _ \<Rightarrow> Inr False)"

definition validated_signer :: "node \<Rightarrow> secs \<Rightarrow> document \<Rightarrow> hexid \<Rightarrow> store \<Rightarrow> py_error + bytes" where
  "validated_signer n now stored ch s =
     ebind (validate_document n now stored ch s) (\<lambda>signer. Inr (or_else (replicate 16 0xff) signer))"

text \<open>Rules 4 to 6 of \<^verbatim>\<open>_accept_document_locked\<close>: newer by version, then by time, then by signer.\<close>

definition supersedes ::
    "node \<Rightarrow> secs \<Rightarrow> int \<Rightarrow> pyval \<Rightarrow> bytes \<Rightarrow> hexid \<Rightarrow> store \<Rightarrow> py_error + bool" where
  "supersedes n now new_v new_ts signer ch s =
     (case get_member_list_version s ch of
        None \<Rightarrow> Inr True
      | Some v \<Rightarrow>
          if new_v < vn_version v then Inr False
          else if new_v > vn_version v then Inr True
          else ebind (py_less new_ts (vn_published v)) (\<lambda>older.
            if older then Inr False
            else if py_equal new_ts (vn_published v)
            then ebind (validated_signer n now (vn_document v) ch s) (\<lambda>old_min. Inr (signer < old_min))
            else Inr True))"

definition member_role :: "pyval set \<Rightarrow> pyval set \<Rightarrow> pyval \<Rightarrow> string" where
  "member_role owners admins m =
     (if m \<in> owners then ROLE_OWNER else if m \<in> admins then ROLE_ADMIN else ROLE_MEMBER)"

text \<open>The rows of the members table, or \<open>None\<close> for an entry that is not bytes.\<close>

fun member_rows :: "pyval set \<Rightarrow> pyval set \<Rightarrow> pyval list \<Rightarrow> (hexid \<times> string \<times> string) list option" where
  "member_rows owners admins [] = Some []"
| "member_rows owners admins (PBytes m # ms) =
     map_option ((#) (to_hex m, [], member_role owners admins (PBytes m))) (member_rows owners admins ms)"
| "member_rows owners admins (_ # ms) = None"

text \<open>Everything \<^verbatim>\<open>_accept_document_locked\<close> decides before it persists: the version, the signer
  and the rows, or \<open>None\<close> for a document it rejects.\<close>

definition check_document ::
    "node \<Rightarrow> secs \<Rightarrow> document \<Rightarrow> hexid \<Rightarrow> store
     \<Rightarrow> py_error + (int \<times> bytes \<times> (hexid \<times> string \<times> string) list) option" where
  "check_document n now d ch s =
     (if hex_or_str n (dc_channel d) \<noteq> ch then Inr None
      else ebind (ordering_fields_are_sane n now d) (\<lambda>sane.
        if \<not> sane then Inr None
        else ebind (validate_document n now d ch s) (\<lambda>signer.
          case signer of
            None \<Rightarrow> Inr None
          | Some signer \<Rightarrow>
              ebind (signer_may_apply n d ch signer s) (\<lambda>may.
              if \<not> may then Inr None
              else (case dc_version d of
                PInt new_v \<Rightarrow>
                  ebind (supersedes n now new_v (dc_published d) signer ch s) (\<lambda>newer.
                  if \<not> newer then Inr None
                  else ebind (py_set (or_else [] (dc_owners d))) (\<lambda>owners.
                       ebind (py_set (dc_admins d)) (\<lambda>admins.
                         case member_rows owners admins (dc_members d) of
                           None \<Rightarrow> Inr None
                         | Some rows \<Rightarrow> Inr (Some (new_v, signer, rows)))))
              | _ \<Rightarrow> Inr None)))))"

end
