(* ===== verification/Acceptance.thy ===== *)
theory Acceptance
  imports Documents
begin

text \<open>
  Applying a member list document (\<^verbatim>\<open>_accept_document_locked\<close> from its first write on,
  \<^verbatim>\<open>_materialise_roster\<close>), the handler of an inbound one with the hold for confirmation, the
  joining of the channel or server it admits to, and the confirmation of a held document.
  Every write is its own transaction, so a computation returns the state it reached together
  with its result or the exception that ended it.
\<close>

type_synonym 'a outcome = "store \<times> (py_error + 'a)"

definition then_do :: "'a outcome \<Rightarrow> ('a \<Rightarrow> store \<Rightarrow> 'b outcome) \<Rightarrow> 'b outcome" where
  "then_do m f = (case m of (s, Inl e) \<Rightarrow> (s, Inl e) | (s, Inr x) \<Rightarrow> f x s)"

text \<open>A transaction: it succeeds, or raises and leaves the state as it was.\<close>

definition tx :: "store \<Rightarrow> py_error + store \<Rightarrow> unit outcome" where
  "tx s r = (case r of Inl e \<Rightarrow> (s, Inl e) | Inr s' \<Rightarrow> (s', Inr ()))"

lemma then_do_simps [simp]:
  "then_do (s, Inl e) f = (s, Inl e)"
  "then_do (s, Inr x) f = f x s"
  by (simp_all add: then_do_def)

lemma tx_simps [simp]:
  "tx s (Inl e) = (s, Inl e)"
  "tx s (Inr s') = (s', Inr ())"
  by (simp_all add: tx_def)

lemma then_do_Inr: "then_do m f = (s', Inr y) \<longleftrightarrow> (\<exists>s x. m = (s, Inr x) \<and> f x s = (s', Inr y))"
  by (cases m; cases "snd m") (auto simp: then_do_def)

section \<open>Applying a document\<close>

text \<open>\<^verbatim>\<open>float(v)\<close> under \<^verbatim>\<open>except (TypeError, ValueError): continue\<close>.\<close>

definition float_or_skip :: "node \<Rightarrow> pyval \<Rightarrow> py_error + pyfloat option" where
  "float_or_skip n v =
     (case float_of (nd_parse_float n) v of
        Inl TypeError \<Rightarrow> Inr None
      | Inl ValueError \<Rightarrow> Inr None
      | Inl e \<Rightarrow> Inl e
      | Inr f \<Rightarrow> Inr (Some f))"

fun joined_map :: "node \<Rightarrow> (hexid \<times> pyval) list \<Rightarrow> (pyval \<times> pyval) list \<Rightarrow> py_error + (hexid \<times> pyval) list" where
  "joined_map n acc [] = Inr acc"
| "joined_map n acc ((m, ts) # rest) =
     ebind (float_or_skip n ts) (\<lambda>f.
       joined_map n (case f of None \<Rightarrow> acc | Some x \<Rightarrow> AList.update (hex_or_str n m) (PFloat x) acc) rest)"

fun record_departed :: "node \<Rightarrow> hexid \<Rightarrow> (pyval \<times> pyval list) list \<Rightarrow> store \<Rightarrow> unit outcome" where
  "record_departed n ch [] s = (s, Inr ())"
| "record_departed n ch ((m, interval) # rest) s =
     (case interval of
        jt # lt # _ \<Rightarrow>
          (case float_or_skip n jt of
             Inl e \<Rightarrow> (s, Inl e)
           | Inr None \<Rightarrow> record_departed n ch rest s
           | Inr (Some j) \<Rightarrow>
               (case float_or_skip n lt of
                  Inl e \<Rightarrow> (s, Inl e)
                | Inr None \<Rightarrow> record_departed n ch rest s
                | Inr (Some l) \<Rightarrow>
                    record_departed n ch rest (record_departed_tenure ch (hex_or_str n m) (PFloat j) (PFloat l) s)))
      | [jt] \<Rightarrow> (case float_or_skip n jt of Inl e \<Rightarrow> (s, Inl e) | Inr _ \<Rightarrow> record_departed n ch rest s)
      | [] \<Rightarrow> record_departed n ch rest s)"

definition apply_permissions :: "node \<Rightarrow> document \<Rightarrow> hexid \<Rightarrow> store \<Rightarrow> unit outcome" where
  "apply_permissions n d ch s =
     (let blob = or_else (PBytes []) (dc_permissions d)
      in if \<not> truthy blob then (s, Inr ())
         else if dc_owners d = None then (s, Inr ())
         else (case blob of
                 PBytes b \<Rightarrow>
                   (case unpack_wire (nd_unpackb n) b of
                      Some (PDict perms) \<Rightarrow>
                        if \<not> is_valid_permissions (PDict perms) then (s, Inr ())
                        else if is_server s ch then tx s (set_server_permissions ch perms s)
                        else tx s (set_channel_permissions ch perms s)
                    | _ \<Rightarrow> (s, Inr ()))
               | _ \<Rightarrow> (s, Inr ())))"

text \<open>The permissions \<^verbatim>\<open>_materialise_roster\<close> gives the channels: whatever the blob unpacks to.\<close>

definition roster_permissions :: "node \<Rightarrow> document \<Rightarrow> pyval" where
  "roster_permissions n d =
     (case or_else (PBytes []) (dc_permissions d) of
        PBytes b \<Rightarrow> if b = [] then PNone else or_else PNone (nd_unpackb n b)
      | _ \<Rightarrow> PNone)"

text \<open>An entry of a roster with at least five fields, the first and fourth of them bytes and the
  second text.\<close>

definition roster_entry :: "pyval \<Rightarrow> (bytes \<times> string \<times> string \<times> bytes \<times> pyval) option" where
  "roster_entry e =
     (case e of
        PList (PBytes h # name # desc # PBytes creator # created # _) \<Rightarrow>
          (case name of
             PStr nm \<Rightarrow> Some (h, nm, case desc of PStr t \<Rightarrow> t | _ \<Rightarrow> [], creator, created)
           | _ \<Rightarrow> None)
      | _ \<Rightarrow> None)"

text \<open>\<^verbatim>\<open>{e[0].hex() for e in roster if isinstance(e, list) and len(e) >= 5}\<close>.\<close>

definition listed_hash :: "pyval \<Rightarrow> py_error + hexid list" where
  "listed_hash e =
     (case e of
        PList (h # _ # _ # _ # _ # _) \<Rightarrow> (case h of PBytes b \<Rightarrow> Inr [to_hex b] | _ \<Rightarrow> Inl AttributeError)
      | _ \<Rightarrow> Inr [])"

definition roster_created :: "node \<Rightarrow> secs \<Rightarrow> pyval \<Rightarrow> py_error + pyval" where
  "roster_created n now created =
     (if truthy created then ebind (float_of (nd_parse_float n) created) (\<lambda>f. Inr (PFloat f))
      else Inr (PFloat (Finite now)))"

definition materialise_entry ::
    "node \<Rightarrow> secs \<Rightarrow> hexid \<Rightarrow> pyval \<Rightarrow> bool \<Rightarrow> hexid set \<Rightarrow> pyval \<Rightarrow> store \<Rightarrow> (hexid \<times> string) list outcome" where
  "materialise_entry n now server perms am_member known e s =
     (case roster_entry e of
        None \<Rightarrow> (s, Inr [])
      | Some (h, name, desc, creator, created) \<Rightarrow>
          let ch = to_hex h
          in if ch \<notin> known then (s, Inr [])
             else if ch \<noteq> channel_hash_for (nd_address n) creator name then (s, Inr [])
             else if (case get_channel s ch of Some r \<Rightarrow> cr_server r \<noteq> Some server | None \<Rightarrow> False) then (s, Inr [])
             else let was_subscribed = is_subscribed s ch
                  in then_do (tx s (ebind (roster_created n now created)
                               (\<lambda>c. upsert_channel (nd_loads n) now ch name desc (to_hex creator) perms c (Some server) s)))
                       (\<lambda>_ s. if \<not> am_member then (s, Inr [])
                              else then_do (tx s (subscribe now ch s))
                                     (\<lambda>_ s. (s, Inr (if was_subscribed then [] else [(ch, name)])))))"

fun materialise_entries ::
    "node \<Rightarrow> secs \<Rightarrow> hexid \<Rightarrow> pyval \<Rightarrow> bool \<Rightarrow> hexid set \<Rightarrow> pyval list \<Rightarrow> store \<Rightarrow> (hexid \<times> string) list outcome" where
  "materialise_entries n now server perms am_member known [] s = (s, Inr [])"
| "materialise_entries n now server perms am_member known (e # es) s =
     then_do (materialise_entry n now server perms am_member known e s)
       (\<lambda>created s. then_do (materialise_entries n now server perms am_member known es s)
          (\<lambda>rest s. (s, Inr (created @ rest))))"

definition materialise_roster ::
    "node \<Rightarrow> secs \<Rightarrow> hexid \<Rightarrow> document \<Rightarrow> version_row option \<Rightarrow> store \<Rightarrow> (hexid \<times> string) list outcome" where
  "materialise_roster n now server d existing s =
     (case or_else PNone (dc_channels d) of
        PBytes b \<Rightarrow>
          (case unpack_wire (nd_unpackb n) b of
             Some (PList roster) \<Rightarrow>
               (let old = (case existing of
                             Some v \<Rightarrow> if nd_readable n (vn_document v) then roster_hashes n (dc_channels (vn_document v)) else {}
                           | None \<Rightarrow> {})
                in case ebind (each listed_hash roster) (\<lambda>hs. Inr (set (concat hs) \<union> old)) of
                     Inl e \<Rightarrow> (s, Inl e)
                   | Inr known \<Rightarrow>
                       materialise_entries n now server (roster_permissions n d)
                         (PBytes (nd_self n) \<in> set (dc_members d)) known roster s)
           | _ \<Rightarrow> (s, Inr []))
      | _ \<Rightarrow> (s, Inr []))"

text \<open>The writes, in order. \<open>existing\<close> is the version row read before them. The result is the list
  of channels newly subscribed to.\<close>

definition apply_document ::
    "node \<Rightarrow> secs \<Rightarrow> document \<Rightarrow> hexid \<Rightarrow> int \<Rightarrow> (hexid \<times> string \<times> string) list \<Rightarrow> store
     \<Rightarrow> (hexid \<times> string) list outcome" where
  "apply_document n now d ch version rows s =
     (let existing = get_member_list_version s ch;
          old_members = map mb_id (get_members s ch);
          s = upsert_member_list_version now ch version (dc_published d) d s
      in then_do (tx s (replace_members now ch rows s)) (\<lambda>_ s.
         case joined_map n [] (or_else [] (dc_joined d)) of
           Inl e \<Rightarrow> (s, Inl e)
         | Inr joined \<Rightarrow>
             then_do (tx s (update_tenure ch old_members (map fst rows) (dc_published d) joined s)) (\<lambda>_ s.
             then_do (record_departed n ch (or_else [] (dc_departed d)) s) (\<lambda>_ s.
             then_do (apply_permissions n d ch s) (\<lambda>_ s.
               if dc_channels d \<noteq> None \<and> is_server s ch
               then materialise_roster n now ch d existing s
               else (s, Inr []))))))"

definition accept_document ::
    "node \<Rightarrow> secs \<Rightarrow> document \<Rightarrow> hexid \<Rightarrow> store \<Rightarrow> (hexid \<times> string) list option outcome" where
  "accept_document n now d ch s =
     (case check_document n now d ch s of
        Inl e \<Rightarrow> (s, Inl e)
      | Inr None \<Rightarrow> (s, Inr None)
      | Inr (Some (version, signer, rows)) \<Rightarrow>
          then_do (apply_document n now d ch version rows s) (\<lambda>joined s. (s, Inr (Some joined))))"

section \<open>Documents off the wire\<close>

text \<open>\<^verbatim>\<open>doc[b"key"]\<close> and \<^verbatim>\<open>b"key" in doc\<close> of what msgpack unpacked with \<^verbatim>\<open>raw=True\<close>.\<close>

definition wire_item :: "pyval \<Rightarrow> string \<Rightarrow> py_error + pyval" where
  "wire_item v key =
     (case v of
        PDict d \<Rightarrow> (case map_of d (PBytes (utf8 key)) of None \<Rightarrow> Inl KeyError | Some x \<Rightarrow> Inr x)
      | _ \<Rightarrow> Inl TypeError)"

definition wire_optional :: "pyval \<Rightarrow> string \<Rightarrow> (pyval \<Rightarrow> py_error + 'a) \<Rightarrow> py_error + 'a option" where
  "wire_optional v key f =
     (case wire_item v key of Inl _ \<Rightarrow> Inr None | Inr x \<Rightarrow> ebind (f x) (\<lambda>y. Inr (Some y)))"

definition intervals_of :: "pyval \<Rightarrow> py_error + (pyval \<times> pyval list) list" where
  "intervals_of v =
     (case v of
        PDict d \<Rightarrow> each (\<lambda>(k, x). ebind (py_list x) (\<lambda>xs. Inr (k, xs))) d
      | _ \<Rightarrow> Inl AttributeError)"

definition document_of_wire :: "pyval \<Rightarrow> py_error + document" where
  "document_of_wire v =
     ebind (wire_item v ''channel_hash'') (\<lambda>channel.
     ebind (wire_item v ''version'') (\<lambda>version.
     ebind (wire_item v ''published_at'') (\<lambda>published.
     ebind (ebind (wire_item v ''members'') py_list) (\<lambda>members.
     ebind (ebind (wire_item v ''admins'') py_list) (\<lambda>admins.
     ebind (ebind (wire_item v ''signatures'') py_dict) (\<lambda>signatures.
     ebind (wire_optional v ''owners'' py_list) (\<lambda>owners.
     ebind (wire_optional v ''permissions'' Inr) (\<lambda>permissions.
     ebind (wire_optional v ''joined_at'' py_dict) (\<lambda>joined.
     ebind (wire_optional v ''departed'' intervals_of) (\<lambda>departed.
     ebind (wire_optional v ''channels'' Inr) (\<lambda>channels.
       Inr \<lparr>dc_channel = channel, dc_version = version, dc_published = published, dc_members = members,
            dc_admins = admins, dc_signatures = signatures, dc_owners = owners, dc_permissions = permissions,
            dc_joined = joined, dc_departed = departed, dc_channels = channels\<rparr>)))))))))))"

section \<open>Joining\<close>

text \<open>\<^verbatim>\<open>_decode\<close>: text as it is, bytes decoded, anything else empty.\<close>

definition decode_text :: "node \<Rightarrow> pyval \<Rightarrow> string" where
  "decode_text n v = (case v of PBytes b \<Rightarrow> nd_decode n b | PStr t \<Rightarrow> t | _ \<Rightarrow> [])"

text \<open>\<^verbatim>\<open>fields.get(F_CHANNEL_CREATED_AT, time.time())\<close>.\<close>

definition created_field :: "fields \<Rightarrow> secs \<Rightarrow> pyval" where
  "created_field fs now = get_or (PFloat (Finite now)) fs (PInt F_CHANNEL_CREATED_AT)"

definition permissions_field :: "fields \<Rightarrow> pyval" where
  "permissions_field fs =
     (if field_get fs F_CHANNEL_PERMISSIONS \<noteq> PNone then field_get fs F_CHANNEL_PERMISSIONS
      else get_or (PBytes (utf8 ''invite'')) fs (PInt F_CHANNEL_ACCESS))"

definition creator_binds :: "node \<Rightarrow> hexid \<Rightarrow> hexid \<Rightarrow> string \<Rightarrow> bool" where
  "creator_binds n ch creator name =
     (case fromhex creator of None \<Rightarrow> False | Some c \<Rightarrow> ch = channel_hash_for (nd_address n) c name)"

text \<open>Returns whether a row was written: the server then counts as new.\<close>

definition materialise_server :: "node \<Rightarrow> secs \<Rightarrow> fields \<Rightarrow> hexid \<Rightarrow> store \<Rightarrow> bool outcome" where
  "materialise_server n now fs h s =
     (let name = decode_text n (field_get fs F_CHANNEL_NAME); creator_hex = decode_text n (field_get fs F_CHANNEL_CREATOR)
      in if get_server s h \<noteq> None then (s, Inr False)
         else if name = [] \<or> creator_hex = [] then (s, Inr False)
         else (case fromhex creator_hex of
                 None \<Rightarrow> (s, Inr False)
               | Some creator \<Rightarrow>
                   if server_hash_for (nd_address n) creator name \<noteq> h then (s, Inr False)
                   else then_do
                     (tx s (upsert_server (nd_loads n) now h name (decode_text n (field_get fs F_CHANNEL_DESC)) creator_hex
                              (PStr (decode_text n (field_get fs F_CHANNEL_PERMISSIONS))) (created_field fs now) s))
                     (\<lambda>_ s. (s, Inr True))))"

text \<open>Subscribing, with the channel's name where it was not subscribed to before.\<close>

definition subscribe_once :: "secs \<Rightarrow> hexid \<Rightarrow> store \<Rightarrow> bool outcome" where
  "subscribe_once now ch s =
     (if is_subscribed s ch then (s, Inr False) else then_do (tx s (subscribe now ch s)) (\<lambda>_ s. (s, Inr True)))"

definition auto_join_channel :: "node \<Rightarrow> secs \<Rightarrow> fields \<Rightarrow> hexid \<Rightarrow> store \<Rightarrow> bool outcome" where
  "auto_join_channel n now fs ch s =
     (if \<not> is_member s ch (to_hex (nd_self n)) then (s, Inr False)
      else if get_channel s ch = None then
        (let name = decode_text n (field_get fs F_CHANNEL_NAME); creator = decode_text n (field_get fs F_CHANNEL_CREATOR)
         in if name = [] then (s, Inr False)
            else if \<not> creator_binds n ch creator name then (s, Inr False)
            else then_do
              (tx s (upsert_channel (nd_loads n) now ch name (decode_text n (field_get fs F_CHANNEL_DESC)) creator
                       (PStr (decode_text n (permissions_field fs))) (created_field fs now) None s))
              (\<lambda>_. subscribe_once now ch))
      else subscribe_once now ch s)"

text \<open>\<^verbatim>\<open>_text\<close> of a metadata field: \<^verbatim>\<open>str\<close> of any value, the empty text for None.\<close>

definition meta_text :: "node \<Rightarrow> fields \<Rightarrow> int \<Rightarrow> string" where
  "meta_text n meta k =
     (case field_get meta k of PNone \<Rightarrow> [] | PBytes b \<Rightarrow> nd_decode n b | PStr t \<Rightarrow> t | v \<Rightarrow> nd_str n v)"

definition create_channel_from_metadata ::
    "node \<Rightarrow> secs \<Rightarrow> hexid \<Rightarrow> fields \<Rightarrow> string \<Rightarrow> store \<Rightarrow> bool outcome" where
  "create_channel_from_metadata n now ch meta fallback s =
     (let name = (if meta_text n meta F_CHANNEL_NAME = [] then fallback else meta_text n meta F_CHANNEL_NAME);
          perms = (case permissions_field meta of PBytes b \<Rightarrow> PStr (nd_decode n b) | v \<Rightarrow> v)
      in then_do
           (if get_channel s ch = None
            then tx s (upsert_channel (nd_loads n) now ch name (meta_text n meta F_CHANNEL_DESC)
                         (meta_text n meta F_CHANNEL_CREATOR) perms (created_field meta now) None s)
            else (s, Inr ()))
           (\<lambda>_. subscribe_once now ch))"

section \<open>Inbound documents and their confirmation\<close>

text \<open>\<open>iv_new\<close> is \<^verbatim>\<open>_new_servers\<close>: materialised, and not yet reported.\<close>

record inbox =
  iv_store :: store
  iv_new :: "hexid set"

definition META_KEYS :: "int list" where
  "META_KEYS = [F_CHANNEL_NAME, F_CHANNEL_DESC, F_CHANNEL_CREATOR, F_CHANNEL_PERMISSIONS, F_CHANNEL_ACCESS,
     F_CHANNEL_CREATED_AT, F_SCOPE_KIND]"

definition hold_for_confirmation :: "node \<Rightarrow> secs \<Rightarrow> document \<Rightarrow> hexid \<Rightarrow> fields \<Rightarrow> store \<Rightarrow> store" where
  "hold_for_confirmation n now d ch fs s =
     (if PBytes (nd_self n) \<notin> set (dc_members d) then s
      else case or_else [] (dc_owners d) @ dc_admins d of
             PBytes admin # _ \<Rightarrow>
               if admin = [] then s
               else let name = (case get_or (PBytes []) fs (PInt F_CHANNEL_NAME) of
                                  PBytes b \<Rightarrow> nd_decode n b | PStr t \<Rightarrow> t | v \<Rightarrow> nd_str n v);
                        meta = List.map_filter
                          (\<lambda>k. if field_get fs k = PNone then None else Some (PInt k, field_get fs k)) META_KEYS
                    in record_pending_member_doc now ch (if name = [] then take 12 ch else name) (to_hex admin) d meta s
           | _ \<Rightarrow> s)"

definition is_server_kind :: "node \<Rightarrow> fields \<Rightarrow> bool" where
  "is_server_kind n fs = (decode_text n (field_get fs F_SCOPE_KIND) = ''server'')"

text \<open>The server row goes in first, so that the document is applied to a server; it comes out again
  where the document is rejected. An exception ends the handler where it is.\<close>

definition materialise_if ::
    "node \<Rightarrow> secs \<Rightarrow> bool \<Rightarrow> fields \<Rightarrow> hexid \<Rightarrow> inbox \<Rightarrow> inbox \<times> py_error option" where
  "materialise_if n now server_doc fs ch i =
     (if \<not> server_doc then (i, None)
      else case materialise_server n now fs ch (iv_store i) of
             (s, Inl e) \<Rightarrow> (i\<lparr>iv_store := s\<rparr>, Some e)
           | (s, Inr new) \<Rightarrow>
               (i\<lparr>iv_store := s, iv_new := if new then insert ch (iv_new i) else iv_new i\<rparr>, None))"

definition finish_server :: "bool \<Rightarrow> bool \<Rightarrow> hexid \<Rightarrow> inbox \<Rightarrow> inbox" where
  "finish_server server_doc accepted ch i =
     (if \<not> server_doc then i
      else if accepted then i\<lparr>iv_new := iv_new i - {ch}\<rparr>
      else i\<lparr>iv_new := iv_new i - {ch}, iv_store := fst (discard_empty_server ch (iv_store i))\<rparr>)"

definition on_member_list_update :: "node \<Rightarrow> secs \<Rightarrow> fields \<Rightarrow> document \<Rightarrow> hexid \<Rightarrow> inbox \<Rightarrow> inbox" where
  "on_member_list_update n now fs d ch i =
     (if \<not> can_anchor now (iv_store i) ch
      then i\<lparr>iv_store := hold_for_confirmation n now d ch fs (iv_store i)\<rparr>
      else let server_doc = is_server_kind n fs
           in case materialise_if n now server_doc fs ch i of
                (i, Some e) \<Rightarrow> i
              | (i, None) \<Rightarrow>
                  (case accept_document n now d ch (iv_store i) of
                     (s, Inl e) \<Rightarrow> i\<lparr>iv_store := s\<rparr>
                   | (s, Inr r) \<Rightarrow>
                       (let i = finish_server server_doc (r \<noteq> None) ch (i\<lparr>iv_store := s\<rparr>)
                        in if r \<noteq> None \<and> \<not> is_server (iv_store i) ch
                           then i\<lparr>iv_store := fst (auto_join_channel n now fs ch (iv_store i))\<rparr>
                           else i)))"

definition DEFAULT_TOKEN_TTL :: secs where "DEFAULT_TOKEN_TTL = 7 * 24 * 3600"

definition accept_pending_membership :: "node \<Rightarrow> secs \<Rightarrow> hexid \<Rightarrow> inbox \<Rightarrow> inbox \<times> (py_error + bool)" where
  "accept_pending_membership n now ch i =
     (case get_pending_member_doc (iv_store i) ch of
        None \<Rightarrow> (i, Inr False)
      | Some row \<Rightarrow>
          let i = i\<lparr>iv_store := record_accepted_invite now ch (pd_admin row) (Finite (now + DEFAULT_TOKEN_TTL)) (iv_store i)\<rparr>;
              meta = pd_meta row; server_doc = is_server_kind n meta
          in if \<not> nd_readable n (pd_document row)
             then (i\<lparr>iv_store := clear_pending_member_doc ch (iv_store i)\<rparr>, Inr False)
             else case materialise_if n now server_doc meta ch i of
                    (i, Some e) \<Rightarrow> (i, Inl e)
                  | (i, None) \<Rightarrow>
                      (case accept_document n now (pd_document row) ch (iv_store i) of
                         (s, Inl e) \<Rightarrow> (i\<lparr>iv_store := s\<rparr>, Inl e)
                       | (s, Inr r) \<Rightarrow>
                           (let s = clear_pending_member_doc ch s;
                                s = (if r = None then clear_accepted_invite ch s else s);
                                i = finish_server server_doc (r \<noteq> None) ch (i\<lparr>iv_store := s\<rparr>)
                            in if r = None then (i, Inr False)
                               else if server_doc then (i, Inr True)
                               else (case create_channel_from_metadata n now ch meta (pd_name row) (iv_store i) of
                                       (s, Inl e) \<Rightarrow> (i\<lparr>iv_store := s\<rparr>, Inl e)
                                     | (s, Inr _) \<Rightarrow> (i\<lparr>iv_store := s\<rparr>, Inr True)))))"

end
