(* ===== verification/Authority.thy ===== *)
theory Authority
  imports Acceptance
begin

text \<open>
  What holds of member list documents once accepted: who signed them and with what authority,
  that versions only move forward and nothing is accepted twice, that owners cannot be removed
  by anyone else, what the tables say afterwards; and the cases where the code falls short.
\<close>

section \<open>What a check that passes has established\<close>

text \<open>The public key a signature of \<open>b\<close> is checked against, and a valid signature of \<open>b\<close> on \<open>d\<close>.\<close>

definition key_of :: "node \<Rightarrow> bytes \<Rightarrow> bytes option" where
  "key_of n b = (if b = nd_self n then Some (nd_self_key n) else Option.bind (nd_delivery n b) (nd_recall n))"

definition signed_by :: "node \<Rightarrow> document \<Rightarrow> bytes \<Rightarrow> bool" where
  "signed_by n d b =
     (case (payload_of d, key_of n b) of
        (Inr payload, Some key) \<Rightarrow>
          list_ex (\<lambda>(w, sig). w = PBytes b \<and> nd_verify n key (nd_packb n payload) sig) (dc_signatures d)
      | _ \<Rightarrow> False)"

abbreviation doc_owners :: "document \<Rightarrow> pyval list" where
  "doc_owners d \<equiv> or_else [] (dc_owners d)"

lemma find_signer_sound:
  "find_signer n trusted payload sigs = Inr (Some b) \<Longrightarrow>
   PBytes b \<in> trusted \<and> (\<exists>key sig. key_of n b = Some key \<and> (PBytes b, sig) \<in> set sigs \<and> nd_verify n key payload sig)"
proof (induction sigs)
  case (Cons x sigs)
  obtain signer sig where x: "x = (signer, sig)" by fastforce
  show ?case
  proof (cases "find_signer n trusted payload sigs = Inr (Some b)")
    case True
    then show ?thesis using Cons.IH by auto
  next
    case False
    then show ?thesis using Cons.prems unfolding x
      by (auto simp: key_of_def split: if_splits pyval.splits option.splits)
  qed
qed simp

lemma validate_sound:
  assumes "validate_document n now d ch s = Inr (Some b)"
  shows "\<exists>trusted. trusted_signers now s ch = Inr (Some trusted) \<and> PBytes b \<in> trusted \<and> signed_by n d b"
proof -
  obtain trusted payload sigs where t: "trusted_signers now s ch = Inr (Some trusted)" "payload_of d = Inr payload"
      "sorted_by fst (dc_signatures d) = Inr sigs" "find_signer n trusted (nd_packb n payload) sigs = Inr (Some b)"
    using assms by (auto simp: validate_document_def ebind_Inr split: option.splits)
  then show ?thesis using find_signer_sound [OF t(4)] sorted_by_set [OF t(3)]
    by (auto simp: signed_by_def list_ex_iff intro!: bexI [of _ "(PBytes b, _)"])
qed

lemma trusted_sound:
  "trusted_signers now s ch = Inr (Some trusted) \<Longrightarrow>
   trusted = (case get_member_list_version s ch of
     None \<Rightarrow> anchors now s ch
   | Some v \<Rightarrow> set (dc_admins (vn_document v)) \<union> set (doc_owners (vn_document v)))"
  by (auto simp: trusted_signers_def ebind_Inr py_set_Inr split: option.splits if_splits)

lemma check_sound:
  assumes "check_document n now d ch s = Inr (Some (version, signer, rows))"
  shows "hex_or_str n (dc_channel d) = ch" "dc_version d = PInt version" "ordering_fields_are_sane n now d = Inr True"
    "validate_document n now d ch s = Inr (Some signer)" "signer_may_apply n d ch signer s = Inr True"
    "supersedes n now version (dc_published d) signer ch s = Inr True"
    "member_rows (set (doc_owners d)) (set (dc_admins d)) (dc_members d) = Some rows"
  using assms
  by (auto simp: check_document_def ebind_Inr py_set_Inr split: if_splits option.splits pyval.splits)

text \<open>The authority a document needs, spelled out over sets.\<close>

definition authorised :: "node \<Rightarrow> document \<Rightarrow> document \<Rightarrow> hexid \<Rightarrow> bytes \<Rightarrow> store \<Rightarrow> bool" where
  "authorised n old d ch signer s =
     (let may = (\<lambda>p. role_may s ch (to_hex signer) p = Inr True);
          removed = set (dc_members old) - set (dc_members d);
          owner = PBytes signer \<in> set (doc_owners old)
      in (removed \<noteq> {} \<longrightarrow> may KICK)
         \<and> (removed \<inter> set (dc_admins old) \<noteq> {} \<or> set (dc_admins old) \<noteq> set (dc_admins d) \<longrightarrow> may MANAGE_ROLES)
         \<and> (removed \<inter> set (doc_owners old) \<noteq> {} \<or> set (doc_owners old) \<noteq> set (doc_owners d) \<longrightarrow> owner)
         \<and> (or_empty_bytes (dc_permissions d) \<noteq> PBytes []
            \<and> or_empty_bytes (dc_permissions d) \<noteq> or_empty_bytes (dc_permissions old) \<longrightarrow> may MANAGE_CHANNEL)
         \<and> (roster_additions n old d \<noteq> {} \<longrightarrow> may CREATE_CHANNEL)
         \<and> set (dc_admins d) \<union> set (doc_owners d) \<noteq> {})"

lemma may_apply_sound:
  assumes "signer_may_apply n d ch signer s = Inr True" and "get_member_list_version s ch = Some v"
  shows "authorised n (vn_document v) d ch signer s"
  using assms
  by (auto simp: signer_may_apply_def authorised_def ebind_Inr py_set_Inr Let_def split: if_splits)

lemma accepted_checked:
  assumes "accept_document n now d ch s = (s', Inr (Some joined))"
  obtains version signer rows where "check_document n now d ch s = Inr (Some (version, signer, rows))"
    "apply_document n now d ch version rows s = (s', Inr joined)"
  using assms
  by (auto simp: accept_document_def then_do_Inr split: sum.splits option.splits prod.splits)

text \<open>C2. Whatever a peer or a relay hands over, a document that is accepted carries a valid signature
  of someone whom the state stored before it trusts: an admin or owner of the document held, or,
  with none held, the creator or the admin whose invite was accepted. And what it changes is
  what that signer may change by the stored roles: removing members needs KICK, removing or
  making admins MANAGE_ROLES, touching owners being an owner, new permissions MANAGE_CHANNEL
  and new channels CREATE_CHANNEL; and it leaves someone in authority.\<close>

theorem accepted_means_authorised:
  assumes "accept_document n now d ch s = (s', Inr (Some joined))"
  shows "\<exists>signer. signed_by n d signer
    \<and> (case get_member_list_version s ch of
         None \<Rightarrow> PBytes signer \<in> anchors now s ch
       | Some v \<Rightarrow> PBytes signer \<in> set (dc_admins (vn_document v)) \<union> set (doc_owners (vn_document v))
                  \<and> authorised n (vn_document v) d ch signer s)"
proof -
  obtain version signer rows where c: "check_document n now d ch s = Inr (Some (version, signer, rows))"
    using accepted_checked [OF assms] by blast
  obtain trusted where t: "trusted_signers now s ch = Inr (Some trusted)" "PBytes signer \<in> trusted" "signed_by n d signer"
    using validate_sound [OF check_sound(4) [OF c]] by blast
  show ?thesis
  proof (cases "get_member_list_version s ch")
    case None
    then show ?thesis using t trusted_sound [OF t(1)] by auto
  next
    case (Some v)
    then show ?thesis using t trusted_sound [OF t(1)] may_apply_sound [OF check_sound(5) [OF c] Some] by auto
  qed
qed

text \<open>A channel known by its creator, and the first document the creator signs for it. A signature
  is the signer's key.\<close>

definition sample_node :: node where
  "sample_node = \<lparr>nd_self = [1], nd_self_key = [1], nd_delivery = Some, nd_recall = Some,
     nd_verify = (\<lambda>key payload sig. sig = PBytes key), nd_sign = (\<lambda>_. [1]), nd_packb = (\<lambda>_. []), nd_unpackb = (\<lambda>_. None),
     nd_readable = (\<lambda>_. True), nd_decode = (\<lambda>_. []), nd_str = (\<lambda>_. []), nd_loads = (\<lambda>_. None),
     nd_parse_float = (\<lambda>_. None), nd_dumps = (\<lambda>_. []), nd_unpack_raw = (\<lambda>_. None), nd_sha = id,
     nd_address = (\<lambda>_ _. [])\<rparr>"

definition sample_store :: store where
  "sample_store = empty_store\<lparr>st_channels := [\<lparr>cr_hash = ''0a'', cr_name = ''x'', cr_description = [], cr_creator = ''01'',
      cr_permissions = None, cr_created = PInt 0, cr_seen = 0, cr_server = None, cr_kind = ''channel''\<rparr>]\<rparr>"

definition sample_doc :: document where
  "sample_doc = \<lparr>dc_channel = PBytes [10], dc_version = PInt 1, dc_published = PInt 100, dc_members = [PBytes [1], PBytes [2]],
     dc_admins = [PBytes [1]], dc_signatures = [(PBytes [1], PBytes [1])], dc_owners = Some [PBytes [1]],
     dc_permissions = None, dc_joined = None, dc_departed = None, dc_channels = None\<rparr>"

lemma sample_accepted:
  "accept_document sample_node 200 sample_doc ''0a'' sample_store
   = (fst (accept_document sample_node 200 sample_doc ''0a'' sample_store), Inr (Some []))"
proof -
  have "snd (accept_document sample_node 200 sample_doc ''0a'' sample_store) = Inr (Some [])" by code_simp
  then show ?thesis by (metis prod.collapse)
qed

theorem accepted_means_authorised_witness:
  "\<exists>signer. signed_by sample_node sample_doc signer \<and> PBytes signer \<in> anchors 200 sample_store ''0a''"
proof -
  have "get_member_list_version sample_store ''0a'' = None" by code_simp
  with accepted_means_authorised [OF sample_accepted] show ?thesis by auto
qed

section \<open>What the writes leave alone\<close>

text \<open>A scope that owns itself, now and after any entry of the cache is dropped.\<close>

definition own_scope :: "hexid \<Rightarrow> store \<Rightarrow> bool" where
  "own_scope ch s = (map_of (st_scopes s) ch \<in> {None, Some ch} \<and> scope_fetch s ch = ch)"

lemma own_scope_for: "own_scope ch s \<Longrightarrow> scope_for s ch = ch"
  by (auto simp: own_scope_def scope_for_def)

text \<open>Steps that touch neither the members nor the versions, and hold no new document.\<close>

definition aside :: "hexid \<Rightarrow> store \<Rightarrow> store \<Rightarrow> bool" where
  "aside ch s s' = (st_members s' = st_members s \<and> st_versions s' = st_versions s \<and> set (st_docs s') \<subseteq> set (st_docs s)
     \<and> (own_scope ch s \<longrightarrow> own_scope ch s'))"

named_theorems aside_intros "operations that leave members, versions and the scope alone"

lemma aside_refl [simp]: "aside ch s s"
  by (simp add: aside_def)

lemma aside_trans: "aside ch s t \<Longrightarrow> aside ch t u \<Longrightarrow> aside ch s u"
  by (auto simp: aside_def)

lemma aside_same:
  "st_members s' = st_members s \<Longrightarrow> st_versions s' = st_versions s \<Longrightarrow> st_scopes s' = st_scopes s \<Longrightarrow>
   set (st_docs s') \<subseteq> set (st_docs s) \<Longrightarrow> (\<And>c. parent (st_channels s') c = parent (st_channels s) c) \<Longrightarrow> aside ch s s'"
  using scope_fetch_cong [of s' ch s] by (auto simp: aside_def own_scope_def)

lemma aside_then_do:
  "aside ch s (fst m) \<Longrightarrow> (\<And>x t. m = (t, Inr x) \<Longrightarrow> aside ch t (fst (f x t))) \<Longrightarrow> aside ch s (fst (then_do m f))"
  by (cases m; cases "snd m") (auto simp: then_do_def intro: aside_trans)

lemma aside_tx: "(\<And>s'. r = Inr s' \<Longrightarrow> aside ch s s') \<Longrightarrow> aside ch s (fst (tx s r))"
  by (cases r) auto

lemma aside_upsert_channel:
  assumes "upsert_channel loads now c name desc creator perms created server s = Inr s'"
    and "c = ch \<Longrightarrow> server \<in> {None, Some ch}"
  shows "aside ch s s'"
proof -
  obtain p k where s': "s' = scope_forget c (s\<lparr>st_channels := upsert cr_hash
      \<lparr>cr_hash = c, cr_name = name, cr_description = desc, cr_creator = creator,
       cr_permissions = p, cr_created = k, cr_seen = now, cr_server = server, cr_kind = ''channel''\<rparr>
      (\<lambda>r. r\<lparr>cr_name := name, cr_description := desc, cr_permissions := p, cr_seen := now,
            cr_kind := ''channel''\<rparr>) (st_channels s)\<rparr>)"
    using assms(1) by (auto simp: upsert_channel_def ebind_Inr)
  have "scope_fetch s' ch = ch" if own: "scope_fetch s ch = ch"
  proof (cases "c = ch")
    case True
    then show ?thesis using own assms(2)
      by (auto simp: s' scope_fetch_def scope_forget_def split: option.splits)
  next
    case False
    then show ?thesis using own by (simp add: s' scope_fetch_parent scope_forget_def parent_upsert)
  qed
  then show ?thesis by (auto simp: aside_def own_scope_def s' scope_forget_def)
qed

lemma aside_subscribe [aside_intros]: "subscribe now c s = Inr s' \<Longrightarrow> aside ch s s'"
  by (auto simp: subscribe_def intro!: aside_same split: if_splits)

lemma aside_set_permissions [aside_intros]:
  "set_server_permissions c p s = Inr s' \<Longrightarrow> aside ch s s'"
  "set_channel_permissions c p s = Inr s' \<Longrightarrow> aside ch s s'"
  by (auto simp: set_server_permissions_def set_channel_permissions_def parent_update intro!: aside_same split: option.splits)

lemma aside_upsert_server [aside_intros]:
  "upsert_server loads now h name desc creator perms created s = Inr s' \<Longrightarrow> aside ch s s'"
  by (auto simp: upsert_server_def ebind_Inr intro!: aside_same)

lemma aside_update_tenure [aside_intros]: "update_tenure c old new p j s = Inr s' \<Longrightarrow> aside ch s s'"
  by (auto simp: update_tenure_def ebind_Inr Let_def intro!: aside_same)

lemma aside_rows [aside_intros]:
  "aside ch s (record_departed_tenure c h j l s)"
  "aside ch s (record_accepted_invite now c admin expiry s)"
  "aside ch s (clear_accepted_invite c s)"
  "aside ch s (clear_pending_member_doc c s)"
  by (auto simp: record_departed_tenure_def record_accepted_invite_def clear_accepted_invite_def
      clear_pending_member_doc_def delete_where_def intro!: aside_same)

lemma aside_discard [aside_intros]: "aside ch s (fst (discard_empty_server c s))"
  by (auto simp: discard_empty_server_def aside_def own_scope_def scope_forget_def scope_fetch_def)

lemma aside_record_departed [aside_intros]: "aside ch s (fst (record_departed n c ds s))"
proof (induction ds arbitrary: s)
  case (Cons x ds)
  have "aside ch s (fst (record_departed n c ds (record_departed_tenure c h j l s)))" for h j l
    by (rule aside_trans [OF aside_rows(1) Cons.IH])
  then show ?case using Cons.IH
    by (cases x) (auto split: list.splits sum.splits option.splits)
qed simp

lemma aside_apply_permissions [aside_intros]: "aside ch s (fst (apply_permissions n d c s))"
  by (auto simp: apply_permissions_def Let_def intro!: aside_tx intro: aside_intros
      split: pyval.splits option.splits)

lemma aside_entry: "aside ch s (fst (materialise_entry n now ch perms am known e s))"
  by (auto simp: materialise_entry_def Let_def ebind_Inr split: option.splits
      intro!: aside_then_do aside_tx intro: aside_upsert_channel aside_subscribe)

lemma aside_entries: "aside ch s (fst (materialise_entries n now ch perms am known es s))"
  by (induction es arbitrary: s) (auto intro!: aside_then_do aside_entry)

lemma aside_roster [aside_intros]: "aside ch s (fst (materialise_roster n now ch d v s))"
  by (auto simp: materialise_roster_def Let_def intro: aside_entries split: pyval.splits option.splits sum.splits)

lemma aside_subscribe_once [aside_intros]: "aside ch s (fst (subscribe_once now c s))"
  by (auto simp: subscribe_once_def intro!: aside_then_do aside_tx intro: aside_intros)

lemma aside_auto_join [aside_intros]: "aside ch s (fst (auto_join_channel n now fs ch s))"
  by (auto simp: auto_join_channel_def Let_def intro!: aside_then_do aside_tx aside_subscribe_once intro: aside_upsert_channel)

lemma aside_metadata [aside_intros]: "aside ch s (fst (create_channel_from_metadata n now ch meta name s))"
  by (auto simp: create_channel_from_metadata_def Let_def intro!: aside_then_do aside_tx aside_subscribe_once intro: aside_upsert_channel)

lemma aside_materialise_server [aside_intros]: "aside ch s (fst (materialise_server n now fs c s))"
  by (auto simp: materialise_server_def Let_def split: option.splits intro!: aside_then_do aside_tx intro: aside_intros)

section \<open>The members follow the document\<close>

lemma member_rows_Some:
  "member_rows owners admins ms = Some rows \<Longrightarrow>
   \<exists>bs. ms = map PBytes bs \<and> rows = map (\<lambda>b. (to_hex b, [], member_role owners admins (PBytes b))) bs"
proof (induction ms arbitrary: rows)
  case (Cons m ms)
  then obtain b rest where m: "m = PBytes b" and r: "member_rows owners admins ms = Some rest"
      "rows = (to_hex b, [], member_role owners admins (PBytes b)) # rest"
    by (cases m) auto
  from Cons.IH [OF r(1)] obtain bs where "ms = map PBytes bs"
      "rest = map (\<lambda>b. (to_hex b, [], member_role owners admins (PBytes b))) bs" by blast
  then show ?case using m r(2) by (intro exI [of _ "b # bs"]) simp
qed simp

text \<open>The first two writes; everything after them is aside.\<close>

lemma apply_document_writes:
  defines "s1 \<equiv> \<lambda>now ch version d s. upsert_member_list_version now ch version (dc_published d) d s"
  shows "if distinct (map fst rows)
    then \<exists>s2. replace_members now ch rows (s1 now ch version d s) = Inr s2
          \<and> aside ch s2 (fst (apply_document n now d ch version rows s))
    else apply_document n now d ch version rows s = (s1 now ch version d s, Inl IntegrityError)"
proof (cases "distinct (map fst rows)")
  case True
  then obtain s2 where r: "replace_members now ch rows (s1 now ch version d s) = Inr s2"
    by (simp add: replace_members_def)
  have "aside ch s2 (fst (apply_document n now d ch version rows s))"
    unfolding apply_document_def Let_def r [unfolded s1_def] tx_simps then_do_simps
    by (auto split: sum.splits intro!: aside_then_do aside_tx intro: aside_intros)
  then show ?thesis using True r by auto
qed (simp add: apply_document_def Let_def replace_members_def s1_def)

lemma upsert_version_simps [simp]:
  "st_members (upsert_member_list_version now ch v p d s) = st_members s"
  "st_docs (upsert_member_list_version now ch v p d s) = st_docs s"
  "own_scope c (upsert_member_list_version now ch v p d s) = own_scope c s"
  "row_of vn_scope (st_versions (upsert_member_list_version now ch v p d s)) ch =
     Some \<lparr>vn_scope = ch, vn_version = v, vn_published = real_column p, vn_document = d, vn_received = now\<rparr>"
  by (auto simp: upsert_member_list_version_def own_scope_def scope_fetch_def dest: row_of_Some split: option.splits)

lemma replace_members_simps:
  "replace_members now ch rows s = Inr s2 \<Longrightarrow>
     st_versions s2 = st_versions s \<and> st_docs s2 = st_docs s \<and> own_scope c s2 = own_scope c s \<and> distinct (map fst rows)"
  by (auto simp: replace_members_def own_scope_def scope_fetch_def split: if_splits)

lemma row_of_fresh: "(\<And>r. r \<in> set rows \<Longrightarrow> key r \<noteq> k) \<Longrightarrow> row_of key (rows @ new) k = row_of key new k"
  by (induction rows) auto

lemma role_replaced:
  assumes "replace_members now ch rows s = Inr s2" and "own_scope ch s2"
  shows "get_role s2 ch h = map_of (map (\<lambda>(h, name, role). (h, role)) rows) h"
proof -
  have m: "st_members s2 = delete_where (\<lambda>m. mb_scope m = ch) (st_members s)
      @ map (\<lambda>(h, name, role). \<lparr>mb_scope = ch, mb_id = h, mb_name = name, mb_role = role, mb_added = now\<rparr>) rows"
    using assms(1) by (auto simp: replace_members_def split: if_splits)
  have "row_of (\<lambda>m. (mb_scope m, mb_id m)) (st_members s2) (ch, h) = row_of (\<lambda>m. (mb_scope m, mb_id m))
      (map (\<lambda>(h, name, role). \<lparr>mb_scope = ch, mb_id = h, mb_name = name, mb_role = role, mb_added = now\<rparr>) rows) (ch, h)"
    unfolding m by (rule row_of_fresh) (auto simp: delete_where_def)
  moreover have "map_option mb_role (row_of (\<lambda>m. (mb_scope m, mb_id m))
      (map (\<lambda>(h, name, role). \<lparr>mb_scope = ch, mb_id = h, mb_name = name, mb_role = role, mb_added = now\<rparr>) rows) (ch, h))
    = map_of (map (\<lambda>(h, name, role). (h, role)) rows) h"
    by (induction rows) auto
  ultimately show ?thesis using own_scope_for [OF assms(2)] by (simp add: get_role_def member_row_of_def)
qed

lemma aside_role: "aside ch s s' \<Longrightarrow> own_scope ch s \<Longrightarrow> get_role s' ch h = get_role s ch h"
  by (simp add: aside_def get_role_def member_row_of_def own_scope_for)

lemma aside_version:
  "aside ch s s' \<Longrightarrow> own_scope ch s \<Longrightarrow> get_member_list_version s' ch = get_member_list_version s ch"
  by (simp add: aside_def get_member_list_version_def own_scope_for)

text \<open>What is stored once a checked document has been applied, whether or not an exception ended it.\<close>

lemma applied_state:
  assumes c: "check_document n now d ch s = Inr (Some (version, signer, rows))" and own: "own_scope ch s"
  defines "s' \<equiv> fst (apply_document n now d ch version rows s)"
  shows "own_scope ch s'" and "set (st_docs s') \<subseteq> set (st_docs s)"
    and "get_member_list_version s' ch = Some \<lparr>vn_scope = ch, vn_version = version,
          vn_published = real_column (dc_published d), vn_document = d, vn_received = now\<rparr>"
    and "distinct (map fst rows) \<Longrightarrow> get_role s' ch h = map_of (map (\<lambda>(h, name, role). (h, role)) rows) h"
    and "\<not> distinct (map fst rows) \<Longrightarrow> st_members s' = st_members s"
proof -
  let ?s1 = "upsert_member_list_version now ch version (dc_published d) d s"
  let ?row = "\<lparr>vn_scope = ch, vn_version = version, vn_published = real_column (dc_published d), vn_document = d,
    vn_received = now\<rparr>"
  have one: "own_scope ch ?s1" "get_member_list_version ?s1 ch = Some ?row"
    using own by (simp_all add: get_member_list_version_def own_scope_for)
  consider (dup) "\<not> distinct (map fst rows)" "s' = ?s1"
    | (ok) s2 where "distinct (map fst rows)" "replace_members now ch rows ?s1 = Inr s2" "aside ch s2 s'"
    using apply_document_writes [of rows now ch version d s n] unfolding s'_def by (auto split: if_splits)
  then have all: "own_scope ch s' \<and> set (st_docs s') \<subseteq> set (st_docs s) \<and> get_member_list_version s' ch = Some ?row
    \<and> (distinct (map fst rows) \<longrightarrow> get_role s' ch h = map_of (map (\<lambda>(h, name, role). (h, role)) rows) h)
    \<and> (\<not> distinct (map fst rows) \<longrightarrow> st_members s' = st_members s)"
  proof cases
    case dup
    then show ?thesis using one by simp
  next
    case ok
    note r = replace_members_simps [OF ok(2)]
    have own2: "own_scope ch s2" using r one by simp
    have "get_member_list_version s2 ch = Some ?row"
      using one r by (simp add: get_member_list_version_def own_scope_for own2)
    then show ?thesis
      using ok(1) r aside_role [OF ok(3) own2, of h] aside_version [OF ok(3) own2] role_replaced [OF ok(2) own2, of h] ok(3) own2
      by (auto simp: aside_def)
  qed
  from all show "own_scope ch s'" "set (st_docs s') \<subseteq> set (st_docs s)" "get_member_list_version s' ch = Some ?row"
    by blast+
  from all show "distinct (map fst rows) \<Longrightarrow> get_role s' ch h = map_of (map (\<lambda>(h, name, role). (h, role)) rows) h"
    and "\<not> distinct (map fst rows) \<Longrightarrow> st_members s' = st_members s" by blast+
qed

lemma applied_distinct:
  "apply_document n now d ch version rows s = (s', Inr joined) \<Longrightarrow> distinct (map fst rows)"
  using apply_document_writes [of rows now ch version d s n] by (auto split: if_splits)

lemma accepted_applied:
  assumes "accept_document n now d ch s = (s', Inr (Some joined))"
  obtains version signer rows where "check_document n now d ch s = Inr (Some (version, signer, rows))"
    "s' = fst (apply_document n now d ch version rows s)" "distinct (map fst rows)"
  using accepted_checked [OF assms] applied_distinct by (metis fst_conv)

text \<open>C4. An accepted document is what every read says afterwards: each identity it lists has the role
  the document gives it (owner before admin before member), and nobody else has any.\<close>

theorem members_follow_document:
  assumes "accept_document n now d ch s = (s', Inr (Some joined))" and "own_scope ch s"
  shows "(PBytes b \<in> set (dc_members d) \<longrightarrow>
      get_role s' ch (to_hex b) = Some (member_role (set (doc_owners d)) (set (dc_admins d)) (PBytes b)))
    \<and> (h \<notin> to_hex ` {b. PBytes b \<in> set (dc_members d)} \<longrightarrow> get_role s' ch h = None)
    \<and> map_option vn_document (get_member_list_version s' ch) = Some d"
proof -
  obtain version signer rows where c: "check_document n now d ch s = Inr (Some (version, signer, rows))"
      and s': "s' = fst (apply_document n now d ch version rows s)" "distinct (map fst rows)"
    using accepted_applied [OF assms(1)] by blast
  obtain bs where bs: "dc_members d = map PBytes bs"
      "rows = map (\<lambda>b. (to_hex b, [], member_role (set (doc_owners d)) (set (dc_admins d)) (PBytes b))) bs"
    using member_rows_Some [OF check_sound(7) [OF c]] by blast
  note a = applied_state [OF c assms(2), folded s'(1)]
  have role: "get_role s' ch h = map_of (map (\<lambda>b. (to_hex b, member_role (set (doc_owners d)) (set (dc_admins d)) (PBytes b))) bs) h" for h
    using a(4) [OF s'(2)] by (simp add: bs(2) o_def)
  have "map_of (map (\<lambda>b. (to_hex b, f b)) bs) (to_hex b) = Some (f b)" if "b \<in> set bs" for f :: "bytes \<Rightarrow> string" and b
    using that by (induction bs) (auto dest: to_hex_inj)
  moreover have "map_of (map (\<lambda>b. (to_hex b, f b)) bs) h = None" if "h \<notin> to_hex ` set bs" for f :: "bytes \<Rightarrow> string" and h
    using that by (auto simp: map_of_eq_None_iff image_image)
  ultimately show ?thesis using role a(3) by (auto simp: bs(1) image_iff)
qed

lemma sample_own_scope: "own_scope ''0a'' sample_store"
  by code_simp

theorem members_follow_document_witness:
  "get_role (fst (accept_document sample_node 200 sample_doc ''0a'' sample_store)) ''0a'' (to_hex [1]) = Some ROLE_OWNER"
proof -
  have "PBytes [1] \<in> set (dc_members sample_doc)" by code_simp
  moreover have "member_role (set (doc_owners sample_doc)) (set (dc_admins sample_doc)) (PBytes [1]) = ROLE_OWNER" by code_simp
  ultimately show ?thesis using members_follow_document [OF sample_accepted sample_own_scope, of "[1]"] by simp
qed

section \<open>Histories\<close>

text \<open>What can happen to the scope \<open>ch\<close>: a document arrives, at a node that may have learned
  other identities by then, or the user confirms the one that is held.\<close>

datatype inbox_event =
    Arrives node secs fields document
  | Confirms node secs

fun inbox_step :: "hexid \<Rightarrow> inbox_event \<Rightarrow> inbox \<Rightarrow> inbox" where
  "inbox_step ch (Arrives n now fs d) i = on_member_list_update n now fs d ch i"
| "inbox_step ch (Confirms n now) i = fst (accept_pending_membership n now ch i)"

fun event_node :: "inbox_event \<Rightarrow> node" where
  "event_node (Arrives n _ _ _) = n"
| "event_node (Confirms n _) = n"

fun event_document :: "inbox_event \<Rightarrow> document option" where
  "event_document (Arrives _ _ _ d) = Some d"
| "event_document (Confirms _ _) = None"

text \<open>The moves a history is made of: steps aside, the hold of a document, and the application of
  one that passed every check. \<open>Ns\<close> and \<open>Ds\<close> are the nodes and documents met.\<close>

inductive moves :: "node set \<Rightarrow> document set \<Rightarrow> hexid \<Rightarrow> store \<Rightarrow> store \<Rightarrow> bool" for Ns Ds ch where
  aside: "aside ch s s' \<Longrightarrow> moves Ns Ds ch s s'"
| hold: "d \<in> Ds \<Longrightarrow> moves Ns Ds ch s (record_pending_member_doc now c name admin d meta s)"
| applied: "n \<in> Ns \<Longrightarrow> d \<in> Ds \<Longrightarrow> check_document n now d ch s = Inr (Some (version, signer, rows)) \<Longrightarrow>
    moves Ns Ds ch s (fst (apply_document n now d ch version rows s))"
| trans: "moves Ns Ds ch s t \<Longrightarrow> moves Ns Ds ch t u \<Longrightarrow> moves Ns Ds ch s u"

lemma moves_aside: "moves Ns Ds ch s t \<Longrightarrow> aside ch t u \<Longrightarrow> moves Ns Ds ch s u"
  by (rule moves.trans [OF _ moves.aside])

lemma aside_moves: "aside ch s t \<Longrightarrow> moves Ns Ds ch t u \<Longrightarrow> moves Ns Ds ch s u"
  by (rule moves.trans [OF moves.aside])

lemma moves_hold: "d \<in> Ds \<Longrightarrow> moves Ns Ds ch s (hold_for_confirmation n now d c fs s)"
proof -
  assume d: "d \<in> Ds"
  have "hold_for_confirmation n now d c fs s = s \<or>
      (\<exists>name admin meta. hold_for_confirmation n now d c fs s = record_pending_member_doc now c name admin d meta s)"
    unfolding hold_for_confirmation_def Let_def by (simp split: list.split pyval.split) blast
  then show ?thesis using moves.hold [OF d] moves.aside [OF aside_refl] by metis
qed

lemma moves_accept: "n \<in> Ns \<Longrightarrow> d \<in> Ds \<Longrightarrow> moves Ns Ds ch s (fst (accept_document n now d ch s))"
proof -
  assume nd: "n \<in> Ns" "d \<in> Ds"
  have "fst (then_do m (\<lambda>joined s. (s, Inr (Some joined)))) = fst m" for m :: "(hexid \<times> string) list outcome"
    by (cases m; cases "snd m") (auto simp: then_do_def)
  then show ?thesis
    by (auto simp: accept_document_def split: sum.splits option.splits intro: moves.aside moves.applied [OF nd])
qed

lemma aside_materialise_if: "aside ch (iv_store i) (iv_store (fst (materialise_if n now server fs c i)))"
  using aside_materialise_server [of ch "iv_store i" n now fs c]
  by (auto simp: materialise_if_def split: prod.splits sum.splits)

lemma aside_finish: "aside ch (iv_store i) (iv_store (finish_server server accepted c i))"
  by (auto simp: finish_server_def intro: aside_intros)

lemma moves_update:
  assumes "n \<in> Ns" and "d \<in> Ds"
  shows "moves Ns Ds ch (iv_store i) (iv_store (on_member_list_update n now fs d ch i))"
proof (cases "can_anchor now (iv_store i) ch")
  case True
  let ?m = "materialise_if n now (is_server_kind n fs) fs ch i"
  obtain j e where m: "?m = (j, e)" by fastforce
  have a: "aside ch (iv_store i) (iv_store j)" using aside_materialise_if [of ch i n now _ fs ch] m by (metis fst_conv)
  obtain s r where r: "accept_document n now d ch (iv_store j) = (s, r)" by fastforce
  have b: "moves Ns Ds ch (iv_store j) s" using moves_accept [OF assms, of ch "iv_store j" now] r by simp
  have f: "moves Ns Ds ch (iv_store i) (iv_store (finish_server server x ch (j\<lparr>iv_store := s\<rparr>)))" for server x
    using moves_aside [OF aside_moves [OF a b] aside_finish [of ch "j\<lparr>iv_store := s\<rparr>" server x ch, simplified]] .
  show ?thesis
    using True m moves.aside [OF a] aside_moves [OF a b] f moves_aside [OF f aside_auto_join] r
    by (auto simp: on_member_list_update_def Let_def split: option.splits sum.splits)
qed (auto simp: on_member_list_update_def intro: moves_hold assms)

lemma moves_confirm:
  assumes "n \<in> Ns" and "pd_document ` set (st_docs (iv_store i)) \<subseteq> Ds"
  shows "moves Ns Ds ch (iv_store i) (iv_store (fst (accept_pending_membership n now ch i)))"
proof (cases "get_pending_member_doc (iv_store i) ch")
  case (Some row)
  let ?j = "i\<lparr>iv_store := record_accepted_invite now ch (pd_admin row) (Finite (now + DEFAULT_TOKEN_TTL)) (iv_store i)\<rparr>"
  have d: "pd_document row \<in> Ds"
    using Some assms(2) by (auto simp: get_pending_member_doc_def dest!: row_of_Some)
  have j: "aside ch (iv_store i) (iv_store ?j)" by (simp add: aside_intros)
  obtain k e where m: "materialise_if n now (is_server_kind n (pd_meta row)) (pd_meta row) ch ?j = (k, e)" by fastforce
  have k: "aside ch (iv_store i) (iv_store k)"
    using aside_trans [OF j] aside_materialise_if [of ch ?j n now _ "pd_meta row" ch] m by (metis fst_conv)
  obtain s r where r: "accept_document n now (pd_document row) ch (iv_store k) = (s, r)" by fastforce
  have b: "moves Ns Ds ch (iv_store i) s"
    using aside_moves [OF k moves_accept [OF assms(1) d]] r by (metis fst_conv)
  let ?c = "\<lambda>x. if x then clear_accepted_invite ch (clear_pending_member_doc ch s) else clear_pending_member_doc ch s"
  have c: "moves Ns Ds ch (iv_store i) (?c x)" for x
    using b by (auto intro: moves_aside aside_trans aside_rows)
  have f: "moves Ns Ds ch (iv_store i) (iv_store (finish_server server acc ch (k\<lparr>iv_store := ?c x\<rparr>)))" for server acc x
    using moves_aside [OF c aside_finish [of ch "k\<lparr>iv_store := ?c x\<rparr>" server acc ch, simplified]] by simp
  have g: "moves Ns Ds ch (iv_store i) t"
    if "create_channel_from_metadata n now ch meta name (iv_store (finish_server server acc ch (k\<lparr>iv_store := ?c x\<rparr>))) = (t, r)"
    for server acc x meta name t r
    using moves_aside [OF f aside_metadata] that by (metis fst_conv)
  show ?thesis
    using Some m b c k f [of _ _ True] f [of _ _ False] g [where x = True] g [where x = False] r aside_trans [OF j aside_rows(4)]
    by (auto simp: accept_pending_membership_def Let_def split: option.splits sum.splits prod.splits intro: moves.aside)
qed (simp add: accept_pending_membership_def moves.aside)

definition held_documents :: "store \<Rightarrow> document set" where
  "held_documents s = pd_document ` set (st_docs s)"

lemma moves_inv:
  "moves Ns Ds ch s s' \<Longrightarrow> own_scope ch s \<Longrightarrow> held_documents s \<subseteq> Ds \<Longrightarrow> own_scope ch s' \<and> held_documents s' \<subseteq> Ds"
proof (induction rule: moves.induct)
  case (aside s s')
  then show ?case by (auto simp: aside_def held_documents_def)
next
  case (hold d s now c name admin meta)
  then show ?case
    by (auto simp: record_pending_member_doc_def own_scope_def scope_fetch_def held_documents_def insert_replace_def
        delete_where_def)
next
  case (applied n d now s version signer rows)
  then show ?case using applied_state(1,2) [OF applied(3)] by (auto simp: held_documents_def)
qed simp

text \<open>The documents met in a history: those that arrive and those already held.\<close>

definition met :: "inbox_event list \<Rightarrow> inbox \<Rightarrow> document set" where
  "met es i = set (List.map_filter event_document es) \<union> held_documents (iv_store i)"

lemma step_moves:
  assumes "event_node e \<in> Ns" and "\<And>d. event_document e = Some d \<Longrightarrow> d \<in> Ds" and "held_documents (iv_store i) \<subseteq> Ds"
  shows "moves Ns Ds ch (iv_store i) (iv_store (inbox_step ch e i))"
  using assms by (cases e) (auto simp: held_documents_def intro: moves_update moves_confirm)

lemma history_moves:
  assumes "own_scope ch (iv_store i)" and "held_documents (iv_store i) \<subseteq> Ds"
    and "event_node ` set es \<subseteq> Ns" and "set (List.map_filter event_document es) \<subseteq> Ds"
  shows "moves Ns Ds ch (iv_store i) (iv_store (fold (inbox_step ch) es i))"
  using assms
proof (induction es arbitrary: i)
  case Nil
  then show ?case by (simp add: moves.aside)
next
  case (Cons e es)
  have m: "moves Ns Ds ch (iv_store i) (iv_store (inbox_step ch e i))"
    using Cons.prems by (intro step_moves) (auto simp: List.map_filter_simps split: option.splits)
  note inv = moves_inv [OF m Cons.prems(1,2)]
  have "set (List.map_filter event_document es) \<subseteq> Ds"
    using Cons.prems(4) by (auto simp: List.map_filter_simps split: option.splits)
  then have "moves Ns Ds ch (iv_store (inbox_step ch e i)) (iv_store (fold (inbox_step ch) es (inbox_step ch e i)))"
    using Cons.prems(3) inv by (intro Cons.IH) auto
  with m show ?case by (simp add: moves.trans)
qed

lemmas met_moves = history_moves [where Ds = "met es i" and Ns = "event_node ` set es" and es = es and i = i for es i]

section \<open>Versions only move forward\<close>

definition stamp_le :: "pyval \<Rightarrow> pyval \<Rightarrow> bool" where
  "stamp_le a b = (a = b \<or> py_less a b = Inr True)"

definition at_least :: "version_row \<Rightarrow> version_row \<Rightarrow> bool" where
  "at_least v w = (vn_version v < vn_version w \<or> vn_version v = vn_version w \<and> stamp_le (vn_published v) (vn_published w))"

lemma py_less_trans: "py_less a b = Inr True \<Longrightarrow> py_less b c = Inr True \<Longrightarrow> py_less a c = Inr True"
  by (auto simp: py_less_def intro: float_less_trans split: option.splits pyval.splits)

lemma at_least_trans: "at_least u v \<Longrightarrow> at_least v w \<Longrightarrow> at_least u w"
  by (auto simp: at_least_def stamp_le_def intro: py_less_trans)

lemma real_column_idem [simp]: "real_column (real_column v) = real_column v"
  by (auto simp: real_column_def number_of_def split: option.splits pyfloat.splits pyval.splits)

lemma number_of_column: "number_of (real_column v) = (if number_of v = Some NotANumber then None else number_of v)"
  by (auto simp: real_column_def number_of_def split: option.splits pyfloat.splits pyval.splits)

lemma column_number: "real_column v = v \<Longrightarrow> number_of v = Some x \<Longrightarrow> v = PFloat x \<and> x \<noteq> NotANumber"
  by (auto simp: real_column_def number_of_def split: option.splits pyfloat.splits pyval.splits)

lemma sane_stamp:
  "ordering_fields_are_sane n now d = Inr True \<Longrightarrow> dc_published d \<noteq> PNone \<and> number_of (dc_published d) \<noteq> Some NotANumber"
  by (auto simp: ordering_fields_are_sane_def ebind_Inr wire_timestamp_def float_of_def number_of_def
      split: pyval.splits if_splits sum.splits py_error.splits pyfloat.splits)

lemma later_stamp:
  assumes "py_less p q = Inr False" and "number_of p \<noteq> Some NotANumber" and "real_column q = q"
  shows "stamp_le q (real_column p)"
proof (cases "number_of p")
  case None
  then have "real_column p = p" by (simp add: real_column_def)
  then show ?thesis using None assms(1)
    by (auto simp: stamp_le_def py_less_def split: option.splits pyval.splits)
next
  case (Some x)
  then obtain y where y: "number_of q = Some y" "\<not> float_less x y"
    using assms(1) by (auto simp: py_less_def split: option.splits pyval.splits)
  have q: "q = PFloat y" "y \<noteq> NotANumber" using column_number [OF assms(3) y(1)] by auto
  have p: "real_column p = PFloat x" "x \<noteq> NotANumber" using Some assms(2) by (auto simp: real_column_def split: pyfloat.splits)
  show ?thesis using float_trichotomy [OF p(2) q(2) y(2)] p q by (auto simp: stamp_le_def py_less_def number_of_def)
qed

lemma supersedes_at_least:
  assumes "supersedes n now version (dc_published d) signer ch s = Inr True" and "get_member_list_version s ch = Some v"
    and "number_of (dc_published d) \<noteq> Some NotANumber" and "real_column (vn_published v) = vn_published v"
  shows "at_least v \<lparr>vn_scope = ch, vn_version = version, vn_published = real_column (dc_published d),
    vn_document = d, vn_received = now\<rparr>"
  using assms later_stamp [of "dc_published d" "vn_published v"]
  by (auto simp: supersedes_def at_least_def ebind_Inr split: if_splits)

lemma held_version:
  "get_member_list_version (record_pending_member_doc now c name admin d meta s) ch = get_member_list_version s ch"
  by (cases "map_of (st_scopes s) ch")
    (simp_all add: record_pending_member_doc_def get_member_list_version_def scope_for_def scope_fetch_def)

lemma moves_forward:
  "moves Ns Ds ch s s' \<Longrightarrow> own_scope ch s \<Longrightarrow> held_documents s \<subseteq> Ds \<Longrightarrow>
   get_member_list_version s ch = Some v \<Longrightarrow> real_column (vn_published v) = vn_published v \<Longrightarrow>
   \<exists>w. get_member_list_version s' ch = Some w \<and> at_least v w \<and> real_column (vn_published w) = vn_published w"
proof (induction arbitrary: v rule: moves.induct)
  case (aside s s')
  then show ?case using aside_version by (auto simp: at_least_def stamp_le_def)
next
  case (hold d s now c name admin meta)
  then show ?case
    by (simp add: held_version at_least_def stamp_le_def)
next
  case (applied n d now s version signer rows)
  note c = check_sound [OF applied(3)]
  have "number_of (dc_published d) \<noteq> Some NotANumber" using sane_stamp [OF c(3)] by simp
  from supersedes_at_least [OF c(6) applied.prems(3) this applied.prems(4)]
  show ?case using applied_state(3) [OF applied(3) applied.prems(1)] by simp
next
  case (trans s t u)
  then obtain w where "get_member_list_version t ch = Some w" "at_least v w" "real_column (vn_published w) = vn_published w"
    by blast
  then show ?case using trans.IH(2) moves_inv [OF trans.hyps(1) trans.prems(1,2)] at_least_trans by blast
qed

text \<open>C3. The document held for a scope only moves forward: whatever documents arrive and whatever the
  user confirms, its version never decreases, and at equal version its publication time does
  not. An old document replayed cannot restore removed members or roles.\<close>

theorem version_never_goes_back:
  assumes "own_scope ch (iv_store i)" and "get_member_list_version (iv_store i) ch = Some v"
    and "real_column (vn_published v) = vn_published v"
  shows "\<exists>w. get_member_list_version (iv_store (fold (inbox_step ch) es i)) ch = Some w \<and> at_least v w"
  using moves_forward [OF met_moves assms(1) _ assms(2,3)] assms(1) by (auto simp: met_def)

text \<open>The sample channel once its first document is in.\<close>

definition sample_inbox :: inbox where
  "sample_inbox = \<lparr>iv_store = fst (accept_document sample_node 200 sample_doc ''0a'' sample_store), iv_new = {}\<rparr>"

lemma sample_held:
  "own_scope ''0a'' (iv_store sample_inbox)"
  "get_member_list_version (iv_store sample_inbox) ''0a'' =
     Some \<lparr>vn_scope = ''0a'', vn_version = 1, vn_published = PFloat (Finite 100), vn_document = sample_doc, vn_received = 200\<rparr>"
  "get_role (iv_store sample_inbox) ''0a'' (to_hex [1]) = Some ROLE_OWNER"
  "held_documents (iv_store sample_inbox) = {}"
  by code_simp+

theorem version_never_goes_back_witness:
  "\<exists>w. get_member_list_version (iv_store (fold (inbox_step ''0a'')
        [Arrives sample_node 300 [] sample_doc, Confirms sample_node 400] sample_inbox)) ''0a'' = Some w \<and> vn_version w \<ge> 1"
  using version_never_goes_back [OF sample_held(1,2), of "[Arrives sample_node 300 [] sample_doc, Confirms sample_node 400]"]
  by (auto simp: at_least_def real_column_def)

lemma older_stamp:
  assumes "py_less (real_column p) q = Inr True" and "number_of p \<noteq> Some NotANumber"
  shows "py_less p q = Inr True"
proof (cases "number_of p")
  case (Some x)
  then have "number_of (real_column p) = Some x" "x \<noteq> NotANumber" using assms(2) by (auto simp: number_of_column)
  moreover have "real_column p = PFloat x" using Some assms(2) by (auto simp: real_column_def split: pyfloat.splits)
  ultimately show ?thesis using assms(1) Some by (auto simp: py_less_def split: option.splits)
qed (use assms(1) in \<open>simp add: real_column_def\<close>)

lemma equal_stamp: "number_of p \<noteq> Some NotANumber \<Longrightarrow> py_equal p (real_column p)"
proof (cases "number_of p")
  case (Some x)
  then show "number_of p \<noteq> Some NotANumber \<Longrightarrow> ?thesis" by (auto simp: py_equal_def number_of_column)
qed (simp add: py_equal_def real_column_def)

text \<open>C26. Nothing is accepted twice: handed a document it has accepted before, after whatever documents arrived
  and the user confirmed since, and whatever it has learned of identities and keys, a node leaves its state as it
  is, unless the document in force by then is a different one of the very same version and publication time.\<close>

theorem replay_refused:
  assumes a: "accept_document n now d ch (iv_store i) = (s', Inr (Some joined))" and own: "own_scope ch (iv_store i)"
    and t: "t = iv_store (fold (inbox_step ch) es (i\<lparr>iv_store := s'\<rparr>))"
    and last: "\<forall>w. get_member_list_version t ch = Some w \<and> PInt (vn_version w) = dc_version d
        \<and> vn_published w = real_column (dc_published d) \<longrightarrow> vn_document w = d"
  shows "fst (accept_document n' now' d ch t) = t \<and> (\<forall>j. snd (accept_document n' now' d ch t) \<noteq> Inr (Some j))"
proof -
  obtain version signer rows where c: "check_document n now d ch (iv_store i) = Inr (Some (version, signer, rows))"
      and s': "s' = fst (apply_document n now d ch version rows (iv_store i))"
    using accepted_applied [OF a] by blast
  note row = applied_state(1,3) [OF c own, folded s']
  obtain w where w: "get_member_list_version t ch = Some w" "real_column (vn_published w) = vn_published w"
      "version < vn_version w \<or> version = vn_version w \<and> stamp_le (real_column (dc_published d)) (vn_published w)"
    using moves_forward [OF met_moves, of ch "i\<lparr>iv_store := s'\<rparr>" es] row unfolding t by (fastforce simp: met_def at_least_def)
  have "check_document n' now' d ch t \<noteq> Inr (Some r)" for r
  proof
    assume r: "check_document n' now' d ch t = Inr (Some r)"
    obtain version' signer' rows' where r': "r = (version', signer', rows')" by (cases r)
    note c' = check_sound [OF r [unfolded r']]
    have v: "version' = version" using c'(2) check_sound(2) [OF c] by simp
    have nan: "number_of (dc_published d) \<noteq> Some NotANumber" using sane_stamp [OF c'(3)] by simp
    consider (newer) "version < vn_version w" | (later) "version = vn_version w" "py_less (dc_published d) (vn_published w) = Inr True"
      | (same) "version = vn_version w" "vn_published w = real_column (dc_published d)"
      using w(3) older_stamp [OF _ nan] by (auto simp: stamp_le_def)
    then show False
    proof cases
      case same
      then have "vn_document w = d" using last w(1) check_sound(2) [OF c] by simp
      moreover have "validated_signer n' now' d ch t = Inr signer'" using c'(4) by (simp add: validated_signer_def)
      ultimately show False
        using c'(6) w(1) v same equal_stamp [OF nan] by (auto simp: supersedes_def ebind_Inr split: if_splits)
    qed (use c'(6) w(1) v in \<open>auto simp: supersedes_def ebind_Inr split: if_splits\<close>)
  qed
  then show ?thesis by (auto simp: accept_document_def split: sum.splits option.splits)
qed

text \<open>The first document comes again after the owner's second one.\<close>

definition second_doc :: document where
  "second_doc = sample_doc\<lparr>dc_version := PInt 2, dc_members := [PBytes [1]]\<rparr>"

theorem replay_refused_witness:
  "let t = iv_store (fold (inbox_step ''0a'') [Arrives sample_node 300 [] second_doc] sample_inbox)
   in get_role t ''0a'' (to_hex [2]) = None \<and> fst (accept_document sample_node 400 sample_doc ''0a'' t) = t"
proof -
  let ?i = "\<lparr>iv_store = sample_store, iv_new = {}\<rparr>"
  have i: "sample_inbox = ?i\<lparr>iv_store := fst (accept_document sample_node 200 sample_doc ''0a'' sample_store)\<rparr>"
    by (simp add: sample_inbox_def)
  let ?t = "iv_store (fold (inbox_step ''0a'') [Arrives sample_node 300 [] second_doc] sample_inbox)"
  have v: "map_option vn_version (get_member_list_version ?t ''0a'') = Some 2" "get_role ?t ''0a'' (to_hex [2]) = None" by code_simp+
  have a: "accept_document sample_node 200 sample_doc ''0a'' (iv_store ?i)
      = (fst (accept_document sample_node 200 sample_doc ''0a'' sample_store), Inr (Some []))"
    using sample_accepted by simp
  have "fst (accept_document sample_node 400 sample_doc ''0a'' ?t) = ?t"
    using replay_refused [OF a _ refl, of "[Arrives sample_node 300 [] second_doc]"] v(1) sample_own_scope
    unfolding i [symmetric] by (auto simp: sample_doc_def simp del: fold_simps)
  then show ?thesis using v(2) by (simp add: Let_def del: fold_simps)
qed

section \<open>Owners\<close>

text \<open>The owners of \<open>d\<close> who are members too, and that the tables make each of them an owner.\<close>

definition seated_owners :: "document \<Rightarrow> bytes set" where
  "seated_owners d = {b. PBytes b \<in> set (doc_owners d) \<and> PBytes b \<in> set (dc_members d)}"

definition owners_seated :: "hexid \<Rightarrow> pyval set \<Rightarrow> bytes set \<Rightarrow> store \<Rightarrow> bool" where
  "owners_seated ch owners seated s =
     (\<exists>v. get_member_list_version s ch = Some v \<and> set (doc_owners (vn_document v)) = owners
        \<and> seated \<subseteq> seated_owners (vn_document v) \<and> (\<forall>b\<in>seated. get_role s ch (to_hex b) = Some ROLE_OWNER))"

lemma owners_seated_applied:
  assumes c: "check_document n now d ch s = Inr (Some (version, signer, rows))" and own: "own_scope ch s"
    and seated: "owners_seated ch owners seated s"
    and loyal: "\<And>b. PBytes b \<in> owners \<Longrightarrow> signed_by n d b \<Longrightarrow> set (doc_owners d) = owners \<and> seated \<subseteq> seated_owners d"
  shows "owners_seated ch owners seated (fst (apply_document n now d ch version rows s))"
proof -
  let ?s' = "fst (apply_document n now d ch version rows s)"
  obtain v where v: "get_member_list_version s ch = Some v" "set (doc_owners (vn_document v)) = owners"
      "seated \<subseteq> seated_owners (vn_document v)" "\<forall>b\<in>seated. get_role s ch (to_hex b) = Some ROLE_OWNER"
    using seated by (auto simp: owners_seated_def)
  have same: "set (doc_owners d) = owners" and keep: "seated \<subseteq> seated_owners d"
  proof -
    have "set (doc_owners d) = owners \<and> seated \<subseteq> seated_owners d"
    proof (cases "PBytes signer \<in> owners")
      case True
      then show ?thesis using loyal validate_sound [OF check_sound(4) [OF c]] by blast
    next
      case False
      then have "set (doc_owners d) = owners" "(set (dc_members (vn_document v)) - set (dc_members d)) \<inter> owners = {}"
        using may_apply_sound [OF check_sound(5) [OF c] v(1)] v(2) by (auto simp: authorised_def Let_def)
      then show ?thesis using v(2,3) by (auto simp: seated_owners_def)
    qed
    then show "set (doc_owners d) = owners" "seated \<subseteq> seated_owners d" by blast+
  qed
  obtain bs where bs: "dc_members d = map PBytes bs"
      "rows = map (\<lambda>b. (to_hex b, [], member_role (set (doc_owners d)) (set (dc_admins d)) (PBytes b))) bs"
    using member_rows_Some [OF check_sound(7) [OF c]] by blast
  have "get_role ?s' ch (to_hex b) = Some ROLE_OWNER" if b: "b \<in> seated" for b
  proof (cases "distinct (map fst rows)")
    case True
    have "b \<in> set bs" "PBytes b \<in> set (doc_owners d)" using keep b by (auto simp: seated_owners_def bs(1))
    moreover have "map_of (map (\<lambda>b. (to_hex b, f b)) bs) (to_hex b) = Some (f b)" if "b \<in> set bs" for f :: "bytes \<Rightarrow> string"
      using that by (induction bs) (auto dest: to_hex_inj)
    ultimately show ?thesis
      using applied_state(4) [OF c own True] by (simp add: bs(2) o_def member_role_def)
  next
    case False
    then have "st_members ?s' = st_members s" by (rule applied_state(5) [OF c own])
    then show ?thesis using v(4) b applied_state(1) [OF c own] own
      by (simp add: get_role_def member_row_of_def own_scope_for)
  qed
  then show ?thesis using applied_state(3) [OF c own] same keep by (simp add: owners_seated_def)
qed

lemma owners_seated_moves:
  "moves Ns Ds ch s s' \<Longrightarrow> own_scope ch s \<Longrightarrow> held_documents s \<subseteq> Ds \<Longrightarrow>
   (\<forall>n\<in>Ns. \<forall>d\<in>Ds. \<forall>b. PBytes b \<in> owners \<and> signed_by n d b \<longrightarrow> set (doc_owners d) = owners \<and> seated \<subseteq> seated_owners d) \<Longrightarrow>
   owners_seated ch owners seated s \<Longrightarrow> owners_seated ch owners seated s'"
proof (induction rule: moves.induct)
  case (aside s s')
  then show ?case by (simp add: owners_seated_def aside_role aside_version)
next
  case (hold d s now c name admin meta)
  have "get_role (record_pending_member_doc now c name admin d meta s) ch h = get_role s ch h" for h
    by (cases "map_of (st_scopes s) ch")
      (simp_all add: record_pending_member_doc_def get_role_def member_row_of_def scope_for_def scope_fetch_def)
  then show ?case using hold by (simp add: owners_seated_def held_version)
next
  case (applied n d now s version signer rows)
  show ?case
    by (rule owners_seated_applied [OF applied(3) applied.prems(1,4)]) (use applied in blast)
next
  case (trans s t u)
  then show ?case using moves_inv [OF trans.hyps(1) trans.prems(1,2)] by blast
qed

text \<open>C1. Nobody but an owner can depose an owner or make one. As long as every document that arrives (or is
  already held for confirmation) and that a current owner signed keeps the owners, as its owners and those of them who are
  members as members, the owner set of the document in force stays exactly what it is and every owner
  who is a member keeps the role, whatever else those documents change, whatever the admins and others
  sign and whatever the user confirms.\<close>

theorem owners_cannot_be_deposed:
  assumes "own_scope ch (iv_store i)" and "get_member_list_version (iv_store i) ch = Some v"
    and "\<forall>b\<in>seated_owners (vn_document v). get_role (iv_store i) ch (to_hex b) = Some ROLE_OWNER"
    and "\<forall>n\<in>event_node ` set es. \<forall>d\<in>met es i. \<forall>b. PBytes b \<in> set (doc_owners (vn_document v)) \<and> signed_by n d b \<longrightarrow>
        set (doc_owners d) = set (doc_owners (vn_document v)) \<and> seated_owners (vn_document v) \<subseteq> seated_owners d"
  shows "\<exists>w. get_member_list_version (iv_store (fold (inbox_step ch) es i)) ch = Some w
    \<and> set (doc_owners (vn_document w)) = set (doc_owners (vn_document v))
    \<and> (\<forall>b\<in>seated_owners (vn_document v).
        get_role (iv_store (fold (inbox_step ch) es i)) ch (to_hex b) = Some ROLE_OWNER)"
proof -
  have "owners_seated ch (set (doc_owners (vn_document v))) (seated_owners (vn_document v)) (iv_store i)"
    using assms(2,3) by (auto simp: owners_seated_def)
  moreover have "moves (event_node ` set es) (met es i) ch (iv_store i) (iv_store (fold (inbox_step ch) es i))"
    by (rule history_moves [OF assms(1)]) (auto simp: met_def)
  ultimately have "owners_seated ch (set (doc_owners (vn_document v))) (seated_owners (vn_document v))
      (iv_store (fold (inbox_step ch) es i))"
    using owners_seated_moves assms(1,4) by (auto simp: met_def)
  then show ?thesis by (auto simp: owners_seated_def)
qed

text \<open>An update the owner signs, with a new member, and a member who signs a document that makes himself the owner.\<close>

definition update_doc :: document where
  "update_doc = sample_doc\<lparr>dc_version := PInt 2, dc_members := [PBytes [1], PBytes [2], PBytes [4]]\<rparr>"

definition coup_doc :: document where
  "coup_doc = sample_doc\<lparr>dc_version := PInt 3, dc_members := [PBytes [2]], dc_owners := Some [PBytes [2]],
     dc_admins := [PBytes [2]], dc_signatures := [(PBytes [2], PBytes [2])]\<rparr>"

abbreviation coup :: "inbox_event list" where
  "coup \<equiv> [Arrives sample_node 300 [] update_doc, Arrives sample_node 400 [] coup_doc]"

lemma update_accepted:
  "map_option vn_version (get_member_list_version (iv_store (fold (inbox_step ''0a'') coup sample_inbox)) ''0a'') = Some 2"
  by code_simp

theorem owners_cannot_be_deposed_witness:
  "\<exists>w. get_member_list_version (iv_store (fold (inbox_step ''0a'') coup sample_inbox)) ''0a'' = Some w
    \<and> vn_version w = 2 \<and> set (doc_owners (vn_document w)) = {PBytes [1]}"
proof -
  have owners: "set (doc_owners sample_doc) = {PBytes [1]}" by code_simp
  have kept: "set (doc_owners update_doc) = {PBytes [1]}" "seated_owners sample_doc \<subseteq> seated_owners update_doc"
    by (auto simp: seated_owners_def update_doc_def sample_doc_def)
  have seated: "b = [1]" if "b \<in> seated_owners sample_doc" for b
    using that owners by (auto simp: seated_owners_def)
  have "met coup sample_inbox = {update_doc, coup_doc}"
    by (simp add: met_def sample_held List.map_filter_simps)
  moreover have "\<not> signed_by sample_node coup_doc [1]" by code_simp
  moreover have "\<forall>b\<in>seated_owners sample_doc. get_role (iv_store sample_inbox) ''0a'' (to_hex b) = Some ROLE_OWNER"
    using seated sample_held(3) by metis
  ultimately obtain w where "get_member_list_version (iv_store (fold (inbox_step ''0a'') coup sample_inbox)) ''0a'' = Some w"
      "set (doc_owners (vn_document w)) = {PBytes [1]}"
    using owners_cannot_be_deposed [OF sample_held(1,2), of coup] owners kept by (auto simp del: fold_simps)
  then show ?thesis using update_accepted by auto
qed

end
