(* ===== verification/Document_Gaps.thy ===== *)
theory Document_Gaps
  imports Authority
begin

text \<open>
  Where accepting a member list document falls short of what its comments promise: fields the
  signature does not bind, a relay's rewriting that keeps a signature valid, an exception
  between two transactions, and the permissions of a channel joined for the first time.
\<close>

section \<open>What the checks depend on\<close>

lemma check_cong:
  assumes "dc_channel d' = dc_channel d" "dc_version d' = dc_version d" "dc_published d' = dc_published d"
    "payload_of d' = payload_of d" "dc_signatures d' = dc_signatures d" "dc_members d' = dc_members d"
    "dc_admins d' = dc_admins d" "dc_owners d' = dc_owners d" "dc_permissions d' = dc_permissions d"
    "roster_hashes n (dc_channels d') = roster_hashes n (dc_channels d)"
  shows "check_document n now d' ch s = check_document n now d ch s"
proof -
  have v: "validate_document n now d' ch s = validate_document n now d ch s"
    unfolding validate_document_def assms ..
  have o': "ordering_fields_are_sane n now d' = ordering_fields_are_sane n now d"
    unfolding ordering_fields_are_sane_def assms ..
  have m: "signer_may_apply n d' ch signer s = signer_may_apply n d ch signer s" for signer
    unfolding signer_may_apply_def roster_additions_def assms ..
  show ?thesis unfolding check_document_def v o' m assms ..
qed

section \<open>Fields outside the signature\<close>

text \<open>Departed-member intervals of a document that signs no join times, and join times as well of a
  document without owners, are outside the signature: a relay can put in what it likes, and the
  document passes the same checks under the same signer, although both are then written to the
  tenure log that decides whose messages count as a member's.\<close>

theorem unsigned_tenure_passes:
  assumes "dc_owners d = None \<or> dc_joined d = None \<and> joined = None"
  shows "check_document n now (d\<lparr>dc_joined := joined, dc_departed := departed\<rparr>) ch s = check_document n now d ch s
    \<and> payload_of (d\<lparr>dc_joined := joined, dc_departed := departed\<rparr>) = payload_of d"
proof -
  have "payload_of (d\<lparr>dc_joined := joined, dc_departed := departed\<rparr>) = payload_of d"
    using assms by (auto simp: payload_of_def signed_payload_def split: option.splits)
  then show ?thesis by (intro conjI check_cong) simp_all
qed

text \<open>The sample document with a stranger's forged interval: the stranger now was a member.\<close>

theorem unsigned_tenure_passes_witness:
  "let d = sample_doc\<lparr>dc_departed := Some [(PBytes [9], [PFloat (Finite 10), PFloat (Finite 90)])]\<rparr>;
       s' = fst (accept_document sample_node 200 d ''0a'' sample_store)
   in check_document sample_node 200 d ''0a'' sample_store = check_document sample_node 200 sample_doc ''0a'' sample_store
      \<and> was_member_at s' ''0a'' (to_hex [9]) 50 \<and> \<not> was_member_at (iv_store sample_inbox) ''0a'' (to_hex [9]) 50"
proof -
  let ?ds = "Some [(PBytes [9], [PFloat (Finite 10), PFloat (Finite 90)])]"
  have d: "sample_doc\<lparr>dc_departed := ?ds\<rparr> = sample_doc\<lparr>dc_joined := None, dc_departed := ?ds\<rparr>"
    by (simp add: sample_doc_def)
  have "dc_owners sample_doc = None \<or> dc_joined sample_doc = None \<and> (None :: (pyval \<times> pyval) list option) = None"
    by (simp add: sample_doc_def)
  note c = unsigned_tenure_passes [OF this, of sample_node 200 ?ds "''0a''" sample_store, folded d]
  have "was_member_at (fst (accept_document sample_node 200 (sample_doc\<lparr>dc_departed := ?ds\<rparr>) ''0a'' sample_store)) ''0a'' (to_hex [9]) 50"
    and "\<not> was_member_at (iv_store sample_inbox) ''0a'' (to_hex [9]) 50" by code_simp+
  with c show ?thesis unfolding Let_def by blast
qed

section \<open>A field that passes for another\<close>

text \<open>The relay's rewriting: the intervals move, as a list, to where a server's roster would be.\<close>

definition hide_departed :: "document \<Rightarrow> document" where
  "hide_departed d =
     (case departed_items (or_else [] (dc_departed d)) of
        Inl _ \<Rightarrow> d
      | Inr items \<Rightarrow> d\<lparr>dc_departed := None, dc_channels := Some (PList items)\<rparr>)"

text \<open>The signed payload does not say which optional field an item belongs to. A relay can take a
  channel's document, drop the intervals of departed members and present the same values as the
  roster: the payload is the same, so every signature stays valid and every check gives the
  same answer, but the intervals are gone for whoever receives it.\<close>

theorem relay_can_hide_departures:
  assumes "dc_owners d \<noteq> None" and "dc_joined d \<noteq> None" and "dc_departed d = Some departed"
    and "dc_channels d = None" and "departed_items departed = Inr items"
  shows "payload_of (hide_departed d) = payload_of d
    \<and> check_document n now (hide_departed d) ch s = check_document n now d ch s
    \<and> signed_by n (hide_departed d) b = signed_by n d b \<and> dc_departed (hide_departed d) = None"
proof -
  have h: "hide_departed d = d\<lparr>dc_departed := None, dc_channels := Some (PList items)\<rparr>"
    using assms by (simp add: hide_departed_def)
  have p: "payload_of (hide_departed d) = payload_of d"
    using assms by (auto simp: h payload_of_def signed_payload_def split: option.splits)
  have "check_document n now (hide_departed d) ch s = check_document n now d ch s"
    by (rule check_cong) (simp_all add: p, simp_all add: h roster_hashes_def assms(4))
  moreover have sigs: "dc_signatures (hide_departed d) = dc_signatures d" by (simp add: h)
  have "signed_by n (hide_departed d) b = signed_by n d b" unfolding signed_by_def p sigs ..
  ultimately show ?thesis using p by (simp add: h)
qed

definition departed_doc :: document where
  "departed_doc = sample_doc\<lparr>dc_joined := Some [(PBytes [1], PFloat (Finite 1))],
     dc_departed := Some [(PBytes [9], [PFloat (Finite 10), PFloat (Finite 90)])]\<rparr>"

theorem relay_can_hide_departures_witness:
  "check_document sample_node 200 (hide_departed departed_doc) ''0a'' sample_store
     = check_document sample_node 200 departed_doc ''0a'' sample_store
   \<and> was_member_at (fst (accept_document sample_node 200 departed_doc ''0a'' sample_store)) ''0a'' (to_hex [9]) 50
   \<and> \<not> was_member_at (fst (accept_document sample_node 200 (hide_departed departed_doc) ''0a'' sample_store)) ''0a'' (to_hex [9]) 50"
proof (intro conjI)
  have items: "departed_items [(PBytes [9], [PFloat (Finite 10), PFloat (Finite 90)])]
      = Inr [PList [PBytes [9], PFloat (Finite 10), PFloat (Finite 90)]]" by code_simp
  show "check_document sample_node 200 (hide_departed departed_doc) ''0a'' sample_store
      = check_document sample_node 200 departed_doc ''0a'' sample_store"
    using relay_can_hide_departures [OF _ _ _ _ items, of departed_doc sample_node 200 "''0a''" sample_store "[]"]
    by (simp add: departed_doc_def sample_doc_def)
  show "was_member_at (fst (accept_document sample_node 200 departed_doc ''0a'' sample_store)) ''0a'' (to_hex [9]) 50"
    by code_simp
  show "\<not> was_member_at (fst (accept_document sample_node 200 (hide_departed departed_doc) ''0a'' sample_store)) ''0a'' (to_hex [9]) 50"
    by code_simp
qed

section \<open>Half-applied documents\<close>

text \<open>A document that lists an identity twice passes every check, is stored as the version in force,
  and then fails on the members table: the version has advanced and the members and roles are
  those of the document before it.\<close>

theorem duplicate_member_half_applied:
  assumes "check_document n now d ch s = Inr (Some (version, signer, rows))" and "own_scope ch s"
    and "\<not> distinct (dc_members d)"
  shows "snd (accept_document n now d ch s) = Inl IntegrityError
    \<and> map_option vn_document (get_member_list_version (fst (accept_document n now d ch s)) ch) = Some d
    \<and> get_role (fst (accept_document n now d ch s)) ch h = get_role s ch h"
proof -
  obtain bs where bs: "dc_members d = map PBytes bs"
      "rows = map (\<lambda>b. (to_hex b, [], member_role (set (doc_owners d)) (set (dc_admins d)) (PBytes b))) bs"
    using member_rows_Some [OF check_sound(7) [OF assms(1)]] by blast
  have dup: "\<not> distinct (map fst rows)"
    using assms(3) by (auto simp: bs distinct_map o_def inj_on_def)
  have a: "apply_document n now d ch version rows s =
      (upsert_member_list_version now ch version (dc_published d) d s, Inl IntegrityError)"
    using apply_document_writes [of rows now ch version d s n] dup by simp
  then have acc: "accept_document n now d ch s = (fst (apply_document n now d ch version rows s), Inl IntegrityError)"
    by (simp add: accept_document_def assms(1))
  note st = applied_state [OF assms(1,2)]
  show ?thesis using st(5) [OF dup] st(1,3) assms(2)
    by (simp add: acc get_role_def member_row_of_def own_scope_for)
qed

theorem duplicate_member_half_applied_witness:
  "let d = sample_doc\<lparr>dc_version := PInt 2, dc_members := [PBytes [1], PBytes [3], PBytes [3], PBytes [2]]\<rparr>;
       s' = fst (accept_document sample_node 300 d ''0a'' (iv_store sample_inbox))
   in map_option vn_version (get_member_list_version s' ''0a'') = Some 2 \<and> get_role s' ''0a'' (to_hex [3]) = None"
proof -
  let ?d = "sample_doc\<lparr>dc_version := PInt 2, dc_members := [PBytes [1], PBytes [3], PBytes [3], PBytes [2]]\<rparr>"
  have "check_document sample_node 300 ?d ''0a'' (iv_store sample_inbox) = Inr (Some (2, [1],
      [(to_hex [1], [], ROLE_OWNER), (to_hex [3], [], ROLE_MEMBER), (to_hex [3], [], ROLE_MEMBER), (to_hex [2], [], ROLE_MEMBER)]))"
    by code_simp
  moreover have "\<not> distinct (dc_members ?d)" by code_simp
  moreover have "get_role (iv_store sample_inbox) ''0a'' (to_hex [3]) = None" by code_simp
  moreover have "map_option vn_version (get_member_list_version
      (fst (accept_document sample_node 300 ?d ''0a'' (iv_store sample_inbox))) ''0a'') = Some 2" by code_simp
  ultimately show ?thesis
    using duplicate_member_half_applied [OF _ sample_held(1), of sample_node 300 ?d, where h = "to_hex [3]"]
    unfolding Let_def by metis
qed

section \<open>The permissions of a channel joined for the first time\<close>

definition unknown_scope :: "hexid \<Rightarrow> store \<Rightarrow> bool" where
  "unknown_scope ch s = (get_channel s ch = None \<and> \<not> is_server s ch)"

lemma unknown_then_do:
  "unknown_scope ch (fst m) \<Longrightarrow> (\<And>x t. unknown_scope ch t \<Longrightarrow> unknown_scope ch (fst (f x t))) \<Longrightarrow>
   unknown_scope ch (fst (then_do m f))"
  by (cases m; cases "snd m") (auto simp: then_do_def)

lemma unknown_tx: "unknown_scope ch s \<Longrightarrow> (\<And>s'. r = Inr s' \<Longrightarrow> unknown_scope ch s') \<Longrightarrow> unknown_scope ch (fst (tx s r))"
  by (cases r) auto

lemma unknown_same:
  "st_channels s' = st_channels s \<Longrightarrow> st_servers s' = st_servers s \<Longrightarrow> unknown_scope ch s' = unknown_scope ch s"
  by (simp add: unknown_scope_def get_channel_def is_server_def)

lemma unknown_record_departed: "unknown_scope ch s \<Longrightarrow> unknown_scope ch (fst (record_departed n ch ds s))"
proof (induction ds arbitrary: s)
  case (Cons x ds)
  have "unknown_scope ch (record_departed_tenure ch h j l s)" for h j l
    using Cons.prems unknown_same [of "record_departed_tenure ch h j l s" s] by (simp add: record_departed_tenure_def)
  then show ?case using Cons by (cases x) (auto split: list.splits sum.splits option.splits)
qed simp

lemma unknown_apply_permissions: "unknown_scope ch s \<Longrightarrow> unknown_scope ch (fst (apply_permissions n d ch s))"
proof -
  assume u: "unknown_scope ch s"
  have "update_where (\<lambda>r. cr_hash r = ch) f (st_channels s) = st_channels s" for f
    using u by (auto simp: unknown_scope_def get_channel_def row_of_None has_key_iff update_where_def intro!: map_idI)
  then have c: "unknown_scope ch (fst (tx s (set_channel_permissions ch p s)))" for p
    using u by (intro unknown_tx) (auto simp: set_channel_permissions_def unknown_scope_def get_channel_def is_server_def split: option.splits)
  show ?thesis
  proof (cases "apply_permissions n d ch s = (s, Inr ())")
    case False
    then obtain p where "apply_permissions n d ch s = tx s (set_channel_permissions ch p s)"
      using u by (auto simp: apply_permissions_def Let_def unknown_scope_def split: pyval.splits option.splits if_splits)
    then show ?thesis using c by simp
  qed (simp add: u)
qed

lemma unknown_apply:
  assumes u: "unknown_scope ch s"
  shows "unknown_scope ch (fst (apply_document n now d ch version rows s))"
proof -
  have r: "unknown_scope ch t' = unknown_scope ch t" if "replace_members now ch rows t = Inr t'" for t t'
    using that unknown_same [of t' t] by (auto simp: replace_members_def split: if_splits)
  have t: "unknown_scope ch t' = unknown_scope ch t" if "update_tenure ch old new p j t = Inr t'" for t t' old new p j
    using that unknown_same [of t' t] by (auto simp: update_tenure_def Let_def ebind_Inr)
  have "unknown_scope ch (upsert_member_list_version now ch version (dc_published d) d s)"
    using u unknown_same [of "upsert_member_list_version now ch version (dc_published d) d s" s]
    by (simp add: upsert_member_list_version_def)
  moreover have "\<not> is_server t ch" if "unknown_scope ch t" for t using that by (simp add: unknown_scope_def)
  ultimately show ?thesis unfolding apply_document_def Let_def
    by (auto simp: r t
        intro!: unknown_then_do unknown_tx unknown_record_departed unknown_apply_permissions split: sum.splits)
qed

text \<open>Joining a channel for the first time takes its permissions from where nobody signed them.
  The permissions in the signed document are applied before the channel has a row to put them
  in, and the row is then made from the fields beside the document: what the channel permits is
  what the text in those fields says, whatever the document says.\<close>

theorem first_join_takes_unsigned_permissions:
  assumes "can_anchor now (iv_store i) ch" and "\<not> is_server_kind n fs" and "unknown_scope ch (iv_store i)"
    and "accept_document n now d ch (iv_store i) = (s', Inr (Some joined))" and "own_scope ch (iv_store i)"
    and "PBytes (nd_self n) \<in> set (dc_members d)"
    and "decode_text n (field_get fs F_CHANNEL_NAME) = name" and "name \<noteq> []"
    and "creator_binds n ch (decode_text n (field_get fs F_CHANNEL_CREATOR)) name"
    and "decode_text n (permissions_field fs) = t" and "t \<notin> {[], ''public'', ''invite''}"
    and "real_not_null (created_field fs now) = Inr created"
  shows "map_option cr_permissions (get_channel (iv_store (on_member_list_update n now fs d ch i)) ch)
    = Some (Some (nd_loads n (PStr t)))"
proof -
  obtain version signer rows where "s' = fst (apply_document n now d ch version rows (iv_store i))"
    using accepted_applied [OF assms(4)] by blast
  then have u: "unknown_scope ch s'" using unknown_apply [OF assms(3)] by simp
  have "get_role s' ch (to_hex (nd_self n)) \<noteq> None"
    using members_follow_document [OF assms(4,5), of "nd_self n"] assms(6) by simp
  then have member: "is_member s' ch (to_hex (nd_self n))" by (simp add: is_member_def get_role_def)
  have "channel_permissions_column (nd_loads n) (PStr t) = Inr (Some (nd_loads n (PStr t)))"
    using assms(11) by (simp add: channel_permissions_column_def permissions_column_def)
  then have up: "\<exists>r. get_channel s2 ch = Some r \<and> cr_permissions r = Some (nd_loads n (PStr t))"
    if "upsert_channel (nd_loads n) now ch name desc creator (PStr t) (created_field fs now) None s' = Inr s2"
    for desc creator s2
    using that u by (auto simp: upsert_channel_def assms(12) unknown_scope_def get_channel_def scope_forget_def)
  obtain s2 where s2: "upsert_channel (nd_loads n) now ch name (decode_text n (field_get fs F_CHANNEL_DESC))
      (decode_text n (field_get fs F_CHANNEL_CREATOR)) (PStr t) (created_field fs now) None s' = Inr s2"
    using assms(11,12) by (auto simp: upsert_channel_def channel_permissions_column_def permissions_column_def)
  have sub: "get_channel (fst (subscribe_once now ch s2)) ch = get_channel s2 ch"
    by (auto simp: subscribe_once_def subscribe_def get_channel_def)
  have "fst (auto_join_channel n now fs ch s') = fst (subscribe_once now ch s2)"
    using member u by (simp add: auto_join_channel_def unknown_scope_def Let_def assms(7,8,9,10) s2)
  moreover have "iv_store (on_member_list_update n now fs d ch i) = fst (auto_join_channel n now fs ch s')"
    using u by (simp add: on_member_list_update_def Let_def assms(1,2,4) materialise_if_def finish_server_def unknown_scope_def)
  ultimately show ?thesis using up [OF s2] sub by auto
qed

text \<open>A node invited to a channel it knows nothing of. The document says nothing of permissions; the
  fields beside it do.\<close>

definition invited_node :: node where
  "invited_node = sample_node\<lparr>nd_self := [2], nd_loads := (\<lambda>_. Some (PDict [(PStr ROLE_MEMBER, PList [PStr INVITE])])),
     nd_address := (\<lambda>_ _. [10])\<rparr>"

definition invited_inbox :: inbox where
  "invited_inbox = \<lparr>iv_store = record_accepted_invite 0 ''0a'' ''01'' (Finite 1000) empty_store, iv_new = {}\<rparr>"

definition invite_fields :: fields where
  "invite_fields = [(PInt F_CHANNEL_NAME, PStr ''x''), (PInt F_CHANNEL_CREATOR, PStr ''01''),
     (PInt F_CHANNEL_PERMISSIONS, PStr ''{...}'')]"

theorem first_join_takes_unsigned_permissions_witness:
  "map_option cr_permissions (get_channel (iv_store
      (on_member_list_update invited_node 200 invite_fields sample_doc ''0a'' invited_inbox)) ''0a'')
    = Some (Some (Some (PDict [(PStr ROLE_MEMBER, PList [PStr INVITE])])))"
proof -
  let ?s' = "fst (accept_document invited_node 200 sample_doc ''0a'' (iv_store invited_inbox))"
  have acc: "accept_document invited_node 200 sample_doc ''0a'' (iv_store invited_inbox) = (?s', Inr (Some []))"
  proof -
    have "snd (accept_document invited_node 200 sample_doc ''0a'' (iv_store invited_inbox)) = Inr (Some [])" by code_simp
    then show ?thesis by (metis prod.collapse)
  qed
  have "map_option cr_permissions (get_channel (iv_store
      (on_member_list_update invited_node 200 invite_fields sample_doc ''0a'' invited_inbox)) ''0a'')
    = Some (Some (nd_loads invited_node (PStr ''{...}'')))"
  proof (rule first_join_takes_unsigned_permissions [OF _ _ _ acc])
    show "real_not_null (created_field invite_fields 200) = Inr (PFloat (Finite 200))" by code_simp
  qed (code_simp+)
  then show ?thesis by (simp add: invited_node_def)
qed

section \<open>The mirror of a server's permissions\<close>

text \<open>A server with one channel that mirrors its permissions, and an admin of it, [3], who may not
  change them. He signs a document with no permissions and the same roster.\<close>

definition mirror_node :: node where
  "mirror_node = sample_node\<lparr>nd_unpackb := (\<lambda>b. if b = [7]
       then Some (PList [PList [PBytes [10], PStr ''general'', PStr [], PBytes [1], PInt 5]]) else None),
     nd_address := (\<lambda>_ _. [10])\<rparr>"

definition mirror_doc :: document where
  "mirror_doc = \<lparr>dc_channel = PBytes [11], dc_version = PInt 1, dc_published = PInt 100,
     dc_members = [PBytes [1], PBytes [3]], dc_admins = [PBytes [3]], dc_signatures = [(PBytes [3], PBytes [3])],
     dc_owners = Some [PBytes [1]], dc_permissions = Some (PBytes []), dc_joined = Some [], dc_departed = None,
     dc_channels = Some (PBytes [7])\<rparr>"

definition mirror_store :: store where
  "mirror_store =
     (let perms = Some (json_value (PDict PRESET_SERVER));
          row = (\<lambda>h role. \<lparr>mb_scope = ''0b'', mb_id = to_hex h, mb_name = [], mb_role = role, mb_added = 0\<rparr>)
      in empty_store
        \<lparr>st_servers := [\<lparr>sr_hash = ''0b'', sr_name = ''s'', sr_description = [], sr_creator = ''01'', sr_permissions = perms,
            sr_created = PInt 1, sr_seen = 0\<rparr>],
         st_channels := [\<lparr>cr_hash = ''0a'', cr_name = ''general'', cr_description = [], cr_creator = ''01'',
            cr_permissions = perms, cr_created = PInt 1, cr_seen = 0, cr_server = Some ''0b'', cr_kind = ''channel''\<rparr>],
         st_members := [row [1] ROLE_OWNER, row [3] ROLE_ADMIN],
         st_versions := [\<lparr>vn_scope = ''0b'', vn_version = 1, vn_published = PFloat (Finite 100), vn_document = mirror_doc,
            vn_received = 100\<rparr>]\<rparr>)"

text \<open>An empty permissions field asserts nothing, and no permission is asked of its signer; but it
  does reset: every listed channel falls back to the private preset while the server keeps its
  own permissions. So an admin without MANAGE_CHANNEL changes what the channels permit, and
  the copy the channels keep of the server's permissions no longer agrees with them.\<close>

theorem empty_permissions_break_the_mirror:
  "let d = mirror_doc\<lparr>dc_version := PInt 2\<rparr>; s' = fst (accept_document mirror_node 200 d ''0b'' mirror_store)
   in snd (accept_document mirror_node 200 d ''0b'' mirror_store) = Inr (Some [(''0a'', ''general'')])
      \<and> role_may mirror_store ''0b'' (to_hex [3]) MANAGE_CHANNEL = Inr False
      \<and> get_channel_permissions mirror_store ''0a'' = get_server_permissions mirror_store ''0b''
      \<and> get_server_permissions s' ''0b'' = get_server_permissions mirror_store ''0b''
      \<and> get_channel_permissions s' ''0a'' = Inr PRESET_PRIVATE \<and> get_channel_permissions s' ''0a'' \<noteq> get_server_permissions s' ''0b''"
proof -
  let ?d = "mirror_doc\<lparr>dc_version := PInt 2\<rparr>"
  have a: "snd (accept_document mirror_node 200 ?d ''0b'' mirror_store) = Inr (Some [(''0a'', ''general'')])" by code_simp
  have b: "role_may mirror_store ''0b'' (to_hex [3]) MANAGE_CHANNEL = Inr False" by code_simp
  have c: "get_channel_permissions mirror_store ''0a'' = Inr PRESET_SERVER" by code_simp
  have e: "get_server_permissions mirror_store ''0b'' = Inr PRESET_SERVER" by code_simp
  have f: "get_server_permissions (fst (accept_document mirror_node 200 ?d ''0b'' mirror_store)) ''0b'' = Inr PRESET_SERVER"
    by code_simp
  have g: "get_channel_permissions (fst (accept_document mirror_node 200 ?d ''0b'' mirror_store)) ''0a'' = Inr PRESET_PRIVATE"
    by code_simp
  have "PRESET_PRIVATE \<noteq> PRESET_SERVER" by code_simp
  then show ?thesis using a b c e f g unfolding Let_def by simp
qed

end
