(* ===== verification/Doubles.thy ===== *)
theory Doubles
  imports Prelude "HOL-Library.Log_Nat"
begin

text \<open>
  \<^verbatim>\<open>struct.pack(">d", x)\<close>: the IEEE 754 double of a float, as 8 bytes with the highest first. The
  program signs times in this form. A float of the model is a rational, so the encoding takes
  the exponent from the binary logarithm; \<open>is_double\<close> holds of the rationals that a double can
  represent, the only ones the program ever has.
\<close>

definition pow2 :: "int \<Rightarrow> rat" where
  "pow2 e = (if 0 \<le> e then 2 ^ nat e else 1 / 2 ^ nat (- e))"

lemma pow2_powi: "pow2 e = 2 powi e"
  by (cases "0 \<le> e") (auto simp: pow2_def power_int_def power_inverse [symmetric] power_one_over)

lemma pow2_add: "pow2 (a + b) = pow2 a * pow2 b"
  by (simp add: pow2_powi power_int_add)

lemma pow2_pos [simp]: "pow2 e > 0"
  by (simp add: pow2_powi)

lemma pow2_nonneg [simp]: "0 \<le> pow2 e" "pow2 e \<noteq> 0"
  using pow2_pos [of e] by (auto simp del: pow2_pos)

lemma pow2_mono: "a \<le> b \<Longrightarrow> pow2 a \<le> pow2 b"
  by (simp add: pow2_powi power_int_increasing)

lemma pow2_less_iff: "pow2 a < pow2 b \<longleftrightarrow> a < b"
  by (metis linorder_not_le pow2_mono pow2_powi power_int_strict_increasing one_less_numeral_iff semiring_norm(76))

lemma pow2_nat: "pow2 (int n) = 2 ^ n"
  by (simp add: pow2_def)

definition floor_log2 :: "rat \<Rightarrow> int" where
  "floor_log2 q =
     (let (a, b) = quotient_of q; l = bitlen a - bitlen b in if pow2 l \<le> q then l else l - 1)"

lemma floor_log2_bounds:
  assumes "0 < q"
  shows "pow2 (floor_log2 q) \<le> q" "q < pow2 (floor_log2 q + 1)"
proof -
  obtain a b where ab: "quotient_of q = (a, b)" by fastforce
  have b: "0 < b" using quotient_of_denom_pos [OF ab] .
  have q: "q = of_int a / of_int b" using quotient_of_div [OF ab] .
  have a: "0 < a" using assms b unfolding q by (simp add: zero_less_divide_iff)
  let ?l = "bitlen a - bitlen b"
  have "(2::int) ^ nat (bitlen a - 1) \<le> a" "a < 2 ^ nat (bitlen a)" "(2::int) ^ nat (bitlen b - 1) \<le> b" "b < 2 ^ nat (bitlen b)"
    using bitlen_bounds [OF a] bitlen_bounds [OF b] by auto
  then have "(of_int (2 ^ nat (bitlen a - 1)) :: rat) \<le> of_int a" "(of_int a :: rat) < of_int (2 ^ nat (bitlen a))"
      "(of_int (2 ^ nat (bitlen b - 1)) :: rat) \<le> of_int b" "(of_int b :: rat) < of_int (2 ^ nat (bitlen b))"
    by (simp_all only: of_int_le_iff of_int_less_iff)
  moreover have "1 \<le> bitlen a" "1 \<le> bitlen b" using a b by (simp_all add: bitlen_alt_def)
  ultimately have ba: "pow2 (bitlen a - 1) \<le> of_int a" "of_int a < pow2 (bitlen a)"
      "pow2 (bitlen b - 1) \<le> of_int b" "of_int b < pow2 (bitlen b)"
    by (simp_all add: pow2_def)
  have lo: "pow2 (?l - 1) < q"
  proof -
    have "pow2 (?l - 1) * of_int b < pow2 (?l - 1) * pow2 (bitlen b)" using ba by simp
    also have "\<dots> = pow2 (bitlen a - 1)" by (simp add: pow2_add [symmetric])
    also have "\<dots> \<le> of_int a" using ba by simp
    finally show ?thesis using b by (simp add: q pos_less_divide_eq)
  qed
  have hi: "q < pow2 (?l + 1)"
  proof -
    have "of_int a < pow2 (bitlen a)" using ba by simp
    also have "\<dots> = pow2 (?l + 1) * pow2 (bitlen b - 1)" by (simp add: pow2_add [symmetric])
    also have "\<dots> \<le> pow2 (?l + 1) * of_int b" using ba by simp
    finally show ?thesis using b by (simp add: q pos_divide_less_eq)
  qed
  show "pow2 (floor_log2 q) \<le> q" "q < pow2 (floor_log2 q + 1)"
    using lo hi by (auto simp: floor_log2_def ab Let_def)
qed

lemma floor_log2_unique: "pow2 l \<le> q \<Longrightarrow> q < pow2 (l + 1) \<Longrightarrow> floor_log2 q = l"
proof -
  assume q: "pow2 l \<le> q" "q < pow2 (l + 1)"
  have "0 < q" using q(1) pow2_pos [of l] by linarith
  note b = floor_log2_bounds [OF this]
  have "pow2 l < pow2 (floor_log2 q + 1)" "pow2 (floor_log2 q) < pow2 (l + 1)" using q b by linarith+
  then show ?thesis by (simp add: pow2_less_iff)
qed

text \<open>The value of 64 bits, and the bits of a value.\<close>

definition double_of_bits :: "int \<Rightarrow> pyfloat" where
  "double_of_bits w =
     (let k = w div 2 ^ 52 mod 2 ^ 11; f = w mod 2 ^ 52; negative = w div 2 ^ 63 = 1
      in if k = 2047 then (if f \<noteq> 0 then NotANumber else if negative then NegInf else PosInf)
         else let x = (if k = 0 then of_int f * pow2 (- 1074) else of_int (f + 2 ^ 52) * pow2 (k - 1075))
              in Finite (if negative then - x else x))"

definition bits_of_double :: "pyfloat \<Rightarrow> int" where
  "bits_of_double x =
     (case x of
        PosInf \<Rightarrow> 2047 * 2 ^ 52
      | NegInf \<Rightarrow> 2 ^ 63 + 2047 * 2 ^ 52
      | NotANumber \<Rightarrow> 2047 * 2 ^ 52 + 2 ^ 51
      | Finite q \<Rightarrow>
          let a = \<bar>q\<bar>; e = (if a = 0 then - 1074 else max (- 1074) (floor_log2 a - 52))
          in \<lfloor>a * pow2 (- e)\<rfloor> + (e + 1074) * 2 ^ 52 + (if q < 0 then 2 ^ 63 else 0))"

definition is_double :: "pyfloat \<Rightarrow> bool" where
  "is_double x = (0 \<le> bits_of_double x \<and> bits_of_double x < 2 ^ 64 \<and> double_of_bits (bits_of_double x) = x)"

lemma split_base: "0 \<le> r \<Longrightarrow> r < B \<Longrightarrow> (r + c * B) div B = (c :: int)" "0 \<le> r \<Longrightarrow> r < B \<Longrightarrow> (r + c * B) mod B = (r :: int)"
  by simp_all

text \<open>The last case is the one of a float: significand and exponent of a representable number.\<close>

lemma double_of_parts:
  assumes "0 \<le> m" "m < 2 ^ 53" "0 \<le> e" "e \<le> 2045" "m < 2 ^ 52 \<longrightarrow> e = 0"
  shows "double_of_bits (m + e * 2 ^ 52 + (if neg then 2 ^ 63 else 0)) =
    Finite ((if neg then -1 else 1) * (of_int m * pow2 (e - 1074)))"
proof -
  let ?u = "m + e * 2 ^ 52"
  have u: "0 \<le> ?u" "?u < 2 ^ 63" using assms(1-4) by simp_all
  have w: "(?u + (if neg then 2 ^ 63 else 0)) div 2 ^ 63 = (if neg then 1 else 0)" using u by (auto simp: div_pos_pos_trivial)
  have s63: "(2::int) ^ 63 = 2 ^ 11 * 2 ^ 52" by simp
  have k: "(?u + (if neg then 2 ^ 63 else 0)) div 2 ^ 52 mod 2 ^ 11 = ?u div 2 ^ 52" (is "?k = _")
  proof -
    have "(?u + (if neg then 2 ^ 63 else 0)) div 2 ^ 52 = ?u div 2 ^ 52 + (if neg then 2 ^ 11 else 0)"
      unfolding s63 using div_mult_self1 [of "2 ^ 52 :: int" ?u "2 ^ 11"] by (cases neg) (simp_all only: if_True if_False, simp_all)
    moreover have "?u div 2 ^ 52 < 2 ^ 11" "0 \<le> ?u div 2 ^ 52" using u by simp_all
    ultimately show ?thesis by simp
  qed
  have f: "(?u + (if neg then 2 ^ 63 else 0)) mod 2 ^ 52 = m mod 2 ^ 52"
    unfolding s63 using mod_mult_self1 [of ?u "2 ^ 11" "2 ^ 52 :: int"] by (cases neg) (simp_all only: if_True if_False, simp_all)
  show ?thesis
  proof (cases "m < 2 ^ 52")
    case True
    then have "?u div 2 ^ 52 = 0" "m mod 2 ^ 52 = m" using assms(1,5) by simp_all
    then show ?thesis using True assms(5) unfolding double_of_bits_def k f w by simp
  next
    case False
    define r where "r = m - 2 ^ 52"
    have r: "m = r + 1 * 2 ^ 52" "0 \<le> r" "r < 2 ^ 52" using False assms(2) by (simp_all add: r_def)
    have u: "?u = r + (e + 1) * 2 ^ 52" by (simp add: r(1))
    have d: "?u div 2 ^ 52 = e + 1" unfolding u by (rule split_base(1) [OF r(2,3)])
    have m: "m mod 2 ^ 52 = r" unfolding r(1) by (rule split_base(2) [OF r(2,3)])
    have "of_int m = (of_int (r + 2 ^ 52) :: rat)" by (simp add: r(1))
    then show ?thesis using assms(3,4) unfolding double_of_bits_def k f w d m Let_def by simp
  qed
qed

lemma bits_of_parts:
  assumes "0 \<le> m" "m < 2 ^ 53" "0 \<le> e" "e \<le> 2045" "m < 2 ^ 52 \<longrightarrow> e = 0" and q: "\<bar>q\<bar> = of_int m * pow2 (e - 1074)"
  shows "bits_of_double (Finite q) = m + e * 2 ^ 52 + (if q < 0 then 2 ^ 63 else 0)"
proof -
  have e: "(if \<bar>q\<bar> = 0 then - 1074 else max (- 1074) (floor_log2 \<bar>q\<bar> - 52)) = e - 1074"
  proof (cases "m = 0")
    case True
    then show ?thesis using q assms(5) by simp
  next
    case False
    then have pos: "\<bar>q\<bar> \<noteq> 0" using q by simp
    have "(of_int m :: rat) < of_int (2 ^ 53)" using assms(2) by (simp only: of_int_less_iff)
    then have m53: "(of_int m :: rat) < pow2 53" by (simp add: pow2_def)
    have "\<bar>q\<bar> < pow2 53 * pow2 (e - 1074)" unfolding q using m53 by simp
    then have hi: "\<bar>q\<bar> < pow2 (e - 1021)" by (simp add: pow2_add [symmetric])
    show ?thesis
    proof (cases "m < 2 ^ 52")
      case True
      then have z: "e = 0" using assms(5) by simp
      have "(of_int m :: rat) < of_int (2 ^ 52)" using True by (simp only: of_int_less_iff)
      then have "(of_int m :: rat) < pow2 52" by (simp add: pow2_def)
      then have "\<bar>q\<bar> < pow2 52 * pow2 (- 1074)" unfolding q using z by simp
      then have "\<bar>q\<bar> < pow2 (- 1022)" by (simp add: pow2_add [symmetric])
      moreover have "pow2 (floor_log2 \<bar>q\<bar>) \<le> \<bar>q\<bar>" using floor_log2_bounds pos by simp
      ultimately have "pow2 (floor_log2 \<bar>q\<bar>) < pow2 (- 1022)" by linarith
      then show ?thesis using pos z by (simp add: pow2_less_iff)
    next
      case False
      then have "(of_int (2 ^ 52) :: rat) \<le> of_int m" by (simp only: of_int_le_iff)
      then have "pow2 52 \<le> of_int m" by (simp add: pow2_def)
      then have "pow2 52 * pow2 (e - 1074) \<le> \<bar>q\<bar>" unfolding q by simp
      then have "pow2 (e - 1022) \<le> \<bar>q\<bar>" by (simp add: pow2_add [symmetric])
      then have "floor_log2 \<bar>q\<bar> = e - 1022" using hi by (intro floor_log2_unique) simp_all
      then show ?thesis using pos assms(3) by simp
    qed
  qed
  have "\<bar>q\<bar> * pow2 (- (e - 1074)) = of_int m * (pow2 (e - 1074) * pow2 (- (e - 1074)))" by (simp add: q)
  also have "\<dots> = of_int m" by (simp add: pow2_add [symmetric]) (simp add: pow2_def)
  finally have "\<lfloor>\<bar>q\<bar> * pow2 (- (e - 1074))\<rfloor> = m" by simp
  then show ?thesis unfolding bits_of_double_def pyfloat.case Let_def e by simp
qed

lemma double_value_is_double:
  assumes "double_of_bits w = Finite q" and "0 \<le> w"
  shows "is_double (Finite q)"
proof -
  define k where "k = w div 2 ^ 52 mod 2 ^ 11"
  define m where "m = (if k = 0 then w mod 2 ^ 52 else w mod 2 ^ 52 + 2 ^ 52)"
  define e where "e = (if k = 0 then 0 else k - 1)"
  have k: "0 \<le> k" "k < 2 ^ 11" "k \<noteq> 2047" using assms(1) by (auto simp: k_def double_of_bits_def Let_def split: if_splits)
  have f: "0 \<le> w mod 2 ^ 52" "w mod 2 ^ 52 < 2 ^ 52" by simp_all
  have p: "0 \<le> m" "m < 2 ^ 53" "0 \<le> e" "e \<le> 2045" "m < 2 ^ 52 \<longrightarrow> e = 0"
    using k f by (auto simp: m_def e_def)
  have x: "(if k = 0 then of_int (w mod 2 ^ 52) * pow2 (- 1074) else of_int (w mod 2 ^ 52 + 2 ^ 52) * pow2 (k - 1075))
      = of_int m * pow2 (e - 1074)"
    using k(1) by (simp add: m_def e_def)
  have "q = (if w div 2 ^ 63 = 1 then - (of_int m * pow2 (e - 1074)) else of_int m * pow2 (e - 1074))"
    using assms(1) k(3) unfolding double_of_bits_def Let_def k_def [symmetric] x by simp
  moreover have nn: "0 \<le> of_int m * pow2 (e - 1074)" using p(1) by simp
  ultimately have q: "\<bar>q\<bar> = of_int m * pow2 (e - 1074)" by simp
  show ?thesis
    unfolding is_double_def bits_of_parts [OF p q] double_of_parts [OF p] q [symmetric] using p by simp
qed

section \<open>Bytes\<close>

fun big_endian :: "nat \<Rightarrow> int \<Rightarrow> bytes" where
  "big_endian 0 w = []"
| "big_endian (Suc k) w = big_endian k (w div 256) @ [of_int (w mod 256)]"

definition pack_double :: "pyfloat \<Rightarrow> bytes" where
  "pack_double x = big_endian 8 (bits_of_double x)"

lemma length_big_endian [simp]: "length (big_endian k w) = k"
  by (induction k arbitrary: w) simp_all

lemma length_pack_double [simp]: "length (pack_double x) = 8"
  by (simp add: pack_double_def)

lemma byte_of_int: "(of_int (v mod 256) :: byte) = of_int (w mod 256) \<Longrightarrow> v mod 256 = w mod 256"
  by (drule arg_cong [where f = uint]) (simp add: unsigned_of_int take_bit_int_def)

lemma big_endian_inj: "big_endian k v = big_endian k w \<Longrightarrow> v mod 256 ^ k = w mod 256 ^ k"
proof (induction k arbitrary: v w)
  case (Suc k)
  have "big_endian k (v div 256) = big_endian k (w div 256)" using Suc.prems by (simp only: big_endian.simps append1_eq_conv)
  then have h: "v div 256 mod 256 ^ k = w div 256 mod 256 ^ k" by (rule Suc.IH)
  have "(of_int (v mod 256) :: byte) = of_int (w mod 256)" using Suc.prems by (simp only: big_endian.simps append1_eq_conv)
  then have l: "v mod 256 = w mod 256" using byte_of_int by blast
  show ?case using h l by (simp add: zmod_zmult2_eq)
qed simp

lemma bits_range: "is_double x \<Longrightarrow> bits_of_double x mod 256 ^ 8 = bits_of_double x"
proof -
  have "(256 :: int) ^ 8 = 2 ^ 64" by simp
  moreover assume "is_double x"
  ultimately show ?thesis unfolding is_double_def by (metis mod_pos_pos_trivial)
qed

lemma pack_double_inj:
  assumes "is_double x" and "is_double y" and "pack_double x = pack_double y"
  shows "x = y"
proof -
  have "bits_of_double x mod 256 ^ 8 = bits_of_double y mod 256 ^ 8"
    using assms(3) unfolding pack_double_def by (rule big_endian_inj)
  then have "bits_of_double x = bits_of_double y" unfolding bits_range [OF assms(1)] bits_range [OF assms(2)] .
  then show ?thesis using assms(1,2) unfolding is_double_def by metis
qed

end
