(* ===== verification/Invites.thy ===== *)
theory Invites
  imports Acceptance Control_Retry Doubles
begin

text \<open>
  The rest of \<^verbatim>\<open>trenchchat/core/invite.py\<close>: publishing a member list, the roster and the
  permissions it carries, invites and their tokens, join requests, and re-sending documents to a
  peer that reappears. What is handed to the router is kept in \<open>mg_sent\<close>, in order; a message
  for a peer whose identity is unknown goes to the retry queue instead.
\<close>

record manager =
  mg_inbox :: inbox
  mg_kinds :: "(hexid \<times> string) list"
  mg_resync :: "((hexid \<times> hexid) \<times> secs) list"
  mg_retry :: "fields retry_queue"
  mg_sent :: "(hexid \<times> fields) list"

abbreviation mg_store :: "manager \<Rightarrow> store" where
  "mg_store m \<equiv> iv_store (mg_inbox m)"

abbreviation with_store :: "store \<Rightarrow> manager \<Rightarrow> manager" where
  "with_store s m \<equiv> m\<lparr>mg_inbox := (mg_inbox m)\<lparr>iv_store := s\<rparr>\<rparr>"

definition RESYNC_COOLDOWN_SECS :: secs where "RESYNC_COOLDOWN_SECS = 900"
definition MAX_RESYNC_PAIRS :: nat where "MAX_RESYNC_PAIRS = 1024"


text \<open>\<^verbatim>\<open>v.hex()\<close>: only bytes have one. (A float has one too, and is never stored as a member.)\<close>

definition hex_of :: "pyval \<Rightarrow> py_error + hexid" where
  "hex_of v = (case v of PBytes b \<Rightarrow> Inr (to_hex b) | _ \<Rightarrow> Inl AttributeError)"

definition unhex :: "hexid \<Rightarrow> py_error + bytes" where
  "unhex h = (case fromhex h of None \<Rightarrow> Inl ValueError | Some b \<Rightarrow> Inr b)"

section \<open>Sending\<close>

definition send_control :: "node \<Rightarrow> secs \<Rightarrow> hexid \<Rightarrow> fields \<Rightarrow> manager \<Rightarrow> manager \<times> bool" where
  "send_control n now dest_hex fs m =
     (case Option.bind (fromhex dest_hex) (nd_delivery n) of
        None \<Rightarrow> (m, False)
      | Some dest_hash \<Rightarrow>
          (case nd_recall n dest_hash of
             None \<Rightarrow> (m\<lparr>mg_retry := rq_queue now dest_hex fs (mg_retry m)\<rparr>, False)
           | Some _ \<Rightarrow> (m\<lparr>mg_sent := mg_sent m @ [(dest_hex, fs)]\<rparr>, True)))"

definition flush_control :: "node \<Rightarrow> secs \<Rightarrow> hexid \<Rightarrow> manager \<Rightarrow> manager \<times> nat" where
  "flush_control n now dest_hex m =
     (let (q, waiting) = rq_take now dest_hex (mg_retry m)
      in send_all (\<lambda>d fs m. apsnd Some (send_control n now d fs m)) dest_hex waiting 0 (m\<lparr>mg_retry := q\<rparr>))"

definition member_list_fields :: "node \<Rightarrow> store \<Rightarrow> hexid \<Rightarrow> bytes \<Rightarrow> py_error + fields" where
  "member_list_fields n s ch blob =
     ebind (unhex ch) (\<lambda>h.
       let described = (\<lambda>name desc creator perms created.
             [(PInt F_CHANNEL_NAME, PStr name), (PInt F_CHANNEL_DESC, PStr desc), (PInt F_CHANNEL_CREATOR, PStr creator),
              (PInt F_CHANNEL_PERMISSIONS, PStr (nd_dumps n perms)), (PInt F_CHANNEL_CREATED_AT, created)])
       in Inr ([(PInt F_MSG_TYPE, PStr MT_MEMBER_LIST_UPDATE), (PInt F_CHANNEL_HASH, PBytes h),
                (PInt F_MEMBER_LIST_DOC, PBytes blob)]
               @ (case get_server s ch of
                    Some r \<Rightarrow> (PInt F_SCOPE_KIND, PStr ''server'')
                      # described (sr_name r) (sr_description r) (sr_creator r) (sr_permissions r) (sr_created r)
                  | None \<Rightarrow>
                      (case get_channel s ch of
                         Some r \<Rightarrow> described (cr_name r) (cr_description r) (cr_creator r) (cr_permissions r) (cr_created r)
                       | None \<Rightarrow> []))))"

text \<open>A document as the dict that is packed; the optional fields are there or not. (The keys are in
  the order of a document built here; one that was received keeps its signatures earlier.)\<close>

definition document_value :: "document \<Rightarrow> pyval" where
  "document_value d =
     PDict ([(PStr ''channel_hash'', dc_channel d), (PStr ''version'', dc_version d), (PStr ''published_at'', dc_published d),
             (PStr ''members'', PList (dc_members d)), (PStr ''admins'', PList (dc_admins d))]
            @ (case dc_owners d of None \<Rightarrow> [] | Some os \<Rightarrow> [(PStr ''owners'', PList os)])
            @ (case dc_permissions d of None \<Rightarrow> [] | Some p \<Rightarrow> [(PStr ''permissions'', p)])
            @ (case dc_joined d of None \<Rightarrow> [] | Some j \<Rightarrow> [(PStr ''joined_at'', PDict j)])
            @ (case dc_departed d of None \<Rightarrow> [] | Some ds \<Rightarrow> [(PStr ''departed'', PDict (map (apsnd PTuple) ds))])
            @ [(PStr ''signatures'', PDict (dc_signatures d))]
            @ (case dc_channels d of None \<Rightarrow> [] | Some c \<Rightarrow> [(PStr ''channels'', c)]))"

fun send_each :: "node \<Rightarrow> secs \<Rightarrow> fields \<Rightarrow> hexid list \<Rightarrow> manager \<Rightarrow> manager" where
  "send_each n now fs [] m = m"
| "send_each n now fs (h # hs) m =
     send_each n now fs hs (if h = to_hex (nd_self n) then m else fst (send_control n now h fs m))"

definition broadcast_member_list ::
    "node \<Rightarrow> secs \<Rightarrow> hexid \<Rightarrow> document \<Rightarrow> hexid list \<Rightarrow> manager \<Rightarrow> manager \<times> (py_error + unit)" where
  "broadcast_member_list n now ch d extra m =
     (case member_list_fields n (mg_store m) ch (nd_packb n (document_value d)) of
        Inl e \<Rightarrow> (m, Inl e)
      | Inr fs \<Rightarrow>
          let members = map mb_id (get_members (mg_store m) ch);
              recipients = fold (\<lambda>h hs. if h \<in> set hs then hs else hs @ [h]) extra members
          in (send_each n now fs recipients m, Inr ()))"

section \<open>Building a document\<close>

definition recover_owners :: "pyval list \<Rightarrow> pyval list \<Rightarrow> channel_row option \<Rightarrow> pyval list" where
  "recover_owners owners admins channel =
     (if owners \<noteq> [] then owners
      else case channel of
             Some r \<Rightarrow> if cr_creator r = [] then admins
                       else (case fromhex (cr_creator r) of Some c \<Rightarrow> [PBytes c] | None \<Rightarrow> admins)
           | None \<Rightarrow> admins)"

definition build_document ::
    "node \<Rightarrow> hexid \<Rightarrow> pyval list \<Rightarrow> pyval list \<Rightarrow> pyval list \<Rightarrow> int \<Rightarrow> secs \<Rightarrow> perms
     \<Rightarrow> (pyval \<times> pyval) list \<Rightarrow> (pyval \<times> pyval list) list \<Rightarrow> bytes option \<Rightarrow> py_error + document" where
  "build_document n ch members admins owners version published perms joined departed channels =
     (let perms_blob = PBytes (if perms = [] then [] else nd_packb n (PDict perms)); stamp = PFloat (Finite published)
      in ebind (unhex ch) (\<lambda>h.
         ebind (signed_payload (PBytes h) (PInt version) stamp members admins (Some owners) perms_blob (Some joined)
                  (Some departed) (map_option PBytes channels)) (\<lambda>payload.
           Inr \<lparr>dc_channel = PBytes h, dc_version = PInt version, dc_published = stamp, dc_members = members,
                dc_admins = admins, dc_signatures = [(PBytes (nd_self n), PBytes (nd_sign n (nd_packb n payload)))],
                dc_owners = Some owners, dc_permissions = Some perms_blob, dc_joined = Some joined,
                dc_departed = Some departed, dc_channels = map_option PBytes channels\<rparr>)))"

text \<open>A row of the roster; rows whose hashes or creation time do not convert are left out. The
  entries sort as lists: no two channels share a hash.\<close>

definition roster_row :: "node \<Rightarrow> channel_row \<Rightarrow> (bytes \<times> string \<times> string \<times> bytes \<times> pyfloat) option" where
  "roster_row n r =
     (case (fromhex (cr_hash r), fromhex (cr_creator r), float_of (nd_parse_float n) (cr_created r)) of
        (Some h, Some c, Inr t) \<Rightarrow> Some (h, cr_name r, cr_description r, c, t)
      | _ \<Rightarrow> None)"

definition encode_roster :: "node \<Rightarrow> channel_row list \<Rightarrow> bytes" where
  "encode_roster n rows =
     nd_packb n (PList (map (\<lambda>(h, name, desc, c, t). PList [PBytes h, PStr name, PStr desc, PBytes c, PFloat t])
       (sort_key (\<lambda>(h, name, desc, c, t). (h, name, desc, c)) (List.map_filter (roster_row n) rows))))"

text \<open>\<^verbatim>\<open>entry[0].hex()\<close> over the entries of the stored roster, up to the first that raises.\<close>

fun roster_prefix :: "pyval list \<Rightarrow> hexid list" where
  "roster_prefix [] = []"
| "roster_prefix (e # es) =
     (case (case e of
              PList (PBytes h # _) \<Rightarrow> Some h
            | PDict d \<Rightarrow> (case map_of d (PInt 0) of Some (PBytes h) \<Rightarrow> Some h | _ \<Rightarrow> None)
            | _ \<Rightarrow> None) of
        Some h \<Rightarrow> to_hex h # roster_prefix es
      | None \<Rightarrow> [])"

definition held_roster :: "node \<Rightarrow> store \<Rightarrow> hexid \<Rightarrow> hexid list" where
  "held_roster n s server =
     (case get_member_list_version s server of
        None \<Rightarrow> []
      | Some v \<Rightarrow>
          (case dc_channels (vn_document v) of
             Some (PBytes b) \<Rightarrow>
               (case nd_unpackb n b of
                  Some x \<Rightarrow> (case py_list x of Inr es \<Rightarrow> roster_prefix es | Inl _ \<Rightarrow> [])
                | None \<Rightarrow> [])
           | _ \<Rightarrow> []))"

definition roster_blob :: "node \<Rightarrow> store \<Rightarrow> hexid \<Rightarrow> py_error + bytes" where
  "roster_blob n s server =
     ebind (role_may s server (to_hex (nd_self n)) CREATE_CHANNEL) (\<lambda>may.
       Inr (encode_roster n
         (filter (\<lambda>r. may \<or> cr_hash r \<in> set (held_roster n s server)) (get_server_channels s server))))"

text \<open>Where a new document starts from: the members, admins and owners of the one held, and its
  version plus one; or this node alone.\<close>

definition current_lists :: "node \<Rightarrow> store \<Rightarrow> hexid \<Rightarrow> pyval list \<times> pyval list \<times> pyval list \<times> int" where
  "current_lists n s ch =
     (case get_member_list_version s ch of
        Some v \<Rightarrow>
          let d = vn_document v
          in (dc_members d, dc_admins d, recover_owners (or_else [] (dc_owners d)) (dc_admins d) (get_channel s ch),
              vn_version v + 1)
      | None \<Rightarrow> ([PBytes (nd_self n)], [PBytes (nd_self n)], [PBytes (nd_self n)], 1))"

definition current_permissions :: "store \<Rightarrow> hexid \<Rightarrow> py_error + perms" where
  "current_permissions s ch =
     (if is_server s ch then get_server_permissions s ch
      else case get_channel s ch of None \<Rightarrow> Inr [] | Some r \<Rightarrow> column_permissions (cr_permissions r))"

definition joined_times :: "store \<Rightarrow> hexid \<Rightarrow> secs \<Rightarrow> pyval list \<Rightarrow> py_error + (pyval \<times> pyval) list" where
  "joined_times s ch published members =
     ebind (each hex_of members) (\<lambda>hs.
       Inr (fold (\<lambda>(m, h) d. AList.update m (or_else (PFloat (Finite published)) (get_open_tenure_joined_at s ch h)) d)
              (zip members hs) []))"

definition departed_times :: "store \<Rightarrow> hexid \<Rightarrow> secs \<Rightarrow> py_error + (pyval \<times> pyval list) list" where
  "departed_times s ch published =
     ebind (each (\<lambda>r. ebind (unhex (tn_id r)) (\<lambda>b. Inr (PBytes b, [tn_joined r, tn_left r])))
              (get_departed_within s ch (published - SYNC_WINDOW_SECS)))
       (\<lambda>es. Inr (fold (\<lambda>(k, v). AList.update k v) es []))"

section \<open>Publishing\<close>

text \<open>Outbound mirror of the checks of \<^const>\<open>signer_may_apply\<close>: the targets the actor may remove.\<close>

definition removable_by :: "store \<Rightarrow> hexid \<Rightarrow> hexid \<Rightarrow> bytes list \<Rightarrow> py_error + bytes list" where
  "removable_by s ch actor targets =
     ebind (role_may s ch actor MANAGE_ROLES) (\<lambda>may.
       Inr (filter (\<lambda>t. let role = get_role s ch (to_hex t)
                        in \<not> (role = Some ROLE_OWNER \<and> get_role s ch actor \<noteq> Some ROLE_OWNER)
                           \<and> \<not> (role = Some ROLE_ADMIN \<and> \<not> may)) targets))"

text \<open>What a caller asks to change; \<open>None\<close> and the empty list ask the same.\<close>

record change =
  ch_add :: "bytes list"
  ch_remove :: "bytes list"
  ch_add_admins :: "bytes list"
  ch_remove_admins :: "bytes list"
  ch_add_owners :: "bytes list"
  ch_remove_owners :: "bytes list"

definition no_change :: change where
  "no_change = \<lparr>ch_add = [], ch_remove = [], ch_add_admins = [], ch_remove_admins = [], ch_add_owners = [],
     ch_remove_owners = []\<rparr>"

definition permitted_change :: "node \<Rightarrow> store \<Rightarrow> hexid \<Rightarrow> change \<Rightarrow> py_error + change" where
  "permitted_change n s ch c =
     (let me = to_hex (nd_self n)
      in ebind (if ch_remove c = [] then Inr []
                else ebind (role_may s ch me KICK) (\<lambda>kick.
                  if kick then removable_by s ch me (ch_remove c) else Inr [])) (\<lambda>remove.
         ebind (if ch_add_admins c = [] \<and> ch_remove_admins c = [] then Inr True
                else role_may s ch me MANAGE_ROLES) (\<lambda>roles.
           let owner = (get_role s ch me = Some ROLE_OWNER)
           in Inr \<lparr>ch_add = ch_add c, ch_remove = remove,
                ch_add_admins = (if roles then ch_add_admins c else []),
                ch_remove_admins = (if roles then ch_remove_admins c else []),
                ch_add_owners = (if owner then ch_add_owners c else []),
                ch_remove_owners = (if owner then ch_remove_owners c else [])\<rparr>)))"

text \<open>\<^verbatim>\<open>if m not in xs: xs.append(m)\<close> and \<^verbatim>\<open>if m in xs: xs.remove(m)\<close> over a list of identities.\<close>

definition append_new :: "bytes list \<Rightarrow> pyval list \<Rightarrow> pyval list" where
  "append_new bs xs = fold (\<lambda>b xs. if PBytes b \<in> set xs then xs else xs @ [PBytes b]) bs xs"

definition remove_each :: "bytes list \<Rightarrow> pyval list \<Rightarrow> pyval list" where
  "remove_each bs xs = fold (\<lambda>b xs. remove1 (PBytes b) xs) bs xs"

definition changed_lists ::
    "change \<Rightarrow> pyval list \<times> pyval list \<times> pyval list \<times> int \<Rightarrow> pyval list \<times> pyval list \<times> pyval list \<times> int" where
  "changed_lists c l =
     (case l of (members, admins, owners, version) \<Rightarrow>
        (remove_each (ch_remove c) (append_new (ch_add c) members),
         remove_each (ch_remove_admins c) (append_new (ch_add_admins c) (remove_each (ch_remove c) admins)),
         remove_each (ch_remove_owners c) (append_new (ch_add_owners c) (remove_each (ch_remove c) owners)),
         version))"

text \<open>The document of a set of lists: permissions, join times and departures from the tables.\<close>

definition next_document ::
    "node \<Rightarrow> secs \<Rightarrow> store \<Rightarrow> hexid \<Rightarrow> pyval list \<times> pyval list \<times> pyval list \<times> int \<Rightarrow> py_error + document" where
  "next_document n now s ch l =
     (case l of (members, admins, owners, version) \<Rightarrow>
        ebind (current_permissions s ch) (\<lambda>perms.
        ebind (joined_times s ch now members) (\<lambda>joined.
        ebind (departed_times s ch now) (\<lambda>departed.
        ebind (if is_server s ch then ebind (roster_blob n s ch) (\<lambda>b. Inr (Some b)) else Inr None) (\<lambda>channels.
          build_document n ch members admins owners version now perms joined departed channels)))))"

definition revoke_each :: "secs \<Rightarrow> hexid \<Rightarrow> bytes list \<Rightarrow> store \<Rightarrow> store" where
  "revoke_each now ch bs s =
     fold (\<lambda>b. revoke_invite_tokens_for now ch (to_hex b) (Finite (now + DEFAULT_TOKEN_TTL))) bs s"

text \<open>The tokens of removed members are revoked when everything but the roster has been read; an
  error before leaves the tables as they were. The document goes out whether or not it was
  accepted here.\<close>

definition publish_member_list :: "node \<Rightarrow> secs \<Rightarrow> hexid \<Rightarrow> change \<Rightarrow> manager \<Rightarrow> manager \<times> (py_error + unit)" where
  "publish_member_list n now channel c m =
     (let s = mg_store m; ch = scope_for s channel
      in case permitted_change n s ch c of
           Inl e \<Rightarrow> (m, Inl e)
         | Inr c \<Rightarrow>
             let lists = changed_lists c (current_lists n s ch)
             in case ebind (current_permissions s ch) (\<lambda>_.
                     ebind (joined_times s ch now (fst lists)) (\<lambda>_. departed_times s ch now)) of
                  Inl e \<Rightarrow> (m, Inl e)
                | Inr _ \<Rightarrow>
                    let s = revoke_each now ch (ch_remove c) s
                    in case next_document n now s ch lists of
                         Inl e \<Rightarrow> (with_store s m, Inl e)
                       | Inr d \<Rightarrow>
                           (case accept_document n now d ch s of
                              (s, Inl e) \<Rightarrow> (with_store s m, Inl e)
                            | (s, Inr _) \<Rightarrow>
                                broadcast_member_list n now ch d (map to_hex (ch_remove c)) (with_store s m)))"

text \<open>Unlike \<^const>\<open>publish_member_list\<close> this stores the new version without applying it.\<close>

definition broadcast_permissions :: "node \<Rightarrow> secs \<Rightarrow> hexid \<Rightarrow> manager \<Rightarrow> manager \<times> (py_error + unit)" where
  "broadcast_permissions n now channel m =
     (let s = mg_store m; ch = scope_for s channel
      in case role_may s ch (to_hex (nd_self n)) MANAGE_CHANNEL of
           Inl e \<Rightarrow> (m, Inl e)
         | Inr False \<Rightarrow> (m, Inr ())
         | Inr True \<Rightarrow>
             let lists = current_lists n s ch
             in case next_document n now s ch lists of
                  Inl e \<Rightarrow> (m, Inl e)
                | Inr d \<Rightarrow>
                    broadcast_member_list n now ch d []
                      (with_store (upsert_member_list_version now ch (snd (snd (snd lists))) (PFloat (Finite now)) d s) m))"

section \<open>Tokens\<close>

definition token_payload :: "bytes \<Rightarrow> hexid \<Rightarrow> pyfloat \<Rightarrow> secs option \<Rightarrow> py_error + bytes" where
  "token_payload invitee ch expiry issued =
     ebind (unhex ch) (\<lambda>h.
       Inr (invitee @ h @ pack_double expiry
            @ (case issued of None \<Rightarrow> [] | Some t \<Rightarrow> pack_double (Finite t))))"

definition generate_invite_token ::
    "node \<Rightarrow> secs \<Rightarrow> hexid \<Rightarrow> bytes \<Rightarrow> secs \<Rightarrow> secs option \<Rightarrow> py_error + bytes \<times> secs" where
  "generate_invite_token n now ch invitee ttl issued =
     (let expiry = or_else now issued + ttl
      in ebind (token_payload invitee ch (Finite expiry) issued) (\<lambda>p. Inr (nd_sign n p, expiry)))"

text \<open>Nothing has been sent or stored when this raises.\<close>

definition send_invite :: "node \<Rightarrow> secs \<Rightarrow> hexid \<Rightarrow> hexid \<Rightarrow> secs \<Rightarrow> manager \<Rightarrow> manager \<times> (py_error + unit)" where
  "send_invite n now channel invitee_hex ttl m =
     (let s = mg_store m; ch = scope_for s channel
      in case ebind (unhex invitee_hex) (\<lambda>invitee.
              ebind (generate_invite_token n now ch invitee ttl (Some now)) (\<lambda>(token, expiry).
              ebind (unhex ch) (\<lambda>h.
                Inr ([(PInt F_MSG_TYPE, PStr MT_INVITE), (PInt F_CHANNEL_HASH, PBytes h),
                      (PInt F_INVITE_TOKEN, PBytes token), (PInt F_INVITEE_HASH, PBytes invitee),
                      (PInt F_EXPIRY_TS, PFloat (Finite expiry)), (PInt F_ADMIN_HASH, PBytes (nd_self n)),
                      (PInt F_INVITE_ISSUED_TS, PFloat (Finite now))]
                     @ (case get_server s ch of
                          Some r \<Rightarrow> [(PInt F_SCOPE_KIND, PStr ''server''), (PInt F_CHANNEL_NAME, PStr (sr_name r))]
                        | None \<Rightarrow> (case get_channel s ch of
                                     Some r \<Rightarrow> [(PInt F_CHANNEL_NAME, PStr (cr_name r))]
                                   | None \<Rightarrow> [])))))) of
           Inl e \<Rightarrow> (m, Inl e)
         | Inr fs \<Rightarrow> (fst (send_control n now invitee_hex fs m), Inr ()))"

text \<open>The invite is on record as accepted, and no longer pending, before the request is built.\<close>

definition send_join_request ::
    "node \<Rightarrow> secs \<Rightarrow> hexid \<Rightarrow> pyval \<Rightarrow> pyfloat \<Rightarrow> hexid \<Rightarrow> secs option \<Rightarrow> manager \<Rightarrow> manager \<times> (py_error + unit)" where
  "send_join_request n now channel token expiry admin_hex issued m =
     (let ch = scope_for (mg_store m) channel;
          issued = (if issued = None then get_pending_invite_issued_at (mg_store m) ch else issued)
      in if expiry = NotANumber then (m, Inl IntegrityError)
         else
           let m = with_store (clear_pending_invite ch (record_accepted_invite now ch admin_hex expiry (mg_store m))) m
           in case ebind (unhex ch) (\<lambda>h. ebind (unhex admin_hex) (\<lambda>a.
                Inr ([(PInt F_MSG_TYPE, PStr MT_JOIN_REQUEST), (PInt F_CHANNEL_HASH, PBytes h), (PInt F_INVITE_TOKEN, token),
                      (PInt F_INVITEE_HASH, PBytes (nd_self n)), (PInt F_EXPIRY_TS, PFloat expiry), (PInt F_ADMIN_HASH, PBytes a)]
                     @ (case issued of None \<Rightarrow> [] | Some t \<Rightarrow> [(PInt F_INVITE_ISSUED_TS, PFloat (Finite t))])))) of
                Inl e \<Rightarrow> (m, Inl e)
              | Inr fs \<Rightarrow> (fst (send_control n now admin_hex fs m), Inr ()))"

definition verify_invite_token ::
    "node \<Rightarrow> secs \<Rightarrow> store \<Rightarrow> pyval \<Rightarrow> bytes \<Rightarrow> hexid \<Rightarrow> pyval \<Rightarrow> pyval \<Rightarrow> secs option \<Rightarrow> py_error + bool" where
  "verify_invite_token n now s token invitee ch expiry admin issued =
     ebind (py_less expiry (PFloat (Finite now))) (\<lambda>expired.
       if expired then Inr False
       else case admin of
              PBytes a \<Rightarrow>
                ebind (if a = nd_self n then Inr (Some (nd_self_key n))
                       else case nd_delivery n a of None \<Rightarrow> Inl TypeError | Some h \<Rightarrow> Inr (nd_recall n h)) (\<lambda>key.
                  case key of
                    None \<Rightarrow> Inr False
                  | Some key \<Rightarrow>
                      ebind (role_may s ch (to_hex a) INVITE) (\<lambda>may.
                        if \<not> may then Inr False
                        else ebind (float_of (nd_parse_float n) expiry) (\<lambda>ex.
                             ebind (token_payload invitee ch ex issued) (\<lambda>payload.
                               Inr (nd_verify n key payload token)))))
            | _ \<Rightarrow> Inl TypeError)"

section \<open>Join requests\<close>

text \<open>When the identity was last removed as far as the tables tell, 0 for never.\<close>

definition removed_at :: "secs \<Rightarrow> store \<Rightarrow> hexid \<Rightarrow> hexid \<Rightarrow> py_error + pyval" where
  "removed_at now s ch invitee =
     (let or_zero = (\<lambda>v. if truthy v then v else PFloat (Finite 0));
          departed = or_zero (or_else PNone (get_last_departure_at s ch invitee));
          revoked = or_zero (case invite_revoked_at now s ch invitee of None \<Rightarrow> PNone | Some t \<Rightarrow> PFloat (Finite t))
      in ebind (py_less departed revoked) (\<lambda>less. Inr (if less then revoked else departed)))"

text \<open>Everything a join request must pass: the invitee and the expiry to redeem it with, or \<open>None\<close>.\<close>

definition redeemable ::
    "node \<Rightarrow> secs \<Rightarrow> fields \<Rightarrow> hexid \<Rightarrow> hexid \<Rightarrow> store \<Rightarrow> py_error + (bytes \<times> pyfloat) option" where
  "redeemable n now fs ch sender s =
     (let token = field_get fs F_INVITE_TOKEN; expiry = field_get fs F_EXPIRY_TS; admin = field_get fs F_ADMIN_HASH
      in ebind (if map_of fs (PInt F_INVITE_ISSUED_TS) = None then Inr None
                else wire_timestamp (nd_parse_float n) (field_get fs F_INVITE_ISSUED_TS) now) (\<lambda>issued.
         if \<not> truthy token \<or> \<not> truthy (field_get fs F_INVITEE_HASH) \<or> \<not> truthy expiry \<or> \<not> truthy admin then Inr None
         else case field_get fs F_INVITEE_HASH of
                PBytes invitee \<Rightarrow>
                  ebind (role_may s ch (to_hex (nd_self n)) INVITE) (\<lambda>may.
                    if \<not> may then Inr None
                    else if sender \<noteq> [] \<and> sender \<noteq> to_hex invitee then Inr None
                    else ebind (verify_invite_token n now s token invitee ch expiry admin issued) (\<lambda>valid.
                    if \<not> valid then Inr None
                    else ebind (removed_at now s ch (to_hex invitee)) (\<lambda>removed.
                         ebind (py_less removed (PFloat (Finite (or_else 0 issued)))) (\<lambda>before.
                    if truthy removed \<and> \<not> before then Inr None
                    else ebind (float_of (nd_parse_float n) expiry) (\<lambda>ex. Inr (Some (invitee, ex)))))))
              | _ \<Rightarrow> Inr None))"

text \<open>Redeeming claims the token; only then is the invitee published as a member.\<close>

definition redeem :: "node \<Rightarrow> secs \<Rightarrow> fields \<Rightarrow> hexid \<Rightarrow> hexid \<Rightarrow> store \<Rightarrow> py_error + (bytes \<times> store) option" where
  "redeem n now fs ch sender s =
     ebind (redeemable n now fs ch sender s) (\<lambda>r.
       case r of
         None \<Rightarrow> Inr None
       | Some (invitee, ex) \<Rightarrow>
           (case field_get fs F_INVITE_TOKEN of
              PBytes token \<Rightarrow>
                (let (s, claimed) = spend_invite_token now ch (to_hex (nd_sha n token)) (to_hex invitee) ex s
                 in Inr (if claimed then Some (invitee, s) else None))
            | _ \<Rightarrow> Inl TypeError))"

definition handle_join_request ::
    "node \<Rightarrow> secs \<Rightarrow> fields \<Rightarrow> hexid \<Rightarrow> hexid \<Rightarrow> manager \<Rightarrow> manager \<times> (py_error + unit)" where
  "handle_join_request n now fs ch sender m =
     (case redeem n now fs ch sender (mg_store m) of
        Inl e \<Rightarrow> (m, Inl e)
      | Inr None \<Rightarrow> (m, Inr ())
      | Inr (Some (invitee, s)) \<Rightarrow> publish_member_list n now ch (no_change\<lparr>ch_add := [invitee]\<rparr>) (with_store s m))"

section \<open>The user's answers\<close>

definition decline_pending_membership :: "hexid \<Rightarrow> manager \<Rightarrow> manager" where
  "decline_pending_membership ch m = with_store (clear_pending_member_doc ch (mg_store m)) m"

definition decline_invite :: "hexid \<Rightarrow> manager \<Rightarrow> manager" where
  "decline_invite ch m = with_store (clear_pending_invite ch (mg_store m)) m"

definition confirm_membership :: "node \<Rightarrow> secs \<Rightarrow> hexid \<Rightarrow> manager \<Rightarrow> manager \<times> (py_error + bool)" where
  "confirm_membership n now ch m =
     (let (i, r) = accept_pending_membership n now ch (mg_inbox m) in (m\<lparr>mg_inbox := i\<rparr>, r))"

definition invite_scope_kind :: "manager \<Rightarrow> hexid \<Rightarrow> string" where
  "invite_scope_kind m ch =
     (if is_server (mg_store m) ch then ''server'' else get_or ''channel'' (mg_kinds m) ch)"

section \<open>Re-sending documents\<close>

definition resync_due :: "hexid \<Rightarrow> hexid \<Rightarrow> secs \<Rightarrow> manager \<Rightarrow> manager \<times> bool" where
  "resync_due scope peer now m =
     (let sent = mg_resync m
      in if now - get_or 0 sent (scope, peer) < RESYNC_COOLDOWN_SECS then (m, False)
         else let sent = (if length sent \<ge> MAX_RESYNC_PAIRS
                          then AList.delete (fst (min_by snd (hd sent) (tl sent))) sent else sent)
              in (m\<lparr>mg_resync := AList.update (scope, peer) now sent\<rparr>, True))"

fun resync_scopes :: "node \<Rightarrow> secs \<Rightarrow> hexid \<Rightarrow> hexid list \<Rightarrow> nat \<Rightarrow> manager \<Rightarrow> manager \<times> (py_error + nat)" where
  "resync_scopes n now peer [] sent m = (m, Inr sent)"
| "resync_scopes n now peer (scope # scopes) sent m =
     (let s = mg_store m
      in if \<not> is_member s scope peer \<or> \<not> is_member s scope (to_hex (nd_self n))
         then resync_scopes n now peer scopes sent m
         else let (m, due) = resync_due scope peer now m
              in if \<not> due then resync_scopes n now peer scopes sent m
                 else case get_member_list_version s scope of
                        None \<Rightarrow> resync_scopes n now peer scopes sent m
                      | Some v \<Rightarrow>
                          (case member_list_fields n s scope (nd_packb n (document_value (vn_document v))) of
                             Inl e \<Rightarrow> (m, Inl e)
                           | Inr fs \<Rightarrow>
                               let (m, ok) = send_control n now peer fs m
                               in resync_scopes n now peer scopes (if ok then sent + 1 else sent) m))"

definition resync_membership :: "node \<Rightarrow> secs \<Rightarrow> hexid \<Rightarrow> manager \<Rightarrow> manager \<times> (py_error + nat)" where
  "resync_membership n now peer m =
     (if peer = to_hex (nd_self n) then (m, Inr 0)
      else resync_scopes n now peer (get_member_list_scopes (mg_store m)) 0 m)"

section \<open>Inbound messages\<close>

definition on_invite :: "node \<Rightarrow> secs \<Rightarrow> fields \<Rightarrow> hexid \<Rightarrow> manager \<Rightarrow> manager \<times> (py_error + unit)" where
  "on_invite n now fs ch m =
     (let token = field_get fs F_INVITE_TOKEN; expiry = field_get fs F_EXPIRY_TS; admin = field_get fs F_ADMIN_HASH
      in if \<not> truthy token \<or> \<not> truthy expiry \<or> \<not> truthy admin then (m, Inr ())
         else
           let kind = decode_text n (field_get fs F_SCOPE_KIND);
               m = m\<lparr>mg_kinds := AList.update ch (if kind = [] then ''channel'' else kind) (mg_kinds m)\<rparr>;
               s = mg_store m; given = decode_text n (field_get fs F_CHANNEL_NAME);
               name = (if given \<noteq> [] then given
                       else case get_channel s ch of Some r \<Rightarrow> cr_name r | None \<Rightarrow> take 12 ch)
           in case ebind (float_of (nd_parse_float n) expiry) (\<lambda>ex.
                   ebind (wire_timestamp (nd_parse_float n) (field_get fs F_INVITE_ISSUED_TS) now) (\<lambda>issued.
                     record_pending_invite now ch name token ex (hex_or_str n admin) (or_else 0 issued) s)) of
                Inl e \<Rightarrow> (m, Inl e)
              | Inr s \<Rightarrow> (with_store s m, Inr ()))"

text \<open>\<open>sender\<close> is the hash of the identity recalled for the source of the message, or empty.\<close>

definition on_lxmf_message :: "node \<Rightarrow> secs \<Rightarrow> fields \<Rightarrow> hexid \<Rightarrow> manager \<Rightarrow> manager \<times> (py_error + unit)" where
  "on_lxmf_message n now fs sender m =
     (let msg_type = (case field_get fs F_MSG_TYPE of PBytes b \<Rightarrow> PStr (nd_decode n b) | v \<Rightarrow> v);
          channel = field_get fs F_CHANNEL_HASH; ch = hex_or_str n channel
      in if msg_type \<in> {PNone, PStr MT_PRESENCE, PStr MT_GOODBYE} then (m, Inr ())
         else if \<not> truthy channel then (m, Inr ())
         else if msg_type = PStr MT_JOIN_REQUEST then handle_join_request n now fs ch sender m
         else if msg_type = PStr MT_MEMBER_LIST_UPDATE
         then (case field_get fs F_MEMBER_LIST_DOC of
                 PBytes blob \<Rightarrow>
                   if blob = [] then (m, Inr ())
                   else (case unpack_wire (nd_unpack_raw n) blob of
                           None \<Rightarrow> (m, Inr ())
                         | Some v \<Rightarrow>
                             (case document_of_wire v of
                                Inl e \<Rightarrow> (m, Inr ())
                              | Inr d \<Rightarrow> (m\<lparr>mg_inbox := on_member_list_update n now fs d ch (mg_inbox m)\<rparr>, Inr ())))
               | _ \<Rightarrow> (m, Inr ()))
         else if msg_type = PStr MT_INVITE then on_invite n now fs ch m
         else (m, Inr ()))"

end
