(* ===== verification/Invite_Safety.thy ===== *)
theory Invite_Safety
  imports Invites Authority
begin

text \<open>
  What holds of invites: a token binds what it was signed for, a join request changes nothing
  unless it carries a live token for its sender, and a token is redeemed at most once whatever
  happens in between.
\<close>

section \<open>What redeeming takes\<close>

lemma redeem_Some:
  assumes "redeem n now fs ch sender s = Inr (Some (b, s'))"
  shows "\<exists>token ex. redeemable n now fs ch sender s = Inr (Some (b, ex)) \<and> field_get fs F_INVITE_TOKEN = PBytes token
    \<and> spend_invite_token now ch (to_hex (nd_sha n token)) (to_hex b) ex s = (s', True)"
proof -
  obtain r where r: "redeemable n now fs ch sender s = Inr (Some r)"
    using assms by (auto simp: redeem_def ebind_Inr split: option.splits)
  obtain b' ex where b': "r = (b', ex)" by fastforce
  obtain token where t: "field_get fs F_INVITE_TOKEN = PBytes token"
    using assms by (auto simp: redeem_def r b' split: pyval.splits)
  show ?thesis
    using assms r t by (auto simp: redeem_def b' split: prod.splits if_splits)
qed

section \<open>What every operation leaves of the tables\<close>

lemma server_of_update:
  "map_option cr_server (row_of cr_hash (update_where p (cr_permissions_update f) rows) c) = map_option cr_server (row_of cr_hash rows c)"
  by (cases "row_of cr_hash rows c") (simp_all add: row_of_map)

text \<open>A relation that holds across each statement on the tables holds across every operation.\<close>

locale store_frame =
  fixes keeps :: "store \<Rightarrow> store \<Rightarrow> bool"
  assumes keeps_refl: "keeps s s"
    and keeps_trans: "keeps s t \<Longrightarrow> keeps t u \<Longrightarrow> keeps s u"
    and keeps_other: "st_tokens s' = st_tokens s \<Longrightarrow> st_scopes s' = st_scopes s \<Longrightarrow>
      (\<And>c. map_option cr_server (row_of cr_hash (st_channels s') c) = map_option cr_server (row_of cr_hash (st_channels s) c))
      \<Longrightarrow> keeps s s'"
    and keeps_channel: "upsert_channel loads now c name desc creator perms created server s = Inr s' \<Longrightarrow> keeps s s'"
    and keeps_discard: "keeps s (fst (discard_empty_server c s))"
    and keeps_spend: "keeps s (fst (spend_invite_token now c h i e s))"
    and keeps_revoke: "keeps s (revoke_invite_tokens_for now c i e s)"
begin

lemma keeps_self [simp]: "keeps s s"
  by (rule keeps_refl)

lemma keeps_same:
  "st_tokens s' = st_tokens s \<Longrightarrow> st_scopes s' = st_scopes s \<Longrightarrow> st_channels s' = st_channels s \<Longrightarrow> keeps s s'"
  by (rule keeps_other) simp_all

lemma keeps_rows:
  "keeps s (upsert_member_list_version now c v p d s)"
  "keeps s (record_departed_tenure c h j l s)"
  "keeps s (record_accepted_invite now c admin expiry s)"
  "keeps s (clear_accepted_invite c s)"
  "keeps s (clear_pending_member_doc c s)"
  "keeps s (clear_pending_invite c s)"
  "keeps s (record_pending_member_doc now c name a d meta s)"
  by (auto simp: upsert_member_list_version_def record_departed_tenure_def record_accepted_invite_def
      clear_accepted_invite_def clear_pending_member_doc_def clear_pending_invite_def record_pending_member_doc_def
      intro!: keeps_same)

lemma keeps_writes:
  "replace_members now c rows s = Inr s' \<Longrightarrow> keeps s s'"
  "update_tenure c old new p j s = Inr s' \<Longrightarrow> keeps s s'"
  "subscribe now c s = Inr s' \<Longrightarrow> keeps s s'"
  "upsert_server loads now c name desc creator perms created s = Inr s' \<Longrightarrow> keeps s s'"
  "record_pending_invite now c name token ex a issued s = Inr s' \<Longrightarrow> keeps s s'"
  by (auto simp: replace_members_def update_tenure_def subscribe_def upsert_server_def record_pending_invite_def
      ebind_Inr Let_def intro!: keeps_same split: if_splits option.splits)

lemma keeps_permissions:
  "set_server_permissions c p s = Inr s' \<Longrightarrow> keeps s s'"
  "set_channel_permissions c p s = Inr s' \<Longrightarrow> keeps s s'"
  by (auto simp: set_server_permissions_def set_channel_permissions_def server_of_update
      intro!: keeps_other simp del: row_of_update split: option.splits)

lemma keeps_tx: "(\<And>s'. r = Inr s' \<Longrightarrow> keeps s s') \<Longrightarrow> keeps s (fst (tx s r))"
  by (cases r) (auto intro: keeps_refl)

lemma keeps_then_do:
  "keeps s (fst m) \<Longrightarrow> (\<And>x t. m = (t, Inr x) \<Longrightarrow> keeps t (fst (f x t))) \<Longrightarrow> keeps s (fst (then_do m f))"
  by (cases m; cases "snd m") (auto simp: then_do_def intro: keeps_trans)

lemma keeps_record_departed: "keeps s (fst (record_departed n c ds s))"
proof (induction ds arbitrary: s)
  case (Cons x ds)
  have "keeps s (fst (record_departed n c ds (record_departed_tenure c h j l s)))" for h j l
    by (rule keeps_trans [OF keeps_rows(2) Cons.IH])
  then show ?case using Cons.IH
    by (cases x) (auto intro: keeps_refl split: list.splits sum.splits option.splits)
qed (simp add: keeps_refl)

lemma keeps_apply_permissions: "keeps s (fst (apply_permissions n d c s))"
  by (auto simp: apply_permissions_def Let_def intro!: keeps_tx intro: keeps_permissions keeps_refl
      split: pyval.splits option.splits)

lemma keeps_entry: "keeps s (fst (materialise_entry n now c perms am known e s))"
  by (auto simp: materialise_entry_def Let_def ebind_Inr split: option.splits
      intro!: keeps_then_do keeps_tx intro: keeps_channel keeps_writes(3) keeps_refl)

lemma keeps_entries: "keeps s (fst (materialise_entries n now c perms am known es s))"
  by (induction es arbitrary: s) (auto intro!: keeps_then_do keeps_entry keeps_refl)

lemma keeps_roster: "keeps s (fst (materialise_roster n now c d v s))"
  by (auto simp: materialise_roster_def Let_def intro: keeps_entries keeps_refl
      split: pyval.splits option.splits sum.splits)

lemma keeps_apply: "keeps s (fst (apply_document n now d c version rows s))"
  unfolding apply_document_def Let_def
  by (rule keeps_trans [OF keeps_rows(1)])
    (auto split: sum.splits intro!: keeps_then_do keeps_tx keeps_record_departed keeps_apply_permissions keeps_roster
      intro: keeps_writes keeps_refl)

lemma keeps_accept: "keeps s (fst (accept_document n now d c s))"
  by (auto simp: accept_document_def split: sum.splits option.splits intro!: keeps_then_do keeps_apply keeps_refl)

lemma keeps_subscribe_once: "keeps s (fst (subscribe_once now c s))"
  by (auto simp: subscribe_once_def intro!: keeps_then_do keeps_tx intro: keeps_writes keeps_refl)

lemma keeps_auto_join: "keeps s (fst (auto_join_channel n now fs c s))"
  by (auto simp: auto_join_channel_def Let_def intro!: keeps_then_do keeps_tx keeps_subscribe_once
      intro: keeps_channel keeps_refl)

lemma keeps_metadata: "keeps s (fst (create_channel_from_metadata n now c meta name s))"
  by (auto simp: create_channel_from_metadata_def Let_def intro!: keeps_then_do keeps_tx keeps_subscribe_once
      intro: keeps_channel keeps_refl)

lemma keeps_materialise_server: "keeps s (fst (materialise_server n now fs c s))"
  by (auto simp: materialise_server_def Let_def split: option.splits intro!: keeps_then_do keeps_tx
      intro: keeps_writes keeps_refl)

lemma keeps_materialise_if: "keeps (iv_store i) (iv_store (fst (materialise_if n now server fs c i)))"
  using keeps_materialise_server [of "iv_store i" n now fs c]
  by (auto simp: materialise_if_def keeps_refl split: prod.splits sum.splits)

lemma keeps_finish: "keeps (iv_store i) (iv_store (finish_server server accepted c i))"
  by (auto simp: finish_server_def keeps_refl keeps_discard)

lemma keeps_hold: "keeps s (hold_for_confirmation n now d c fs s)"
  by (auto simp: hold_for_confirmation_def Let_def keeps_refl keeps_rows split: list.split pyval.split)

lemma keeps_update: "keeps (iv_store i) (iv_store (on_member_list_update n now fs d c i))"
proof -
  let ?m = "materialise_if n now (is_server_kind n fs) fs c i"
  obtain j e where m: "?m = (j, e)" by fastforce
  have a: "keeps (iv_store i) (iv_store j)" using keeps_materialise_if [of i n now _ fs c] m by (metis fst_conv)
  obtain s r where r: "accept_document n now d c (iv_store j) = (s, r)" by fastforce
  have b: "keeps (iv_store i) s" using keeps_trans [OF a keeps_accept] r by (metis fst_conv)
  have f: "keeps (iv_store i) (iv_store (finish_server server x c (j\<lparr>iv_store := s\<rparr>)))" for server x
    using keeps_trans [OF b keeps_finish [of "j\<lparr>iv_store := s\<rparr>", simplified]] .
  show ?thesis
    using m a b f keeps_trans [OF f keeps_auto_join] r
    by (auto simp: on_member_list_update_def Let_def keeps_hold split: option.splits sum.splits)
qed

lemma keeps_confirm: "keeps (iv_store i) (iv_store (fst (accept_pending_membership n now c i)))"
proof (cases "get_pending_member_doc (iv_store i) c")
  case (Some row)
  let ?j = "i\<lparr>iv_store := record_accepted_invite now c (pd_admin row) (Finite (now + DEFAULT_TOKEN_TTL)) (iv_store i)\<rparr>"
  have j: "keeps (iv_store i) (iv_store ?j)" by (simp add: keeps_rows)
  obtain k e where m: "materialise_if n now (is_server_kind n (pd_meta row)) (pd_meta row) c ?j = (k, e)" by fastforce
  have k: "keeps (iv_store i) (iv_store k)"
    using keeps_trans [OF j] keeps_materialise_if [of ?j n now _ "pd_meta row" c] m by (metis fst_conv)
  obtain s r where r: "accept_document n now (pd_document row) c (iv_store k) = (s, r)" by fastforce
  have b: "keeps (iv_store i) s" using keeps_trans [OF k keeps_accept] r by (metis fst_conv)
  let ?c = "\<lambda>x. if x then clear_accepted_invite c (clear_pending_member_doc c s) else clear_pending_member_doc c s"
  have c: "keeps (iv_store i) (?c x)" for x
    using keeps_trans [OF b keeps_rows(5)] keeps_trans [OF keeps_trans [OF b keeps_rows(5)] keeps_rows(4)] by simp
  have f: "keeps (iv_store i) (iv_store (finish_server server acc c (k\<lparr>iv_store := ?c x\<rparr>)))" for server acc x
    using keeps_trans [OF c keeps_finish [of "k\<lparr>iv_store := ?c x\<rparr>", simplified]] by simp
  have g: "keeps (iv_store i) t"
    if "create_channel_from_metadata n now c meta name (iv_store (finish_server server acc c (k\<lparr>iv_store := ?c x\<rparr>))) = (t, r)"
    for server acc x meta name t r
    using keeps_trans [OF f keeps_metadata] that by (metis fst_conv)
  show ?thesis
    using Some m b c k f [of _ _ True] f [of _ _ False] g [where x = True] g [where x = False] r keeps_trans [OF j keeps_rows(5)]
    by (auto simp: accept_pending_membership_def Let_def split: option.splits sum.splits prod.splits)
qed (simp add: accept_pending_membership_def)

section \<open>Operations of the manager\<close>

lemma keeps_send: "mg_store (fst (send_control n now h fs m)) = mg_store m"
  by (simp add: send_control_def split: option.split)

lemma keeps_send_each: "mg_store (send_each n now fs hs m) = mg_store m"
  by (induction hs arbitrary: m) (simp_all add: keeps_send)

lemma keeps_broadcast: "mg_store (fst (broadcast_member_list n now c d extra m)) = mg_store m"
  by (simp add: broadcast_member_list_def Let_def keeps_send_each split: sum.split)

lemma keeps_revoke_each: "keeps s (revoke_each now c bs s)"
  unfolding revoke_each_def by (induction bs arbitrary: s) (auto intro: keeps_trans keeps_revoke)

lemma keeps_publish: "keeps (mg_store m) (mg_store (fst (publish_member_list n now c x m)))"
proof -
  have "keeps s (fst (accept_document n now d ch (revoke_each now ch bs s)))" for s d ch bs
    by (rule keeps_trans [OF keeps_revoke_each keeps_accept])
  then have a: "accept_document n now d ch (revoke_each now ch bs s) = (t, r) \<Longrightarrow> keeps s t" for s d ch bs t r
    by (metis fst_conv)
  show ?thesis
    by (auto simp: publish_member_list_def Let_def keeps_broadcast keeps_revoke_each
        split: sum.splits prod.splits dest: a)
qed

lemma keeps_broadcast_permissions: "keeps (mg_store m) (mg_store (fst (broadcast_permissions n now c m)))"
  by (auto simp: broadcast_permissions_def Let_def keeps_broadcast keeps_rows split: sum.splits bool.splits)

lemma keeps_send_invite: "mg_store (fst (send_invite n now c h ttl m)) = mg_store m"
  by (simp add: send_invite_def Let_def keeps_send split: sum.split)

lemma keeps_send_join: "keeps (mg_store m) (mg_store (fst (send_join_request n now c token ex admin issued m)))"
  by (auto simp: send_join_request_def Let_def keeps_send intro: keeps_trans [OF keeps_rows(3) keeps_rows(6)] split: sum.split)

lemma keeps_redeem: "redeem n now fs c sender s = Inr (Some (b, s')) \<Longrightarrow> keeps s s'"
  using keeps_spend [of s now c] by (auto dest!: redeem_Some) (metis fst_conv)

lemma keeps_join_request: "keeps (mg_store m) (mg_store (fst (handle_join_request n now fs c sender m)))"
proof -
  have "keeps (mg_store m) (mg_store (fst (publish_member_list n now c x (with_store s m))))"
    if "redeem n now fs c sender (mg_store m) = Inr (Some (b, s))" for x b s
    using keeps_trans [OF keeps_redeem [OF that] keeps_publish [of "with_store s m", simplified]] .
  then show ?thesis by (auto simp: handle_join_request_def split: sum.splits option.splits)
qed

lemma keeps_on_invite: "keeps (mg_store m) (mg_store (fst (on_invite n now fs c m)))"
  by (auto simp: on_invite_def Let_def ebind_Inr intro: keeps_writes split: sum.splits)

lemma keeps_message: "keeps (mg_store m) (mg_store (fst (on_lxmf_message n now fs sender m)))"
  by (auto simp: on_lxmf_message_def Let_def keeps_join_request keeps_on_invite keeps_update
      split: pyval.splits option.splits sum.splits)

lemma keeps_resync: "mg_store (fst (resync_scopes n now peer scopes sent m)) = mg_store m"
  by (induction scopes arbitrary: sent m)
    (auto simp: Let_def resync_due_def split: option.splits sum.splits prod.splits dest: sym [THEN arg_cong [where f = fst]]
       arg_cong [OF sym [THEN arg_cong [where f = fst]], where f = mg_store] simp: keeps_send)

end

section \<open>Tokens stay redeemed\<close>

text \<open>A channel that has a row, in a server or not, and whose scope the cache has right: it is settled for good.\<close>

definition settled :: "hexid \<Rightarrow> hexid \<Rightarrow> store \<Rightarrow> bool" where
  "settled ch scope s =
     (has_key cr_hash (st_channels s) ch \<and> scope_fetch s ch = scope \<and> map_of (st_scopes s) ch \<in> {None, Some scope})"

lemma settled_scope: "settled ch scope s \<Longrightarrow> scope_for s ch = scope"
  by (auto simp: settled_def scope_for_def)

lemma settled_same:
  assumes "\<And>c. map_option cr_server (row_of cr_hash (st_channels s') c) = map_option cr_server (row_of cr_hash (st_channels s) c)"
    and "st_scopes s' = st_scopes s"
  shows "settled ch scope s' = settled ch scope s"
proof -
  have "has_key cr_hash (st_channels s') ch = has_key cr_hash (st_channels s) ch" "scope_fetch s' ch = scope_fetch s ch"
    using assms(1) [of ch]
    by (cases "row_of cr_hash (st_channels s') ch"; cases "row_of cr_hash (st_channels s) ch"; simp add: has_key_row scope_fetch_def)+
  then show ?thesis using assms(2) by (simp add: settled_def)
qed

definition is_digest :: "string \<Rightarrow> bool" where
  "is_digest h = (\<exists>b. h = to_hex b)"

lemma digest_not_sentinel: "is_digest h \<Longrightarrow> h \<noteq> revoked_key i"
proof
  assume "is_digest h" and r: "h = revoked_key i"
  then obtain b where b: "h = to_hex b" by (auto simp: is_digest_def)
  then have "hex_digit (unat (hd b) div 16) = CHR ''r''" using r by (cases b) (simp_all add: revoked_key_def)
  then have e: "(of_char (hex_digit (unat (hd b) div 16)) :: nat) = of_char CHR ''r''" by simp
  have "unat (hd b) < 2 ^ LENGTH(8)" by (rule unsigned_less)
  then have "unat (hd b) div 16 < 16" by (simp add: less_mult_imp_div_less)
  then show False using e by (simp add: of_char_hex_digit split: if_splits)
qed

definition tokens_stay :: "store \<Rightarrow> store \<Rightarrow> bool" where
  "tokens_stay s s' =
     ((\<forall>ch scope. settled ch scope s \<longrightarrow> settled ch scope s')
      \<and> (\<forall>c h. is_digest h \<longrightarrow> has_key token_key (st_tokens s) (c, h) \<longrightarrow> has_key token_key (st_tokens s') (c, h)))"

lemma settled_channel:
  assumes "upsert_channel loads now c name desc creator perms created server s = Inr s'" and "settled ch scope s"
  shows "settled ch scope s'"
proof -
  obtain p k where s': "s' = scope_forget c (s\<lparr>st_channels := upsert cr_hash
      \<lparr>cr_hash = c, cr_name = name, cr_description = desc, cr_creator = creator,
       cr_permissions = p, cr_created = k, cr_seen = now, cr_server = server, cr_kind = ''channel''\<rparr>
      (\<lambda>r. r\<lparr>cr_name := name, cr_description := desc, cr_permissions := p, cr_seen := now,
            cr_kind := ''channel''\<rparr>) (st_channels s)\<rparr>)"
    using assms(1) by (auto simp: upsert_channel_def ebind_Inr)
  then show ?thesis using assms(2)
    by (auto simp: settled_def scope_forget_def scope_fetch_def has_key_row delete_conv split: option.splits if_splits)
qed

interpretation tokens: store_frame tokens_stay
proof unfold_locales
  show "tokens_stay s (fst (discard_empty_server c s))" for s c
    by (auto simp: tokens_stay_def settled_def discard_empty_server_def scope_forget_def scope_fetch_def delete_conv)
  show "tokens_stay s s'" if "upsert_channel loads now c name desc creator perms created server s = Inr s'"
    for loads now c name desc creator perms created server s s'
  proof -
    have "st_tokens s' = st_tokens s" using that by (auto simp: upsert_channel_def ebind_Inr scope_forget_def)
    then show ?thesis using settled_channel [OF that] by (simp add: tokens_stay_def)
  qed
  show "tokens_stay s (revoke_invite_tokens_for now c i e s)" for now c i e s
    using digest_not_sentinel [of _ i]
    by (auto simp: tokens_stay_def settled_def scope_fetch_def revoke_invite_tokens_for_def has_key_row token_key_def)
  show "tokens_stay s s'" if "st_tokens s' = st_tokens s" "st_scopes s' = st_scopes s"
    "\<And>c. map_option cr_server (row_of cr_hash (st_channels s') c) = map_option cr_server (row_of cr_hash (st_channels s) c)" for s s'
    using that settled_same [OF that(3,2)] by (simp add: tokens_stay_def)
  show "tokens_stay s (fst (spend_invite_token now c h i e s))" for now c h i e s
    by (auto simp: tokens_stay_def settled_def scope_fetch_def spend_invite_token_def has_key_iff Let_def)
qed (simp_all add: tokens_stay_def)

text \<open>Everything a user, a peer or the program itself can make the manager do.\<close>

datatype manager_event =
    Message node secs fields hexid
  | Publishes node secs hexid change
  | Repermits node secs hexid
  | Invites node secs hexid hexid secs
  | Joins node secs hexid pyval pyfloat hexid "secs option"
  | ConfirmsHeld node secs hexid
  | DeclinesHeld hexid
  | DeclinesInvite hexid
  | Resyncs node secs hexid
  | Flushes node secs hexid

fun manager_step :: "manager_event \<Rightarrow> manager \<Rightarrow> manager" where
  "manager_step (Message n now fs sender) m = fst (on_lxmf_message n now fs sender m)"
| "manager_step (Publishes n now ch c) m = fst (publish_member_list n now ch c m)"
| "manager_step (Repermits n now ch) m = fst (broadcast_permissions n now ch m)"
| "manager_step (Invites n now ch h ttl) m = fst (send_invite n now ch h ttl m)"
| "manager_step (Joins n now ch token ex admin issued) m = fst (send_join_request n now ch token ex admin issued m)"
| "manager_step (ConfirmsHeld n now ch) m = fst (confirm_membership n now ch m)"
| "manager_step (DeclinesHeld ch) m = decline_pending_membership ch m"
| "manager_step (DeclinesInvite ch) m = decline_invite ch m"
| "manager_step (Resyncs n now peer) m = fst (resync_membership n now peer m)"
| "manager_step (Flushes n now peer) m = fst (flush_control n now peer m)"

lemma flush_store: "mg_store (fst (send_all (\<lambda>d fs m. apsnd Some (send_control n now d fs m)) h waiting k m)) = mg_store m"
proof (induction waiting arbitrary: k m)
  case (Cons x waiting)
  obtain m' r where s: "send_control n now h (snd x) m = (m', r)" by fastforce
  then have "mg_store m' = mg_store m" by (metis tokens.keeps_send fst_conv)
  then show ?case using Cons s by (cases x) simp
qed simp

lemma tokens_stay_step: "tokens_stay (mg_store m) (mg_store (manager_step e m))"
proof (cases e)
  case (ConfirmsHeld n now ch)
  then show ?thesis using tokens.keeps_confirm [of "mg_inbox m" n now ch]
    by (auto simp: confirm_membership_def split: prod.splits)
next
  case (Resyncs n now peer)
  then show ?thesis by (simp add: resync_membership_def tokens.keeps_resync)
next
  case (Flushes n now peer)
  then show ?thesis by (simp add: flush_control_def flush_store split: prod.splits)
qed (simp_all add: tokens.keeps_message tokens.keeps_publish tokens.keeps_broadcast_permissions tokens.keeps_send_invite
    tokens.keeps_send_join decline_pending_membership_def decline_invite_def tokens.keeps_rows)

lemma tokens_stay_steps: "tokens_stay (mg_store m) (mg_store (fold manager_step es m))"
  by (induction es arbitrary: m) (auto intro: tokens.keeps_trans [OF tokens_stay_step])

text \<open>C6. A token is redeemed at most once. After a join request with a token for a channel, a channel of a server or
  a server went through, no request with that token goes through again where membership has the same
  scope, be it the same channel or another one of the server, whatever messages arrive and whatever the user does in
  between; a kick and a new publication do not revive it. The scope of a channel that has a row and whose cached scope is
  right never changes.\<close>

theorem token_redeemed_once:
  assumes m': "m' = fold manager_step es (fst (handle_join_request n now fs ch sender m))"
    and "redeem n now fs ch sender (mg_store m) = Inr (Some (b, s))" and "field_get fs F_INVITE_TOKEN = PBytes token"
    and scope: "ch' = ch \<and> settled ch (scope_for (mg_store m) ch) (mg_store m) \<or> scope_for (mg_store m') ch' = scope_for (mg_store m) ch"
    and "field_get fs' F_INVITE_TOKEN = PBytes token" and "nd_sha n' token = nd_sha n token"
  shows "redeem n' now' fs' ch' sender' (mg_store m') \<noteq> Inr (Some r)"
proof
  assume r: "redeem n' now' fs' ch' sender' (mg_store m') = Inr (Some r)"
  let ?h = "to_hex (nd_sha n token)" and ?scope = "scope_for (mg_store m) ch"
  have h: "is_digest ?h" by (auto simp: is_digest_def)
  have key: "has_key token_key (st_tokens s) (?scope, ?h)"
    using redeem_Some [OF assms(2)] assms(3)
    by (auto simp: spend_invite_token_def Let_def has_key_iff token_key_def split: if_splits)
  have before: "tokens_stay (mg_store m) s" by (rule tokens.keeps_redeem [OF assms(2)])
  have "tokens_stay s (mg_store (fst (handle_join_request n now fs ch sender m)))"
    using assms(2) tokens.keeps_publish [of "with_store s m"] by (simp add: handle_join_request_def)
  then have after: "tokens_stay s (mg_store m')" unfolding m' by (rule tokens.keeps_trans [OF _ tokens_stay_steps])
  have same: "scope_for (mg_store m') ch' = ?scope" 
    using scope before after settled_scope [of ch ?scope "mg_store m'"] unfolding tokens_stay_def by metis
  have "has_key token_key (st_tokens (mg_store m')) (?scope, ?h)" using key after h by (simp add: tokens_stay_def)
  moreover obtain b' s' token' ex where "field_get fs' F_INVITE_TOKEN = PBytes token'"
      "spend_invite_token now' ch' (to_hex (nd_sha n' token')) (to_hex b') ex (mg_store m') = (s', True)"
    using redeem_Some [of n' now' fs' ch' sender' "mg_store m'" "fst r" "snd r"] r by auto
  ultimately show False using assms(5,6) same by (simp add: spend_invite_token_def Let_def split: if_splits)
qed

text \<open>The owner of the sample channel has invited [2]; the token is the signature that the sample
  node takes for valid.\<close>

definition join_fields :: fields where
  "join_fields = [(PInt F_INVITE_TOKEN, PBytes [1]), (PInt F_INVITEE_HASH, PBytes [3]),
     (PInt F_EXPIRY_TS, PFloat (Finite 1000)), (PInt F_ADMIN_HASH, PBytes [1]), (PInt F_INVITE_ISSUED_TS, PFloat (Finite 150))]"

definition sample_manager :: manager where
  "sample_manager = \<lparr>mg_inbox = sample_inbox, mg_kinds = [], mg_resync = [], mg_retry = new_retry_queue 3600, mg_sent = []\<rparr>"

lemma sample_redeems:
  "\<exists>s. redeem sample_node 200 join_fields ''0a'' (to_hex [3]) (mg_store sample_manager) = Inr (Some ([3], s))"
proof -
  have "(case redeem sample_node 200 join_fields ''0a'' (to_hex [3]) (mg_store sample_manager) of
          Inr (Some (b, s)) \<Rightarrow> b = [3] | _ \<Rightarrow> False)" by code_simp
  then show ?thesis by (auto split: sum.splits option.splits prod.splits)
qed

text \<open>The sample channel as a server, with a channel of its own for which the token was made.\<close>

definition child_manager :: manager where
  "child_manager = with_store ((mg_store sample_manager)\<lparr>st_channels := st_channels (mg_store sample_manager)
      @ [\<lparr>cr_hash = ''0b'', cr_name = ''y'', cr_description = [], cr_creator = ''01'', cr_permissions = None, cr_created = PInt 0,
          cr_seen = 0, cr_server = Some ''0a'', cr_kind = ''channel''\<rparr>]\<rparr>) sample_manager"

lemma child_redeems:
  "\<exists>s. redeem sample_node 200 join_fields ''0b'' (to_hex [3]) (mg_store child_manager) = Inr (Some ([3], s))"
proof -
  have "(case redeem sample_node 200 join_fields ''0b'' (to_hex [3]) (mg_store child_manager) of
          Inr (Some (b, s)) \<Rightarrow> b = [3] | _ \<Rightarrow> False)" by code_simp
  then show ?thesis by (auto split: sum.splits option.splits prod.splits)
qed

theorem token_redeemed_once_witness:
  "\<forall>r. redeem sample_node 300 join_fields ''0b'' (to_hex [3])
     (mg_store (fold manager_step [Publishes sample_node 250 ''0b'' (no_change\<lparr>ch_remove := [[3]]\<rparr>)]
       (fst (handle_join_request sample_node 200 join_fields ''0b'' (to_hex [3]) child_manager)))) \<noteq> Inr (Some r)"
proof -
  obtain s where s: "redeem sample_node 200 join_fields ''0b'' (to_hex [3]) (mg_store child_manager) = Inr (Some ([3], s))"
    using child_redeems by blast
  have "settled ''0b'' (scope_for (mg_store child_manager) ''0b'') (mg_store child_manager)" by code_simp
  then show ?thesis
    by (intro allI token_redeemed_once [OF refl s]) (simp_all add: join_fields_def field_get_def)
qed

section \<open>A live token\<close>

text \<open>The newest of a column's values is before a time only if every value is.\<close>

definition dominates :: "pyval \<Rightarrow> rat \<Rightarrow> bool" where
  "dominates v d = (\<exists>y. number_of v = Some y \<and> (\<forall>t. float_less y t \<longrightarrow> float_less (Finite d) t))"

lemma dominates_later:
  assumes "number_of w \<noteq> None"
  shows "dominates v d \<Longrightarrow> dominates (later v w) d" and "number_of v \<noteq> None \<Longrightarrow> number_of w = Some (Finite d) \<Longrightarrow> dominates (later v w) d"
proof -
  obtain y where y: "number_of w = Some y" using assms by blast
  show "dominates (later v w) d" if "dominates v d"
  proof -
    obtain z where z: "number_of v = Some z" "\<And>t. float_less z t \<Longrightarrow> float_less (Finite d) t"
      using \<open>dominates v d\<close> by (auto simp: dominates_def)
    show ?thesis
    proof (cases "float_less z y")
      case True
      have "float_less y t \<Longrightarrow> float_less (Finite d) t" for t by (rule z(2) [OF float_less_trans [OF True]])
      then show ?thesis using True y z(1) by (simp add: dominates_def later_def)
    qed (use y z in \<open>simp add: dominates_def later_def\<close>)
  qed
  show "dominates (later v w) d" if "number_of v \<noteq> None" "number_of w = Some (Finite d)"
  proof -
    note nv = that(1)
    obtain x where x: "number_of v = Some x" using nv by auto
    show ?thesis
    proof (cases "float_less x (Finite d)")
      case False
      have "float_less x t \<Longrightarrow> float_less (Finite d) t" for t using False by (cases x; cases t) auto
      then show ?thesis using False x that(2) by (auto simp: dominates_def later_def)
    qed (use x that(2) in \<open>auto simp: dominates_def later_def\<close>)
  qed
qed

lemma later_number: "number_of v \<noteq> None \<Longrightarrow> number_of w \<noteq> None \<Longrightarrow> number_of (later v w) \<noteq> None"
  by (auto simp: later_def)

lemma dominates_foldl:
  "dominates v d \<or> number_of v \<noteq> None \<and> (\<exists>w\<in>set vs. number_of w = Some (Finite d)) \<Longrightarrow>
   list_all (\<lambda>w. number_of w \<noteq> None) vs \<Longrightarrow> dominates (foldl later v vs) d"
proof (induction vs arbitrary: v)
  case (Cons w vs)
  then have w: "number_of w \<noteq> None" and vs: "list_all (\<lambda>w. number_of w \<noteq> None) vs" by simp_all
  show ?case
    using Cons.prems(1) dominates_later [OF w, of v d] later_number [OF _ w, of v] Cons.IH [OF _ vs, of "later v w"] by auto
qed auto

lemma newest_dominates:
  assumes "list_all (\<lambda>w. number_of w \<noteq> None) vs" and "w \<in> set vs" and "number_of w = Some (Finite d)"
  shows "\<exists>v. newest vs = Some v \<and> dominates v d"
proof (cases vs)
  case (Cons v ws)
  have "dominates v d" if "v = w" using that assms(3) by (auto simp: dominates_def)
  then have "dominates (foldl later v ws) d" using assms Cons by (intro dominates_foldl) auto
  then show ?thesis using Cons by (simp add: newest_def)
qed (use assms in simp)

text \<open>Every closed interval and every revocation of an identity is before \<open>t\<close>.\<close>

definition removals_before :: "secs \<Rightarrow> store \<Rightarrow> hexid \<Rightarrow> hexid \<Rightarrow> secs \<Rightarrow> bool" where
  "removals_before now s ch h t =
     (list_all (\<lambda>r. tn_scope r = scope_for s ch \<and> tn_id r = h \<longrightarrow>
          (case tn_left r of PFloat (Finite d) \<Rightarrow> 0 < d \<longrightarrow> d < t | _ \<Rightarrow> True)) (st_tenure s)
      \<and> (case invite_revoked_at now s ch h of None \<Rightarrow> True | Some d \<Rightarrow> 0 < d \<longrightarrow> d < t))"

definition real_departures :: "store \<Rightarrow> bool" where
  "real_departures s = list_all (\<lambda>r. tn_left r = PNone \<or> number_of (tn_left r) \<noteq> None) (st_tenure s)"

lemma removed_before:
  assumes "removed_at now s ch h = Inr removed" and "py_less removed (PFloat (Finite t)) = Inr before"
    and "truthy removed \<longrightarrow> before" and "real_departures s"
  shows "removals_before now s ch h t"
proof -
  let ?z = "\<lambda>v. if truthy v then v else PFloat (Finite 0)"
  define dep where "dep = ?z (or_else PNone (get_last_departure_at s ch h))"
  define rev where "rev = ?z (case invite_revoked_at now s ch h of None \<Rightarrow> PNone | Some t \<Rightarrow> PFloat (Finite t))"
  obtain less where less: "py_less dep rev = Inr less" "removed = (if less then rev else dep)"
    using assms(1) by (auto simp: removed_at_def Let_def ebind_Inr dep_def rev_def)
  have revn: "\<exists>q. rev = PFloat (Finite q)" by (simp add: rev_def split: option.splits)
  then obtain q where q: "rev = PFloat (Finite q)" ..
  obtain x where x: "number_of dep = Some x" "less = float_less x (Finite q)"
    using less(1) q by (cases "number_of dep") (auto simp: py_less_def split: pyval.splits)
  have bound: "d < t" if "0 < d" "\<forall>u. float_less y u \<longrightarrow> float_less (Finite d) u" "y = x \<or> y = Finite q" for d y
  proof -
    note dom = that(2)
    have nx: "number_of removed = Some (if less then Finite q else x)" using less(2) q x(1) by simp
    have "float_less (Finite d) u" if u: "float_less (if less then Finite q else x) u" for u
    proof -
      have "float_less y u"
      proof (cases less)
        case True
        then show ?thesis using u \<open>y = x \<or> y = Finite q\<close> x(2) float_less_trans [of x "Finite q" u] by auto
      next
        case False
        then show ?thesis using u \<open>y = x \<or> y = Finite q\<close> x(2) by (cases x; cases u) auto
      qed
      then show ?thesis using dom by blast
    qed
    note last = this
    have "truthy removed"
    proof (rule ccontr)
      assume "\<not> truthy removed"
      then have "number_of removed = Some (Finite 0)" using nx by (cases removed) (auto simp: number_of_def)
      then have z: "(if less then Finite q else x) = Finite 0" using nx by simp
      have "float_less (Finite 0) (Finite d)" using that(1) by simp
      then show False using last [of "Finite d"] that(1) unfolding z by simp
    qed
    then show "d < t" using last [of "Finite t"] assms(2,3) nx by (cases x) (auto simp: py_less_def split: if_splits)
  qed
  show ?thesis unfolding removals_before_def
  proof (intro conjI)
    show "list_all (\<lambda>r. tn_scope r = scope_for s ch \<and> tn_id r = h \<longrightarrow>
        (case tn_left r of PFloat (Finite d) \<Rightarrow> 0 < d \<longrightarrow> d < t | _ \<Rightarrow> True)) (st_tenure s)"
      unfolding list_all_iff
    proof (intro ballI impI)
      fix r
      assume r: "r \<in> set (st_tenure s)" "tn_scope r = scope_for s ch \<and> tn_id r = h"
      show "case tn_left r of PFloat (Finite d) \<Rightarrow> 0 < d \<longrightarrow> d < t | _ \<Rightarrow> True"
      proof (cases "\<exists>d. tn_left r = PFloat (Finite d)")
        case True
        then obtain d where d: "tn_left r = PFloat (Finite d)" ..
        let ?vs = "filter (\<lambda>v. v \<noteq> PNone) (map tn_left (filter (\<lambda>r. tn_scope r = scope_for s ch \<and> tn_id r = h) (st_tenure s)))"
        have "list_all (\<lambda>w. number_of w \<noteq> None) ?vs" using assms(4) by (auto simp: real_departures_def list_all_iff)
        moreover have "tn_left r \<in> set ?vs" using r d by (simp add: image_iff) (metis)
        ultimately obtain v where v: "newest ?vs = Some v" "dominates v d"
          using newest_dominates [of ?vs "tn_left r" d] d by auto
        have g: "get_last_departure_at s ch h = Some v" using v(1) by (simp add: get_last_departure_at_def)
        have "d < t" if "0 < d"
        proof (cases "truthy v")
          case True
          then have "dep = v" by (simp add: dep_def g)
          then show ?thesis using v(2) x(1) bound [OF that] by (auto simp: dominates_def)
        next
          case False
          then have "number_of v \<in> {None, Some (Finite 0)}" by (cases v) (auto simp: number_of_def)
          then have "\<forall>t. float_less (Finite 0) t \<longrightarrow> float_less (Finite d) t" using v(2) by (auto simp: dominates_def)
          then have "float_less (Finite 0) (Finite d) \<longrightarrow> float_less (Finite d) (Finite d)" ..
          then show ?thesis using that by simp
        qed
        then show ?thesis using d by simp
      qed (auto split: pyval.split pyfloat.split)
    qed
    show "case invite_revoked_at now s ch h of None \<Rightarrow> True | Some d \<Rightarrow> 0 < d \<longrightarrow> d < t"
      using bound [of _ "Finite q"] q by (auto simp: rev_def split: option.splits if_splits)
  qed
qed

lemma verify_sound:
  assumes "verify_invite_token n now s token invitee ch expiry admin issued = Inr True"
  shows "\<exists>a key ex payload. admin = PBytes a \<and> key_of n a = Some key \<and> role_may s ch (to_hex a) INVITE = Inr True
    \<and> float_of (nd_parse_float n) expiry = Inr ex \<and> \<not> float_less ex (Finite now)
    \<and> token_payload invitee ch ex issued = Inr payload \<and> nd_verify n key payload token"
proof -
  have live: "py_less expiry (PFloat (Finite now)) = Inr False"
    using assms by (auto simp: verify_invite_token_def ebind_Inr)
  then obtain a where a: "admin = PBytes a"
    using assms by (cases admin) (auto simp: verify_invite_token_def)
  obtain key where key: "key_of n a = Some key" "role_may s ch (to_hex a) INVITE = Inr True"
      "ebind (float_of (nd_parse_float n) expiry) (\<lambda>ex. ebind (token_payload invitee ch ex issued) (\<lambda>payload.
         Inr (nd_verify n key payload token))) = Inr True"
    using assms live
    by (auto simp: verify_invite_token_def a key_of_def ebind_Inr split: if_splits option.splits)
  then obtain ex payload where ex: "float_of (nd_parse_float n) expiry = Inr ex"
      "token_payload invitee ch ex issued = Inr payload" "nd_verify n key payload token"
    by (auto simp: ebind_Inr)
  have "number_of expiry = Some ex"
    using live ex(1) by (cases expiry) (auto simp: py_less_def float_of_def split: if_splits)
  then have "\<not> float_less ex (Finite now)" using live by (simp add: py_less_def)
  then show ?thesis using a key(1,2) ex by blast
qed

lemma redeemable_Some:
  assumes "redeemable n now fs ch sender s = Inr (Some (invitee, ex))"
  shows "\<exists>issued removed before.
    verify_invite_token n now s (field_get fs F_INVITE_TOKEN) invitee ch (field_get fs F_EXPIRY_TS)
        (field_get fs F_ADMIN_HASH) issued = Inr True
    \<and> removed_at now s ch (to_hex invitee) = Inr removed
    \<and> py_less removed (PFloat (Finite (or_else 0 issued))) = Inr before \<and> (truthy removed \<longrightarrow> before)
    \<and> field_get fs F_INVITEE_HASH = PBytes invitee \<and> role_may s ch (to_hex (nd_self n)) INVITE = Inr True
    \<and> (sender = [] \<or> sender = to_hex invitee)"
proof -
  let ?v = "\<lambda>issued invitee. verify_invite_token n now s (field_get fs F_INVITE_TOKEN) invitee ch (field_get fs F_EXPIRY_TS)
        (field_get fs F_ADMIN_HASH) issued"
  let ?k = "\<lambda>issued i. ebind (?v issued i) (\<lambda>valid. if \<not> valid then Inr None
        else ebind (removed_at now s ch (to_hex i)) (\<lambda>removed.
             ebind (py_less removed (PFloat (Finite (or_else 0 issued)))) (\<lambda>before.
               if truthy removed \<and> \<not> before then Inr None
               else ebind (float_of (nd_parse_float n) (field_get fs F_EXPIRY_TS)) (\<lambda>ex. Inr (Some (i, ex))))))"
  obtain i where i: "field_get fs F_INVITEE_HASH = PBytes i"
    using assms by (cases "field_get fs F_INVITEE_HASH") (auto simp: redeemable_def Let_def ebind_Inr split: if_splits)
  obtain issued where k: "role_may s ch (to_hex (nd_self n)) INVITE = Inr True" "sender = [] \<or> sender = to_hex i"
      "?k issued i = Inr (Some (invitee, ex))"
  proof -
    let ?missing = "\<not> truthy (field_get fs F_INVITE_TOKEN) \<or> \<not> truthy (field_get fs F_INVITEE_HASH)
          \<or> \<not> truthy (field_get fs F_EXPIRY_TS) \<or> \<not> truthy (field_get fs F_ADMIN_HASH)"
    obtain issued where "(if ?missing then Inr None
        else ebind (role_may s ch (to_hex (nd_self n)) INVITE) (\<lambda>may.
          if \<not> may then Inr None else if sender \<noteq> [] \<and> sender \<noteq> to_hex i then Inr None else ?k issued i))
        = Inr (Some (invitee, ex))"
      using assms unfolding redeemable_def Let_def i pyval.case by (subst (asm) ebind_Inr) blast
    then have "ebind (role_may s ch (to_hex (nd_self n)) INVITE) (\<lambda>may.
          if \<not> may then Inr None else if sender \<noteq> [] \<and> sender \<noteq> to_hex i then Inr None else ?k issued i)
        = Inr (Some (invitee, ex))"
      by (cases ?missing) (simp_all only: if_True if_False sum.inject option.distinct)
    then show thesis using that by (subst (asm) ebind_Inr) (auto split: if_splits)
  qed
  then show ?thesis using i by (auto simp: ebind_Inr split: if_splits)
qed

text \<open>C5. A join request changes the members only if the token in it is alive: an admin who may invite
  signed it for this invitee and this channel, it has not expired, it was not redeemed before, the
  sender is the invitee (where the sender is known), and it was issued after every removal of the
  invitee on record, whether the departure or the revocation of a kick.\<close>

theorem join_needs_live_token:
  assumes "st_members (mg_store (fst (handle_join_request n now fs ch sender m))) \<noteq> st_members (mg_store m)"
    and "real_departures (mg_store m)"
  shows "\<exists>invitee a token key ex issued payload.
    field_get fs F_INVITEE_HASH = PBytes invitee \<and> field_get fs F_ADMIN_HASH = PBytes a
    \<and> field_get fs F_INVITE_TOKEN = PBytes token
    \<and> (sender = [] \<or> sender = to_hex invitee) \<and> role_may (mg_store m) ch (to_hex (nd_self n)) INVITE = Inr True
    \<and> role_may (mg_store m) ch (to_hex a) INVITE = Inr True \<and> key_of n a = Some key
    \<and> token_payload invitee ch ex issued = Inr payload \<and> nd_verify n key payload (PBytes token)
    \<and> \<not> float_less ex (Finite now) \<and> \<not> is_invite_token_spent (mg_store m) ch (to_hex (nd_sha n token))
    \<and> removals_before now (mg_store m) ch (to_hex invitee) (or_else 0 issued)"
proof -
  let ?s = "mg_store m"
  obtain invitee s where r: "redeem n now fs ch sender ?s = Inr (Some (invitee, s))"
    using assms(1) by (auto simp: handle_join_request_def split: sum.splits option.splits)
  obtain token ex where t: "redeemable n now fs ch sender ?s = Inr (Some (invitee, ex))"
      "field_get fs F_INVITE_TOKEN = PBytes token"
      "spend_invite_token now ch (to_hex (nd_sha n token)) (to_hex invitee) ex ?s = (s, True)"
    using redeem_Some [OF r] by blast
  obtain issued removed before where v: "verify_invite_token n now ?s (PBytes token) invitee ch (field_get fs F_EXPIRY_TS)
        (field_get fs F_ADMIN_HASH) issued = Inr True"
    and rb: "removed_at now ?s ch (to_hex invitee) = Inr removed"
      "py_less removed (PFloat (Finite (or_else 0 issued))) = Inr before" "truthy removed \<longrightarrow> before"
    and f: "field_get fs F_INVITEE_HASH = PBytes invitee" "role_may ?s ch (to_hex (nd_self n)) INVITE = Inr True"
      "sender = [] \<or> sender = to_hex invitee"
    using redeemable_Some [OF t(1)] t(2) by metis
  obtain a key ex' payload where k: "field_get fs F_ADMIN_HASH = PBytes a" "key_of n a = Some key"
      "role_may ?s ch (to_hex a) INVITE = Inr True" "float_of (nd_parse_float n) (field_get fs F_EXPIRY_TS) = Inr ex'"
      "\<not> float_less ex' (Finite now)" "token_payload invitee ch ex' issued = Inr payload" "nd_verify n key payload (PBytes token)"
    using verify_sound [OF v] by blast
  have "\<not> is_invite_token_spent ?s ch (to_hex (nd_sha n token))"
    using t(3) by (auto simp: spend_invite_token_def is_invite_token_spent_def Let_def split: if_splits)
  then show ?thesis using f k t(2) removed_before [OF rb assms(2)] by blast
qed

theorem join_needs_live_token_witness:
  "\<not> is_invite_token_spent (mg_store sample_manager) ''0a'' (to_hex [1])"
proof -
  have "st_members (mg_store (fst (handle_join_request sample_node 200 join_fields ''0a'' (to_hex [3]) sample_manager)))
      \<noteq> st_members (mg_store sample_manager)" by code_simp
  moreover have "real_departures (mg_store sample_manager)" by code_simp
  ultimately obtain token where "field_get join_fields F_INVITE_TOKEN = PBytes token"
      "\<not> is_invite_token_spent (mg_store sample_manager) ''0a'' (to_hex (nd_sha sample_node token))"
    using join_needs_live_token by blast
  then show ?thesis by (simp add: join_fields_def field_get_def sample_node_def)
qed

text \<open>A token binds the invitee, the channel, the expiry and the time of issue: for identities of
  one length, two tokens signed over the same bytes agree on all of them, and dropping the time
  of issue from a bound token makes it another payload, not an unbound token.\<close>

theorem token_binds:
  assumes "token_payload invitee ch ex issued = Inr p" and "token_payload invitee' ch' ex' issued' = Inr p"
    and "length invitee = length invitee'" and "map_option length (fromhex ch) = map_option length (fromhex ch')"
    and "is_double ex" and "is_double ex'"
    and "\<forall>t. issued = Some t \<longrightarrow> is_double (Finite t)" and "\<forall>t. issued' = Some t \<longrightarrow> is_double (Finite t)"
  shows "invitee = invitee' \<and> fromhex ch = fromhex ch' \<and> ex = ex' \<and> issued = issued'"
proof -
  let ?t = "\<lambda>i. case i of None \<Rightarrow> [] | Some t \<Rightarrow> pack_double (Finite t)"
  obtain h h' where h: "fromhex ch = Some h" "p = invitee @ h @ pack_double ex @ ?t issued"
      "fromhex ch' = Some h'" "p = invitee' @ h' @ pack_double ex' @ ?t issued'"
    using assms(1,2) by (auto simp: token_payload_def unhex_def ebind_Inr split: option.splits)
  have "length h = length h'" using assms(4) h(1,3) by simp
  with h(2,4) assms(3) have e: "invitee = invitee'" "h = h'" "pack_double ex = pack_double ex'" "?t issued = ?t issued'"
    by simp_all
  have "ex = ex'" by (rule pack_double_inj [OF assms(5,6) e(3)])
  moreover have "issued = issued'"
  proof (cases issued; cases issued')
    fix t t' assume "issued = Some t" "issued' = Some t'"
    then show ?thesis using e(4) pack_double_inj [of "Finite t" "Finite t'"] assms(7,8) by simp
  qed (use e(4) length_pack_double in \<open>metis (no_types, lifting) list.size(3) option.simps(4,5) zero_neq_numeral\<close>)+
  ultimately show ?thesis using e h by simp
qed

theorem token_binds_witness:
  "[2] = [2 :: byte] \<and> fromhex ''0a'' = fromhex ''0A'' \<and> Finite 1000 = Finite 1000 \<and> Some 150 = Some (150 :: rat)"
proof (rule token_binds)
  show "token_payload [2] ''0a'' (Finite 1000) (Some 150) = Inr ([2, 10] @ pack_double (Finite 1000) @ pack_double (Finite 150))"
    by code_simp
  show "token_payload [2] ''0A'' (Finite 1000) (Some 150) = Inr ([2, 10] @ pack_double (Finite 1000) @ pack_double (Finite 150))"
    by code_simp
  show "map_option length (fromhex ''0a'') = map_option length (fromhex ''0A'')" by code_simp
  have "is_double (Finite 1000)" "is_double (Finite 150)" by code_simp+
  then show "is_double (Finite 1000)" "is_double (Finite 1000)" "\<forall>t. Some 150 = Some t \<longrightarrow> is_double (Finite t)"
      "\<forall>t. Some 150 = Some t \<longrightarrow> is_double (Finite t)" by simp_all
qed simp

end
