(* ===== verification/Messages.thy ===== *)
theory Messages
  imports Authorship Membership Friends
begin

text \<open>
  Messages: the \<^verbatim>\<open>messages\<close> table of \<^verbatim>\<open>trenchchat/core/storage.py\<close> with the sync watermarks beside
  it, and the inbound half of \<^verbatim>\<open>trenchchat/core/messaging.py\<close>: who may put a message into a
  channel or a conversation, what is checked of it, and what is stored.

  \<open>outside\<close> is what the code takes from elsewhere: Reticulum, SHA-256, msgpack, \<^verbatim>\<open>repr\<close> and \<^verbatim>\<open>str\<close>,
  LXMF's field numbers, and what Pillow reads in the header of an image. Rows are in the order of
  their autoincrement id. The callbacks to the window are left out.
\<close>

section \<open>The table\<close>

record message_row =
  ms_channel :: hexid
  ms_sender :: hexid
  ms_name :: string
  ms_content :: string
  ms_ts :: secs
  ms_id :: string
  ms_reply :: "string option"
  ms_last_seen :: "string option"
  ms_received :: secs
  ms_image :: "bytes option"
  ms_sig :: "bytes option"
  ms_image_stripped :: bool
  ms_manifest :: "manifest option"
  ms_file_stripped :: bool

text \<open>The ids are unique across channels, and the channel must have a row.\<close>

definition insert_message :: "channel_row list \<Rightarrow> message_row \<Rightarrow> message_row list \<Rightarrow> message_row list \<times> bool" where
  "insert_message channels r rows =
     (if has_key cr_hash channels (ms_channel r) \<and> \<not> has_key ms_id rows (ms_id r) then (rows @ [r], True)
      else (rows, False))"

definition has_message :: "message_row list \<Rightarrow> hexid \<Rightarrow> string \<Rightarrow> bool" where
  "has_message rows ch mid = (mid \<noteq> [] \<and> list_ex (\<lambda>r. ms_channel r = ch \<and> ms_id r = mid) rows)"

definition get_message :: "message_row list \<Rightarrow> hexid \<Rightarrow> string \<Rightarrow> message_row option" where
  "get_message rows ch mid = find (\<lambda>r. ms_channel r = ch \<and> ms_id r = mid) rows"

definition message_exists :: "message_row list \<Rightarrow> string \<Rightarrow> bool" where
  "message_exists rows mid = has_key ms_id rows mid"

text \<open>Oldest first by timestamp, then by arrival; \<^verbatim>\<open>ORDER BY ... DESC LIMIT ?\<close> takes from the other end.\<close>

definition by_time :: "message_row list \<Rightarrow> message_row list" where
  "by_time = sort_key (\<lambda>r. (ms_ts r, ms_received r))"

definition get_messages :: "message_row list \<Rightarrow> hexid \<Rightarrow> nat \<Rightarrow> secs option \<Rightarrow> message_row list" where
  "get_messages rows ch limit before =
     (let page = by_time (filter (\<lambda>r. ms_channel r = ch \<and> (case before of None \<Rightarrow> True | Some t \<Rightarrow> ms_ts r < t)) rows)
      in drop (length page - limit) page)"

definition get_latest_message_id :: "message_row list \<Rightarrow> hexid \<Rightarrow> string option" where
  "get_latest_message_id rows ch =
     (case by_time (filter (\<lambda>r. ms_channel r = ch) rows) of [] \<Rightarrow> None | rs \<Rightarrow> Some (ms_id (last rs)))"

text \<open>A channel's rows after a timestamp and, where \<open>after_id\<close> is given, after that row among those of the
  timestamp. The number of a row is its \<^verbatim>\<open>id\<close> column. The index of a channel is a narrower read; \<open>None\<close> is
  an upper bound of infinity.\<close>

definition is_after :: "hexid \<Rightarrow> pyfloat \<Rightarrow> nat option \<Rightarrow> nat \<times> message_row \<Rightarrow> bool" where
  "is_after ch since after_id ir =
     (let r = snd ir
      in ms_channel r = ch \<and> (float_less since (Finite (ms_ts r))
           \<or> (case after_id of None \<Rightarrow> False | Some a \<Rightarrow> Finite (ms_ts r) = since \<and> a < fst ir)))"

definition rows_after :: "message_row list \<Rightarrow> hexid \<Rightarrow> pyfloat \<Rightarrow> nat option \<Rightarrow> (nat \<times> message_row) list" where
  "rows_after rows ch since after_id =
     sort_key (\<lambda>ir. (ms_ts (snd ir), fst ir)) (filter (is_after ch since after_id) (enumerate 1 rows))"

definition get_messages_after ::
    "message_row list \<Rightarrow> hexid \<Rightarrow> pyfloat \<Rightarrow> nat \<Rightarrow> nat option \<Rightarrow> (nat \<times> message_row) list" where
  "get_messages_after rows ch since limit after_id = take limit (rows_after rows ch since after_id)"

definition get_message_index :: "message_row list \<Rightarrow> hexid \<Rightarrow> secs \<Rightarrow> secs option \<Rightarrow> message_row list" where
  "get_message_index rows ch lo hi =
     sort_key ms_ts (filter (\<lambda>r. ms_channel r = ch \<and> lo \<le> ms_ts r \<and> (case hi of None \<Rightarrow> True | Some h \<Rightarrow> ms_ts r < h)) rows)"

definition get_messages_by_ids :: "message_row list \<Rightarrow> hexid \<Rightarrow> string list \<Rightarrow> message_row list" where
  "get_messages_by_ids rows ch ids = by_time (filter (\<lambda>r. ms_channel r = ch \<and> ms_id r \<in> set ids) rows)"

definition get_unread_counts :: "message_row list \<Rightarrow> subscription_row list \<Rightarrow> hexid \<Rightarrow> (hexid \<times> nat) list" where
  "get_unread_counts rows subs self =
     map (\<lambda>sb. (sb_channel sb,
        length (filter (\<lambda>r. ms_channel r = sb_channel sb \<and> ms_ts r > sb_read sb \<and> ms_sender r \<noteq> self) rows))) subs"

text \<open>The SQL filter only narrows (its LIKE ignores the case of ASCII letters); the rows counted are
  those whose text mentions the identity.\<close>

definition get_mention_counts :: "message_row list \<Rightarrow> subscription_row list \<Rightarrow> hexid \<Rightarrow> (hexid \<times> nat) list" where
  "get_mention_counts rows subs self =
     map (\<lambda>sb. (sb_channel sb,
        if self = [] then 0
        else length (filter (\<lambda>r. ms_channel r = sb_channel sb \<and> ms_ts r > sb_read sb \<and> ms_sender r \<noteq> self
               \<and> mentions_identity (ms_content r) self) rows))) subs"

section \<open>Watermarks and hints\<close>

text \<open>Rows of \<^verbatim>\<open>sync_progress\<close> and \<^verbatim>\<open>sync_served\<close>, and of \<^verbatim>\<open>missed_deliveries\<close>.\<close>

record progress_row =
  pg_channel :: hexid
  pg_peer :: hexid
  pg_ts :: pyfloat

definition progress_key :: "progress_row \<Rightarrow> hexid \<times> hexid" where
  "progress_key r = (pg_channel r, pg_peer r)"

definition get_progress :: "progress_row list \<Rightarrow> hexid \<Rightarrow> hexid \<Rightarrow> pyfloat" where
  "get_progress rows ch peer = (case row_of progress_key rows (ch, peer) of None \<Rightarrow> Finite 0 | Some r \<Rightarrow> pg_ts r)"

definition advance_progress :: "hexid \<Rightarrow> hexid \<Rightarrow> pyfloat \<Rightarrow> progress_row list \<Rightarrow> progress_row list" where
  "advance_progress ch peer ts =
     upsert progress_key \<lparr>pg_channel = ch, pg_peer = peer, pg_ts = ts\<rparr> (\<lambda>r. r\<lparr>pg_ts := py_max (pg_ts r) ts\<rparr>)"

record missed_row =
  md_channel :: hexid
  md_recipient :: hexid
  md_message :: string
  md_recorded :: secs

definition missed_key :: "missed_row \<Rightarrow> hexid \<times> hexid \<times> string" where
  "missed_key r = (md_channel r, md_recipient r, md_message r)"

definition record_missed_delivery :: "secs \<Rightarrow> hexid \<Rightarrow> hexid \<Rightarrow> string \<Rightarrow> missed_row list \<Rightarrow> missed_row list" where
  "record_missed_delivery now ch recipient mid =
     insert_ignore missed_key \<lparr>md_channel = ch, md_recipient = recipient, md_message = mid, md_recorded = now\<rparr>"

definition get_missed_message_ids :: "missed_row list \<Rightarrow> hexid \<Rightarrow> hexid \<Rightarrow> string list" where
  "get_missed_message_ids rows ch recipient =
     map md_message (filter (\<lambda>r. md_channel r = ch \<and> md_recipient r = recipient) rows)"

definition clear_missed_deliveries :: "hexid \<Rightarrow> hexid \<Rightarrow> missed_row list \<Rightarrow> missed_row list" where
  "clear_missed_deliveries ch recipient = delete_where (\<lambda>r. md_channel r = ch \<and> md_recipient r = recipient)"

definition purge_old_missed_deliveries :: "secs \<Rightarrow> missed_row list \<Rightarrow> missed_row list" where
  "purge_old_missed_deliveries before = delete_where (\<lambda>r. md_recorded r < before)"

section \<open>What is checked of a message\<close>

text \<open>What opening an image shows: a decompression bomb, another failure, or its width, height and
  number of frames (\<open>None\<close> where that is no integer).\<close>

datatype image_header = Bomb | Unreadable | Header int int "int option"

record outside =
  ot_rns :: rns
  ot_sha :: "bytes \<Rightarrow> bytes"
  ot_repr :: "pyval \<Rightarrow> string"
  ot_str :: "pyval \<Rightarrow> string"
  ot_decode :: "bytes \<Rightarrow> string"
  ot_parse_float :: "pyval \<Rightarrow> pyfloat option"
  ot_unpackb :: "bytes \<Rightarrow> pyval option"
  ot_open :: "bytes \<Rightarrow> image_header"
  ot_custom_type :: int
  ot_custom_data :: int
  ot_image_field :: int

definition MAX_IMAGE_BYTES :: int where "MAX_IMAGE_BYTES = 921600"
definition MAX_IMAGE_PIXELS :: int where "MAX_IMAGE_PIXELS = 40000000"
definition MAX_GIF_FRAMES :: int where "MAX_GIF_FRAMES = 300"
definition MAX_INBOUND_DECODED_PIXELS :: int where "MAX_INBOUND_DECODED_PIXELS = MAX_IMAGE_PIXELS"

definition INBOUND_MAGIC :: "bytes list" where
  "INBOUND_MAGIC = [[0xff, 0xd8, 0xff], 0x89 # utf8 ''PNG'' @ [13, 10, 26, 10], utf8 ''GIF87a'', utf8 ''GIF89a'']"

definition declared_format_is_allowed :: "bytes \<Rightarrow> bool" where
  "declared_format_is_allowed b =
     (if take 4 b = utf8 ''RIFF'' \<and> take 4 (drop 8 b) = utf8 ''WEBP'' then True
      else list_ex (\<lambda>magic. take (length magic) b = magic) INBOUND_MAGIC)"

definition inbound_image_is_sane :: "(bytes \<Rightarrow> image_header) \<Rightarrow> bytes \<Rightarrow> bool" where
  "inbound_image_is_sane open_image b =
     (if \<not> declared_format_is_allowed b then False
      else case open_image b of
             Bomb \<Rightarrow> False
           | Unreadable \<Rightarrow> True
           | Header width height frames \<Rightarrow>
               if width \<le> 0 \<or> height \<le> 0 then False
               else (case frames of
                       None \<Rightarrow> False
                     | Some n \<Rightarrow> if n < 1 then False
                                 else if n > MAX_GIF_FRAMES then False
                                 else width * height * n \<le> MAX_INBOUND_DECODED_PIXELS))"

definition compute_message_id :: "(bytes \<Rightarrow> bytes) \<Rightarrow> string \<Rightarrow> hexid \<Rightarrow> secs \<Rightarrow> string" where
  "compute_message_id sha content sender ts =
     to_hex (sha (utf8 (content @ [CHR '':''] @ sender @ [CHR '':''] @ fmt6 ts)))"

definition resolve_manifest :: "manifest option \<Rightarrow> manifest option \<times> bool" where
  "resolve_manifest m =
     (case m of
        None \<Rightarrow> (None, False)
      | Some c \<Rightarrow> (case file_manifest (man_name c) (man_size c) (man_hash c) (man_root c) of
                     None \<Rightarrow> (None, True)
                   | Some checked \<Rightarrow> (Some checked, False)))"

text \<open>What a message claims. \<open>cl_name\<close> is \<open>None\<close> where the statement cannot bind the name, and
  \<open>cl_unhashable\<close> says that hashing the image raises.\<close>

record claimed =
  cl_name :: "string option"
  cl_signed :: signed_message
  cl_sig :: pyval
  cl_unhashable :: bool

abbreviation sig_of :: "pyval \<Rightarrow> bytes option" where
  "sig_of v \<equiv> (case v of PBytes b \<Rightarrow> Some b | _ \<Rightarrow> None)"

definition image_refused :: "outside \<Rightarrow> bytes option \<Rightarrow> bool" where
  "image_refused k img =
     (case img of
        None \<Rightarrow> False
      | Some b \<Rightarrow> int (length b) > MAX_IMAGE_BYTES \<or> \<not> inbound_image_is_sane (ot_open k) b)"

text \<open>The row that is stored: an image or manifest that is refused takes the signature with it.\<close>

definition stored_row :: "outside \<Rightarrow> secs \<Rightarrow> hexid \<Rightarrow> hexid \<Rightarrow> string \<Rightarrow> claimed \<Rightarrow> message_row" where
  "stored_row k now ch sender name c =
     (let m = cl_signed c; refused = image_refused k (sm_image m); (man, file_refused) = resolve_manifest (sm_manifest m)
      in \<lparr>ms_channel = ch, ms_sender = sender, ms_name = name, ms_content = sm_content m, ms_ts = sm_timestamp m,
          ms_id = sm_id m, ms_reply = sm_reply_to m, ms_last_seen = sm_last_seen m, ms_received = now,
          ms_image = (if refused then None else sm_image m),
          ms_sig = (if refused \<or> file_refused then None else sig_of (cl_sig c)),
          ms_image_stripped = refused, ms_manifest = man, ms_file_stripped = file_refused\<rparr>)"

text \<open>The tables the handlers work on.\<close>

record message_db =
  db_store :: store
  db_rows :: "message_row list"
  db_keys :: keys
  db_friends :: friends

definition insert_chat_message ::
    "outside \<Rightarrow> secs \<Rightarrow> hexid \<Rightarrow> hexid \<Rightarrow> bool \<Rightarrow> claimed \<Rightarrow> message_db \<Rightarrow> message_db \<times> bool" where
  "insert_chat_message k now ch sender require_sig c db =
     (let (keys, verified) = (if require_sig
             then verify_message (ot_rns k) (ot_sha k) (ot_repr k) now sender (cl_sig c) ch (cl_signed c) (db_keys db)
             else (db_keys db, Some True));
          db = db\<lparr>db_keys := keys\<rparr>
      in if verified \<noteq> Some True \<or> cl_unhashable c then (db, False)
         else case cl_name c of
                None \<Rightarrow> (db, False)
              | Some name \<Rightarrow>
                  (case insert_message (st_channels (db_store db)) (stored_row k now ch sender name c) (db_rows db) of
                     (rows, False) \<Rightarrow> (db, False)
                   | (rows, True) \<Rightarrow>
                       (db\<lparr>db_rows := rows, db_store := touch_channel now ch (db_store db)\<rparr>, True)))"

section \<open>Channel messages\<close>

text \<open>A delivered message: its fields, the content, LXMF's timestamp, whether the router unwrapped our
  envelope, and the destination it came from.\<close>

record lxm =
  lx_fields :: fields
  lx_content :: bytes
  lx_timestamp :: pyval
  lx_ours :: bool
  lx_source :: bytes

definition lx_sender :: "outside \<Rightarrow> lxm \<Rightarrow> hexid" where
  "lx_sender k l =
     (case (if lx_source l \<noteq> [] then rn_recall (ot_rns k) (lx_source l) else None) of
        Some peer \<Rightarrow> to_hex (pe_hash peer)
      | None \<Rightarrow> to_hex (lx_source l))"

definition content_text :: "outside \<Rightarrow> lxm \<Rightarrow> string" where
  "content_text k l = (if lx_content l = [] then [] else ot_decode k (lx_content l))"

text \<open>What the column \<^verbatim>\<open>sender_name\<close> takes: \<open>None\<close> where the statement fails, on NULL or a container.\<close>

definition name_column :: "outside \<Rightarrow> pyval \<Rightarrow> string option" where
  "name_column k v =
     (case v of
        PBytes b \<Rightarrow> Some (ot_decode k b)
      | PStr t \<Rightarrow> Some t
      | PNone \<Rightarrow> None
      | PFloat NotANumber \<Rightarrow> None
      | _ \<Rightarrow> if bind_error v = None then Some (ot_str k v) else None)"

text \<open>The image as it is hashed and stored; \<open>None\<close> where hashing it raises.\<close>

definition image_value :: "pyval \<Rightarrow> bytes option option" where
  "image_value v =
     (if \<not> truthy v then Some None
      else case v of PBytes b \<Rightarrow> Some (Some b) | PStr t \<Rightarrow> Some (Some (utf8 t)) | _ \<Rightarrow> None)"

definition some_text :: "string \<Rightarrow> string option" where
  "some_text t = (if t = [] then None else Some t)"

text \<open>\<^verbatim>\<open>_store_chat_message\<close> up to the insertion: what a channel message claims to be; \<open>None\<close> for one
  that is dropped here, or raises.\<close>

definition claimed_of :: "outside \<Rightarrow> secs \<Rightarrow> hexid \<Rightarrow> lxm \<Rightarrow> claimed option" where
  "claimed_of k now sender l =
     (let fs = lx_fields l; id_of = (\<lambda>f. message_id_from_wire (ot_decode k) (field_get fs f));
          content = content_text k l; img = image_value (field_get fs F_IMAGE_DATA)
      in case wire_timestamp (ot_parse_float k) (field_get fs F_TIMESTAMP) now of
           Inr (Some ts) \<Rightarrow>
             (let expected = compute_message_id (ot_sha k) content sender ts; mid = id_of F_MESSAGE_ID
              in if mid \<noteq> [] \<and> mid \<noteq> expected then None
                 else Some \<lparr>cl_name = name_column k (get_or (PStr []) fs (PInt F_DISPLAY_NAME)),
                   cl_signed = \<lparr>sm_id = expected, sm_timestamp = ts, sm_content = content,
                     sm_reply_to = some_text (id_of F_REPLY_TO), sm_last_seen = some_text (id_of F_LAST_SEEN_ID),
                     sm_image = or_else None img, sm_manifest = inbound_manifest (ot_decode k) fs\<rparr>,
                   cl_sig = field_get fs F_AUTHOR_SIG, cl_unhashable = (img = None)\<rparr>)
         | _ \<Rightarrow> None)"

text \<open>Who may send into a channel, by the stored permissions.\<close>

definition may_send :: "store \<Rightarrow> hexid \<Rightarrow> hexid \<Rightarrow> fields \<Rightarrow> py_error + bool" where
  "may_send s ch sender fs =
     (if \<not> is_subscribed s ch then Inr False
      else case get_channel s ch of
             None \<Rightarrow> Inr False
           | Some r \<Rightarrow>
               ebind (permissions_from_json (or_else None (cr_permissions r))) (\<lambda>perms.
                 if is_open_join perms then Inr True
                 else if \<not> is_member s ch sender then Inr False
                 else ebind (role_may s ch sender SEND_MESSAGE) (\<lambda>may.
                   if \<not> may then Inr False
                   else if carries_manifest fs then role_may s ch sender SHARE_FILES
                   else Inr True)))"

definition on_channel_message :: "outside \<Rightarrow> secs \<Rightarrow> hexid \<Rightarrow> hexid \<Rightarrow> lxm \<Rightarrow> message_db \<Rightarrow> message_db" where
  "on_channel_message k now ch sender l db =
     (case may_send (db_store db) ch sender (lx_fields l) of
        Inr True \<Rightarrow>
          (case claimed_of k now sender l of
             None \<Rightarrow> db
           | Some c \<Rightarrow> fst (insert_chat_message k now ch sender True c db))
      | _ \<Rightarrow> db)"

section \<open>Direct messages\<close>

text \<open>\<^verbatim>\<open>_text\<close>.\<close>

definition text_value :: "outside \<Rightarrow> pyval \<Rightarrow> string" where
  "text_value k v = (case v of PBytes b \<Rightarrow> ot_decode k b | PStr t \<Rightarrow> t | _ \<Rightarrow> [])"

definition env_get :: "fields \<Rightarrow> string \<Rightarrow> pyval" where
  "env_get env key = get_or PNone env (PStr key)"

definition dm_values_from_envelope ::
    "outside \<Rightarrow> secs \<Rightarrow> fields \<Rightarrow> string \<Rightarrow> hexid \<Rightarrow> bytes option \<Rightarrow> claimed option" where
  "dm_values_from_envelope k now env content sender img =
     (case wire_timestamp (ot_parse_float k) (env_get env ''timestamp'') now of
        Inr (Some ts) \<Rightarrow>
          (let mid = text_value k (env_get env ''message_id''); expected = compute_message_id (ot_sha k) content sender ts
           in if mid \<noteq> [] \<and> mid \<noteq> expected then None
              else Some \<lparr>cl_name = Some (text_value k (env_get env ''display_name'')),
                cl_signed = \<lparr>sm_id = expected, sm_timestamp = ts, sm_content = content,
                  sm_reply_to = some_text (text_value k (env_get env ''reply_to'')),
                  sm_last_seen = some_text (text_value k (env_get env ''last_seen_id'')),
                  sm_image = img, sm_manifest = None\<rparr>,
                cl_sig = env_get env ''author_sig'', cl_unhashable = False\<rparr>)
      | _ \<Rightarrow> None)"

text \<open>\<^verbatim>\<open>_dm_values_from_plain\<close> and \<^verbatim>\<open>store_held_message\<close> both derive everything from words and a time.\<close>

definition plain_claim :: "outside \<Rightarrow> string \<Rightarrow> hexid \<Rightarrow> secs \<Rightarrow> bytes option \<Rightarrow> claimed" where
  "plain_claim k content sender ts img =
     \<lparr>cl_name = Some [],
      cl_signed = \<lparr>sm_id = compute_message_id (ot_sha k) content sender ts, sm_timestamp = ts, sm_content = content,
        sm_reply_to = None, sm_last_seen = None, sm_image = img, sm_manifest = None\<rparr>,
      cl_sig = PNone, cl_unhashable = False\<rparr>"

definition dm_values_from_plain ::
    "outside \<Rightarrow> secs \<Rightarrow> lxm \<Rightarrow> string \<Rightarrow> hexid \<Rightarrow> bytes option \<Rightarrow> claimed option" where
  "dm_values_from_plain k now l content sender img =
     (case wire_timestamp (ot_parse_float k) (lx_timestamp l) now of
        Inl e \<Rightarrow> None
      | Inr ts \<Rightarrow> Some (plain_claim k content sender (if ts = None \<or> ts = Some 0 then now else the ts) img))"

definition store_held_message :: "outside \<Rightarrow> secs \<Rightarrow> hexid \<Rightarrow> hexid \<Rightarrow> string \<Rightarrow> secs \<Rightarrow> message_db \<Rightarrow> message_db" where
  "store_held_message k now conversation sender content ts db =
     fst (insert_chat_message k now conversation sender False (plain_claim k content sender ts None) db)"

definition hold_request :: "outside \<Rightarrow> world \<Rightarrow> hexid \<Rightarrow> string \<Rightarrow> fields option \<Rightarrow> lxm \<Rightarrow> message_db \<Rightarrow> message_db" where
  "hold_request k w sender content envelope l db =
     (let ts = (\<lambda>v. wire_timestamp (ot_parse_float k) v (w_now w))
      in case ebind (case envelope of None \<Rightarrow> Inr None | Some env \<Rightarrow> ts (env_get env ''timestamp''))
                (\<lambda>sent. if sent = None then ts (lx_timestamp l) else Inr sent) of
           Inl e \<Rightarrow> db
         | Inr sent \<Rightarrow>
             db\<lparr>db_friends := fst (hold_message_request w sender content (envelope \<noteq> None) sent (db_friends db))\<rparr>)"

text \<open>\<^verbatim>\<open>DirectMessageManager.open_conversation\<close> with both rows that \<^verbatim>\<open>create_dm_conversation\<close> writes.\<close>

definition open_direct :: "world \<Rightarrow> hexid \<Rightarrow> message_db \<Rightarrow> message_db \<times> hexid option" where
  "open_direct w peer db =
     (let s = db_friends db;
          (convs, c) = open_conversation (w_sha w) (w_width w) (fm_self s) (is_friend s) (w_now w) peer (fm_convs s)
      in (case c of
            None \<Rightarrow> db
          | Some h \<Rightarrow> db\<lparr>db_friends := s\<lparr>fm_convs := convs\<rparr>,
                        db_store := add_dm_channel (w_now w) h peer (db_store db)\<rparr>, c))"

definition note_peer :: "world \<Rightarrow> hexid \<Rightarrow> message_db \<Rightarrow> message_db" where
  "note_peer w peer db =
     (let s = db_friends db
      in db\<lparr>db_friends := s\<lparr>fm_convs := note_trenchchat_peer (w_sha w) (w_width w) (fm_self s) peer (fm_convs s)\<rparr>\<rparr>)"

definition on_direct_message :: "outside \<Rightarrow> world \<Rightarrow> hexid \<Rightarrow> lxm \<Rightarrow> message_db \<Rightarrow> message_db" where
  "on_direct_message k w sender l db =
     (let now = w_now w; content = content_text k l; s = db_friends db;
          envelope = unpack_dm_envelope (ot_decode k) (ot_unpackb k) (ot_custom_type k) (ot_custom_data k) (lx_fields l);
          img = inbound_image (ot_image_field k) (lx_fields l)
      in if \<not> may_dm (fm_self s) (is_friend s) sender then hold_request k w sender content envelope l db
         else case open_direct w sender db of
                (db, None) \<Rightarrow> db
              | (db, Some conversation) \<Rightarrow>
                  (case envelope of
                     Some env \<Rightarrow>
                       (let db = note_peer w sender db
                        in case dm_values_from_envelope k now env content sender img of
                             None \<Rightarrow> db
                           | Some c \<Rightarrow> fst (insert_chat_message k now conversation sender True c db))
                   | None \<Rightarrow>
                       (case dm_values_from_plain k now l content sender img of
                          None \<Rightarrow> db
                        | Some c \<Rightarrow> fst (insert_chat_message k now conversation sender False c db))))"

section \<open>Delivery\<close>

text \<open>\<open>wired\<close> says whether a direct message manager is attached.\<close>

definition on_chat_message :: "outside \<Rightarrow> world \<Rightarrow> bool \<Rightarrow> lxm \<Rightarrow> message_db \<Rightarrow> message_db" where
  "on_chat_message k w wired l db =
     (let fs = lx_fields l; sender = lx_sender k l;
          channel = (if lx_ours l then field_get fs F_CHANNEL_HASH else PNone)
      in if PInt F_MSG_TYPE \<in> fst ` set fs then db
         else if \<not> truthy channel then (if wired then on_direct_message k w sender l db else db)
         else on_channel_message k (w_now w)
                (case channel of PBytes b \<Rightarrow> to_hex b | PStr t \<Rightarrow> t | _ \<Rightarrow> ot_str k channel) sender l db)"

definition delete_dm_conversation :: "hexid \<Rightarrow> message_db \<Rightarrow> message_db" where
  "delete_dm_conversation h db =
     db\<lparr>db_rows := delete_where (\<lambda>r. ms_channel r = h) (db_rows db),
        db_friends := (db_friends db)\<lparr>fm_convs := delete_where (\<lambda>c. cv_hash c = h) (fm_convs (db_friends db))\<rparr>,
        db_store := delete_dm_channel h (db_store db)\<rparr>"

definition delete_conversation :: "hexid \<Rightarrow> message_db \<Rightarrow> message_db \<times> bool" where
  "delete_conversation h db =
     (if \<not> is_dm (fm_convs (db_friends db)) h then (db, False) else (delete_dm_conversation h db, True))"

end
