(* ===== verification/Message_Safety.thy ===== *)
theory Message_Safety
  imports Messages
begin

text \<open>
  What deliveries do to the message table: every row's id is the hash of its own content, every
  signature kept verifies for the row as it is stored, and no message is stored that its sender was
  not allowed to put there. \<open>Message_History\<close> adds the other writers of the table.
\<close>

section \<open>One insertion\<close>

text \<open>The message that a row claims to be, read back from its columns.\<close>

definition row_message :: "message_row \<Rightarrow> signed_message" where
  "row_message r = \<lparr>sm_id = ms_id r, sm_timestamp = ms_ts r, sm_content = ms_content r, sm_reply_to = ms_reply r,
     sm_last_seen = ms_last_seen r, sm_image = ms_image r, sm_manifest = ms_manifest r\<rparr>"

definition written :: "outside \<Rightarrow> hexid \<Rightarrow> hexid \<Rightarrow> bytes \<Rightarrow> signed_message \<Rightarrow> bool" where
  "written k ch sender sig m =
     (\<exists>peer key digest. author_digest (ot_sha k) (ot_repr k) ch m = Some digest
        \<and> rn_validate (ot_rns k) peer sig digest = Some True
        \<and> pe_key peer = Some key \<and> rn_key_hash (ot_rns k) key = Some (pe_hash peer)
        \<and> fromhex sender = Some (pe_hash peer))"

definition row_ok :: "outside \<Rightarrow> message_row \<Rightarrow> bool" where
  "row_ok k r \<longleftrightarrow>
     ms_id r = compute_message_id (ot_sha k) (ms_content r) (ms_sender r) (ms_ts r)
     \<and> (\<forall>sig. ms_sig r = Some sig \<longrightarrow> written k (ms_channel r) (ms_sender r) sig (row_message r))
     \<and> \<not> image_refused k (ms_image r)
     \<and> (\<forall>m. ms_manifest r = Some m \<longrightarrow> file_manifest (man_name m) (man_size m) (man_hash m) (man_root m) = Some m)"

definition rns_honest :: "rns \<Rightarrow> bool" where
  "rns_honest n \<longleftrightarrow>
     (\<forall>d p. rn_recall n d = Some p \<longrightarrow>
        (\<exists>k. pe_key p = Some k \<and> rn_key_hash n k = Some (pe_hash p)) \<and> rn_delivery n (pe_hash p) = Some d)
     \<and> inj_on (rn_delivery n) {h. rn_delivery n h \<noteq> None}"

lemma file_manifest_same:
  "file_manifest (man_name m) (man_size m) (man_hash m) (man_root m) = Some m' \<Longrightarrow> m' = m"
  by (auto simp: file_manifest_def split: pyval.splits option.splits if_splits)

lemma verified_written:
  assumes ks: "keys_ok (ot_rns k) ks" and n: "rns_honest (ot_rns k)"
    and v: "snd (verify_message (ot_rns k) (ot_sha k) (ot_repr k) now sender signature ch m ks) = Some True"
  shows "\<exists>sig. signature = PBytes sig \<and> written k ch sender sig m"
proof -
  obtain sig where sig: "signature = PBytes sig" "sig \<noteq> []"
    using v by (auto simp: verify_message_def split: pyval.splits if_splits)
  then obtain peer digest where p: "snd (resolve_author (ot_rns k) now sender ks) = Some peer"
      "author_digest (ot_sha k) (ot_repr k) ch m = Some digest" "rn_validate (ot_rns k) peer sig digest = Some True"
    using v by (auto simp: verify_message_def split: prod.splits option.splits)
  have h: "\<forall>d p. rn_recall (ot_rns k) d = Some p \<longrightarrow>
        (\<exists>k'. pe_key p = Some k' \<and> rn_key_hash (ot_rns k) k' = Some (pe_hash p)) \<and> rn_delivery (ot_rns k) (pe_hash p) = Some d"
    and i: "inj_on (rn_delivery (ot_rns k)) {h. rn_delivery (ot_rns k) h \<noteq> None}"
    using n unfolding rns_honest_def by blast+
  show ?thesis using resolved_peer [OF ks p(1) h i] p sig by (auto simp: written_def)
qed

lemma verify_keys: "fst (verify_message n sha repr now sender signature ch m ks) \<in> {ks, fst (resolve_author n now sender ks)}"
  by (auto simp: verify_message_def split: pyval.splits option.splits prod.splits)

text \<open>An insertion adds one row, of the claimed message, or none.\<close>

lemma insert_chat_cases:
  obtains (refused) "\<not> snd (insert_chat_message k now ch sender req c db)"
      "db_rows (fst (insert_chat_message k now ch sender req c db)) = db_rows db"
  | (stored) name where "snd (insert_chat_message k now ch sender req c db)" "cl_name c = Some name"
      "\<not> cl_unhashable c"
      "db_rows (fst (insert_chat_message k now ch sender req c db)) = db_rows db @ [stored_row k now ch sender name c]"
      "has_key cr_hash (st_channels (db_store db)) ch" "\<not> has_key ms_id (db_rows db) (sm_id (cl_signed c))"
      "req \<Longrightarrow> snd (verify_message (ot_rns k) (ot_sha k) (ot_repr k) now sender (cl_sig c) ch (cl_signed c)
          (db_keys db)) = Some True"
proof -
  have sr: "ms_channel (stored_row k now ch sender name c) = ch"
    "ms_id (stored_row k now ch sender name c) = sm_id (cl_signed c)" for name
    by (simp_all add: stored_row_def Let_def split: prod.splits)
  show ?thesis
    by (cases "snd (insert_chat_message k now ch sender req c db)")
       (rule stored [of "the (cl_name c)"] refused;
        auto simp: insert_chat_message_def insert_message_def sr Let_def split: prod.splits if_splits option.splits)+
qed

lemma resolved_manifest: "resolve_manifest m = (man, stripped) \<Longrightarrow>
   (stripped \<and> man = None \<or> \<not> stripped \<and> man = m)
   \<and> (\<forall>x. man = Some x \<longrightarrow> file_manifest (man_name x) (man_size x) (man_hash x) (man_root x) = Some x)"
  using file_manifest_same by (auto simp: resolve_manifest_def split: option.splits) metis

text \<open>A claim that may be stored: its id is right, and it was verified or carries no signature.\<close>

definition claim_ok :: "outside \<Rightarrow> hexid \<Rightarrow> hexid \<Rightarrow> claimed \<Rightarrow> bool" where
  "claim_ok k ch sender c \<longleftrightarrow>
     sm_id (cl_signed c) = compute_message_id (ot_sha k) (sm_content (cl_signed c)) sender (sm_timestamp (cl_signed c))
     \<and> (\<forall>sig. cl_sig c = PBytes sig \<longrightarrow> written k ch sender sig (cl_signed c))"

lemma stored_row_ok:
  assumes c: "claim_ok k ch sender c"
  shows "row_ok k (stored_row k now ch sender name c)"
proof -
  obtain man stripped where r: "resolve_manifest (sm_manifest (cl_signed c)) = (man, stripped)" by force
  let ?r = "stored_row k now ch sender name c"
  have "row_message ?r = cl_signed c" if "\<not> image_refused k (sm_image (cl_signed c))" "\<not> stripped"
    using that resolved_manifest [OF r] r by (simp add: row_message_def stored_row_def Let_def)
  then have "written k ch sender sig (row_message ?r)" if "ms_sig ?r = Some sig" for sig
    using that c r by (auto simp: stored_row_def Let_def claim_ok_def split: if_splits pyval.splits)
  then show ?thesis using c resolved_manifest [OF r] r
    by (auto simp: claim_ok_def row_ok_def stored_row_def Let_def image_refused_def)
qed

definition db_ok :: "outside \<Rightarrow> message_db \<Rightarrow> bool" where
  "db_ok k db \<longleftrightarrow> unique_key ms_id (db_rows db) \<and> list_all (row_ok k) (db_rows db) \<and> keys_ok (ot_rns k) (db_keys db)"

lemma db_ok_insert:
  assumes db: "db_ok k db" and n: "rns_honest (ot_rns k)"
    and c: "sm_id (cl_signed c) = compute_message_id (ot_sha k) (sm_content (cl_signed c)) sender (sm_timestamp (cl_signed c))"
    and q: "req \<or> cl_sig c = PNone"
  shows "db_ok k (fst (insert_chat_message k now ch sender req c db))"
proof -
  let ?db = "fst (insert_chat_message k now ch sender req c db)"
  have "db_keys ?db = (if req then fst (verify_message (ot_rns k) (ot_sha k) (ot_repr k) now sender (cl_sig c) ch
      (cl_signed c) (db_keys db)) else db_keys db)"
    by (simp add: insert_chat_message_def Let_def split: prod.split option.split bool.split)
  then have "db_keys ?db \<in> {db_keys db, fst (resolve_author (ot_rns k) now sender (db_keys db))}"
    using verify_keys [of "ot_rns k" "ot_sha k" "ot_repr k" now sender "cl_sig c" ch "cl_signed c" "db_keys db"]
    by (simp split: if_splits)
  then have keys: "keys_ok (ot_rns k) (db_keys ?db)"
    using db keys_ok_resolve by (auto simp: db_ok_def)
  show ?thesis
  proof (cases rule: insert_chat_cases [of k now ch sender req c db])
    case refused
    then show ?thesis using db keys by (simp add: db_ok_def)
  next
    case (stored name)
    have "claim_ok k ch sender c"
    proof (cases req)
      case True
      from verified_written [OF _ n stored(7)] True db c show ?thesis by (auto simp: claim_ok_def db_ok_def)
    qed (use q c in \<open>simp add: claim_ok_def\<close>)
    moreover have "ms_id (stored_row k now ch sender name c) = sm_id (cl_signed c)"
      by (simp add: stored_row_def Let_def split: prod.splits)
    ultimately show ?thesis using stored db keys
      by (auto simp: db_ok_def unique_key_snoc has_key_iff stored_row_ok)
  qed
qed

section \<open>Histories\<close>

text \<open>Whatever the other parts of the program do to their tables lies between two events:
  \<open>Elsewhere\<close> puts any store and any contacts in place.\<close>

datatype message_event =
    Deliver world bool lxm
  | FileHeld secs hexid hexid string secs
  | ForgetConversation hexid
  | LearnKey key_event
  | Elsewhere store friends

fun message_step :: "outside \<Rightarrow> message_event \<Rightarrow> message_db \<Rightarrow> message_db" where
  "message_step k (Deliver w wired l) db = on_chat_message k w wired l db"
| "message_step k (FileHeld now conversation sender content ts) db =
     store_held_message k now conversation sender content ts db"
| "message_step k (ForgetConversation h) db = fst (delete_conversation h db)"
| "message_step k (LearnKey e) db = db\<lparr>db_keys := key_step (ot_rns k) e (db_keys db)\<rparr>"
| "message_step k (Elsewhere s f) db = db\<lparr>db_store := s, db_friends := f\<rparr>"

definition fresh_db :: "store \<Rightarrow> friends \<Rightarrow> message_db" where
  "fresh_db s f = \<lparr>db_store = s, db_rows = [], db_keys = [], db_friends = f\<rparr>"

lemma db_ok_same: "db_ok k db \<Longrightarrow> db_rows db' = db_rows db \<Longrightarrow> db_keys db' = db_keys db \<Longrightarrow> db_ok k db'"
  by (simp add: db_ok_def)

lemma open_direct_same: "open_direct w peer db = (db', c) \<Longrightarrow> db_rows db' = db_rows db \<and> db_keys db' = db_keys db"
  by (auto simp: open_direct_def Let_def split: prod.splits option.splits)

lemma note_peer_same [simp]: "db_rows (note_peer w peer db) = db_rows db" "db_keys (note_peer w peer db) = db_keys db"
  by (simp_all add: note_peer_def Let_def)

lemma hold_request_same [simp]:
  "db_rows (hold_request k w sender content env l db) = db_rows db"
  "db_keys (hold_request k w sender content env l db) = db_keys db"
  by (simp_all add: hold_request_def Let_def split: sum.splits)

text \<open>The id of a claim is computed, whichever of the three readers made it.\<close>

lemma claim_ids:
  "claimed_of k now sender l = Some c \<Longrightarrow>
     sm_id (cl_signed c) = compute_message_id (ot_sha k) (sm_content (cl_signed c)) sender (sm_timestamp (cl_signed c))"
  "dm_values_from_envelope k now env content sender img = Some c \<Longrightarrow>
     sm_id (cl_signed c) = compute_message_id (ot_sha k) (sm_content (cl_signed c)) sender (sm_timestamp (cl_signed c))"
  "dm_values_from_plain k now l content sender img = Some c \<Longrightarrow>
     sm_id (cl_signed c) = compute_message_id (ot_sha k) (sm_content (cl_signed c)) sender (sm_timestamp (cl_signed c))
     \<and> cl_sig c = PNone"
  by (auto simp: claimed_of_def dm_values_from_envelope_def dm_values_from_plain_def plain_claim_def Let_def
      split: sum.splits option.splits if_splits)

lemma db_ok_channel:
  "db_ok k db \<Longrightarrow> rns_honest (ot_rns k) \<Longrightarrow> db_ok k (on_channel_message k now ch sender l db)"
  by (auto simp: on_channel_message_def claim_ids(1) intro: db_ok_insert split: sum.splits bool.splits option.splits)

lemma db_ok_direct:
  assumes "db_ok k db" and n: "rns_honest (ot_rns k)"
  shows "db_ok k (on_direct_message k w sender l db)"
proof -
  let ?env = "unpack_dm_envelope (ot_decode k) (ot_unpackb k) (ot_custom_type k) (ot_custom_data k) (lx_fields l)"
  obtain db1 c where o: "open_direct w sender db = (db1, c)" by force
  have db1: "db_ok k db1" "db_ok k (note_peer w sender db1)"
    using db_ok_same [OF assms(1)] open_direct_same [OF o] by simp_all
  have "db_ok k (hold_request k w sender (content_text k l) ?env l db)" by (rule db_ok_same [OF assms(1)]) simp_all
  moreover have "db_ok k (fst (insert_chat_message k (w_now w) ch sender True cl (note_peer w sender db1)))"
    if "dm_values_from_envelope k (w_now w) e t sender i = Some cl" for e t i cl ch
    by (rule db_ok_insert [OF db1(2) n claim_ids(2) [OF that]]) simp
  moreover have "db_ok k (fst (insert_chat_message k (w_now w) ch sender False cl db1))"
    if "dm_values_from_plain k (w_now w) l t sender i = Some cl" for t i cl ch
    using claim_ids(3) [OF that] by (intro db_ok_insert [OF db1(1) n]) simp_all
  ultimately show ?thesis using db1
    by (auto simp: on_direct_message_def Let_def o split: option.splits)
qed

lemma db_ok_delivery:
  "db_ok k db \<Longrightarrow> rns_honest (ot_rns k) \<Longrightarrow> db_ok k (on_chat_message k w wired l db)"
  by (auto simp: on_chat_message_def Let_def intro: db_ok_channel db_ok_direct)

lemma db_ok_step:
  assumes "db_ok k db" and "rns_honest (ot_rns k)"
  shows "db_ok k (message_step k e db)"
proof (cases e)
  case (FileHeld now ch sender content ts)
  then show ?thesis using assms
    by (auto simp: store_held_message_def plain_claim_def intro!: db_ok_insert)
next
  case (ForgetConversation h)
  have "db_ok k (delete_dm_conversation h db)"
    using assms(1) by (auto simp: db_ok_def delete_dm_conversation_def unique_key_delete) (auto simp: delete_where_def list_all_iff)
  then show ?thesis using assms(1) ForgetConversation by (simp add: delete_conversation_def)
next
  case (LearnKey ke)
  then show ?thesis using assms(1) by (simp add: db_ok_def keys_ok_step)
qed (use assms db_ok_delivery in \<open>simp_all add: db_ok_def\<close>)

section \<open>Who may put a message there\<close>

lemma insert_chat_new:
  assumes "r \<in> set (db_rows (fst (insert_chat_message k now ch sender req c db)))" and "r \<notin> set (db_rows db)"
  obtains name where "r = stored_row k now ch sender name c" "has_key cr_hash (st_channels (db_store db)) ch"
    "req \<Longrightarrow> snd (verify_message (ot_rns k) (ot_sha k) (ot_repr k) now sender (cl_sig c) ch (cl_signed c)
          (db_keys db)) = Some True"
  by (cases rule: insert_chat_cases [of k now ch sender req c db]) (use assms in auto)

lemma stored_row_simps [simp]:
  "ms_channel (stored_row k now ch sender name c) = ch" "ms_sender (stored_row k now ch sender name c) = sender"
  "ms_ts (stored_row k now ch sender name c) = sm_timestamp (cl_signed c)"
  "ms_content (stored_row k now ch sender name c) = sm_content (cl_signed c)"
  by (simp_all add: stored_row_def Let_def split: prod.splits)

lemma wire_timestamp_plausible: "wire_timestamp p v now = Inr (Some ts) \<Longrightarrow> 0 \<le> ts \<and> ts \<le> now + MAX_CLOCK_SKEW_SECS"
  by (auto simp: wire_timestamp_def split: sum.splits py_error.splits pyfloat.splits if_splits)

lemma claim_times:
  "claimed_of k now sender l = Some c \<Longrightarrow> sm_timestamp (cl_signed c) \<le> now + MAX_CLOCK_SKEW_SECS"
  "dm_values_from_envelope k now env content sender img = Some c \<Longrightarrow>
     sm_timestamp (cl_signed c) \<le> now + MAX_CLOCK_SKEW_SECS"
  "dm_values_from_plain k now l content sender img = Some c \<Longrightarrow>
     sm_timestamp (cl_signed c) \<le> now + MAX_CLOCK_SKEW_SECS"
  by (auto simp: claimed_of_def dm_values_from_envelope_def dm_values_from_plain_def plain_claim_def Let_def MAX_CLOCK_SKEW_SECS_def
      split: sum.splits option.splits if_splits dest!: wire_timestamp_plausible)

lemma may_send_true:
  assumes "may_send s ch sender fs = Inr True"
  shows "is_subscribed s ch \<and> (\<exists>row perms. get_channel s ch = Some row
    \<and> permissions_from_json (or_else None (cr_permissions row)) = Inr perms
    \<and> (is_open_join perms \<or> is_member s ch sender \<and> role_may s ch sender SEND_MESSAGE = Inr True
         \<and> (carries_manifest fs \<longrightarrow> role_may s ch sender SHARE_FILES = Inr True)))"
  using assms by (auto simp: may_send_def ebind_def split: option.splits sum.splits if_splits)

lemma direct_new:
  assumes r: "r \<in> set (db_rows (on_direct_message k w sender l db))" "r \<notin> set (db_rows db)"
  shows "ms_sender r = sender \<and> ms_ts r \<le> w_now w + MAX_CLOCK_SKEW_SECS
    \<and> may_dm (fm_self (db_friends db)) (is_friend (db_friends db)) sender
    \<and> conversation_hash (w_sha w) (w_width w) (fm_self (db_friends db)) sender = Some (ms_channel r)"
proof -
  let ?s = "db_friends db"
  obtain db1 c where o: "open_direct w sender db = (db1, c)" by force
  have same: "db_rows db1 = db_rows db" using open_direct_same [OF o] by simp
  have may: "may_dm (fm_self ?s) (is_friend ?s) sender"
    using r by (auto simp: on_direct_message_def Let_def split: if_splits)
  then obtain ch where ch: "c = Some ch" using r same o
    by (cases c) (simp_all add: on_direct_message_def Let_def)
  have conv: "conversation_hash (w_sha w) (w_width w) (fm_self ?s) sender = Some ch"
    using o ch may by (auto simp: open_direct_def open_conversation_def Let_def split: prod.splits option.splits if_splits)
  from r may o ch same obtain cl req db2 where
    ins: "r \<in> set (db_rows (fst (insert_chat_message k (w_now w) ch sender req cl db2)))" "db_rows db2 = db_rows db"
    and ts: "sm_timestamp (cl_signed cl) \<le> w_now w + MAX_CLOCK_SKEW_SECS"
    by (auto simp: on_direct_message_def Let_def split: option.splits dest: claim_times)
  then obtain name where "r = stored_row k (w_now w) ch sender name cl"
    using insert_chat_new [OF ins(1)] r(2) ins(2) by metis
  then show ?thesis using ts may conv by simp
qed

text \<open>C10. A message is stored only where its sender may put one, however its fields are arranged. The
  sender is the identity behind the source that LXMF authenticated, the time is at most five
  minutes ahead, and the row is either in a channel we subscribe to, whose stored permissions let
  anyone join or whose roster lists the sender with the right to send (and to share files, where
  a file is named), with an author signature over it that verifies; or in the conversation
  derived from the sender and us, and the sender is an accepted friend.\<close>

theorem stored_means_permitted:
  assumes r: "r \<in> set (db_rows (on_chat_message k w wired l db))" "r \<notin> set (db_rows db)"
  shows "ms_sender r = lx_sender k l \<and> ms_ts r \<le> w_now w + 300
    \<and> ((\<exists>row perms sig m. lx_ours l \<and> is_subscribed (db_store db) (ms_channel r)
          \<and> get_channel (db_store db) (ms_channel r) = Some row
          \<and> permissions_from_json (or_else None (cr_permissions row)) = Inr perms
          \<and> (is_open_join perms
             \<or> is_member (db_store db) (ms_channel r) (lx_sender k l)
               \<and> role_may (db_store db) (ms_channel r) (lx_sender k l) SEND_MESSAGE = Inr True
               \<and> (carries_manifest (lx_fields l) \<longrightarrow>
                    role_may (db_store db) (ms_channel r) (lx_sender k l) SHARE_FILES = Inr True))
          \<and> snd (verify_message (ot_rns k) (ot_sha k) (ot_repr k) (w_now w) (lx_sender k l) (PBytes sig)
                   (ms_channel r) m (db_keys db)) = Some True
          \<and> sm_id m = ms_id r \<and> sm_content m = ms_content r \<and> sm_timestamp m = ms_ts r)
       \<or> wired \<and> may_dm (fm_self (db_friends db)) (is_friend (db_friends db)) (lx_sender k l)
         \<and> conversation_hash (w_sha w) (w_width w) (fm_self (db_friends db)) (lx_sender k l) = Some (ms_channel r))"
proof -
  let ?s = "lx_sender k l" and ?now = "w_now w"
  have "(\<exists>channel. lx_ours l \<and> r \<in> set (db_rows (on_channel_message k ?now channel ?s l db)))
      \<or> wired \<and> r \<in> set (db_rows (on_direct_message k w ?s l db))"
    using r by (auto simp: on_chat_message_def Let_def split: if_splits)
  then show ?thesis
  proof (elim disjE exE conjE)
    fix ch assume ours: "lx_ours l" and st: "r \<in> set (db_rows (on_channel_message k ?now ch ?s l db))"
    then obtain c where may: "may_send (db_store db) ch ?s (lx_fields l) = Inr True"
        and c: "claimed_of k ?now ?s l = Some c"
        and ins: "r \<in> set (db_rows (fst (insert_chat_message k ?now ch ?s True c db)))"
      using r(2) by (auto simp: on_channel_message_def split: sum.splits bool.splits option.splits)
    obtain name where row: "r = stored_row k ?now ch ?s name c"
        and v: "snd (verify_message (ot_rns k) (ot_sha k) (ot_repr k) ?now ?s (cl_sig c) ch (cl_signed c) (db_keys db)) = Some True"
      using insert_chat_new [OF ins r(2)] by blast
    obtain sig where "cl_sig c = PBytes sig"
      using v by (auto simp: verify_message_def split: pyval.splits)
    moreover have "ms_id r = sm_id (cl_signed c)" using row by (simp add: stored_row_def Let_def split: prod.splits)
    ultimately show ?thesis
      using ours may_send_true [OF may] v claim_times(1) [OF c] by (auto simp: row MAX_CLOCK_SKEW_SECS_def)
  next
    assume "wired" and "r \<in> set (db_rows (on_direct_message k w ?s l db))"
    then show ?thesis using direct_new [OF _ r(2)] by (simp add: MAX_CLOCK_SKEW_SECS_def)
  qed
qed

text \<open>A friend on a plain LXMF client sends one letter.\<close>

definition plain_outside :: outside where
  "plain_outside = \<lparr>ot_rns = \<lparr>rn_key_hash = Some, rn_delivery = Some, rn_recall = (\<lambda>_. None), rn_validate = (\<lambda>p s d. None)\<rparr>,
     ot_sha = (\<lambda>b. [1]), ot_repr = (\<lambda>_. []), ot_str = (\<lambda>_. []), ot_decode = map (char_of \<circ> unat),
     ot_parse_float = (\<lambda>_. None), ot_unpackb = (\<lambda>_. None), ot_open = (\<lambda>_. Unreadable),
     ot_custom_type = 251, ot_custom_data = 252, ot_image_field = 6\<rparr>"

definition plain_letter :: lxm where
  "plain_letter = \<lparr>lx_fields = [], lx_content = [65], lx_timestamp = PNone, lx_ours = False, lx_source = replicate 16 7\<rparr>"

definition friendly_db :: message_db where
  "friendly_db = fresh_db empty_store ((fresh_friends [])\<lparr>fm_hashes := {peer_hex}\<rparr>)"

theorem stored_means_permitted_witness:
  "\<exists>r. r \<in> set (db_rows (on_chat_message plain_outside still_world True plain_letter friendly_db))
    \<and> ms_sender r = peer_hex \<and> may_dm [] (is_friend (db_friends friendly_db)) peer_hex"
proof -
  have "(case db_rows (on_chat_message plain_outside still_world True plain_letter friendly_db) of [r] \<Rightarrow> True | _ \<Rightarrow> False)"
    by code_simp
  then obtain r where r: "r \<in> set (db_rows (on_chat_message plain_outside still_world True plain_letter friendly_db))"
    by (auto split: list.splits)
  have e: "r \<notin> set (db_rows friendly_db)" by (simp add: friendly_db_def fresh_db_def)
  have s: "lx_sender plain_outside plain_letter = peer_hex"
    by (simp add: lx_sender_def plain_outside_def plain_letter_def)
  have "\<not> lx_ours plain_letter" "fm_self (db_friends friendly_db) = []"
    by (simp_all add: plain_letter_def friendly_db_def fresh_db_def fresh_friends_def new_friends_def)
  then show ?thesis using stored_means_permitted [OF r e] s r by auto
qed

end
