(* ===== verification/Interop.thy ===== *)
theory Interop
  imports Protocol
begin

text \<open>
  \<^verbatim>\<open>trenchchat/core/interop.py\<close>: what a conversation's words become for a client that is not
  TrenchChat. The three regular expressions are written as scanners; none of them backtracks, as
  the characters of a name are neither of those that may follow it.
\<close>

text \<open>\<^verbatim>\<open>[a-zA-Z0-9_-]\<close>\<close>

definition word_char :: "char \<Rightarrow> bool" where
  "word_char c =
     (let n = of_char c :: nat
      in 48 \<le> n \<and> n \<le> 57 \<or> 65 \<le> n \<and> n \<le> 90 \<or> 97 \<le> n \<and> n \<le> 122 \<or> n = 95 \<or> n = 45)"

text \<open>\<^verbatim>\<open>:([a-zA-Z0-9_-]+)(?:@([0-9a-fA-F]{64}))?:\<close> after its first colon: the name, and the text after it.\<close>

definition emoji_token :: "string \<Rightarrow> (string \<times> string) option" where
  "emoji_token s =
     (let name = takeWhile word_char s; rest = dropWhile word_char s
      in if name = [] then None
         else case rest of
                [] \<Rightarrow> None
              | c # r \<Rightarrow>
                  if c = CHR '':'' then Some (name, r)
                  else if c = CHR ''@'' \<and> length (take 64 r) = 64 \<and> list_all is_hex (take 64 r)
                       \<and> take 1 (drop 64 r) = '':'' then Some (name, drop 65 r)
                  else None)"

lemma emoji_token_shorter: "emoji_token s = Some (name, rest) \<Longrightarrow> length rest \<le> length s"
  using length_dropWhile_le [of word_char s]
  by (auto simp: emoji_token_def Let_def split: if_splits list.splits)

text \<open>A token with a hash loses it; one without stays as it is.\<close>

function emoji_names_only :: "string \<Rightarrow> string" where
  "emoji_names_only [] = []"
| "emoji_names_only (c # s) =
     (if c = CHR '':''
      then case emoji_token s of
             None \<Rightarrow> c # emoji_names_only s
           | Some (name, rest) \<Rightarrow> c # name @ '':'' @ emoji_names_only rest
      else c # emoji_names_only s)"
  by pat_completeness auto
termination
  by (relation "measure length") (auto simp: less_Suc_eq_le intro: emoji_token_shorter)

text \<open>\<^verbatim>\<open>tct1:[A-Za-z0-9_-]+\<close>\<close>

definition theme_code_at :: "string \<Rightarrow> bool" where
  "theme_code_at s = (take 5 s = ''tct1:'' \<and> takeWhile word_char (drop 5 s) \<noteq> [])"

fun has_theme_code :: "string \<Rightarrow> bool" where
  "has_theme_code [] = False"
| "has_theme_code (c # s) = (theme_code_at (c # s) \<or> has_theme_code s)"

function drop_theme_codes :: "string \<Rightarrow> string" where
  "drop_theme_codes [] = []"
| "drop_theme_codes (c # s) =
     (if theme_code_at (c # s) then drop_theme_codes (dropWhile word_char (drop 4 s)) else c # drop_theme_codes s)"
  by pat_completeness auto
termination
proof (relation "measure length")
  fix c and s :: string
  have "length (dropWhile word_char (drop 4 s)) \<le> length s"
    using length_dropWhile_le [of word_char "drop 4 s"] by simp
  then show "(dropWhile word_char (drop 4 s), c # s) \<in> measure length" by simp
qed simp_all

text \<open>\<^verbatim>\<open>[ \t]{2,}\<close> becomes one space.\<close>

definition blank :: "char \<Rightarrow> bool" where
  "blank c = (c = CHR '' '' \<or> c = CHR 0x09)"

function squeeze_blanks :: "string \<Rightarrow> string" where
  "squeeze_blanks [] = []"
| "squeeze_blanks (c # s) =
     (if blank c \<and> (case s of [] \<Rightarrow> False | d # _ \<Rightarrow> blank d) then CHR '' '' # squeeze_blanks (dropWhile blank s)
      else c # squeeze_blanks s)"
  by pat_completeness auto
termination
  by (relation "measure length") (simp_all add: less_Suc_eq_le length_dropWhile_le)

definition plain_lxmf_content :: "string \<Rightarrow> string" where
  "plain_lxmf_content content =
     (if content = [] then content
      else let text = emoji_names_only content
           in if has_theme_code text then strip_by is_py_space (squeeze_blanks (drop_theme_codes text)) else text)"

definition carries_only_trenchchat_markup :: "string \<Rightarrow> bool" where
  "carries_only_trenchchat_markup content =
     (content \<noteq> [] \<and> strip_by is_py_space content \<noteq> []
      \<and> strip_by is_py_space (plain_lxmf_content content) = [])"

text \<open>The gate's answer may be an error; without a gate every peer reads TrenchChat.\<close>

definition peer_reads_trenchchat :: "(hexid \<Rightarrow> py_error + bool) option \<Rightarrow> hexid \<Rightarrow> bool" where
  "peer_reads_trenchchat gate peer =
     (case gate of None \<Rightarrow> True | Some ask \<Rightarrow> (case ask peer of Inr b \<Rightarrow> b | Inl _ \<Rightarrow> False))"

section \<open>Ordinary words pass unchanged\<close>

lemma emoji_names_only_id: "CHR '':'' \<notin> set s \<Longrightarrow> emoji_names_only s = s"
  by (induction s) auto

lemma has_theme_colon: "has_theme_code s \<Longrightarrow> CHR '':'' \<in> set s"
proof (induction s)
  case (Cons c s)
  have "CHR '':'' \<in> set (take 5 (c # s))" if "theme_code_at (c # s)" using that by (simp add: theme_code_at_def)
  then show ?case using Cons set_take_subset [of 5 "c # s"] by auto
qed simp

lemma plain_words_kept: "CHR '':'' \<notin> set s \<Longrightarrow> plain_lxmf_content s = s"
  using has_theme_colon [of s] by (auto simp: plain_lxmf_content_def emoji_names_only_id Let_def)

end
