(* ===== verification/Outbox.thy ===== *)
theory Outbox
  imports Messages Interop
begin

text \<open>
  The outbound half of \<^verbatim>\<open>trenchchat/core/messaging.py\<close>: building, sending and queueing messages, the
  state of their delivery, and what is resent when a peer can be reached. \<open>net\<close> is what sending
  rests on: msgpack, our identity's signature, LXMF taking a message or raising, whether a
  propagation node is set, presence, and the gate of \<^verbatim>\<open>interop.py\<close>. The callbacks LXMF makes later are
  operations of their own, with the values their closures captured. What is handed to the router,
  the paths asked for, and the calls to the window and the sync manager are recorded in order.
\<close>

section \<open>State\<close>

datatype delivery = PENDING | DELIVERED | FAILED | PROPAGATED

datatype send_method = Direct | Propagated

record msg_params =
  mp_channel :: hexid
  mp_content :: string
  mp_ts :: secs
  mp_id :: string
  mp_name :: string
  mp_reply :: "string option"
  mp_last_seen :: "string option"
  mp_subs :: "hexid list"
  mp_image :: "bytes option"
  mp_manifest :: "manifest option"
  mp_sig :: bytes
  mp_peer :: "hexid option"

record tracked =
  tr_channel :: hexid
  tr_recipients :: "(hexid \<times> delivery) list"
  tr_aggregate :: "delivery option"

record outbox =
  ob_db :: message_db
  ob_pending :: "(hexid \<times> msg_params list) list"
  ob_params :: "(string \<times> msg_params) list"
  ob_delivery :: "(string \<times> tracked) list"
  ob_sent :: "(hexid \<times> send_method \<times> msg_params) list"
  ob_paths :: "bytes list"
  ob_missed :: "(hexid \<times> hexid \<times> string \<times> hexid list) list"
  ob_status :: "(hexid \<times> string \<times> delivery) list"

record net =
  nt_out :: outside
  nt_self :: hexid
  nt_name :: string
  nt_packb :: "pyval \<Rightarrow> bytes"
  nt_sign :: "bytes \<Rightarrow> bytes"
  nt_sends :: "hexid \<Rightarrow> send_method \<Rightarrow> fields \<Rightarrow> bool"
  nt_node :: bool
  nt_online :: "(hexid \<Rightarrow> bool) option"
  nt_gate :: "(hexid \<Rightarrow> py_error + bool) option"
  nt_wired :: bool

definition MAX_TRACKED_DELIVERIES :: nat where "MAX_TRACKED_DELIVERIES = 200"
definition MAX_PENDING_PER_PEER :: nat where "MAX_PENDING_PER_PEER = 100"
definition MAX_PENDING_PEERS :: nat where "MAX_PENDING_PEERS = 256"

section \<open>Building\<close>

definition channel_fields :: "msg_params \<Rightarrow> fields option" where
  "channel_fields p =
     (case fromhex (mp_channel p) of
        None \<Rightarrow> None
      | Some ch \<Rightarrow> Some
          ([(PInt F_CHANNEL_HASH, PBytes ch), (PInt F_DISPLAY_NAME, PStr (mp_name p)),
            (PInt F_TIMESTAMP, PFloat (Finite (mp_ts p))), (PInt F_MESSAGE_ID, message_id_to_wire (Some (mp_id p))),
            (PInt F_REPLY_TO, message_id_to_wire (mp_reply p)), (PInt F_LAST_SEEN_ID, message_id_to_wire (mp_last_seen p))]
           @ (case mp_image p of None \<Rightarrow> [] | Some b \<Rightarrow> if b = [] then [] else [(PInt F_IMAGE_DATA, PBytes b)])
           @ (case mp_manifest p of None \<Rightarrow> [] | Some m \<Rightarrow> manifest_fields m)
           @ (if mp_sig p = [] then [] else [(PInt F_AUTHOR_SIG, PBytes (mp_sig p))])))"

definition DM_IMAGE_EXTENSION :: string where "DM_IMAGE_EXTENSION = ''jpg''"

definition dm_fields :: "net \<Rightarrow> msg_params \<Rightarrow> fields" where
  "dm_fields n p =
     [(PInt (ot_custom_type (nt_out n)), PStr DM_ENVELOPE_TYPE),
      (PInt (ot_custom_data (nt_out n)),
       PBytes (pack_dm_envelope (nt_packb n) (mp_id p) (mp_ts p) (mp_name p) (mp_reply p) (mp_last_seen p) (Some (mp_sig p))))]
     @ (case mp_image p of
          None \<Rightarrow> []
        | Some b \<Rightarrow> if b = [] then [] else [(PInt (ot_image_field (nt_out n)), PList [PStr DM_IMAGE_EXTENSION, PBytes b])])"

text \<open>\<^verbatim>\<open>_build_lxm\<close>: the fields of the LXMF message; \<open>None\<close> where building raises.\<close>

definition build_fields :: "net \<Rightarrow> msg_params \<Rightarrow> fields option" where
  "build_fields n p =
     (case mp_peer p of
        Some _ \<Rightarrow> Some (dm_fields n p)
      | None \<Rightarrow> map_option (pack_fields (nt_packb n) (ot_custom_type (nt_out n)) (ot_custom_data (nt_out n))) (channel_fields p))"

text \<open>Building and handing over; \<open>False\<close> where either raises.\<close>

definition hand_over :: "net \<Rightarrow> hexid \<Rightarrow> send_method \<Rightarrow> msg_params \<Rightarrow> outbox \<Rightarrow> outbox \<times> bool" where
  "hand_over n dest method p o' =
     (case build_fields n p of
        None \<Rightarrow> (o', False)
      | Some fs \<Rightarrow>
          if nt_sends n dest method fs then (o'\<lparr>ob_sent := ob_sent o' @ [(dest, method, p)]\<rparr>, True) else (o', False))"

section \<open>Delivery state\<close>

text \<open>The states in the order of precedence of the aggregate; \<open>None\<close> for no recipients.\<close>

definition aggregate :: "(hexid \<times> delivery) list \<Rightarrow> delivery option" where
  "aggregate recipients =
     (let states = map snd recipients
      in if states = [] then None
         else if PENDING \<in> set states then Some PENDING
         else if FAILED \<in> set states then Some FAILED
         else if PROPAGATED \<in> set states then Some PROPAGATED
         else Some DELIVERED)"

definition get_delivery_state :: "outbox \<Rightarrow> string \<Rightarrow> delivery option" where
  "get_delivery_state o' mid =
     (case map_of (ob_delivery o') mid of None \<Rightarrow> None | Some e \<Rightarrow> aggregate (tr_recipients e))"

definition tracked_entry :: "string \<Rightarrow> hexid \<Rightarrow> outbox \<Rightarrow> tracked \<times> (string \<times> tracked) list" where
  "tracked_entry mid ch o' =
     (case map_of (ob_delivery o') mid of
        Some e \<Rightarrow> (e, ob_delivery o')
      | None \<Rightarrow>
          (let e = \<lparr>tr_channel = ch, tr_recipients = [], tr_aggregate = None\<rparr>; t = ob_delivery o' @ [(mid, e)]
           in (e, drop (length t - MAX_TRACKED_DELIVERIES) t)))"

definition track_delivery :: "string \<Rightarrow> hexid \<Rightarrow> hexid \<Rightarrow> delivery \<Rightarrow> outbox \<Rightarrow> outbox" where
  "track_delivery mid ch dest state o' =
     (let (entry, table) = tracked_entry mid ch o';
          recipients = AList.update dest state (tr_recipients entry);
          new_state = aggregate recipients;
          o'' = o'\<lparr>ob_delivery := AList.update mid (entry\<lparr>tr_recipients := recipients, tr_aggregate := new_state\<rparr>) table\<rparr>
      in if new_state = tr_aggregate entry then o''
         else case new_state of None \<Rightarrow> o'' | Some s \<Rightarrow> o''\<lparr>ob_status := ob_status o'' @ [(ch, mid, s)]\<rparr>)"

definition notify_missed :: "hexid \<Rightarrow> hexid \<Rightarrow> string \<Rightarrow> hexid list \<Rightarrow> outbox \<Rightarrow> outbox" where
  "notify_missed ch peer mid subs o' = o'\<lparr>ob_missed := ob_missed o' @ [(ch, peer, mid, subs)]\<rparr>"

section \<open>Queueing\<close>

definition queue_pending :: "hexid \<Rightarrow> msg_params \<Rightarrow> outbox \<Rightarrow> outbox" where
  "queue_pending dest p o' =
     (let queue = get_or [] (ob_pending o') dest;
          queue = (if length queue \<ge> MAX_PENDING_PER_PEER then tl queue else queue) @ [p];
          pending = AList.update dest queue (ob_pending o');
          pending = (if length pending > MAX_PENDING_PEERS
                     then (let kept = filter (\<lambda>(_, q). q \<noteq> []) pending in drop (length kept - MAX_PENDING_PEERS) kept)
                     else pending)
      in o'\<lparr>ob_pending := pending\<rparr>)"

definition cancel_pending_for_channel :: "hexid \<Rightarrow> outbox \<Rightarrow> outbox" where
  "cancel_pending_for_channel ch o' =
     o'\<lparr>ob_pending := filter (\<lambda>(_, q). q \<noteq> [])
         (map (\<lambda>(dest, q). (dest, filter (\<lambda>p. mp_channel p \<noteq> ch) q)) (ob_pending o'))\<rparr>"

definition keep_params :: "msg_params \<Rightarrow> outbox \<Rightarrow> outbox" where
  "keep_params p o' =
     (let kept = AList.update (mp_id p) p (ob_params o')
      in o'\<lparr>ob_params := (if length kept > MAX_TRACKED_DELIVERIES then tl kept else kept)\<rparr>)"

text \<open>The destination of an identity, and the identity recalled for it: \<open>Inl\<close> where either raises.\<close>

definition recall_peer :: "net \<Rightarrow> hexid \<Rightarrow> unit + bytes \<times> peer_identity option" where
  "recall_peer n dest =
     (case Option.bind (fromhex dest) (rn_delivery (ot_rns (nt_out n))) of
        None \<Rightarrow> Inl ()
      | Some d \<Rightarrow> Inr (d, rn_recall (ot_rns (nt_out n)) d))"

definition request_path :: "bytes \<Rightarrow> outbox \<Rightarrow> outbox" where
  "request_path d o' = o'\<lparr>ob_paths := ob_paths o' @ [d]\<rparr>"

section \<open>Channel messages\<close>

definition send_to :: "net \<Rightarrow> msg_params \<Rightarrow> hexid \<Rightarrow> outbox \<Rightarrow> outbox" where
  "send_to n p dest o' =
     (if dest = nt_self n then o'
      else case recall_peer n dest of
             Inl _ \<Rightarrow> o'
           | Inr (d, None) \<Rightarrow>
               notify_missed (mp_channel p) dest (mp_id p) (mp_subs p)
                 (track_delivery (mp_id p) (mp_channel p) dest PENDING (queue_pending dest p (request_path d o')))
           | Inr (d, Some _) \<Rightarrow>
               (case hand_over n dest Direct p o' of
                  (o', False) \<Rightarrow> o'
                | (o', True) \<Rightarrow> track_delivery (mp_id p) (mp_channel p) dest DELIVERED o'))"

text \<open>Our own copy of what we send.\<close>

definition own_row :: "net \<Rightarrow> msg_params \<Rightarrow> message_row" where
  "own_row n p =
     \<lparr>ms_channel = mp_channel p, ms_sender = nt_self n, ms_name = nt_name n, ms_content = mp_content p, ms_ts = mp_ts p,
      ms_id = mp_id p, ms_reply = mp_reply p, ms_last_seen = mp_last_seen p, ms_received = mp_ts p,
      ms_image = mp_image p, ms_sig = Some (mp_sig p), ms_image_stripped = False, ms_manifest = mp_manifest p,
      ms_file_stripped = False\<rparr>"

definition store_own :: "net \<Rightarrow> msg_params \<Rightarrow> outbox \<Rightarrow> outbox" where
  "store_own n p o' =
     (let db = ob_db o'
      in o'\<lparr>ob_db := db\<lparr>db_rows := fst (insert_message (st_channels (db_store db)) (own_row n p) (db_rows db))\<rparr>\<rparr>)"

text \<open>The parameters of a new message; \<open>None\<close> where signing it raises.\<close>

definition new_params ::
    "net \<Rightarrow> secs \<Rightarrow> hexid \<Rightarrow> string \<Rightarrow> string option \<Rightarrow> hexid list \<Rightarrow> bytes option \<Rightarrow> manifest option \<Rightarrow> hexid option
     \<Rightarrow> message_row list \<Rightarrow> msg_params option" where
  "new_params n now ch content reply subs img man peer rows =
     (let k = nt_out n; mid = compute_message_id (ot_sha k) content (nt_self n) now; seen = get_latest_message_id rows ch
      in case sign_message (nt_sign n) (ot_sha k) (ot_repr k) ch
                \<lparr>sm_id = mid, sm_timestamp = now, sm_content = content, sm_reply_to = reply, sm_last_seen = seen,
                 sm_image = img, sm_manifest = man\<rparr> of
           None \<Rightarrow> None
         | Some sig \<Rightarrow>
             Some \<lparr>mp_channel = ch, mp_content = content, mp_ts = now, mp_id = mid, mp_name = nt_name n, mp_reply = reply,
               mp_last_seen = seen, mp_subs = subs, mp_image = img, mp_manifest = man, mp_sig = sig, mp_peer = peer\<rparr>)"

definition send_message ::
    "net \<Rightarrow> secs \<Rightarrow> hexid \<Rightarrow> string \<Rightarrow> string option \<Rightarrow> hexid list \<Rightarrow> bytes option \<Rightarrow> manifest option \<Rightarrow> outbox \<Rightarrow> outbox" where
  "send_message n now ch content reply subs img man o' =
     (if subs = [] then o'
      else case new_params n now ch content reply subs img man None (db_rows (ob_db o')) of
             None \<Rightarrow> o'
           | Some p \<Rightarrow> store_own n p (fold (send_to n p) subs (keep_params p o')))"

section \<open>Retrying\<close>

definition may_receive :: "bool \<Rightarrow> message_db \<Rightarrow> hexid \<Rightarrow> hexid \<Rightarrow> py_error + bool" where
  "may_receive wired db ch dest =
     (let s = db_friends db
      in if wired \<and> is_dm (fm_convs s) ch then Inr (may_dm (fm_self s) (is_friend s) dest)
         else case get_channel (db_store db) ch of
                None \<Rightarrow> Inr False
              | Some r \<Rightarrow>
                  ebind (permissions_from_json (or_else None (cr_permissions r))) (\<lambda>perms.
                    if is_open_join perms then Inr True else Inr (is_member (db_store db) ch dest)))"

definition flush_one :: "net \<Rightarrow> hexid \<Rightarrow> msg_params \<Rightarrow> outbox \<Rightarrow> outbox" where
  "flush_one n dest p o' =
     (case may_receive (nt_wired n) (ob_db o') (mp_channel p) dest of
        Inr True \<Rightarrow>
          (case hand_over n dest Direct p o' of
             (o', False) \<Rightarrow> o'
           | (o', True) \<Rightarrow> track_delivery (mp_id p) (mp_channel p) dest DELIVERED o')
      | _ \<Rightarrow> o')"

definition flush_outbox :: "net \<Rightarrow> hexid \<Rightarrow> outbox \<Rightarrow> outbox" where
  "flush_outbox n dest o' =
     (let queued = get_or [] (ob_pending o') dest; o'' = o'\<lparr>ob_pending := AList.delete dest (ob_pending o')\<rparr>
      in if queued = [] then o''
         else case recall_peer n dest of
                Inl _ \<Rightarrow> o''
              | Inr (_, None) \<Rightarrow> o''\<lparr>ob_pending := AList.update dest queued (ob_pending o'')\<rparr>
              | Inr (_, Some _) \<Rightarrow> fold (flush_one n dest) queued o'')"

text \<open>\<^verbatim>\<open>_on_delivery_failed\<close>, LXMF's callback for a channel message, and for whatever a flush sent.\<close>

definition on_delivery_failed :: "net \<Rightarrow> hexid \<Rightarrow> hexid \<Rightarrow> string \<Rightarrow> hexid list \<Rightarrow> outbox \<Rightarrow> outbox" where
  "on_delivery_failed n dest ch mid subs o' =
     (case map_of (ob_params o') mid of
        None \<Rightarrow> notify_missed ch dest mid subs (track_delivery mid ch dest FAILED o')
      | Some p \<Rightarrow>
          (case recall_peer n dest of
             Inl _ \<Rightarrow> o'
           | Inr (d, _) \<Rightarrow>
               (let o' = request_path d o';
                    o' = (if mid \<in> set (map mp_id (get_or [] (ob_pending o') dest)) then o' else queue_pending dest p o')
                in notify_missed ch dest mid subs (track_delivery mid ch dest PENDING o'))))"

section \<open>Direct messages\<close>

definition peer_speaks_trenchchat :: "net \<Rightarrow> world \<Rightarrow> hexid \<Rightarrow> outbox \<Rightarrow> bool" where
  "peer_speaks_trenchchat n w peer o' =
     (let s = db_friends (ob_db o')
      in nt_wired n \<and> (case conversation_hash (w_sha w) (w_width w) (fm_self s) peer of
                         None \<Rightarrow> False
                       | Some conv \<Rightarrow> dm_peer_is_trenchchat (fm_convs s) conv))"

definition peer_is_reachable :: "net \<Rightarrow> world \<Rightarrow> hexid \<Rightarrow> outbox \<Rightarrow> bool" where
  "peer_is_reachable n w peer o' =
     (let by_path = (case recall_peer n peer of Inr (_, Some _) \<Rightarrow> True | _ \<Rightarrow> False)
      in case nt_online n of
           None \<Rightarrow> by_path
         | Some online \<Rightarrow> if online peer then True else if peer_speaks_trenchchat n w peer o' then False else by_path)"

text \<open>\<^verbatim>\<open>_send_direct_lxm\<close> and \<^verbatim>\<open>_send_propagated_lxm\<close>.\<close>

definition send_direct_lxm :: "net \<Rightarrow> hexid \<Rightarrow> msg_params \<Rightarrow> outbox \<Rightarrow> outbox \<times> bool" where
  "send_direct_lxm n peer p o' =
     (case hand_over n peer Direct p o' of
        (o', False) \<Rightarrow> (o', False)
      | (o', True) \<Rightarrow> (track_delivery (mp_id p) (mp_channel p) peer DELIVERED o', True))"

definition send_propagated_lxm :: "net \<Rightarrow> hexid \<Rightarrow> msg_params \<Rightarrow> outbox \<Rightarrow> outbox \<times> bool" where
  "send_propagated_lxm n peer p o' =
     (if \<not> nt_node n then (o', False)
      else case hand_over n peer Propagated p o' of
             (o', False) \<Rightarrow> (o', False)
           | (o', True) \<Rightarrow> (track_delivery (mp_id p) (mp_channel p) peer PROPAGATED o', True))"

text \<open>\<^verbatim>\<open>_deliver_direct\<close>; the author cache may learn the peer's key on the way. A hash that has no
  destination raises before anything is queued.\<close>

definition deliver_direct :: "net \<Rightarrow> world \<Rightarrow> hexid \<Rightarrow> msg_params \<Rightarrow> bool \<Rightarrow> outbox \<Rightarrow> outbox" where
  "deliver_direct n w peer p propagate_only o' =
     (let (keys, dest_identity) = resolve_author (ot_rns (nt_out n)) (w_now w) peer (db_keys (ob_db o'));
          o' = o'\<lparr>ob_db := (ob_db o')\<lparr>db_keys := keys\<rparr>\<rparr>;
          queued = (\<lambda>o'. track_delivery (mp_id p) (mp_channel p) peer PENDING (queue_pending peer p o'))
      in case dest_identity of
           None \<Rightarrow> (case recall_peer n peer of Inl _ \<Rightarrow> o' | Inr (d, _) \<Rightarrow> queued (request_path d o'))
         | Some _ \<Rightarrow>
             (let (o', sent) = (if \<not> propagate_only \<and> peer_is_reachable n w peer o' then send_direct_lxm n peer p o' else (o', False))
              in if sent then o'
                 else let (o', sent) = send_propagated_lxm n peer p o' in if sent then o' else queued o'))"

definition send_direct ::
    "net \<Rightarrow> world \<Rightarrow> hexid \<Rightarrow> string \<Rightarrow> string option \<Rightarrow> bytes option \<Rightarrow> manifest option \<Rightarrow> outbox \<Rightarrow> outbox \<times> string option" where
  "send_direct n w peer content reply img man o' =
     (if \<not> nt_wired n \<or> man \<noteq> None then (o', None)
      else case open_direct w peer (ob_db o') of
             (db, None) \<Rightarrow> (o'\<lparr>ob_db := db\<rparr>, None)
           | (db, Some conv) \<Rightarrow>
               (let o' = o'\<lparr>ob_db := db\<rparr>; reads = peer_reads_trenchchat (nt_gate n) peer
                in if \<not> reads \<and> img = None \<and> carries_only_trenchchat_markup content then (o', None)
                   else let content = (if reads then content else plain_lxmf_content content)
                        in case new_params n (w_now w) conv content reply [peer] img None (Some peer) (db_rows db) of
                             None \<Rightarrow> (o', None)
                           | Some p \<Rightarrow> (store_own n p (deliver_direct n w peer p False (keep_params p o')), Some (mp_id p))))"

definition on_direct_failed :: "net \<Rightarrow> world \<Rightarrow> hexid \<Rightarrow> string \<Rightarrow> outbox \<Rightarrow> outbox" where
  "on_direct_failed n w peer mid o' =
     (case map_of (ob_params o') mid of
        None \<Rightarrow> o'
      | Some p \<Rightarrow> deliver_direct n w peer p True o')"

end
