(* ===== verification/Outbox_Safety.thy ===== *)
theory Outbox_Safety
  imports Outbox Message_Safety
begin

text \<open>
  The outbox over any history: the queues and tables stay within their bounds, the state shown for a
  message is the one last announced, what a flush sends its peer is entitled to, and a message sent
  is the message received.
\<close>

section \<open>Any history keeps what every step keeps\<close>

text \<open>What the operations are made of. A property of the outbox that each of these keeps is kept by all
  of them; \<open>P\<close> is such a property.\<close>

locale outbox_frame =
  fixes P :: "outbox \<Rightarrow> bool"
  assumes keeps_track: "P o' \<Longrightarrow> P (track_delivery mid ch dest state o')"
    and keeps_queue: "P o' \<Longrightarrow> P (queue_pending dest p o')"
    and keeps_cancel: "P o' \<Longrightarrow> P (cancel_pending_for_channel ch o')"
    and keeps_params: "P o' \<Longrightarrow> P (keep_params p o')"
    and keeps_pop: "P o' \<Longrightarrow> P (o'\<lparr>ob_pending := AList.delete dest (ob_pending o')\<rparr>)"
    and keeps_back: "P o' \<Longrightarrow> get_or [] (ob_pending o') dest \<noteq> [] \<Longrightarrow> P (o'\<lparr>ob_pending :=
          AList.update dest (get_or [] (ob_pending o') dest) (AList.delete dest (ob_pending o'))\<rparr>)"
    and keeps_sent: "P o' \<Longrightarrow> P (o'\<lparr>ob_sent := sent\<rparr>)"
    and keeps_paths: "P o' \<Longrightarrow> P (o'\<lparr>ob_paths := paths\<rparr>)"
    and keeps_missed: "P o' \<Longrightarrow> P (o'\<lparr>ob_missed := missed\<rparr>)"
    and keeps_db: "P o' \<Longrightarrow> P (o'\<lparr>ob_db := db\<rparr>)"
begin

lemma keeps_hand_over: "P o' \<Longrightarrow> hand_over n dest m p o' = (o'', r) \<Longrightarrow> P o''"
  by (auto simp: hand_over_def keeps_sent split: option.splits if_splits)

lemma keeps_small:
  "P o' \<Longrightarrow> P (notify_missed ch peer mid subs o')" "P o' \<Longrightarrow> P (request_path d o')" "P o' \<Longrightarrow> P (store_own n p o')"
  by (simp_all add: notify_missed_def keeps_missed request_path_def keeps_paths store_own_def keeps_db Let_def)

lemma keeps_send_to: "P o' \<Longrightarrow> P (send_to n p dest o')"
  by (auto simp: send_to_def intro!: keeps_small keeps_track keeps_queue dest: keeps_hand_over
      split: sum.splits prod.splits option.splits bool.splits)

lemma keeps_fold: "(\<And>x o'. P o' \<Longrightarrow> P (f x o')) \<Longrightarrow> P o' \<Longrightarrow> P (fold f xs o')"
  by (induction xs arbitrary: o') auto

lemma keeps_send_message: "P o' \<Longrightarrow> P (send_message n now ch content reply subs img man o')"
  by (auto simp: send_message_def intro!: keeps_small keeps_fold keeps_send_to keeps_params split: option.splits)

lemma keeps_flush_one: "P o' \<Longrightarrow> P (flush_one n dest p o')"
  by (auto simp: flush_one_def intro!: keeps_track dest: keeps_hand_over split: sum.splits prod.splits bool.splits)

lemma keeps_flush: "P o' \<Longrightarrow> P (flush_outbox n dest o')"
  using keeps_back [of o' dest]
  by (auto simp: flush_outbox_def Let_def intro!: keeps_fold keeps_flush_one keeps_pop
      split: sum.splits prod.splits option.splits)

lemma keeps_failed: "P o' \<Longrightarrow> P (on_delivery_failed n dest ch mid subs o')"
  by (auto simp: on_delivery_failed_def Let_def intro!: keeps_small keeps_track keeps_queue
      split: sum.splits prod.splits option.splits)

lemma keeps_lxm: "P o' \<Longrightarrow> send_direct_lxm n peer p o' = (o'', r) \<Longrightarrow> P o''"
    "P o' \<Longrightarrow> send_propagated_lxm n peer p o' = (o'', r) \<Longrightarrow> P o''"
  by (auto simp: send_direct_lxm_def send_propagated_lxm_def intro!: keeps_track dest: keeps_hand_over
      split: prod.splits bool.splits if_splits)

lemma keeps_deliver:
  assumes "P o'" shows "P (deliver_direct n w peer p propagate_only o')"
proof -
  obtain keys d where r: "resolve_author (ot_rns (nt_out n)) (w_now w) peer (db_keys (ob_db o')) = (keys, d)" by force
  define o1 where "o1 = o'\<lparr>ob_db := (ob_db o')\<lparr>db_keys := keys\<rparr>\<rparr>"
  have o1: "P o1" using assms by (simp add: o1_def keeps_db)
  obtain o2 s2 where s2: "(if \<not> propagate_only \<and> peer_is_reachable n w peer o1 then send_direct_lxm n peer p o1 else (o1, False)) = (o2, s2)"
    by force
  have o2: "P o2" using s2 o1 keeps_lxm(1) by (auto split: if_splits)
  obtain o3 s3 where s3: "send_propagated_lxm n peer p o2 = (o3, s3)" by force
  have o3: "P o3" using s3 o2 keeps_lxm(2) by blast
  have q: "P (track_delivery (mp_id p) (mp_channel p) peer PENDING (queue_pending peer p o4))" if "P o4" for o4
    using that by (intro keeps_track keeps_queue)
  have l: "P (case recall_peer n peer of Inl _ \<Rightarrow> o1 | Inr (d, _) \<Rightarrow>
      track_delivery (mp_id p) (mp_channel p) peer PENDING (queue_pending peer p (request_path d o1)))"
    using o1 q [OF keeps_small(2)] by (simp split: sum.split prod.split)
  show ?thesis
  proof (cases d)
    case None
    show ?thesis using l unfolding deliver_direct_def r None Let_def prod.case option.case o1_def [symmetric] .
  next
    case (Some x)
    have "P (if s2 then o2 else if s3 then o3 else track_delivery (mp_id p) (mp_channel p) peer PENDING (queue_pending peer p o3))"
      using o2 o3 q [OF o3] by simp
    then show ?thesis unfolding deliver_direct_def r Some Let_def prod.case option.case o1_def [symmetric] s2 s3 .
  qed
qed

lemma keeps_send_direct: "P o' \<Longrightarrow> P (fst (send_direct n w peer content reply img man o'))"
  by (auto simp: send_direct_def Let_def intro!: keeps_small keeps_deliver keeps_params keeps_db
      split: prod.splits option.splits)

lemma keeps_direct_failed: "P o' \<Longrightarrow> P (on_direct_failed n w peer mid o')"
  by (auto simp: on_direct_failed_def intro: keeps_deliver split: option.splits)

end

text \<open>What may happen to the outbox. LXMF's confirmations name a message, a recipient and the state
  that their closure has; \<open>Tables\<close> stands for whatever the rest of the program does to the database.\<close>

datatype outbox_event =
    SendMessage net secs hexid string "string option" "hexid list" "bytes option" "manifest option"
  | SendDirect net world hexid string "string option" "bytes option" "manifest option"
  | FlushPeer net hexid
  | DeliveryFailed net hexid hexid string "hexid list"
  | DirectFailed net world hexid string
  | Confirmed string hexid hexid delivery
  | CancelChannel hexid
  | Tables message_db

fun outbox_step :: "outbox_event \<Rightarrow> outbox \<Rightarrow> outbox" where
  "outbox_step (SendMessage n now ch content reply subs img man) o' = send_message n now ch content reply subs img man o'"
| "outbox_step (SendDirect n w peer content reply img man) o' = fst (send_direct n w peer content reply img man o')"
| "outbox_step (FlushPeer n dest) o' = flush_outbox n dest o'"
| "outbox_step (DeliveryFailed n dest ch mid subs) o' = on_delivery_failed n dest ch mid subs o'"
| "outbox_step (DirectFailed n w peer mid) o' = on_direct_failed n w peer mid o'"
| "outbox_step (Confirmed mid ch dest state) o' = track_delivery mid ch dest state o'"
| "outbox_step (CancelChannel ch) o' = cancel_pending_for_channel ch o'"
| "outbox_step (Tables db) o' = o'\<lparr>ob_db := db\<rparr>"

context outbox_frame
begin

lemma keeps_step: "P o' \<Longrightarrow> P (outbox_step e o')"
  by (cases e) (simp_all add: keeps_send_message keeps_send_direct keeps_flush keeps_failed keeps_direct_failed
      keeps_track keeps_cancel keeps_db)

end

section \<open>Bounds, and the state that is shown\<close>

definition last_status :: "(hexid \<times> string \<times> delivery) list \<Rightarrow> string \<Rightarrow> delivery option" where
  "last_status calls mid = map_of (rev (map snd calls)) mid"

definition queues_ok :: "(hexid \<times> msg_params list) list \<Rightarrow> bool" where
  "queues_ok waiting \<longleftrightarrow> distinct (map fst waiting) \<and> length waiting \<le> MAX_PENDING_PEERS
     \<and> list_all (\<lambda>(d, q). length q \<le> MAX_PENDING_PER_PEER) waiting"

definition params_ok :: "(string \<times> msg_params) list \<Rightarrow> bool" where
  "params_ok kept \<longleftrightarrow> distinct (map fst kept) \<and> length kept \<le> MAX_TRACKED_DELIVERIES"

definition tracking_ok :: "(string \<times> tracked) list \<Rightarrow> (hexid \<times> string \<times> delivery) list \<Rightarrow> bool" where
  "tracking_ok table calls \<longleftrightarrow> distinct (map fst table) \<and> length table \<le> MAX_TRACKED_DELIVERIES
     \<and> (\<forall>mid e. map_of table mid = Some e \<longrightarrow>
          tr_recipients e \<noteq> [] \<and> tr_aggregate e = aggregate (tr_recipients e) \<and> last_status calls mid = tr_aggregate e)"

definition outbox_ok :: "outbox \<Rightarrow> bool" where
  "outbox_ok o' \<longleftrightarrow> queues_ok (ob_pending o') \<and> params_ok (ob_params o') \<and> tracking_ok (ob_delivery o') (ob_status o')"

definition empty_outbox :: "message_db \<Rightarrow> outbox" where
  "empty_outbox db = \<lparr>ob_db = db, ob_pending = [], ob_params = [], ob_delivery = [], ob_sent = [], ob_paths = [],
     ob_missed = [], ob_status = []\<rparr>"

lemma map_of_drop: "distinct (map fst t) \<Longrightarrow> map_of (drop n t) k = Some v \<Longrightarrow> map_of t k = Some v"
  by (metis append_take_drop_id distinct_append map_append map_of_eq_Some_iff set_append UnCI)

lemma last_status_snoc [simp]:
  "last_status (calls @ [(c, m, s)]) mid = (if mid = m then Some s else last_status calls mid)"
  by (simp add: last_status_def)

lemma aggregate_some: "rs \<noteq> [] \<Longrightarrow> aggregate rs \<noteq> None"
  by (simp add: aggregate_def Let_def)

lemma tracked_entry_facts:
  assumes d: "distinct (map fst (ob_delivery o'))" and l: "length (ob_delivery o') \<le> MAX_TRACKED_DELIVERIES"
    and e: "tracked_entry mid ch o' = (entry, table)"
  shows "distinct (map fst table) \<and> length table \<le> MAX_TRACKED_DELIVERIES \<and> map_of table mid = Some entry
    \<and> (\<forall>m e. map_of table m = Some e \<longrightarrow> m \<noteq> mid \<longrightarrow> map_of (ob_delivery o') m = Some e)
    \<and> (map_of (ob_delivery o') mid = Some entry
       \<or> map_of (ob_delivery o') mid = None \<and> tr_recipients entry = [] \<and> tr_aggregate entry = None)"
proof (cases "map_of (ob_delivery o') mid")
  case (Some x)
  then show ?thesis using assms by (simp add: tracked_entry_def)
next
  case None
  let ?t = "ob_delivery o' @ [(mid, entry)]"
  have t: "table = drop (length ?t - MAX_TRACKED_DELIVERIES) ?t" "tr_recipients entry = []" "tr_aggregate entry = None"
    using e None by (auto simp: tracked_entry_def Let_def)
  have dt: "distinct (map fst ?t)" using d None by (auto simp: map_of_eq_None_iff)
  then have dd: "distinct (map fst table)" unfolding t(1) by (metis drop_map distinct_drop)
  have "(mid, entry) \<in> set table" using l by (simp add: t(1) MAX_TRACKED_DELIVERIES_def)
  then have m: "map_of table mid = Some entry" using dd by simp
  have "map_of (ob_delivery o') m' = Some e'" if "map_of table m' = Some e'" "m' \<noteq> mid" for m' e'
  proof -
    have "map_of ?t m' = Some e'" using that(1) unfolding t(1) by (rule map_of_drop [OF dt])
    then show ?thesis using that(2) by (simp add: map_add_def split: option.splits)
  qed
  then have q: "\<forall>m' e'. map_of table m' = Some e' \<longrightarrow> m' \<noteq> mid \<longrightarrow> map_of (ob_delivery o') m' = Some e'" by blast
  have len: "length table \<le> MAX_TRACKED_DELIVERIES" by (simp add: t(1))
  show ?thesis by (intro conjI dd len m q disjI2 None t(2,3))
qed

lemma ok_track: assumes ok: "outbox_ok o'" shows "outbox_ok (track_delivery mid ch dest state o')"
proof -
  obtain entry table where e: "tracked_entry mid ch o' = (entry, table)" by force
  have f: "distinct (map fst table)" "length table \<le> MAX_TRACKED_DELIVERIES" "map_of table mid = Some entry"
      "\<And>m e. map_of table m = Some e \<Longrightarrow> m \<noteq> mid \<Longrightarrow> map_of (ob_delivery o') m = Some e"
      "map_of (ob_delivery o') mid = Some entry
       \<or> map_of (ob_delivery o') mid = None \<and> tr_recipients entry = [] \<and> tr_aggregate entry = None"
    using tracked_entry_facts [OF _ _ e] ok unfolding outbox_ok_def tracking_ok_def by blast+
  let ?r = "AList.update dest state (tr_recipients entry)"
  have r: "?r \<noteq> []" by (metis AList.update_nonempty)
  then obtain s where s: "aggregate ?r = Some s" using aggregate_some by blast
  let ?e = "entry\<lparr>tr_recipients := ?r, tr_aggregate := Some s\<rparr>"
  let ?o = "o'\<lparr>ob_delivery := AList.update mid ?e table\<rparr>"
  have t: "track_delivery mid ch dest state o' =
      (if tr_aggregate entry = Some s then ?o else ?o\<lparr>ob_status := ob_status ?o @ [(ch, mid, s)]\<rparr>)"
    by (auto simp: track_delivery_def e s Let_def)
  have "mid \<in> fst ` set table" using f(3) by (metis dom_fst_iff option.distinct(1))
  then have len: "length (AList.update mid ?e table) \<le> MAX_TRACKED_DELIVERIES" using f(2) by (simp add: length_update_new)
  have dist: "distinct (map fst (AList.update mid ?e table))" using f(1) by (rule distinct_keys_update)
  have old: "tr_recipients e \<noteq> [] \<and> tr_aggregate e = aggregate (tr_recipients e) \<and> last_status (ob_status o') m = tr_aggregate e"
    if "map_of (ob_delivery o') m = Some e" for m e
    using ok that by (simp add: outbox_ok_def tracking_ok_def)
  have "last_status (ob_status o') mid = Some s" if "tr_aggregate entry = Some s"
    using f(5) old that by auto
  then have new: "last_status (ob_status (track_delivery mid ch dest state o')) mid = Some s" by (simp add: t)
  have rest: "last_status (ob_status (track_delivery mid ch dest state o')) m = last_status (ob_status o') m" if "m \<noteq> mid" for m
    using that by (simp add: t)
  have same: "ob_pending (track_delivery mid ch dest state o') = ob_pending o'"
    "ob_params (track_delivery mid ch dest state o') = ob_params o'"
    "ob_delivery (track_delivery mid ch dest state o') = AList.update mid ?e table"
    by (simp_all add: t)
  have "tr_recipients x \<noteq> [] \<and> tr_aggregate x = aggregate (tr_recipients x)
      \<and> last_status (ob_status (track_delivery mid ch dest state o')) m = tr_aggregate x"
    if "map_of (AList.update mid ?e table) m = Some x" for m x
  proof (cases "m = mid")
    case True
    then show ?thesis using that r s new by auto
  next
    case False
    then show ?thesis using that old [OF f(4)] rest by simp
  qed
  then show ?thesis using ok len dist unfolding outbox_ok_def tracking_ok_def same by blast
qed

lemma queues_ok_put:
  assumes "queues_ok waiting" and "length q \<le> MAX_PENDING_PER_PEER"
  shows "distinct (map fst (AList.update dest q waiting))"
    and "list_all (\<lambda>(d, q). length q \<le> MAX_PENDING_PER_PEER) (AList.update dest q waiting)"
  using assms by (auto simp: queues_ok_def intro: list_all_update)

lemma queues_ok_sub:
  assumes "distinct (map fst x)" and "list_all (\<lambda>(d, q). length q \<le> MAX_PENDING_PER_PEER) x"
  shows "queues_ok (drop (length (filter P x) - MAX_PENDING_PEERS) (filter P x))"
proof -
  have "distinct (map fst (drop n (filter P x)))" for n
    using distinct_keys_filter [OF assms(1), of P] by (metis drop_map distinct_drop)
  moreover have "list_all (\<lambda>(d, q). length q \<le> MAX_PENDING_PER_PEER) (drop n (filter P x))" for n
    using assms(2) set_drop_subset [of n "filter P x"] unfolding list_all_iff by (metis filter_is_subset subsetD)
  ultimately show ?thesis by (simp add: queues_ok_def)
qed

lemma queue_short: "queues_ok waiting \<Longrightarrow> length (get_or [] waiting dest) \<le> MAX_PENDING_PER_PEER"
  using get_or_entry_ok [of "\<lambda>(d, q). length q \<le> MAX_PENDING_PER_PEER" waiting "[]" dest]
  by (cases "get_or [] waiting dest = []") (auto simp: queues_ok_def)

lemma queued_ok: assumes "queues_ok (ob_pending o')" shows "queues_ok (ob_pending (queue_pending dest p o'))"
proof -
  let ?q = "get_or [] (ob_pending o') dest"
  let ?q' = "(if length ?q \<ge> MAX_PENDING_PER_PEER then tl ?q else ?q) @ [p]"
  have "length ?q' \<le> MAX_PENDING_PER_PEER" using queue_short [OF assms, of dest] by (auto simp: MAX_PENDING_PER_PEER_def)
  note u = queues_ok_put [OF assms this, of dest]
  show ?thesis using u queues_ok_sub [OF u] by (simp add: queue_pending_def Let_def queues_ok_def not_less)
qed

lemma cancelled_ok: assumes "queues_ok (ob_pending o')" shows "queues_ok (ob_pending (cancel_pending_for_channel ch o'))"
proof -
  let ?m = "map (\<lambda>(dest, q). (dest, filter (\<lambda>p. mp_channel p \<noteq> ch) q)) (ob_pending o')"
  have f: "map fst ?m = map fst (ob_pending o')" by (induction "ob_pending o'") auto
  have "distinct (map fst ?m)" using assms unfolding f by (simp add: queues_ok_def)
  then have "distinct (map fst (filter (\<lambda>(_, q). q \<noteq> []) ?m))" by (rule distinct_keys_filter)
  moreover have "length (filter (\<lambda>(_, q). q \<noteq> []) ?m) \<le> MAX_PENDING_PEERS"
    by (rule order.trans [OF length_filter_le]) (use assms in \<open>simp add: queues_ok_def\<close>)
  moreover have "list_all (\<lambda>(d, q). length q \<le> MAX_PENDING_PER_PEER) (filter (\<lambda>(_, q). q \<noteq> []) ?m)"
    using assms by (fastforce simp: queues_ok_def list_all_iff intro: order.trans [OF length_filter_le])
  ultimately show ?thesis unfolding queues_ok_def cancel_pending_for_channel_def by simp
qed

lemma kept_ok: assumes "params_ok (ob_params o')" shows "params_ok (ob_params (keep_params p o'))"
proof -
  let ?k = "AList.update (mp_id p) p (ob_params o')"
  have "distinct (map fst ?k)" "length ?k \<le> Suc MAX_TRACKED_DELIVERIES"
    using assms by (auto simp: params_ok_def length_update_new)
  then show ?thesis by (auto simp: params_ok_def keep_params_def Let_def map_tl distinct_tl)
qed

lemma length_delete_le: "length (AList.delete k d) \<le> length d"
  by (induction d) auto

lemma popped_ok: "queues_ok waiting \<Longrightarrow> queues_ok (AList.delete dest waiting)"
  by (auto simp: queues_ok_def list_all_delete intro: order.trans [OF length_delete_le])

lemma put_back_ok:
  assumes ok: "queues_ok waiting" and q: "get_or [] waiting dest \<noteq> []"
  shows "queues_ok (AList.update dest (get_or [] waiting dest) (AList.delete dest waiting))"
proof -
  have "dest \<in> fst ` set waiting" using q get_or_cases [of "[]" waiting dest] by force
  then have "Suc (length (AList.delete dest waiting)) = length waiting"
    using ok by (intro length_delete_present) (simp_all add: queues_ok_def)
  then have "length (AList.update dest (get_or [] waiting dest) (AList.delete dest waiting)) \<le> MAX_PENDING_PEERS"
    using ok by (simp add: queues_ok_def length_update_new)
  then show ?thesis using queues_ok_put [OF popped_ok [OF ok] queue_short [OF ok]] by (simp add: queues_ok_def)
qed

lemma same_parts [simp]:
  "ob_params (queue_pending dest p o') = ob_params o'" "ob_delivery (queue_pending dest p o') = ob_delivery o'"
  "ob_status (queue_pending dest p o') = ob_status o'" "ob_params (cancel_pending_for_channel ch o') = ob_params o'"
  "ob_delivery (cancel_pending_for_channel ch o') = ob_delivery o'" "ob_status (cancel_pending_for_channel ch o') = ob_status o'"
  "ob_pending (keep_params p o') = ob_pending o'" "ob_delivery (keep_params p o') = ob_delivery o'"
  "ob_status (keep_params p o') = ob_status o'"
  by (simp_all add: queue_pending_def cancel_pending_for_channel_def keep_params_def Let_def)

interpretation bounded: outbox_frame outbox_ok
  by unfold_locales (simp_all add: ok_track, simp_all add: outbox_ok_def queued_ok cancelled_ok kept_ok popped_ok put_back_ok)

interpretation outboxes: machine "empty_outbox db" outbox_step outbox_ok for db
  by unfold_locales
     (simp add: outbox_ok_def empty_outbox_def queues_ok_def params_ok_def tracking_ok_def, rule bounded.keeps_step)

text \<open>C40. Whatever is sent, confirmed, refused, retried or cancelled, the outbox stays within its bounds: at
  most 256 peers are queued for, with at most 100 messages each, and 200 messages are kept for
  retries and 200 tracked. And the window is never out of step: for each tracked message, the
  state that is reported is the worst of its recipients' and is the one last announced for it.\<close>

theorem outbox_bounded_and_announced:
  "let o' = fold outbox_step es (empty_outbox db)
   in distinct (map fst (ob_pending o')) \<and> length (ob_pending o') \<le> 256
      \<and> list_all (\<lambda>(dest, queue). length queue \<le> 100) (ob_pending o')
      \<and> length (ob_params o') \<le> 200 \<and> length (ob_delivery o') \<le> 200
      \<and> list_all (\<lambda>(mid, e). get_delivery_state o' mid = aggregate (tr_recipients e)
           \<and> get_delivery_state o' mid \<noteq> None \<and> last_status (ob_status o') mid = get_delivery_state o' mid) (ob_delivery o')"
proof -
  define o1 where "o1 = fold outbox_step es (empty_outbox db)"
  have ok: "queues_ok (ob_pending o1)" "params_ok (ob_params o1)" "tracking_ok (ob_delivery o1) (ob_status o1)"
    using outboxes.inv_run [of es db] by (simp_all add: outbox_ok_def o1_def)
  have "get_delivery_state o1 mid = aggregate (tr_recipients e) \<and> get_delivery_state o1 mid \<noteq> None
      \<and> last_status (ob_status o1) mid = get_delivery_state o1 mid" if "(mid, e) \<in> set (ob_delivery o1)" for mid e
  proof -
    have "map_of (ob_delivery o1) mid = Some e" using that ok(3) by (simp add: tracking_ok_def)
    then show ?thesis using ok(3) aggregate_some [of "tr_recipients e"]
      unfolding get_delivery_state_def tracking_ok_def by simp
  qed
  then have d: "list_all (\<lambda>(mid, e). get_delivery_state o1 mid = aggregate (tr_recipients e)
      \<and> get_delivery_state o1 mid \<noteq> None \<and> last_status (ob_status o1) mid = get_delivery_state o1 mid) (ob_delivery o1)"
    unfolding list_all_iff by blast
  have "distinct (map fst (ob_pending o1)) \<and> length (ob_pending o1) \<le> 256
      \<and> list_all (\<lambda>(dest, queue). length queue \<le> 100) (ob_pending o1)
      \<and> length (ob_params o1) \<le> 200 \<and> length (ob_delivery o1) \<le> 200"
    using ok by (simp add: queues_ok_def params_ok_def tracking_ok_def MAX_PENDING_PEERS_def
        MAX_PENDING_PER_PEER_def MAX_TRACKED_DELIVERIES_def)
  then show ?thesis using d by (simp only: Let_def o1_def [symmetric] simp_thms)
qed

section \<open>A retry reaches only those entitled to it\<close>

text \<open>What a flush hands over, of what was queued.\<close>

definition goes_out :: "net \<Rightarrow> message_db \<Rightarrow> hexid \<Rightarrow> msg_params \<Rightarrow> bool" where
  "goes_out n db dest p \<longleftrightarrow> may_receive (nt_wired n) db (mp_channel p) dest = Inr True
     \<and> (\<exists>fs. build_fields n p = Some fs \<and> nt_sends n dest Direct fs)"

lemma track_parts [simp]:
  "ob_sent (track_delivery mid ch dest st o') = ob_sent o'" "ob_db (track_delivery mid ch dest st o') = ob_db o'"
  "ob_pending (track_delivery mid ch dest st o') = ob_pending o'"
  by (auto simp: track_delivery_def Let_def split: prod.splits option.splits)

lemma flush_one_parts:
  "ob_sent (flush_one n dest p o') = ob_sent o' @ (if goes_out n (ob_db o') dest p then [(dest, Direct, p)] else [])"
  "ob_db (flush_one n dest p o') = ob_db o'" "ob_pending (flush_one n dest p o') = ob_pending o'"
  "\<not> goes_out n (ob_db o') dest p \<Longrightarrow> flush_one n dest p o' = o'"
  by (auto simp: flush_one_def goes_out_def hand_over_def split: sum.splits bool.splits option.splits)

lemma flush_all_parts:
  "ob_sent (fold (flush_one n dest) ps o')
     = ob_sent o' @ map (\<lambda>p. (dest, Direct, p)) (filter (goes_out n (ob_db o') dest) ps)
   \<and> ob_db (fold (flush_one n dest) ps o') = ob_db o' \<and> ob_pending (fold (flush_one n dest) ps o') = ob_pending o'
   \<and> (list_all (\<lambda>p. \<not> goes_out n (ob_db o') dest p) ps \<longrightarrow> fold (flush_one n dest) ps o' = o')"
  by (induction ps arbitrary: o') (auto simp: flush_one_parts)

section \<open>A message sent is the message received\<close>

text \<open>An id that the wire does not respell: not empty, and in lower case where it is a digest.\<close>

definition plain_id :: "string \<Rightarrow> bool" where
  "plain_id m \<longleftrightarrow> m \<noteq> [] \<and> (\<forall>raw. fromhex m = Some raw \<longrightarrow> length raw = MESSAGE_ID_BYTES \<longrightarrow> to_hex raw = m)"

lemma plain_id_wire: "plain_id m \<Longrightarrow> message_id_from_wire decode (message_id_to_wire (Some m)) = m"
  by (auto simp: message_id_any plain_id_def split: option.splits)

lemma optional_id_wire:
  "(\<And>m. x = Some m \<Longrightarrow> plain_id m) \<Longrightarrow> some_text (message_id_from_wire decode (message_id_to_wire x)) = x"
  by (cases x) (auto simp: plain_id_wire some_text_def plain_id_def, simp add: message_id_to_wire_def message_id_from_wire_def)

lemma channel_field_values:
  assumes "channel_fields p = Some fs" and "mp_image p \<noteq> Some []" and "mp_sig p \<noteq> []"
  shows "get_or (PStr []) fs (PInt F_DISPLAY_NAME) = PStr (mp_name p)"
    and "field_get fs F_TIMESTAMP = PFloat (Finite (mp_ts p))"
    and "field_get fs F_MESSAGE_ID = message_id_to_wire (Some (mp_id p))"
    and "field_get fs F_REPLY_TO = message_id_to_wire (mp_reply p)"
    and "field_get fs F_LAST_SEEN_ID = message_id_to_wire (mp_last_seen p)"
    and "field_get fs F_IMAGE_DATA = opt_bytes (mp_image p)"
    and "field_get fs F_AUTHOR_SIG = PBytes (mp_sig p)"
    and "fs \<noteq> []"
    and "mp_manifest p = None \<Longrightarrow> inbound_manifest decode fs = None"
    and "mp_manifest p = Some m \<Longrightarrow> inbound_manifest decode fs =
      manifest_from_wire decode (man_name m) (man_size m) (opt_bytes (man_hash m)) (opt_bytes (man_root m))"
proof -
  obtain ch where "fromhex (mp_channel p) = Some ch" using assms(1) by (auto simp: channel_fields_def split: option.splits)
  then have fs: "fs = [(PInt F_CHANNEL_HASH, PBytes ch), (PInt F_DISPLAY_NAME, PStr (mp_name p)),
            (PInt F_TIMESTAMP, PFloat (Finite (mp_ts p))), (PInt F_MESSAGE_ID, message_id_to_wire (Some (mp_id p))),
            (PInt F_REPLY_TO, message_id_to_wire (mp_reply p)), (PInt F_LAST_SEEN_ID, message_id_to_wire (mp_last_seen p))]
           @ (case mp_image p of None \<Rightarrow> [] | Some b \<Rightarrow> [(PInt F_IMAGE_DATA, PBytes b)])
           @ (case mp_manifest p of None \<Rightarrow> [] | Some m \<Rightarrow> manifest_fields m)
           @ [(PInt F_AUTHOR_SIG, PBytes (mp_sig p))]"
    using assms by (cases "mp_image p") (simp_all add: channel_fields_def)
  show "get_or (PStr []) fs (PInt F_DISPLAY_NAME) = PStr (mp_name p)"
    "field_get fs F_TIMESTAMP = PFloat (Finite (mp_ts p))"
    "field_get fs F_MESSAGE_ID = message_id_to_wire (Some (mp_id p))"
    "field_get fs F_REPLY_TO = message_id_to_wire (mp_reply p)"
    "field_get fs F_LAST_SEEN_ID = message_id_to_wire (mp_last_seen p)" "fs \<noteq> []"
    by (simp_all add: fs field_get_def get_or_def)
  show "field_get fs F_IMAGE_DATA = opt_bytes (mp_image p)"
    by (cases "mp_image p"; cases "mp_manifest p") (simp_all add: fs field_get_def get_or_def opt_bytes_def manifest_fields_def)
  show "field_get fs F_AUTHOR_SIG = PBytes (mp_sig p)"
    by (cases "mp_image p"; cases "mp_manifest p") (simp_all add: fs field_get_def get_or_def manifest_fields_def)
  show "inbound_manifest decode fs = None" if "mp_manifest p = None"
    using that by (cases "mp_image p") (simp_all add: fs inbound_manifest_def field_get_def get_or_def manifest_from_wire_def)
  show "inbound_manifest decode fs =
      manifest_from_wire decode (man_name m) (man_size m) (opt_bytes (man_hash m)) (opt_bytes (man_root m))"
    if "mp_manifest p = Some m"
    using that by (cases "mp_image p") (simp_all add: fs inbound_manifest_def field_get_def get_or_def manifest_fields_def)
qed

lemma manifest_wire:
  assumes "file_manifest (man_name m) (man_size m) (man_hash m) (man_root m) = Some m"
  shows "manifest_from_wire decode (man_name m) (man_size m) (opt_bytes (man_hash m)) (opt_bytes (man_root m)) = Some m"
proof -
  obtain n z h r where "man_name m = PStr n" "man_size m = PInt z" "man_hash m = Some h" "man_root m = Some r"
      "length h = FILE_DIGEST_BYTES" "length r = FILE_DIGEST_BYTES"
    using assms by (auto simp: file_manifest_def split: pyval.splits option.splits if_splits)
  moreover have "m = \<lparr>man_name = man_name m, man_size = man_size m, man_hash = man_hash m, man_root = man_root m\<rparr>" by simp
  ultimately show ?thesis by (simp add: manifest_from_wire_def opt_bytes_def digest_from_wire_def)
qed

text \<open>C11. A channel message that is sent is the message that is received: read out of the fields its sender
  built, it is stored as the sender's own row but for the time of arrival, id, threading, image,
  manifest and signature included, and the signature is over the digest that the receiver
  computes. Text must decode as it was encoded, the clocks agree within five minutes, the ids
  replied to be spelled as ids are, and the image and the manifest be such as are accepted.\<close>

theorem message_crosses_the_wire:
  assumes p: "new_params n now ch content reply subs img man None rows = Some p"
    and fs: "channel_fields p = Some (lx_fields l)" and content: "lx_content l = utf8 content"
    and decode: "ot_decode k (utf8 content) = content" and sha: "ot_sha k = ot_sha (nt_out n)"
    and time: "0 \<le> now" "now \<le> now' + 300"
    and ids: "\<forall>m. reply = Some m \<or> mp_last_seen p = Some m \<longrightarrow> plain_id m"
    and image: "img \<noteq> Some []" "\<not> image_refused k img"
    and sound: "\<forall>m. man = Some m \<longrightarrow> file_manifest (man_name m) (man_size m) (man_hash m) (man_root m) = Some m"
    and sig: "mp_sig p \<noteq> []"
  shows "\<exists>c digest. claimed_of k now' (nt_self n) l = Some c \<and> cl_sig c = PBytes (mp_sig p)
    \<and> author_digest (ot_sha (nt_out n)) (ot_repr (nt_out n)) ch (cl_signed c) = Some digest \<and> mp_sig p = nt_sign n digest
    \<and> cl_name c = Some (nt_name n) \<and> \<not> cl_unhashable c
    \<and> (stored_row k now' ch (nt_self n) (nt_name n) c)\<lparr>ms_received := now\<rparr> = own_row n p"
proof -
  have pp: "mp_channel p = ch" "mp_content p = content" "mp_ts p = now" "mp_name p = nt_name n" "mp_reply p = reply"
      "mp_image p = img" "mp_manifest p = man" "mp_id p = compute_message_id (ot_sha k) content (nt_self n) now"
    using p sha by (auto simp: new_params_def Let_def split: option.splits)
  let ?m = "row_message (own_row n p)"
  have "sign_message (nt_sign n) (ot_sha (nt_out n)) (ot_repr (nt_out n)) ch ?m = Some (mp_sig p)"
    using p by (auto simp: new_params_def Let_def row_message_def own_row_def split: option.splits)
  then obtain digest where digest: "author_digest (ot_sha (nt_out n)) (ot_repr (nt_out n)) ch ?m = Some digest"
      "mp_sig p = nt_sign n digest" by (auto simp: sign_message_def)
  note v = channel_field_values [OF fs, unfolded pp(6), OF image(1) sig]
  have man: "inbound_manifest (ot_decode k) (lx_fields l) = man"
    using v(9) v(10) sound manifest_wire by (cases man) (simp_all add: pp)
  have img: "image_value (opt_bytes img) = Some img" using image(1) by (auto simp: image_value_def opt_bytes_def split: option.splits)
  have words: "content_text k l = content" using content decode by (cases content) (auto simp: content_text_def)
  have ts: "wire_timestamp (ot_parse_float k) (PFloat (Finite now)) now' = Inr (Some now)"
    using time by (simp add: wire_timestamp_def float_of_def MAX_CLOCK_SKEW_SECS_def)
  have mid: "message_id_from_wire (ot_decode k) (message_id_to_wire (Some (mp_id p))) = mp_id p"
    by (simp add: pp(8) compute_message_id_def message_id_any split: option.splits)
  have opt: "some_text (message_id_from_wire (ot_decode k) (message_id_to_wire reply)) = reply"
    "some_text (message_id_from_wire (ot_decode k) (message_id_to_wire (mp_last_seen p))) = mp_last_seen p"
    using ids by (auto intro!: optional_id_wire)
  let ?c = "\<lparr>cl_name = Some (nt_name n), cl_signed = ?m, cl_sig = PBytes (mp_sig p), cl_unhashable = False\<rparr>"
  have c: "claimed_of k now' (nt_self n) l = Some ?c"
    using mid by (simp add: claimed_of_def Let_def v pp img ts words man opt name_column_def row_message_def own_row_def)
  have "resolve_manifest man = (man, False)"
    using sound by (auto simp: resolve_manifest_def split: option.splits)
  then have "(stored_row k now' ch (nt_self n) (nt_name n) ?c)\<lparr>ms_received := now\<rparr> = own_row n p"
    using image(2) by (simp add: stored_row_def own_row_def row_message_def Let_def pp)
  then show ?thesis using c digest by (intro exI [of _ ?c] exI [of _ digest]) simp
qed

text \<open>C12. When a peer can be reached again, exactly those of its queued messages go out, in order, that it is
  entitled to at that moment and that the transport takes: of a conversation, if it is still an
  accepted friend; of a channel, if the channel's stored permissions let anyone join or its roster
  still lists the peer. A message queued before a kick is not pushed at the kicked member, and
  nothing stays queued.\<close>

theorem flush_sends_exactly:
  assumes "recall_peer n dest = Inr (d, Some peer)"
  shows "ob_sent (flush_outbox n dest o') = ob_sent o' @ map (\<lambda>p. (dest, Direct, p))
      (filter (\<lambda>p. (\<exists>fs. build_fields n p = Some fs \<and> nt_sends n dest Direct fs)
         \<and> (if nt_wired n \<and> is_dm (fm_convs (db_friends (ob_db o'))) (mp_channel p)
            then may_dm (fm_self (db_friends (ob_db o'))) (is_friend (db_friends (ob_db o'))) dest
            else \<exists>row perms. get_channel (db_store (ob_db o')) (mp_channel p) = Some row
               \<and> permissions_from_json (or_else None (cr_permissions row)) = Inr perms
               \<and> (is_open_join perms \<or> is_member (db_store (ob_db o')) (mp_channel p) dest)))
        (get_or [] (ob_pending o') dest))
    \<and> get_or [] (ob_pending (flush_outbox n dest o')) dest = []"
proof -
  let ?db = "ob_db o'"
  have may: "goes_out n ?db dest p \<longleftrightarrow> (\<exists>fs. build_fields n p = Some fs \<and> nt_sends n dest Direct fs)
         \<and> (if nt_wired n \<and> is_dm (fm_convs (db_friends ?db)) (mp_channel p)
            then may_dm (fm_self (db_friends ?db)) (is_friend (db_friends ?db)) dest
            else \<exists>row perms. get_channel (db_store ?db) (mp_channel p) = Some row
               \<and> permissions_from_json (or_else None (cr_permissions row)) = Inr perms
               \<and> (is_open_join perms \<or> is_member (db_store ?db) (mp_channel p) dest))" for p
    by (auto simp: goes_out_def may_receive_def Let_def ebind_def split: option.splits sum.splits)
  let ?o = "o'\<lparr>ob_pending := AList.delete dest (ob_pending o')\<rparr>"
  have f: "flush_outbox n dest o' = fold (flush_one n dest) (get_or [] (ob_pending o') dest) ?o"
    using assms by (simp add: flush_outbox_def Let_def)
  show ?thesis
    unfolding f may [symmetric] using flush_all_parts [of n dest "get_or [] (ob_pending o') dest" ?o] by simp
qed

text \<open>Where a flush drops messages because the peer may no longer receive them, they leave the queue but
  their delivery state does not change: a message that was shown as queued for this peer is shown
  as queued for good.\<close>

theorem dropped_message_stays_pending:
  assumes "recall_peer n dest = Inr (d, Some peer)"
    and "\<forall>p\<in>set (get_or [] (ob_pending o') dest). may_receive (nt_wired n) (ob_db o') (mp_channel p) dest \<noteq> Inr True"
  shows "flush_outbox n dest o' = o'\<lparr>ob_pending := AList.delete dest (ob_pending o')\<rparr>
    \<and> get_delivery_state (flush_outbox n dest o') mid = get_delivery_state o' mid"
proof -
  let ?o = "o'\<lparr>ob_pending := AList.delete dest (ob_pending o')\<rparr>"
  have "flush_outbox n dest o' = fold (flush_one n dest) (get_or [] (ob_pending o') dest) ?o"
    using assms(1) by (simp add: flush_outbox_def Let_def)
  also have "\<dots> = ?o"
    using flush_all_parts [of n dest "get_or [] (ob_pending o') dest" ?o] assms(2) by (simp add: list_all_iff goes_out_def)
  finally show ?thesis by (simp add: get_delivery_state_def)
qed

section \<open>Concrete runs\<close>

definition sample_net :: net where
  "sample_net = \<lparr>nt_out = plain_outside\<lparr>ot_rns := (ot_rns plain_outside)\<lparr>rn_recall := (\<lambda>d. Some \<lparr>pe_key = Some d, pe_hash = d\<rparr>)\<rparr>\<rparr>,
     nt_self = ''0b'', nt_name = ''me'', nt_packb = (\<lambda>_. []), nt_sign = (\<lambda>_. [7]), nt_sends = (\<lambda>_ _ _. True), nt_node = False,
     nt_online = None, nt_gate = None, nt_wired = True\<rparr>"

definition sample_params :: msg_params where
  "sample_params = \<lparr>mp_channel = ''0a'', mp_content = ''A'', mp_ts = 1, mp_id = ''01'', mp_name = ''me'', mp_reply = None,
     mp_last_seen = None, mp_subs = [peer_hex], mp_image = None, mp_manifest = None, mp_sig = [7], mp_peer = Some peer_hex\<rparr>"

text \<open>One message waits for the peer of a conversation: while it is a friend, and after it was removed.\<close>

definition waiting_outbox :: "bool \<Rightarrow> outbox" where
  "waiting_outbox friend =
     track_delivery ''01'' ''0a'' peer_hex PENDING
       ((empty_outbox (fresh_db empty_store ((fresh_friends [])\<lparr>fm_hashes := (if friend then {peer_hex} else {}),
           fm_convs := [\<lparr>cv_hash = ''0a'', cv_peer = peer_hex, cv_created = 0, cv_read = 0, cv_trenchchat = True\<rparr>]\<rparr>)))
         \<lparr>ob_pending := [(peer_hex, [sample_params])]\<rparr>)"

lemma waiting_outbox_parts:
  "get_or [] (ob_pending (waiting_outbox friend)) peer_hex = [sample_params]" "ob_sent (waiting_outbox friend) = []"
  "ob_db (waiting_outbox friend) = fresh_db empty_store ((fresh_friends [])\<lparr>fm_hashes := (if friend then {peer_hex} else {}),
           fm_convs := [\<lparr>cv_hash = ''0a'', cv_peer = peer_hex, cv_created = 0, cv_read = 0, cv_trenchchat = True\<rparr>]\<rparr>)"
  by (simp_all add: waiting_outbox_def empty_outbox_def get_or_def)

lemma sample_recall: "\<exists>d peer. recall_peer sample_net peer_hex = Inr (d, Some peer)"
  by (simp add: recall_peer_def sample_net_def plain_outside_def del: to_hex_simps)

theorem flush_sends_exactly_witness:
  "ob_sent (flush_outbox sample_net peer_hex (waiting_outbox True)) = [(peer_hex, Direct, sample_params)]"
proof -
  obtain d peer where "recall_peer sample_net peer_hex = Inr (d, Some peer)" using sample_recall by blast
  note f = flush_sends_exactly [OF this, of "waiting_outbox True"]
  have "peer_hex \<noteq> []" by (metis length_greater_0_conv length_to_hex length_replicate zero_less_numeral mult_pos_pos)
  then have "may_dm [] (\<lambda>h. h = peer_hex) peer_hex" using peer_hex_valid by (simp add: may_dm_def)
  moreover have "\<exists>fs. build_fields sample_net sample_params = Some fs \<and> nt_sends sample_net peer_hex Direct fs"
    by (simp add: build_fields_def sample_params_def sample_net_def)
  moreover have "nt_wired sample_net" "mp_channel sample_params = ''0a''" by (simp_all add: sample_net_def sample_params_def)
  moreover have "is_friend s = (\<lambda>h. h \<in> fm_hashes s)" for s by (simp add: fun_eq_iff is_friend_def)
  ultimately show ?thesis
    using f by (simp add: waiting_outbox_parts is_dm_def has_key_def fresh_db_def fresh_friends_def new_friends_def
        del: to_hex_simps)
qed

theorem dropped_message_stays_pending_witness:
  "get_delivery_state (flush_outbox sample_net peer_hex (waiting_outbox False)) ''01'' = Some PENDING
   \<and> get_or [] (ob_pending (flush_outbox sample_net peer_hex (waiting_outbox False))) peer_hex = []"
proof -
  obtain d peer where r: "recall_peer sample_net peer_hex = Inr (d, Some peer)" using sample_recall by blast
  have "\<forall>p\<in>set (get_or [] (ob_pending (waiting_outbox False)) peer_hex).
      may_receive (nt_wired sample_net) (ob_db (waiting_outbox False)) (mp_channel p) peer_hex \<noteq> Inr True"
    by (simp add: waiting_outbox_parts may_receive_def sample_net_def sample_params_def is_dm_def has_key_def fresh_db_def
        may_dm_def is_friend_def del: to_hex_simps)
  note f = dropped_message_stays_pending [OF r this, of "''01''"]
  have "get_delivery_state (waiting_outbox False) ''01'' = Some PENDING"
    by (simp add: waiting_outbox_def get_delivery_state_def track_delivery_def tracked_entry_def empty_outbox_def
        aggregate_def Let_def MAX_TRACKED_DELIVERIES_def del: to_hex_simps)
  then show ?thesis using conjunct2 [OF f] by (simp add: conjunct1 [OF f] del: to_hex_simps)
qed

theorem message_crosses_the_wire_witness:
  "\<exists>p l c. new_params sample_net 1 ''0a'' ''A'' None [peer_hex] None None None [] = Some p
     \<and> channel_fields p = Some (lx_fields l) \<and> claimed_of plain_outside 5 ''0b'' l = Some c
     \<and> (stored_row plain_outside 5 ''0a'' ''0b'' ''me'' c)\<lparr>ms_received := 1\<rparr> = own_row sample_net p"
proof -
  let ?m = "\<lparr>sm_id = to_hex [1], sm_timestamp = 1, sm_content = ''A'', sm_reply_to = None, sm_last_seen = None,
             sm_image = None, sm_manifest = None\<rparr>"
  have "length (fmt6 1) \<le> 20"
    by (simp add: fmt6_def round_half_even_def pad6_def dec_nat.simps)
  then have "length (utf8 (fmt6 1)) \<le> 40" using length_utf8 [of "fmt6 1"] by simp
  then have "\<exists>b. length_prefixed (author_parts (\<lambda>b. [1]) (\<lambda>_. []) [10] ?m) = Some b"
    by (intro length_prefixed_total)
      (simp add: author_parts_def or_empty_def AUTHOR_SIG_DOMAIN_def utf8_char_cases)
  then have d: "\<exists>dg. author_digest (\<lambda>b. [1]) (\<lambda>_. []) ''0a'' ?m = Some dg"
    by (auto simp: author_digest_def hex_val_def is_ascii_space_def)
  then obtain p where p: "new_params sample_net 1 ''0a'' ''A'' None [peer_hex] None None None [] = Some p"
      "mp_sig p = [7]" "mp_channel p = ''0a''" "mp_last_seen p = None"
    by (auto simp: new_params_def sample_net_def plain_outside_def compute_message_id_def get_latest_message_id_def by_time_def
        sign_message_def Let_def simp del: to_hex_simps)
  obtain fs where fs: "channel_fields p = Some fs" using p(3)
    by (simp add: channel_fields_def hex_val_def is_ascii_space_def)
  have a: "ot_decode plain_outside (utf8 ''A'') = ''A''" by code_simp
  let ?l = "\<lparr>lx_fields = fs, lx_content = utf8 ''A'', lx_timestamp = PNone, lx_ours = True, lx_source = []\<rparr>"
  have "\<exists>c digest. claimed_of plain_outside 5 (nt_self sample_net) ?l = Some c \<and> cl_sig c = PBytes (mp_sig p)
    \<and> author_digest (ot_sha (nt_out sample_net)) (ot_repr (nt_out sample_net)) ''0a'' (cl_signed c) = Some digest
    \<and> mp_sig p = nt_sign sample_net digest \<and> cl_name c = Some (nt_name sample_net) \<and> \<not> cl_unhashable c
    \<and> (stored_row plain_outside 5 ''0a'' (nt_self sample_net) (nt_name sample_net) c)\<lparr>ms_received := 1\<rparr> = own_row sample_net p"
    by (rule message_crosses_the_wire [OF p(1)])
       (simp_all add: fs p a del: utf8_simps, simp_all add: plain_outside_def sample_net_def image_refused_def utf8_char_def)
  then have "\<exists>c. claimed_of plain_outside 5 ''0b'' ?l = Some c
      \<and> (stored_row plain_outside 5 ''0a'' ''0b'' ''me'' c)\<lparr>ms_received := 1\<rparr> = own_row sample_net p"
    by (auto simp: sample_net_def)
  then show ?thesis using p(1) fs by (metis lxm.select_convs(1))
qed

end
