(* ===== verification/Control_Send.thy ===== *)
theory Control_Send
  imports Outbox
begin

text \<open>
  What every manager's \<^verbatim>\<open>_send_raw\<close> does with a control message: it goes out if the peer's identity
  is known, and is otherwise held by the manager's own \<^verbatim>\<open>ControlRetryQueue\<close> until the peer is heard of
  again. What is handed to the router and the paths asked for are recorded in order. Also here: how
  the managers read the type, the channel and the shape of ids in what they are sent.
\<close>

section \<open>Sending\<close>

record link =
  lk_retry :: "fields retry_queue"
  lk_sent :: "(hexid \<times> fields) list"
  lk_paths :: "bytes list"

definition new_link :: "secs \<Rightarrow> link" where
  "new_link ttl = \<lparr>lk_retry = new_retry_queue ttl, lk_sent = [], lk_paths = []\<rparr>"

definition envelope_of :: "net \<Rightarrow> fields \<Rightarrow> fields" where
  "envelope_of n = pack_fields (nt_packb n) (ot_custom_type (nt_out n)) (ot_custom_data (nt_out n))"

text \<open>\<open>exempt\<close> are the messages a manager does not let the queue hold.\<close>

definition send_link :: "net \<Rightarrow> secs \<Rightarrow> (fields \<Rightarrow> bool) \<Rightarrow> hexid \<Rightarrow> fields \<Rightarrow> link \<Rightarrow> link \<times> bool" where
  "send_link n now exempt dest fs l =
     (case recall_peer n dest of
        Inl _ \<Rightarrow> (l, False)
      | Inr (d, None) \<Rightarrow>
          (let l = l\<lparr>lk_paths := lk_paths l @ [d]\<rparr>
           in if exempt fs then (l, False) else (l\<lparr>lk_retry := rq_queue now dest fs (lk_retry l)\<rparr>, False))
      | Inr (d, Some _) \<Rightarrow>
          if nt_sends n dest Direct (envelope_of n fs) then (l\<lparr>lk_sent := lk_sent l @ [(dest, fs)]\<rparr>, True)
          else (l, False))"

text \<open>\<^verbatim>\<open>ControlRetryQueue.flush(dest, self._send_raw)\<close>.\<close>

definition flush_link :: "net \<Rightarrow> secs \<Rightarrow> (fields \<Rightarrow> bool) \<Rightarrow> hexid \<Rightarrow> link \<Rightarrow> link \<times> nat" where
  "flush_link n now exempt dest l =
     (let (q, waiting) = rq_take now dest (lk_retry l); l = l\<lparr>lk_retry := q\<rparr>
      in if waiting = [] then (l, 0)
         else send_all (\<lambda>dest fs l. apsnd Some (send_link n now exempt dest fs l)) dest waiting 0 l)"

section \<open>Reading a control message\<close>

text \<open>\<^verbatim>\<open>message.fields[F_MSG_TYPE]\<close> as text; \<open>None\<close> for none, or a value that equals no type.\<close>

definition control_type :: "(bytes \<Rightarrow> string) \<Rightarrow> fields \<Rightarrow> string option" where
  "control_type decode fs =
     (case field_get fs F_MSG_TYPE of
        PBytes b \<Rightarrow> Some (decode b)
      | PStr t \<Rightarrow> Some t
      | _ \<Rightarrow> None)"

text \<open>The channel as hex, \<open>None\<close> where the field is missing or empty.\<close>

definition channel_text :: "outside \<Rightarrow> fields \<Rightarrow> hexid option" where
  "channel_text k fs =
     (let v = field_get fs F_CHANNEL_HASH
      in if \<not> truthy v then None
         else Some (case v of PBytes b \<Rightarrow> to_hex b | PStr t \<Rightarrow> t | _ \<Rightarrow> ot_str k v))"

text \<open>\<^verbatim>\<open>^[0-9a-f]{n}$\<close> with \<^verbatim>\<open>re.match\<close>: \<^verbatim>\<open>$\<close> also matches before a final newline.\<close>

definition is_lower_hex :: "char \<Rightarrow> bool" where
  "is_lower_hex c = (let n = of_char c :: nat in 48 \<le> n \<and> n \<le> 57 \<or> 97 \<le> n \<and> n \<le> 102)"

definition hex_line :: "nat \<Rightarrow> string \<Rightarrow> bool" where
  "hex_line n s =
     (length (takeWhile is_lower_hex s) = n \<and> (let rest = dropWhile is_lower_hex s in rest = [] \<or> rest = [CHR 0x0A]))"

definition is_identity_hex :: "string \<Rightarrow> bool" where
  "is_identity_hex s = hex_line 32 s"

definition is_message_id :: "string \<Rightarrow> bool" where
  "is_message_id s = hex_line 64 s"

section \<open>Facts\<close>

lemma send_link_queue:
  "lk_retry (fst (send_link n now exempt dest fs l)) = lk_retry l
   \<or> lk_retry (fst (send_link n now exempt dest fs l)) = rq_queue now dest fs (lk_retry l)"
  by (auto simp: send_link_def Let_def split: sum.splits prod.splits option.splits)

lemma send_link_sent:
  "lk_sent (fst (send_link n now exempt dest fs l)) =
     lk_sent l @ (if snd (send_link n now exempt dest fs l) then [(dest, fs)] else [])"
  by (auto simp: send_link_def Let_def split: sum.splits prod.splits option.splits)

lemma rq_inv_send: "rq_inv (lk_retry l) \<Longrightarrow> rq_inv (lk_retry (fst (send_link n now exempt dest fs l)))"
  using send_link_queue [of n now exempt dest fs l] rq_inv_queue by metis

lemma hex_line_nonempty: "hex_line n s \<Longrightarrow> 0 < n \<Longrightarrow> s \<noteq> []"
  by (auto simp: hex_line_def)

lemma is_identity_hex_nonempty: "is_identity_hex s \<Longrightarrow> s \<noteq> []"
  by (auto simp: is_identity_hex_def dest: hex_line_nonempty)

end
