(* ===== verification/Subscribers.thy ===== *)
theory Subscribers
  imports Control_Send
begin

text \<open>
  \<^verbatim>\<open>trenchchat/core/subscription.py\<close> with the tables \<^verbatim>\<open>channel_subscribers\<close> and
  \<^verbatim>\<open>subscriber_list_versions\<close> of \<^verbatim>\<open>storage.py\<close>: who receives what is sent into an open channel. The owner keeps
  the list, signs each version of it and sends it to the subscribers; they take a list only from the
  owner, signed, and newer than the one they hold. The sets the manager holds are lists without
  repeats here, iterated in the order they were filled. A version counts as an integer; SQLite
  takes those of 64 bits and raises for others.
\<close>

section \<open>Tables\<close>

record subscriber_row =
  sc_channel :: hexid
  sc_id :: hexid
  sc_added :: secs

record subver_row =
  sv_channel :: hexid
  sv_version :: int
  sv_updated :: secs

definition subscriber_key :: "subscriber_row \<Rightarrow> hexid \<times> hexid" where
  "subscriber_key r = (sc_channel r, sc_id r)"

definition add_channel_subscriber :: "secs \<Rightarrow> hexid \<Rightarrow> hexid \<Rightarrow> subscriber_row list \<Rightarrow> subscriber_row list" where
  "add_channel_subscriber now ch h = insert_ignore subscriber_key \<lparr>sc_channel = ch, sc_id = h, sc_added = now\<rparr>"

definition remove_channel_subscriber :: "hexid \<Rightarrow> hexid \<Rightarrow> subscriber_row list \<Rightarrow> subscriber_row list" where
  "remove_channel_subscriber ch h = delete_where (\<lambda>r. sc_channel r = ch \<and> sc_id r = h)"

definition replace_channel_subscribers :: "secs \<Rightarrow> hexid \<Rightarrow> hexid list \<Rightarrow> subscriber_row list \<Rightarrow> subscriber_row list" where
  "replace_channel_subscribers now ch hs rows =
     delete_where (\<lambda>r. sc_channel r = ch) rows @ map (\<lambda>h. \<lparr>sc_channel = ch, sc_id = h, sc_added = now\<rparr>) hs"

definition is_channel_subscriber :: "subscriber_row list \<Rightarrow> hexid \<Rightarrow> hexid \<Rightarrow> bool" where
  "is_channel_subscriber rows ch h = (h \<noteq> [] \<and> list_ex (\<lambda>r. sc_channel r = ch \<and> sc_id r = h) rows)"

definition get_all_channel_subscribers :: "subscriber_row list \<Rightarrow> (hexid \<times> hexid list) list" where
  "get_all_channel_subscribers rows =
     foldl (\<lambda>d r. AList.update (sc_channel r) (get_or [] d (sc_channel r) @ [sc_id r]) d) [] rows"

definition get_all_subscriber_list_versions :: "subver_row list \<Rightarrow> (hexid \<times> int) list" where
  "get_all_subscriber_list_versions rows = map (\<lambda>r. (sv_channel r, sv_version r)) rows"

definition set_subscriber_list_version :: "secs \<Rightarrow> hexid \<Rightarrow> int \<Rightarrow> subver_row list \<Rightarrow> py_error + subver_row list" where
  "set_subscriber_list_version now ch version rows =
     (case bind_error (PInt version) of
        Some e \<Rightarrow> Inl e
      | None \<Rightarrow> Inr (upsert sv_channel \<lparr>sv_channel = ch, sv_version = version, sv_updated = now\<rparr>
                  (\<lambda>r. r\<lparr>sv_version := max (sv_version r) version, sv_updated := now\<rparr>) rows))"

text \<open>\<^verbatim>\<open>shares_any_channel\<close>, over the subscriptions, the members and the subscriber lists.\<close>

fun shares_through :: "store \<Rightarrow> subscriber_row list \<Rightarrow> hexid \<Rightarrow> subscription_row list \<Rightarrow> py_error + bool" where
  "shares_through s rows peer [] = Inr False"
| "shares_through s rows peer (sb # sbs) =
     (let ch = sb_channel sb
      in case get_channel s ch of
           None \<Rightarrow> shares_through s rows peer sbs
         | Some c \<Rightarrow>
             ebind (permissions_from_json (or_else None (cr_permissions c))) (\<lambda>perms.
               if is_open_join perms then
                 (if is_channel_subscriber rows ch peer \<or> cr_creator c = peer then Inr True
                  else shares_through s rows peer sbs)
               else if is_member s ch peer then Inr True
               else shares_through s rows peer sbs))"

definition shares_any_channel :: "store \<Rightarrow> subscriber_row list \<Rightarrow> hexid \<Rightarrow> py_error + bool" where
  "shares_any_channel s rows peer = (if peer = [] then Inr False else shares_through s rows peer (st_subs s))"

section \<open>The manager\<close>

record subscriptions =
  su_rows :: "subscriber_row list"
  su_vers :: "subver_row list"
  su_sets :: "(hexid \<times> hexid list) list"
  su_held :: "(hexid \<times> int) list"
  su_link :: link

definition new_subscriptions :: "subscriber_row list \<Rightarrow> subver_row list \<Rightarrow> subscriptions" where
  "new_subscriptions rows vers =
     \<lparr>su_rows = rows, su_vers = vers, su_sets = get_all_channel_subscribers rows,
      su_held = get_all_subscriber_list_versions vers, su_link = new_link QUEUE_TTL_SECS\<rparr>"

definition get_subscribers :: "subscriptions \<Rightarrow> hexid \<Rightarrow> hexid list" where
  "get_subscribers u ch = get_or [] (su_sets u) ch"

text \<open>\<^verbatim>\<open>_send_raw\<close>; nothing is exempt from the queue.\<close>

definition send_subs :: "net \<Rightarrow> secs \<Rightarrow> hexid \<Rightarrow> fields \<Rightarrow> subscriptions \<Rightarrow> subscriptions" where
  "send_subs n now dest fs u = u\<lparr>su_link := fst (send_link n now (\<lambda>_. False) dest fs (su_link u))\<rparr>"

definition flush_subs :: "net \<Rightarrow> secs \<Rightarrow> hexid \<Rightarrow> subscriptions \<Rightarrow> subscriptions" where
  "flush_subs n now dest u = u\<lparr>su_link := fst (flush_link n now (\<lambda>_. False) dest (su_link u))\<rparr>"

text \<open>\<^verbatim>\<open>_send_control\<close>; a channel hash that is not hexadecimal raises.\<close>

definition send_subs_control :: "net \<Rightarrow> secs \<Rightarrow> hexid \<Rightarrow> string \<Rightarrow> hexid \<Rightarrow> subscriptions \<Rightarrow> subscriptions" where
  "send_subs_control n now dest mt ch u =
     (case fromhex ch of
        None \<Rightarrow> u
      | Some b \<Rightarrow> send_subs n now dest [(PInt F_MSG_TYPE, PStr mt), (PInt F_CHANNEL_HASH, PBytes b)] u)"

definition join_channel :: "net \<Rightarrow> secs \<Rightarrow> hexid \<Rightarrow> hexid option \<Rightarrow> store \<times> subscriptions \<Rightarrow> store \<times> subscriptions" where
  "join_channel n now ch owner su =
     (case subscribe now ch (fst su) of
        Inl _ \<Rightarrow> su
      | Inr s \<Rightarrow> (s, case owner of
                      None \<Rightarrow> snd su
                    | Some h \<Rightarrow> if h = [] \<or> h = nt_self n then snd su
                                else send_subs_control n now h MT_SUBSCRIBE ch (snd su)))"

definition leave_channel :: "net \<Rightarrow> secs \<Rightarrow> hexid \<Rightarrow> hexid option \<Rightarrow> store \<times> subscriptions \<Rightarrow> store \<times> subscriptions" where
  "leave_channel n now ch owner su =
     (unsubscribe ch (fst su),
      case owner of
        None \<Rightarrow> snd su
      | Some h \<Rightarrow> if h = [] \<or> h = nt_self n then snd su
                  else send_subs_control n now h MT_UNSUBSCRIBE ch (snd su))"

section \<open>The owner's side\<close>

abbreviation F_SUBSCRIBER_LIST :: int where "F_SUBSCRIBER_LIST \<equiv> 0x30"
abbreviation F_SUBSCRIBER_VERSION :: int where "F_SUBSCRIBER_VERSION \<equiv> 0x31"
abbreviation F_SUBSCRIBER_SIG :: int where "F_SUBSCRIBER_SIG \<equiv> 0x32"

text \<open>What the owner signs; \<open>None\<close> where the channel hash is not hexadecimal. The list is packed already.\<close>

definition subscriber_payload :: "net \<Rightarrow> hexid \<Rightarrow> pyval \<Rightarrow> pyval \<Rightarrow> bytes option" where
  "subscriber_payload n ch version packed =
     (case fromhex ch of None \<Rightarrow> None | Some b \<Rightarrow> Some (nt_packb n (PList [PBytes b, version, packed])))"

text \<open>\<^verbatim>\<open>_next_subscriber_version\<close>; the flag says whether storing it raised.\<close>

definition next_subscriber_version :: "secs \<Rightarrow> hexid \<Rightarrow> subscriptions \<Rightarrow> subscriptions \<times> int \<times> bool" where
  "next_subscriber_version now ch u =
     (let version = get_or 0 (su_held u) ch + 1; u = u\<lparr>su_held := AList.update ch version (su_held u)\<rparr>
      in case set_subscriber_list_version now ch version (su_vers u) of
           Inl _ \<Rightarrow> (u, version, True)
         | Inr vers \<Rightarrow> (u\<lparr>su_vers := vers\<rparr>, version, False))"

definition list_message :: "bytes \<Rightarrow> bytes \<Rightarrow> int \<Rightarrow> bytes \<Rightarrow> fields" where
  "list_message ch packed version sig =
     [(PInt F_MSG_TYPE, PStr MT_SUBSCRIBER_LIST), (PInt F_CHANNEL_HASH, PBytes ch), (PInt F_SUBSCRIBER_LIST, PBytes packed),
      (PInt F_SUBSCRIBER_VERSION, PInt version), (PInt F_SUBSCRIBER_SIG, PBytes sig)]"

definition broadcast_subscriber_list :: "net \<Rightarrow> secs \<Rightarrow> hexid \<Rightarrow> subscriptions \<Rightarrow> subscriptions" where
  "broadcast_subscriber_list n now ch u =
     (let subs = get_subscribers u ch;
          packed = nt_packb n (PList (map PStr (sort (remdups (nt_self n # subs)))));
          (u, version, raised) = next_subscriber_version now ch u
      in if raised then u
         else case (fromhex ch, subscriber_payload n ch (PInt version) (PBytes packed)) of
                (Some b, Some payload) \<Rightarrow>
                  fold (\<lambda>dest u. if dest = nt_self n then u
                                 else send_subs n now dest (list_message b packed version (nt_sign n payload)) u) subs u
              | _ \<Rightarrow> u)"

definition add_subscriber :: "net \<Rightarrow> secs \<Rightarrow> hexid \<Rightarrow> hexid \<Rightarrow> subscriptions \<Rightarrow> subscriptions" where
  "add_subscriber n now ch h u =
     (let held = get_or [] (su_sets u) ch
      in if h \<in> set held then u
         else broadcast_subscriber_list n now ch
                (u\<lparr>su_sets := AList.update ch (held @ [h]) (su_sets u),
                   su_rows := add_channel_subscriber now ch h (su_rows u)\<rparr>))"

definition remove_subscriber :: "hexid \<Rightarrow> hexid \<Rightarrow> subscriptions \<Rightarrow> subscriptions" where
  "remove_subscriber ch h u =
     u\<lparr>su_sets := (case map_of (su_sets u) ch of None \<Rightarrow> su_sets u | Some hs \<Rightarrow> AList.update ch (removeAll h hs) (su_sets u)),
       su_rows := remove_channel_subscriber ch h (su_rows u)\<rparr>"

section \<open>Inbound\<close>

text \<open>\<^verbatim>\<open>isinstance(version, int)\<close>, and its value.\<close>

fun int_value :: "pyval \<Rightarrow> int option" where
  "int_value (PInt i) = Some i"
| "int_value (PBool b) = Some (if b then 1 else 0)"
| "int_value _ = None"

text \<open>\<^verbatim>\<open>_recall_owner_identity\<close>; \<open>own\<close> is our own identity.\<close>

definition recall_owner_identity :: "net \<Rightarrow> peer_identity \<Rightarrow> hexid \<Rightarrow> peer_identity option" where
  "recall_owner_identity n own owner =
     (if owner = nt_self n then Some own
      else case recall_peer n owner of Inr (_, peer) \<Rightarrow> peer | Inl _ \<Rightarrow> None)"

text \<open>The identities a packed list names; \<open>None\<close> where it does not parse or is not iterable.\<close>

definition listed_identities :: "net \<Rightarrow> pyval \<Rightarrow> hexid list option" where
  "listed_identities n packed =
     (case packed of
        PBytes b \<Rightarrow>
          (case unpack_wire (ot_unpackb (nt_out n)) b of
             None \<Rightarrow> None
           | Some hashes \<Rightarrow>
               (case py_list hashes of
                  Inl _ \<Rightarrow> None
                | Inr vs \<Rightarrow> Some (remdups (filter is_identity_hex (List.map_filter (\<lambda>v. case v of PStr t \<Rightarrow> Some t | _ \<Rightarrow> None) vs)))))
      | _ \<Rightarrow> None)"

text \<open>The list a message carries, if it is the owner's, signed and newer than the one held.\<close>

definition valid_list :: "net \<Rightarrow> peer_identity \<Rightarrow> channel_row option \<Rightarrow> hexid \<Rightarrow> hexid \<Rightarrow> fields \<Rightarrow> int \<Rightarrow> (int \<times> hexid list) option" where
  "valid_list n own channel ch sender fs last_seen =
     (case channel of
        None \<Rightarrow> None
      | Some c \<Rightarrow>
          (let packed = field_get fs F_SUBSCRIBER_LIST; version = field_get fs F_SUBSCRIBER_VERSION
           in if cr_creator c \<noteq> sender \<or> \<not> truthy packed then None
              else case (int_value version, field_get fs F_SUBSCRIBER_SIG) of
                     (Some v, PBytes sig) \<Rightarrow>
                       if v \<le> last_seen then None
                       else (case (recall_owner_identity n own sender, subscriber_payload n ch version packed) of
                               (Some peer, Some payload) \<Rightarrow>
                                 if rn_validate (ot_rns (nt_out n)) peer sig payload \<noteq> Some True then None
                                 else map_option (Pair v) (listed_identities n packed)
                             | _ \<Rightarrow> None)
                   | _ \<Rightarrow> None))"

definition handle_subscriber_list ::
    "net \<Rightarrow> peer_identity \<Rightarrow> secs \<Rightarrow> store \<Rightarrow> hexid \<Rightarrow> hexid \<Rightarrow> fields \<Rightarrow> subscriptions \<Rightarrow> subscriptions" where
  "handle_subscriber_list n own now s ch sender fs u =
     (case valid_list n own (get_channel s ch) ch sender fs (get_or 0 (su_held u) ch) of
        None \<Rightarrow> u
      | Some (version, hs) \<Rightarrow>
          (let u = u\<lparr>su_held := AList.update ch version (su_held u), su_sets := AList.update ch hs (su_sets u)\<rparr>
           in case set_subscriber_list_version now ch version (su_vers u) of
                Inl _ \<Rightarrow> u
              | Inr vers \<Rightarrow> u\<lparr>su_vers := vers, su_rows := replace_channel_subscribers now ch hs (su_rows u)\<rparr>))"

definition handle_subscribe :: "net \<Rightarrow> secs \<Rightarrow> store \<Rightarrow> hexid \<Rightarrow> hexid \<Rightarrow> subscriptions \<Rightarrow> subscriptions" where
  "handle_subscribe n now s ch sender u =
     (case get_channel s ch of
        None \<Rightarrow> u
      | Some c \<Rightarrow>
          (case permissions_from_json (or_else None (cr_permissions c)) of
             Inl _ \<Rightarrow> u
           | Inr perms \<Rightarrow>
               if \<not> is_open_join perms then u
               else if cr_creator c = nt_self n then add_subscriber n now ch sender u else u))"

definition handle_unsubscribe :: "net \<Rightarrow> store \<Rightarrow> hexid \<Rightarrow> hexid \<Rightarrow> subscriptions \<Rightarrow> subscriptions" where
  "handle_unsubscribe n s ch sender u =
     (case get_channel s ch of
        None \<Rightarrow> u
      | Some c \<Rightarrow> if cr_creator c = nt_self n then remove_subscriber ch sender u else u)"

definition on_subscription_message ::
    "net \<Rightarrow> peer_identity \<Rightarrow> secs \<Rightarrow> store \<Rightarrow> lxm \<Rightarrow> subscriptions \<Rightarrow> subscriptions" where
  "on_subscription_message n own now s l u =
     (let fs = lx_fields l; k = nt_out n; sender = lx_sender k l
      in case (control_type (ot_decode k) fs, channel_text k fs) of
           (Some mt, Some ch) \<Rightarrow>
             if mt = MT_SUBSCRIBE then handle_subscribe n now s ch sender u
             else if mt = MT_UNSUBSCRIBE then handle_unsubscribe n s ch sender u
             else if mt = MT_SUBSCRIBER_LIST then handle_subscriber_list n own now s ch sender fs u
             else u
         | _ \<Rightarrow> u)"

end
