(* ===== verification/Reactions.thy ===== *)
theory Reactions
  imports Subscribers
begin

text \<open>
  \<^verbatim>\<open>trenchchat/core/reaction.py\<close> with the tables \<^verbatim>\<open>reactions\<close> and \<^verbatim>\<open>custom_emojis\<close> of \<^verbatim>\<open>storage.py\<close>: who may
  react, which custom emoji are asked for and from whom, and which images are stored. An emoji image
  is taken only in answer to a request of ours and only if it hashes to what was asked for; requests
  out and in are limited by time and by number. The callbacks to the window are left out.
\<close>

section \<open>Tables\<close>

record emoji_row =
  em_hash :: string
  em_name :: string
  em_image :: bytes
  em_added :: secs

record reaction_row =
  rc_message :: string
  rc_emoji :: string
  rc_reactor :: hexid
  rc_channel :: hexid
  rc_at :: pyfloat

definition reaction_key :: "reaction_row \<Rightarrow> string \<times> string \<times> hexid" where
  "reaction_key r = (rc_message r, rc_emoji r, rc_reactor r)"

text \<open>NaN is NULL in the column \<^verbatim>\<open>reacted_at\<close>, which refuses it.\<close>

definition insert_reaction :: "reaction_row \<Rightarrow> reaction_row list \<Rightarrow> reaction_row list" where
  "insert_reaction r rows = (if rc_at r = NotANumber then rows else insert_ignore reaction_key r rows)"

definition remove_reaction :: "string \<Rightarrow> string \<Rightarrow> hexid \<Rightarrow> reaction_row list \<Rightarrow> reaction_row list" where
  "remove_reaction mid emoji reactor = delete_where (\<lambda>r. reaction_key r = (mid, emoji, reactor))"

definition get_reactions :: "reaction_row list \<Rightarrow> string \<Rightarrow> reaction_row list" where
  "get_reactions rows mid = sort_key (\<lambda>r. sql_key (PFloat (rc_at r))) (filter (\<lambda>r. rc_message r = mid) rows)"

definition insert_emoji :: "string \<Rightarrow> string \<Rightarrow> bytes \<Rightarrow> secs \<Rightarrow> emoji_row list \<Rightarrow> emoji_row list" where
  "insert_emoji h name img now = insert_ignore em_hash \<lparr>em_hash = h, em_name = name, em_image = img, em_added = now\<rparr>"

definition get_emoji :: "emoji_row list \<Rightarrow> string \<Rightarrow> emoji_row option" where
  "get_emoji rows h = row_of em_hash rows h"

definition list_emojis :: "emoji_row list \<Rightarrow> emoji_row list" where
  "list_emojis rows = sort_key em_name rows"

definition delete_emoji :: "string \<Rightarrow> emoji_row list \<Rightarrow> emoji_row list" where
  "delete_emoji h = delete_where (\<lambda>r. em_hash r = h)"

definition emoji_exists :: "emoji_row list \<Rightarrow> string \<Rightarrow> bool" where
  "emoji_exists rows h = has_key em_hash rows h"

definition get_unresolved_reaction_emoji :: "reaction_row list \<Rightarrow> emoji_row list \<Rightarrow> hexid \<Rightarrow> string list" where
  "get_unresolved_reaction_emoji rows emojis reactor =
     remdups (map rc_emoji (filter (\<lambda>r. rc_reactor r = reactor \<and> \<not> emoji_exists emojis (rc_emoji r)) rows))"

definition get_peers_with_unresolved_emoji :: "reaction_row list \<Rightarrow> emoji_row list \<Rightarrow> hexid list" where
  "get_peers_with_unresolved_emoji rows emojis =
     remdups (map rc_reactor (filter (\<lambda>r. \<not> emoji_exists emojis (rc_emoji r)) rows))"

section \<open>The manager\<close>

definition MAX_EMOJI_BYTES :: int where "MAX_EMOJI_BYTES = 65536"
definition EMOJI_REQUEST_WINDOW_SECS :: secs where "EMOJI_REQUEST_WINDOW_SECS = 60"
definition EMOJI_REQUEST_BURST :: nat where "EMOJI_REQUEST_BURST = 12"
definition EMOJI_REQUEST_RETRY_SECS :: secs where "EMOJI_REQUEST_RETRY_SECS = 90"
definition EMOJI_FLUSH_BATCH :: nat where "EMOJI_FLUSH_BATCH = 6"
definition EMOJI_FLUSH_COOLDOWN_SECS :: secs where "EMOJI_FLUSH_COOLDOWN_SECS = 30"
definition MAX_EMOJI_REFS_PER_MESSAGE :: nat where "MAX_EMOJI_REFS_PER_MESSAGE = 8"
definition MAX_PENDING_EMOJI_REQUESTS :: nat where "MAX_PENDING_EMOJI_REQUESTS = 256"
definition MAX_TRACKED_FLUSH_PEERS :: nat where "MAX_TRACKED_FLUSH_PEERS = 256"
definition MAX_EMOJI_NAME_LEN :: nat where "MAX_EMOJI_NAME_LEN = 32"
definition MAX_TRACKED_REQUESTERS :: nat where "MAX_TRACKED_REQUESTERS = 512"

abbreviation F_EMOJI_HASH :: int where "F_EMOJI_HASH \<equiv> 0x0E"
abbreviation F_EMOJI_DATA :: int where "F_EMOJI_DATA \<equiv> 0x0F"
abbreviation F_REACTION_MSG_ID :: int where "F_REACTION_MSG_ID \<equiv> 0x40"
abbreviation F_REACTION_REMOVE :: int where "F_REACTION_REMOVE \<equiv> 0x41"
abbreviation F_EMOJI_NAME :: int where "F_EMOJI_NAME \<equiv> 0x42"
abbreviation F_REACTION_UNICODE :: int where "F_REACTION_UNICODE \<equiv> 0x43"
abbreviation MT_EMOJI_REQUEST :: string where "MT_EMOJI_REQUEST \<equiv> ''emoji_request''"
abbreviation MT_EMOJI_RESPONSE :: string where "MT_EMOJI_RESPONSE \<equiv> ''emoji_response''"

record reactions =
  rx_rows :: "reaction_row list"
  rx_emojis :: "emoji_row list"
  rx_wanted :: "(string \<times> secs) list"
  rx_times :: "(hexid \<times> secs list) list"
  rx_flushed :: "(hexid \<times> secs) list"
  rx_sent :: "(hexid \<times> fields) list"
  rx_paths :: "bytes list"

definition new_reactions :: "reaction_row list \<Rightarrow> emoji_row list \<Rightarrow> reactions" where
  "new_reactions rows emojis =
     \<lparr>rx_rows = rows, rx_emojis = emojis, rx_wanted = [], rx_times = [], rx_flushed = [], rx_sent = [], rx_paths = []\<rparr>"

definition sanitise_emoji_name :: "string \<Rightarrow> string" where
  "sanitise_emoji_name name = take MAX_EMOJI_NAME_LEN (filter (\<lambda>c. is_alnum c \<or> c \<in> set ''_-'') name)"

definition compute_emoji_hash :: "(bytes \<Rightarrow> bytes) \<Rightarrow> bytes \<Rightarrow> string" where
  "compute_emoji_hash sha img = to_hex (sha img)"

definition is_custom_emoji_hash :: "string \<Rightarrow> bool" where
  "is_custom_emoji_hash key = hex_line 64 key"

text \<open>\<^verbatim>\<open>import_emoji\<close> of an image chosen here; \<open>None\<close> where it is refused.\<close>

definition import_emoji :: "outside \<Rightarrow> secs \<Rightarrow> string \<Rightarrow> bytes \<Rightarrow> reactions \<Rightarrow> reactions \<times> string option" where
  "import_emoji k now name img x =
     (if int (length img) > MAX_EMOJI_BYTES \<or> \<not> inbound_image_is_sane (ot_open k) img then (x, None)
      else let h = compute_emoji_hash (ot_sha k) img
           in (x\<lparr>rx_emojis := insert_emoji h name img now (rx_emojis x)\<rparr>, Some h))"

section \<open>Asking for emoji\<close>

text \<open>\<^verbatim>\<open>min(d, key=d.get)\<close>: the first of the smallest.\<close>

fun oldest_key :: "('k \<times> secs) list \<Rightarrow> 'k option" where
  "oldest_key [] = None"
| "oldest_key ((k, t) # d) =
     (case oldest_key d of
        None \<Rightarrow> Some k
      | Some k' \<Rightarrow> (case map_of d k' of None \<Rightarrow> Some k | Some t' \<Rightarrow> if t' < t then Some k' else Some k))"

lemma oldest_key_in: "oldest_key d = Some k \<Longrightarrow> k \<in> fst ` set d"
  by (induction d) (auto split: option.splits if_splits)

lemma oldest_key_None: "oldest_key d = None \<longleftrightarrow> d = []"
  by (cases d) (auto split: option.splits)

lemma length_delete_less: "k \<in> fst ` set d \<Longrightarrow> length (AList.delete k d) < length d"
  by (induction d) (auto intro: le_imp_less_Suc length_delete_le)

lemma oldest_key_shorter: "oldest_key d = Some k \<Longrightarrow> length (AList.delete k d) < length d"
  by (rule length_delete_less) (rule oldest_key_in)

function drop_to :: "nat \<Rightarrow> ('k \<times> secs) list \<Rightarrow> ('k \<times> secs) list" where
  "drop_to cap d =
     (if length d \<ge> cap
      then case oldest_key d of None \<Rightarrow> d | Some k \<Rightarrow> drop_to cap (AList.delete k d)
      else d)"
  by pat_completeness auto
termination
  by (relation "measure (\<lambda>(cap, d). length d)") (auto dest: oldest_key_shorter)

declare drop_to.simps [simp del]

definition prune_pending_requests :: "secs \<Rightarrow> (string \<times> secs) list \<Rightarrow> (string \<times> secs) list" where
  "prune_pending_requests now d =
     drop_to MAX_PENDING_EMOJI_REQUESTS (filter (\<lambda>(h, t). \<not> now - t \<ge> EMOJI_REQUEST_RETRY_SECS) d)"

text \<open>\<^verbatim>\<open>_request_emoji\<close>: the marker stands while the request is out, and goes if it could not be sent.\<close>

definition request_emoji :: "net \<Rightarrow> secs \<Rightarrow> hexid \<Rightarrow> string \<Rightarrow> string \<Rightarrow> reactions \<Rightarrow> reactions" where
  "request_emoji n now peer h name x =
     (if \<not> peer_reads_trenchchat (nt_gate n) peer then x
      else if (case map_of (rx_wanted x) h of None \<Rightarrow> False | Some t \<Rightarrow> now - t < EMOJI_REQUEST_RETRY_SECS) then x
      else let marked = AList.update h now (prune_pending_requests now (rx_wanted x));
               failed = x\<lparr>rx_wanted := AList.delete h marked\<rparr>
           in case recall_peer n peer of
                Inl _ \<Rightarrow> failed
              | Inr (d, None) \<Rightarrow> failed\<lparr>rx_paths := rx_paths x @ [d]\<rparr>
              | Inr (d, Some _) \<Rightarrow>
                  (case fromhex h of
                     None \<Rightarrow> failed
                   | Some raw \<Rightarrow>
                       (let fs = [(PInt F_MSG_TYPE, PStr MT_EMOJI_REQUEST), (PInt F_EMOJI_HASH, PBytes raw)]
                                 @ (if name = [] then [] else [(PInt F_EMOJI_NAME, PStr name)])
                        in if nt_sends n peer Direct (envelope_of n fs)
                           then x\<lparr>rx_wanted := marked, rx_sent := rx_sent x @ [(peer, fs)]\<rparr> else failed)))"

text \<open>\<^verbatim>\<open>EMOJI_TOKEN_RE.finditer\<close>: the name of each token and its hash, empty where it has none.\<close>

definition token_hash :: "string \<Rightarrow> string \<Rightarrow> string" where
  "token_hash name s = (let r = drop (length name) s in if take 1 r = ''@'' then take 64 (drop 1 r) else [])"

function emoji_tokens :: "string \<Rightarrow> (string \<times> string) list" where
  "emoji_tokens [] = []"
| "emoji_tokens (c # s) =
     (if c = CHR '':''
      then case emoji_token s of
             None \<Rightarrow> emoji_tokens s
           | Some (name, rest) \<Rightarrow> (name, token_hash name s) # emoji_tokens rest
      else emoji_tokens s)"
  by pat_completeness auto
termination
  by (relation "measure length") (auto simp: less_Suc_eq_le intro: emoji_token_shorter)

declare emoji_tokens.simps(2) [simp del]

text \<open>Who the emoji are fetched for: \<open>db\<close> are the tables beside, \<open>subs\<close> the subscriber lists. The test
  raises where a column of permissions does not parse.\<close>

definition shares_channel :: "net \<Rightarrow> message_db \<Rightarrow> subscriber_row list \<Rightarrow> hexid \<Rightarrow> py_error + bool" where
  "shares_channel n db subs peer =
     ebind (shares_any_channel (db_store db) subs peer) (\<lambda>shared.
       Inr (shared \<or> nt_wired n \<and> may_dm (fm_self (db_friends db)) (is_friend (db_friends db)) peer))"

fun request_tokens :: "net \<Rightarrow> secs \<Rightarrow> hexid \<Rightarrow> nat \<Rightarrow> (string \<times> string) list \<Rightarrow> reactions \<Rightarrow> reactions" where
  "request_tokens n now sender requested [] x = x"
| "request_tokens n now sender requested ((name, h) # ts) x =
     (if h = [] \<or> emoji_exists (rx_emojis x) (lower h) then request_tokens n now sender requested ts x
      else if requested \<ge> MAX_EMOJI_REFS_PER_MESSAGE then x
      else request_tokens n now sender (requested + 1) ts (request_emoji n now sender (lower h) name x))"

definition request_missing_from_content ::
    "net \<Rightarrow> secs \<Rightarrow> message_db \<Rightarrow> subscriber_row list \<Rightarrow> hexid \<Rightarrow> string \<Rightarrow> reactions \<Rightarrow> reactions" where
  "request_missing_from_content n now db subs sender content x =
     (if sender = [] \<or> CHR '':'' \<notin> set content \<or> shares_channel n db subs sender \<noteq> Inr True then x
      else request_tokens n now sender 0 (emoji_tokens content) x)"

definition flush_pending_emoji :: "net \<Rightarrow> secs \<Rightarrow> hexid \<Rightarrow> reactions \<Rightarrow> reactions" where
  "flush_pending_emoji n now peer x =
     (if peer = [] \<or> (case map_of (rx_flushed x) peer of None \<Rightarrow> False | Some t \<Rightarrow> now - t < EMOJI_FLUSH_COOLDOWN_SECS) then x
      else let flushed = rx_flushed x;
               flushed = (if length flushed \<ge> MAX_TRACKED_FLUSH_PEERS
                          then (case oldest_key flushed of None \<Rightarrow> flushed | Some k \<Rightarrow> AList.delete k flushed) else flushed);
               missing = filter is_custom_emoji_hash (get_unresolved_reaction_emoji (rx_rows x) (rx_emojis x) peer)
           in fold (\<lambda>h. request_emoji n now peer h []) (take EMOJI_FLUSH_BATCH missing)
                (x\<lparr>rx_flushed := AList.update peer now flushed\<rparr>))"

definition retry_pending_emoji :: "net \<Rightarrow> secs \<Rightarrow> reactions \<Rightarrow> reactions" where
  "retry_pending_emoji n now x =
     fold (flush_pending_emoji n now) (get_peers_with_unresolved_emoji (rx_rows x) (rx_emojis x)) x"

section \<open>Reacting\<close>

text \<open>\<^verbatim>\<open>_may_react\<close>.\<close>

definition may_react :: "net \<Rightarrow> message_db \<Rightarrow> hexid \<Rightarrow> hexid \<Rightarrow> py_error + bool" where
  "may_react n db ch sender =
     (let f = db_friends db; s = db_store db
      in if sender = [] then Inr False
         else if nt_wired n \<and> is_dm (fm_convs f) ch then
           Inr (get_dm_peer (fm_convs f) ch = Some sender \<and> may_dm (fm_self f) (is_friend f) sender)
         else case get_channel s ch of
                None \<Rightarrow> Inr False
              | Some r \<Rightarrow>
                  ebind (permissions_from_json (or_else None (cr_permissions r))) (\<lambda>perms.
                    if is_open_join perms then Inr True
                    else if \<not> is_member s ch sender then Inr False
                    else role_may s ch sender SEND_MESSAGE))"

text \<open>The fields of a reaction; \<open>None\<close> where the channel or a custom hash is not hexadecimal.\<close>

definition reaction_fields :: "hexid \<Rightarrow> string \<Rightarrow> string \<Rightarrow> bool \<Rightarrow> fields option" where
  "reaction_fields ch mid emoji remove =
     (case (fromhex ch, if is_custom_emoji_hash emoji then map_option (\<lambda>b. (PInt F_EMOJI_HASH, PBytes b)) (fromhex emoji)
                        else Some (PInt F_REACTION_UNICODE, PStr emoji)) of
        (Some b, Some field) \<Rightarrow> Some
          [(PInt F_MSG_TYPE, PStr MT_REACTION), (PInt F_CHANNEL_HASH, PBytes b),
           (PInt F_REACTION_MSG_ID, message_id_to_wire (Some mid)), (PInt F_REACTION_REMOVE, PBool remove), field]
      | _ \<Rightarrow> None)"

text \<open>\<^verbatim>\<open>_broadcast_reaction\<close>; a peer whose identity is not known is only looked for.\<close>

definition send_reaction :: "net \<Rightarrow> fields \<Rightarrow> hexid \<Rightarrow> reactions \<Rightarrow> reactions" where
  "send_reaction n fs peer x =
     (if peer = nt_self n then x
      else case recall_peer n peer of
             Inl _ \<Rightarrow> x
           | Inr (d, None) \<Rightarrow> x\<lparr>rx_paths := rx_paths x @ [d]\<rparr>
           | Inr (d, Some _) \<Rightarrow>
               if nt_sends n peer Direct (envelope_of n fs) then x\<lparr>rx_sent := rx_sent x @ [(peer, fs)]\<rparr> else x)"

definition broadcast_reaction :: "net \<Rightarrow> hexid \<Rightarrow> string \<Rightarrow> string \<Rightarrow> hexid list \<Rightarrow> bool \<Rightarrow> reactions \<Rightarrow> reactions" where
  "broadcast_reaction n ch mid emoji subs remove x =
     (case reaction_fields ch mid emoji remove of None \<Rightarrow> x | Some fs \<Rightarrow> fold (send_reaction n fs) subs x)"

definition add_reaction :: "net \<Rightarrow> secs \<Rightarrow> hexid \<Rightarrow> string \<Rightarrow> string \<Rightarrow> hexid list \<Rightarrow> reactions \<Rightarrow> reactions" where
  "add_reaction n now ch mid emoji subs x =
     broadcast_reaction n ch mid emoji subs False
       (x\<lparr>rx_rows := insert_reaction \<lparr>rc_message = mid, rc_emoji = emoji, rc_reactor = nt_self n, rc_channel = ch,
                                     rc_at = Finite now\<rparr> (rx_rows x)\<rparr>)"

definition withdraw_reaction :: "net \<Rightarrow> hexid \<Rightarrow> string \<Rightarrow> string \<Rightarrow> hexid list \<Rightarrow> reactions \<Rightarrow> reactions" where
  "withdraw_reaction n ch mid emoji subs x =
     broadcast_reaction n ch mid emoji subs True
       (x\<lparr>rx_rows := remove_reaction mid emoji (nt_self n) (rx_rows x)\<rparr>)"

text \<open>\<^verbatim>\<open>_reaction_key_from_fields\<close>.\<close>

definition text_or_str :: "outside \<Rightarrow> pyval \<Rightarrow> string" where
  "text_or_str k v = (case v of PBytes b \<Rightarrow> ot_decode k b | PStr t \<Rightarrow> t | _ \<Rightarrow> ot_str k v)"

definition hash_or_str :: "outside \<Rightarrow> pyval \<Rightarrow> string" where
  "hash_or_str k v = (case v of PBytes b \<Rightarrow> to_hex b | PStr t \<Rightarrow> t | _ \<Rightarrow> ot_str k v)"

definition reaction_key_from_fields :: "outside \<Rightarrow> fields \<Rightarrow> string" where
  "reaction_key_from_fields k fs =
     (let raw = get_or (PBytes []) fs (PInt F_EMOJI_HASH)
      in if truthy raw then hash_or_str k raw
         else text_or_str k (get_or (PStr []) fs (PInt F_REACTION_UNICODE)))"

definition handle_reaction :: "net \<Rightarrow> secs \<Rightarrow> message_db \<Rightarrow> hexid \<Rightarrow> fields \<Rightarrow> reactions \<Rightarrow> reactions" where
  "handle_reaction n now db sender fs x =
     (let k = nt_out n
      in if sender = [] then x
         else case channel_text k fs of
                None \<Rightarrow> x
              | Some ch \<Rightarrow>
                  (let mid = message_id_from_wire (ot_decode k) (field_get fs F_REACTION_MSG_ID);
                       emoji = reaction_key_from_fields k fs
                   in if \<not> (is_subscribed (db_store db) ch \<or> nt_wired n \<and> is_dm (fm_convs (db_friends db)) ch) then x
                      else if may_react n db ch sender \<noteq> Inr True \<or> mid = [] \<or> emoji = [] then x
                      else if truthy (get_or (PBool False) fs (PInt F_REACTION_REMOVE)) then
                        x\<lparr>rx_rows := remove_reaction mid emoji sender (rx_rows x)\<rparr>
                      else let x = x\<lparr>rx_rows := insert_reaction \<lparr>rc_message = mid, rc_emoji = emoji, rc_reactor = sender,
                                                       rc_channel = ch, rc_at = Finite now\<rparr> (rx_rows x)\<rparr>
                           in if is_custom_emoji_hash emoji \<and> \<not> emoji_exists (rx_emojis x) emoji
                              then request_emoji n now sender emoji [] x else x))"

section \<open>Answering\<close>

definition allow_emoji_request :: "secs \<Rightarrow> hexid \<Rightarrow> (hexid \<times> secs list) list \<Rightarrow> (hexid \<times> secs list) list \<times> bool" where
  "allow_emoji_request now requester d =
     (let recent = filter (\<lambda>t. now - t < EMOJI_REQUEST_WINDOW_SECS) (get_or [] d requester)
      in if length recent \<ge> EMOJI_REQUEST_BURST then (AList.update requester recent d, False)
         else let d = AList.update requester (recent @ [now]) d
              in (if length d > MAX_TRACKED_REQUESTERS
                  then filter (\<lambda>(h, ts). \<not> (ts = [] \<or> now - last ts > EMOJI_REQUEST_WINDOW_SECS)) d else d, True))"

text \<open>\<^verbatim>\<open>_send_emoji_response\<close>.\<close>

definition send_emoji_response :: "net \<Rightarrow> hexid \<Rightarrow> string \<Rightarrow> bytes \<Rightarrow> string \<Rightarrow> reactions \<Rightarrow> reactions" where
  "send_emoji_response n peer h img name x =
     (case (recall_peer n peer, fromhex h) of
        (Inr (d, Some _), Some raw) \<Rightarrow>
          (let fs = [(PInt F_MSG_TYPE, PStr MT_EMOJI_RESPONSE), (PInt F_EMOJI_HASH, PBytes raw), (PInt F_EMOJI_DATA, PBytes img)]
                    @ (if name = [] then [] else [(PInt F_EMOJI_NAME, PStr name)])
           in if nt_sends n peer Direct (envelope_of n fs) then x\<lparr>rx_sent := rx_sent x @ [(peer, fs)]\<rparr> else x)
      | _ \<Rightarrow> x)"

definition handle_emoji_request ::
    "net \<Rightarrow> secs \<Rightarrow> message_db \<Rightarrow> subscriber_row list \<Rightarrow> hexid \<Rightarrow> fields \<Rightarrow> reactions \<Rightarrow> reactions" where
  "handle_emoji_request n now db subs requester fs x =
     (let k = nt_out n
      in if requester = [] \<or> shares_channel n db subs requester \<noteq> Inr True then x
         else case allow_emoji_request now requester (rx_times x) of
                (recent, False) \<Rightarrow> x\<lparr>rx_times := recent\<rparr>
              | (recent, True) \<Rightarrow>
                  (let x = x\<lparr>rx_times := recent\<rparr>;
                       h = hash_or_str k (get_or (PBytes []) fs (PInt F_EMOJI_HASH));
                       requested = text_or_str k (get_or (PStr []) fs (PInt F_EMOJI_NAME))
                   in if h = [] then x
                      else case get_emoji (rx_emojis x) h of
                             None \<Rightarrow> x
                           | Some r \<Rightarrow> send_emoji_response n requester h (em_image r)
                                         (if em_name r = [] then requested else em_name r) x))"

text \<open>The image as bytes; \<open>None\<close> where \<^verbatim>\<open>len\<close> or hashing it raises.\<close>

definition emoji_data_value :: "pyval \<Rightarrow> bytes option" where
  "emoji_data_value v = (case v of PBytes b \<Rightarrow> Some b | PStr t \<Rightarrow> Some (utf8 t) | _ \<Rightarrow> None)"

definition handle_emoji_response :: "outside \<Rightarrow> secs \<Rightarrow> fields \<Rightarrow> reactions \<Rightarrow> reactions" where
  "handle_emoji_response k now fs x =
     (let h = hash_or_str k (get_or (PBytes []) fs (PInt F_EMOJI_HASH))
      in case emoji_data_value (get_or (PBytes []) fs (PInt F_EMOJI_DATA)) of
           None \<Rightarrow> x
         | Some img \<Rightarrow>
             if img = [] \<or> h = [] \<or> int (length img) > MAX_EMOJI_BYTES then x
             else if compute_emoji_hash (ot_sha k) img \<noteq> h then x
             else if map_of (rx_wanted x) h = None then x
             else let x = x\<lparr>rx_wanted := AList.delete h (rx_wanted x)\<rparr>
                  in if \<not> inbound_image_is_sane (ot_open k) img then x
                     else let name = sanitise_emoji_name (text_or_str k (get_or (PStr []) fs (PInt F_EMOJI_NAME)));
                              name = (if name = [] then take 8 h else name)
                          in x\<lparr>rx_emojis := insert_emoji h name img now (rx_emojis x)\<rparr>)"

definition on_reaction_message :: "net \<Rightarrow> secs \<Rightarrow> message_db \<Rightarrow> subscriber_row list \<Rightarrow> lxm \<Rightarrow> reactions \<Rightarrow> reactions" where
  "on_reaction_message n now db subs l x =
     (let fs = lx_fields l; k = nt_out n; sender = lx_sender k l
      in if field_get fs F_MSG_TYPE = PNone then
           request_missing_from_content n now db subs sender (content_text k l) x
         else case control_type (ot_decode k) fs of
                None \<Rightarrow> x
              | Some mt \<Rightarrow>
                  if mt = MT_REACTION then handle_reaction n now db sender fs x
                  else if mt = MT_EMOJI_REQUEST then handle_emoji_request n now db subs sender fs x
                  else if mt = MT_EMOJI_RESPONSE then handle_emoji_response k now fs x
                  else x)"

end
