(* ===== verification/Serving.thy ===== *)
theory Serving
  imports Messages Reconcile Reactions
begin

text \<open>
  The responder's half of \<^verbatim>\<open>trenchchat/core/sync.py\<close>, without its state: which rows of a channel may be
  relayed to a peer, how a batch is cut, the timestamp sweep, the comparison of a peer's description
  with our rows, and how a row is written for the wire. A Python float is a \<open>pyfloat\<close> where a peer's
  own value can reach it, infinities and NaN included.
\<close>

section \<open>Caps\<close>

definition MAX_RESPONSE_MESSAGES :: nat where "MAX_RESPONSE_MESSAGES = 50"
definition MAX_RESPONSE_BYTES :: int where "MAX_RESPONSE_BYTES = 1000000"
definition MAX_AUTHOR_KEYS :: nat where "MAX_AUTHOR_KEYS = MAX_RESPONSE_MESSAGES"
definition MAX_REACTIONS_PER_MESSAGE :: nat where "MAX_REACTIONS_PER_MESSAGE = 32"
definition MAX_SWEEP_SCAN :: nat where "MAX_SWEEP_SCAN = MAX_RESPONSE_MESSAGES * 20"
definition MAX_NEED_IDS :: nat where "MAX_NEED_IDS = MAX_SYNC_NEEDS"

section \<open>Rows\<close>

definition row_is_signed :: "message_row \<Rightarrow> bool" where
  "row_is_signed r = (case ms_sig r of None \<Rightarrow> False | Some s \<Rightarrow> s \<noteq> [])"

definition row_wire_size :: "message_row \<Rightarrow> int" where
  "row_wire_size r = int (case ms_image r of None \<Rightarrow> 0 | Some b \<Rightarrow> length b) + int (length (utf8 (ms_content r))) + 256"

text \<open>The columns of an index row that set reconciliation reads.\<close>

definition index_row :: "message_row \<Rightarrow> row" where
  "index_row r = \<lparr>r_id = ms_id r, r_ts = ms_ts r, r_sig = row_is_signed r\<rparr>"

text \<open>\<^verbatim>\<open>_cut_index\<close> and the cut at the boundary of a group.\<close>

fun cut_from :: "nat \<Rightarrow> int \<Rightarrow> message_row list \<Rightarrow> nat" where
  "cut_from i used [] = i"
| "cut_from i used (r # rs) =
     (let used = used + row_wire_size r
      in if i \<ge> MAX_RESPONSE_MESSAGES \<or> (i > 0 \<and> used > MAX_RESPONSE_BYTES) then i else cut_from (Suc i) used rs)"

definition cut_index :: "message_row list \<Rightarrow> nat" where
  "cut_index rows = cut_from 0 0 rows"

fun cut_back :: "message_row list \<Rightarrow> secs \<Rightarrow> nat \<Rightarrow> nat" where
  "cut_back rows t 0 = 0"
| "cut_back rows t (Suc c) = (if ms_ts (rows ! c) = t then cut_back rows t c else Suc c)"

definition cut_forward :: "message_row list \<Rightarrow> secs \<Rightarrow> nat \<Rightarrow> nat" where
  "cut_forward rows t c = c + length (takeWhile (\<lambda>r. ms_ts r = t) (drop c rows))"

definition truncate_at_group_boundary :: "message_row list \<Rightarrow> message_row list \<times> bool" where
  "truncate_at_group_boundary rows =
     (let cut = cut_index rows
      in if cut \<ge> length rows then (rows, False)
         else let t = ms_ts (rows ! cut); cut = cut_back rows t cut;
                  cut = (if cut = 0 then cut_forward rows t cut else cut)
              in (take cut rows, cut < length rows))"

section \<open>Who may be shown what\<close>

definition column_perms :: "channel_row option \<Rightarrow> py_error + perms" where
  "column_perms channel =
     (case channel of None \<Rightarrow> Inr [] | Some c \<Rightarrow> permissions_from_json (or_else None (cr_permissions c)))"

definition role_grants :: "perms \<Rightarrow> string option \<Rightarrow> string \<Rightarrow> py_error + bool" where
  "role_grants perms role permission =
     (case role of None \<Rightarrow> Inr False | Some r \<Rightarrow> has_permission perms r permission)"

text \<open>\<^verbatim>\<open>_peer_may_participate\<close>.\<close>

definition peer_may_participate :: "store \<Rightarrow> hexid \<Rightarrow> hexid \<Rightarrow> py_error + bool" where
  "peer_may_participate s ch peer =
     (if peer = [] then Inr False
      else case get_channel s ch of
             None \<Rightarrow> Inr False
           | Some c \<Rightarrow>
               ebind (permissions_from_json (or_else None (cr_permissions c))) (\<lambda>perms.
                 Inr (is_open_join perms \<or> is_member s ch peer)))"

text \<open>The test a row has to pass to be relayed, and \<^verbatim>\<open>_filter_rows_by_tenure\<close>.\<close>

definition relay_test :: "store \<Rightarrow> channel_row option \<Rightarrow> hexid \<Rightarrow> hexid \<Rightarrow> py_error + (message_row \<Rightarrow> bool)" where
  "relay_test s channel ch requester =
     ebind (column_perms channel) (\<lambda>perms.
       if \<not> has_any_tenure s ch then Inr row_is_signed
       else ebind (role_grants perms (get_role s ch requester) FULL_SYNC) (\<lambda>full_sync.
         Inr (\<lambda>r. row_is_signed r \<and> was_member_at s ch (ms_sender r) (ms_ts r)
                  \<and> (full_sync \<or> was_member_at s ch requester (ms_ts r)))))"

definition filter_rows_by_tenure ::
    "store \<Rightarrow> channel_row option \<Rightarrow> hexid \<Rightarrow> hexid \<Rightarrow> message_row list \<Rightarrow> py_error + message_row list" where
  "filter_rows_by_tenure s channel ch requester rows =
     ebind (relay_test s channel ch requester) (\<lambda>test. Inr (filter test rows))"

section \<open>The sweep\<close>

record sweep =
  sw_permitted :: "message_row list"
  sw_bytes :: int
  sw_cursor :: pyfloat
  sw_truncated :: bool
  sw_run_ts :: "secs option"
  sw_run :: "message_row list"
  sw_scanned :: nat
  sw_ts :: pyfloat
  sw_id :: "nat option"

definition new_sweep :: "pyfloat \<Rightarrow> sweep" where
  "new_sweep start =
     \<lparr>sw_permitted = [], sw_bytes = 0, sw_cursor = start, sw_truncated = False, sw_run_ts = None, sw_run = [],
      sw_scanned = 0, sw_ts = start, sw_id = None\<rparr>"

text \<open>\<^verbatim>\<open>try_flush_run\<close>: the group just finished is added whole, unless that would exceed a cap.\<close>

definition try_flush_run :: "(message_row \<Rightarrow> bool) \<Rightarrow> sweep \<Rightarrow> sweep \<times> bool" where
  "try_flush_run test w =
     (if sw_run w = [] then (w, True)
      else let passed = filter test (sw_run w);
               group_bytes = sum_list (map row_wire_size passed);
               over_rows = length (sw_permitted w) + length passed > MAX_RESPONSE_MESSAGES;
               over_bytes = sw_permitted w \<noteq> [] \<and> sw_bytes w + group_bytes > MAX_RESPONSE_BYTES
           in if over_rows \<or> over_bytes then (w\<lparr>sw_truncated := True\<rparr>, False)
              else (w\<lparr>sw_permitted := sw_permitted w @ passed, sw_bytes := sw_bytes w + group_bytes,
                      sw_cursor := (case sw_run_ts w of None \<Rightarrow> sw_cursor w | Some t \<Rightarrow> Finite t)\<rparr>, True))"

definition take_row :: "nat \<times> message_row \<Rightarrow> sweep \<Rightarrow> sweep" where
  "take_row ir w =
     w\<lparr>sw_run_ts := Some (ms_ts (snd ir)), sw_run := sw_run w @ [snd ir], sw_ts := Finite (ms_ts (snd ir)),
       sw_id := Some (fst ir), sw_scanned := sw_scanned w + 1\<rparr>"

text \<open>The loop over the rows of a page; the flag is \<^verbatim>\<open>stop\<close>.\<close>

fun sweep_rows :: "(message_row \<Rightarrow> bool) \<Rightarrow> sweep \<Rightarrow> (nat \<times> message_row) list \<Rightarrow> sweep \<times> bool" where
  "sweep_rows test w [] = (w, False)"
| "sweep_rows test w (ir # page) =
     (if sw_run_ts w \<noteq> None \<and> sw_run_ts w \<noteq> Some (ms_ts (snd ir)) then
        (let (w, flushed) = try_flush_run test w; w = w\<lparr>sw_run := []\<rparr>
         in if \<not> flushed then (w, True)
            else if sw_scanned w \<ge> MAX_SWEEP_SCAN then (w\<lparr>sw_truncated := True\<rparr>, True)
            else sweep_rows test (take_row ir w) page)
      else sweep_rows test (take_row ir w) page)"

text \<open>A page that is read to its end leaves the cursor on its last row, and reading on from there
  yields what followed.\<close>

lemma flush_position [simp]:
  "sw_ts (fst (try_flush_run test w)) = sw_ts w" "sw_id (fst (try_flush_run test w)) = sw_id w"
  by (simp_all add: try_flush_run_def Let_def)

lemma take_position [simp]:
  "sw_ts (take_row ir w) = Finite (ms_ts (snd ir))" "sw_id (take_row ir w) = Some (fst ir)"
  by (simp_all add: take_row_def)

lemma sweep_rows_go_on:
  "sweep_rows test w (ir # page) = (w', False) \<Longrightarrow> \<exists>v. sweep_rows test (take_row ir v) page = (w', False)"
  by (auto simp: Let_def split: prod.splits if_splits)

lemma sweep_rows_position:
  "sweep_rows test w page = (w', False) \<Longrightarrow> page \<noteq> [] \<Longrightarrow>
    sw_ts w' = Finite (ms_ts (snd (last page))) \<and> sw_id w' = Some (fst (last page))"
proof (induction page arbitrary: w)
  case (Cons ir page)
  then obtain v where v: "sweep_rows test (take_row ir v) page = (w', False)" using sweep_rows_go_on by blast
  show ?case
  proof (cases "page = []")
    case True
    with v show ?thesis by auto
  next
    case False
    then show ?thesis using Cons.IH [OF v] by simp
  qed
qed simp

abbreviation row_order :: "nat \<times> message_row \<Rightarrow> secs \<times> nat" where
  "row_order ir \<equiv> (ms_ts (snd ir), fst ir)"

lemma rows_after_strict: "sorted_wrt (\<lambda>x y. row_order x < row_order y) (rows_after rows ch since a)"
proof -
  let ?rs = "rows_after rows ch since a"
  have "distinct (map fst (enumerate 1 rows))" by simp
  then have e: "distinct (enumerate 1 rows)" "inj_on fst (set (enumerate 1 rows))" unfolding distinct_map by blast+
  have "distinct ?rs" using e(1) by (simp add: rows_after_def)
  moreover have "inj_on row_order (set ?rs)"
  proof (rule inj_onI)
    fix x y assume "x \<in> set ?rs" "y \<in> set ?rs" "row_order x = row_order y"
    then have "x \<in> set (enumerate 1 rows)" "y \<in> set (enumerate 1 rows)" "fst x = fst y" by (simp_all add: rows_after_def)
    then show "x = y" using e(2) by (metis inj_onD)
  qed
  ultimately have "distinct (map row_order ?rs)" by (simp add: distinct_map)
  moreover have "sorted (map row_order ?rs)" by (simp add: rows_after_def)
  ultimately have "sorted_wrt (<) (map row_order ?rs)" using strict_sorted_iff by blast
  then show ?thesis by (simp add: sorted_wrt_map)
qed

lemma filter_suffix:
  assumes "sorted_wrt (\<lambda>x y. f x < (f y :: 'b :: linorder)) xs" "n < length xs"
  shows "filter (\<lambda>x. f (xs ! n) < f x) xs = drop (Suc n) xs"
proof -
  have "filter (\<lambda>x. f (xs ! n) < f x) (take (Suc n) xs) = []"
  proof (rule filter_False, rule ballI)
    fix x assume "x \<in> set (take (Suc n) xs)"
    then obtain i where "i < Suc n" "x = xs ! i" using assms(2) by (auto simp: in_set_conv_nth)
    then have "x = xs ! n \<or> f x < f (xs ! n)" using assms sorted_wrt_nth_less [OF assms(1), of i n] by (cases "i = n") auto
    then show "\<not> f (xs ! n) < f x" by auto
  qed
  moreover have "filter (\<lambda>x. f (xs ! n) < f x) (drop (Suc n) xs) = drop (Suc n) xs"
  proof (rule filter_True, rule ballI)
    fix x assume "x \<in> set (drop (Suc n) xs)"
    then obtain i where "i < length (drop (Suc n) xs)" "x = drop (Suc n) xs ! i" by (auto simp: in_set_conv_nth)
    then have "x = xs ! (Suc n + i)" "Suc n + i < length xs" by simp_all
    then show "f (xs ! n) < f x" using sorted_wrt_nth_less [OF assms(1), of n "Suc n + i"] by simp
  qed
  moreover have "filter P xs = filter P (take (Suc n) xs) @ filter P (drop (Suc n) xs)" for P
    by (metis append_take_drop_id filter_append)
  ultimately show ?thesis by simp
qed

lemma is_after_row: "is_after ch (Finite (ms_ts (snd x))) (Some (fst x)) y \<longleftrightarrow> ms_channel (snd y) = ch \<and> row_order x < row_order y"
  by (auto simp: is_after_def Let_def less_prod_def)

lemma is_after_trans:
  "is_after ch since a x \<Longrightarrow> row_order x < row_order y \<Longrightarrow> ms_channel (snd y) = ch \<Longrightarrow> is_after ch since a y"
  by (cases since) (auto simp: is_after_def Let_def less_prod_def split: option.splits)

lemma rows_after_drop:
  assumes "n < length (rows_after rows ch since a)"
  shows "rows_after rows ch (Finite (ms_ts (snd (rows_after rows ch since a ! n)))) (Some (fst (rows_after rows ch since a ! n)))
    = drop (Suc n) (rows_after rows ch since a)"
proof -
  let ?rs = "rows_after rows ch since a"
  define x where "x = ?rs ! n"
  have "x \<in> set ?rs" using assms by (simp add: x_def)
  then have x: "is_after ch since a x" by (simp add: rows_after_def)
  have P: "is_after ch (Finite (ms_ts (snd x))) (Some (fst x)) y \<longleftrightarrow> row_order x < row_order y \<and> is_after ch since a y" for y
    using is_after_trans [OF x, of y] unfolding is_after_row by (auto simp: is_after_def Let_def)
  have "rows_after rows ch (Finite (ms_ts (snd x))) (Some (fst x))
      = sort_key row_order (filter (\<lambda>y. row_order x < row_order y) (filter (is_after ch since a) (enumerate 1 rows)))"
    unfolding rows_after_def P filter_filter by (simp add: conj_commute)
  also have "\<dots> = filter (\<lambda>y. row_order x < row_order y) ?rs"
    unfolding rows_after_def by (rule filter_sort [symmetric])
  also have "\<dots> = drop (Suc n) ?rs" unfolding x_def by (rule filter_suffix [OF rows_after_strict assms])
  finally show ?thesis by (simp add: x_def)
qed

lemma sweep_page_shrinks:
  assumes "page = get_messages_after rows ch (sw_ts w) MAX_RESPONSE_MESSAGES (sw_id w)" "page \<noteq> []"
    and "sweep_rows test w page = (w', False)"
  shows "rows_after rows ch (sw_ts w') (sw_id w') = drop (length page) (rows_after rows ch (sw_ts w) (sw_id w))"
proof -
  let ?rs = "rows_after rows ch (sw_ts w) (sw_id w)"
  have page: "page = take MAX_RESPONSE_MESSAGES ?rs" using assms(1) by (simp add: get_messages_after_def)
  have len: "0 < length page" "length page \<le> length ?rs" using assms(2) page by auto
  have "length page \<le> MAX_RESPONSE_MESSAGES" using page by simp
  then have i: "length page - 1 < MAX_RESPONSE_MESSAGES" using len(1) by linarith
  have "last page = page ! (length page - 1)" using assms(2) by (rule last_conv_nth)
  also have "\<dots> = ?rs ! (length page - 1)" using i unfolding page by (rule nth_take)
  finally have "last page = ?rs ! (length page - 1)" .
  then have "sw_ts w' = Finite (ms_ts (snd (?rs ! (length page - 1))))" "sw_id w' = Some (fst (?rs ! (length page - 1)))"
    using sweep_rows_position [OF assms(3,2)] by simp_all
  moreover have "length page - 1 < length ?rs" "Suc (length page - 1) = length page" using len by linarith+
  ultimately show ?thesis using rows_after_drop [of "length page - 1" rows ch "sw_ts w" "sw_id w"] by metis
qed

lemma sweep_page_less:
  assumes "get_messages_after rows ch (sw_ts w) MAX_RESPONSE_MESSAGES (sw_id w) \<noteq> []"
    and "sweep_rows test w (get_messages_after rows ch (sw_ts w) MAX_RESPONSE_MESSAGES (sw_id w)) = (w', False)"
  shows "length (rows_after rows ch (sw_ts w') (sw_id w')) < length (rows_after rows ch (sw_ts w) (sw_id w))"
proof -
  have "0 < MAX_RESPONSE_MESSAGES \<and> rows_after rows ch (sw_ts w) (sw_id w) \<noteq> []" using assms(1) by (auto simp: get_messages_after_def)
  then show ?thesis using sweep_page_shrinks [OF refl assms] by (auto simp: get_messages_after_def)
qed

text \<open>The loop over the pages.\<close>

function sweep_pages :: "(message_row \<Rightarrow> bool) \<Rightarrow> message_row list \<Rightarrow> hexid \<Rightarrow> sweep \<Rightarrow> sweep" where
  "sweep_pages test rows ch w =
     (let page = get_messages_after rows ch (sw_ts w) MAX_RESPONSE_MESSAGES (sw_id w)
      in if page = [] then fst (try_flush_run test w)
         else case sweep_rows test w page of
                (w', True) \<Rightarrow> w'
              | (w', False) \<Rightarrow>
                  if length page < MAX_RESPONSE_MESSAGES then fst (try_flush_run test w') else sweep_pages test rows ch w')"
  by pat_completeness auto
termination
  by (relation "measure (\<lambda>(test, rows, ch, w). length (rows_after rows ch (sw_ts w) (sw_id w)))")
     (auto intro: sweep_page_less)

declare sweep_pages.simps [simp del]

text \<open>\<^verbatim>\<open>_collect_permitted_rows\<close>; the test is evaluated for the first group, so that without rows nothing
  raises.\<close>

definition collect_permitted_rows ::
    "store \<Rightarrow> channel_row option \<Rightarrow> hexid \<Rightarrow> hexid \<Rightarrow> message_row list \<Rightarrow> pyfloat \<Rightarrow> py_error + message_row list \<times> bool \<times> pyfloat" where
  "collect_permitted_rows s channel ch requester rows start =
     (case relay_test s channel ch requester of
        Inl e \<Rightarrow> if rows_after rows ch start None = [] then Inr ([], False, start) else Inl e
      | Inr test \<Rightarrow>
          (let w = sweep_pages test rows ch (new_sweep start) in Inr (sw_permitted w, sw_truncated w, sw_cursor w)))"

section \<open>Comparing descriptions\<close>

type_synonym need = "secs \<times> secs \<times> bytes"

definition merge_rows :: "message_row list list \<Rightarrow> message_row list" where
  "merge_rows row_sets = sort_key ms_ts (foldl (\<lambda>acc r. insert_ignore ms_id r acc) [] (concat row_sets))"

text \<open>\<^verbatim>\<open>_get_messages_by_ids\<close>.\<close>

definition rows_by_ids :: "message_row list \<Rightarrow> hexid \<Rightarrow> string list \<Rightarrow> message_row list" where
  "rows_by_ids rows ch ids = get_messages_by_ids rows ch (take MAX_RESPONSE_MESSAGES ids)"

definition packed_size :: "(pyval \<Rightarrow> bytes) \<Rightarrow> sync_range list \<Rightarrow> nat" where
  "packed_size packb rs = length (packb (ranges_value rs))"

definition describe_here :: "(bytes \<Rightarrow> bytes) \<Rightarrow> (pyval \<Rightarrow> bytes) \<Rightarrow> message_row list \<Rightarrow> secs \<Rightarrow> secs \<Rightarrow> sync_range list" where
  "describe_here sha packb index lo hi =
     describe sha (packed_size packb) (map index_row index) lo hi SYNC_DESCRIPTION_BUDGET_BYTES"

definition add_ranges :: "(pyval \<Rightarrow> bytes) \<Rightarrow> sync_range list \<Rightarrow> sync_range list \<Rightarrow> bool \<times> sync_range list" where
  "add_ranges packb target described = append_ranges (packed_size packb) target described SYNC_DESCRIPTION_BUDGET_BYTES"

definition add_needs :: "secs \<Rightarrow> secs \<Rightarrow> bytes list \<Rightarrow> need list \<Rightarrow> need list" where
  "add_needs lo hi prefixes needs = needs @ map (\<lambda>p. (lo, hi, p)) (take (MAX_NEED_IDS - length needs) prefixes)"

text \<open>What one round of comparing leaves: ids to send, ranges to describe back, rows to ask for, and
  whether something that differs was left out.\<close>

record comparison =
  cp_send :: "string list"
  cp_ranges :: "sync_range list"
  cp_needs :: "need list"
  cp_deferred :: bool

definition new_comparison :: comparison where
  "new_comparison = \<lparr>cp_send = [], cp_ranges = [], cp_needs = [], cp_deferred = False\<rparr>"

fun compare_range ::
    "(bytes \<Rightarrow> bytes) \<Rightarrow> (pyval \<Rightarrow> bytes) \<Rightarrow> (message_row \<Rightarrow> bool) \<Rightarrow> message_row list \<Rightarrow> hexid \<Rightarrow> sync_range \<Rightarrow> comparison \<Rightarrow> comparison" where
  "compare_range sha packb test rows ch (IdRange lo hi prefixes) c =
     (let index = get_message_index rows ch lo (Some hi); serving = filter test index
      in c\<lparr>cp_send := cp_send c @ ids_they_lack (map index_row serving) prefixes,
           cp_needs := add_needs lo hi (prefixes_we_lack (map index_row index) prefixes) (cp_needs c)\<rparr>)"
| "compare_range sha packb test rows ch (FpRange lo hi n fp) c =
     (let serving = filter test (get_message_index rows ch lo (Some hi))
      in if matches_fingerprint sha (map index_row serving) n fp then c
         else case add_ranges packb (cp_ranges c) (describe_here sha packb serving lo hi) of
                (True, rs) \<Rightarrow> c\<lparr>cp_ranges := rs\<rparr>
              | (False, _) \<Rightarrow> c\<lparr>cp_deferred := True\<rparr>)"

text \<open>\<^verbatim>\<open>_rows_for_needs\<close> before the filter: the prefixes grouped by the span they name.\<close>

definition needs_by_span :: "need list \<Rightarrow> ((secs \<times> secs) \<times> bytes list) list" where
  "needs_by_span needs =
     foldl (\<lambda>d (lo, hi, p). AList.update (lo, hi) (get_or [] d (lo, hi) @ [p]) d) [] (take MAX_NEED_IDS needs)"

definition wanted_ids :: "message_row list \<Rightarrow> hexid \<Rightarrow> need list \<Rightarrow> string list" where
  "wanted_ids rows ch needs =
     concat (map (\<lambda>((lo, hi), prefixes).
        map ms_id (filter (\<lambda>r. id_prefix (ms_id r) \<in> set prefixes) (get_message_index rows ch lo (Some hi)))) (needs_by_span needs))"

definition rows_for_needs :: "(message_row \<Rightarrow> bool) \<Rightarrow> message_row list \<Rightarrow> hexid \<Rightarrow> need list \<Rightarrow> message_row list" where
  "rows_for_needs test rows ch needs = filter test (rows_by_ids rows ch (wanted_ids rows ch needs))"

text \<open>\<^verbatim>\<open>_reconcile_for_requester\<close>: the rows to send, the ranges described back, what we ask for, and
  whether more remains.\<close>

definition reconcile_with ::
    "(bytes \<Rightarrow> bytes) \<Rightarrow> (pyval \<Rightarrow> bytes) \<Rightarrow> (message_row \<Rightarrow> bool) \<Rightarrow> message_row list \<Rightarrow> hexid \<Rightarrow> sync_range list \<Rightarrow> need list
     \<Rightarrow> message_row list \<times> sync_range list \<times> need list \<times> bool" where
  "reconcile_with sha packb test rows ch ranges needs =
     (let c = fold (compare_range sha packb test rows ch) ranges new_comparison;
          found = rows_by_ids rows ch (cp_send c);
          found = (if needs = [] then found else merge_rows [found, rows_for_needs test rows ch needs])
      in (found, cp_ranges c, cp_needs c, cp_deferred c \<or> length (cp_send c) > MAX_RESPONSE_MESSAGES))"

definition reconcile_for_requester ::
    "(bytes \<Rightarrow> bytes) \<Rightarrow> (pyval \<Rightarrow> bytes) \<Rightarrow> store \<Rightarrow> channel_row option \<Rightarrow> hexid \<Rightarrow> hexid \<Rightarrow> message_row list
     \<Rightarrow> sync_range list \<Rightarrow> need list \<Rightarrow> py_error + message_row list \<times> sync_range list \<times> need list \<times> bool" where
  "reconcile_for_requester sha packb s channel ch requester rows ranges needs =
     (if ranges = [] \<and> needs = [] then Inr ([], [], [], False)
      else ebind (relay_test s channel ch requester) (\<lambda>test. Inr (reconcile_with sha packb test rows ch ranges needs)))"

text \<open>\<^verbatim>\<open>_read_reconcile_fields\<close>; a field that is there and does not parse makes the message malformed.\<close>

definition read_reconcile_fields ::
    "(bytes \<Rightarrow> pyval option) \<Rightarrow> fields \<Rightarrow> sync_range list option \<times> need list option \<times> bool" where
  "read_reconcile_fields unpackb fs =
     (let ranges_raw = field_get fs 0x52; needs_raw = field_get fs 0x53;
          ranges = (if ranges_raw = PNone then None else unpack_with unpackb validate_ranges ranges_raw);
          needs = (if needs_raw = PNone then None else unpack_with unpackb validate_needs needs_raw)
      in (ranges, needs, (ranges_raw \<noteq> PNone \<and> ranges = None) \<or> (needs_raw \<noteq> PNone \<and> needs = None)))"

section \<open>Rows on the wire\<close>

definition manifest_items :: "manifest option \<Rightarrow> fields" where
  "manifest_items man =
     (case man of
        None \<Rightarrow> []
      | Some m \<Rightarrow>
          (case man_hash m of
             None \<Rightarrow> []
           | Some h \<Rightarrow> if h = [] then []
               else [(PStr ''file_name'', man_name m), (PStr ''file_size'', man_size m), (PStr ''file_hash'', PBytes h),
                     (PStr ''file_chunk_root'', PBytes (or_else [] (man_root m)))]))"

definition row_to_dict :: "message_row \<Rightarrow> fields" where
  "row_to_dict r =
     [(PStr ''sender_hash'', PStr (ms_sender r)), (PStr ''sender_name'', PStr (ms_name r)), (PStr ''content'', PStr (ms_content r)),
      (PStr ''timestamp'', PFloat (Finite (ms_ts r))), (PStr ''message_id'', message_id_to_wire (Some (ms_id r))),
      (PStr ''reply_to'', message_id_to_wire (ms_reply r)), (PStr ''last_seen_id'', message_id_to_wire (ms_last_seen r))]
     @ (case ms_image r of None \<Rightarrow> [] | Some b \<Rightarrow> if b = [] then [] else [(PStr ''image_data'', PBytes b)])
     @ manifest_items (ms_manifest r)
     @ (case ms_sig r of None \<Rightarrow> [] | Some b \<Rightarrow> if b = [] then [] else [(PStr ''author_sig'', PBytes b)])"

definition reaction_item :: "reaction_row \<Rightarrow> pyval" where
  "reaction_item r =
     PDict [(PStr ''emoji'', PStr (rc_emoji r)), (PStr ''reactor'', PStr (rc_reactor r)), (PStr ''at'', PFloat (rc_at r))]"

definition row_to_payload :: "reaction_row list \<Rightarrow> message_row \<Rightarrow> pyval" where
  "row_to_payload reactions r =
     (let items = take MAX_REACTIONS_PER_MESSAGE (map reaction_item (get_reactions reactions (ms_id r)))
      in PDict (row_to_dict r @ (if items = [] then [] else [(PStr ''reactions'', PList items)])))"

text \<open>\<^verbatim>\<open>_author_keys_for\<close>; looking a key up may learn it.\<close>

fun author_keys_for :: "rns \<Rightarrow> secs \<Rightarrow> message_row list \<Rightarrow> keys \<Rightarrow> (hexid \<times> bytes) list \<Rightarrow> keys \<times> (hexid \<times> bytes) list" where
  "author_keys_for n now [] ks found = (ks, found)"
| "author_keys_for n now (r # rs) ks found =
     (if ms_sender r = [] \<or> ms_sender r \<in> fst ` set found then author_keys_for n now rs ks found
      else case public_key_for n now (ms_sender r) ks of
             (ks, Some key) \<Rightarrow>
               author_keys_for n now rs ks (if key = [] then found else found @ [(ms_sender r, key)])
           | (ks, None) \<Rightarrow> author_keys_for n now rs ks found)"

end
