(* ===== verification/Pending.thy ===== *)
theory Pending
  imports Control_Send
begin

text \<open>
  The books \<^verbatim>\<open>trenchchat/core/sync.py\<close> keeps of its own questions and of how often it answers: the requests
  that are outstanding, by channel and by either form a peer may be identified by; the cooldown on deep
  backfills it serves; and the cooldown on requests that an announce sets off. The time of a request is
  finite; the start it asked from need not be.
\<close>

section \<open>Outstanding requests\<close>

definition SYNC_RESPONSE_WINDOW_SECS :: secs where "SYNC_RESPONSE_WINDOW_SECS = 300"
definition SYNC_RETRY_SECS :: secs where "SYNC_RETRY_SECS = 90"

record request =
  ask_at :: secs
  ask_since :: pyfloat
  ask_dest :: hexid
  ask_id :: nat

record requests =
  out_entries :: "((hexid \<times> hexid) \<times> request list) list"
  out_seq :: nat

definition new_requests :: requests where
  "new_requests = \<lparr>out_entries = [], out_seq = 0\<rparr>"

definition peer_key_forms :: "rns \<Rightarrow> hexid \<Rightarrow> hexid list" where
  "peer_key_forms n peer =
     peer # (case Option.bind (fromhex peer) (rn_delivery n) of None \<Rightarrow> [] | Some d \<Rightarrow> [to_hex d])"

definition record_request :: "rns \<Rightarrow> secs \<Rightarrow> hexid \<Rightarrow> hexid \<Rightarrow> pyfloat \<Rightarrow> requests \<Rightarrow> requests \<times> nat" where
  "record_request n now ch dest since t =
     (let seq = out_seq t + 1; entry = \<lparr>ask_at = now, ask_since = since, ask_dest = dest, ask_id = seq\<rparr>;
          entries = fold (\<lambda>form d. AList.update (ch, form) (get_or [] d (ch, form) @ [entry]) d)
                      (peer_key_forms n dest) (out_entries t)
      in (\<lparr>out_entries = entries, out_seq = seq\<rparr>, seq))"

text \<open>What the operations below share: the entries under one key that are kept, the key gone with the last.\<close>

definition set_entries :: "hexid \<times> hexid \<Rightarrow> request list \<Rightarrow> ((hexid \<times> hexid) \<times> request list) list \<Rightarrow> ((hexid \<times> hexid) \<times> request list) list" where
  "set_entries key es d = (if es = [] then AList.delete key d else AList.update key es d)"

definition keep_entries :: "(request list \<Rightarrow> request list) \<Rightarrow> hexid \<times> hexid \<Rightarrow> ((hexid \<times> hexid) \<times> request list) list \<Rightarrow> ((hexid \<times> hexid) \<times> request list) list" where
  "keep_entries f key d =
     (case map_of d key of None \<Rightarrow> d | Some es \<Rightarrow> if es = [] then d else set_entries key (f es) d)"

definition drop_request :: "rns \<Rightarrow> hexid \<Rightarrow> hexid \<Rightarrow> nat option \<Rightarrow> requests \<Rightarrow> requests" where
  "drop_request n ch dest rid t =
     t\<lparr>out_entries := fold (\<lambda>form. keep_entries (\<lambda>es. case rid of None \<Rightarrow> butlast es | Some i \<Rightarrow> filter (\<lambda>e. ask_id e \<noteq> i) es) (ch, form))
                        (peer_key_forms n dest) (out_entries t)\<rparr>"

definition expire_requests :: "rns \<Rightarrow> secs \<Rightarrow> hexid \<Rightarrow> hexid \<Rightarrow> requests \<Rightarrow> requests" where
  "expire_requests n now ch dest t =
     t\<lparr>out_entries := fold (\<lambda>form. keep_entries (filter (\<lambda>e. now - ask_at e < SYNC_RETRY_SECS)) (ch, form))
                        (peer_key_forms n dest) (out_entries t)\<rparr>"

definition fresh_entries :: "secs \<Rightarrow> ((hexid \<times> hexid) \<times> request list) list \<Rightarrow> ((hexid \<times> hexid) \<times> request list) list" where
  "fresh_entries now d =
     filter (\<lambda>(_, es). es \<noteq> []) (map (apsnd (filter (\<lambda>e. now - ask_at e \<le> SYNC_RESPONSE_WINDOW_SECS))) d)"

text \<open>The first form with an entry gives its oldest one.\<close>

fun take_oldest :: "hexid \<Rightarrow> hexid list \<Rightarrow> ((hexid \<times> hexid) \<times> request list) list \<Rightarrow> (((hexid \<times> hexid) \<times> request list) list \<times> request) option" where
  "take_oldest ch [] d = None"
| "take_oldest ch (form # forms) d =
     (case get_or [] d (ch, form) of
        [] \<Rightarrow> take_oldest ch forms d
      | e # es \<Rightarrow> Some (set_entries (ch, form) es d, e))"

definition claim_request :: "rns \<Rightarrow> secs \<Rightarrow> hexid \<Rightarrow> hexid \<Rightarrow> requests \<Rightarrow> requests \<times> (pyfloat \<times> hexid) option" where
  "claim_request n now ch responder t =
     (let d = fresh_entries now (out_entries t)
      in case take_oldest ch (peer_key_forms n responder) d of
           None \<Rightarrow> (t\<lparr>out_entries := d\<rparr>, None)
         | Some (d, e) \<Rightarrow>
             (t\<lparr>out_entries := fold (\<lambda>form. keep_entries (filter (\<lambda>x. ask_id x \<noteq> ask_id e)) (ch, form))
                                 (peer_key_forms n (ask_dest e)) d\<rparr>,
              Some (ask_since e, ask_dest e)))"

section \<open>Deep backfills served\<close>

definition DEEP_SYNC_COOLDOWN_SECS :: secs where "DEEP_SYNC_COOLDOWN_SECS = 60"
definition DEEP_SYNC_COOLDOWN_PRUNE_SECS :: secs where "DEEP_SYNC_COOLDOWN_PRUNE_SECS = 24 * 3600"
definition MAX_SYNC_CONTINUATIONS :: nat where "MAX_SYNC_CONTINUATIONS = 20"
definition DEEP_SYNC_BURST :: nat where "DEEP_SYNC_BURST = MAX_SYNC_CONTINUATIONS + 1"

text \<open>For a channel and a peer: when its window opened, the permissions of the channel then, and the
  messages served in it.\<close>

type_synonym deep_windows = "((hexid \<times> hexid) \<times> secs \<times> json_column \<times> nat) list"

definition channel_policy :: "store \<Rightarrow> hexid \<Rightarrow> json_column" where
  "channel_policy s ch = (case get_channel s ch of None \<Rightarrow> None | Some c \<Rightarrow> cr_permissions c)"

definition deep_sync_allowed :: "store \<Rightarrow> secs \<Rightarrow> hexid \<Rightarrow> hexid \<Rightarrow> bool \<Rightarrow> deep_windows \<Rightarrow> deep_windows \<times> bool" where
  "deep_sync_allowed s now ch requester continues d =
     (let key = (ch, requester); policy = channel_policy s ch;
          d = filter (\<lambda>(_, opened, _). \<not> now - opened > DEEP_SYNC_COOLDOWN_PRUNE_SECS) d
      in case map_of d key of
           Some (opened, p, served) \<Rightarrow>
             if now - opened < DEEP_SYNC_COOLDOWN_SECS \<and> p = policy then
               (if \<not> continues \<or> served \<ge> DEEP_SYNC_BURST then (d, False)
                else (AList.update key (opened, policy, served + 1) d, True))
             else (AList.update key (now, policy, 1) d, True)
         | None \<Rightarrow> (AList.update key (now, policy, 1) d, True))"

section \<open>Requests that announces set off\<close>

definition ANNOUNCE_SYNC_COOLDOWN_SECS :: secs where "ANNOUNCE_SYNC_COOLDOWN_SECS = 120"
definition ANNOUNCE_SYNC_PRUNE_SECS :: secs where "ANNOUNCE_SYNC_PRUNE_SECS = 3600"

type_synonym announce_times = "((hexid \<times> hexid) \<times> secs) list"

definition announce_sync_due :: "secs \<Rightarrow> hexid \<Rightarrow> hexid \<Rightarrow> announce_times \<Rightarrow> bool" where
  "announce_sync_due now ch peer d =
     (case map_of d (ch, peer) of None \<Rightarrow> True | Some t \<Rightarrow> now - t \<ge> ANNOUNCE_SYNC_COOLDOWN_SECS)"

definition record_announce_sync :: "secs \<Rightarrow> hexid \<Rightarrow> hexid \<Rightarrow> announce_times \<Rightarrow> announce_times" where
  "record_announce_sync now ch peer d =
     AList.update (ch, peer) now (filter (\<lambda>(_, t). \<not> now - t > ANNOUNCE_SYNC_PRUNE_SECS) d)"

end
