(* ===== verification/Sync.thy ===== *)
theory Sync
  imports Serving Pending Sync_Status
begin

text \<open>
  \<^verbatim>\<open>SyncManager\<close> of \<^verbatim>\<open>trenchchat/core/sync.py\<close>: its state, the requests it sends and everything that makes
  it send one. The answers it gives are in \<open>Sync_Answer\<close> and what it takes from answers in
  \<open>Sync_Intake\<close>. The manager holds a reaction manager and a subscription manager, and the tables are
  those of the outbox, so that flushing and cancelling messages are the operations modelled there.
  Sets are lists without repeats, gone through in the order they were filled. A channel hash that is
  not hexadecimal makes the building of a message raise; an operation that can raise says so, with
  the state it had reached.
\<close>

section \<open>State\<close>

definition PEER_TRUST_HORIZON_SECS :: secs where "PEER_TRUST_HORIZON_SECS = 300"
definition PROBE_AGREE_SECS :: secs where "PROBE_AGREE_SECS = 300"
definition SUSPECTED_GAP_GRACE_SECS :: secs where "SUSPECTED_GAP_GRACE_SECS = 5"
definition MAX_SUSPECTED_GAPS :: nat where "MAX_SUSPECTED_GAPS = 64"
definition MAX_SYNC_RETRIES :: nat where "MAX_SYNC_RETRIES = 5"
definition SYNC_RETRY_BACKOFF :: secs where "SYNC_RETRY_BACKOFF = 2"
definition MAX_QUEUED_HINTS_PER_PEER :: nat where "MAX_QUEUED_HINTS_PER_PEER = 50"
definition SYNC_CLOCK_SKEW_SECS :: secs where "SYNC_CLOCK_SKEW_SECS = MAX_CLOCK_SKEW_SECS"

abbreviation F_SYNC_WINDOW_START :: int where "F_SYNC_WINDOW_START \<equiv> 0x07"
abbreviation F_SYNC_MESSAGES :: int where "F_SYNC_MESSAGES \<equiv> 0x08"
abbreviation F_MISSED_FOR :: int where "F_MISSED_FOR \<equiv> 0x09"
abbreviation F_MISSED_MSG_ID :: int where "F_MISSED_MSG_ID \<equiv> 0x0A"
abbreviation F_SYNC_TRUNCATED :: int where "F_SYNC_TRUNCATED \<equiv> 0x50"
abbreviation F_SYNC_SCAN_CURSOR :: int where "F_SYNC_SCAN_CURSOR \<equiv> 0x51"
abbreviation F_SYNC_RANGES :: int where "F_SYNC_RANGES \<equiv> 0x52"
abbreviation F_SYNC_NEED :: int where "F_SYNC_NEED \<equiv> 0x53"
abbreviation F_SYNC_CONTINUES :: int where "F_SYNC_CONTINUES \<equiv> 0x54"
abbreviation F_SYNC_PROBE :: int where "F_SYNC_PROBE \<equiv> 0x55"
abbreviation F_AUTHOR_KEYS :: int where "F_AUTHOR_KEYS \<equiv> 0x71"

type_synonym pair_key = "hexid \<times> hexid"

record sync =
  sy_out :: outbox
  sy_progress :: "progress_row list"
  sy_served :: "progress_row list"
  sy_missed :: "missed_row list"
  sy_reactions :: reactions
  sy_subs :: subscriptions
  sy_status :: tracker
  sy_link :: link
  sy_requests :: requests
  sy_hints :: "(hexid \<times> fields list) list"
  sy_deep :: deep_windows
  sy_announced :: announce_times
  sy_retries :: "(pair_key \<times> nat) list"
  sy_continued :: "(pair_key \<times> nat) list"
  sy_asked :: "(pair_key \<times> sync_range list \<times> need list) list"
  sy_deferred :: "pair_key list"
  sy_seen :: "(pair_key \<times> secs \<times> bytes) list"
  sy_agreed :: "(pair_key \<times> secs) list"
  sy_unasked :: "pair_key list"
  sy_suspected :: "((hexid \<times> string) \<times> secs \<times> hexid \<times> secs) list"
  sy_policy :: "(hexid \<times> json_column \<times> string) list"

abbreviation sy_db :: "sync \<Rightarrow> message_db" where "sy_db s \<equiv> ob_db (sy_out s)"
abbreviation sy_store :: "sync \<Rightarrow> store" where "sy_store s \<equiv> db_store (sy_db s)"
abbreviation sy_rows :: "sync \<Rightarrow> message_row list" where "sy_rows s \<equiv> db_rows (sy_db s)"
abbreviation sy_rns :: "net \<Rightarrow> rns" where "sy_rns n \<equiv> ot_rns (nt_out n)"
abbreviation sy_sha :: "net \<Rightarrow> bytes \<Rightarrow> bytes" where "sy_sha n \<equiv> ot_sha (nt_out n)"

definition set_db :: "message_db \<Rightarrow> sync \<Rightarrow> sync" where
  "set_db db s = s\<lparr>sy_out := (sy_out s)\<lparr>ob_db := db\<rparr>\<rparr>"

text \<open>A manager started over what the tables and the other managers hold; hints of earlier sessions that
  are older than the window are purged.\<close>

definition new_sync ::
    "secs \<Rightarrow> outbox \<Rightarrow> progress_row list \<Rightarrow> progress_row list \<Rightarrow> missed_row list \<Rightarrow> reactions \<Rightarrow> subscriptions \<Rightarrow> sync" where
  "new_sync now o' progress served missed x u =
     \<lparr>sy_out = o', sy_progress = progress, sy_served = served,
      sy_missed = purge_old_missed_deliveries (now - SYNC_WINDOW_SECS) missed, sy_reactions = x, sy_subs = u,
      sy_status = new_tracker, sy_link = new_link SYNC_RESPONSE_WINDOW_SECS, sy_requests = new_requests,
      sy_hints = [], sy_deep = [], sy_announced = [], sy_retries = [], sy_continued = [], sy_asked = [],
      sy_deferred = [], sy_seen = [], sy_agreed = [], sy_unasked = [], sy_suspected = [], sy_policy = []\<rparr>"

text \<open>A loop that an exception ends; \<open>True\<close> says that one did.\<close>

fun each :: "('x \<Rightarrow> 's \<Rightarrow> 's \<times> bool) \<Rightarrow> 'x list \<Rightarrow> 's \<Rightarrow> 's \<times> bool" where
  "each f [] s = (s, False)"
| "each f (x # xs) s = (case f x s of (s, True) \<Rightarrow> (s, True) | (s, False) \<Rightarrow> each f xs s)"

section \<open>Sending\<close>

definition RETRY_EXEMPT_TYPES :: "pyval list" where
  "RETRY_EXEMPT_TYPES = [PStr MT_SYNC_REQUEST, PStr MT_MISSED_DELIVERY]"

definition sync_send :: "net \<Rightarrow> secs \<Rightarrow> hexid \<Rightarrow> fields \<Rightarrow> sync \<Rightarrow> sync \<times> bool" where
  "sync_send n now dest fs s =
     (let (l, sent) = send_link n now (\<lambda>fs. field_get fs F_MSG_TYPE \<in> set RETRY_EXEMPT_TYPES) dest fs (sy_link s)
      in (s\<lparr>sy_link := l\<rparr>, sent))"

definition control_fields :: "string \<Rightarrow> hexid \<Rightarrow> fields option" where
  "control_fields mt ch =
     map_option (\<lambda>b. [(PInt F_MSG_TYPE, PStr mt), (PInt F_CHANNEL_HASH, PBytes b)]) (fromhex ch)"

definition needs_value :: "need list \<Rightarrow> pyval" where
  "needs_value ns = PList (map (\<lambda>(lo, hi, p). PList [PFloat (Finite lo), PFloat (Finite hi), PBytes p]) ns)"

definition range_fields :: "net \<Rightarrow> sync_range list \<Rightarrow> need list \<Rightarrow> fields" where
  "range_fields n rs ns =
     (if rs = [] then [] else [(PInt F_SYNC_RANGES, PBytes (nt_packb n (ranges_value rs)))])
     @ (if ns = [] then [] else [(PInt F_SYNC_NEED, PBytes (nt_packb n (needs_value ns)))])"

section \<open>What a request says\<close>

definition resume_point :: "secs \<Rightarrow> hexid \<Rightarrow> hexid \<Rightarrow> sync \<Rightarrow> pyfloat" where
  "resume_point now ch peer s =
     (let progress = get_progress (sy_progress s) ch peer
      in if float_less (Finite 0) progress then progress else Finite (max (now - SYNC_WINDOW_SECS) 0))"

text \<open>The start of the window is finite: it is the floor unless the request starts before it.\<close>

definition reconcile_window :: "secs \<Rightarrow> pyfloat \<Rightarrow> secs \<times> secs" where
  "reconcile_window now since =
     (let floor = max (now - SYNC_WINDOW_SECS) 0
      in (case py_min (py_max since (Finite 0)) (Finite floor) of Finite lo \<Rightarrow> lo | _ \<Rightarrow> floor,
          now + SYNC_CLOCK_SKEW_SECS))"

definition signed_index :: "message_row list \<Rightarrow> hexid \<Rightarrow> secs \<Rightarrow> secs option \<Rightarrow> row list" where
  "signed_index rows ch lo hi = map index_row (filter row_is_signed (get_message_index rows ch lo hi))"

definition describe_local :: "net \<Rightarrow> message_row list \<Rightarrow> hexid \<Rightarrow> secs \<Rightarrow> secs \<Rightarrow> bool \<Rightarrow> sync_range list" where
  "describe_local n rows ch lo hi ladder = summarise (sy_sha n) (signed_index rows ch lo (Some hi)) lo hi ladder"

definition sync_policy_for :: "net \<Rightarrow> store \<Rightarrow> hexid \<Rightarrow> json_column \<times> string" where
  "sync_policy_for n s ch = (channel_policy s ch, or_empty (get_role s ch (nt_self n)))"

text \<open>\<^verbatim>\<open>_send_sync_request\<close>. The question is the ranges and needs the caller has worked out, or \<open>None\<close> for a
  summary of the window. The result is \<open>None\<close> where the channel hash makes it raise.\<close>

definition question_asked ::
    "net \<Rightarrow> secs \<Rightarrow> message_row list \<Rightarrow> hexid \<Rightarrow> pyfloat \<Rightarrow> (sync_range list \<times> need list) option \<Rightarrow> bool \<Rightarrow> sync_range list \<times> need list" where
  "question_asked n now rows ch since question ladder =
     (case question of
        Some q \<Rightarrow> q
      | None \<Rightarrow> (let (lo, hi) = reconcile_window now since in (describe_local n rows ch lo hi ladder, [])))"

definition begin_request :: "net \<Rightarrow> secs \<Rightarrow> hexid \<Rightarrow> hexid \<Rightarrow> pyfloat \<Rightarrow> bool \<Rightarrow> sync \<Rightarrow> sync \<times> nat" where
  "begin_request n now dest ch since continuation s =
     (let (t, rid) = record_request (sy_rns n) now ch dest since (sy_requests s)
      in (s\<lparr>sy_continued := (if continuation then sy_continued s else AList.delete (ch, dest) (sy_continued s)),
            sy_policy := AList.update ch (sync_policy_for n (sy_store s) ch) (sy_policy s), sy_requests := t\<rparr>, rid))"

definition request_fields :: "net \<Rightarrow> hexid \<Rightarrow> pyfloat \<Rightarrow> bool \<Rightarrow> sync_range list \<times> need list \<Rightarrow> fields option" where
  "request_fields n ch since continuation q =
     map_option (\<lambda>fs. fs @ [(PInt F_SYNC_WINDOW_START, PFloat since)] @ range_fields n (fst q) (snd q)
                      @ (if continuation then [(PInt F_SYNC_CONTINUES, PBool True)] else []))
       (control_fields MT_SYNC_REQUEST ch)"

definition request_went :: "secs \<Rightarrow> hexid \<Rightarrow> hexid \<Rightarrow> pyfloat \<Rightarrow> bool \<Rightarrow> sync_range list \<times> need list \<Rightarrow> sync \<Rightarrow> sync" where
  "request_went now dest ch since continuation q s =
     (let back = float_le since (Finite 0) \<or> float_less since (get_progress (sy_progress s) ch dest)
      in s\<lparr>sy_asked := AList.update (ch, dest) q (sy_asked s),
           sy_status := request_sent now ch dest continuation back (sy_status s)\<rparr>)"

definition request_failed :: "net \<Rightarrow> hexid \<Rightarrow> hexid \<Rightarrow> nat \<Rightarrow> sync \<Rightarrow> sync" where
  "request_failed n dest ch rid s =
     s\<lparr>sy_requests := drop_request (sy_rns n) ch dest (Some rid) (sy_requests s),
       sy_status := request_unreachable ch dest (sy_status s)\<rparr>"

definition send_sync_request ::
    "net \<Rightarrow> secs \<Rightarrow> hexid \<Rightarrow> hexid \<Rightarrow> pyfloat \<Rightarrow> bool \<Rightarrow> (sync_range list \<times> need list) option \<Rightarrow> bool \<Rightarrow> sync \<Rightarrow> sync \<times> bool option" where
  "send_sync_request n now dest ch since continuation question ladder s =
     (let q = question_asked n now (sy_rows s) ch since question ladder;
          (s, rid) = begin_request n now dest ch since continuation s
      in case request_fields n ch since continuation q of
           None \<Rightarrow> (s, None)
         | Some fs \<Rightarrow>
             (let s = (if continuation then s else s\<lparr>sy_deferred := removeAll (ch, dest) (sy_deferred s)\<rparr>)
              in case sync_send n now dest fs s of
                   (s, True) \<Rightarrow> (request_went now dest ch since continuation q s, Some True)
                 | (s, False) \<Rightarrow> (request_failed n dest ch rid s, Some False)))"

definition ask_peer :: "net \<Rightarrow> secs \<Rightarrow> hexid \<Rightarrow> hexid \<Rightarrow> pyfloat \<Rightarrow> sync \<Rightarrow> sync \<times> bool option" where
  "ask_peer n now dest ch since = send_sync_request n now dest ch since False None False"

definition raised :: "sync \<times> 'a option \<Rightarrow> sync \<times> bool" where
  "raised = apsnd (\<lambda>r. r = None)"

text \<open>\<^verbatim>\<open>_continue_sync\<close> and \<^verbatim>\<open>_continue_reconcile\<close>.\<close>

definition continue_sync ::
    "net \<Rightarrow> secs \<Rightarrow> hexid \<Rightarrow> hexid \<Rightarrow> pyfloat \<Rightarrow> (sync_range list \<times> need list) option \<Rightarrow> sync \<Rightarrow> sync \<times> bool option" where
  "continue_sync n now ch peer resume question s =
     (let count = get_or 0 (sy_continued s) (ch, peer)
      in if count \<ge> MAX_SYNC_CONTINUATIONS then (s, Some False)
         else send_sync_request n now peer ch resume True question True
                (s\<lparr>sy_continued := AList.update (ch, peer) (count + 1) (sy_continued s)\<rparr>))"

definition range_start :: "sync_range \<Rightarrow> secs" where
  "range_start r = (case r of FpRange lo _ _ _ \<Rightarrow> lo | IdRange lo _ _ \<Rightarrow> lo)"

definition continue_reconcile ::
    "net \<Rightarrow> secs \<Rightarrow> hexid \<Rightarrow> hexid \<Rightarrow> sync_range list \<Rightarrow> need list \<Rightarrow> sync \<Rightarrow> sync \<times> bool option" where
  "continue_reconcile n now ch peer rs ns s =
     (if rs = [] \<and> ns = [] then (s, Some False)
      else if map_of (sy_asked s) (ch, peer) = Some (rs, ns) then (s, Some False)
      else continue_sync n now ch peer (Finite (min_list (map range_start rs @ map fst ns))) (Some (rs, ns)) s)"

section \<open>Who is asked\<close>

definition get_channel_peers :: "net \<Rightarrow> sync \<Rightarrow> hexid \<Rightarrow> hexid list" where
  "get_channel_peers n s ch =
     filter (\<lambda>h. h \<noteq> nt_self n)
       (remdups (get_subscribers (sy_subs s) ch @ map mb_id (get_members (sy_store s) ch)
          @ (case get_channel (sy_store s) ch of None \<Rightarrow> [] | Some c \<Rightarrow> [cr_creator c])))"

definition request_sync_for_channel :: "net \<Rightarrow> secs \<Rightarrow> hexid \<Rightarrow> pyfloat option \<Rightarrow> sync \<Rightarrow> sync \<times> bool" where
  "request_sync_for_channel n now ch since s =
     (let since = (case map_of (sy_policy s) ch of
                     None \<Rightarrow> since
                   | Some previous \<Rightarrow> if previous \<noteq> sync_policy_for n (sy_store s) ch then Some (Finite 0) else since);
          peers = get_channel_peers n s ch
      in if peers = [] then (s\<lparr>sy_status := note_no_peers ch (sy_status s)\<rparr>, False)
         else each (\<lambda>peer s. raised (ask_peer n now peer ch
                       (case since of Some t \<Rightarrow> t | None \<Rightarrow> resume_point now ch peer s) s)) peers s)"

definition request_sync_all :: "net \<Rightarrow> secs \<Rightarrow> sync \<Rightarrow> sync \<times> bool" where
  "request_sync_all n now s =
     each (\<lambda>sb. request_sync_for_channel n now (sb_channel sb) None) (st_subs (sy_store s)) (s\<lparr>sy_announced := []\<rparr>)"

definition on_channel_joined :: "net \<Rightarrow> secs \<Rightarrow> hexid \<Rightarrow> sync \<Rightarrow> sync \<times> bool" where
  "on_channel_joined n now ch = request_sync_for_channel n now ch (Some (Finite 0))"

definition on_member_list_updated :: "net \<Rightarrow> hexid \<Rightarrow> sync \<Rightarrow> sync" where
  "on_member_list_updated n ch s =
     (if is_member (sy_store s) ch (nt_self n) then s
      else s\<lparr>sy_out := cancel_pending_for_channel ch (sy_out s)\<rparr>)"

section \<open>Hints\<close>

definition queue_hint :: "net \<Rightarrow> hexid \<Rightarrow> fields \<Rightarrow> sync \<Rightarrow> sync" where
  "queue_hint n dest fs s =
     (case recall_peer n dest of
        Inl _ \<Rightarrow> s
      | Inr (d, _) \<Rightarrow>
          (let queued = get_or [] (sy_hints s) dest @ [fs];
               queued = (if length queued > MAX_QUEUED_HINTS_PER_PEER then tl queued else queued)
           in s\<lparr>sy_link := (sy_link s)\<lparr>lk_paths := lk_paths (sy_link s) @ [d]\<rparr>,
                sy_hints := AList.update dest queued (sy_hints s)\<rparr>))"

definition send_hint :: "net \<Rightarrow> secs \<Rightarrow> hexid \<Rightarrow> fields \<Rightarrow> sync \<Rightarrow> sync" where
  "send_hint n now dest fs s =
     (case sync_send n now dest fs s of (s, True) \<Rightarrow> s | (s, False) \<Rightarrow> queue_hint n dest fs s)"

definition flush_hints :: "net \<Rightarrow> secs \<Rightarrow> hexid \<Rightarrow> sync \<Rightarrow> sync" where
  "flush_hints n now dest s =
     fold (send_hint n now dest) (get_or [] (sy_hints s) dest) (s\<lparr>sy_hints := AList.delete dest (sy_hints s)\<rparr>)"

definition hint_fields :: "hexid \<Rightarrow> hexid \<Rightarrow> string \<Rightarrow> fields option" where
  "hint_fields ch missed mid =
     map_option (\<lambda>fs. fs @ [(PInt F_MISSED_FOR, PStr missed), (PInt F_MISSED_MSG_ID, message_id_to_wire (Some mid))])
       (control_fields MT_MISSED_DELIVERY ch)"

definition on_missed_delivery_event :: "net \<Rightarrow> secs \<Rightarrow> hexid \<Rightarrow> hexid \<Rightarrow> string \<Rightarrow> hexid list \<Rightarrow> sync \<Rightarrow> sync \<times> bool" where
  "on_missed_delivery_event n now ch missed mid subs s =
     (case each (\<lambda>dest s. case hint_fields ch missed mid of
                            None \<Rightarrow> (s, True)
                          | Some fs \<Rightarrow> (send_hint n now dest fs s, False))
             (filter (\<lambda>dest. dest \<noteq> nt_self n \<and> dest \<noteq> missed) subs) s of
        (s, True) \<Rightarrow> (s, True)
      | (s, False) \<Rightarrow> (s\<lparr>sy_missed := record_missed_delivery now ch missed mid (sy_missed s)\<rparr>, False))"

definition coerce_str :: "outside \<Rightarrow> pyval \<Rightarrow> string" where
  "coerce_str k v = (case v of PBytes b \<Rightarrow> ot_decode k b | PStr t \<Rightarrow> t | PNone \<Rightarrow> [] | _ \<Rightarrow> ot_str k v)"

definition handle_missed_delivery :: "net \<Rightarrow> secs \<Rightarrow> fields \<Rightarrow> hexid \<Rightarrow> hexid \<Rightarrow> sync \<Rightarrow> sync" where
  "handle_missed_delivery n now fs ch sender s =
     (let missed = coerce_str (nt_out n) (get_or (PStr []) fs (PInt F_MISSED_FOR));
          mid = message_id_from_wire (ot_decode (nt_out n)) (field_get fs F_MISSED_MSG_ID)
      in if peer_may_participate (sy_store s) ch sender \<noteq> Inr True then s
         else if \<not> is_identity_hex missed \<or> \<not> is_message_id mid then s
         else let s = s\<lparr>sy_missed := record_missed_delivery now ch missed mid (sy_missed s)\<rparr>
              in if missed = nt_self n \<and> \<not> has_message (sy_rows s) ch mid
                 then s\<lparr>sy_status := note_gap ch (sy_status s)\<rparr> else s)"

section \<open>Gaps that messages reveal\<close>

definition note_reference :: "net \<Rightarrow> secs \<Rightarrow> hexid \<Rightarrow> string \<Rightarrow> sync \<Rightarrow> sync" where
  "note_reference n now ch mid s =
     (case get_message (sy_rows s) ch mid of
        None \<Rightarrow> s
      | Some r \<Rightarrow>
          (let referenced = or_empty (ms_last_seen r); author = ms_sender r; key = (ch, referenced)
           in if referenced = [] \<or> author = [] \<or> author = nt_self n \<or> \<not> is_message_id referenced
                 \<or> has_message (sy_rows s) ch referenced then s
              else if map_of (sy_suspected s) key \<noteq> None \<or> length (sy_suspected s) \<ge> MAX_SUSPECTED_GAPS then s
              else s\<lparr>sy_suspected := AList.update key (now + SUSPECTED_GAP_GRACE_SECS, author, ms_ts r) (sy_suspected s)\<rparr>))"

definition on_message_stored :: "net \<Rightarrow> secs \<Rightarrow> hexid \<Rightarrow> string \<Rightarrow> sync \<Rightarrow> sync" where
  "on_message_stored n now ch mid s =
     (let s = note_reference n now ch mid s
      in if \<not> has_gap (sy_status s) ch then s
         else let outstanding = get_missed_message_ids (sy_missed s) ch (nt_self n)
              in if outstanding = [] \<or> list_ex (\<lambda>m. \<not> has_message (sy_rows s) ch m) outstanding then s
                 else s\<lparr>sy_missed := clear_missed_deliveries ch (nt_self n) (sy_missed s),
                        sy_status := clear_gap ch (sy_status s)\<rparr>)"

text \<open>The references that are due and still missing, as needs by channel and author.\<close>

definition due_gaps :: "secs \<Rightarrow> sync \<Rightarrow> (pair_key \<times> need list) list" where
  "due_gaps now s =
     foldl (\<lambda>d ((ch, referenced), tm, author, ts).
        if tm > now \<or> has_message (sy_rows s) ch referenced then d
        else AList.update (ch, author)
               (get_or [] d (ch, author) @ [(ts - SYNC_WINDOW_SECS, ts + SYNC_CLOCK_SKEW_SECS, id_prefix referenced)]) d)
       [] (sy_suspected s)"

definition ask_gap :: "net \<Rightarrow> secs \<Rightarrow> pair_key \<times> need list \<Rightarrow> sync \<Rightarrow> sync \<times> bool" where
  "ask_gap n now gap s =
     (let ((ch, author), needs) = gap
      in if \<not> is_subscribed (sy_store s) ch \<or> peer_may_participate (sy_store s) ch author \<noteq> Inr True then (s, False)
         else raised (send_sync_request n now author ch (resume_point now ch author s) False
                        (Some ([], take MAX_NEED_IDS needs)) False s))"

definition ask_suspected_gaps :: "net \<Rightarrow> secs \<Rightarrow> sync \<Rightarrow> sync \<times> bool" where
  "ask_suspected_gaps n now s =
     each (ask_gap n now) (due_gaps now s) (s\<lparr>sy_suspected := filter (\<lambda>(_, tm, _). tm > now) (sy_suspected s)\<rparr>)"

section \<open>Probes\<close>

definition local_probe :: "net \<Rightarrow> secs \<Rightarrow> hexid \<Rightarrow> sync \<Rightarrow> nat \<times> bytes" where
  "local_probe n now ch s = probe (sy_sha n) (signed_index (sy_rows s) ch (probe_floor now) None)"

definition prune_probes :: "secs \<Rightarrow> sync \<Rightarrow> sync" where
  "prune_probes now s =
     s\<lparr>sy_seen := filter (\<lambda>(_, tm, _). \<not> now - tm > ANNOUNCE_SYNC_PRUNE_SECS) (sy_seen s),
       sy_agreed := filter (\<lambda>(_, tm). \<not> now - tm > ANNOUNCE_SYNC_PRUNE_SECS) (sy_agreed s)\<rparr>"

definition probe_agreed_recently :: "secs \<Rightarrow> hexid \<Rightarrow> hexid \<Rightarrow> sync \<Rightarrow> bool" where
  "probe_agreed_recently now ch peer s =
     (case map_of (sy_agreed s) (ch, peer) of None \<Rightarrow> False | Some tm \<Rightarrow> now - tm < PROBE_AGREE_SECS)"

definition ask_after_probe :: "net \<Rightarrow> secs \<Rightarrow> pair_key \<Rightarrow> sync \<Rightarrow> sync \<times> bool" where
  "ask_after_probe n now key s =
     (let (ch, peer) = key
      in if \<not> announce_sync_due now ch peer (sy_announced s) then (s, False)
         else case send_sync_request n now peer ch (resume_point now ch peer s) False None True s of
                (s, None) \<Rightarrow> (s, True)
              | (s, Some False) \<Rightarrow> (s, False)
              | (s, Some True) \<Rightarrow>
                  (s\<lparr>sy_announced := record_announce_sync now ch peer (sy_announced s),
                     sy_unasked := removeAll key (sy_unasked s)\<rparr>, False))"

text \<open>One probe of a beacon; the flag says whether the pair is to be asked.\<close>

definition note_probe :: "net \<Rightarrow> secs \<Rightarrow> hexid \<Rightarrow> bytes \<times> nat \<times> bytes \<Rightarrow> sync \<Rightarrow> sync \<times> bool" where
  "note_probe n now sender p s =
     (let (channel, count, digest) = p; ch = to_hex channel; key = (ch, sender)
      in if \<not> is_subscribed (sy_store s) ch \<or> peer_may_participate (sy_store s) ch sender \<noteq> Inr True then (s, False)
         else let mine = local_probe n now ch s; s = prune_probes now s; seen = map_of (sy_seen s) key;
                  s = s\<lparr>sy_seen := AList.update key (now, digest) (sy_seen s)\<rparr>
              in if mine = (count, digest)
                 then (s\<lparr>sy_agreed := AList.update key now (sy_agreed s), sy_unasked := removeAll key (sy_unasked s)\<rparr>, False)
                 else if map_option snd seen = Some digest then (s, False)
                 else (s\<lparr>sy_unasked := List.insert key (sy_unasked s)\<rparr>, True))"

fun note_probes :: "net \<Rightarrow> secs \<Rightarrow> hexid \<Rightarrow> (bytes \<times> nat \<times> bytes) list \<Rightarrow> sync \<Rightarrow> sync \<times> pair_key list" where
  "note_probes n now sender [] s = (s, [])"
| "note_probes n now sender (p # ps) s =
     (let (s, ask) = note_probe n now sender p s; (s, to_ask) = note_probes n now sender ps s
      in (s, (if ask then [(to_hex (fst p), sender)] else []) @ to_ask))"

definition handle_probes :: "net \<Rightarrow> secs \<Rightarrow> fields \<Rightarrow> hexid \<Rightarrow> sync \<Rightarrow> sync" where
  "handle_probes n now fs sender s =
     (case unpack_with (ot_unpackb (nt_out n)) validate_probes (field_get fs F_SYNC_PROBE) of
        None \<Rightarrow> s
      | Some probes \<Rightarrow>
          if sender = [] then s
          else let (s, to_ask) = note_probes n now sender probes s in fst (each (ask_after_probe n now) to_ask s))"

definition flush_probe_pending :: "net \<Rightarrow> secs \<Rightarrow> sync \<Rightarrow> sync \<times> bool" where
  "flush_probe_pending n now s =
     each (\<lambda>key s. if \<not> is_subscribed (sy_store s) (fst key)
                   then (s\<lparr>sy_unasked := removeAll key (sy_unasked s)\<rparr>, False)
                   else ask_after_probe n now key s) (sy_unasked s) s"

section \<open>Peers that appear, and the clock\<close>

definition ask_on_announce :: "net \<Rightarrow> secs \<Rightarrow> hexid \<Rightarrow> hexid \<Rightarrow> sync \<Rightarrow> sync \<times> bool" where
  "ask_on_announce n now peer ch s =
     (if peer \<notin> set (get_channel_peers n s ch) \<or> \<not> announce_sync_due now ch peer (sy_announced s)
         \<or> probe_agreed_recently now ch peer s then (s, False)
      else case ask_peer n now peer ch (resume_point now ch peer s) s of
             (s, None) \<Rightarrow> (s, True)
           | (s, Some False) \<Rightarrow> (s, False)
           | (s, Some True) \<Rightarrow> (s\<lparr>sy_announced := record_announce_sync now ch peer (sy_announced s)\<rparr>, False))"

text \<open>What the router quarantined is delivered again by the router, as messages of their own.\<close>

definition on_peer_appeared :: "net \<Rightarrow> secs \<Rightarrow> hexid \<Rightarrow> sync \<Rightarrow> sync \<times> bool" where
  "on_peer_appeared n now peer s =
     (if peer = nt_self n then (s, False)
      else let s = s\<lparr>sy_out := flush_outbox n peer (sy_out s)\<rparr>;
               (l, _) = flush_link n now (\<lambda>fs. field_get fs F_MSG_TYPE \<in> set RETRY_EXEMPT_TYPES) peer (sy_link s);
               s = flush_hints n now peer (s\<lparr>sy_link := l\<rparr>)
           in each (\<lambda>sb. ask_on_announce n now peer (sb_channel sb)) (st_subs (sy_store s)) s)"

text \<open>The peers whose answer is overdue, by channel.\<close>

definition overdue :: "secs \<Rightarrow> sync \<Rightarrow> hexid \<Rightarrow> request \<Rightarrow> bool" where
  "overdue now s ch e =
     (now - ask_at e \<ge> SYNC_RETRY_SECS * SYNC_RETRY_BACKOFF ^ get_or 0 (sy_retries s) (ch, ask_dest e))"

definition stale_peers :: "secs \<Rightarrow> sync \<Rightarrow> (hexid \<times> hexid list) list" where
  "stale_peers now s =
     foldl (\<lambda>d ((ch, form), es).
        foldl (\<lambda>d e. AList.update ch (List.insert (ask_dest e) (get_or [] d ch)) d) d (filter (overdue now s ch) es))
       [] (out_entries (sy_requests s))"

definition retry_peer :: "net \<Rightarrow> secs \<Rightarrow> hexid \<Rightarrow> hexid \<Rightarrow> sync \<Rightarrow> sync \<times> bool" where
  "retry_peer n now ch peer s =
     (let s = s\<lparr>sy_requests := expire_requests (sy_rns n) now ch peer (sy_requests s)\<rparr>;
          tries = get_or 0 (sy_retries s) (ch, peer)
      in if tries \<ge> MAX_SYNC_RETRIES then (s, False)
         else let s = s\<lparr>sy_retries := AList.update (ch, peer) (tries + 1) (sy_retries s)\<rparr>
              in raised (ask_peer n now peer ch (resume_point now ch peer s) s))"

definition retry_channel :: "net \<Rightarrow> secs \<Rightarrow> hexid \<times> hexid list \<Rightarrow> sync \<Rightarrow> sync \<times> bool" where
  "retry_channel n now cp s =
     (if \<not> is_subscribed (sy_store s) (fst cp) then (s, False)
      else each (retry_peer n now (fst cp)) (snd cp) s)"

definition sync_tick :: "net \<Rightarrow> secs \<Rightarrow> sync \<Rightarrow> sync \<times> bool" where
  "sync_tick n now s =
     (case flush_probe_pending n now s of
        (s, True) \<Rightarrow> (s, True)
      | (s, False) \<Rightarrow>
          (case ask_suspected_gaps n now s of
             (s, True) \<Rightarrow> (s, True)
           | (s, False) \<Rightarrow> each (retry_channel n now) (stale_peers now s) s))"

end
