(* ===== verification/Sync_Answer.thy ===== *)
theory Sync_Answer
  imports Sync
begin

text \<open>
  How \<^verbatim>\<open>SyncManager\<close> answers: \<^verbatim>\<open>_handle_sync_request\<close> with the answer it builds, and \<^verbatim>\<open>_answer_needs\<close>. Every
  refusal is silent on the wire. A start that a peer sends can be infinite or no number.
\<close>

section \<open>The answer\<close>

text \<open>The fields both kinds of answer share: the rows, whether more remains, and the keys of their authors;
  looking a key up may learn it. \<open>None\<close> where the channel hash makes it raise.\<close>

definition payload_value :: "reactions \<Rightarrow> message_row list \<Rightarrow> pyval" where
  "payload_value x rows = PList (map (row_to_payload (rx_rows x)) rows)"

definition response_fields :: "net \<Rightarrow> reactions \<Rightarrow> hexid \<Rightarrow> message_row list \<Rightarrow> bool \<Rightarrow> fields option" where
  "response_fields n x ch rows truncated =
     map_option (\<lambda>fs. fs @ [(PInt F_SYNC_MESSAGES, PBytes (nt_packb n (payload_value x rows))),
                            (PInt F_SYNC_TRUNCATED, PBool truncated)])
       (control_fields MT_SYNC_RESPONSE ch)"

definition author_key_fields :: "(hexid \<times> bytes) list \<Rightarrow> fields" where
  "author_key_fields found =
     (if found = [] then [] else [(PInt F_AUTHOR_KEYS, PDict (map (\<lambda>(h, k). (PStr h, PBytes k)) found))])"

definition collect_author_keys :: "net \<Rightarrow> secs \<Rightarrow> message_row list \<Rightarrow> sync \<Rightarrow> sync \<times> (hexid \<times> bytes) list" where
  "collect_author_keys n now rows s =
     (let (ks, found) = author_keys_for (sy_rns n) now rows (db_keys (sy_db s)) []
      in (set_db ((sy_db s)\<lparr>db_keys := ks\<rparr>) s, found))"

section \<open>What a request asks for\<close>

definition window_start_of :: "net \<Rightarrow> secs \<Rightarrow> fields \<Rightarrow> py_error + pyfloat" where
  "window_start_of n now fs =
     (case float_of (ot_parse_float (nt_out n)) (get_or (PFloat (Finite 0)) fs (PInt F_SYNC_WINDOW_START)) of
        Inr t \<Rightarrow> Inr (py_max t (Finite 0))
      | Inl TypeError \<Rightarrow> Inr (py_max (Finite (now - SYNC_WINDOW_SECS)) (Finite 0))
      | Inl ValueError \<Rightarrow> Inr (py_max (Finite (now - SYNC_WINDOW_SECS)) (Finite 0))
      | Inl e \<Rightarrow> Inl e)"

text \<open>The rows of the hints that name the requester, as far as it may see them.\<close>

definition hinted_rows :: "(message_row \<Rightarrow> bool) \<Rightarrow> sync \<Rightarrow> hexid \<Rightarrow> hexid \<Rightarrow> message_row list" where
  "hinted_rows test s ch requester =
     filter test (rows_by_ids (sy_rows s) ch (get_missed_message_ids (sy_missed s) ch requester))"

definition is_deep :: "secs \<Rightarrow> pyfloat \<Rightarrow> (sync_range list \<times> need list) option \<Rightarrow> bool" where
  "is_deep now start question =
     (case question of
        Some (ranges, _) \<Rightarrow> list_ex (\<lambda>r. range_start r < now - SYNC_WINDOW_SECS - SYNC_CLOCK_SKEW_SECS) ranges
      | None \<Rightarrow> float_less start (Finite (now - SYNC_WINDOW_SECS)))"

definition sweep_start_of :: "pyfloat \<Rightarrow> pyfloat \<Rightarrow> pyfloat" where
  "sweep_start_of served start =
     (let trust = py_max (py_max served (float_shift start (- PEER_TRUST_HORIZON_SECS))) (Finite 0)
      in py_min start trust)"

text \<open>The rows of an answer before it is cut, what is described back and asked for, whether more remains and
  how far the sweep came.\<close>

record answer =
  an_rows :: "message_row list"
  an_ranges :: "sync_range list"
  an_needs :: "need list"
  an_further :: bool
  an_cursor :: pyfloat

definition reconciled_answer ::
    "net \<Rightarrow> (message_row \<Rightarrow> bool) \<Rightarrow> sync \<Rightarrow> hexid \<Rightarrow> hexid \<Rightarrow> sync_range list \<times> need list \<Rightarrow> answer" where
  "reconciled_answer n test s ch requester question =
     (let (rs, ns) = question;
          (rows, ranges, needs, further) =
            (if rs = [] \<and> ns = [] then ([], [], [], False)
             else reconcile_with (sy_sha n) (nt_packb n) test (sy_rows s) ch rs ns)
      in \<lparr>an_rows = merge_rows [hinted_rows test s ch requester, rows], an_ranges = ranges, an_needs = needs,
          an_further = further, an_cursor = Finite 0\<rparr>)"

definition swept_answer :: "net \<Rightarrow> (message_row \<Rightarrow> bool) \<Rightarrow> sync \<Rightarrow> hexid \<Rightarrow> hexid \<Rightarrow> pyfloat \<Rightarrow> answer" where
  "swept_answer n test s ch requester start =
     (let w = sweep_pages test (sy_rows s) ch (new_sweep start); rows = sw_permitted w;
          frontier = (if rows = [] then start else Finite (ms_ts (last rows)))
      in \<lparr>an_rows = merge_rows [filter (\<lambda>r. float_le (Finite (ms_ts r)) frontier) (hinted_rows test s ch requester), rows],
          an_ranges = [], an_needs = [], an_further = sw_truncated w, an_cursor = sw_cursor w\<rparr>)"

text \<open>What is done once the answer went out: remembering how far the peer was served, and dropping the
  hints that were.\<close>

definition after_answer :: "hexid \<Rightarrow> hexid \<Rightarrow> pyfloat \<Rightarrow> message_row list \<Rightarrow> sync \<Rightarrow> sync" where
  "after_answer ch requester cursor rows s =
     (let advance = (if rows = [] then cursor else py_max cursor (Finite (ms_ts (last rows))));
          s = (if float_less (get_progress (sy_served s) ch requester) advance
               then s\<lparr>sy_served := advance_progress ch requester advance (sy_served s)\<rparr> else s);
          missed = get_missed_message_ids (sy_missed s) ch requester
      in if missed \<noteq> [] \<and> set missed \<subseteq> set (map ms_id rows)
         then s\<lparr>sy_missed := clear_missed_deliveries ch requester (sy_missed s)\<rparr> else s)"

text \<open>Sending it: a row asked for in the answer makes it a request of our own.\<close>

definition answer_tail :: "net \<Rightarrow> bool \<Rightarrow> answer \<Rightarrow> bool \<Rightarrow> (hexid \<times> bytes) list \<Rightarrow> fields" where
  "answer_tail n reconciling a truncated found =
     author_key_fields found @ range_fields n (an_ranges a) (an_needs a)
     @ (if truncated \<and> \<not> reconciling then [(PInt F_SYNC_SCAN_CURSOR, PFloat (an_cursor a))] else [])"

definition await_needs :: "net \<Rightarrow> secs \<Rightarrow> hexid \<Rightarrow> hexid \<Rightarrow> answer \<Rightarrow> sync \<Rightarrow> sync \<times> nat" where
  "await_needs n now ch requester a s =
     (if an_needs a = [] then (s, 0)
      else let (t, rid) = record_request (sy_rns n) now ch requester (Finite 0) (sy_requests s)
           in (s\<lparr>sy_requests := t\<rparr>, rid))"

definition settle_needs :: "net \<Rightarrow> secs \<Rightarrow> hexid \<Rightarrow> hexid \<Rightarrow> answer \<Rightarrow> nat \<Rightarrow> bool \<Rightarrow> sync \<Rightarrow> sync" where
  "settle_needs n now ch requester a rid sent s =
     (if an_needs a = [] then s
      else if sent then s\<lparr>sy_status := request_sent now ch requester False False (sy_status s)\<rparr>
      else s\<lparr>sy_requests := drop_request (sy_rns n) ch requester (Some rid) (sy_requests s)\<rparr>)"

definition deliver_answer :: "net \<Rightarrow> secs \<Rightarrow> hexid \<Rightarrow> hexid \<Rightarrow> answer \<Rightarrow> message_row list \<Rightarrow> fields \<Rightarrow> sync \<Rightarrow> sync" where
  "deliver_answer n now ch requester a rows fs s =
     (let (s, rid) = await_needs n now ch requester a s; (s, sent) = sync_send n now requester fs s;
          s = settle_needs n now ch requester a rid sent s
      in if sent then after_answer ch requester (an_cursor a) rows s else s)"

definition send_answer :: "net \<Rightarrow> secs \<Rightarrow> hexid \<Rightarrow> hexid \<Rightarrow> bool \<Rightarrow> answer \<Rightarrow> sync \<Rightarrow> sync" where
  "send_answer n now ch requester reconciling a s =
     (let (rows, capped) = truncate_at_group_boundary (an_rows a); truncated = (an_further a \<or> capped)
      in case response_fields n (sy_reactions s) ch rows truncated of
           None \<Rightarrow> s
         | Some fs \<Rightarrow>
             (let (s, found) = collect_author_keys n now rows s
              in deliver_answer n now ch requester a rows (fs @ answer_tail n reconciling a truncated found) s))"

text \<open>What the request asks, if it describes anything, and whether a request that reaches back is let through.\<close>

definition question_of :: "sync_range list option \<Rightarrow> need list option \<Rightarrow> (sync_range list \<times> need list) option" where
  "question_of ranges needs =
     (if ranges = None \<and> needs = None then None else Some (or_empty ranges, or_empty needs))"

definition deep_gate ::
    "secs \<Rightarrow> fields \<Rightarrow> hexid \<Rightarrow> hexid \<Rightarrow> pyfloat \<Rightarrow> (sync_range list \<times> need list) option \<Rightarrow> sync \<Rightarrow> deep_windows \<times> bool" where
  "deep_gate now fs ch requester start question s =
     (let continues = (question \<noteq> None \<and> truthy (get_or (PBool False) fs (PInt F_SYNC_CONTINUES)))
      in if is_deep now start question
         then deep_sync_allowed (sy_store s) now ch requester continues (sy_deep s)
         else (sy_deep s, True))"

definition build_answer ::
    "net \<Rightarrow> (message_row \<Rightarrow> bool) \<Rightarrow> hexid \<Rightarrow> hexid \<Rightarrow> pyfloat \<Rightarrow> (sync_range list \<times> need list) option \<Rightarrow> sync \<Rightarrow> answer" where
  "build_answer n test ch requester start question s =
     (case question of
        Some q \<Rightarrow> reconciled_answer n test s ch requester q
      | None \<Rightarrow> swept_answer n test s ch requester (sweep_start_of (get_progress (sy_served s) ch requester) start))"

text \<open>The test every row of an answer passes; it is made once, as it is the same for each use.\<close>

definition handle_sync_request :: "net \<Rightarrow> secs \<Rightarrow> fields \<Rightarrow> hexid \<Rightarrow> hexid \<Rightarrow> sync \<Rightarrow> sync" where
  "handle_sync_request n now fs ch requester s =
     (if \<not> is_subscribed (sy_store s) ch \<or> peer_may_participate (sy_store s) ch requester \<noteq> Inr True then s
      else case window_start_of n now fs of
             Inl _ \<Rightarrow> s
           | Inr start \<Rightarrow>
               (case read_reconcile_fields (ot_unpackb (nt_out n)) fs of
                  (_, _, True) \<Rightarrow> s
                | (ranges, needs, False) \<Rightarrow>
                    (let question = question_of ranges needs;
                         (deep, allowed) = deep_gate now fs ch requester start question s;
                         s = s\<lparr>sy_deep := deep\<rparr>
                     in if \<not> allowed then s
                        else case relay_test (sy_store s) (get_channel (sy_store s) ch) ch requester of
                               Inl _ \<Rightarrow> s
                             | Inr test \<Rightarrow>
                                 send_answer n now ch requester (question \<noteq> None)
                                   (build_answer n test ch requester start question s) s)))"

section \<open>Rows a responder asked for\<close>

definition answer_needs :: "net \<Rightarrow> secs \<Rightarrow> hexid \<Rightarrow> hexid \<Rightarrow> need list \<Rightarrow> sync \<Rightarrow> sync \<times> bool" where
  "answer_needs n now ch peer needs s =
     (if peer_may_participate (sy_store s) ch peer \<noteq> Inr True then (s, False)
      else case relay_test (sy_store s) (get_channel (sy_store s) ch) ch peer of
             Inl _ \<Rightarrow> (s, True)
           | Inr test \<Rightarrow>
               (let (rows, capped) = truncate_at_group_boundary (rows_for_needs test (sy_rows s) ch needs)
                in case response_fields n (sy_reactions s) ch rows capped of
                     None \<Rightarrow> (s, True)
                   | Some fs \<Rightarrow>
                       (let (s, found) = collect_author_keys n now rows s
                        in (fst (sync_send n now peer (fs @ author_key_fields found) s), False))))"

end
