(* ===== verification/Sync_Intake.thy ===== *)
theory Sync_Intake
  imports Sync_Answer
begin

text \<open>
  What \<^verbatim>\<open>SyncManager\<close> takes from an answer: \<^verbatim>\<open>_handle_sync_response\<close> with the reactions and keys that ride
  along, the narrowing of what still differs, and the dispatch of inbound messages. A row is whatever
  msgpack gives. An exception inside the loop counts the row as failed; one in the handler of that
  exception ends the whole operation. A sender that is no text is never an identity of the tenure
  table or of the key cache. A name that arrives as bytes is stored as its text here.
\<close>

section \<open>One row\<close>

text \<open>What becomes of a row before it is stored: withheld by tenure, refused (with the time that then bounds
  the watermark), failed by an exception, or a claim to be stored.\<close>

datatype judged = Withheld | Refused "secs option" | Failed secs | Judged claimed hexid

text \<open>A text column that is bound unconverted: NULL and NaN violate the schema, containers raise.\<close>

datatype bound = Bound string | Violates | Raises

definition bound_text :: "outside \<Rightarrow> pyval \<Rightarrow> bound" where
  "bound_text k v =
     (case v of
        PStr t \<Rightarrow> Bound t
      | PBytes b \<Rightarrow> Bound (ot_decode k b)
      | PNone \<Rightarrow> Violates
      | PFloat NotANumber \<Rightarrow> Violates
      | _ \<Rightarrow> if bind_error v = None then Bound (ot_str k v) else Raises)"

definition row_text :: "outside \<Rightarrow> pyval \<Rightarrow> string" where
  "row_text k v = (case v of PBytes b \<Rightarrow> ot_decode k b | PStr t \<Rightarrow> t | _ \<Rightarrow> ot_str k v)"

definition some_id :: "outside \<Rightarrow> pyval \<Rightarrow> string option" where
  "some_id k v = some_text (message_id_from_wire (ot_decode k) v)"

definition row_manifest :: "outside \<Rightarrow> fields \<Rightarrow> manifest option" where
  "row_manifest k m =
     manifest_from_wire (ot_decode k) (env_get m ''file_name'') (env_get m ''file_size'') (env_get m ''file_hash'')
       (env_get m ''file_chunk_root'')"

text \<open>Whether our own reading of tenure withholds a row of this sender and time; a sender that cannot be
  bound or shown makes it raise.\<close>

datatype tenure_says = Passes | Withholds | Breaks

definition tenure_test :: "net \<Rightarrow> store \<Rightarrow> hexid \<Rightarrow> bool \<Rightarrow> pyval \<Rightarrow> secs \<Rightarrow> tenure_says" where
  "tenure_test n st ch full_sync sender ts =
     (if \<not> has_any_tenure st ch then Passes
      else case sender of
             PStr h \<Rightarrow> if \<not> was_member_at st ch h ts then Withholds
                       else if full_sync \<or> was_member_at st ch (nt_self n) ts then Passes else Withholds
           | PBytes _ \<Rightarrow> Withholds
           | _ \<Rightarrow> Breaks)"

text \<open>The signed part of a row, as the responder sent it.\<close>

definition row_signed :: "outside \<Rightarrow> fields \<Rightarrow> string \<Rightarrow> secs \<Rightarrow> signed_message" where
  "row_signed k m mid ts =
     \<lparr>sm_id = mid, sm_timestamp = ts, sm_content = row_text k (get_or (PStr []) m (PStr ''content'')),
      sm_reply_to = some_id k (env_get m ''reply_to''), sm_last_seen = some_id k (env_get m ''last_seen_id''),
      sm_image = or_else None (image_value (env_get m ''image_data'')), sm_manifest = row_manifest k m\<rparr>"

text \<open>The check of the signature; a content that is no text, or an image that cannot be hashed, raises in it.\<close>

definition row_verifies :: "net \<Rightarrow> secs \<Rightarrow> hexid \<Rightarrow> fields \<Rightarrow> pyval \<Rightarrow> signed_message \<Rightarrow> keys \<Rightarrow> keys \<times> bool option" where
  "row_verifies n now ch m sender sm ks =
     (let k = nt_out n; sig = env_get m ''author_sig'';
          odd = (image_value (env_get m ''image_data'') = None
                 \<or> (case get_or (PStr []) m (PStr ''content'') of PStr _ \<Rightarrow> False | PBytes _ \<Rightarrow> False | _ \<Rightarrow> True))
      in case sender of
           PStr h \<Rightarrow>
             if odd then (case sig of
                            PBytes b \<Rightarrow> if b = [] then (ks, Some False)
                                        else (case resolve_author (ot_rns k) now h ks of
                                                (ks, None) \<Rightarrow> (ks, Some False) | (ks, Some _) \<Rightarrow> (ks, None))
                          | _ \<Rightarrow> (ks, Some False))
             else verify_message (ot_rns k) (ot_sha k) (ot_repr k) now h sig ch sm ks
         | _ \<Rightarrow> (ks, if sig_of sig \<notin> {None, Some []} \<and> truthy sender \<and> bind_error sender \<noteq> None then None else Some False))"

definition judge_row :: "net \<Rightarrow> secs \<Rightarrow> hexid \<Rightarrow> bool \<Rightarrow> fields \<Rightarrow> secs \<Rightarrow> message_db \<Rightarrow> message_db \<times> judged" where
  "judge_row n now ch full_sync m ts db =
     (let k = nt_out n; sender = get_or (PStr []) m (PStr ''sender_hash'');
          mid = message_id_from_wire (ot_decode k) (env_get m ''message_id'')
      in case tenure_test n (db_store db) ch full_sync sender ts of
           Withholds \<Rightarrow> (db, Withheld)
         | Breaks \<Rightarrow> (db, Failed ts)
         | Passes \<Rightarrow>
             (let expected = compute_message_id (ot_sha k) (row_text k (get_or (PStr []) m (PStr ''content'')))
                               (case sender of PStr h \<Rightarrow> h | _ \<Rightarrow> ot_str k sender) ts
              in if mid \<noteq> [] \<and> mid \<noteq> expected then (db, Refused (Some ts))
                 else let sm = row_signed k m expected ts;
                          (keys, ok) = row_verifies n now ch m sender sm (db_keys db);
                          db = db\<lparr>db_keys := keys\<rparr>
                      in case (ok, sender) of
                           (None, _) \<Rightarrow> (db, Failed ts)
                         | (Some True, PStr h) \<Rightarrow>
                             (db, Judged \<lparr>cl_name = None, cl_signed = sm, cl_sig = env_get m ''author_sig'',
                                          cl_unhashable = False\<rparr> h)
                         | _ \<Rightarrow> (db, Refused (Some ts))))"

text \<open>The insertion of a row that passed: the name is bound as it came.\<close>

definition insert_synced ::
    "net \<Rightarrow> secs \<Rightarrow> hexid \<Rightarrow> hexid \<Rightarrow> pyval \<Rightarrow> claimed \<Rightarrow> message_db \<Rightarrow> message_db \<times> bool option" where
  "insert_synced n now ch sender name c db =
     (case bound_text (nt_out n) name of
        Raises \<Rightarrow> (db, None)
      | Violates \<Rightarrow> (db, Some False)
      | Bound t \<Rightarrow>
          (case insert_message (st_channels (db_store db)) (stored_row (nt_out n) now ch sender t c) (db_rows db) of
             (rows, inserted) \<Rightarrow> (db\<lparr>db_rows := rows\<rparr>, Some inserted)))"

section \<open>Reactions and keys that ride along\<close>

text \<open>One reaction; \<open>True\<close> where it raises.\<close>

definition apply_reaction ::
    "net \<Rightarrow> secs \<Rightarrow> hexid \<Rightarrow> string \<Rightarrow> hexid \<Rightarrow> pyval \<Rightarrow> sync \<Rightarrow> sync \<times> bool" where
  "apply_reaction n now ch mid responder v s =
     (case v of
        PDict r \<Rightarrow>
          (let k = nt_out n; emoji = coerce_str k (get_or (PStr []) r (PStr ''emoji''));
               reactor = coerce_str k (get_or (PStr []) r (PStr ''reactor''))
           in if emoji = [] \<or> reactor = [] then (s, False)
              else case float_of (ot_parse_float k) (get_or (PFloat (Finite 0)) r (PStr ''at'')) of
                     Inl TypeError \<Rightarrow> (s, False)
                   | Inl ValueError \<Rightarrow> (s, False)
                   | Inl _ \<Rightarrow> (s, True)
                   | Inr t \<Rightarrow>
                       if \<not> is_identity_hex reactor \<or> may_react n (sy_db s) ch reactor \<noteq> Inr True then (s, False)
                       else let x = sy_reactions s;
                                x = x\<lparr>rx_rows := insert_reaction \<lparr>rc_message = mid, rc_emoji = emoji, rc_reactor = reactor,
                                        rc_channel = ch, rc_at = t\<rparr> (rx_rows x)\<rparr>;
                                x = (if is_custom_emoji_hash emoji \<and> \<not> emoji_exists (rx_emojis x) emoji
                                     then request_emoji n now responder emoji [] x else x)
                            in (s\<lparr>sy_reactions := x\<rparr>, False))
      | _ \<Rightarrow> (s, False))"

definition apply_synced_reactions :: "net \<Rightarrow> secs \<Rightarrow> hexid \<Rightarrow> fields \<Rightarrow> hexid \<Rightarrow> sync \<Rightarrow> sync \<times> bool" where
  "apply_synced_reactions n now ch m responder s =
     (let mid = message_id_from_wire (ot_decode (nt_out n)) (env_get m ''message_id'')
      in case env_get m ''reactions'' of
           PList rs \<Rightarrow> if mid = [] then (s, False)
                       else each (apply_reaction n now ch mid responder) (take MAX_REACTIONS_PER_MESSAGE rs) s
         | _ \<Rightarrow> (s, False))"

definition learn_author_keys :: "net \<Rightarrow> secs \<Rightarrow> pyval \<Rightarrow> keys \<Rightarrow> keys" where
  "learn_author_keys n now v ks =
     (case v of
        PDict d \<Rightarrow>
          if length d > MAX_AUTHOR_KEYS then ks
          else foldl (\<lambda>ks (a, key). let author = coerce_str (nt_out n) a
                                    in if is_identity_hex author then fst (remember_relayed_key (sy_rns n) now author key ks) else ks)
                 ks d
      | _ \<Rightarrow> ks)"

section \<open>The rows of an answer\<close>

record intake =
  in_sync :: sync
  in_accepted :: "secs list"
  in_failed :: "secs option"
  in_inserted :: nat
  in_rejected :: nat

definition new_intake :: "sync \<Rightarrow> intake" where
  "new_intake s = \<lparr>in_sync = s, in_accepted = [], in_failed = None, in_inserted = 0, in_rejected = 0\<rparr>"

definition fail_at :: "secs \<Rightarrow> intake \<Rightarrow> intake" where
  "fail_at ts i = i\<lparr>in_failed := Some (case in_failed i of None \<Rightarrow> ts | Some t \<Rightarrow> min t ts)\<rparr>"

definition reject :: "secs option \<Rightarrow> intake \<Rightarrow> intake" where
  "reject ts i =
     (let i = i\<lparr>in_rejected := in_rejected i + 1\<rparr> in case ts of None \<Rightarrow> i | Some t \<Rightarrow> fail_at t i)"

text \<open>What follows an insertion: the channel is touched, the message callbacks run, of which this manager's own
  is one, and emoji are asked for. A content that arrived as bytes makes the last step raise.\<close>

definition after_insert :: "net \<Rightarrow> secs \<Rightarrow> hexid \<Rightarrow> string \<Rightarrow> fields \<Rightarrow> hexid \<Rightarrow> sync \<Rightarrow> sync \<times> bool" where
  "after_insert n now ch mid m responder s =
     (let db = sy_db s; s = set_db (db\<lparr>db_store := touch_channel now ch (db_store db)\<rparr>) s;
          s = on_message_stored n now ch mid s
      in case get_or (PStr []) m (PStr ''content'') of
           PStr content \<Rightarrow>
             (s\<lparr>sy_reactions := request_missing_from_content n now (sy_db s) (su_rows (sy_subs s)) responder content
                                  (sy_reactions s)\<rparr>, False)
         | _ \<Rightarrow> (s, responder \<noteq> []))"

definition store_judged ::
    "net \<Rightarrow> secs \<Rightarrow> hexid \<Rightarrow> hexid \<Rightarrow> fields \<Rightarrow> claimed \<Rightarrow> hexid \<Rightarrow> intake \<Rightarrow> intake" where
  "store_judged n now ch responder m c sender i =
     (let s = in_sync i; ts = sm_timestamp (cl_signed c); mid = sm_id (cl_signed c)
      in case insert_synced n now ch sender (get_or (PStr []) m (PStr ''sender_name'')) c (sy_db s) of
           (db, None) \<Rightarrow> fail_at ts i
         | (db, Some inserted) \<Rightarrow>
             (let s = set_db db s
              in if \<not> inserted \<and> \<not> has_message (sy_rows s) ch mid then i\<lparr>in_sync := s\<rparr>
                 else let i = i\<lparr>in_accepted := in_accepted i @ [ts]\<rparr>
                      in case apply_synced_reactions n now ch m responder s of
                           (s, True) \<Rightarrow> fail_at ts (i\<lparr>in_sync := s\<rparr>)
                         | (s, False) \<Rightarrow>
                             if \<not> inserted then i\<lparr>in_sync := s\<rparr>
                             else let i = i\<lparr>in_inserted := in_inserted i + 1\<rparr>;
                                      (s, broke) = after_insert n now ch mid m responder s;
                                      i = i\<lparr>in_sync := s\<rparr>
                                  in if broke then fail_at ts i else i))"

text \<open>One row; \<open>None\<close> where an exception escapes: a row that is no dict has no \<^verbatim>\<open>get\<close>, in the loop and again in
  the handler of the exception, and a time that overflows does so twice.\<close>

definition take_synced_row :: "net \<Rightarrow> secs \<Rightarrow> hexid \<Rightarrow> hexid \<Rightarrow> bool \<Rightarrow> pyval \<Rightarrow> intake \<Rightarrow> intake option" where
  "take_synced_row n now ch responder full_sync v i =
     (case v of
        PDict m \<Rightarrow>
          (case wire_timestamp (ot_parse_float (nt_out n)) (env_get m ''timestamp'') now of
             Inl _ \<Rightarrow> None
           | Inr None \<Rightarrow> Some (reject None i)
           | Inr (Some ts) \<Rightarrow>
               (let (db, j) = judge_row n now ch full_sync m ts (sy_db (in_sync i)); i = i\<lparr>in_sync := set_db db (in_sync i)\<rparr>
                in Some (case j of
                           Withheld \<Rightarrow> i
                         | Refused t \<Rightarrow> reject t i
                         | Failed t \<Rightarrow> fail_at t i
                         | Judged c sender \<Rightarrow> store_judged n now ch responder m c sender i)))
      | _ \<Rightarrow> None)"

fun take_synced_rows :: "net \<Rightarrow> secs \<Rightarrow> hexid \<Rightarrow> hexid \<Rightarrow> bool \<Rightarrow> pyval list \<Rightarrow> intake \<Rightarrow> intake \<times> bool" where
  "take_synced_rows n now ch responder full_sync [] i = (i, False)"
| "take_synced_rows n now ch responder full_sync (v # vs) i =
     (case take_synced_row n now ch responder full_sync v i of
        None \<Rightarrow> (i, True)
      | Some i \<Rightarrow> take_synced_rows n now ch responder full_sync vs i)"

section \<open>Watermarks\<close>

definition newest_usable :: "intake \<Rightarrow> secs" where
  "newest_usable i =
     (let usable = (case in_failed i of None \<Rightarrow> in_accepted i | Some f \<Rightarrow> filter (\<lambda>t. t < f) (in_accepted i))
      in case usable of [] \<Rightarrow> 0 | t # ts \<Rightarrow> fold max ts t)"

definition advance_watermarks :: "hexid \<Rightarrow> hexid \<Rightarrow> secs \<Rightarrow> sync \<Rightarrow> sync" where
  "advance_watermarks ch peer high s =
     (let db = sy_db s;
          s = (if high > get_last_sync (db_store db) ch
               then set_db (db\<lparr>db_store := update_last_sync high ch (db_store db)\<rparr>) s else s)
      in if high > 0 then s\<lparr>sy_progress := advance_progress ch peer (Finite high) (sy_progress s)\<rparr> else s)"

section \<open>Narrowing what still differs\<close>

definition narrow_range ::
    "net \<Rightarrow> message_row list \<Rightarrow> hexid \<Rightarrow> sync_range \<Rightarrow> sync_range list \<times> need list \<times> bool \<Rightarrow> sync_range list \<times> need list \<times> bool" where
  "narrow_range n rows ch r acc =
     (let (rs, ns, deferred) = acc;
          describe_back = (\<lambda>lo hi signed ns deferred.
            case add_ranges (nt_packb n) rs (describe_here (sy_sha n) (nt_packb n) signed lo hi) of
              (True, rs') \<Rightarrow> (rs', ns, deferred) | (False, _) \<Rightarrow> (rs, ns, True))
      in case r of
           IdRange lo hi prefixes \<Rightarrow>
             (let index = get_message_index rows ch lo (Some hi); signed = filter row_is_signed index;
                  lacking = prefixes_we_lack (map index_row index) prefixes;
                  deferred = (deferred \<or> length ns + length lacking > MAX_NEED_IDS);
                  ns = add_needs lo hi lacking ns
              in if ids_they_lack (map index_row signed) prefixes = [] then (rs, ns, deferred)
                 else describe_back lo hi signed ns deferred)
         | FpRange lo hi size_there fp \<Rightarrow>
             (let signed = filter row_is_signed (get_message_index rows ch lo (Some hi))
              in if matches_fingerprint (sy_sha n) (map index_row signed) size_there fp then acc
                 else describe_back lo hi signed ns deferred))"

definition reconcile_from_response ::
    "net \<Rightarrow> message_row list \<Rightarrow> hexid \<Rightarrow> sync_range list \<Rightarrow> sync_range list \<times> need list \<times> bool" where
  "reconcile_from_response n rows ch ranges = fold (narrow_range n rows ch) ranges ([], [], False)"

section \<open>The handler\<close>

text \<open>The rows of the payload, \<open>None\<close> where it is no list.\<close>

definition response_rows :: "net \<Rightarrow> fields \<Rightarrow> pyval list option" where
  "response_rows n fs =
     (case field_get fs F_SYNC_MESSAGES of
        PBytes b \<Rightarrow> (if b = [] then None
                     else case unpack_wire (ot_unpackb (nt_out n)) b of Some (PList ms) \<Rightarrow> Some ms | _ \<Rightarrow> None)
      | _ \<Rightarrow> None)"

definition scan_cursor_of :: "net \<Rightarrow> fields \<Rightarrow> py_error + pyfloat option" where
  "scan_cursor_of n fs =
     (let v = field_get fs F_SYNC_SCAN_CURSOR
      in if v = PNone then Inr None
         else case float_of (ot_parse_float (nt_out n)) v of
                Inr t \<Rightarrow> Inr (Some t)
              | Inl TypeError \<Rightarrow> Inr None
              | Inl ValueError \<Rightarrow> Inr None
              | Inl e \<Rightarrow> Inl e)"

text \<open>The end of the handler: what the responder asked for is answered, and the exchange goes on while there is
  something new to ask, or more is owed and the responder moved.\<close>

definition go_on_asking ::
    "net \<Rightarrow> secs \<Rightarrow> hexid \<Rightarrow> hexid \<Rightarrow> pyfloat \<Rightarrow> bool \<Rightarrow> pyfloat option \<Rightarrow> pyfloat
     \<Rightarrow> sync_range list \<times> need list \<times> bool \<Rightarrow> sync \<Rightarrow> sync" where
  "go_on_asking n now ch peer since truncated cursor resume cont s =
     (let (rs, ns, deferred) = cont; key = (ch, peer);
          s = (if truncated \<or> deferred then s\<lparr>sy_deferred := List.insert key (sy_deferred s)\<rparr> else s)
      in case continue_reconcile n now ch peer rs ns s of
           (s, Some False) \<Rightarrow>
             (let no_further = (case cursor of None \<Rightarrow> False | Some c \<Rightarrow> float_le c since);
                  owed = (key \<in> set (sy_deferred s) \<and> \<not> no_further)
              in if owed then fst (continue_sync n now ch peer resume None (s\<lparr>sy_deferred := removeAll key (sy_deferred s)\<rparr>))
                 else s)
         | (s, _) \<Rightarrow> s)"

definition settle_intake :: "net \<Rightarrow> fields \<Rightarrow> hexid \<Rightarrow> hexid \<Rightarrow> nat \<Rightarrow> intake \<Rightarrow> sync" where
  "settle_intake n fs ch peer received i =
     (let s = in_sync i; truncated = truthy (get_or (PBool False) fs (PInt F_SYNC_TRUNCATED));
          s = (if in_inserted i = 0 then s
               else s\<lparr>sy_missed := clear_missed_deliveries ch (nt_self n) (sy_missed s), sy_status := clear_gap ch (sy_status s)\<rparr>);
          s = advance_watermarks ch peer (newest_usable i) s
      in s\<lparr>sy_status := response_received ch peer (int received) (int (in_inserted i)) truncated (int (in_rejected i)) (sy_status s)\<rparr>)"

definition finish_response :: "net \<Rightarrow> secs \<Rightarrow> fields \<Rightarrow> hexid \<Rightarrow> hexid \<Rightarrow> pyfloat \<Rightarrow> nat \<Rightarrow> intake \<Rightarrow> sync" where
  "finish_response n now fs ch peer since received i =
     (let s = settle_intake n fs ch peer received i; high = newest_usable i;
          truncated = truthy (get_or (PBool False) fs (PInt F_SYNC_TRUNCATED))
      in case scan_cursor_of n fs of
           Inl _ \<Rightarrow> s
         | Inr cursor \<Rightarrow>
             (let resume = (case cursor of None \<Rightarrow> Finite high | Some c \<Rightarrow> if float_less (Finite high) c then c else Finite high);
                  (ranges, needs, malformed) = read_reconcile_fields (ot_unpackb (nt_out n)) fs;
                  (rs, ns) = (if malformed then ([], []) else (or_empty ranges, or_empty needs))
              in case (if ns = [] then (s, False) else answer_needs n now ch peer ns s) of
                   (s, True) \<Rightarrow> s
                 | (s, False) \<Rightarrow>
                     go_on_asking n now ch peer since truncated cursor resume (reconcile_from_response n (sy_rows s) ch rs) s))"

text \<open>The rows of a claimed answer, taken; \<open>True\<close> where an exception escaped.\<close>

definition full_sync_granted :: "net \<Rightarrow> store \<Rightarrow> hexid \<Rightarrow> py_error + bool" where
  "full_sync_granted n st ch =
     ebind (column_perms (get_channel st ch)) (\<lambda>perms.
       if has_any_tenure st ch \<and> get_channel st ch \<noteq> None
       then role_grants perms (get_role st ch (nt_self n)) FULL_SYNC else Inr False)"

definition take_answer :: "net \<Rightarrow> secs \<Rightarrow> fields \<Rightarrow> hexid \<Rightarrow> hexid \<Rightarrow> bool \<Rightarrow> pyval list \<Rightarrow> sync \<Rightarrow> intake \<times> bool" where
  "take_answer n now fs ch responder full_sync ms s =
     take_synced_rows n now ch responder full_sync ms
       (new_intake (set_db ((sy_db s)\<lparr>db_keys := learn_author_keys n now (field_get fs F_AUTHOR_KEYS) (db_keys (sy_db s))\<rparr>) s))"

definition handle_sync_response :: "net \<Rightarrow> secs \<Rightarrow> fields \<Rightarrow> hexid \<Rightarrow> hexid \<Rightarrow> sync \<Rightarrow> sync" where
  "handle_sync_response n now fs ch responder s =
     (if \<not> is_subscribed (sy_store s) ch \<or> peer_may_participate (sy_store s) ch (nt_self n) \<noteq> Inr True then s
      else case claim_request (sy_rns n) now ch responder (sy_requests s) of
             (t, None) \<Rightarrow> s\<lparr>sy_requests := t\<rparr>
           | (t, Some (since, peer)) \<Rightarrow>
               (let s = s\<lparr>sy_requests := t, sy_retries := AList.delete (ch, peer) (sy_retries s)\<rparr>
                in case response_rows n fs of
                     None \<Rightarrow> s\<lparr>sy_status := response_malformed ch peer (sy_status s)\<rparr>
                   | Some ms \<Rightarrow>
                       (case full_sync_granted n (sy_store s) ch of
                          Inl _ \<Rightarrow> s
                        | Inr full_sync \<Rightarrow>
                            (case take_answer n now fs ch responder full_sync ms s of
                               (i, True) \<Rightarrow> in_sync i
                             | (i, False) \<Rightarrow> finish_response n now fs ch peer since (length ms) i))))"

section \<open>Inbound messages\<close>

definition on_sync_message :: "net \<Rightarrow> secs \<Rightarrow> lxm \<Rightarrow> sync \<Rightarrow> sync" where
  "on_sync_message n now l s =
     (let fs = lx_fields l; k = nt_out n; sender = lx_sender k l; mt = control_type (ot_decode k) fs
      in if mt = Some MT_PRESENCE then
           (if map_of fs (PInt F_SYNC_PROBE) = None then s else handle_probes n now fs sender s)
         else if mt \<notin> {Some MT_MISSED_DELIVERY, Some MT_SYNC_REQUEST, Some MT_SYNC_RESPONSE} then s
         else case channel_text k fs of
                None \<Rightarrow> s
              | Some ch \<Rightarrow>
                  if mt = Some MT_MISSED_DELIVERY then handle_missed_delivery n now fs ch sender s
                  else if mt = Some MT_SYNC_REQUEST then handle_sync_request n now fs ch sender s
                  else handle_sync_response n now fs ch sender s)"

end
