(* ===== verification/Sync_Frame.thy ===== *)
theory Sync_Frame
  imports Sync_Intake Message_Safety
begin

text \<open>
  What the operations of sync leave alone. A view of the manager's state that none of its own books
  enter is kept by everything that only asks, hints, probes or retries; the views used are the tables of
  messages, and what has been received from and served to each peer.
\<close>

section \<open>Loops\<close>

lemma each_keeps:
  assumes "\<And>x s. x \<in> set xs \<Longrightarrow> P s \<Longrightarrow> P (fst (f x s))" "P s"
  shows "P (fst (each f xs s))"
  using assms
proof (induction xs arbitrary: s)
  case (Cons x xs)
  have "P (fst (f x s))" using Cons.prems by simp
  moreover obtain s' r where "f x s = (s', r)" by (cases "f x s")
  ultimately show ?case using Cons.IH [of s'] Cons.prems(1) by (cases r) simp_all
qed simp

lemma raised_fst [simp]: "fst (raised r) = fst r"
  by (simp add: raised_def)

section \<open>Views without the books\<close>

locale view =
  fixes P :: "sync \<Rightarrow> bool"
  assumes link [simp]: "P (s\<lparr>sy_link := l\<rparr>) = P s"
    and status [simp]: "P (s\<lparr>sy_status := t\<rparr>) = P s"
    and requests [simp]: "P (s\<lparr>sy_requests := q\<rparr>) = P s"
    and hints [simp]: "P (s\<lparr>sy_hints := h\<rparr>) = P s"
    and announced [simp]: "P (s\<lparr>sy_announced := a\<rparr>) = P s"
    and retries [simp]: "P (s\<lparr>sy_retries := r\<rparr>) = P s"
    and continued [simp]: "P (s\<lparr>sy_continued := c\<rparr>) = P s"
    and asked [simp]: "P (s\<lparr>sy_asked := k\<rparr>) = P s"
    and deferred [simp]: "P (s\<lparr>sy_deferred := d\<rparr>) = P s"
    and seen [simp]: "P (s\<lparr>sy_seen := e\<rparr>) = P s"
    and agreed [simp]: "P (s\<lparr>sy_agreed := g\<rparr>) = P s"
    and unasked [simp]: "P (s\<lparr>sy_unasked := u\<rparr>) = P s"
    and suspected [simp]: "P (s\<lparr>sy_suspected := p\<rparr>) = P s"
    and policy [simp]: "P (s\<lparr>sy_policy := y\<rparr>) = P s"
    and missed [simp]: "P (s\<lparr>sy_missed := m\<rparr>) = P s"
    and deep [simp]: "P (s\<lparr>sy_deep := w\<rparr>) = P s"
begin

lemma each_view: "(\<And>x s. x \<in> set xs \<Longrightarrow> P s \<Longrightarrow> P (fst (f x s))) \<Longrightarrow> P s \<Longrightarrow> P (fst (each f xs s))"
  by (rule each_keeps)

lemma keeps_send [simp]: "P (fst (sync_send n now dest fs s)) = P s"
  by (simp add: sync_send_def split: prod.splits)

lemma keeps_sent: "sync_send n now dest fs s = (s', r) \<Longrightarrow> P s' = P s"
  using keeps_send [of n now dest fs s] by simp

lemma keeps_request: "P (fst (send_sync_request n now dest ch since continuation q ladder s)) = P s"
proof -
  have "P (fst (begin_request n now dest ch since continuation s)) = P s"
    by (simp add: begin_request_def split: prod.split)
  then show ?thesis
    by (auto simp: send_sync_request_def request_went_def request_failed_def Let_def keeps_sent split: prod.splits option.splits bool.splits)
qed

lemma keeps_requested: "send_sync_request n now dest ch since continuation q ladder s = (s', r) \<Longrightarrow> P s' = P s"
  using keeps_request [of n now dest ch since continuation q ladder s] by simp

lemma keeps_ask: "P (fst (ask_peer n now dest ch since s)) = P s"
  by (simp add: ask_peer_def keeps_request)

lemma keeps_continue: "P (fst (continue_sync n now ch peer resume q s)) = P s"
  by (simp add: continue_sync_def keeps_request Let_def)

lemma keeps_reconcile: "P (fst (continue_reconcile n now ch peer rs ns s)) = P s"
  by (simp add: continue_reconcile_def keeps_continue)

lemma keeps_channel: "P s \<Longrightarrow> P (fst (request_sync_for_channel n now ch since s))"
  by (auto simp: request_sync_for_channel_def Let_def intro!: each_view simp: keeps_ask)

lemma keeps_all: "P s \<Longrightarrow> P (fst (request_sync_all n now s))"
  unfolding request_sync_all_def by (rule each_view) (simp_all add: keeps_channel)

lemma keeps_hint [simp]: "P (queue_hint n dest fs s) = P s"
  by (simp add: queue_hint_def Let_def split: sum.splits prod.splits)

lemma keeps_send_hint: "P (send_hint n now dest fs s) = P s"
  by (auto simp: send_hint_def keeps_sent split: prod.splits bool.splits)

lemma keeps_flush_hints: "P s \<Longrightarrow> P (flush_hints n now dest s)"
proof -
  have "P s \<Longrightarrow> P (fold (send_hint n now dest) fss s)" for fss s
    by (induction fss arbitrary: s) (simp_all add: keeps_send_hint)
  then show "P s \<Longrightarrow> P (flush_hints n now dest s)" by (simp add: flush_hints_def)
qed

lemma keeps_missed_event: "P s \<Longrightarrow> P (fst (on_missed_delivery_event n now ch missed mid subs s))"
proof -
  let ?send = "\<lambda>dest s. case hint_fields ch missed mid of None \<Rightarrow> (s, True) | Some fs \<Rightarrow> (send_hint n now dest fs s, False)"
  assume "P s"
  then have "P (fst (each ?send (filter (\<lambda>dest. dest \<noteq> nt_self n \<and> dest \<noteq> missed) subs) s))"
    by (intro each_view) (auto simp: keeps_send_hint split: option.splits)
  then show ?thesis by (auto simp: on_missed_delivery_event_def split: prod.splits bool.splits)
qed

lemma keeps_handle_missed: "P (handle_missed_delivery n now fs ch sender s) = P s"
  by (simp add: handle_missed_delivery_def Let_def)

lemma keeps_stored [simp]: "P (on_message_stored n now ch mid s) = P s"
  by (simp add: on_message_stored_def note_reference_def Let_def split: option.splits)

lemma keeps_gaps: "P s \<Longrightarrow> P (fst (ask_suspected_gaps n now s))"
  unfolding ask_suspected_gaps_def
  by (rule each_view) (auto simp: ask_gap_def keeps_request split: prod.splits)

lemma keeps_after_probe: "P (fst (ask_after_probe n now key s)) = P s"
  by (auto simp: ask_after_probe_def split: prod.splits option.splits bool.splits dest!: keeps_requested)

lemma keeps_note_probe: "P (fst (note_probe n now sender p s)) = P s"
  by (simp add: note_probe_def prune_probes_def Let_def split: prod.splits)

lemma keeps_note_probes: "P (fst (note_probes n now sender ps s)) = P s"
proof (induction ps arbitrary: s)
  case (Cons p ps)
  then show ?case using keeps_note_probe [of n now sender p s] by (simp split: prod.splits) (metis fst_conv)
qed simp

lemma keeps_probes: "P s \<Longrightarrow> P (handle_probes n now fs sender s)"
proof -
  have "P s \<Longrightarrow> P (fst (each (ask_after_probe n now) keys s))" for keys s
    by (rule each_view) (simp add: keeps_after_probe)
  moreover have "P s \<Longrightarrow> note_probes n now sender ps s = (s', ks) \<Longrightarrow> P s'" for ps s' ks
    using keeps_note_probes [of n now sender ps s] by simp
  ultimately show "P s \<Longrightarrow> P (handle_probes n now fs sender s)"
    by (auto simp: handle_probes_def Let_def split: option.splits prod.splits)
qed

lemma keeps_flush_probes: "P s \<Longrightarrow> P (fst (flush_probe_pending n now s))"
  unfolding flush_probe_pending_def by (rule each_view) (auto simp: keeps_after_probe)

lemma keeps_retry: "P (fst (retry_peer n now ch peer s)) = P s"
  by (simp add: retry_peer_def keeps_ask Let_def)

lemma keeps_tick: "P s \<Longrightarrow> P (fst (sync_tick n now s))"
proof -
  have r: "P s \<Longrightarrow> P (fst (retry_channel n now cp s))" for cp s
    by (auto simp: retry_channel_def keeps_retry intro!: each_view)
  have "P s \<Longrightarrow> P (fst (each (retry_channel n now) cps s))" for cps s
    by (rule each_view) (simp add: r)
  then show "P s \<Longrightarrow> P (fst (sync_tick n now s))"
    using keeps_flush_probes [of s n now] keeps_gaps [of "fst (flush_probe_pending n now s)" n now]
    by (auto simp: sync_tick_def split: prod.splits bool.splits)
qed

lemma keeps_announce: "P s \<Longrightarrow> P (fst (ask_on_announce n now peer ch s))"
  using keeps_ask [of n now peer ch "resume_point now ch peer s" s]
  by (auto simp: ask_on_announce_def split: prod.splits option.splits bool.splits)

end

interpretation tables: view "\<lambda>s. Q (sy_out s) (sy_progress s) (sy_served s) (sy_reactions s) (sy_subs s)" for Q
  by unfold_locales simp_all

lemma flush_one_db: "ob_db (flush_one n dest p o') = ob_db o'"
  by (auto simp: flush_one_def hand_over_def track_delivery_def Let_def split: sum.splits prod.splits bool.splits option.splits)

lemma flush_db [simp]: "ob_db (flush_outbox n dest o') = ob_db o'"
proof -
  have "ob_db (fold (flush_one n dest) ps o') = ob_db o'" for ps o' by (induction ps arbitrary: o') (simp_all add: flush_one_db)
  then show ?thesis by (auto simp: flush_outbox_def Let_def split: sum.splits prod.splits option.splits)
qed

lemma cancel_db [simp]: "ob_db (cancel_pending_for_channel ch o') = ob_db o'"
  by (simp add: cancel_pending_for_channel_def)

lemma request_out [simp]: "sy_out (fst (send_sync_request n now dest ch since continuation q ladder s)) = sy_out s"
  using tables.keeps_request [of "\<lambda>o' _ _ _ _. o' = sy_out s" n now dest ch since continuation q ladder s] by simp

lemma send_out [simp]: "sy_out (fst (sync_send n now dest fs s)) = sy_out s"
  using tables.keeps_send [of "\<lambda>o' _ _ _ _. o' = sy_out s" n now dest fs s] by simp

lemma set_db_simps [simp]:
  "sy_db (set_db db s) = db" "sy_reactions (set_db db s) = sy_reactions s" "sy_subs (set_db db s) = sy_subs s"
  "sy_missed (set_db db s) = sy_missed s" "sy_status (set_db db s) = sy_status s" "sy_progress (set_db db s) = sy_progress s"
  "sy_link (set_db db s) = sy_link s" "sy_requests (set_db db s) = sy_requests s" "sy_served (set_db db s) = sy_served s"
  by (simp_all add: set_db_def)

section \<open>What an answer may change in the tables of messages\<close>

text \<open>What decides about tenure and about who may take part and see what.\<close>

definition tenure_same :: "store \<Rightarrow> store \<Rightarrow> bool" where
  "tenure_same st st' \<longleftrightarrow> st_tenure st' = st_tenure st \<and> (\<forall>ch. scope_for st' ch = scope_for st ch)
     \<and> (\<forall>ch peer. peer_may_participate st' ch peer = peer_may_participate st ch peer
          \<and> relay_test st' (get_channel st' ch) ch peer = relay_test st (get_channel st ch) ch peer)"

lemma tenure_same_refl [simp]: "tenure_same st st" by (simp add: tenure_same_def)

lemma tenure_same_trans: "tenure_same st st' \<Longrightarrow> tenure_same st' st'' \<Longrightarrow> tenure_same st st''"
  by (simp add: tenure_same_def)

lemma tenure_same_tests:
  "tenure_same st st' \<Longrightarrow> has_any_tenure st' ch = has_any_tenure st ch"
  "tenure_same st st' \<Longrightarrow> was_member_at st' ch h t = was_member_at st ch h t"
  by (simp_all add: tenure_same_def has_any_tenure_def was_member_at_def)

lemma scope_touch: "scope_for (touch_channel now h st) ch = scope_for st ch"
proof -
  have "row_of cr_hash (st_channels (touch_channel now h st)) ch
      = map_option (\<lambda>r. if cr_hash r = h then r\<lparr>cr_seen := now\<rparr> else r) (row_of cr_hash (st_channels st) ch)"
    using row_of_map [of cr_hash "\<lambda>r. r\<lparr>cr_seen := now\<rparr>" "\<lambda>r. cr_hash r = h" "st_channels st" ch]
    by (simp add: touch_channel_def)
  then have "scope_fetch (touch_channel now h st) ch = scope_fetch st ch"
    by (simp add: scope_fetch_def split: option.split)
  then show ?thesis by (cases "map_of (st_scopes st) ch") (simp_all add: scope_for_def touch_channel_def)
qed

lemma relay_test_cong:
  assumes "st_tenure st' = st_tenure st" "\<And>ch. scope_for st' ch = scope_for st ch" "st_members st' = st_members st"
    and "\<And>ch. map_option cr_permissions (get_channel st' ch) = map_option cr_permissions (get_channel st ch)"
  shows "tenure_same st st'"
proof -
  have r: "get_role st' ch h = get_role st ch h" "is_member st' ch h = is_member st ch h"
      "has_any_tenure st' ch = has_any_tenure st ch" "was_member_at st' ch h t = was_member_at st ch h t" for ch h t
    using assms(1-3) by (simp_all add: get_role_def is_member_def member_row_of_def has_any_tenure_def was_member_at_def)
  have p: "column_perms (get_channel st' ch) = column_perms (get_channel st ch)" for ch
    using assms(4) [of ch] by (cases "get_channel st ch"; cases "get_channel st' ch") (simp_all add: column_perms_def)
  have "peer_may_participate st' ch peer = peer_may_participate st ch peer" for ch peer
    using assms(4) [of ch] r
    by (cases "get_channel st ch"; cases "get_channel st' ch") (simp_all add: peer_may_participate_def)
  moreover have "relay_test st' (get_channel st' ch) ch peer = relay_test st (get_channel st ch) ch peer" for ch peer
    unfolding relay_test_def r p by (rule refl)
  ultimately show ?thesis using assms(1,2) by (simp add: tenure_same_def)
qed

lemma channel_touch: "map_option cr_permissions (get_channel (touch_channel now h st) ch) = map_option cr_permissions (get_channel st ch)"
  using row_of_map [of cr_hash "\<lambda>r. r\<lparr>cr_seen := now\<rparr>" "\<lambda>r. cr_hash r = h" "st_channels st" ch]
  by (cases "row_of cr_hash (st_channels st) ch") (simp_all add: get_channel_def touch_channel_def)

lemma tenure_touch: "tenure_same st st' \<Longrightarrow> tenure_same st (touch_channel now h st')"
  by (rule tenure_same_trans, assumption, rule relay_test_cong)
     (simp_all add: scope_touch channel_touch, simp_all add: touch_channel_def)

lemma tenure_synced: "tenure_same st (update_last_sync t ch st)"
  by (rule relay_test_cong) (simp_all add: update_last_sync_def scope_for_def scope_fetch_def get_channel_def split: option.split)

text \<open>A row taken from an answer: what the author signed, under the checks of tenure.\<close>

definition taken_row :: "net \<Rightarrow> secs \<Rightarrow> hexid \<Rightarrow> store \<Rightarrow> bool \<Rightarrow> message_row \<Rightarrow> bool" where
  "taken_row n now ch st full_sync r \<longleftrightarrow>
     (\<exists>name c sig. r = stored_row (nt_out n) now ch (ms_sender r) name c \<and> cl_sig c = PBytes sig
        \<and> written (nt_out n) ch (ms_sender r) sig (cl_signed c))
     \<and> ms_id r = compute_message_id (sy_sha n) (ms_content r) (ms_sender r) (ms_ts r)
     \<and> ms_ts r \<le> now + MAX_CLOCK_SKEW_SECS
     \<and> (has_any_tenure st ch \<longrightarrow>
          was_member_at st ch (ms_sender r) (ms_ts r) \<and> (full_sync \<or> was_member_at st ch (nt_self n) (ms_ts r)))"

definition grown :: "net \<Rightarrow> secs \<Rightarrow> hexid \<Rightarrow> message_db \<Rightarrow> bool \<Rightarrow> message_db \<Rightarrow> bool" where
  "grown n now ch db full_sync db' \<longleftrightarrow>
     db_ok (nt_out n) db' \<and> tenure_same (db_store db) (db_store db') \<and> set (db_rows db) \<subseteq> set (db_rows db')
     \<and> (\<forall>r\<in>set (db_rows db'). r \<in> set (db_rows db) \<or> taken_row n now ch (db_store db) full_sync r)"

lemma grown_refl: "db_ok (nt_out n) db \<Longrightarrow> grown n now ch db full_sync db"
  by (simp add: grown_def)

lemma grown_keys: "grown n now ch db full_sync db' \<Longrightarrow> keys_ok (sy_rns n) ks \<Longrightarrow> grown n now ch db full_sync (db'\<lparr>db_keys := ks\<rparr>)"
  by (simp add: grown_def db_ok_def)

lemma grown_touch: "grown n now ch db full_sync db' \<Longrightarrow> grown n now ch db full_sync (db'\<lparr>db_store := touch_channel now' h (db_store db')\<rparr>)"
  by (simp add: grown_def db_ok_def tenure_touch)

lemma grown_keys_ok: "grown n now ch db full_sync db' \<Longrightarrow> keys_ok (sy_rns n) (db_keys db')"
  by (simp add: grown_def db_ok_def)

text \<open>A check that reaches the signature is the one of \<open>verify_message\<close>; no other succeeds.\<close>

lemma row_verifies_cases:
  obtains (verified) h where "sender = PStr h"
      "row_verifies n now ch m sender sm ks =
         verify_message (sy_rns n) (sy_sha n) (ot_repr (nt_out n)) now h (env_get m ''author_sig'') ch sm ks"
  | (no) h where "snd (row_verifies n now ch m sender sm ks) \<noteq> Some True"
      "fst (row_verifies n now ch m sender sm ks) \<in> {ks, fst (resolve_author (sy_rns n) now h ks)}"
proof (cases sender)
  case (PStr h)
  let ?odd = "image_value (env_get m ''image_data'') = None
                 \<or> (case get_or (PStr []) m (PStr ''content'') of PStr _ \<Rightarrow> False | PBytes _ \<Rightarrow> False | _ \<Rightarrow> True)"
  obtain b where b: "?odd = b" by simp
  have eq: "row_verifies n now ch m sender sm ks =
     (if b then (case env_get m ''author_sig'' of
                   PBytes s \<Rightarrow> if s = [] then (ks, Some False)
                               else (case resolve_author (sy_rns n) now h ks of
                                       (ks, None) \<Rightarrow> (ks, Some False) | (ks, Some _) \<Rightarrow> (ks, None))
                 | _ \<Rightarrow> (ks, Some False))
      else verify_message (sy_rns n) (sy_sha n) (ot_repr (nt_out n)) now h (env_get m ''author_sig'') ch sm ks)"
    unfolding row_verifies_def Let_def b PStr by simp
  show thesis
  proof (cases b)
    case True
    then show thesis using no [of h] unfolding eq
      by (cases "env_get m ''author_sig''") (auto split: prod.splits option.splits)
  qed (use verified [OF PStr] eq in simp)
qed (rule no [of undefined]; simp add: row_verifies_def Let_def)+

lemma row_verifies_keys:
  assumes "keys_ok (sy_rns n) ks"
  shows "keys_ok (sy_rns n) (fst (row_verifies n now ch m sender sm ks))"
proof (cases rule: row_verifies_cases [where n = n and now = now and ch = ch and m = m and sender = sender and sm = sm and ks = ks])
  case (verified h)
  then show ?thesis
    using verify_keys [of "sy_rns n" "sy_sha n" "ot_repr (nt_out n)" now h "env_get m ''author_sig''" ch sm ks]
      keys_ok_resolve [OF assms, of now h] assms by auto
next
  case (no h)
  then show ?thesis using keys_ok_resolve [OF assms, of now h] assms by auto
qed

lemma row_verifies_true:
  assumes "snd (row_verifies n now ch m (PStr h) sm ks) = Some True" "keys_ok (sy_rns n) ks" "rns_honest (sy_rns n)"
  shows "\<exists>sig. env_get m ''author_sig'' = PBytes sig \<and> written (nt_out n) ch h sig sm"
proof (cases rule: row_verifies_cases [where n = n and now = now and ch = ch and m = m and sender = "PStr h" and sm = sm and ks = ks])
  case (verified g)
  then show ?thesis using verified_written [OF assms(2,3)] assms(1) by auto
qed (use assms in simp)

end
