(* ===== verification/Pending_Safety.thy ===== *)
theory Pending_Safety
  imports Pending
begin

text \<open>
  What the books of sync guarantee over any history: every answer that is taken answers one request that
  went out, on that channel to that peer, and no request is answered twice, although each is kept under
  two names of the peer.
\<close>

section \<open>What the tables hold\<close>

abbreviation entries_at :: "((hexid \<times> hexid) \<times> request list) list \<Rightarrow> hexid \<times> hexid \<Rightarrow> request list" where
  "entries_at d key \<equiv> get_or [] d key"

definition live :: "((hexid \<times> hexid) \<times> request list) list \<Rightarrow> (hexid \<times> request) set" where
  "live d = {(ch, e). \<exists>form. e \<in> set (entries_at d (ch, form))}"

lemma entries_at_set [simp]: "entries_at (set_entries key es d) k = (if k = key then es else entries_at d k)"
  by (auto simp: set_entries_def get_or_def)

lemma entries_at_keep: "f [] = [] \<Longrightarrow> entries_at (keep_entries f key d) k = (if k = key then f (entries_at d key) else entries_at d k)"
  by (auto simp: keep_entries_def get_or_def set_entries_def split: option.splits)

lemma keys_set: "distinct (map fst d) \<Longrightarrow> distinct (map fst (set_entries key es d))"
  by (simp add: set_entries_def distinct_update distinct_delete)

lemma keys_keep: "distinct (map fst d) \<Longrightarrow> distinct (map fst (keep_entries f key d))"
  by (auto simp: keep_entries_def keys_set split: option.split)

lemma keys_fold: "distinct (map fst d) \<Longrightarrow> distinct (map fst (fold (\<lambda>form. keep_entries f (ch, form)) forms d))"
  by (induction forms arbitrary: d) (simp_all add: keys_keep)

lemma entries_fold:
  assumes "f [] = []" "\<And>es. set (f es) \<subseteq> set es"
  shows "set (entries_at (fold (\<lambda>form. keep_entries f (ch, form)) forms d) k) \<subseteq> set (entries_at d k)"
proof (induction forms arbitrary: d)
  case (Cons a forms)
  have "set (entries_at (keep_entries f (ch, a) d) k) \<subseteq> set (entries_at d k)"
    using assms(2) by (simp add: entries_at_keep [of f, OF assms(1)])
  then show ?case using Cons.IH [of "keep_entries f (ch, a) d"] by simp
qed simp

lemma entries_fold_filter:
  "form \<in> set forms \<Longrightarrow> e \<in> set (entries_at (fold (\<lambda>form. keep_entries (filter P) (ch, form)) forms d) (ch, form)) \<Longrightarrow> P e"
proof (induction forms arbitrary: d)
  case (Cons a forms)
  show ?case
  proof (cases "form \<in> set forms")
    case True
    then show ?thesis using Cons.IH Cons.prems(2) by simp
  next
    case False
    then have "form = a" using Cons.prems(1) by simp
    moreover have "e \<in> set (entries_at (keep_entries (filter P) (ch, a) d) (ch, form))"
      using Cons.prems(2) entries_fold [of "filter P" ch forms "keep_entries (filter P) (ch, a) d" "(ch, form)"] by auto
    ultimately show ?thesis by (simp add: entries_at_keep)
  qed
qed simp

lemma fresh_keys: "distinct (map fst d) \<Longrightarrow> distinct (map fst (fresh_entries now d))"
  by (induction d) (auto simp: fresh_entries_def image_iff)

lemma get_or_cons: "get_or v ((k', x) # d) k = (if k' = k then x else get_or v d k)"
  by (simp add: get_or_def)

lemma fresh_at:
  "distinct (map fst d) \<Longrightarrow> entries_at (fresh_entries now d) k = filter (\<lambda>e. now - ask_at e \<le> SYNC_RESPONSE_WINDOW_SECS) (entries_at d k)"
proof (induction d)
  case (Cons x d)
  obtain key es where x: "x = (key, es)" by (cases x)
  have IH: "entries_at (fresh_entries now d) k = filter (\<lambda>e. now - ask_at e \<le> SYNC_RESPONSE_WINDOW_SECS) (entries_at d k)"
    using Cons by simp
  have fr: "fresh_entries now (x # d) =
      (let es = filter (\<lambda>e. now - ask_at e \<le> SYNC_RESPONSE_WINDOW_SECS) es
       in if es = [] then fresh_entries now d else (key, es) # fresh_entries now d)"
    by (simp add: fresh_entries_def x Let_def)
  show ?case
  proof (cases "k = key")
    case True
    then have "entries_at d k = []" using Cons.prems x by (auto simp: get_or_def map_of_eq_None_iff image_iff split: option.split)
    then show ?thesis using True IH unfolding fr unfolding x Let_def by (simp add: get_or_cons)
  next
    case False
    then show ?thesis using IH unfolding fr unfolding x Let_def by (simp add: get_or_cons)
  qed
qed (simp add: fresh_entries_def get_or_def)

lemma take_oldest_spec:
  "take_oldest ch forms d = Some (d', e) \<Longrightarrow>
    (\<exists>form es. form \<in> set forms \<and> entries_at d (ch, form) = e # es \<and> d' = set_entries (ch, form) es d)"
  by (induction forms) (auto split: list.splits)

lemma finite_live: "finite (live d)"
proof -
  have "live d \<subseteq> (\<Union>x\<in>set d. {fst (fst x)} \<times> set (snd x))"
  proof
    fix ce assume "ce \<in> live d"
    then obtain form where e: "snd ce \<in> set (entries_at d (fst ce, form))" by (auto simp: live_def)
    then obtain es where es: "map_of d (fst ce, form) = Some es" "snd ce \<in> set es"
      by (cases "map_of d (fst ce, form)") auto
    then have "((fst ce, form), es) \<in> set d" by (simp add: map_of_SomeD)
    then show "ce \<in> (\<Union>x\<in>set d. {fst (fst x)} \<times> set (snd x))" using es(2) by (intro UN_I) (auto simp: mem_Times_iff)
  qed
  then show ?thesis by (rule finite_subset) auto
qed

section \<open>Histories of requests\<close>

datatype asking =
    Ask secs hexid hexid pyfloat
  | Retract hexid hexid "nat option"
  | Expire secs hexid hexid
  | Claim secs hexid hexid

text \<open>The tables, with what was asked and what was claimed so far: the channel, the peer and the start.\<close>

record ledger =
  ld_requests :: requests
  ld_asked :: "(hexid \<times> hexid \<times> pyfloat) list"
  ld_claimed :: "(hexid \<times> hexid \<times> pyfloat) list"

definition new_ledger :: ledger where
  "new_ledger = \<lparr>ld_requests = new_requests, ld_asked = [], ld_claimed = []\<rparr>"

fun ask_step :: "rns \<Rightarrow> asking \<Rightarrow> ledger \<Rightarrow> ledger" where
  "ask_step n (Ask now ch dest since) l =
     l\<lparr>ld_requests := fst (record_request n now ch dest since (ld_requests l)), ld_asked := (ch, dest, since) # ld_asked l\<rparr>"
| "ask_step n (Retract ch dest rid) l = l\<lparr>ld_requests := drop_request n ch dest rid (ld_requests l)\<rparr>"
| "ask_step n (Expire now ch dest) l = l\<lparr>ld_requests := expire_requests n now ch dest (ld_requests l)\<rparr>"
| "ask_step n (Claim now ch responder) l =
     (case claim_request n now ch responder (ld_requests l) of
        (t, None) \<Rightarrow> l\<lparr>ld_requests := t\<rparr>
      | (t, Some (since, dest)) \<Rightarrow> l\<lparr>ld_requests := t, ld_claimed := (ch, dest, since) # ld_claimed l\<rparr>)"

definition asked_of :: "hexid \<times> request \<Rightarrow> hexid \<times> hexid \<times> pyfloat" where
  "asked_of x = (fst x, ask_dest (snd x), ask_since (snd x))"

definition table_ok :: "rns \<Rightarrow> requests \<Rightarrow> bool" where
  "table_ok n t \<longleftrightarrow> distinct (map fst (out_entries t)) \<and>
     (\<forall>ch form. \<forall>e\<in>set (entries_at (out_entries t) (ch, form)). form \<in> set (peer_key_forms n (ask_dest e)) \<and> ask_id e \<le> out_seq t) \<and>
     inj_on (\<lambda>x. ask_id (snd x)) (live (out_entries t))"

definition ledger_ok :: "rns \<Rightarrow> ledger \<Rightarrow> bool" where
  "ledger_ok n l \<longleftrightarrow> table_ok n (ld_requests l) \<and>
     mset (ld_claimed l) + image_mset asked_of (mset_set (live (out_entries (ld_requests l)))) \<subseteq># mset (ld_asked l)"

lemma live_mono: "(\<And>k. set (entries_at d' k) \<subseteq> set (entries_at d k)) \<Longrightarrow> live d' \<subseteq> live d"
  by (fastforce simp: live_def)

lemma table_shrinks:
  assumes "table_ok n t" "distinct (map fst d)" "\<And>k. set (entries_at d k) \<subseteq> set (entries_at (out_entries t) k)"
  shows "table_ok n (t\<lparr>out_entries := d\<rparr>)"
  using assms live_mono [OF assms(3)] inj_on_subset unfolding table_ok_def by (fastforce simp: subset_iff)

lemma ledger_shrinks:
  assumes "ledger_ok n l" "distinct (map fst d)" "\<And>k. set (entries_at d k) \<subseteq> set (entries_at (out_entries (ld_requests l)) k)"
  shows "ledger_ok n (l\<lparr>ld_requests := (ld_requests l)\<lparr>out_entries := d\<rparr>\<rparr>)"
proof -
  have "live d \<subseteq> live (out_entries (ld_requests l))" using assms(3) by (rule live_mono)
  then have "image_mset asked_of (mset_set (live d)) \<subseteq># image_mset asked_of (mset_set (live (out_entries (ld_requests l))))"
    by (intro image_mset_subseteq_mono subset_imp_msubset_mset_set finite_live)
  then show ?thesis using assms table_shrinks unfolding ledger_ok_def
    by (auto intro: subset_mset.order_trans [OF subset_mset.add_left_mono])
qed

lemma record_at:
  "\<exists>m. entries_at (fold (\<lambda>form d. AList.update (ch, form) (entries_at d (ch, form) @ [e]) d) forms d) k = entries_at d k @ replicate m e
     \<and> (m = 0 \<longleftrightarrow> k \<notin> Pair ch ` set forms)"
proof (induction forms arbitrary: d)
  case (Cons a forms)
  let ?d = "AList.update (ch, a) (entries_at d (ch, a) @ [e]) d"
  have here: "entries_at ?d k = (if k = (ch, a) then entries_at d k @ [e] else entries_at d k)" by (simp add: get_or_def)
  from Cons.IH [of ?d] obtain m where
    "entries_at (fold (\<lambda>form d. AList.update (ch, form) (entries_at d (ch, form) @ [e]) d) forms ?d) k = entries_at ?d k @ replicate m e"
    "m = 0 \<longleftrightarrow> k \<notin> Pair ch ` set forms" by blast
  then show ?case
    by (intro exI [of _ "if k = (ch, a) then Suc m else m"]) (auto simp: here)
qed simp

lemma record_keys:
  "distinct (map fst d) \<Longrightarrow> distinct (map fst (fold (\<lambda>form d. AList.update (ch, form) (entries_at d (ch, form) @ [e]) d) forms d))"
  by (induction forms arbitrary: d) (simp_all add: distinct_update)

text \<open>Recording a request adds one entry, new by its number, under every name of the peer.\<close>

lemma record_live:
  fixes now :: secs and since :: pyfloat and dest :: hexid
  assumes "table_ok n t"
  defines "e \<equiv> \<lparr>ask_at = now, ask_since = since, ask_dest = dest, ask_id = out_seq t + 1\<rparr>"
  shows "live (out_entries (fst (record_request n now ch dest since t))) = insert (ch, e) (live (out_entries t))"
    and "(ch, e) \<notin> live (out_entries t)"
    and "table_ok n (fst (record_request n now ch dest since t))"
proof -
  define d where "d = fold (\<lambda>form d. AList.update (ch, form) (entries_at d (ch, form) @ [e]) d) (peer_key_forms n dest) (out_entries t)"
  have new: "fst (record_request n now ch dest since t) = \<lparr>out_entries = d, out_seq = out_seq t + 1\<rparr>"
    by (simp add: record_request_def Let_def d_def e_def)
  have here: "\<exists>m. entries_at d k = entries_at (out_entries t) k @ replicate m e \<and> (m = 0 \<longleftrightarrow> k \<notin> Pair ch ` set (peer_key_forms n dest))" for k
    unfolding d_def by (rule record_at)
  have "(c, x) \<in> live d \<longleftrightarrow> (c, x) = (ch, e) \<or> (c, x) \<in> live (out_entries t)" for c x
  proof
    assume "(c, x) \<in> live d"
    then obtain form where "x \<in> set (entries_at d (c, form))" by (auto simp: live_def)
    with here [of "(c, form)"] show "(c, x) = (ch, e) \<or> (c, x) \<in> live (out_entries t)"
      by (auto simp: live_def split: if_splits)
  next
    assume "(c, x) = (ch, e) \<or> (c, x) \<in> live (out_entries t)"
    then show "(c, x) \<in> live d"
    proof
      assume "(c, x) = (ch, e)"
      moreover obtain m where "entries_at d (ch, dest) = entries_at (out_entries t) (ch, dest) @ replicate m e" "m \<noteq> 0"
        using here [of "(ch, dest)"] by (auto simp: peer_key_forms_def)
      ultimately show ?thesis by (auto simp: live_def intro!: exI [of _ dest])
    next
      assume "(c, x) \<in> live (out_entries t)"
      then obtain form where "x \<in> set (entries_at (out_entries t) (c, form))" by (auto simp: live_def)
      with here [of "(c, form)"] show ?thesis by (auto simp: live_def intro!: exI [of _ form])
    qed
  qed
  then have live: "live d = insert (ch, e) (live (out_entries t))" by auto
  then show "live (out_entries (fst (record_request n now ch dest since t))) = insert (ch, e) (live (out_entries t))" by (simp add: new)
  have old: "\<forall>x\<in>live (out_entries t). ask_id (snd x) \<le> out_seq t"
    using assms(1) by (auto simp: table_ok_def live_def)
  then show "(ch, e) \<notin> live (out_entries t)" by (auto simp: e_def)
  show "table_ok n (fst (record_request n now ch dest since t))"
    unfolding new table_ok_def requests.select_convs
  proof (intro conjI allI ballI)
    show "distinct (map fst d)" unfolding d_def using assms(1) by (intro record_keys) (simp add: table_ok_def)
    show "inj_on (\<lambda>x. ask_id (snd x)) (live d)"
      unfolding live using assms(1) old by (fastforce simp: table_ok_def e_def)
  next
    fix c form x assume x: "x \<in> set (entries_at d (c, form))"
    from here [of "(c, form)"] x assms(1)
    have "x \<in> set (entries_at (out_entries t) (c, form)) \<or> x = e \<and> form \<in> set (peer_key_forms n dest)"
      by (auto split: if_splits)
    then show "form \<in> set (peer_key_forms n (ask_dest x))" "ask_id x \<le> out_seq t + 1"
      using assms(1) by (auto simp: table_ok_def e_def intro: le_SucI)
  qed
qed

lemma ledger_asks: "ledger_ok n l \<Longrightarrow> ledger_ok n (ask_step n (Ask now ch dest since) l)"
  using record_live [where n = n and t = "ld_requests l" and now = now and since = since and dest = dest and ch = ch] by (simp add: ledger_ok_def finite_live asked_of_def)

text \<open>A claim takes one entry out, with its copies under the other names.\<close>

lemma claim_live:
  assumes "table_ok n t"
  obtains (none) t' where "claim_request n now ch responder t = (t', None)" "t' = t\<lparr>out_entries := fresh_entries now (out_entries t)\<rparr>"
      "table_ok n t'" "\<forall>k. set (entries_at (out_entries t') k) \<subseteq> set (entries_at (out_entries t) k)"
  | (taken) t' e where "claim_request n now ch responder t = (t', Some (ask_since e, ask_dest e))" "table_ok n t'"
      "(ch, e) \<in> live (out_entries t)" "(ch, e) \<notin> live (out_entries t')" "live (out_entries t') \<subseteq> live (out_entries t)"
      "now - ask_at e \<le> SYNC_RESPONSE_WINDOW_SECS"
proof -
  define f where "f = fresh_entries now (out_entries t)"
  have dist: "distinct (map fst (out_entries t))" using assms by (simp add: table_ok_def)
  have f: "distinct (map fst f)" "\<And>k. set (entries_at f k) \<subseteq> set (entries_at (out_entries t) k)"
    using fresh_keys [OF dist] by (auto simp: f_def fresh_at [OF dist])
  have tok: "table_ok n (t\<lparr>out_entries := f\<rparr>)" by (rule table_shrinks [OF assms f])
  show ?thesis
  proof (cases "take_oldest ch (peer_key_forms n responder) f")
    case None
    then show ?thesis using none tok f by (simp add: claim_request_def f_def Let_def)
  next
    case (Some de)
    obtain d e where de: "de = (d, e)" by (cases de)
    obtain form es where e: "entries_at f (ch, form) = e # es" "d = set_entries (ch, form) es f"
      using take_oldest_spec Some de by blast
    define g where "g = fold (\<lambda>form. keep_entries (filter (\<lambda>x. ask_id x \<noteq> ask_id e)) (ch, form)) (peer_key_forms n (ask_dest e)) d"
    have step: "claim_request n now ch responder t = (t\<lparr>out_entries := g\<rparr>, Some (ask_since e, ask_dest e))"
      using Some by (simp add: claim_request_def f_def [symmetric] g_def de Let_def)
    have sub: "set (entries_at g k) \<subseteq> set (entries_at f k)" for k
    proof -
      have "set (entries_at g k) \<subseteq> set (entries_at d k)" unfolding g_def by (rule entries_fold) auto
      then show ?thesis using e by (auto split: if_splits)
    qed
    have g: "distinct (map fst g)" unfolding g_def e(2) by (intro keys_fold keys_set f(1))
    have here: "e \<in> set (entries_at f (ch, form))" using e(1) by simp
    then have mem: "(ch, e) \<in> live f" by (auto simp: live_def)
    have gone: "(ch, e) \<notin> live g"
    proof
      assume "(ch, e) \<in> live g"
      then obtain k where k: "e \<in> set (entries_at g (ch, k))" by (auto simp: live_def)
      then have "e \<in> set (entries_at f (ch, k))" using sub by blast
      then have "k \<in> set (peer_key_forms n (ask_dest e))" using tok by (simp add: table_ok_def)
      from entries_fold_filter [OF this, of e "\<lambda>x. ask_id x \<noteq> ask_id e" ch d] k show False by (simp add: g_def)
    qed
    have fresh: "now - ask_at e \<le> SYNC_RESPONSE_WINDOW_SECS" using here by (simp add: f_def fresh_at [OF dist])
    have "table_ok n (t\<lparr>out_entries := g\<rparr>)" using table_shrinks [OF tok g] sub by simp
    moreover have "live f \<subseteq> live (out_entries t)" using f(2) by (rule live_mono)
    moreover have "live g \<subseteq> live f" using sub by (rule live_mono)
    ultimately show ?thesis using taken [OF step] mem gone fresh by auto
  qed
qed

lemma ledger_claims:
  assumes "ledger_ok n l"
  shows "ledger_ok n (ask_step n (Claim now ch responder) l)"
proof -
  have ok: "table_ok n (ld_requests l)"
    and led: "mset (ld_claimed l) + image_mset asked_of (mset_set (live (out_entries (ld_requests l)))) \<subseteq># mset (ld_asked l)"
    using assms by (simp_all add: ledger_ok_def)
  show ?thesis
  proof (cases rule: claim_live [OF ok, of now ch responder])
    case (1 t')
    have "ledger_ok n (l\<lparr>ld_requests := (ld_requests l)\<lparr>out_entries := fresh_entries now (out_entries (ld_requests l))\<rparr>\<rparr>)"
      by (rule ledger_shrinks [OF assms]) (use 1 in \<open>auto simp: table_ok_def\<close>)
    then show ?thesis using 1 by simp
  next
    case (2 t' e)
    have "insert (ch, e) (live (out_entries t')) \<subseteq> live (out_entries (ld_requests l))" using 2 by auto
    then have "image_mset asked_of (mset_set (insert (ch, e) (live (out_entries t'))))
        \<subseteq># image_mset asked_of (mset_set (live (out_entries (ld_requests l))))"
      by (intro image_mset_subseteq_mono subset_imp_msubset_mset_set finite_live)
    then have "add_mset (ch, ask_dest e, ask_since e) (mset (ld_claimed l)) + image_mset asked_of (mset_set (live (out_entries t')))
        \<subseteq># mset (ld_claimed l) + image_mset asked_of (mset_set (live (out_entries (ld_requests l))))"
      using 2(4) by (simp add: finite_live asked_of_def)
    also note led
    finally show ?thesis using 2 by (simp add: ledger_ok_def)
  qed
qed

lemma ledger_step: "ledger_ok n l \<Longrightarrow> ledger_ok n (ask_step n ev l)"
proof (cases ev)
  case (Retract ch dest rid)
  assume ok: "ledger_ok n l"
  then show ?thesis unfolding Retract ask_step.simps drop_request_def
    by (intro ledger_shrinks keys_fold entries_fold)
      (auto simp: ledger_ok_def table_ok_def split: option.splits dest: in_set_butlastD)
next
  case (Expire now ch dest)
  assume ok: "ledger_ok n l"
  then show ?thesis unfolding Expire ask_step.simps expire_requests_def
    by (intro ledger_shrinks keys_fold entries_fold) (auto simp: ledger_ok_def table_ok_def)
qed (auto simp del: ask_step.simps intro: ledger_asks ledger_claims)

interpretation asking: machine new_ledger "ask_step n" "ledger_ok n" for n
  by unfold_locales (simp add: ledger_ok_def new_ledger_def new_requests_def table_ok_def live_def, rule ledger_step)

text \<open>C15. Over any history of requests, retractions, expiries and answers, each answer that was taken is
  matched to one request of ours, to that peer, on that channel and with that start, and no request
  is matched twice: the peer may answer under either of its names, but not once under each.\<close>

theorem one_answer_per_request:
  "mset (ld_claimed (fold (ask_step n) es new_ledger)) \<subseteq># mset (ld_asked (fold (ask_step n) es new_ledger))"
  using asking.inv_run [of n es] unfolding ledger_ok_def by (metis subset_mset.order_trans mset_subset_eq_add_left)

end
