(* ===== verification/Serving_Safety.thy ===== *)
theory Serving_Safety
  imports Serving
begin

text \<open>
  What the responder's half of sync guarantees. The sweep over pages equals one pass over the rows
  after the start; it returns exactly the permitted rows up to its cursor, never part of a timestamp
  group, and repeated from its cursor it covers everything, except where one group has more permitted
  rows than a response may carry: there it stalls. A batch is never cut within a group. One exchange
  of id lists makes two sides equal.
\<close>

section \<open>One pass\<close>

lemma sweep_rows_append:
  "sweep_rows test w (xs @ ys) =
    (case sweep_rows test w xs of (w', True) \<Rightarrow> (w', True) | (w', False) \<Rightarrow> sweep_rows test w' ys)"
proof (induction test w xs rule: sweep_rows.induct)
  case (2 test w ir page)
  obtain v flushed where fl: "try_flush_run test w = (v, flushed)" by (cases "try_flush_run test w")
  show ?case
  proof (cases "sw_run_ts w \<noteq> None \<and> sw_run_ts w \<noteq> Some (ms_ts (snd ir))")
    case True
    show ?thesis
    proof (cases "flushed \<and> \<not> sw_scanned v \<ge> MAX_SWEEP_SCAN")
      case go: True
      then show ?thesis using True fl "2.IH"(1) [OF True fl [symmetric] refl] by (simp add: Let_def)
    next
      case False
      then show ?thesis using True fl by (auto simp: Let_def)
    qed
  next
    case False
    show ?thesis unfolding append_Cons sweep_rows.simps if_not_P [OF False] by (rule "2.IH"(2) [OF False])
  qed
qed simp

lemma sweep_pages_flat:
  "sweep_pages test rows ch w =
    (case sweep_rows test w (rows_after rows ch (sw_ts w) (sw_id w)) of
       (w', True) \<Rightarrow> w' | (w', False) \<Rightarrow> fst (try_flush_run test w'))"
proof (induction test rows ch w rule: sweep_pages.induct)
  case (1 test rows ch w)
  define rs where "rs = rows_after rows ch (sw_ts w) (sw_id w)"
  define page where "page = get_messages_after rows ch (sw_ts w) MAX_RESPONSE_MESSAGES (sw_id w)"
  have page: "page = take MAX_RESPONSE_MESSAGES rs" by (simp add: page_def rs_def get_messages_after_def)
  have rs: "rs = page @ drop MAX_RESPONSE_MESSAGES rs" unfolding page by simp
  obtain w' stop where sr: "sweep_rows test w page = (w', stop)" by (cases "sweep_rows test w page")
  have unf: "sweep_pages test rows ch w =
     (if page = [] then fst (try_flush_run test w)
      else if stop then w' else if length page < MAX_RESPONSE_MESSAGES then fst (try_flush_run test w')
      else sweep_pages test rows ch w')"
    using sr by (subst sweep_pages.simps) (simp add: page_def [symmetric] Let_def split: bool.splits)
  show ?case
  proof (cases "page = []")
    case True
    then have "rs = []" unfolding page by (simp add: MAX_RESPONSE_MESSAGES_def)
    then show ?thesis using unf True by (simp add: rs_def [symmetric])
  next
    case False
    have all: "sweep_rows test w rs = (if stop then (w', True) else sweep_rows test w' (drop MAX_RESPONSE_MESSAGES rs))"
      using sr sweep_rows_append [of test w page "drop MAX_RESPONSE_MESSAGES rs"] rs by (auto split: bool.splits)
    show ?thesis
    proof (cases "stop \<or> length page < MAX_RESPONSE_MESSAGES")
      case True
      then have "\<not> stop \<Longrightarrow> drop MAX_RESPONSE_MESSAGES rs = []" unfolding page by simp
      then show ?thesis using True False unf all by (auto simp: rs_def [symmetric])
    next
      case go: False
      then have nostop: "\<not> stop" and full: "length page = MAX_RESPONSE_MESSAGES" using page by auto
      have "rows_after rows ch (sw_ts w') (sw_id w') = drop MAX_RESPONSE_MESSAGES rs"
        using sweep_page_shrinks [of page rows ch w test w'] False sr nostop full by (simp add: page_def rs_def)
      moreover have "sweep_pages test rows ch w' =
          (case sweep_rows test w' (rows_after rows ch (sw_ts w') (sw_id w')) of
             (w', True) \<Rightarrow> w' | (w', False) \<Rightarrow> fst (try_flush_run test w'))"
        using 1 [OF page_def False sr [symmetric]] nostop full by simp
      ultimately show ?thesis using unf all False nostop full by (simp add: rs_def [symmetric])
    qed
  qed
qed

section \<open>What a pass leaves\<close>

abbreviation row_ts :: "nat \<times> message_row \<Rightarrow> secs" where
  "row_ts ir \<equiv> ms_ts (snd ir)"

definition cursor_after :: "pyfloat \<Rightarrow> (nat \<times> message_row) list \<Rightarrow> pyfloat" where
  "cursor_after start res = (if res = [] then start else Finite (row_ts (last res)))"

text \<open>Between rows: the groups finished so far have been added, the last one is the run.\<close>

definition mid_sweep :: "(message_row \<Rightarrow> bool) \<Rightarrow> pyfloat \<Rightarrow> sweep \<Rightarrow> (nat \<times> message_row) list \<Rightarrow> (nat \<times> message_row) list \<Rightarrow> bool" where
  "mid_sweep test start w res run \<longleftrightarrow>
     sw_permitted w = filter test (map snd res) \<and> sw_run w = map snd run \<and> sw_cursor w = cursor_after start res
     \<and> \<not> sw_truncated w \<and> length (sw_permitted w) \<le> MAX_RESPONSE_MESSAGES
     \<and> (run = [] \<longrightarrow> res = [] \<and> sw_run_ts w = None)
     \<and> (\<forall>x\<in>set run. sw_run_ts w = Some (row_ts x)) \<and> (\<forall>x\<in>set res. \<forall>y\<in>set run. row_ts x < row_ts y)"

text \<open>At the end: the rows resolved, and those left.\<close>

definition swept :: "(message_row \<Rightarrow> bool) \<Rightarrow> pyfloat \<Rightarrow> sweep \<Rightarrow> (nat \<times> message_row) list \<Rightarrow> (nat \<times> message_row) list \<Rightarrow> bool" where
  "swept test start w res rest \<longleftrightarrow>
     sw_permitted w = filter test (map snd res) \<and> sw_cursor w = cursor_after start res
     \<and> (sw_truncated w \<longleftrightarrow> rest \<noteq> []) \<and> length (sw_permitted w) \<le> MAX_RESPONSE_MESSAGES
     \<and> (\<forall>x\<in>set res. \<forall>y\<in>set rest. row_ts x < row_ts y)"

lemma flush_cases:
  assumes "mid_sweep test start w res run" "run \<noteq> []"
  shows "(\<exists>v. try_flush_run test w = (v, True) \<and> sw_permitted v = filter test (map snd (res @ run))
      \<and> sw_cursor v = cursor_after start (res @ run) \<and> \<not> sw_truncated v \<and> length (sw_permitted v) \<le> MAX_RESPONSE_MESSAGES
      \<and> sw_run_ts v = sw_run_ts w \<and> sw_scanned v = sw_scanned w)
    \<or> (try_flush_run test w = (w\<lparr>sw_truncated := True\<rparr>, False)
      \<and> (length (sw_permitted w) + length (filter test (map snd run)) > MAX_RESPONSE_MESSAGES \<or> res \<noteq> []))"
proof -
  have ts: "sw_run_ts w = Some (row_ts (last run))" using assms by (simp add: mid_sweep_def)
  have "sw_permitted w \<noteq> [] \<Longrightarrow> res \<noteq> []" using assms(1) by (auto simp: mid_sweep_def)
  then show ?thesis using assms ts
    by (auto simp: try_flush_run_def Let_def mid_sweep_def cursor_after_def)
qed

lemma mid_run:
  assumes "mid_sweep test start w res run" "x \<in> set run"
  shows "row_ts x = row_ts (last run)"
proof -
  have "last run \<in> set run" using assms(2) by (cases run) auto
  then have "sw_run_ts w = Some (row_ts x)" "sw_run_ts w = Some (row_ts (last run))"
    using assms unfolding mid_sweep_def by blast+
  then show ?thesis by simp
qed

lemma mid_take:
  assumes "mid_sweep test start w res run" "run = [] \<or> row_ts ir = row_ts (last run)"
    "\<forall>x\<in>set res. row_ts x < row_ts ir"
  shows "mid_sweep test start (take_row ir w) res (run @ [ir])"
proof -
  have run: "row_ts x = row_ts ir" if "x \<in> set run" for x
    using mid_run [OF assms(1) that] assms(2) that by (cases run) auto
  have "\<forall>x\<in>set (run @ [ir]). Some (row_ts ir) = Some (row_ts x)" using run by auto
  moreover have "\<forall>x\<in>set res. \<forall>y\<in>set (run @ [ir]). row_ts x < row_ts y" using assms(3) run by auto
  moreover have "sw_permitted w = filter test (map snd res)" "sw_run w = map snd run" "sw_cursor w = cursor_after start res"
    "\<not> sw_truncated w" "length (sw_permitted w) \<le> MAX_RESPONSE_MESSAGES"
    using assms(1) unfolding mid_sweep_def by blast+
  ultimately show ?thesis unfolding mid_sweep_def take_row_def by simp
qed

lemma sweep_rows_spec:
  assumes "mid_sweep test start w res run" "sorted (map row_ts (run @ todo))"
    "\<forall>x\<in>set res. \<forall>y\<in>set todo. row_ts x < row_ts y"
  shows "case sweep_rows test w todo of
     (w', False) \<Rightarrow> \<exists>res' run'. mid_sweep test start w' res' run' \<and> res @ run @ todo = res' @ run'
   | (w', True) \<Rightarrow> \<exists>res' rest. swept test start w' res' rest \<and> res @ run @ todo = res' @ rest \<and> rest \<noteq> []
       \<and> (res' = [] \<longrightarrow> (\<exists>t. length (filter (\<lambda>x. test (snd x) \<and> row_ts x = t) rest) > MAX_RESPONSE_MESSAGES))"
  using assms
proof (induction todo arbitrary: w res run)
  case Nil
  then show ?case by auto
next
  case (Cons ir todo)
  have run_ts: "run \<noteq> [] \<Longrightarrow> sw_run_ts w = Some (row_ts (last run))" "run = [] \<Longrightarrow> sw_run_ts w = None"
    using Cons.prems(1) by (simp_all add: mid_sweep_def)
  show ?case
  proof (cases "run \<noteq> [] \<and> row_ts (last run) \<noteq> row_ts ir")
    case False
    then have cont: "sweep_rows test w (ir # todo) = sweep_rows test (take_row ir w) todo"
      using run_ts by (cases "run = []") simp_all
    have "mid_sweep test start (take_row ir w) res (run @ [ir])"
      by (rule mid_take [OF Cons.prems(1)]) (use False Cons.prems(3) in auto)
    from Cons.IH [OF this] Cons.prems(2,3) show ?thesis unfolding cont by simp
  next
    case new: True
    then have guard: "sw_run_ts w \<noteq> None \<and> sw_run_ts w \<noteq> Some (ms_ts (snd ir))" using run_ts by simp
    have run_less: "\<forall>x\<in>set run. \<forall>y\<in>set (ir # todo). row_ts x < row_ts y"
    proof (intro ballI)
      fix x y assume x: "x \<in> set run" and y: "y \<in> set (ir # todo)"
      have "row_ts x = row_ts (last run)" by (rule mid_run [OF Cons.prems(1) x])
      moreover have "row_ts (last run) \<le> row_ts ir" "row_ts ir \<le> row_ts y"
        using Cons.prems(2) new y by (auto simp: sorted_append)
      ultimately show "row_ts x < row_ts y" using new by simp
    qed
    have split: "\<forall>x\<in>set (res @ run). \<forall>y\<in>set (ir # todo). row_ts x < row_ts y"
      using run_less Cons.prems(3) by auto
    from flush_cases [OF Cons.prems(1)] new
    consider (ok) v where "try_flush_run test w = (v, True)" "sw_permitted v = filter test (map snd (res @ run))"
        "sw_cursor v = cursor_after start (res @ run)" "\<not> sw_truncated v" "length (sw_permitted v) \<le> MAX_RESPONSE_MESSAGES"
        "sw_scanned v = sw_scanned w"
      | (over) "try_flush_run test w = (w\<lparr>sw_truncated := True\<rparr>, False)"
        "length (sw_permitted w) + length (filter test (map snd run)) > MAX_RESPONSE_MESSAGES \<or> res \<noteq> []" by blast
    then show ?thesis
    proof cases
      case over
      have rows: "sweep_rows test w (ir # todo) = (w\<lparr>sw_truncated := True, sw_run := []\<rparr>, True)"
        using guard over(1) by (simp add: Let_def)
      have sw: "swept test start (w\<lparr>sw_truncated := True, sw_run := []\<rparr>) res (run @ ir # todo)"
        using Cons.prems(1,3) new by (auto simp: swept_def mid_sweep_def)
      have "\<exists>t. length (filter (\<lambda>x. test (snd x) \<and> row_ts x = t) (run @ ir # todo)) > MAX_RESPONSE_MESSAGES" if "res = []"
      proof -
        have "filter (\<lambda>x. test (snd x) \<and> row_ts x = row_ts (last run)) run = filter (\<lambda>x. test (snd x)) run"
          by (rule filter_cong) (use mid_run [OF Cons.prems(1)] in auto)
        moreover have "length (filter test (map snd run)) = length (filter (\<lambda>x. test (snd x)) run)"
          by (simp add: filter_map comp_def)
        moreover have "length (filter test (map snd run)) > MAX_RESPONSE_MESSAGES"
          using over(2) that Cons.prems(1) by (simp add: mid_sweep_def)
        ultimately have "length (filter (\<lambda>x. test (snd x) \<and> row_ts x = row_ts (last run)) (run @ ir # todo)) > MAX_RESPONSE_MESSAGES"
          by simp
        then show ?thesis by blast
      qed
      then show ?thesis unfolding rows prod.case bool.case
        by (intro exI [of _ res] exI [of _ "run @ ir # todo"] conjI) (simp_all add: sw)
    next
      case ok
      show ?thesis
      proof (cases "sw_scanned v \<ge> MAX_SWEEP_SCAN")
        case True
        have rows: "sweep_rows test w (ir # todo) = (v\<lparr>sw_run := [], sw_truncated := True\<rparr>, True)"
          using guard ok(1) True by (simp add: Let_def)
        have "swept test start (v\<lparr>sw_run := [], sw_truncated := True\<rparr>) (res @ run) (ir # todo)"
          using ok split by (simp add: swept_def)
        then show ?thesis unfolding rows prod.case bool.case using new
          by (intro exI [of _ "res @ run"] exI [of _ "ir # todo"] conjI) simp_all
      next
        case False
        have rows: "sweep_rows test w (ir # todo) = sweep_rows test (take_row ir (v\<lparr>sw_run := []\<rparr>)) todo"
          using guard ok(1) False by (simp add: Let_def)
        have "mid_sweep test start (take_row ir (v\<lparr>sw_run := []\<rparr>)) (res @ run) [ir]"
          using ok split by (simp add: mid_sweep_def take_row_def)
        from Cons.IH [OF this] Cons.prems(2) split show ?thesis unfolding rows by (simp add: sorted_append)
      qed
    qed
  qed
qed

lemma sweep_spec:
  fixes test rows ch start
  defines "rs \<equiv> rows_after rows ch start None" and "w \<equiv> sweep_pages test rows ch (new_sweep start)"
  shows "\<exists>res rest. rs = res @ rest \<and> swept test start w res rest
    \<and> (res = [] \<longrightarrow> rs \<noteq> [] \<longrightarrow> (\<exists>t. length (filter (\<lambda>x. test (snd x) \<and> row_ts x = t) rs) > MAX_RESPONSE_MESSAGES))"
proof -
  have start: "mid_sweep test start (new_sweep start) [] []"
    by (simp add: mid_sweep_def new_sweep_def cursor_after_def)
  have sorted: "sorted (map row_ts rs)"
  proof -
    have "sorted_wrt (\<lambda>x y. row_ts x \<le> row_ts y) rs"
      unfolding rs_def using rows_after_strict [of rows ch start None]
      by (rule sorted_wrt_mono_rel [rotated]) (auto simp: less_prod_def)
    then show ?thesis by (simp add: sorted_map)
  qed
  have flat: "w = (case sweep_rows test (new_sweep start) rs of (w', True) \<Rightarrow> w' | (w', False) \<Rightarrow> fst (try_flush_run test w'))"
    unfolding w_def sweep_pages_flat rs_def by (simp add: new_sweep_def)
  obtain w' stop where sr: "sweep_rows test (new_sweep start) rs = (w', stop)" by fastforce
  note spec = sweep_rows_spec [OF start, of rs, unfolded sr]
  show ?thesis
  proof (cases stop)
    case True
    then have w: "w = w'" using flat sr by simp
    from True spec sorted obtain res rest where r: "swept test start w' res rest" "rs = res @ rest"
      "res = [] \<longrightarrow> (\<exists>t. length (filter (\<lambda>x. test (snd x) \<and> row_ts x = t) rest) > MAX_RESPONSE_MESSAGES)" by auto
    show ?thesis by (intro exI [of _ res] exI [of _ rest]) (use r w in auto)
  next
    case False
    then obtain res run where m: "mid_sweep test start w' res run" and rs: "rs = res @ run" using spec sorted by auto
    have w: "w = fst (try_flush_run test w')" using flat sr False by simp
    show ?thesis
    proof (cases "run = []")
      case True
      then have "w = w'" "res = []" using m w by (auto simp: mid_sweep_def try_flush_run_def)
      then show ?thesis using m rs True by (intro exI [of _ "[]"]) (simp add: mid_sweep_def swept_def)
    next
      case ne: False
      from flush_cases [OF m ne] consider
          (ok) "sw_permitted w = filter test (map snd (res @ run)) \<and> sw_cursor w = cursor_after start (res @ run)
             \<and> \<not> sw_truncated w \<and> length (sw_permitted w) \<le> MAX_RESPONSE_MESSAGES"
        | (over) "w = w'\<lparr>sw_truncated := True\<rparr>"
          "length (sw_permitted w') + length (filter test (map snd run)) > MAX_RESPONSE_MESSAGES \<or> res \<noteq> []"
        using w by (metis fst_conv)
      then show ?thesis
      proof cases
        case ok
        then have "swept test start w (res @ run) []" unfolding swept_def by auto
        then show ?thesis using rs ne by (intro exI [of _ "res @ run"] exI [of _ "[]"] conjI) simp_all
      next
        case over
        have "swept test start w res run" using m over(1) ne by (auto simp: swept_def mid_sweep_def)
        moreover have "\<exists>t. length (filter (\<lambda>x. test (snd x) \<and> row_ts x = t) rs) > MAX_RESPONSE_MESSAGES" if "res = []"
        proof -
          have "filter (\<lambda>x. test (snd x) \<and> row_ts x = row_ts (last run)) run = filter (\<lambda>x. test (snd x)) run"
            by (rule filter_cong) (use mid_run [OF m] in auto)
          moreover have "length (filter test (map snd run)) = length (filter (\<lambda>x. test (snd x)) run)"
            by (simp add: filter_map comp_def)
          ultimately show ?thesis using over(2) that m rs by (auto simp: mid_sweep_def intro: exI [of _ "row_ts (last run)"])
        qed
        ultimately show ?thesis using rs by blast
      qed
    qed
  qed
qed


section \<open>The sweep as one filter\<close>

abbreviation later :: "pyfloat \<Rightarrow> message_row \<Rightarrow> bool" where
  "later cursor r \<equiv> float_less cursor (Finite (ms_ts r))"

definition rows_since :: "message_row list \<Rightarrow> hexid \<Rightarrow> pyfloat \<Rightarrow> message_row list" where
  "rows_since rows ch start = map snd (rows_after rows ch start None)"

lemma rows_since_later: "r \<in> set (rows_since rows ch start) \<Longrightarrow> later start r"
  by (auto simp: rows_since_def rows_after_def is_after_def Let_def)

lemma rows_since_sorted: "sorted (map ms_ts (rows_since rows ch start))"
proof -
  have "sorted_wrt (\<lambda>x y. row_ts x \<le> row_ts y) (rows_after rows ch start None)"
    using rows_after_strict [of rows ch start None] by (rule sorted_wrt_mono_rel [rotated]) (auto simp: less_prod_def)
  then show ?thesis by (simp add: rows_since_def sorted_map comp_def)
qed

lemma sorted_last: "sorted xs \<Longrightarrow> x \<in> set xs \<Longrightarrow> x \<le> last xs"
  by (induction xs) auto

lemma collect_is_filter:
  assumes test: "relay_test s channel ch requester = Inr test"
    and r: "collect_permitted_rows s channel ch requester rows start = Inr (batch, further, cursor)"
  shows "\<exists>res rest. rows_since rows ch start = res @ rest \<and> batch = filter test res \<and> (further \<longleftrightarrow> rest \<noteq> [])
    \<and> length batch \<le> MAX_RESPONSE_MESSAGES \<and> (\<forall>x\<in>set res. \<not> later cursor x) \<and> (\<forall>x\<in>set rest. later cursor x)
    \<and> cursor = (if res = [] then start else Finite (ms_ts (last res)))
    \<and> (res = [] \<longrightarrow> rest \<noteq> [] \<longrightarrow> (\<exists>t. length (filter (\<lambda>r. test r \<and> ms_ts r = t) rest) > MAX_RESPONSE_MESSAGES))"
proof -
  define w where "w = sweep_pages test rows ch (new_sweep start)"
  have out: "batch = sw_permitted w" "further = sw_truncated w" "cursor = sw_cursor w"
    using r test by (simp_all add: collect_permitted_rows_def w_def Let_def)
  obtain res rest where rs: "rows_after rows ch start None = res @ rest" and sw: "swept test start w res rest"
    and big: "res = [] \<longrightarrow> res @ rest \<noteq> [] \<longrightarrow> (\<exists>t. length (filter (\<lambda>x. test (snd x) \<and> row_ts x = t) (res @ rest)) > MAX_RESPONSE_MESSAGES)"
    using sweep_spec [of rows ch start test] unfolding w_def by (elim exE conjE) simp
  have since: "rows_since rows ch start = map snd res @ map snd rest" using rs by (simp add: rows_since_def)
  have cur: "cursor = (if map snd res = [] then start else Finite (ms_ts (last (map snd res))))"
    using sw out by (simp add: swept_def cursor_after_def last_map)
  have low: "\<not> later cursor x" if "x \<in> set (map snd res)" for x
  proof -
    have ne: "map snd res \<noteq> []" using that by (cases res) auto
    have "sorted (map ms_ts (map snd res))" using rows_since_sorted [of rows ch start] since by (simp add: sorted_append)
    then have "ms_ts x \<le> ms_ts (last (map snd res))"
      using that by (metis sorted_last list.set_map image_eqI last_map ne)
    then show ?thesis using ne by (simp add: cur)
  qed
  have high: "later cursor x" if "x \<in> set (map snd rest)" for x
  proof (cases "res = []")
    case True
    then show ?thesis using that rows_since_later [of x rows ch start] since by (simp add: cur)
  next
    case False
    then have "last res \<in> set res" by simp
    then show ?thesis using sw that False by (auto simp: swept_def cur last_map)
  qed
  have big': "map snd res = [] \<longrightarrow> map snd rest \<noteq> [] \<longrightarrow>
     (\<exists>t. length (filter (\<lambda>r. test r \<and> ms_ts r = t) (map snd rest)) > MAX_RESPONSE_MESSAGES)"
    using big by (simp add: filter_map comp_def)
  have "batch = filter test (map snd res)" "further \<longleftrightarrow> map snd rest \<noteq> []" "length batch \<le> MAX_RESPONSE_MESSAGES"
    using sw unfolding swept_def out by (blast, simp, blast)
  then show ?thesis
    by (intro exI [of _ "map snd res"] exI [of _ "map snd rest"] conjI ballI since cur big' low high)
qed

lemma rows_since_next:
  assumes "rows_since rows ch start = res @ rest" "res \<noteq> []"
    and "\<forall>x\<in>set res. \<not> later (Finite (ms_ts (last res))) x" "\<forall>x\<in>set rest. later (Finite (ms_ts (last res))) x"
  shows "rows_since rows ch (Finite (ms_ts (last res))) = rest"
proof -
  define t where "t = ms_ts (last res)"
  have "last res \<in> set (rows_since rows ch start)" using assms(1,2) by simp
  then have start: "float_less start (Finite t)" unfolding t_def by (rule rows_since_later)
  have P: "is_after ch (Finite t) None y \<longleftrightarrow> t < row_ts y \<and> is_after ch start None y" for y
    using start by (cases start) (auto simp: is_after_def Let_def)
  have "rows_after rows ch (Finite t) None = filter (\<lambda>y. t < row_ts y) (rows_after rows ch start None)"
    unfolding rows_after_def P filter_sort filter_filter by (simp add: conj_commute)
  then have "rows_since rows ch (Finite t) = filter (\<lambda>r. t < ms_ts r) (rows_since rows ch start)"
    by (simp add: rows_since_def filter_map comp_def)
  also have "\<dots> = filter (\<lambda>r. t < ms_ts r) res @ filter (\<lambda>r. t < ms_ts r) rest" by (simp add: assms(1))
  also have "\<dots> = rest" using assms(3,4) by (auto simp: t_def filter_empty_conv filter_id_conv)
  finally show ?thesis by (simp add: t_def)
qed

section \<open>Properties\<close>

text \<open>Asking again from the cursor until nothing remains.\<close>

fun sweep_rounds ::
    "store \<Rightarrow> channel_row option \<Rightarrow> hexid \<Rightarrow> hexid \<Rightarrow> message_row list \<Rightarrow> nat \<Rightarrow> pyfloat \<Rightarrow> message_row list option" where
  "sweep_rounds s channel ch requester rows 0 start = None"
| "sweep_rounds s channel ch requester rows (Suc n) start =
     (case collect_permitted_rows s channel ch requester rows start of
        Inl e \<Rightarrow> None
      | Inr (batch, further, cursor) \<Rightarrow>
          if further then map_option (\<lambda>later_rows. batch @ later_rows) (sweep_rounds s channel ch requester rows n cursor)
          else Some batch)"

text \<open>C13. A sweep answers with exactly the rows the requester may see after the start and up to the cursor it
  returns, at most 50, and says that more remains exactly when a row after the cursor is left. As the
  cursor is a time, a group of rows with one time is never split.\<close>

theorem sweep_exact:
  assumes "relay_test s channel ch requester = Inr test"
    and "collect_permitted_rows s channel ch requester rows start = Inr (batch, further, cursor)"
  shows "batch = filter (\<lambda>r. test r \<and> \<not> later cursor r) (rows_since rows ch start)
    \<and> (further \<longleftrightarrow> (\<exists>r\<in>set (rows_since rows ch start). later cursor r)) \<and> length batch \<le> MAX_RESPONSE_MESSAGES"
proof -
  obtain res rest where *: "rows_since rows ch start = res @ rest" "batch = filter test res" "further \<longleftrightarrow> rest \<noteq> []"
    "length batch \<le> MAX_RESPONSE_MESSAGES" "\<forall>x\<in>set res. \<not> later cursor x" "\<forall>x\<in>set rest. later cursor x"
    using collect_is_filter [OF assms] by blast
  have "filter (\<lambda>r. test r \<and> \<not> later cursor r) res = filter test res" by (rule filter_cong) (use *(5) in auto)
  moreover have "filter (\<lambda>r. test r \<and> \<not> later cursor r) rest = []" using *(6) by (auto simp: filter_empty_conv)
  moreover have "(\<exists>r\<in>set (res @ rest). later cursor r) \<longleftrightarrow> rest \<noteq> []" using *(5,6) by (cases rest) auto
  ultimately show ?thesis using * by simp
qed

lemma rounds_cover:
  assumes test: "relay_test s channel ch requester = Inr test"
    and small: "\<forall>t. length (filter (\<lambda>r. test r \<and> ms_ts r = t) (rows_since rows ch start)) \<le> MAX_RESPONSE_MESSAGES"
  shows "length (rows_since rows ch start) < n \<Longrightarrow>
    sweep_rounds s channel ch requester rows n start = Some (filter test (rows_since rows ch start))"
  using small
proof (induction n arbitrary: start)
  case (Suc n)
  obtain batch further cursor where r: "collect_permitted_rows s channel ch requester rows start = Inr (batch, further, cursor)"
    using test by (auto simp: collect_permitted_rows_def Let_def)
  obtain res rest where *: "rows_since rows ch start = res @ rest" "batch = filter test res" "further \<longleftrightarrow> rest \<noteq> []"
    "\<forall>x\<in>set res. \<not> later cursor x" "\<forall>x\<in>set rest. later cursor x"
    "cursor = (if res = [] then start else Finite (ms_ts (last res)))"
    "res = [] \<longrightarrow> rest \<noteq> [] \<longrightarrow> (\<exists>t. length (filter (\<lambda>r. test r \<and> ms_ts r = t) rest) > MAX_RESPONSE_MESSAGES)"
    using collect_is_filter [OF test r] by blast
  show ?case
  proof (cases "rest = []")
    case True
    then show ?thesis using r * by simp
  next
    case False
    have res: "res \<noteq> []" using *(1,7) False Suc.prems(2) by (metis append_Nil leD)
    have next_rows: "rows_since rows ch cursor = rest"
      using rows_since_next [OF *(1) res] *(6) res *(4,5) by simp
    have "sweep_rounds s channel ch requester rows n cursor = Some (filter test rest)"
    proof (subst next_rows [symmetric], rule Suc.IH)
      show "length (rows_since rows ch cursor) < n" using next_rows *(1) res Suc.prems(1) by (cases res) auto
      show "\<forall>t. length (filter (\<lambda>r. test r \<and> ms_ts r = t) (rows_since rows ch cursor)) \<le> MAX_RESPONSE_MESSAGES"
        unfolding next_rows using Suc.prems(2) *(1) by (metis add_leE filter_append length_append)
    qed
    then show ?thesis using r * False by simp
  qed
qed simp

text \<open>C14. Repeated from the cursor it returns, the sweep delivers every row the requester may see, in order and
  each once, within as many rounds as there are rows and one, as long as no more than 50 permitted rows
  share one time.\<close>

theorem sweeps_cover_everything:
  assumes "relay_test s channel ch requester = Inr test"
    and "\<forall>t. length (filter (\<lambda>r. test r \<and> ms_ts r = t) (rows_since rows ch start)) \<le> MAX_RESPONSE_MESSAGES"
  shows "\<exists>n \<le> Suc (length (rows_since rows ch start)).
    sweep_rounds s channel ch requester rows n start = Some (filter test (rows_since rows ch start))"
  using rounds_cover [OF assms, of "Suc (length (rows_since rows ch start))"] by auto

lemma stalled_rounds:
  "collect_permitted_rows s channel ch requester rows start = Inr ([], True, start) \<Longrightarrow>
    sweep_rounds s channel ch requester rows n start = None"
  by (induction n) simp_all

text \<open>C36. A group of more than 50 permitted rows with one time, when it comes first, is never sent: the sweep
  answers with no row, says that more remains and returns the start as cursor, however often it is
  asked. The comment on the sweep says that such a group is shipped whole rather than stalling.\<close>

theorem oversized_group_stalls_sweep:
  assumes "relay_test s channel ch requester = Inr test" "rows_since rows ch start \<noteq> []"
    and "length (filter (\<lambda>r. test r \<and> ms_ts r = ms_ts (hd (rows_since rows ch start))) (rows_since rows ch start)) > MAX_RESPONSE_MESSAGES"
  shows "collect_permitted_rows s channel ch requester rows start = Inr ([], True, start)
    \<and> sweep_rounds s channel ch requester rows n start = None"
proof -
  obtain batch further cursor where r: "collect_permitted_rows s channel ch requester rows start = Inr (batch, further, cursor)"
    using assms(1) by (auto simp: collect_permitted_rows_def Let_def)
  obtain res rest where *: "rows_since rows ch start = res @ rest" "batch = filter test res" "further \<longleftrightarrow> rest \<noteq> []"
    "length batch \<le> MAX_RESPONSE_MESSAGES" "\<forall>x\<in>set res. \<not> later cursor x" "\<forall>x\<in>set rest. later cursor x"
    "cursor = (if res = [] then start else Finite (ms_ts (last res)))"
    using collect_is_filter [OF assms(1) r] by blast
  have "res = []"
  proof (rule ccontr)
    assume ne: "res \<noteq> []"
    let ?g = "\<lambda>r. test r \<and> ms_ts r = ms_ts (hd res)"
    have "\<not> later cursor (hd res)" using *(5) ne by simp
    then have "filter ?g rest = []" using *(6) by (auto simp: filter_empty_conv)
    moreover have "hd (rows_since rows ch start) = hd res" using *(1) ne by simp
    ultimately have "MAX_RESPONSE_MESSAGES < length (filter ?g res)" using assms(3) *(1) by simp
    also have "\<dots> \<le> length (filter test res)"
      using length_filter_le [of "\<lambda>r. ms_ts r = ms_ts (hd res)" "filter test res"] by (simp add: conj_commute)
    finally show False using *(2,4) by simp
  qed
  then have c: "collect_permitted_rows s channel ch requester rows start = Inr ([], True, start)"
    using r * assms(2) by simp
  then show ?thesis using stalled_rounds by blast
qed

section \<open>Cutting a batch\<close>

definition batch_size :: "message_row list \<Rightarrow> int" where
  "batch_size rows = sum_list (map row_wire_size rows)"

lemma row_wire_size_pos: "0 < row_wire_size r"
  by (simp add: row_wire_size_def split: option.split)

lemma cut_from_bounds: "i \<le> cut_from i used rows \<and> cut_from i used rows \<le> i + length rows"
  by (induction i used rows rule: cut_from.induct) (auto simp: Let_def)

lemma cut_from_fits:
  "cut_from i used rows = i + n \<Longrightarrow> i \<le> MAX_RESPONSE_MESSAGES \<Longrightarrow> i + n \<le> MAX_RESPONSE_MESSAGES
    \<and> (used \<le> MAX_RESPONSE_BYTES \<or> i \<le> 1 \<longrightarrow> used + batch_size (take n rows) \<le> MAX_RESPONSE_BYTES \<or> i + n \<le> 1)"
proof (induction i used rows arbitrary: n rule: cut_from.induct)
  case (2 i used r rs)
  show ?case
  proof (cases "i \<ge> MAX_RESPONSE_MESSAGES \<or> (i > 0 \<and> used + row_wire_size r > MAX_RESPONSE_BYTES)")
    case True
    then have "n = 0" using 2(2) by (simp add: Let_def)
    then show ?thesis using 2(3) by (auto simp: batch_size_def)
  next
    case False
    then have rec: "cut_from (Suc i) (used + row_wire_size r) rs = i + n" using 2(2) by (simp add: Let_def split: if_splits)
    then obtain m where m: "n = Suc m" using cut_from_bounds [of "Suc i" "used + row_wire_size r" rs] by (cases n) auto
    have "Suc i + m \<le> MAX_RESPONSE_MESSAGES \<and> (used + row_wire_size r \<le> MAX_RESPONSE_BYTES \<or> Suc i \<le> 1 \<longrightarrow>
        used + row_wire_size r + batch_size (take m rs) \<le> MAX_RESPONSE_BYTES \<or> Suc i + m \<le> 1)"
      using 2(1) [OF refl False, of m] rec m False by simp
    then show ?thesis using False by (auto simp: m batch_size_def)
  qed
qed (simp add: batch_size_def)

lemma cut_back_spec:
  "c \<le> length rows \<Longrightarrow> cut_back rows t c \<le> c \<and> (\<forall>i. cut_back rows t c \<le> i \<longrightarrow> i < c \<longrightarrow> ms_ts (rows ! i) = t)
    \<and> (cut_back rows t c \<noteq> 0 \<longrightarrow> ms_ts (rows ! (cut_back rows t c - 1)) \<noteq> t)"
proof (induction c)
  case (Suc c)
  then show ?case by (auto simp: less_Suc_eq)
qed simp

lemma sorted_split:
  assumes "sorted (map f rows)" "c < length rows" "0 < c" "f (rows ! (c - 1)) \<noteq> (f (rows ! c) :: 'b :: linorder)"
    and "x \<in> set (take c rows)" "y \<in> set (drop c rows)"
  shows "f x < f y"
proof -
  obtain i where i: "i < c" "x = rows ! i" using assms(2,5) by (auto simp: in_set_conv_nth)
  obtain j where "j < length (drop c rows)" "y = drop c rows ! j" using assms(6) by (metis in_set_conv_nth)
  then have j: "c + j < length rows" "y = rows ! (c + j)" by simp_all
  have m: "a \<le> b \<Longrightarrow> b < length rows \<Longrightarrow> f (rows ! a) \<le> f (rows ! b)" for a b
    using sorted_nth_mono [OF assms(1), of a b] by simp
  have "f x \<le> f (rows ! (c - 1))" using m [of i "c - 1"] i assms(2) by simp
  moreover have "f (rows ! (c - 1)) \<le> f (rows ! c)" using m [of "c - 1" c] assms(2) by simp
  moreover have "f (rows ! c) \<le> f y" using m [of c "c + j"] j by simp
  ultimately show ?thesis using assms(4) by simp
qed

lemma sorted_group:
  assumes "sorted (map f rows)" "rows \<noteq> []"
  shows "\<forall>y\<in>set (dropWhile (\<lambda>r. f r = f (hd rows)) rows). f (hd rows) < (f y :: 'b :: linorder)"
proof (cases "dropWhile (\<lambda>r. f r = f (hd rows)) rows")
  case (Cons x xs)
  have split: "rows = takeWhile (\<lambda>r. f r = f (hd rows)) rows @ x # xs" by (metis Cons takeWhile_dropWhile_id)
  then have "sorted (map f (x # xs))" using assms(1) by (metis map_append sorted_append)
  moreover have "f x \<noteq> f (hd rows)" using hd_dropWhile [of "\<lambda>r. f r = f (hd rows)" rows] Cons by simp
  moreover have "x \<in> set rows" using split by (metis in_set_conv_decomp)
  then have "f (hd rows) \<le> f x" using assms by (cases rows) auto
  ultimately show ?thesis unfolding Cons by auto
next
  case Nil
  show ?thesis unfolding Nil by simp
qed

text \<open>A batch is cut between two times: what is sent is a non-empty beginning of the rows, every row sent
  is older than every row left, and it keeps to 50 rows and a megabyte, a single row aside, unless it
  is one group of rows with the same time.\<close>

theorem batch_cut_whole:
  assumes sorted: "sorted (map ms_ts rows)" and r: "truncate_at_group_boundary rows = (batch, dropped)"
  shows "\<exists>rest. rows = batch @ rest \<and> (dropped \<longleftrightarrow> rest \<noteq> []) \<and> (rows \<noteq> [] \<longrightarrow> batch \<noteq> [])
    \<and> (\<forall>x\<in>set batch. \<forall>y\<in>set rest. ms_ts x < ms_ts y)
    \<and> (length batch \<le> MAX_RESPONSE_MESSAGES \<and> (batch_size batch \<le> MAX_RESPONSE_BYTES \<or> length batch = 1)
       \<or> (\<forall>x\<in>set batch. ms_ts x = ms_ts (hd rows)))"
proof -
  define c where "c = cut_index rows"
  have c: "c \<le> length rows" using cut_from_bounds [of 0 0 rows] by (simp add: c_def cut_index_def)
  have fits: "c \<le> MAX_RESPONSE_MESSAGES" "batch_size (take c rows) \<le> MAX_RESPONSE_BYTES \<or> c \<le> 1"
    using cut_from_fits [of 0 0 rows c] by (simp_all add: c_def cut_index_def MAX_RESPONSE_BYTES_def)
  show ?thesis
  proof (cases "c < length rows")
    case False
    then have "batch = rows" "\<not> dropped" using r by (simp_all add: truncate_at_group_boundary_def c_def [symmetric] Let_def)
    moreover have "batch_size rows \<le> MAX_RESPONSE_BYTES \<or> length rows = 1 \<or> rows = []"
      using fits c False by (cases rows) auto
    ultimately show ?thesis using fits c False by (auto simp: batch_size_def MAX_RESPONSE_BYTES_def)
  next
    case True
    define t where "t = ms_ts (rows ! c)"
    define b where "b = cut_back rows t c"
    have b: "b \<le> c" "\<forall>i. b \<le> i \<longrightarrow> i < c \<longrightarrow> ms_ts (rows ! i) = t" "b \<noteq> 0 \<longrightarrow> ms_ts (rows ! (b - 1)) \<noteq> t"
      using cut_back_spec [of c rows t] c by (simp_all add: b_def)
    have bt: "ms_ts (rows ! b) = t" using b(1,2) by (cases "b = c") (simp_all add: t_def)
    show ?thesis
    proof (cases "b = 0")
      case False
      then have out: "batch = take b rows" "dropped" using r True b(1)
        by (auto simp: truncate_at_group_boundary_def c_def [symmetric] t_def [symmetric] b_def [symmetric] Let_def)
      have "batch_size batch \<le> batch_size (take c rows)"
      proof -
        have "take c rows = take b rows @ take (c - b) (drop b rows)" using b(1) by (metis le_add_diff_inverse take_add)
        moreover have "0 \<le> batch_size xs" for xs
          unfolding batch_size_def by (rule sum_list_nonneg) (use row_wire_size_pos in \<open>auto intro: less_imp_le\<close>)
        ultimately show ?thesis by (simp add: batch_size_def out(1))
      qed
      moreover have "length batch = b" using b(1) True out(1) by simp
      moreover have "\<forall>x\<in>set batch. \<forall>y\<in>set (drop b rows). ms_ts x < ms_ts y"
        using sorted_split [OF sorted, of b] b bt False True out(1) by auto
      ultimately show ?thesis using fits b(1) False True out
        by (intro exI [of _ "drop b rows"]) auto
    next
      case zero: True
      define f where "f = cut_forward rows t 0"
      have f: "f = length (takeWhile (\<lambda>r. ms_ts r = t) rows)" by (simp add: f_def cut_forward_def)
      have out: "batch = takeWhile (\<lambda>r. ms_ts r = t) rows" "dropped \<longleftrightarrow> dropWhile (\<lambda>r. ms_ts r = t) rows \<noteq> []"
        using r True zero f
        by (auto simp: truncate_at_group_boundary_def c_def [symmetric] t_def [symmetric] b_def [symmetric] f_def [symmetric]
            Let_def takeWhile_eq_take [symmetric] dropWhile_eq_drop)
      have ne: "rows \<noteq> []" using True by auto
      have hd: "ms_ts (hd rows) = t" using bt zero ne by (simp add: hd_conv_nth)
      have "\<forall>x\<in>set batch. ms_ts x = t" unfolding out(1) by (auto dest: set_takeWhileD)
      moreover have "\<forall>y\<in>set (dropWhile (\<lambda>r. ms_ts r = t) rows). t < ms_ts y"
        using sorted_group [OF sorted ne] hd by simp
      moreover have "batch \<noteq> []" using out(1) hd ne by (cases rows) auto
      ultimately show ?thesis using out hd
        by (intro exI [of _ "dropWhile (\<lambda>r. ms_ts r = t) rows"]) auto
    qed
  qed
qed

section \<open>Witnesses\<close>

definition sample_message :: "string \<Rightarrow> secs \<Rightarrow> bytes option \<Rightarrow> message_row" where
  "sample_message mid ts sig =
     \<lparr>ms_channel = ''0a'', ms_sender = ''aa'', ms_name = [], ms_content = ''hi'', ms_ts = ts, ms_id = mid, ms_reply = None,
      ms_last_seen = None, ms_received = ts, ms_image = None, ms_sig = sig, ms_image_stripped = False, ms_manifest = None,
      ms_file_stripped = False\<rparr>"

definition sample_history :: "message_row list" where
  "sample_history =
     [sample_message ''m1'' 1 (Some [1]), sample_message ''m2'' 2 None, sample_message ''m3'' 2 (Some [1]),
      sample_message ''m4'' 3 (Some [1])]"

definition burst :: "message_row list" where
  "burst = map (\<lambda>i. sample_message (replicate i CHR ''m'') 1 (Some [1])) [0..<51]"

lemma open_test: "relay_test empty_store None ''0a'' ''bb'' = Inr row_is_signed"
  by (simp add: relay_test_def column_perms_def has_any_tenure_def empty_store_def ebind_def)

lemma sample_since: "rows_since sample_history ''0a'' (Finite 0) = sample_history"
  by code_simp

lemma burst_since: "rows_since burst ''0a'' (Finite 0) = burst"
  by code_simp

theorem sweep_exact_witness:
  "\<exists>cursor. sample_history \<noteq> [] \<and> collect_permitted_rows empty_store None ''0a'' ''bb'' sample_history (Finite 0)
     = Inr ([sample_history ! 0, sample_history ! 2, sample_history ! 3], False, cursor)
   \<and> [sample_history ! 0, sample_history ! 2, sample_history ! 3]
     = filter (\<lambda>r. row_is_signed r \<and> \<not> later cursor r) (rows_since sample_history ''0a'' (Finite 0))"
proof -
  have r: "collect_permitted_rows empty_store None ''0a'' ''bb'' sample_history (Finite 0)
     = Inr ([sample_history ! 0, sample_history ! 2, sample_history ! 3], False, Finite 3)" by code_simp
  show ?thesis using sweep_exact [OF open_test r] r by (auto simp: sample_history_def)
qed

theorem sweeps_cover_everything_witness:
  "\<exists>n \<le> 5. sweep_rounds empty_store None ''0a'' ''bb'' sample_history n (Finite 0)
     = Some [sample_history ! 0, sample_history ! 2, sample_history ! 3]"
proof -
  have "length (filter (\<lambda>r. row_is_signed r \<and> ms_ts r = t) sample_history) \<le> length sample_history" for t by (rule length_filter_le)
  also have "length sample_history \<le> MAX_RESPONSE_MESSAGES" by code_simp
  finally have "\<forall>t. length (filter (\<lambda>r. row_is_signed r \<and> ms_ts r = t) (rows_since sample_history ''0a'' (Finite 0)))
    \<le> MAX_RESPONSE_MESSAGES" by (simp add: sample_since)
  from sweeps_cover_everything [OF open_test this] obtain n where
    "n \<le> Suc (length sample_history)"
    "sweep_rounds empty_store None ''0a'' ''bb'' sample_history n (Finite 0) = Some (filter row_is_signed sample_history)"
    unfolding sample_since by blast
  moreover have "filter row_is_signed sample_history = [sample_history ! 0, sample_history ! 2, sample_history ! 3]"
    "Suc (length sample_history) = 5" by code_simp+
  ultimately show ?thesis by metis
qed

theorem oversized_group_stalls_sweep_witness:
  "\<exists>rows. length rows = 51 \<and> (\<forall>r\<in>set rows. row_is_signed r \<and> ms_ts r = 1)
    \<and> collect_permitted_rows empty_store None ''0a'' ''bb'' rows (Finite 0) = Inr ([], True, Finite 0)"
proof -
  have "\<forall>r\<in>set burst. row_is_signed r \<and> ms_ts r = 1" "length burst = 51"
    by (simp_all add: burst_def sample_message_def row_is_signed_def)
  moreover from this have "rows_since burst ''0a'' (Finite 0) \<noteq> []"
    "length (filter (\<lambda>r. row_is_signed r \<and> ms_ts r = ms_ts (hd (rows_since burst ''0a'' (Finite 0)))) (rows_since burst ''0a'' (Finite 0)))
       > MAX_RESPONSE_MESSAGES"
    unfolding burst_since by (auto, code_simp)
  ultimately show ?thesis using oversized_group_stalls_sweep [OF open_test] by blast
qed

theorem batch_cut_whole_witness:
  "\<exists>batch rest. burst @ [sample_message ''n'' 2 (Some [1])] = batch @ rest \<and> length batch = 51 \<and> length rest = 1
     \<and> (\<forall>x\<in>set batch. \<forall>y\<in>set rest. ms_ts x < ms_ts y)"
proof -
  let ?rows = "burst @ [sample_message ''n'' 2 (Some [1])]"
  have "sorted (map ms_ts ?rows)" by code_simp
  moreover have "truncate_at_group_boundary ?rows = (burst, True)" by code_simp
  ultimately obtain rest where "?rows = burst @ rest" "\<forall>x\<in>set burst. \<forall>y\<in>set rest. ms_ts x < ms_ts y"
    using batch_cut_whole by blast
  moreover have "length burst = 51" by (simp add: burst_def)
  ultimately show ?thesis by (intro exI [of _ burst] exI [of _ rest]) auto
qed

end
