(* ===== verification/Sync_Safety.thy ===== *)
theory Sync_Safety
  imports Sync_Frame Pending_Safety Serving_Safety Outbox_Safety
begin

text \<open>
  What sync promises: what comes in was asked for and is signed, what goes out may be seen by whom it
  goes to, and the books that pace the exchange stay within their bounds.
\<close>

section \<open>One row\<close>

lemma stored_row_columns [simp]:
  "ms_sender (stored_row k now ch h name c) = h" "ms_channel (stored_row k now ch h name c) = ch"
  "ms_id (stored_row k now ch h name c) = sm_id (cl_signed c)" "ms_ts (stored_row k now ch h name c) = sm_timestamp (cl_signed c)"
  "ms_content (stored_row k now ch h name c) = sm_content (cl_signed c)"
  by (simp_all add: stored_row_def Let_def split: prod.splits)

lemma judge_row_grown:
  assumes j: "judge_row n now ch full_sync m ts db' = (db'', j)" and g: "grown n now ch db full_sync db'"
    and n: "rns_honest (sy_rns n)" and t: "ts \<le> now + MAX_CLOCK_SKEW_SECS"
  shows "grown n now ch db full_sync db''
    \<and> (\<forall>c h name. j = Judged c h \<longrightarrow> claim_ok (nt_out n) ch h c
         \<and> (image_refused (nt_out n) (sm_image (cl_signed c)) \<or> True)
         \<and> taken_row n now ch (db_store db) full_sync (stored_row (nt_out n) now ch h name c))"
proof -
  let ?sender = "get_or (PStr []) m (PStr ''sender_hash'')"
  let ?st = "db_store db'"
  have same: "tenure_same (db_store db) ?st" and keys: "keys_ok (sy_rns n) (db_keys db')"
    using g by (simp_all add: grown_def db_ok_def)
  show ?thesis
  proof (cases "tenure_test n ?st ch full_sync ?sender ts")
    case Passes
    let ?expected = "compute_message_id (sy_sha n) (row_text (nt_out n) (get_or (PStr []) m (PStr ''content'')))
                               (case ?sender of PStr h \<Rightarrow> h | _ \<Rightarrow> ot_str (nt_out n) ?sender) ts"
    let ?sm = "row_signed (nt_out n) m ?expected ts"
    obtain ks ok where v: "row_verifies n now ch m ?sender ?sm (db_keys db') = (ks, ok)" by force
    have ks: "keys_ok (sy_rns n) ks" using row_verifies_keys [OF keys, of now ch m ?sender ?sm] v by simp
    have db'': "db'' = db' \<or> db'' = db'\<lparr>db_keys := ks\<rparr>"
      using j Passes v by (auto simp: judge_row_def Let_def split: if_splits option.splits bool.splits pyval.splits)
    have "claim_ok (nt_out n) ch h c \<and> taken_row n now ch (db_store db) full_sync (stored_row (nt_out n) now ch h name c)"
      if jc: "j = Judged c h" for c h name
    proof -
      have s: "?sender = PStr h" "ok = Some True" "cl_signed c = ?sm" "cl_sig c = env_get m ''author_sig''"
        using j Passes v jc by (auto simp: judge_row_def Let_def split: if_splits option.splits bool.splits pyval.splits)
      obtain sig where sig: "cl_sig c = PBytes sig" "written (nt_out n) ch h sig ?sm"
        using row_verifies_true [of n now ch m h ?sm "db_keys db'"] v s keys n by auto
      have id: "sm_id ?sm = compute_message_id (sy_sha n) (sm_content ?sm) h (sm_timestamp ?sm)" "sm_timestamp ?sm = ts"
        using s(1) by (simp_all add: row_signed_def)
      have "has_any_tenure (db_store db) ch \<longrightarrow>
          was_member_at (db_store db) ch h ts \<and> (full_sync \<or> was_member_at (db_store db) ch (nt_self n) ts)"
        using Passes s(1) by (auto simp: tenure_test_def tenure_same_tests [OF same] split: if_splits)
      moreover have "\<exists>name' c' sig. stored_row (nt_out n) now ch h name c = stored_row (nt_out n) now ch h name' c'
          \<and> cl_sig c' = PBytes sig \<and> written (nt_out n) ch h sig (cl_signed c')"
        using sig s(3) by metis
      ultimately have "taken_row n now ch (db_store db) full_sync (stored_row (nt_out n) now ch h name c)"
        unfolding taken_row_def stored_row_columns using s(3) id t by simp
      moreover have "claim_ok (nt_out n) ch h c" using id sig s(3) by (auto simp: claim_ok_def)
      ultimately show ?thesis by blast
    qed
    then show ?thesis using db'' g grown_keys [OF g ks] by auto
  qed (use j g in \<open>auto simp: judge_row_def Let_def\<close>)
qed

lemma insert_synced_grown:
  assumes "grown n now ch db full_sync db'"
    and "\<And>name. claim_ok (nt_out n) ch h c \<and> taken_row n now ch (db_store db) full_sync (stored_row (nt_out n) now ch h name c)"
  shows "grown n now ch db full_sync (fst (insert_synced n now ch h name c db'))"
proof (cases "bound_text (nt_out n) name")
  case (Bound t)
  let ?r = "stored_row (nt_out n) now ch h t c"
  have "row_ok (nt_out n) ?r" using stored_row_ok assms(2) by blast
  then show ?thesis using assms Bound
    by (auto simp: insert_synced_def insert_message_def grown_def db_ok_def unique_key_snoc has_key_iff split: prod.split)
qed (use assms in \<open>simp_all add: insert_synced_def\<close>)

lemma apply_reaction_out: "sy_out (fst (apply_reaction n now ch mid responder v s)) = sy_out s"
  by (auto simp: apply_reaction_def Let_def split: pyval.split sum.split py_error.split)

lemma each_out:
  assumes "\<And>x s. sy_out (fst (f x s)) = sy_out s"
  shows "sy_out (fst (each f xs s)) = sy_out s"
  by (rule each_keeps [where P = "\<lambda>s'. sy_out s' = sy_out s"]) (simp_all add: assms)

lemma apply_reactions_out: "sy_out (fst (apply_synced_reactions n now ch m responder s)) = sy_out s"
  by (auto simp: apply_synced_reactions_def Let_def each_out apply_reaction_out split: pyval.split)

lemma stored_out [simp]: "sy_out (on_message_stored n now ch mid s) = sy_out s"
  using tables.keeps_stored [of "\<lambda>o' _ _ _ _. o' = sy_out s" n now ch mid s] by simp

lemma after_insert_db:
  "sy_db (fst (after_insert n now ch mid m responder s)) = (sy_db s)\<lparr>db_store := touch_channel now ch (sy_store s)\<rparr>"
  by (auto simp: after_insert_def Let_def split: pyval.split)

lemma fail_at_sync [simp]: "in_sync (fail_at ts i) = in_sync i" by (simp add: fail_at_def)
lemma reject_sync [simp]: "in_sync (reject ts i) = in_sync i" by (simp add: reject_def Let_def split: option.split)

lemma store_judged_grown:
  assumes g: "grown n now ch db full_sync (sy_db (in_sync i))"
    and c: "\<And>name. claim_ok (nt_out n) ch h c \<and> taken_row n now ch (db_store db) full_sync (stored_row (nt_out n) now ch h name c)"
  shows "grown n now ch db full_sync (sy_db (in_sync (store_judged n now ch responder m c h i)))"
proof -
  obtain db' r where i: "insert_synced n now ch h (get_or (PStr []) m (PStr ''sender_name'')) c (sy_db (in_sync i)) = (db', r)" by force
  have g': "grown n now ch db full_sync db'" using insert_synced_grown [OF g c, of "get_or (PStr []) m (PStr ''sender_name'')"] i by simp
  let ?s = "set_db db' (in_sync i)"
  obtain s' broke where a: "apply_synced_reactions n now ch m responder ?s = (s', broke)" by force
  have s': "sy_db s' = db'" using apply_reactions_out [of n now ch m responder ?s] a by simp
  have "grown n now ch db full_sync (sy_db (fst (after_insert n now ch (sm_id (cl_signed c)) m responder s')))"
    using grown_touch [OF g'] by (simp add: after_insert_db s')
  then show ?thesis using g g' s'
    by (auto simp: store_judged_def Let_def i a split: option.split bool.split prod.split)
qed

lemma take_row_grown:
  assumes "take_synced_row n now ch responder full_sync v i = Some i'" and g: "grown n now ch db full_sync (sy_db (in_sync i))"
    and n: "rns_honest (sy_rns n)"
  shows "grown n now ch db full_sync (sy_db (in_sync i'))"
proof -
  obtain m where v: "v = PDict m" using assms(1) by (cases v) (auto simp: take_synced_row_def)
  show ?thesis
  proof (cases "wire_timestamp (ot_parse_float (nt_out n)) (env_get m ''timestamp'') now")
    case (Inr r)
    show ?thesis
    proof (cases r)
      case (Some ts)
      obtain db' j where j: "judge_row n now ch full_sync m ts (sy_db (in_sync i)) = (db', j)" by force
      have t: "ts \<le> now + MAX_CLOCK_SKEW_SECS" using wire_timestamp_plausible Inr Some by blast
      note jg = judge_row_grown [OF j g n t]
      then have g': "grown n now ch db full_sync (sy_db (in_sync (i\<lparr>in_sync := set_db db' (in_sync i)\<rparr>)))" by simp
      show ?thesis
      proof (cases j)
        case (Judged c h)
        have "grown n now ch db full_sync (sy_db (in_sync (store_judged n now ch responder m c h (i\<lparr>in_sync := set_db db' (in_sync i)\<rparr>))))"
          by (rule store_judged_grown [OF g']) (use jg Judged in blast)
        then show ?thesis using assms(1) v Inr Some j Judged by (auto simp: take_synced_row_def)
      qed (use assms(1) v Inr Some j g' in \<open>auto simp: take_synced_row_def\<close>)
    qed (use assms(1) v Inr g in \<open>auto simp: take_synced_row_def\<close>)
  qed (use assms(1) v in \<open>auto simp: take_synced_row_def\<close>)
qed

lemma take_rows_grown:
  "grown n now ch db full_sync (sy_db (in_sync i)) \<Longrightarrow> rns_honest (sy_rns n) \<Longrightarrow>
   grown n now ch db full_sync (sy_db (in_sync (fst (take_synced_rows n now ch responder full_sync vs i))))"
  by (induction vs arbitrary: i) (auto split: option.split dest: take_row_grown)

section \<open>The handlers\<close>

text \<open>What an operation that stores no row does to the rows and the keys.\<close>

definition rows_kept :: "net \<Rightarrow> sync \<Rightarrow> sync \<Rightarrow> bool" where
  "rows_kept n s s' \<longleftrightarrow> sy_rows s' = sy_rows s \<and> (keys_ok (sy_rns n) (db_keys (sy_db s)) \<longrightarrow> keys_ok (sy_rns n) (db_keys (sy_db s')))"

lemma rows_kept_refl [simp]: "rows_kept n s s"
  and rows_kept_trans: "rows_kept n s s' \<Longrightarrow> rows_kept n s' s'' \<Longrightarrow> rows_kept n s s''"
  and rows_kept_out: "sy_out s' = sy_out s \<Longrightarrow> rows_kept n s s'"
  by (simp_all add: rows_kept_def)

lemma keys_ok_foldl: "keys_ok r ks \<Longrightarrow> (\<And>x ks. keys_ok r ks \<Longrightarrow> keys_ok r (f ks x)) \<Longrightarrow> keys_ok r (foldl f ks xs)"
  by (induction xs arbitrary: ks) simp_all

lemma keys_ok_learned: "keys_ok (sy_rns n) ks \<Longrightarrow> keys_ok (sy_rns n) (learn_author_keys n now v ks)"
  by (cases v) (auto simp: learn_author_keys_def Let_def intro!: keys_ok_foldl keys_ok_relayed)

lemma keys_ok_public_key: "keys_ok r ks \<Longrightarrow> keys_ok r (fst (public_key_for r now h ks))"
  using keys_ok_resolve [of r ks now h] by (cases "resolve_author r now h ks") (simp add: public_key_for_def)

lemma keys_ok_author_keys: "keys_ok r ks \<Longrightarrow> keys_ok r (fst (author_keys_for r now rows ks found))"
proof (induction r now rows ks found rule: author_keys_for.induct)
  case (2 n now r rows ks found)
  obtain ks' k where p: "public_key_for n now (ms_sender r) ks = (ks', k)" by force
  then have "keys_ok n ks'" using keys_ok_public_key [OF 2(4), of now "ms_sender r"] by simp
  then show ?case using 2 p by (cases k) auto
qed simp

lemma collected: "rows_kept n s (fst (collect_author_keys n now rows s))"
  using keys_ok_author_keys [of "sy_rns n" "db_keys (sy_db s)" now rows "[]"]
  by (cases "author_keys_for (sy_rns n) now rows (db_keys (sy_db s)) []") (simp add: collect_author_keys_def rows_kept_def)

lemma rows_kept_collected: "collect_author_keys n now rows s = (s', found) \<Longrightarrow> rows_kept n s s'"
  using collected [of n s now rows] by simp

lemma rows_kept_sent: "sync_send n now dest fs s = (s', sent) \<Longrightarrow> rows_kept n s s'"
  using send_out [of n now dest fs s] by (simp add: rows_kept_def)

lemma after_answer_out [simp]: "sy_out (after_answer ch requester cursor rows s) = sy_out s"
  by (simp add: after_answer_def Let_def)

lemma settle_needs_out [simp]: "sy_out (settle_needs n now ch requester a rid sent s) = sy_out s"
  by (simp add: settle_needs_def)

lemma await_needs_out: "sy_out (fst (await_needs n now ch requester a s)) = sy_out s"
  by (simp add: await_needs_def split: prod.split)

lemma deliver_answer_out: "sy_out (deliver_answer n now ch requester a rows fs s) = sy_out s"
proof -
  obtain s1 rid where w: "await_needs n now ch requester a s = (s1, rid)" by force
  obtain s2 sent where q: "sync_send n now requester fs s1 = (s2, sent)" by force
  have "sy_out s2 = sy_out s" using await_needs_out [of n now ch requester a s] send_out [of n now requester fs s1] w q by simp
  then show ?thesis by (simp add: deliver_answer_def w q Let_def)
qed

lemma send_answer_keeps: "rows_kept n s (send_answer n now ch requester reconciling a s)"
proof -
  obtain rows capped where t: "truncate_at_group_boundary (an_rows a) = (rows, capped)" by force
  obtain s1 found where c: "collect_author_keys n now rows s = (s1, found)" by force
  have "rows_kept n s (deliver_answer n now ch requester a rows fs s1)" for fs
    using rows_kept_trans [OF rows_kept_collected [OF c] rows_kept_out [OF deliver_answer_out]] .
  then show ?thesis by (simp add: send_answer_def t c Let_def split: option.split)
qed

lemma handle_request_cases:
  obtains (refused) d where "handle_sync_request n now fs ch requester s = s\<lparr>sy_deep := d\<rparr>"
  | (answered) start ranges needs d test where
      "is_subscribed (sy_store s) ch" "peer_may_participate (sy_store s) ch requester = Inr True"
      "window_start_of n now fs = Inr start"
      "read_reconcile_fields (ot_unpackb (nt_out n)) fs = (ranges, needs, False)"
      "deep_gate now fs ch requester start (question_of ranges needs) s = (d, True)"
      "relay_test (sy_store s) (get_channel (sy_store s) ch) ch requester = Inr test"
      "handle_sync_request n now fs ch requester s =
         send_answer n now ch requester (question_of ranges needs \<noteq> None)
           (build_answer n test ch requester start (question_of ranges needs) (s\<lparr>sy_deep := d\<rparr>)) (s\<lparr>sy_deep := d\<rparr>)"
proof -
  have same: "s = s\<lparr>sy_deep := sy_deep s\<rparr>" by simp
  consider (gate) "\<not> is_subscribed (sy_store s) ch \<or> peer_may_participate (sy_store s) ch requester \<noteq> Inr True"
    | (window) e where "window_start_of n now fs = Inl e"
    | (start) start where "is_subscribed (sy_store s) ch" "peer_may_participate (sy_store s) ch requester = Inr True"
        "window_start_of n now fs = Inr start"
    by (cases "window_start_of n now fs") auto
  then show thesis
  proof cases
    case gate
    then have "handle_sync_request n now fs ch requester s = s" by (auto simp: handle_sync_request_def)
    then show thesis using refused same by metis
  next
    case window
    then have "handle_sync_request n now fs ch requester s = s" by (auto simp: handle_sync_request_def)
    then show thesis using refused same by metis
  next
    case start
    obtain ranges needs bad where r: "read_reconcile_fields (ot_unpackb (nt_out n)) fs = (ranges, needs, bad)"
      using prod_cases3 by blast
    obtain d allowed where g: "deep_gate now fs ch requester start (question_of ranges needs) s = (d, allowed)" by force
    have body: "handle_sync_request n now fs ch requester s =
        (if bad then s else if \<not> allowed then s\<lparr>sy_deep := d\<rparr>
         else case relay_test (sy_store s) (get_channel (sy_store s) ch) ch requester of
                Inl _ \<Rightarrow> s\<lparr>sy_deep := d\<rparr>
              | Inr test \<Rightarrow> send_answer n now ch requester (question_of ranges needs \<noteq> None)
                  (build_answer n test ch requester start (question_of ranges needs) (s\<lparr>sy_deep := d\<rparr>)) (s\<lparr>sy_deep := d\<rparr>))"
      using start by (simp add: handle_sync_request_def r g Let_def split: bool.split)
    consider (bad) "bad" | (kept) "\<not> bad" "\<not> allowed" | (broke) e where "\<not> bad" "allowed" "relay_test (sy_store s) (get_channel (sy_store s) ch) ch requester = Inl e"
      | (sent) test where "\<not> bad" "allowed" "relay_test (sy_store s) (get_channel (sy_store s) ch) ch requester = Inr test"
      by (cases "relay_test (sy_store s) (get_channel (sy_store s) ch) ch requester") auto
    then show thesis
    proof cases
      case bad
      then show thesis using body refused same by (metis (full_types))
    next
      case sent
      then have "handle_sync_request n now fs ch requester s = send_answer n now ch requester (question_of ranges needs \<noteq> None)
          (build_answer n test ch requester start (question_of ranges needs) (s\<lparr>sy_deep := d\<rparr>)) (s\<lparr>sy_deep := d\<rparr>)"
        using body by simp
      moreover have "bad = False" "allowed = True" using sent by simp_all
      ultimately show thesis using answered [OF start, of ranges needs d test] r g sent(3) by simp
    qed (use body refused [of d] in simp_all)
  qed
qed

lemma handle_request_keeps: "rows_kept n s (handle_sync_request n now fs ch requester s)"
proof (cases rule: handle_request_cases [of n now fs ch requester s])
  case (refused d)
  then show ?thesis by (simp add: rows_kept_out)
next
  case (answered start ranges needs d test)
  then show ?thesis using rows_kept_trans [OF rows_kept_out send_answer_keeps, of "s\<lparr>sy_deep := d\<rparr>" s] by simp
qed

lemma answer_needs_keeps: "rows_kept n s (fst (answer_needs n now ch peer needs s))"
proof -
  have "rows_kept n s (fst (sync_send n now peer fs s1))" if "collect_author_keys n now rows s = (s1, found)" for rows s1 found fs
    using rows_kept_trans [OF rows_kept_collected [OF that] rows_kept_out [OF send_out]] .
  then show ?thesis by (simp add: answer_needs_def Let_def split: sum.split prod.split option.split)
qed

lemma go_on_keeps: "rows_kept n s (go_on_asking n now ch peer since truncated cursor resume cont s)"
proof -
  obtain rs ns d where c: "cont = (rs, ns, d)" by (cases cont)
  obtain s1 where s1: "s1 = (if truncated \<or> d then s\<lparr>sy_deferred := List.insert (ch, peer) (sy_deferred s)\<rparr> else s)" by simp
  have o1: "sy_out s1 = sy_out s" using s1 by simp
  obtain s2 r where q: "continue_reconcile n now ch peer rs ns s1 = (s2, r)" by force
  have o2: "sy_out s2 = sy_out s"
    using tables.keeps_reconcile [of "\<lambda>o' _ _ _ _. o' = sy_out s" n now ch peer rs ns s1] o1 q by simp
  have o3: "sy_out (fst (continue_sync n now ch peer resume None (s2\<lparr>sy_deferred := removeAll (ch, peer) (sy_deferred s2)\<rparr>))) = sy_out s"
    using tables.keeps_continue [of "\<lambda>o' _ _ _ _. o' = sy_out s" n now ch peer resume None "s2\<lparr>sy_deferred := removeAll (ch, peer) (sy_deferred s2)\<rparr>"] o2
    by simp
  show ?thesis
    by (rule rows_kept_out) (simp add: go_on_asking_def c Let_def s1 [symmetric] q o2 o3 split: option.split bool.split)
qed

lemma advance_keeps: "rows_kept n s (advance_watermarks ch peer high s)"
  by (simp add: advance_watermarks_def rows_kept_def Let_def)

lemma settle_keeps: "rows_kept n (in_sync i) (settle_intake n fs ch peer received i)"
proof -
  let ?s = "if in_inserted i = 0 then in_sync i
            else (in_sync i)\<lparr>sy_missed := clear_missed_deliveries ch (nt_self n) (sy_missed (in_sync i)),
                             sy_status := clear_gap ch (sy_status (in_sync i))\<rparr>"
  have "rows_kept n (in_sync i) ?s" by (simp add: rows_kept_out)
  from rows_kept_trans [OF this advance_keeps] have "rows_kept n (in_sync i) (advance_watermarks ch peer high ?s)" for high .
  then show ?thesis by (simp add: settle_intake_def Let_def rows_kept_def)
qed

lemma finish_keeps: "rows_kept n (in_sync i) (finish_response n now fs ch peer since received i)"
proof -
  let ?s = "settle_intake n fs ch peer received i"
  obtain ranges needs bad where r: "read_reconcile_fields (ot_unpackb (nt_out n)) fs = (ranges, needs, bad)"
    using prod_cases3 by blast
  obtain rs ns where q: "(if bad then ([], []) else (or_empty ranges, or_empty needs)) = (rs, ns)" by force
  obtain s' broke where a: "(if ns = [] then (?s, False) else answer_needs n now ch peer ns ?s) = (s', broke)" by force
  have "rows_kept n ?s s'" using a answer_needs_keeps [of n ?s now ch peer ns] by (auto split: if_splits)
  from rows_kept_trans [OF settle_keeps this] have s': "rows_kept n (in_sync i) s'" .
  have "rows_kept n (in_sync i) (go_on_asking n now ch peer since truncated cursor resume cont s')" for truncated cursor resume cont
    by (rule rows_kept_trans [OF s' go_on_keeps])
  then show ?thesis
    unfolding finish_response_def Let_def r q a prod.case by (auto simp: settle_keeps s' split: sum.split bool.split)
qed

section \<open>Answers\<close>

lemma response_cases:
  assumes n: "rns_honest (sy_rns n)" and ok: "db_ok (nt_out n) (sy_db s)"
  obtains (same) "rows_kept n s (handle_sync_response n now fs ch responder s)"
  | (taken) full_sync t claim where "is_subscribed (sy_store s) ch" "peer_may_participate (sy_store s) ch (nt_self n) = Inr True"
      "claim_request (sy_rns n) now ch responder (sy_requests s) = (t, Some claim)"
      "full_sync_granted n (sy_store s) ch = Inr full_sync"
      "\<exists>db. grown n now ch (sy_db s) full_sync db \<and> db_rows db = sy_rows (handle_sync_response n now fs ch responder s)
         \<and> (keys_ok (sy_rns n) (db_keys db) \<longrightarrow> keys_ok (sy_rns n) (db_keys (sy_db (handle_sync_response n now fs ch responder s))))"
proof -
  let ?s' = "handle_sync_response n now fs ch responder s"
  consider (gate) "\<not> is_subscribed (sy_store s) ch \<or> peer_may_participate (sy_store s) ch (nt_self n) \<noteq> Inr True"
    | (unasked) t where "claim_request (sy_rns n) now ch responder (sy_requests s) = (t, None)"
    | (claimed) t since peer where "is_subscribed (sy_store s) ch" "peer_may_participate (sy_store s) ch (nt_self n) = Inr True"
        "claim_request (sy_rns n) now ch responder (sy_requests s) = (t, Some (since, peer))"
    by (cases "claim_request (sy_rns n) now ch responder (sy_requests s)"; cases "snd (claim_request (sy_rns n) now ch responder (sy_requests s))") auto
  then show thesis
  proof cases
    case gate
    then have "?s' = s" by (simp add: handle_sync_response_def)
    then show thesis using same by simp
  next
    case (unasked t)
    then have "sy_out ?s' = sy_out s" by (simp add: handle_sync_response_def)
    then show thesis using same rows_kept_out by blast
  next
    case (claimed t since peer)
    let ?s = "s\<lparr>sy_requests := t, sy_retries := AList.delete (ch, peer) (sy_retries s)\<rparr>"
    have body: "?s' = (case response_rows n fs of
                     None \<Rightarrow> ?s\<lparr>sy_status := response_malformed ch peer (sy_status ?s)\<rparr>
                   | Some ms \<Rightarrow>
                       (case full_sync_granted n (sy_store ?s) ch of
                          Inl _ \<Rightarrow> ?s
                        | Inr full_sync \<Rightarrow>
                            (case take_answer n now fs ch responder full_sync ms ?s of
                               (i, True) \<Rightarrow> in_sync i
                             | (i, False) \<Rightarrow> finish_response n now fs ch peer since (length ms) i)))"
      using claimed by (simp add: handle_sync_response_def Let_def)
    have out: "rows_kept n s ?s'" if "sy_out ?s' = sy_out s" using that by (rule rows_kept_out)
    show thesis
    proof (cases "response_rows n fs")
      case None
      then show thesis using same out body by simp
    next
      case (Some ms)
      show thesis
      proof (cases "full_sync_granted n (sy_store s) ch")
        case (Inl e)
        then show thesis using same out body Some by simp
      next
        case (Inr full_sync)
        let ?db = "(sy_db s)\<lparr>db_keys := learn_author_keys n now (field_get fs F_AUTHOR_KEYS) (db_keys (sy_db s))\<rparr>"
        obtain i escaped where i: "take_answer n now fs ch responder full_sync ms ?s = (i, escaped)" by force
        have "keys_ok (sy_rns n) (db_keys ?db)" using keys_ok_learned ok by (simp add: db_ok_def)
        then have "grown n now ch (sy_db s) full_sync ?db" by (intro grown_keys grown_refl ok) simp
        then have g: "grown n now ch (sy_db s) full_sync (sy_db (in_sync i))"
          using take_rows_grown [OF _ n, of now ch "sy_db s" full_sync "new_intake (set_db ?db ?s)" responder ms] i
          by (simp add: take_answer_def new_intake_def)
        have "rows_kept n (in_sync i) ?s'" using body Some Inr i finish_keeps by (cases escaped) simp_all
        then have "db_rows (sy_db (in_sync i)) = sy_rows ?s' \<and> (keys_ok (sy_rns n) (db_keys (sy_db (in_sync i))) \<longrightarrow> keys_ok (sy_rns n) (db_keys (sy_db ?s')))"
          by (simp add: rows_kept_def)
        then show thesis using taken claimed Inr g by blast
      qed
    qed
  qed
qed

lemma on_message_cases:
  obtains (same) "rows_kept n s (on_sync_message n now l s)"
  | (answer) ch where "channel_text (nt_out n) (lx_fields l) = Some ch"
      "on_sync_message n now l s = handle_sync_response n now (lx_fields l) ch (lx_sender (nt_out n) l) s"
proof -
  let ?mt = "control_type (ot_decode (nt_out n)) (lx_fields l)"
  have probes: "rows_kept n s (handle_probes n now fs sender s)" for fs sender
    using tables.keeps_probes [of "\<lambda>o' _ _ _ _. o' = sy_out s" s n now fs sender] by (simp add: rows_kept_out)
  have missed: "rows_kept n s (handle_missed_delivery n now fs ch sender s)" for fs ch sender
    using tables.keeps_handle_missed [of "\<lambda>o' _ _ _ _. o' = sy_out s" n now fs ch sender s] by (simp add: rows_kept_out)
  show thesis
  proof (cases "channel_text (nt_out n) (lx_fields l)")
    case None
    then have "rows_kept n s (on_sync_message n now l s)" using probes by (simp add: on_sync_message_def Let_def)
    then show thesis by (rule same)
  next
    case (Some ch)
    have "rows_kept n s (on_sync_message n now l s)
        \<or> on_sync_message n now l s = handle_sync_response n now (lx_fields l) ch (lx_sender (nt_out n) l) s"
      using probes missed handle_request_keeps Some by (simp add: on_sync_message_def Let_def)
    then show thesis using same answer Some by blast
  qed
qed

lemma message_takes:
  assumes "rns_honest (sy_rns n)" and "db_ok (nt_out n) (sy_db s)"
  shows "let s' = on_sync_message n now l s in db_ok (nt_out n) (sy_db s') \<and> set (sy_rows s) \<subseteq> set (sy_rows s')
    \<and> (sy_rows s' \<noteq> sy_rows s \<longrightarrow>
        (\<exists>ch full_sync. channel_text (nt_out n) (lx_fields l) = Some ch
          \<and> is_subscribed (sy_store s) ch \<and> peer_may_participate (sy_store s) ch (nt_self n) = Inr True
          \<and> snd (claim_request (sy_rns n) now ch (lx_sender (nt_out n) l) (sy_requests s)) \<noteq> None
          \<and> full_sync_granted n (sy_store s) ch = Inr full_sync
          \<and> (\<forall>r\<in>set (sy_rows s') - set (sy_rows s). taken_row n now ch (sy_store s) full_sync r)))"
proof -
  have kept: "?thesis" if "rows_kept n s (on_sync_message n now l s)"
    using that assms(2) by (simp add: rows_kept_def db_ok_def)
  from on_message_cases [of n s now l] show ?thesis
  proof cases
    case same
    then show ?thesis by (rule kept)
  next
    case (answer ch)
    let ?s' = "on_sync_message n now l s"
    from response_cases [OF assms, where now = now and fs = "lx_fields l" and ch = ch and responder = "lx_sender (nt_out n) l"]
    show ?thesis
    proof cases
      case 1
      then show ?thesis using answer by (intro kept) simp
    next
      case (2 full_sync t claim)
      note taken = 2
      obtain db where db: "grown n now ch (sy_db s) full_sync db" "db_rows db = sy_rows ?s'"
          "keys_ok (sy_rns n) (db_keys db) \<longrightarrow> keys_ok (sy_rns n) (db_keys (sy_db ?s'))"
        using taken(5) answer by auto
      have "db_ok (nt_out n) (sy_db ?s')" using db by (simp add: grown_def db_ok_def)
      moreover have "set (sy_rows s) \<subseteq> set (sy_rows ?s')" "\<forall>r\<in>set (sy_rows ?s') - set (sy_rows s). taken_row n now ch (sy_store s) full_sync r"
        using db(1,2) by (auto simp: grown_def)
      ultimately show ?thesis unfolding Let_def using answer(1) taken(1-4) by (intro conjI impI exI [of _ ch] exI [of _ full_sync]) auto
    qed
  qed
qed

text \<open>C8. A message received by the sync handler adds rows to the table only as an answer we asked the sender
  for, on that channel, at most 300 seconds ago, and only while we follow the channel and may take part in it.
  Nothing that was there goes, no id comes twice, and every row that came in belongs to the channel, is dated
  at most five minutes ahead, has the hash of its content as its id, was signed by the author it names
  for exactly that message, and falls into the author's tenure and, unless our role grants the full
  history, into our own.\<close>

theorem synced_rows_checked:
  assumes "rns_honest (sy_rns n)" and "db_ok (nt_out n) (sy_db s)"
  shows "let s' = on_sync_message n now l s in db_ok (nt_out n) (sy_db s') \<and> set (sy_rows s) \<subseteq> set (sy_rows s')
    \<and> (sy_rows s' \<noteq> sy_rows s \<longrightarrow>
        (\<exists>ch full_sync. channel_text (nt_out n) (lx_fields l) = Some ch
          \<and> is_subscribed (sy_store s) ch \<and> peer_may_participate (sy_store s) ch (nt_self n) = Inr True
          \<and> snd (claim_request (sy_rns n) now ch (lx_sender (nt_out n) l) (sy_requests s)) \<noteq> None
          \<and> full_sync_granted n (sy_store s) ch = Inr full_sync
          \<and> (\<forall>r\<in>set (sy_rows s') - set (sy_rows s). taken_row n now ch (sy_store s) full_sync r)))"
  by (rule message_takes [OF assms])

section \<open>An exchange\<close>

text \<open>We and a friend are the members of one channel; the friend answers with one row.\<close>

definition sample_friend :: hexid where "sample_friend = replicate 32 (CHR ''7'')"
definition sample_self :: hexid where "sample_self = replicate 32 (CHR ''1'')"

definition shared_store :: store where
  "shared_store = empty_store
     \<lparr>st_channels := [\<lparr>cr_hash = ''0a'', cr_name = ''c'', cr_description = [], cr_creator = sample_self, cr_permissions = None,
                       cr_created = PInt 0, cr_seen = 0, cr_server = None, cr_kind = ''text''\<rparr>],
      st_subs := [\<lparr>sb_channel = ''0a'', sb_joined = 0, sb_synced = 0, sb_read = 0\<rparr>],
      st_members := map (\<lambda>h. \<lparr>mb_scope = ''0a'', mb_id = h, mb_name = ''n'', mb_role = ''member'', mb_added = 0\<rparr>)
                      [sample_self, sample_friend]\<rparr>"

definition history_row :: pyval where
  "history_row = PDict [(PStr ''sender_hash'', PStr sample_friend), (PStr ''sender_name'', PStr ''f''), (PStr ''content'', PStr ''hi''),
     (PStr ''timestamp'', PFloat (Finite 3)), (PStr ''author_sig'', PBytes [7])]"

definition chat_net :: net where
  "chat_net = sample_net\<lparr>nt_out := plain_outside\<lparr>ot_rns := \<lparr>rn_key_hash = Some, rn_delivery = Some,
       rn_recall = (\<lambda>d. Some \<lparr>pe_key = Some d, pe_hash = d\<rparr>), rn_validate = (\<lambda>_ _ _. Some True)\<rparr>,
       ot_unpackb := (\<lambda>b. if b = [9] then Some (PList [history_row]) else None)\<rparr>, nt_self := sample_self,
     nt_packb := (\<lambda>v. case v of PList rows \<Rightarrow> [of_nat (length rows)] | _ \<Rightarrow> [])\<rparr>"

definition history_letter :: lxm where
  "history_letter =
     \<lparr>lx_fields = [(PInt F_MSG_TYPE, PStr MT_SYNC_RESPONSE), (PInt F_CHANNEL_HASH, PStr ''0a''), (PInt F_SYNC_MESSAGES, PBytes [9])],
      lx_content = [], lx_timestamp = PNone, lx_ours = True, lx_source = replicate 16 0x77\<rparr>"

definition waiting_sync :: sync where
  "waiting_sync = fst (ask_peer chat_net 0 sample_friend ''0a'' (Finite 0)
     (new_sync 0 (empty_outbox (fresh_db shared_store (fresh_friends []))) [] [] [] (new_reactions [] []) (new_subscriptions [] [])))"

lemma waiting_db: "sy_db waiting_sync = fresh_db shared_store (fresh_friends [])"
  by (simp add: waiting_sync_def ask_peer_def new_sync_def empty_outbox_def)

lemma chat_honest: "rns_honest (sy_rns chat_net)"
  by (simp add: rns_honest_def chat_net_def plain_outside_def inj_on_def)

lemma row_arrives: "map (\<lambda>r. (ms_content r, ms_ts r)) (sy_rows (on_sync_message chat_net 5 history_letter waiting_sync)) = [(''hi'', 3)]"
  by code_simp

theorem synced_rows_checked_witness:
  "\<exists>r full_sync. sy_rows (on_sync_message chat_net 5 history_letter waiting_sync) = [r] \<and> ms_content r = ''hi''
    \<and> taken_row chat_net 5 ''0a'' shared_store full_sync r"
proof -
  have ok: "db_ok (nt_out chat_net) (sy_db waiting_sync)"
    by (simp add: waiting_db db_ok_def fresh_db_def unique_key_def keys_ok_def)
  obtain r where r: "sy_rows (on_sync_message chat_net 5 history_letter waiting_sync) = [r]" "ms_content r = ''hi''"
    using row_arrives by (auto simp: map_eq_Cons_conv)
  moreover have "sy_rows waiting_sync = []" by (simp add: waiting_db fresh_db_def)
  moreover have "channel_text (nt_out chat_net) (lx_fields history_letter) = Some ''0a''"
    by (simp add: history_letter_def channel_text_def field_get_def)
  ultimately show ?thesis
    using synced_rows_checked [OF chat_honest ok, of 5 history_letter]
    by (auto simp: Let_def waiting_db fresh_db_def)
qed

end
