(* ===== verification/Message_History.thy ===== *)
theory Message_History
  imports Sync_Safety
begin

text \<open>
  The message table over histories of the whole program: messages delivered, files of held requests, messages we
  send ourselves, rows taken in answers to sync requests, and whatever the rest of the program does to the
  other tables in between.
\<close>

section \<open>Sending stores our own copy\<close>

lemma handed_db: "hand_over n dest m p o' = (o'', r) \<Longrightarrow> ob_db o'' = ob_db o'"
  by (auto simp: hand_over_def split: option.splits if_splits)

lemma outbox_dbs [simp]:
  "ob_db (queue_pending dest p o') = ob_db o'" "ob_db (keep_params p o') = ob_db o'"
  "ob_db (request_path d o') = ob_db o'" "ob_db (notify_missed ch dest mid subs o') = ob_db o'"
  "ob_db (cancel_pending_for_channel ch o') = ob_db o'"
  by (simp_all add: queue_pending_def keep_params_def request_path_def notify_missed_def cancel_pending_for_channel_def Let_def)

lemma sent_to_db: "ob_db (send_to n p dest o') = ob_db o'"
  by (auto simp: send_to_def dest: handed_db split: sum.split prod.split option.split bool.split)

lemma sent_all_db: "ob_db (fold (send_to n p) dests o') = ob_db o'"
  by (induction dests arbitrary: o') (simp_all add: sent_to_db)

lemma flushed_db: "ob_db (flush_outbox n dest o') = ob_db o'"
  using flush_all_parts [of n dest] by (auto simp: flush_outbox_def Let_def split: sum.split prod.split option.split)

lemma failed_db: "ob_db (on_delivery_failed n dest ch mid subs o') = ob_db o'"
  by (auto simp: on_delivery_failed_def Let_def split: sum.split prod.split option.split)

lemma lxm_db:
  "send_direct_lxm n peer p o' = (o'', r) \<Longrightarrow> ob_db o'' = ob_db o'"
  "send_propagated_lxm n peer p o' = (o'', r) \<Longrightarrow> ob_db o'' = ob_db o'"
  by (auto simp: send_direct_lxm_def send_propagated_lxm_def dest: handed_db split: prod.splits bool.splits if_splits)

text \<open>Delivering to one peer touches only the cache of authors' keys.\<close>

lemma delivered_db:
  "ob_db (deliver_direct n w peer p propagate_only o')
     = (ob_db o')\<lparr>db_keys := fst (resolve_author (ot_rns (nt_out n)) (w_now w) peer (db_keys (ob_db o')))\<rparr>"
proof -
  obtain keys d where r: "resolve_author (ot_rns (nt_out n)) (w_now w) peer (db_keys (ob_db o')) = (keys, d)" by force
  define o1 where "o1 = o'\<lparr>ob_db := (ob_db o')\<lparr>db_keys := keys\<rparr>\<rparr>"
  obtain o2 s2 where s2: "(if \<not> propagate_only \<and> peer_is_reachable n w peer o1 then send_direct_lxm n peer p o1 else (o1, False)) = (o2, s2)"
    by force
  obtain o3 s3 where s3: "send_propagated_lxm n peer p o2 = (o3, s3)" by force
  have dbs: "ob_db o2 = ob_db o1" "ob_db o3 = ob_db o1" using s2 lxm_db lxm_db(2) [OF s3] by (auto split: if_splits)
  have "ob_db (deliver_direct n w peer p propagate_only o') = ob_db o1"
  proof (cases d)
    case None
    show ?thesis unfolding deliver_direct_def r None Let_def prod.case option.case o1_def [symmetric]
      by (simp split: sum.split prod.split)
  next
    case (Some x)
    show ?thesis unfolding deliver_direct_def r Some Let_def prod.case option.case o1_def [symmetric] s2 s3
      using dbs by simp
  qed
  then show ?thesis by (simp add: r o1_def)
qed

section \<open>Our own node\<close>

text \<open>What a send rests on: the outside that deliveries rest on as well, and a signature of ours that verifies
  under a key of our identity. Images and manifests handed over for sending are ones a receiver would take.\<close>

definition own_net :: "outside \<Rightarrow> hexid \<Rightarrow> net \<Rightarrow> bool" where
  "own_net k self n \<longleftrightarrow> nt_out n = k \<and> nt_self n = self
     \<and> (\<forall>digest. \<exists>peer key. rn_validate (ot_rns k) peer (nt_sign n digest) digest = Some True
          \<and> pe_key peer = Some key \<and> rn_key_hash (ot_rns k) key = Some (pe_hash peer) \<and> fromhex self = Some (pe_hash peer))"

definition own_upload :: "outside \<Rightarrow> bytes option \<Rightarrow> manifest option \<Rightarrow> bool" where
  "own_upload k img man \<longleftrightarrow> \<not> image_refused k img
     \<and> (\<forall>m. man = Some m \<longrightarrow> file_manifest (man_name m) (man_size m) (man_hash m) (man_root m) = Some m)"

lemma own_row_ok:
  assumes "own_net k self n" and "own_upload k img man"
    and p: "new_params n now ch content reply subs img man peer rows = Some p"
  shows "row_ok k (own_row n p)"
proof -
  have k: "nt_out n = k" "nt_self n = self" using assms(1) by (simp_all add: own_net_def)
  let ?m = "\<lparr>sm_id = compute_message_id (ot_sha k) content self now, sm_timestamp = now, sm_content = content, sm_reply_to = reply,
             sm_last_seen = get_latest_message_id rows ch, sm_image = img, sm_manifest = man\<rparr>"
  obtain digest where d: "author_digest (ot_sha k) (ot_repr k) ch ?m = Some digest" and q: "p =
      \<lparr>mp_channel = ch, mp_content = content, mp_ts = now, mp_id = compute_message_id (ot_sha k) content self now, mp_name = nt_name n,
       mp_reply = reply, mp_last_seen = get_latest_message_id rows ch, mp_subs = subs, mp_image = img, mp_manifest = man,
       mp_sig = nt_sign n digest, mp_peer = peer\<rparr>"
    using p k by (auto simp: new_params_def sign_message_def Let_def split: option.splits)
  have "row_message (own_row n p) = ?m" by (simp add: row_message_def own_row_def q)
  moreover have "\<exists>peer key. rn_validate (ot_rns k) peer (nt_sign n digest) digest = Some True
      \<and> pe_key peer = Some key \<and> rn_key_hash (ot_rns k) key = Some (pe_hash peer) \<and> fromhex self = Some (pe_hash peer)"
    using assms(1) by (simp add: own_net_def)
  ultimately have "written k ch self (nt_sign n digest) (row_message (own_row n p))" using d by (auto simp: written_def)
  then show ?thesis using assms(2) by (auto simp: row_ok_def own_row_def own_upload_def q k(2))
qed

lemma db_ok_own:
  assumes "db_ok k (ob_db o')" and "row_ok k (own_row n p)"
  shows "db_ok k (ob_db (store_own n p o'))"
  using assms by (auto simp: store_own_def insert_message_def Let_def db_ok_def unique_key_snoc)

lemma db_ok_keys: "db_ok k db \<Longrightarrow> db_ok k (db\<lparr>db_keys := fst (resolve_author (ot_rns k) now peer (db_keys db))\<rparr>)"
  using keys_ok_resolve by (simp add: db_ok_def)

lemma db_ok_send:
  assumes "own_net k self n" "own_upload k img man" "db_ok k (ob_db o')"
  shows "db_ok k (ob_db (send_message n now ch content reply subs img man o'))"
  using assms by (auto simp: send_message_def sent_all_db intro: db_ok_own own_row_ok split: option.split)

lemma db_ok_send_direct:
  assumes "own_net k self n" "own_upload k img man" "db_ok k (ob_db o')"
  shows "db_ok k (ob_db (fst (send_direct n w peer content reply img man o')))"
proof -
  obtain db conv where o: "open_direct w peer (ob_db o') = (db, conv)" by force
  have db: "db_ok k db" using db_ok_same [OF assms(3)] open_direct_same [OF o] by simp
  have k: "nt_out n = k" and u: "own_upload k img None" using assms(1,2) by (simp_all add: own_net_def own_upload_def)
  have "db_ok k (ob_db (deliver_direct n w peer p b (keep_params p (o'\<lparr>ob_db := db\<rparr>))))" for p b
    using db_ok_keys [OF db] by (simp add: delivered_db k)
  then show ?thesis using assms(3) db own_row_ok [OF assms(1) u]
    by (auto simp: send_direct_def o Let_def intro!: db_ok_own split: option.split)
qed

section \<open>Histories\<close>

text \<open>\<open>Delivered\<close> takes a step of the deliveries, \<open>Answered\<close> is a message to the sync handler, \<open>Posted\<close> an operation
  of the outbox, and \<open>Otherwise\<close> puts whatever the rest of the program makes of everything but the
  messages and the authors' keys in place.\<close>

datatype history_event = Delivered message_event | Answered net secs lxm | Posted outbox_event | Otherwise sync

fun history_step :: "outside \<Rightarrow> history_event \<Rightarrow> sync \<Rightarrow> sync" where
  "history_step k (Delivered e) s = set_db (message_step k e (sy_db s)) s"
| "history_step k (Answered n now l) s = on_sync_message n now l s"
| "history_step k (Posted e) s = s\<lparr>sy_out := outbox_step e (sy_out s)\<rparr>"
| "history_step k (Otherwise s') s = set_db ((sy_db s')\<lparr>db_rows := sy_rows s, db_keys := db_keys (sy_db s)\<rparr>) s'"

fun event_ok :: "outside \<Rightarrow> hexid \<Rightarrow> history_event \<Rightarrow> bool" where
  "event_ok k self (Answered n now l) \<longleftrightarrow> nt_out n = k"
| "event_ok k self (Posted (SendMessage n now ch content reply subs img man)) \<longleftrightarrow> own_net k self n \<and> own_upload k img man"
| "event_ok k self (Posted (SendDirect n w peer content reply img man)) \<longleftrightarrow> own_net k self n \<and> own_upload k img man"
| "event_ok k self (Posted (DirectFailed n w peer mid)) \<longleftrightarrow> nt_out n = k"
| "event_ok k self (Posted (Tables db)) \<longleftrightarrow> False"
| "event_ok k self e \<longleftrightarrow> True"

lemma db_ok_history_step:
  assumes n: "rns_honest (ot_rns k)" and e: "event_ok k self e" and ok: "db_ok k (sy_db s)"
  shows "db_ok k (sy_db (history_step k e s))"
proof (cases e)
  case (Delivered m)
  then show ?thesis using db_ok_step [OF ok n, of m] by (simp add: set_db_def)
next
  case (Answered nt now l)
  then have k: "nt_out nt = k" using e by simp
  show ?thesis using message_takes [of nt s now l] n ok unfolding Answered history_step.simps k Let_def by blast
next
  case (Otherwise s')
  then show ?thesis using ok by (simp add: set_db_def db_ok_def)
next
  case (Posted p)
  have "db_ok k (ob_db (outbox_step p (sy_out s)))"
  proof (cases p)
    case (DirectFailed nt w peer mid)
    then have "nt_out nt = k" using e Posted by simp
    then show ?thesis unfolding DirectFailed outbox_step.simps on_direct_failed_def
      using ok db_ok_keys [OF ok] by (simp add: delivered_db split: option.split)
  qed (use e ok Posted in \<open>auto simp: flushed_db failed_db intro: db_ok_send db_ok_send_direct\<close>)
  then show ?thesis using Posted by simp
qed

text \<open>C7. Whatever was delivered, sent by ourselves, taken in an answer to a sync request, released from the
  held requests or forgotten, and whatever the rest of the program did to channels, members, contacts and
  requests meanwhile: no two stored messages share an id, each id is the hash of the row's own content, sender
  and time, and every signature kept verifies, under a key of the sender, for the row exactly as it is
  stored, so that it may be relayed. Images are within the bounds and manifests are sound. Reticulum is
  relied on to recall for a destination the identity it belongs to and to sign so that it verifies; and the images and
  manifests given to our own sends are ones that a receiver would take.\<close>

theorem stored_messages_verify:
  assumes "rns_honest (ot_rns k)" and "list_all (event_ok k self) es" and "sy_db s0 = fresh_db st fr"
  shows "let s = fold (history_step k) es s0 in unique_key ms_id (sy_rows s)
    \<and> (\<forall>r\<in>set (sy_rows s).
         ms_id r = compute_message_id (ot_sha k) (ms_content r) (ms_sender r) (ms_ts r)
         \<and> (\<forall>sig. ms_sig r = Some sig \<longrightarrow> written k (ms_channel r) (ms_sender r) sig (row_message r))
         \<and> \<not> image_refused k (ms_image r)
         \<and> (\<forall>m. ms_manifest r = Some m \<longrightarrow>
              file_manifest (man_name m) (man_size m) (man_hash m) (man_root m) = Some m))"
proof -
  have "db_ok k (sy_db (fold (history_step k) es s0))"
  proof (rule fold_invariant [where Q = "event_ok k self"])
    show "db_ok k (sy_db s0)" using assms(3) by (simp add: db_ok_def fresh_db_def unique_key_def keys_ok_def)
  qed (use assms(2) db_ok_history_step [OF assms(1)] in \<open>simp_all add: list_all_iff\<close>)
  then show ?thesis by (simp add: db_ok_def list_all_iff row_ok_def Let_def)
qed

text \<open>We send a message to the channel, take the answer of the friend we asked, and get a letter of the friend.\<close>

definition history_net :: net where
  "history_net = chat_net\<lparr>nt_out := (nt_out chat_net)\<lparr>ot_sha := (\<lambda>b. [of_nat (length b)])\<rparr>\<rparr>"

definition friend_letter :: lxm where
  "friend_letter =
     \<lparr>lx_fields = [(PInt F_CHANNEL_HASH, PBytes [0x0a]), (PInt F_DISPLAY_NAME, PStr ''f''), (PInt F_TIMESTAMP, PFloat (Finite 1)),
        (PInt F_AUTHOR_SIG, PBytes [8])],
      lx_content = [65], lx_timestamp = PNone, lx_ours = True, lx_source = replicate 16 0x77\<rparr>"

text \<open>The channel was opened to all before the letter.\<close>

definition opened_store :: store where
  "opened_store = shared_store\<lparr>st_channels :=
     map (\<lambda>c. c\<lparr>cr_permissions := Some (Some (PDict [(PStr FLAG_OPEN_JOIN, PBool True)]))\<rparr>) (st_channels shared_store)\<rparr>"

definition sample_history :: "history_event list" where
  "sample_history =
     [Posted (SendMessage history_net 2 ''0a'' ''hello'' None [sample_friend] None None),
      Answered history_net 5 history_letter, Delivered (Elsewhere opened_store (fresh_friends [])),
      Delivered (Deliver (still_world\<lparr>w_now := 6\<rparr>) True friend_letter)]"

lemma sample_history_rows:
  "map (\<lambda>r. (ms_sender r, ms_content r, ms_sig r)) (sy_rows (fold (history_step (nt_out history_net)) sample_history waiting_sync))
     = [(sample_self, ''hello'', Some [7]), (sample_friend, ''hi'', Some [7]), (sample_friend, ''A'', Some [8])]"
  by code_simp

theorem stored_messages_verify_witness:
  "\<exists>r1 r2 r3. sy_rows (fold (history_step (nt_out history_net)) sample_history waiting_sync) = [r1, r2, r3]
     \<and> written (nt_out history_net) (ms_channel r1) sample_self [7] (row_message r1)
     \<and> written (nt_out history_net) (ms_channel r2) sample_friend [7] (row_message r2)
     \<and> written (nt_out history_net) (ms_channel r3) sample_friend [8] (row_message r3) \<and> distinct [ms_id r1, ms_id r2, ms_id r3]"
proof -
  have honest: "rns_honest (ot_rns (nt_out history_net))" using chat_honest by (simp add: history_net_def)
  have self: "fromhex sample_self = Some (replicate 16 0x11)" by code_simp
  have "own_net (nt_out history_net) sample_self history_net"
    by (auto simp: own_net_def history_net_def chat_net_def self intro: exI [of _ "\<lparr>pe_key = Some (replicate 16 0x11), pe_hash = replicate 16 0x11\<rparr>"])
  then have "list_all (event_ok (nt_out history_net) sample_self) sample_history"
    by (simp add: sample_history_def own_upload_def image_refused_def)
  note sound = stored_messages_verify [OF honest this waiting_db, unfolded Let_def]
  obtain r1 r2 r3 where "sy_rows (fold (history_step (nt_out history_net)) sample_history waiting_sync) = [r1, r2, r3]"
      "ms_sender r1 = sample_self" "ms_sig r1 = Some [7]" "ms_sender r2 = sample_friend" "ms_sig r2 = Some [7]"
      "ms_sender r3 = sample_friend" "ms_sig r3 = Some [8]"
    using sample_history_rows by (auto simp: map_eq_Cons_conv)
  with sound show ?thesis by (auto simp: unique_key_def)
qed

end
