(* ===== verification/Subscriber_Safety.thy ===== *)
theory Subscriber_Safety
  imports Subscribers
begin

text \<open>
  What the subscriber lists guarantee: the sets and versions in memory are those in the tables, so a
  restart changes nothing; the manager with its two copies behaves like one versioned set per
  channel; and a list once superseded is never taken again, across restarts too. The exception is a
  version beyond SQLite's integers, which is taken into memory and then fails to be stored.
\<close>

section \<open>Histories\<close>

datatype sub_event =
    SubMessage net peer_identity secs store lxm
  | SubControl net secs hexid string hexid
  | SubFlush net secs hexid
  | SubRestart

fun sub_step :: "sub_event \<Rightarrow> subscriptions \<Rightarrow> subscriptions" where
  "sub_step (SubMessage n own now s l) u = on_subscription_message n own now s l u"
| "sub_step (SubControl n now dest mt ch) u = send_subs_control n now dest mt ch u"
| "sub_step (SubFlush n now dest) u = flush_subs n now dest u"
| "sub_step SubRestart u = new_subscriptions (su_rows u) (su_vers u)"

definition stored_version :: "subscriptions \<Rightarrow> hexid \<Rightarrow> int" where
  "stored_version u ch = (case row_of sv_channel (su_vers u) ch of None \<Rightarrow> 0 | Some r \<Rightarrow> sv_version r)"

definition held_version :: "subscriptions \<Rightarrow> hexid \<Rightarrow> int" where
  "held_version u ch = get_or 0 (su_held u) ch"

definition stored_set :: "subscriptions \<Rightarrow> hexid \<Rightarrow> hexid set" where
  "stored_set u ch = {h. (ch, h) \<in> subscriber_key ` set (su_rows u)}"

abbreviation small :: "int \<Rightarrow> bool" where
  "small v \<equiv> v < 2 ^ 63"

text \<open>The memory follows the tables, for every channel whose version SQLite can store.\<close>

definition follows :: "subscriptions \<Rightarrow> hexid \<Rightarrow> bool" where
  "follows u ch \<longleftrightarrow> 0 \<le> stored_version u ch \<and> stored_version u ch \<le> held_version u ch
     \<and> (small (held_version u ch) \<longrightarrow> stored_version u ch = held_version u ch
         \<and> set (get_subscribers u ch) = stored_set u ch)"

definition subs_inv :: "subscriptions \<Rightarrow> bool" where
  "subs_inv u \<longleftrightarrow> unique_key sv_channel (su_vers u) \<and> (\<forall>ch. follows u ch)"

section \<open>The link is beside the point\<close>

lemma send_subs_keeps [simp]:
  "su_rows (send_subs n now d fs u) = su_rows u" "su_vers (send_subs n now d fs u) = su_vers u"
  "su_sets (send_subs n now d fs u) = su_sets u" "su_held (send_subs n now d fs u) = su_held u"
  by (simp_all add: send_subs_def)

definition same_lists :: "subscriptions \<Rightarrow> subscriptions \<Rightarrow> bool" where
  "same_lists u u' \<longleftrightarrow> su_rows u' = su_rows u \<and> su_vers u' = su_vers u \<and> su_sets u' = su_sets u \<and> su_held u' = su_held u"

lemma same_lists_refl [simp]: "same_lists u u"
  by (simp add: same_lists_def)

lemma same_lists_send [simp]: "same_lists u (send_subs n now d fs u)"
  by (simp add: same_lists_def)

lemma same_lists_control [simp]: "same_lists u (send_subs_control n now d mt ch u)"
  by (simp add: send_subs_control_def split: option.splits)

lemma same_lists_flush [simp]: "same_lists u (flush_subs n now d u)"
  by (simp add: same_lists_def flush_subs_def)

lemma same_lists_trans: "same_lists u v \<Longrightarrow> same_lists v w \<Longrightarrow> same_lists u w"
  by (simp add: same_lists_def)

lemma same_lists_fold:
  "(\<And>x u. same_lists u (f x u)) \<Longrightarrow> same_lists u (fold f xs u)"
proof (induction xs arbitrary: u)
  case (Cons x xs)
  then show ?case using same_lists_trans [of u "f x u" "fold f xs (f x u)"] by simp
qed simp

lemma same_lists_views:
  assumes "same_lists u u'"
  shows "stored_version u' = stored_version u" "held_version u' = held_version u" "stored_set u' = stored_set u"
    "get_subscribers u' = get_subscribers u" "subs_inv u' = subs_inv u"
  using assms
  by (auto simp: same_lists_def stored_version_def held_version_def stored_set_def get_subscribers_def fun_eq_iff
      subs_inv_def follows_def)

section \<open>A reload reads back what was stored\<close>

lemma reload_sets:
  "set (get_or [] (get_all_channel_subscribers rows) ch) = {h. (ch, h) \<in> subscriber_key ` set rows}"
proof -
  have "set (get_or [] (foldl (\<lambda>d r. AList.update (sc_channel r) (get_or [] d (sc_channel r) @ [sc_id r]) d) d rows) ch)
      = set (get_or [] d ch) \<union> {h. (ch, h) \<in> subscriber_key ` set rows}" for d
    by (induction rows arbitrary: d) (auto simp: subscriber_key_def)
  then show ?thesis by (simp add: get_all_channel_subscribers_def get_or_def)
qed

lemma reload_versions:
  "get_or 0 (get_all_subscriber_list_versions rows) ch = (case row_of sv_channel rows ch of None \<Rightarrow> 0 | Some r \<Rightarrow> sv_version r)"
  by (induction rows) (auto simp: get_all_subscriber_list_versions_def get_or_def split: option.splits)

lemma reload_views [simp]:
  "stored_version (new_subscriptions rows vers) ch = (case row_of sv_channel vers ch of None \<Rightarrow> 0 | Some r \<Rightarrow> sv_version r)"
  "held_version (new_subscriptions rows vers) ch = (case row_of sv_channel vers ch of None \<Rightarrow> 0 | Some r \<Rightarrow> sv_version r)"
  "set (get_subscribers (new_subscriptions rows vers) ch) = {h. (ch, h) \<in> subscriber_key ` set rows}"
  "stored_set (new_subscriptions rows vers) ch = {h. (ch, h) \<in> subscriber_key ` set rows}"
  "su_vers (new_subscriptions rows vers) = vers"
  by (simp_all add: new_subscriptions_def stored_version_def held_version_def get_subscribers_def stored_set_def
      reload_sets reload_versions)

lemma subs_inv_new:
  "unique_key sv_channel vers \<Longrightarrow> list_all (\<lambda>r. 0 \<le> sv_version r) vers \<Longrightarrow> subs_inv (new_subscriptions rows vers)"
  by (auto simp: subs_inv_def follows_def list_all_iff split: option.splits dest: row_of_Some)

lemma subs_inv_restart: "subs_inv u \<Longrightarrow> subs_inv (sub_step SubRestart u)"
  by (auto simp: subs_inv_def follows_def stored_version_def)

section \<open>The operations\<close>

lemma set_version_row:
  "set_subscriber_list_version now ch v rows = Inr rows' \<Longrightarrow>
    (case row_of sv_channel rows' c of None \<Rightarrow> 0 | Some r \<Rightarrow> sv_version r)
     = (if c = ch then (case row_of sv_channel rows ch of None \<Rightarrow> v | Some r \<Rightarrow> max (sv_version r) v)
        else (case row_of sv_channel rows c of None \<Rightarrow> 0 | Some r \<Rightarrow> sv_version r))"
  by (auto simp: set_subscriber_list_version_def split: option.splits)

lemma set_version_unique:
  "set_subscriber_list_version now ch v rows = Inr rows' \<Longrightarrow> unique_key sv_channel rows \<Longrightarrow> unique_key sv_channel rows'"
  by (auto simp: set_subscriber_list_version_def intro: unique_key_upsert split: option.splits)

lemma set_version_big: "0 \<le> v \<Longrightarrow> (set_subscriber_list_version now ch v rows = Inl e) \<Longrightarrow> \<not> small v"
  by (auto simp: set_subscriber_list_version_def bind_error_def split: if_splits)

lemma add_rows: "(c, h) \<in> subscriber_key ` set (add_channel_subscriber now ch x rows) \<longleftrightarrow>
    (c, h) = (ch, x) \<or> (c, h) \<in> subscriber_key ` set rows"
  by (auto simp: add_channel_subscriber_def insert_ignore_def has_key_iff subscriber_key_def image_iff)

lemma remove_rows: "(c, h) \<in> subscriber_key ` set (remove_channel_subscriber ch x rows) \<longleftrightarrow>
    (c, h) \<noteq> (ch, x) \<and> (c, h) \<in> subscriber_key ` set rows"
  by (auto simp: remove_channel_subscriber_def delete_where_def subscriber_key_def image_iff)

lemma replace_rows: "(c, h) \<in> subscriber_key ` set (replace_channel_subscribers now ch hs rows) \<longleftrightarrow>
    (if c = ch then h \<in> set hs else (c, h) \<in> subscriber_key ` set rows)"
  by (force simp: replace_channel_subscribers_def delete_where_def subscriber_key_def image_Un image_image)

text \<open>Counting a version up: memory first, then the table.\<close>

lemma next_version_views:
  assumes "next_subscriber_version now ch u = (u', v, raised)"
  shows "v = held_version u ch + 1" "held_version u' c = (if c = ch then v else held_version u c)"
    "get_subscribers u' = get_subscribers u" "stored_set u' = stored_set u"
    "raised = (\<exists>e. set_subscriber_list_version now ch v (su_vers u) = Inl e)"
    "raised \<Longrightarrow> su_vers u' = su_vers u"
    "\<not> raised \<Longrightarrow> set_subscriber_list_version now ch v (su_vers u) = Inr (su_vers u')"
  using assms
  by (auto simp: next_subscriber_version_def Let_def held_version_def get_subscribers_def stored_set_def fun_eq_iff
      split: sum.splits)

lemma broadcast_same:
  "\<exists>w v raised. next_subscriber_version now ch u = (w, v, raised) \<and> same_lists w (broadcast_subscriber_list n now ch u)"
proof (cases "next_subscriber_version now ch u")
  case (fields w v raised)
  have "same_lists w (broadcast_subscriber_list n now ch u)"
    unfolding broadcast_subscriber_list_def Let_def fields prod.case
    by (auto simp: same_lists_refl intro!: same_lists_fold split: option.splits)
  then show ?thesis using fields by blast
qed

lemma stored_of_vers:
  "su_vers u' = su_vers u \<Longrightarrow> stored_version u' = stored_version u"
  by (simp add: stored_version_def fun_eq_iff)

lemma stored_of_set:
  assumes "set_subscriber_list_version now ch v (su_vers u) = Inr (su_vers u')"
  shows "stored_version u' c = (if c = ch then (if row_of sv_channel (su_vers u) ch = None then v
           else max (stored_version u ch) v) else stored_version u c)"
  using set_version_row [OF assms, of c] by (auto simp: stored_version_def split: option.splits)

text \<open>Whatever gives a channel a newer version and one set of subscribers in both places keeps the
  invariant; where the version cannot be stored, the tables stay.\<close>

lemma subs_inv_newer:
  assumes inv: "subs_inv u" and newer: "held_version u ch < v"
    and held: "\<And>c. held_version u' c = (if c = ch then v else held_version u c)"
    and vers: "case set_subscriber_list_version now ch v (su_vers u) of Inl e \<Rightarrow> su_vers u' = su_vers u
               | Inr vs \<Rightarrow> su_vers u' = vs \<and> set (get_subscribers u' ch) = stored_set u' ch"
    and sets: "\<And>c. c \<noteq> ch \<Longrightarrow> get_subscribers u' c = get_subscribers u c \<and> stored_set u' c = stored_set u c"
  shows "subs_inv u'"
proof (cases "set_subscriber_list_version now ch v (su_vers u)")
  case (Inl e)
  have f: "follows u c" for c using inv by (simp add: subs_inv_def)
  have nn: "0 \<le> v" using f [of ch] newer by (simp add: follows_def)
  have "\<not> small v" using set_version_big [OF nn Inl] .
  moreover have "stored_version u' = stored_version u" by (rule stored_of_vers) (use vers Inl in simp)
  ultimately have big: "\<not> small (held_version u' ch)" and st: "stored_version u' = stored_version u"
    using held [of ch] by simp_all
  have "follows u' c" for c
  proof (cases "c = ch")
    case True
    have "0 \<le> stored_version u ch" "stored_version u ch \<le> held_version u' ch"
      using f [of ch] newer held [of ch] by (simp_all add: follows_def)
    then show ?thesis using big unfolding True follows_def st by blast
  next
    case False
    then have "held_version u' c = held_version u c" "get_subscribers u' c = get_subscribers u c" "stored_set u' c = stored_set u c"
      using held [of c] sets [of c] by simp_all
    then show ?thesis using f [of c] unfolding follows_def st by simp
  qed
  then show ?thesis using inv vers Inl by (simp add: subs_inv_def)
next
  case (Inr vs)
  have f: "follows u c" for c using inv by (simp add: subs_inv_def)
  have eq: "su_vers u' = vs" using vers Inr by simp
  have le: "stored_version u ch \<le> v" "0 \<le> v" using f [of ch] newer by (simp_all add: follows_def)
  have st: "stored_version u' c = (if c = ch then v else stored_version u c)" for c
    using stored_of_set [of now ch v u u' c] Inr eq le by (simp add: max_def)
  have "follows u' c" for c
  proof (cases "c = ch")
    case True
    have "stored_version u' ch = v" "held_version u' ch = v" "set (get_subscribers u' ch) = stored_set u' ch"
      using held [of ch] st [of ch] vers Inr by simp_all
    then show ?thesis using le unfolding True follows_def by simp
  next
    case False
    then have "held_version u' c = held_version u c" "stored_version u' c = stored_version u c"
      "get_subscribers u' c = get_subscribers u c" "stored_set u' c = stored_set u c"
      using held [of c] st [of c] sets [of c] by simp_all
    then show ?thesis using f [of c] unfolding follows_def by simp
  qed
  then show ?thesis using inv eq set_version_unique [OF Inr] by (simp add: subs_inv_def)
qed

lemma subs_inv_add:
  assumes "subs_inv u" shows "subs_inv (add_subscriber n now ch h u)"
proof (cases "h \<in> set (get_or [] (su_sets u) ch)")
  case True
  then show ?thesis using assms by (simp add: add_subscriber_def Let_def)
next
  case False
  define w where "w = u\<lparr>su_sets := AList.update ch (get_or [] (su_sets u) ch @ [h]) (su_sets u),
                       su_rows := add_channel_subscriber now ch h (su_rows u)\<rparr>"
  obtain x v raised where nv: "next_subscriber_version now ch w = (x, v, raised)"
    and same: "same_lists x (broadcast_subscriber_list n now ch w)" using broadcast_same by blast
  note views = next_version_views [OF nv]
  have wv: "held_version w = held_version u" "su_vers w = su_vers u" "stored_version w = stored_version u"
    by (simp_all add: w_def held_version_def stored_version_def fun_eq_iff)
  have ws: "get_subscribers w c = (if c = ch then get_subscribers u ch @ [h] else get_subscribers u c)"
    "stored_set w c = (if c = ch then insert h (stored_set u ch) else stored_set u c)" for c
    by (auto simp: w_def get_subscribers_def stored_set_def add_rows)
  have fol: "follows u ch" using assms by (simp add: subs_inv_def)
  have "subs_inv x"
  proof (rule subs_inv_newer [OF assms, of ch v])
    show "held_version u ch < v" using views(1) by (simp add: wv)
    show "held_version x c = (if c = ch then v else held_version u c)" for c using views(2) [of c] by (simp add: wv)
    show "case set_subscriber_list_version now ch v (su_vers u) of Inl e \<Rightarrow> su_vers x = su_vers u
          | Inr vs \<Rightarrow> su_vers x = vs \<and> set (get_subscribers x ch) = stored_set x ch"
    proof (cases raised)
      case True
      then show ?thesis using views(5,6) by (auto simp: wv)
    next
      case no: False
      then have eq: "set_subscriber_list_version now ch v (su_vers u) = Inr (su_vers x)" using views(7) by (simp add: wv)
      have "small v" using eq by (auto simp: set_subscriber_list_version_def bind_error_def split: if_splits)
      then have "set (get_subscribers u ch) = stored_set u ch" using fol views(1) by (auto simp: follows_def wv)
      then show ?thesis using eq by (simp add: views(3,4) ws)
    qed
    show "c \<noteq> ch \<Longrightarrow> get_subscribers x c = get_subscribers u c \<and> stored_set x c = stored_set u c" for c
      by (simp add: views(3,4) ws)
  qed
  then show ?thesis using False same_lists_views(5) [OF same] by (simp add: add_subscriber_def Let_def w_def)
qed

lemma remove_views:
  "held_version (remove_subscriber ch h u) = held_version u" "stored_version (remove_subscriber ch h u) = stored_version u"
  "set (get_subscribers (remove_subscriber ch h u) c) = set (get_subscribers u c) - (if c = ch then {h} else {})"
  "stored_set (remove_subscriber ch h u) c = stored_set u c - (if c = ch then {h} else {})"
  "su_vers (remove_subscriber ch h u) = su_vers u"
  by (auto simp: remove_subscriber_def held_version_def stored_version_def get_subscribers_def stored_set_def
      remove_rows fun_eq_iff get_or_def split: option.splits)

lemma subs_inv_remove: "subs_inv u \<Longrightarrow> subs_inv (remove_subscriber ch h u)"
  by (simp add: subs_inv_def follows_def remove_views)

lemma subs_inv_handle:
  assumes "subs_inv u" shows "subs_inv (handle_subscriber_list n own now s ch sender fs u)"
proof (cases "valid_list n own (get_channel s ch) ch sender fs (get_or 0 (su_held u) ch)")
  case None
  then show ?thesis using assms by (simp add: handle_subscriber_list_def)
next
  case (Some p)
  obtain v hs where p: "p = (v, hs)" by (cases p)
  have newer: "held_version u ch < v"
    using Some p by (auto simp: valid_list_def Let_def held_version_def split: option.splits pyval.splits if_splits)
  let ?u = "handle_subscriber_list n own now s ch sender fs u"
  show ?thesis
  proof (rule subs_inv_newer [OF assms newer, where now = now])
    show "held_version ?u c = (if c = ch then v else held_version u c)" for c
      using Some p by (simp add: handle_subscriber_list_def Let_def held_version_def split: sum.splits)
    show "case set_subscriber_list_version now ch v (su_vers u) of Inl e \<Rightarrow> su_vers ?u = su_vers u
          | Inr vs \<Rightarrow> su_vers ?u = vs \<and> set (get_subscribers ?u ch) = stored_set ?u ch"
      using Some p by (simp add: handle_subscriber_list_def Let_def get_subscribers_def stored_set_def replace_rows
          split: sum.splits)
    show "c \<noteq> ch \<Longrightarrow> get_subscribers ?u c = get_subscribers u c \<and> stored_set ?u c = stored_set u c" for c
      using Some p by (auto simp: handle_subscriber_list_def Let_def get_subscribers_def stored_set_def replace_rows
          split: sum.splits)
  qed
qed

text \<open>What a delivered message comes to.\<close>

definition open_and_ours :: "net \<Rightarrow> store \<Rightarrow> hexid \<Rightarrow> bool" where
  "open_and_ours n s ch =
     (case get_channel s ch of
        None \<Rightarrow> False
      | Some c \<Rightarrow> cr_creator c = nt_self n \<and>
          (case permissions_from_json (or_else None (cr_permissions c)) of Inl _ \<Rightarrow> False | Inr p \<Rightarrow> is_open_join p))"

lemma subscribe_cases:
  "handle_subscribe n now s ch h u = u
   \<or> handle_subscribe n now s ch h u = add_subscriber n now ch h u \<and> open_and_ours n s ch"
  by (auto simp: handle_subscribe_def open_and_ours_def split: option.splits sum.splits)

lemma unsubscribe_cases:
  "handle_unsubscribe n s ch h u = u
   \<or> handle_unsubscribe n s ch h u = remove_subscriber ch h u \<and> (\<exists>c. get_channel s ch = Some c \<and> cr_creator c = nt_self n)"
  by (auto simp: handle_unsubscribe_def split: option.splits)

lemma message_cases:
  obtains (skip) "on_subscription_message n own now s l u = u"
  | (join) ch where
      "on_subscription_message n own now s l u = handle_subscribe n now s ch (lx_sender (nt_out n) l) u"
  | (leave) ch where
      "on_subscription_message n own now s l u = handle_unsubscribe n s ch (lx_sender (nt_out n) l) u"
  | (publish) ch where
      "on_subscription_message n own now s l u = handle_subscriber_list n own now s ch (lx_sender (nt_out n) l) (lx_fields l) u"
  unfolding on_subscription_message_def Let_def
  by (cases "control_type (ot_decode (nt_out n)) (lx_fields l)"; cases "channel_text (nt_out n) (lx_fields l)")
     (fastforce split: if_splits)+

lemma subs_inv_subscribe: "subs_inv u \<Longrightarrow> subs_inv (handle_subscribe n now s ch h u)"
  using subscribe_cases [of n now s ch h u] subs_inv_add by metis

lemma subs_inv_unsubscribe: "subs_inv u \<Longrightarrow> subs_inv (handle_unsubscribe n s ch h u)"
  using unsubscribe_cases [of n s ch h u] subs_inv_remove by metis

lemma subs_inv_step: "subs_inv u \<Longrightarrow> subs_inv (sub_step e u)"
proof (cases e)
  case (SubMessage n own now s l)
  assume "subs_inv u"
  then show ?thesis using SubMessage
    by (cases rule: message_cases [of n own now s l u]) (simp_all add: subs_inv_subscribe subs_inv_unsubscribe subs_inv_handle)
next
  case SubRestart
  assume "subs_inv u"
  then show ?thesis unfolding SubRestart by (rule subs_inv_restart)
next
  case (SubControl n now dest mt ch)
  assume "subs_inv u"
  then show ?thesis using same_lists_views(5) [OF same_lists_control] SubControl by simp
next
  case (SubFlush n now dest)
  assume "subs_inv u"
  then show ?thesis using same_lists_views(5) [OF same_lists_flush] SubFlush by simp
qed

interpretation subs: machine "new_subscriptions [] []" sub_step subs_inv
  by unfold_locales (simp_all add: subs_inv_step subs_inv_new unique_key_def)

section \<open>One versioned set per channel\<close>

text \<open>The abstract roster of a channel, a version and a set of identities, and what an event does to it. A message
  changes the roster of the channel it names and no other: a subscription of somebody who is not yet in it
  to an open channel of ours adds the sender and counts the version up, an unsubscription from a channel of ours
  takes the sender out, and a list that the channel's creator signed, newer than the roster, replaces both.
  Nothing else changes it, and nobody is added or taken out but the sender.\<close>

type_synonym roster = "int \<times> hexid set"

definition roster_of :: "subscriptions \<Rightarrow> hexid \<Rightarrow> roster" where
  "roster_of u ch = (held_version u ch, set (get_subscribers u ch))"

definition channel_ours :: "net \<Rightarrow> store \<Rightarrow> hexid \<Rightarrow> bool" where
  "channel_ours n s ch = (case get_channel s ch of None \<Rightarrow> False | Some c \<Rightarrow> cr_creator c = nt_self n)"

fun roster_spec :: "sub_event \<Rightarrow> hexid \<Rightarrow> roster \<Rightarrow> roster" where
  "roster_spec (SubMessage n own now s l) ch (v, S) =
     (let who = lx_sender (nt_out n) l; mt = control_type (ot_decode (nt_out n)) (lx_fields l)
      in if channel_text (nt_out n) (lx_fields l) \<noteq> Some ch then (v, S)
         else if mt = Some MT_SUBSCRIBE then
           (if open_and_ours n s ch \<and> who \<notin> S then (v + 1, insert who S) else (v, S))
         else if mt = Some MT_UNSUBSCRIBE then
           (if channel_ours n s ch then (v, S - {who}) else (v, S))
         else if mt = Some MT_SUBSCRIBER_LIST then
           (case valid_list n own (get_channel s ch) ch who (lx_fields l) v of Some (v', hs) \<Rightarrow> (v', set hs) | None \<Rightarrow> (v, S))
         else (v, S))"
| "roster_spec _ ch r = r"

lemma roster_add:
  "roster_of (add_subscriber n now ch h u) c =
    (if c = ch \<and> h \<notin> set (get_subscribers u ch) then (held_version u ch + 1, insert h (set (get_subscribers u ch)))
     else roster_of u c)"
proof (cases "h \<in> set (get_subscribers u ch)")
  case True
  then show ?thesis by (simp add: add_subscriber_def Let_def get_subscribers_def)
next
  case False
  define w where "w = u\<lparr>su_sets := AList.update ch (get_or [] (su_sets u) ch @ [h]) (su_sets u),
                       su_rows := add_channel_subscriber now ch h (su_rows u)\<rparr>"
  obtain x v raised where nv: "next_subscriber_version now ch w = (x, v, raised)"
    and same: "same_lists x (broadcast_subscriber_list n now ch w)" using broadcast_same by blast
  have "roster_of (add_subscriber n now ch h u) c = roster_of x c"
    using False same_lists_views [OF same] by (simp add: add_subscriber_def Let_def w_def roster_of_def get_subscribers_def)
  also have "\<dots> = (if c = ch then (held_version u ch + 1, insert h (set (get_subscribers u ch))) else roster_of u c)"
    using next_version_views(1-3) [OF nv]
    by (simp add: roster_of_def) (simp add: w_def held_version_def get_subscribers_def)
  finally show ?thesis using False by simp
qed

lemma roster_remove:
  "roster_of (remove_subscriber ch h u) c =
    (held_version u c, set (get_subscribers u c) - (if c = ch then {h} else {}))"
  by (simp add: roster_of_def remove_views)

lemma roster_handle:
  "roster_of (handle_subscriber_list n own now s ch sender fs u) c =
    (case valid_list n own (get_channel s ch) ch sender fs (held_version u ch) of
       None \<Rightarrow> roster_of u c
     | Some (v, hs) \<Rightarrow> if c = ch then (v, set hs) else roster_of u c)"
  by (auto simp: handle_subscriber_list_def Let_def roster_of_def held_version_def get_subscribers_def
      split: option.splits sum.splits)

lemma roster_subscribe:
  "roster_of (handle_subscribe n now s ch h u) c =
    (if c = ch \<and> open_and_ours n s ch \<and> h \<notin> set (get_subscribers u ch)
     then (held_version u ch + 1, insert h (set (get_subscribers u ch))) else roster_of u c)"
proof (cases "open_and_ours n s ch")
  case True
  then have "handle_subscribe n now s ch h u = add_subscriber n now ch h u"
    by (auto simp: handle_subscribe_def open_and_ours_def split: option.splits sum.splits)
  then show ?thesis using True by (simp add: roster_add)
next
  case False
  then have "handle_subscribe n now s ch h u = u"
    by (auto simp: handle_subscribe_def open_and_ours_def split: option.splits sum.splits)
  then show ?thesis using False by simp
qed

lemma roster_unsubscribe:
  "roster_of (handle_unsubscribe n s ch h u) c =
    (held_version u c, set (get_subscribers u c) - (if c = ch \<and> channel_ours n s ch then {h} else {}))"
  by (simp add: handle_unsubscribe_def channel_ours_def roster_of_def remove_views split: option.split)

lemma roster_message:
  "roster_of (on_subscription_message n own now s l u) c = roster_spec (SubMessage n own now s l) c (roster_of u c)"
proof (cases "channel_text (nt_out n) (lx_fields l)")
  case (Some ch)
  show ?thesis
    by (cases "control_type (ot_decode (nt_out n)) (lx_fields l)")
      (auto simp: on_subscription_message_def Some Let_def roster_subscribe roster_unsubscribe roster_handle
        roster_of_def [of u] split: option.split)
qed (simp add: on_subscription_message_def roster_of_def Let_def split: option.split)

lemma roster_same: "same_lists u u' \<Longrightarrow> roster_of u' = roster_of u"
  using same_lists_views [of u u'] by (simp add: roster_of_def fun_eq_iff)

lemma roster_sim:
  assumes "subs_inv u" and "small (held_version u ch)"
  shows "roster_of (sub_step e u) ch = roster_spec e ch (roster_of u ch)"
proof (cases e)
  case SubRestart
  have "roster_of (sub_step SubRestart u) ch = roster_of u ch"
    using assms by (simp add: roster_of_def subs_inv_def follows_def stored_set_def) (simp add: stored_version_def)
  then show ?thesis using SubRestart by simp
qed (simp_all add: roster_message roster_same [OF same_lists_control] roster_same [OF same_lists_flush])

lemma valid_list_newer: "valid_list n own c ch sender fs seen = Some (v, hs) \<Longrightarrow> seen < v"
  by (auto simp: valid_list_def Let_def split: option.splits pyval.splits if_splits)

lemma roster_spec_grows: "fst r \<le> fst (roster_spec e ch r)"
  by (induction e ch r rule: roster_spec.induct) (auto simp: Let_def dest: valid_list_newer split: option.split)

text \<open>C18. The subscriber manager with its two copies, in memory and in the tables, implements one versioned
  roster per channel, event for event: after any history of messages, sends, retries and restarts from empty
  tables, the version and the set the manager works with are those the roster arrives at over the same
  history, and so are those in the tables, which a restart reads, as long as the roster's version is one SQLite can store.\<close>

theorem subscriber_roster_refines:
  assumes "small (fst (fold (\<lambda>e. roster_spec e ch) es (0, {})))"
  shows "let u = fold sub_step es (new_subscriptions [] []); r = fold (\<lambda>e. roster_spec e ch) es (0, {})
    in (held_version u ch, set (get_subscribers u ch)) = r \<and> (stored_version u ch, stored_set u ch) = r"
  using assms
proof (induction es rule: rev_induct)
  case Nil
  then show ?case by (simp add: Let_def new_subscriptions_def held_version_def get_subscribers_def stored_version_def stored_set_def
        get_or_def get_all_channel_subscribers_def get_all_subscriber_list_versions_def)
next
  case (snoc e es)
  let ?u = "fold sub_step es (new_subscriptions [] [])" and ?r = "fold (\<lambda>e. roster_spec e ch) es (0, {})"
  have "small (fst ?r)" using snoc.prems roster_spec_grows [of ?r e ch] by simp
  then have ih: "roster_of ?u ch = ?r" using snoc.IH by (simp add: Let_def roster_of_def)
  have inv: "subs_inv ?u" "subs_inv (sub_step e ?u)" using subs.inv_run subs.inv_run [of "es @ [e]"] by simp_all
  have sim: "roster_of (sub_step e ?u) ch = roster_spec e ch ?r"
    unfolding ih [symmetric] by (rule roster_sim [OF inv(1)]) (use ih \<open>small (fst ?r)\<close> in \<open>simp add: roster_of_def prod_eq_iff\<close>)
  then have "small (held_version (sub_step e ?u) ch)" using snoc.prems by (simp add: roster_of_def prod_eq_iff)
  then have "(stored_version (sub_step e ?u) ch, stored_set (sub_step e ?u) ch) = roster_of (sub_step e ?u) ch"
    using inv(2) by (auto simp: subs_inv_def follows_def roster_of_def)
  then show ?case using sim by (simp add: Let_def roster_of_def)
qed

section \<open>A superseded list is never taken again\<close>

lemma stored_newer:
  assumes "subs_inv u" "held_version u ch < v" "set_subscriber_list_version now ch v (su_vers u) = Inr (su_vers u')"
  shows "stored_version u c \<le> stored_version u' c" "v \<le> stored_version u' ch"
  using assms(1,2) stored_of_set [OF assms(3), of c] stored_of_set [OF assms(3), of ch]
  by (auto simp: subs_inv_def follows_def stored_version_def split: if_splits dest: spec [of _ ch])

lemma stored_add:
  assumes "subs_inv u" shows "stored_version u c \<le> stored_version (add_subscriber n now ch h u) c"
proof (cases "h \<in> set (get_or [] (su_sets u) ch)")
  case False
  define w where "w = u\<lparr>su_sets := AList.update ch (get_or [] (su_sets u) ch @ [h]) (su_sets u),
                       su_rows := add_channel_subscriber now ch h (su_rows u)\<rparr>"
  obtain x v raised where nv: "next_subscriber_version now ch w = (x, v, raised)"
    and same: "same_lists x (broadcast_subscriber_list n now ch w)" using broadcast_same by blast
  have eq: "su_vers w = su_vers u" "held_version w = held_version u" by (simp_all add: w_def held_version_def fun_eq_iff)
  have "stored_version u c \<le> stored_version x c"
  proof (cases raised)
    case True
    then show ?thesis using next_version_views(6) [OF nv] eq by (simp add: stored_version_def)
  next
    case no: False
    show ?thesis using next_version_views(1,7) [OF nv] eq no by (intro stored_newer(1) [OF assms, of ch v now]) simp_all
  qed
  then show ?thesis using False same_lists_views(1) [OF same] by (simp add: add_subscriber_def Let_def w_def)
qed (simp add: add_subscriber_def Let_def)

lemma valid_list_old: "int_value (field_get fs F_SUBSCRIBER_VERSION) = Some v \<Longrightarrow> v \<le> seen \<Longrightarrow> valid_list n own c ch sender fs seen = None"
  by (auto simp: valid_list_def Let_def split: option.splits pyval.splits)

lemma handle_vers:
  assumes "valid_list n own (get_channel s ch) ch sender fs (held_version u ch) = Some (v, hs)"
  shows "case set_subscriber_list_version now ch v (su_vers u) of
      Inl _ \<Rightarrow> su_vers (handle_subscriber_list n own now s ch sender fs u) = su_vers u
    | Inr vs \<Rightarrow> su_vers (handle_subscriber_list n own now s ch sender fs u) = vs"
  using assms by (simp add: handle_subscriber_list_def Let_def held_version_def split: sum.splits)

lemma stored_handle:
  assumes "subs_inv u" shows "stored_version u c \<le> stored_version (handle_subscriber_list n own now s ch sender fs u) c"
proof (cases "valid_list n own (get_channel s ch) ch sender fs (held_version u ch)")
  case (Some p)
  obtain v hs where p: "p = (v, hs)" by (cases p)
  note hv = handle_vers [OF Some [unfolded p], of now]
  show ?thesis
  proof (cases "set_subscriber_list_version now ch v (su_vers u)")
    case Inl
    then show ?thesis using hv by (simp add: stored_version_def)
  next
    case (Inr vs)
    show ?thesis
      by (rule stored_newer(1) [OF assms, of ch v now]) (use hv Inr valid_list_newer Some p in auto)
  qed
qed (simp add: handle_subscriber_list_def held_version_def)

lemma stored_mono_step: "subs_inv u \<Longrightarrow> stored_version u c \<le> stored_version (sub_step e u) c"
proof (cases e)
  case (SubMessage n own now s l)
  assume inv: "subs_inv u"
  show ?thesis unfolding SubMessage sub_step.simps
  proof (cases rule: message_cases [of n own now s l u])
    case (join ch)
    then show "stored_version u c \<le> stored_version (on_subscription_message n own now s l u) c"
      using subscribe_cases [of n now s ch "lx_sender (nt_out n) l" u] stored_add [OF inv] by auto
  next
    case (leave ch)
    then show "stored_version u c \<le> stored_version (on_subscription_message n own now s l u) c"
      using unsubscribe_cases [of n s ch "lx_sender (nt_out n) l" u] by (auto simp: remove_views)
  qed (simp_all add: stored_handle [OF inv])
qed (simp_all add: same_lists_views [OF same_lists_control] same_lists_views [OF same_lists_flush], simp add: stored_version_def)

lemma stored_mono: "subs_inv u \<Longrightarrow> stored_version u c \<le> stored_version (fold sub_step es u) c"
proof (induction es arbitrary: u)
  case (Cons e es)
  then show ?case using stored_mono_step [of u c e] subs_inv_step [of u e] by (force intro: order_trans)
qed simp

lemma handle_none:
  "valid_list n own (get_channel s ch) ch sender fs (held_version u ch) = None \<Longrightarrow>
    handle_subscriber_list n own now s ch sender fs u = u"
  by (simp add: handle_subscriber_list_def held_version_def)

text \<open>C19. A superseded subscriber list cannot be replayed: once a list with a version that SQLite can store
  was taken, no list of that version or an older one for the channel is taken again, whoever sends
  it, whatever happened since, restarts included.\<close>

theorem replayed_list_refused:
  "\<forall>es es' n own now s ch sender fs v hs n' own' now' s' sender' fs' v'.
     let u = fold sub_step es (new_subscriptions [] []);
         u' = fold sub_step es' (handle_subscriber_list n own now s ch sender fs u)
     in valid_list n own (get_channel s ch) ch sender fs (held_version u ch) = Some (v, hs) \<longrightarrow> small v \<longrightarrow>
        int_value (field_get fs' F_SUBSCRIBER_VERSION) = Some v' \<longrightarrow> v' \<le> v \<longrightarrow>
        handle_subscriber_list n' own' now' s' ch sender' fs' u' = u'"
proof (intro allI, unfold Let_def, intro impI)
  fix es es' n own now s ch sender fs v hs n' own' now' s' sender' fs' v'
  define u where "u = fold sub_step es (new_subscriptions [] [])"
  define w where "w = handle_subscriber_list n own now s ch sender fs u"
  assume "valid_list n own (get_channel s ch) ch sender fs (held_version (fold sub_step es (new_subscriptions [] [])) ch) = Some (v, hs)"
    and sm: "small v" and old: "int_value (field_get fs' F_SUBSCRIBER_VERSION) = Some v'" "v' \<le> v"
  then have vl: "valid_list n own (get_channel s ch) ch sender fs (held_version u ch) = Some (v, hs)" by (simp add: u_def)
  have inv: "subs_inv u" unfolding u_def by (rule subs.inv_run)
  then have invw: "subs_inv w" unfolding w_def by (rule subs_inv_handle)
  have "0 \<le> held_version u ch" using inv by (auto simp: subs_inv_def follows_def intro: order_trans dest: spec [of _ ch])
  then have nn: "0 \<le> v" using valid_list_newer [OF vl] by simp
  have stored: "v \<le> stored_version w ch"
  proof (cases "set_subscriber_list_version now ch v (su_vers u)")
    case (Inl e)
    then show ?thesis using set_version_big [OF nn] sm by blast
  next
    case (Inr vs)
    show ?thesis
      by (rule stored_newer(2) [OF inv valid_list_newer [OF vl], of now]) (use handle_vers [OF vl, of now] Inr in \<open>simp add: w_def\<close>)
  qed
  let ?u = "fold sub_step es' w"
  have "v \<le> stored_version ?u ch" using stored stored_mono [OF invw, of ch es'] by simp
  also have "\<dots> \<le> held_version ?u ch" using subs.inv_steps [OF invw, of es'] by (simp add: subs_inv_def follows_def)
  finally have "valid_list n' own' (get_channel s' ch) ch sender' fs' (held_version ?u ch) = None"
    using old(2) by (intro valid_list_old [OF old(1)]) linarith
  then have "handle_subscriber_list n' own' now' s' ch sender' fs' ?u = ?u" by (rule handle_none)
  then show "handle_subscriber_list n' own' now' s' ch sender' fs' (fold sub_step es'
      (handle_subscriber_list n own now s ch sender fs (fold sub_step es (new_subscriptions [] []))))
    = fold sub_step es' (handle_subscriber_list n own now s ch sender fs (fold sub_step es (new_subscriptions [] [])))"
    unfolding w_def u_def .
qed

text \<open>A channel whose owner has signed version 3 of its list, which names nobody.\<close>

definition list_net :: net where
  "list_net =
     \<lparr>nt_out = \<lparr>ot_rns = \<lparr>rn_key_hash = Some, rn_delivery = Some, rn_recall = (\<lambda>d. Some \<lparr>pe_key = Some d, pe_hash = d\<rparr>),
                  rn_validate = (\<lambda>p s d. Some True)\<rparr>,
        ot_sha = (\<lambda>b. [1]), ot_repr = (\<lambda>_. []), ot_str = (\<lambda>_. []), ot_decode = map (char_of \<circ> unat),
        ot_parse_float = (\<lambda>_. None), ot_unpackb = (\<lambda>_. Some (PList [])), ot_open = (\<lambda>_. Unreadable),
        ot_custom_type = 251, ot_custom_data = 252, ot_image_field = 6\<rparr>,
      nt_self = ''0b'', nt_name = ''me'', nt_packb = (\<lambda>_. []), nt_sign = (\<lambda>_. [7]), nt_sends = (\<lambda>_ _ _. True),
      nt_node = False, nt_online = None, nt_gate = None, nt_wired = True\<rparr>"

definition owned_store :: "hexid \<Rightarrow> store" where
  "owned_store creator = empty_store\<lparr>st_channels := [\<lparr>cr_hash = ''0a'', cr_name = [], cr_description = [],
     cr_creator = creator, cr_permissions = None, cr_created = PNone, cr_seen = 0, cr_server = None, cr_kind = ''channel''\<rparr>]\<rparr>"

definition signed_list :: "int \<Rightarrow> fields" where
  "signed_list v = [(PInt F_SUBSCRIBER_LIST, PBytes [1]), (PInt F_SUBSCRIBER_VERSION, PInt v), (PInt F_SUBSCRIBER_SIG, PBytes [7])]"

theorem replayed_list_refused_witness:
  "let u = handle_subscriber_list list_net \<lparr>pe_key = None, pe_hash = []\<rparr> 1 (owned_store ''0c'') ''0a'' ''0c'' (signed_list 3)
             (new_subscriptions [] [])
   in held_version u ''0a'' = 3
      \<and> handle_subscriber_list list_net \<lparr>pe_key = None, pe_hash = []\<rparr> 9 (owned_store ''0c'') ''0a'' ''0c'' (signed_list 2) u = u"
proof -
  let ?own = "\<lparr>pe_key = None, pe_hash = []\<rparr> :: peer_identity"
  let ?s = "owned_store ''0c''"
  let ?u = "handle_subscriber_list list_net ?own 1 ?s ''0a'' ''0c'' (signed_list 3) (new_subscriptions [] [])"
  have v: "valid_list list_net ?own (get_channel ?s ''0a'') ''0a'' ''0c'' (signed_list 3)
             (held_version (fold sub_step [] (new_subscriptions [] [])) ''0a'') = Some (3, [])"
    by code_simp
  have "held_version ?u ''0a'' = 3" by code_simp
  moreover have "handle_subscriber_list list_net ?own 9 ?s ''0a'' ''0c'' (signed_list 2) ?u = ?u"
    using replayed_list_refused [rule_format, unfolded Let_def, of list_net ?own ?s "''0a''" "''0c''" "signed_list 3" "[]" 3 "[]"
        "signed_list 2" 2 list_net ?own 9 ?s "''0c''" "[]" 1, simplified fold_simps] v
    by (simp add: signed_list_def field_get_def)
  ultimately show ?thesis by (simp add: Let_def)
qed

text \<open>Somebody subscribes to an open channel of ours, another one does and leaves, and the program is restarted.\<close>

definition open_store :: store where
  "open_store = empty_store\<lparr>st_channels := [\<lparr>cr_hash = ''0a'', cr_name = [], cr_description = [], cr_creator = ''0b'',
     cr_permissions = Some (Some (PDict [(PStr FLAG_OPEN_JOIN, PBool True)])), cr_created = PNone, cr_seen = 0, cr_server = None,
     cr_kind = ''channel''\<rparr>]\<rparr>"

definition roster_letter :: "string \<Rightarrow> byte \<Rightarrow> lxm" where
  "roster_letter mt who =
     \<lparr>lx_fields = [(PInt F_MSG_TYPE, PStr mt), (PInt F_CHANNEL_HASH, PStr ''0a'')], lx_content = [], lx_timestamp = PNone,
      lx_ours = True, lx_source = [who]\<rparr>"

definition roster_history :: "sub_event list" where
  "roster_history =
     map (\<lambda>(mt, who). SubMessage list_net \<lparr>pe_key = None, pe_hash = []\<rparr> 1 open_store (roster_letter mt who))
       [(MT_SUBSCRIBE, 7), (MT_SUBSCRIBE, 8), (MT_UNSUBSCRIBE, 8)] @ [SubRestart]"

lemma roster_example: "fold (\<lambda>e. roster_spec e ''0a'') roster_history (0, {}) = (2, {''07''})"
  by code_simp

theorem subscriber_roster_refines_witness:
  "let u = fold sub_step roster_history (new_subscriptions [] [])
   in held_version u ''0a'' = 2 \<and> set (get_subscribers u ''0a'') = {''07''} \<and> stored_set u ''0a'' = {''07''}"
  using subscriber_roster_refines [of "''0a''" roster_history] unfolding roster_example by (simp add: Let_def)

end
