(* ===== verification/Reaction_Safety.thy ===== *)
theory Reaction_Safety
  imports Reactions Subscriber_Safety
begin

text \<open>
  What holds of reactions and custom emoji over any history: the library holds only images that
  hash to their key and decode sanely, the maps are bounded (but for the number of peers whose requests
  are counted at one time, \<open>requesters_unbounded\<close>), nobody reacts or takes a reaction back
  for somebody else, and a peer draws at most twelve images a minute.
\<close>

section \<open>Histories\<close>

datatype reaction_event =
    ReactionMessage secs message_db "subscriber_row list" lxm
  | React secs hexid string string "hexid list"
  | Withdraw hexid string string "hexid list"
  | ImportEmoji secs string bytes
  | DeleteEmoji string
  | FetchFrom secs message_db "subscriber_row list" hexid string
  | RetryEmoji secs
  | SyncedReaction reaction_row
  | AskFor secs hexid string

fun reaction_step :: "net \<Rightarrow> reaction_event \<Rightarrow> reactions \<Rightarrow> reactions" where
  "reaction_step n (ReactionMessage now db subs l) x = on_reaction_message n now db subs l x"
| "reaction_step n (React now ch mid emoji subs) x = add_reaction n now ch mid emoji subs x"
| "reaction_step n (Withdraw ch mid emoji subs) x = withdraw_reaction n ch mid emoji subs x"
| "reaction_step n (ImportEmoji now name img) x = fst (import_emoji (nt_out n) now name img x)"
| "reaction_step n (DeleteEmoji h) x = x\<lparr>rx_emojis := delete_emoji h (rx_emojis x)\<rparr>"
| "reaction_step n (FetchFrom now db subs peer content) x = request_missing_from_content n now db subs peer content x"
| "reaction_step n (RetryEmoji now) x = retry_pending_emoji n now x"
| "reaction_step n (SyncedReaction r) x = x\<lparr>rx_rows := insert_reaction r (rx_rows x)\<rparr>"
| "reaction_step n (AskFor now peer h) x = request_emoji n now peer h [] x"

definition emoji_ok :: "outside \<Rightarrow> emoji_row \<Rightarrow> bool" where
  "emoji_ok k r = (em_hash r = compute_emoji_hash (ot_sha k) (em_image r) \<and> int (length (em_image r)) \<le> MAX_EMOJI_BYTES
     \<and> inbound_image_is_sane (ot_open k) (em_image r))"

definition library_ok :: "outside \<Rightarrow> emoji_row list \<Rightarrow> bool" where
  "library_ok k es = (unique_key em_hash es \<and> list_all (emoji_ok k) es)"

definition reactions_ok :: "reaction_row list \<Rightarrow> bool" where
  "reactions_ok rows = (unique_key reaction_key rows \<and> list_all (\<lambda>r. rc_at r \<noteq> NotANumber) rows)"

definition wanted_ok :: "(string \<times> secs) list \<Rightarrow> bool" where
  "wanted_ok d = (distinct (map fst d) \<and> length d \<le> MAX_PENDING_EMOJI_REQUESTS)"

definition flushed_ok :: "(hexid \<times> secs) list \<Rightarrow> bool" where
  "flushed_ok d = (distinct (map fst d) \<and> length d \<le> MAX_TRACKED_FLUSH_PEERS)"

definition times_ok :: "(hexid \<times> secs list) list \<Rightarrow> bool" where
  "times_ok d = (distinct (map fst d) \<and> list_all (\<lambda>(h, ts). length ts \<le> EMOJI_REQUEST_BURST) d)"

definition rx_inv :: "net \<Rightarrow> reactions \<Rightarrow> bool" where
  "rx_inv n x = (library_ok (nt_out n) (rx_emojis x) \<and> reactions_ok (rx_rows x) \<and> wanted_ok (rx_wanted x)
     \<and> flushed_ok (rx_flushed x) \<and> times_ok (rx_times x))"

section \<open>The parts of the invariant\<close>

lemma library_insert: "library_ok k es \<Longrightarrow> emoji_ok k \<lparr>em_hash = h, em_name = name, em_image = img, em_added = now\<rparr> \<Longrightarrow>
    library_ok k (insert_emoji h name img now es)"
  by (auto simp: library_ok_def insert_emoji_def unique_key_ignore insert_ignore_def list_all_iff)
     (simp add: unique_key_snoc)

lemma library_delete: "library_ok k es \<Longrightarrow> library_ok k (delete_emoji h es)"
  by (auto simp: library_ok_def delete_emoji_def unique_key_delete list_all_iff delete_where_def)
     (simp add: unique_key_def distinct_map_filter)

lemma reactions_insert: "reactions_ok rows \<Longrightarrow> reactions_ok (insert_reaction r rows)"
  unfolding reactions_ok_def insert_reaction_def
  by (auto simp: unique_key_ignore) (auto simp: insert_ignore_def)

lemma reactions_remove: "reactions_ok rows \<Longrightarrow> reactions_ok (remove_reaction mid emoji h rows)"
  unfolding reactions_ok_def remove_reaction_def
  by (auto simp: unique_key_delete) (auto simp: delete_where_def list_all_iff)

lemma drop_to_ok:
  "distinct (map fst d) \<Longrightarrow> 0 < cap \<Longrightarrow> distinct (map fst (drop_to cap d)) \<and> length (drop_to cap d) < cap"
proof (induction cap d rule: drop_to.induct)
  case (1 cap d)
  show ?case
  proof (cases "length d \<ge> cap \<and> oldest_key d \<noteq> None")
    case True
    then obtain k where k: "oldest_key d = Some k" by blast
    have "distinct (map fst (AList.delete k d))" using 1(2) by (rule distinct_keys_delete)
    then show ?thesis using 1(1) [OF _ k] True 1(3) by (subst (1 2) drop_to.simps) (simp add: k)
  next
    case False
    then show ?thesis using 1(2,3) by (subst (1 2) drop_to.simps) (auto simp: oldest_key_None)
  qed
qed

lemma wanted_delete: "wanted_ok d \<Longrightarrow> wanted_ok (AList.delete h d)"
  using length_delete_le [of h d] by (auto simp: wanted_ok_def distinct_keys_delete)

lemma wanted_mark:
  assumes "wanted_ok d" shows "wanted_ok (AList.update h now (prune_pending_requests now d))"
proof -
  have "distinct (map fst (filter (\<lambda>(h, t). \<not> now - t \<ge> EMOJI_REQUEST_RETRY_SECS) d))"
    using assms by (simp add: wanted_ok_def distinct_keys_filter)
  from drop_to_ok [OF this, of MAX_PENDING_EMOJI_REQUESTS] show ?thesis
    by (auto simp: wanted_ok_def prune_pending_requests_def distinct_keys_update length_update_new MAX_PENDING_EMOJI_REQUESTS_def)
qed

lemma request_emoji_parts [simp]:
  "rx_emojis (request_emoji n now peer h name x) = rx_emojis x"
  "rx_rows (request_emoji n now peer h name x) = rx_rows x"
  "rx_flushed (request_emoji n now peer h name x) = rx_flushed x"
  "rx_times (request_emoji n now peer h name x) = rx_times x"
  by (simp_all add: request_emoji_def Let_def split: sum.splits option.splits prod.splits)

lemma request_emoji_wanted: "wanted_ok (rx_wanted x) \<Longrightarrow> wanted_ok (rx_wanted (request_emoji n now peer h name x))"
  using wanted_mark [of "rx_wanted x" h now] wanted_delete [OF wanted_mark, of "rx_wanted x" h h now]
  by (simp add: request_emoji_def Let_def split: sum.splits option.splits prod.splits)

lemma rx_inv_request [inv_intros]: "rx_inv n x \<Longrightarrow> rx_inv n (request_emoji n now peer h name x)"
  by (simp add: rx_inv_def request_emoji_wanted)

lemma rx_inv_tokens [inv_intros]: "rx_inv n x \<Longrightarrow> rx_inv n (request_tokens n now sender i ts x)"
  by (induction n now sender i ts x rule: request_tokens.induct) (auto intro: rx_inv_request)

lemma rx_inv_content [inv_intros]: "rx_inv n x \<Longrightarrow> rx_inv n (request_missing_from_content n now db subs sender content x)"
  by (simp add: request_missing_from_content_def rx_inv_tokens)

lemma fold_keeps: "(\<And>y x. P x \<Longrightarrow> P (f y x)) \<Longrightarrow> P x \<Longrightarrow> P (fold f ys x)"
  by (induction ys arbitrary: x) auto

lemma flushed_mark:
  assumes "flushed_ok d"
  shows "flushed_ok (AList.update peer now (if length d \<ge> MAX_TRACKED_FLUSH_PEERS
           then (case oldest_key d of None \<Rightarrow> d | Some k \<Rightarrow> AList.delete k d) else d))"
proof (cases "length d \<ge> MAX_TRACKED_FLUSH_PEERS")
  case True
  then obtain k where k: "oldest_key d = Some k" using oldest_key_None [of d] by (auto simp: MAX_TRACKED_FLUSH_PEERS_def)
  have "length (AList.delete k d) < length d" using oldest_key_shorter [OF k] .
  then show ?thesis using assms True k by (auto simp: flushed_ok_def distinct_keys_update distinct_keys_delete length_update_new)
next
  case False
  then show ?thesis using assms by (auto simp: flushed_ok_def distinct_keys_update length_update_new)
qed

lemma rx_inv_flushed: "rx_inv n x \<Longrightarrow> flushed_ok d \<Longrightarrow> rx_inv n (x\<lparr>rx_flushed := d\<rparr>)"
  by (simp add: rx_inv_def)

lemma rx_inv_flush [inv_intros]:
  assumes "rx_inv n x" shows "rx_inv n (flush_pending_emoji n now peer x)"
proof -
  have "flushed_ok (rx_flushed x)" using assms by (simp add: rx_inv_def)
  then have "rx_inv n (x\<lparr>rx_flushed := AList.update peer now (if length (rx_flushed x) \<ge> MAX_TRACKED_FLUSH_PEERS
           then (case oldest_key (rx_flushed x) of None \<Rightarrow> rx_flushed x | Some k \<Rightarrow> AList.delete k (rx_flushed x))
           else rx_flushed x)\<rparr>)" by (rule rx_inv_flushed [OF assms flushed_mark])
  then have "rx_inv n (fold (\<lambda>h. request_emoji n now peer h []) hs
      (x\<lparr>rx_flushed := AList.update peer now (if length (rx_flushed x) \<ge> MAX_TRACKED_FLUSH_PEERS
           then (case oldest_key (rx_flushed x) of None \<Rightarrow> rx_flushed x | Some k \<Rightarrow> AList.delete k (rx_flushed x))
           else rx_flushed x)\<rparr>))" for hs
    by (rule fold_keeps [rotated]) (rule rx_inv_request)
  then show ?thesis using assms unfolding flush_pending_emoji_def Let_def by simp
qed

lemma rx_inv_retry [inv_intros]: "rx_inv n x \<Longrightarrow> rx_inv n (retry_pending_emoji n now x)"
  unfolding retry_pending_emoji_def by (rule fold_keeps) (rule rx_inv_flush)

lemma send_reaction_parts [simp]:
  "rx_emojis (send_reaction n fs peer x) = rx_emojis x" "rx_rows (send_reaction n fs peer x) = rx_rows x"
  "rx_flushed (send_reaction n fs peer x) = rx_flushed x" "rx_times (send_reaction n fs peer x) = rx_times x"
  "rx_wanted (send_reaction n fs peer x) = rx_wanted x"
  by (simp_all add: send_reaction_def split: sum.splits option.splits prod.splits)

lemma rx_inv_broadcast [inv_intros]: "rx_inv n x \<Longrightarrow> rx_inv n (broadcast_reaction n ch mid emoji subs remove x)"
  unfolding broadcast_reaction_def
  by (auto intro!: fold_keeps [where P = "rx_inv n"] split: option.splits) (simp_all add: rx_inv_def)

lemma rx_inv_rows: "rx_inv n x \<Longrightarrow> reactions_ok rows \<Longrightarrow> rx_inv n (x\<lparr>rx_rows := rows\<rparr>)"
  by (simp add: rx_inv_def)

lemma rx_inv_handle [inv_intros]: "rx_inv n x \<Longrightarrow> rx_inv n (handle_reaction n now db sender fs x)"
  unfolding handle_reaction_def Let_def
  by (auto intro!: rx_inv_request rx_inv_rows reactions_remove reactions_insert split: option.splits) (simp_all add: rx_inv_def)

lemma allow_times_ok: "times_ok d \<Longrightarrow> times_ok (fst (allow_emoji_request now peer d))"
proof -
  assume d: "times_ok d"
  have u: "times_ok (AList.update peer ts d)" if "length ts \<le> EMOJI_REQUEST_BURST" for ts
    using d that by (simp add: times_ok_def distinct_keys_update list_all_update)
  have f: "times_ok (filter P e)" if "times_ok e" for P e
    using that by (auto simp: times_ok_def distinct_keys_filter list_all_iff)
  have "length (get_or [] d peer) \<le> EMOJI_REQUEST_BURST"
    using d get_or_cases [of "[]" d peer] by (auto simp: times_ok_def list_all_iff)
  then have l: "length (filter (\<lambda>t. now - t < EMOJI_REQUEST_WINDOW_SECS) (get_or [] d peer)) \<le> EMOJI_REQUEST_BURST"
    using length_filter_le order_trans by blast
  show ?thesis unfolding allow_emoji_request_def Let_def using u [OF l] by (auto intro!: f u)
qed

lemma send_response_parts [simp]:
  "rx_emojis (send_emoji_response n peer h img name x) = rx_emojis x" "rx_rows (send_emoji_response n peer h img name x) = rx_rows x"
  "rx_flushed (send_emoji_response n peer h img name x) = rx_flushed x"
  "rx_times (send_emoji_response n peer h img name x) = rx_times x"
  "rx_wanted (send_emoji_response n peer h img name x) = rx_wanted x"
  by (simp_all add: send_emoji_response_def Let_def split: sum.splits option.splits prod.splits)

lemma rx_inv_answer [inv_intros]: "rx_inv n x \<Longrightarrow> rx_inv n (handle_emoji_request n now db subs peer fs x)"
  using allow_times_ok [of "rx_times x" now peer]
  by (auto simp: handle_emoji_request_def Let_def rx_inv_def split: prod.splits bool.splits option.splits)

lemma rx_inv_response [inv_intros]: "rx_inv n x \<Longrightarrow> rx_inv n (handle_emoji_response (nt_out n) now fs x)"
  unfolding handle_emoji_response_def Let_def
  by (auto simp: rx_inv_def wanted_delete emoji_ok_def intro!: library_insert split: option.splits)

lemma rx_inv_message [inv_intros]: "rx_inv n x \<Longrightarrow> rx_inv n (on_reaction_message n now db subs l x)"
  unfolding on_reaction_message_def Let_def
  by (cases "control_type (ot_decode (nt_out n)) (lx_fields l)")
     (simp_all add: rx_inv_content rx_inv_handle rx_inv_answer rx_inv_response)

lemma rx_inv_rows_insert: "rx_inv n x \<Longrightarrow> rx_inv n (x\<lparr>rx_rows := insert_reaction r (rx_rows x)\<rparr>)"
  by (rule rx_inv_rows [OF _ reactions_insert]) (simp_all add: rx_inv_def)

lemma rx_inv_rows_remove: "rx_inv n x \<Longrightarrow> rx_inv n (x\<lparr>rx_rows := remove_reaction mid emoji h (rx_rows x)\<rparr>)"
  by (rule rx_inv_rows [OF _ reactions_remove]) (simp_all add: rx_inv_def)

lemma rx_inv_import [inv_intros]: "rx_inv n x \<Longrightarrow> rx_inv n (fst (import_emoji (nt_out n) now name img x))"
  by (auto simp: import_emoji_def Let_def rx_inv_def emoji_ok_def intro!: library_insert)

lemma rx_inv_step: "rx_inv n x \<Longrightarrow> rx_inv n (reaction_step n e x)"
  by (cases e)
     (simp_all add: add_reaction_def withdraw_reaction_def rx_inv_message rx_inv_broadcast rx_inv_rows_insert rx_inv_rows_remove
       rx_inv_import rx_inv_content rx_inv_retry rx_inv_request, simp add: rx_inv_def library_delete)

interpretation reacting: machine "new_reactions [] []" "reaction_step n" "rx_inv n" for n
  by unfold_locales
     (simp_all add: rx_inv_step, simp add: rx_inv_def new_reactions_def library_ok_def reactions_ok_def wanted_ok_def flushed_ok_def
       times_ok_def unique_key_def)

text \<open>C22. Whatever peers send and the user does, every image in the emoji library hashes to its key, is at
  most 64 KiB and decodes sanely, no key and no reaction occurs twice, no reaction has a time that is
  no number, and at most 256 requests and 256 flushed peers are remembered, with at most 12 request
  times for each requester. How many requesters are remembered at a time is not bounded (\<open>requesters_unbounded\<close>).\<close>

theorem emoji_library_sound:
  "\<forall>n es. let x = fold (reaction_step n) es (new_reactions [] []) in
     (\<forall>r. r \<in> set (rx_emojis x) \<longrightarrow> em_hash r = compute_emoji_hash (ot_sha (nt_out n)) (em_image r)
         \<and> int (length (em_image r)) \<le> MAX_EMOJI_BYTES \<and> inbound_image_is_sane (ot_open (nt_out n)) (em_image r))
     \<and> distinct (map em_hash (rx_emojis x)) \<and> distinct (map reaction_key (rx_rows x))
     \<and> (\<forall>r. r \<in> set (rx_rows x) \<longrightarrow> rc_at r \<noteq> NotANumber)
     \<and> length (rx_wanted x) \<le> MAX_PENDING_EMOJI_REQUESTS \<and> length (rx_flushed x) \<le> MAX_TRACKED_FLUSH_PEERS
     \<and> (\<forall>h ts. (h, ts) \<in> set (rx_times x) \<longrightarrow> length ts \<le> EMOJI_REQUEST_BURST)"
  unfolding Let_def
proof (intro allI)
  fix n es
  have "rx_inv n (fold (reaction_step n) es (new_reactions [] []))" by (rule reacting.inv_run)
  then show "(\<forall>r. r \<in> set (rx_emojis (fold (reaction_step n) es (new_reactions [] []))) \<longrightarrow>
         em_hash r = compute_emoji_hash (ot_sha (nt_out n)) (em_image r)
         \<and> int (length (em_image r)) \<le> MAX_EMOJI_BYTES \<and> inbound_image_is_sane (ot_open (nt_out n)) (em_image r))
     \<and> distinct (map em_hash (rx_emojis (fold (reaction_step n) es (new_reactions [] []))))
     \<and> distinct (map reaction_key (rx_rows (fold (reaction_step n) es (new_reactions [] []))))
     \<and> (\<forall>r. r \<in> set (rx_rows (fold (reaction_step n) es (new_reactions [] []))) \<longrightarrow> rc_at r \<noteq> NotANumber)
     \<and> length (rx_wanted (fold (reaction_step n) es (new_reactions [] []))) \<le> MAX_PENDING_EMOJI_REQUESTS
     \<and> length (rx_flushed (fold (reaction_step n) es (new_reactions [] []))) \<le> MAX_TRACKED_FLUSH_PEERS
     \<and> (\<forall>h ts. (h, ts) \<in> set (rx_times (fold (reaction_step n) es (new_reactions [] []))) \<longrightarrow> length ts \<le> EMOJI_REQUEST_BURST)"
    unfolding rx_inv_def library_ok_def emoji_ok_def reactions_ok_def wanted_ok_def flushed_ok_def times_ok_def unique_key_def list_all_iff
    by blast
qed

section \<open>Authority\<close>

lemma content_rows [simp]: "rx_rows (request_missing_from_content n now db subs sender content x) = rx_rows x"
  "rx_emojis (request_missing_from_content n now db subs sender content x) = rx_emojis x"
proof -
  have "rx_rows (request_tokens n now sender i ts x) = rx_rows x \<and> rx_emojis (request_tokens n now sender i ts x) = rx_emojis x" for i ts
    by (induction n now sender i ts x rule: request_tokens.induct) auto
  then show "rx_rows (request_missing_from_content n now db subs sender content x) = rx_rows x"
    "rx_emojis (request_missing_from_content n now db subs sender content x) = rx_emojis x"
    by (simp_all add: request_missing_from_content_def)
qed

lemma answer_rows [simp]: "rx_rows (handle_emoji_request n now db subs peer fs x) = rx_rows x"
  "rx_emojis (handle_emoji_request n now db subs peer fs x) = rx_emojis x"
  by (simp_all add: handle_emoji_request_def Let_def split: prod.splits bool.splits option.splits)

lemma response_rows [simp]: "rx_rows (handle_emoji_response k now fs x) = rx_rows x"
  by (simp add: handle_emoji_response_def Let_def split: option.splits)

lemma handle_reaction_emojis [simp]: "rx_emojis (handle_reaction n now db sender fs x) = rx_emojis x"
  by (simp add: handle_reaction_def Let_def split: option.splits)

lemma delete_unique:
  assumes "unique_key key rows"
  shows "delete_where (\<lambda>r. key r = k) rows = rows
    \<or> (\<exists>pre r post. rows = pre @ r # post \<and> delete_where (\<lambda>r. key r = k) rows = pre @ post \<and> key r = k)"
  using assms
proof (induction rows)
  case (Cons r rows)
  show ?case
  proof (cases "key r = k")
    case True
    then have "\<forall>r \<in> set rows. key r \<noteq> k" using Cons.prems by (auto simp: unique_key_def rev_image_eqI)
    then have "delete_where (\<lambda>r. key r = k) rows = rows" by (simp add: delete_where_def)
    then show ?thesis using True by (intro disjI2 exI [of _ "[]"] exI [of _ r] exI [of _ rows]) (simp add: delete_where_def)
  next
    case False
    then have d: "delete_where (\<lambda>r. key r = k) (r # rows) = r # delete_where (\<lambda>r. key r = k) rows" by (simp add: delete_where_def)
    have "unique_key key rows" using Cons.prems by (simp add: unique_key_def)
    from Cons.IH [OF this] consider "delete_where (\<lambda>r. key r = k) rows = rows"
      | pre r' post where "rows = pre @ r' # post" "delete_where (\<lambda>r. key r = k) rows = pre @ post" "key r' = k" by blast
    then show ?thesis
    proof cases
      case 2
      then show ?thesis unfolding d by (intro disjI2 exI [of _ "r # pre"] exI [of _ r'] exI [of _ post]) simp
    qed (simp add: d)
  qed
qed (simp add: delete_where_def)

text \<open>C20. A delivered message changes the reactions only where it is a reaction message, for its authenticated sender
  and by one row. It names a channel which we subscribe to or hold as a conversation and where the sender may
  react; where it takes a reaction back, exactly one row goes, which is the sender's own, for the message and emoji named
  (whichever channel that reaction was stored under), and otherwise exactly one row comes, the sender's, in
  the channel named. No key of the table occurs twice before (as C22 shows of every history).\<close>

theorem reaction_needs_permission:
  assumes "distinct (map reaction_key (rx_rows x))"
    and "rx_rows (on_reaction_message n now db subs l x) \<noteq> rx_rows x"
  shows "\<exists>ch. let k = nt_out n; fs = lx_fields l; who = lx_sender k l;
      mid = message_id_from_wire (ot_decode k) (field_get fs F_REACTION_MSG_ID); emoji = reaction_key_from_fields k fs
    in control_type (ot_decode k) fs = Some MT_REACTION \<and> channel_text k fs = Some ch \<and> who \<noteq> []
       \<and> may_react n db ch who = Inr True
       \<and> (is_subscribed (db_store db) ch \<or> nt_wired n \<and> is_dm (fm_convs (db_friends db)) ch)
       \<and> (if truthy (get_or (PBool False) fs (PInt F_REACTION_REMOVE))
          then \<exists>pre r post. rx_rows x = pre @ r # post \<and> rx_rows (on_reaction_message n now db subs l x) = pre @ post
                 \<and> rc_message r = mid \<and> rc_emoji r = emoji \<and> rc_reactor r = who
          else rx_rows (on_reaction_message n now db subs l x) = rx_rows x
                 @ [\<lparr>rc_message = mid, rc_emoji = emoji, rc_reactor = who, rc_channel = ch, rc_at = Finite now\<rparr>])"
proof -
  let ?k = "nt_out n" and ?fs = "lx_fields l" and ?who = "lx_sender (nt_out n) l"
  let ?mid = "message_id_from_wire (ot_decode ?k) (field_get ?fs F_REACTION_MSG_ID)" and ?emoji = "reaction_key_from_fields ?k ?fs"
  have mt: "control_type (ot_decode ?k) ?fs = Some MT_REACTION"
      and e: "on_reaction_message n now db subs l x = handle_reaction n now db ?who ?fs x"
    using assms(2) unfolding on_reaction_message_def Let_def
    by (cases "control_type (ot_decode ?k) ?fs"; simp split: if_splits)+
  obtain ch where ch: "channel_text ?k ?fs = Some ch"
    using assms(2) unfolding e by (cases "channel_text ?k ?fs") (simp_all add: handle_reaction_def Let_def split: if_splits)
  have gates: "?who \<noteq> []" "may_react n db ch ?who = Inr True"
      "is_subscribed (db_store db) ch \<or> nt_wired n \<and> is_dm (fm_convs (db_friends db)) ch"
    using assms(2) unfolding e by (simp_all add: handle_reaction_def Let_def ch split: if_splits)
  show ?thesis
  proof (cases "truthy (get_or (PBool False) ?fs (PInt F_REACTION_REMOVE))")
    case True
    have r: "rx_rows (handle_reaction n now db ?who ?fs x) = delete_where (\<lambda>r. reaction_key r = (?mid, ?emoji, ?who)) (rx_rows x)"
      using assms(2) True unfolding e by (simp add: handle_reaction_def Let_def ch remove_reaction_def split: if_splits)
    then obtain pre r post where "rx_rows x = pre @ r # post" "rx_rows (handle_reaction n now db ?who ?fs x) = pre @ post"
        "reaction_key r = (?mid, ?emoji, ?who)"
      using delete_unique [of reaction_key "rx_rows x" "(?mid, ?emoji, ?who)"] assms unfolding e by (auto simp: unique_key_def)
    then show ?thesis using True mt ch gates unfolding e Let_def
      by (intro exI [of _ ch]) (auto simp: reaction_key_def)
  next
    case False
    then have "rx_rows (handle_reaction n now db ?who ?fs x) = rx_rows x
                 @ [\<lparr>rc_message = ?mid, rc_emoji = ?emoji, rc_reactor = ?who, rc_channel = ch, rc_at = Finite now\<rparr>]"
      using assms(2) unfolding e
      by (simp add: handle_reaction_def Let_def ch insert_reaction_def insert_ignore_def split: if_splits)
    then show ?thesis using False mt ch gates unfolding e Let_def by (intro exI [of _ ch]) simp
  qed
qed

text \<open>A conversation with a friend who reacts.\<close>

definition reacting_db :: message_db where
  "reacting_db =
     \<lparr>db_store = empty_store, db_rows = [], db_keys = [],
      db_friends = (new_friends [] [] []
        [\<lparr>cv_hash = ''0a'', cv_peer = replicate 32 (CHR ''7''), cv_created = 0, cv_read = 0, cv_trenchchat = True\<rparr>])
        \<lparr>fm_hashes := {replicate 32 (CHR ''7'')}\<rparr>\<rparr>"

definition reaction_letter :: lxm where
  "reaction_letter =
     \<lparr>lx_fields = [(PInt F_MSG_TYPE, PStr MT_REACTION), (PInt F_CHANNEL_HASH, PStr ''0a''), (PInt F_REACTION_MSG_ID, PStr ''m''),
        (PInt F_REACTION_UNICODE, PStr ''+'')],
      lx_content = [], lx_timestamp = PNone, lx_ours = True, lx_source = replicate 16 0x77\<rparr>"

definition friend_reaction :: reaction_row where
  "friend_reaction = \<lparr>rc_message = ''m'', rc_emoji = ''+'', rc_reactor = replicate 32 (CHR ''7''), rc_channel = ''0a'', rc_at = Finite 5\<rparr>"

theorem reaction_needs_permission_witness:
  "rx_rows (on_reaction_message list_net 5 reacting_db [] reaction_letter (new_reactions [] [])) = [friend_reaction]
   \<and> may_react list_net reacting_db ''0a'' (replicate 32 (CHR ''7'')) = Inr True"
proof -
  let ?x = "new_reactions [] []"
  have rows: "rx_rows (on_reaction_message list_net 5 reacting_db [] reaction_letter ?x) = [friend_reaction]" by code_simp
  have "distinct (map reaction_key (rx_rows ?x))" "rx_rows (on_reaction_message list_net 5 reacting_db [] reaction_letter ?x) \<noteq> rx_rows ?x"
    unfolding rows by (simp_all add: new_reactions_def)
  moreover have "channel_text (nt_out list_net) (lx_fields reaction_letter) = Some ''0a''"
    "lx_sender (nt_out list_net) reaction_letter = replicate 32 (CHR ''7'')" by code_simp+
  ultimately show ?thesis using reaction_needs_permission [of ?x list_net 5 reacting_db "[]" reaction_letter] rows
    by (auto simp: Let_def)
qed

section \<open>An image answers one request\<close>

lemma insert_emoji_new: "r \<in> set (insert_emoji h name img now es) \<Longrightarrow> r \<notin> set es \<Longrightarrow>
    r = \<lparr>em_hash = h, em_name = name, em_image = img, em_added = now\<rparr>"
  by (auto simp: insert_emoji_def insert_ignore_def split: if_splits)

lemma response_emoji:
  assumes "r \<in> set (rx_emojis (handle_emoji_response k now fs x))" "r \<notin> set (rx_emojis x)"
  shows "map_of (rx_wanted x) (em_hash r) \<noteq> None \<and> map_of (rx_wanted (handle_emoji_response k now fs x)) (em_hash r) = None
    \<and> em_hash r = compute_emoji_hash (ot_sha k) (em_image r)"
proof -
  let ?h = "hash_or_str k (get_or (PBytes []) fs (PInt F_EMOJI_HASH))"
  have ne: "rx_emojis (handle_emoji_response k now fs x) \<noteq> rx_emojis x" using assms by metis
  then obtain img where img: "emoji_data_value (get_or (PBytes []) fs (PInt F_EMOJI_DATA)) = Some img"
    by (cases "emoji_data_value (get_or (PBytes []) fs (PInt F_EMOJI_DATA))") (simp_all add: handle_emoji_response_def Let_def)
  have ok: "compute_emoji_hash (ot_sha k) img = ?h" "map_of (rx_wanted x) ?h \<noteq> None"
    "\<exists>name. rx_emojis (handle_emoji_response k now fs x) = insert_emoji ?h name img now (rx_emojis x)"
    "rx_wanted (handle_emoji_response k now fs x) = AList.delete ?h (rx_wanted x)"
    using ne img by (auto simp: handle_emoji_response_def Let_def split: if_splits)
  then obtain name where "rx_emojis (handle_emoji_response k now fs x) = insert_emoji ?h name img now (rx_emojis x)" by blast
  then have "r = \<lparr>em_hash = ?h, em_name = name, em_image = img, em_added = now\<rparr>"
    using assms insert_emoji_new [of r ?h name img now "rx_emojis x"] by simp
  then show ?thesis using ok by simp
qed

text \<open>C21. A delivered message puts an image into the emoji library only under the hash of the image, while a
  request of ours for that hash is out, and ends that request.\<close>

theorem emoji_answers_a_request:
  "\<forall>n now db subs l x r.
     r \<in> set (rx_emojis (on_reaction_message n now db subs l x)) \<longrightarrow> r \<notin> set (rx_emojis x) \<longrightarrow>
       em_hash r = compute_emoji_hash (ot_sha (nt_out n)) (em_image r) \<and> map_of (rx_wanted x) (em_hash r) \<noteq> None
       \<and> map_of (rx_wanted (on_reaction_message n now db subs l x)) (em_hash r) = None"
proof (intro allI impI)
  fix n now db subs l x r
  assume r: "r \<in> set (rx_emojis (on_reaction_message n now db subs l x))" "r \<notin> set (rx_emojis x)"
  then have "rx_emojis (on_reaction_message n now db subs l x) \<noteq> rx_emojis x" by metis
  then have "on_reaction_message n now db subs l x = handle_emoji_response (nt_out n) now (lx_fields l) x"
    unfolding on_reaction_message_def Let_def
    by (cases "control_type (ot_decode (nt_out n)) (lx_fields l)") (auto split: if_splits)
  then show "em_hash r = compute_emoji_hash (ot_sha (nt_out n)) (em_image r) \<and> map_of (rx_wanted x) (em_hash r) \<noteq> None
       \<and> map_of (rx_wanted (on_reaction_message n now db subs l x)) (em_hash r) = None"
    using response_emoji [of r "nt_out n" now "lx_fields l" x] r by metis
qed

text \<open>The hash of every image is \<open>01\<close> here, and a GIF whose header cannot be read passes.\<close>

definition emoji_letter :: lxm where
  "emoji_letter =
     \<lparr>lx_fields = [(PInt F_MSG_TYPE, PStr MT_EMOJI_RESPONSE), (PInt F_EMOJI_HASH, PBytes [1]), (PInt F_EMOJI_DATA, PBytes (utf8 ''GIF89a''))],
      lx_content = [], lx_timestamp = PNone, lx_ours = True, lx_source = [7]\<rparr>"

definition asking :: reactions where
  "asking = (new_reactions [] [])\<lparr>rx_wanted := [(''01'', 0)]\<rparr>"

theorem emoji_answers_a_request_witness:
  "\<exists>r. rx_emojis (on_reaction_message list_net 5 reacting_db [] emoji_letter asking) = [r]
     \<and> map_of (rx_wanted (on_reaction_message list_net 5 reacting_db [] emoji_letter asking)) (em_hash r) = None"
proof -
  have "(case rx_emojis (on_reaction_message list_net 5 reacting_db [] emoji_letter asking) of [r] \<Rightarrow> True | _ \<Rightarrow> False)"
    by code_simp
  then obtain r where r: "rx_emojis (on_reaction_message list_net 5 reacting_db [] emoji_letter asking) = [r]"
    by (auto split: list.splits)
  moreover have "r \<notin> set (rx_emojis asking)" by (simp add: asking_def new_reactions_def)
  ultimately show ?thesis
    using emoji_answers_a_request [rule_format, of r list_net 5 reacting_db "[]" emoji_letter asking]
    by (metis list.set_intros(1))
qed

text \<open>The emoji is asked for, and comes.\<close>

definition emoji_history :: "reaction_event list" where
  "emoji_history = [AskFor 0 ''07'' ''01'', ReactionMessage 5 reacting_db [] emoji_letter, ReactionMessage 5 reacting_db [] reaction_letter]"

lemma emoji_example:
  "let x = fold (reaction_step list_net) emoji_history (new_reactions [] [])
   in map em_hash (rx_emojis x) = [''01''] \<and> length (rx_rows x) = 1"
  by code_simp

theorem emoji_library_sound_witness:
  "\<exists>r. rx_emojis (fold (reaction_step list_net) emoji_history (new_reactions [] [])) = [r]
     \<and> em_hash r = compute_emoji_hash (ot_sha (nt_out list_net)) (em_image r)"
proof -
  obtain r where r: "rx_emojis (fold (reaction_step list_net) emoji_history (new_reactions [] [])) = [r]"
    using emoji_example by (auto simp: Let_def map_eq_Cons_conv)
  then have "r \<in> set (rx_emojis (fold (reaction_step list_net) emoji_history (new_reactions [] [])))" by simp
  with emoji_library_sound [rule_format, of list_net emoji_history, unfolded Let_def] r show ?thesis by blast
qed

text \<open>The table of requesters has no bound: however many ask within one window, each has an entry. Past its ceiling
  only the idle ones are dropped.\<close>

lemma requesters_unbounded:
  assumes "distinct hs"
  shows "length (fold (\<lambda>h d. fst (allow_emoji_request now h d)) hs []) = length hs"
proof -
  have "length (fold (\<lambda>h d. fst (allow_emoji_request now h d)) hs d) = length d + length hs"
    if "distinct hs" "distinct (map fst d)" "fst ` set d \<inter> set hs = {}" "\<forall>e \<in> set d. snd e = [now]" for d
    using that
  proof (induction hs arbitrary: d)
    case (Cons h hs)
    have new: "map_of d h = None" using Cons.prems(3) by (auto simp: map_of_eq_None_iff)
    then have upd: "AList.update h [now] d = d @ [(h, [now])]"
      by (induction d) (auto split: if_splits)
    have keep: "filter (\<lambda>(h, ts). \<not> (ts = [] \<or> now - last ts > EMOJI_REQUEST_WINDOW_SECS)) (d @ [(h, [now])]) = d @ [(h, [now])]"
      using Cons.prems(4) by (auto simp: filter_id_conv EMOJI_REQUEST_WINDOW_SECS_def)
    have "fst (allow_emoji_request now h d) = d @ [(h, [now])]"
      using new keep upd by (simp add: allow_emoji_request_def Let_def get_or_def EMOJI_REQUEST_BURST_def)
    moreover have "length (fold (\<lambda>h d. fst (allow_emoji_request now h d)) hs (d @ [(h, [now])])) = length (d @ [(h, [now])]) + length hs"
      by (rule Cons.IH) (use Cons.prems in auto)
    ultimately show ?case by simp
  qed simp
  from this [of "[]"] assms show ?thesis by simp
qed

section \<open>Pace\<close>

text \<open>The times at which a requester was let through, over a sequence of requests from anybody.\<close>

fun let_through :: "hexid \<Rightarrow> (secs \<times> hexid) list \<Rightarrow> (hexid \<times> secs list) list \<Rightarrow> secs list" where
  "let_through peer [] d = []"
| "let_through peer ((now, h) # calls) d =
     (let (d', ok) = allow_emoji_request now h d
      in (if ok \<and> h = peer then [now] else []) @ let_through peer calls d')"

abbreviation recent :: "secs \<Rightarrow> secs list \<Rightarrow> secs list" where
  "recent now ts \<equiv> filter (\<lambda>t. now - t < EMOJI_REQUEST_WINDOW_SECS) ts"

definition in_window :: "secs \<Rightarrow> secs list \<Rightarrow> secs list" where
  "in_window t ts = filter (\<lambda>s. t \<le> s \<and> s < t + EMOJI_REQUEST_WINDOW_SECS) ts"

text \<open>What is remembered of a requester after the times \<open>hist\<close>.\<close>

definition remembers :: "secs \<Rightarrow> secs list \<Rightarrow> secs list \<Rightarrow> bool" where
  "remembers now hist ts \<longleftrightarrow> sorted ts \<and> recent now ts = recent now hist
     \<and> (\<forall>s\<in>set hist. s \<le> now) \<and> (\<forall>s\<in>set ts. s \<le> now) \<and> (\<forall>t. length (in_window t hist) \<le> EMOJI_REQUEST_BURST)"

lemma recent_later: "now \<le> now' \<Longrightarrow> recent now' (recent now ts) = recent now' ts"
  by (simp add: filter_filter) (rule filter_cong; auto)

lemma remembers_later: "remembers now hist ts \<Longrightarrow> now \<le> now' \<Longrightarrow> remembers now' hist ts"
  unfolding remembers_def by (metis order_trans recent_later)

lemma sorted_recent: "sorted ts \<Longrightarrow> sorted (recent now ts)"
  by (rule sorted_wrt_filter)

lemma remembers_recent: "remembers now hist ts \<Longrightarrow> remembers now hist (recent now ts)"
  using sorted_recent [of ts now] by (auto simp: remembers_def)

lemma remembers_add:
  assumes r: "remembers now hist ts" and few: "length (recent now ts) < EMOJI_REQUEST_BURST"
  shows "remembers now (hist @ [now]) (recent now ts @ [now])"
proof -
  have "length (in_window t (hist @ [now])) \<le> EMOJI_REQUEST_BURST" for t
  proof (cases "t \<le> now \<and> now < t + EMOJI_REQUEST_WINDOW_SECS")
    case True
    have "length (in_window t hist) \<le> length (recent now hist)"
    proof -
      have "in_window t hist = filter (\<lambda>s. t \<le> s \<and> s < t + EMOJI_REQUEST_WINDOW_SECS) (recent now hist)"
        unfolding in_window_def filter_filter by (rule filter_cong) (use True in auto)
      then show ?thesis by (metis length_filter_le)
    qed
    then have "length (in_window t hist) < EMOJI_REQUEST_BURST" using r few by (simp add: remembers_def)
    then show ?thesis by (simp add: in_window_def)
  next
    case False
    then show ?thesis using r by (auto simp: in_window_def remembers_def)
  qed
  then show ?thesis using r sorted_recent [of ts now] by (auto simp: remembers_def sorted_append)
qed

lemma remembers_stale:
  assumes r: "remembers now hist ts" and stale: "ts = [] \<or> now - last ts > EMOJI_REQUEST_WINDOW_SECS"
  shows "remembers now hist []"
proof -
  have "recent now ts = []"
  proof (rule ccontr)
    assume "recent now ts \<noteq> []"
    then obtain s where s: "s \<in> set ts" "now - s < EMOJI_REQUEST_WINDOW_SECS" by (auto simp: filter_empty_conv)
    then have "ts \<noteq> []" by auto
    then have "ts = butlast ts @ [last ts]" by simp
    moreover have "sorted ts" using r by (simp add: remembers_def)
    ultimately have "\<forall>y\<in>set (butlast ts). y \<le> last ts" by (metis sorted_append list.set_intros(1))
    then have "s \<le> last ts" using s(1) \<open>ts = butlast ts @ [last ts]\<close> by (metis Un_iff empty_iff empty_set order_refl set_ConsD set_append)
    then show False using stale s \<open>ts \<noteq> []\<close> by simp
  qed
  then show ?thesis using r by (simp add: remembers_def)
qed

lemma get_or_filter:
  "distinct (map fst d) \<Longrightarrow> get_or [] (filter (\<lambda>(h, ts). P ts) d) peer = (if P (get_or [] d peer) then get_or [] d peer else [])"
proof (induction d)
  case (Cons e d)
  obtain h ts where e: "e = (h, ts)" by (cases e)
  show ?case
  proof (cases "h = peer")
    case True
    then have "map_of d peer = None" using Cons.prems e by (auto simp: map_of_eq_None_iff rev_image_eqI)
    then have "map_of (filter (\<lambda>(h, ts). P ts) d) peer = None" by (auto simp: map_of_eq_None_iff)
    then show ?thesis using True e by (simp add: get_or_def)
  next
    case False
    then show ?thesis using Cons e by (simp add: get_or_def)
  qed
qed (simp add: get_or_def)

lemma allow_remembers:
  assumes d: "distinct (map fst d)" and r: "remembers now hist (get_or [] d peer)"
    and a: "allow_emoji_request now h d = (d', ok)"
  shows "remembers now (hist @ (if ok \<and> h = peer then [now] else [])) (get_or [] d' peer) \<and> distinct (map fst d')"
proof (cases "length (recent now (get_or [] d h)) \<ge> EMOJI_REQUEST_BURST")
  case True
  then have "d' = AList.update h (recent now (get_or [] d h)) d" "\<not> ok" using a by (simp_all add: allow_emoji_request_def Let_def)
  then show ?thesis using r d remembers_recent [OF r] by (auto simp: distinct_keys_update)
next
  case False
  define e where "e = AList.update h (recent now (get_or [] d h) @ [now]) d"
  have e: "distinct (map fst e)" "remembers now (hist @ (if h = peer then [now] else [])) (get_or [] e peer)"
    using d r False remembers_add [OF r] by (auto simp: e_def distinct_keys_update)
  have "ok" "d' = e \<or> d' = filter (\<lambda>(h, ts). \<not> (ts = [] \<or> now - last ts > EMOJI_REQUEST_WINDOW_SECS)) e"
    using a False by (auto simp: allow_emoji_request_def Let_def e_def split: if_splits)
  then show ?thesis
    using e remembers_stale [OF e(2)] get_or_filter [OF e(1), of "\<lambda>ts. \<not> (ts = [] \<or> now - last ts > EMOJI_REQUEST_WINDOW_SECS)" peer]
    by (auto simp: distinct_keys_filter)
qed

lemma let_through_paced:
  "sorted (map fst calls) \<Longrightarrow> \<forall>c\<in>set calls. now \<le> fst c \<Longrightarrow> distinct (map fst d) \<Longrightarrow> remembers now hist (get_or [] d peer) \<Longrightarrow>
    length (in_window t (hist @ let_through peer calls d)) \<le> EMOJI_REQUEST_BURST"
proof (induction calls arbitrary: now d hist)
  case Nil
  then show ?case by (simp add: remembers_def)
next
  case (Cons c calls)
  obtain now' h where c: "c = (now', h)" by (cases c)
  obtain d' ok where a: "allow_emoji_request now' h d = (d', ok)" by (cases "allow_emoji_request now' h d")
  have "remembers now' hist (get_or [] d peer)" using Cons.prems c by (intro remembers_later [OF Cons.prems(4)]) simp
  from allow_remembers [OF Cons.prems(3) this a]
  have "remembers now' (hist @ (if ok \<and> h = peer then [now'] else [])) (get_or [] d' peer)" "distinct (map fst d')" by blast+
  from Cons.IH [OF _ _ this(2,1)] show ?case using Cons.prems c a by simp
qed

text \<open>However requests for emoji arrive, from whomever, a requester is let through at most 12 times in any
  60 seconds, also while the table of requesters is being cut back.\<close>

theorem emoji_replies_paced:
  "\<forall>peer calls t. sorted (map fst calls) \<longrightarrow> length (in_window t (let_through peer calls [])) \<le> EMOJI_REQUEST_BURST"
proof (intro allI impI)
  fix peer calls t
  assume s: "sorted (map fst (calls :: (secs \<times> hexid) list))"
  have "\<forall>c\<in>set calls. fst (hd calls) \<le> fst c" using s by (cases calls) auto
  then show "length (in_window t (let_through peer calls [])) \<le> EMOJI_REQUEST_BURST"
    using let_through_paced [OF s, of "fst (hd calls)" "[]" "[]" peer t] by (simp add: remembers_def in_window_def get_or_def)
qed

theorem emoji_replies_paced_witness:
  "length (in_window 0 (let_through ''p'' (map (\<lambda>i. (of_nat i, ''p'')) [0..<14]) [])) \<le> 12"
  using emoji_replies_paced [rule_format, of "map (\<lambda>i. (of_nat i, ''p'')) [0..<14]" 0 "''p''"]
  by (simp add: EMOJI_REQUEST_BURST_def comp_def upt_rec numeral_eq_Suc del: let_through.simps)

end
