(* ===== verification/Sync_Relay.thy ===== *)
theory Sync_Relay
  imports Sync_Safety
begin

text \<open>
  What sync sends out: an answer goes only to a peer who may take part in the channel, and holds only
  rows of that channel which that peer may see.
\<close>

section \<open>Answers on their way\<close>

text \<open>The answers handed to the router and those held for peers whose identity is not known yet.\<close>

definition outgoing :: "link \<Rightarrow> (hexid \<times> fields) set" where
  "outgoing l = set (lk_sent l) \<union> {(dest, fs). \<exists>es t. (dest, es) \<in> set (rq_queued (lk_retry l)) \<and> (t, fs) \<in> set es}"

definition answers_in :: "link \<Rightarrow> (hexid \<times> fields) set" where
  "answers_in l = {x \<in> outgoing l. field_get (snd x) F_MSG_TYPE = PStr MT_SYNC_RESPONSE}"

lemma get_or_in: "e \<in> set (get_or [] d k) \<Longrightarrow> \<exists>es. (k, es) \<in> set d \<and> e \<in> set es"
  by (cases "map_of d k") (auto simp: get_or_def dest: map_of_SomeD)

lemma set_update: "set (AList.update k v d) \<subseteq> insert (k, v) (set d)"
  by (induction d) auto

lemma pruned: "(dest, es) \<in> set (rq_queued (rq_prune now q)) \<Longrightarrow> \<exists>es'. (dest, es') \<in> set (rq_queued q) \<and> set es \<subseteq> set es'"
  using drop_oldest_set [of "drop_expired (rq_ttl q) now (rq_queued q)"]
  by (fastforce simp: rq_prune_def drop_expired_def)

lemma queued_more:
  assumes "(d, es) \<in> set (rq_queued (rq_queue now dest fs q))" "(t, f) \<in> set es"
  shows "(d, f) = (dest, fs) \<or> (\<exists>es t. (d, es) \<in> set (rq_queued q) \<and> (t, f) \<in> set es)"
proof -
  let ?q = "rq_prune now q"
  let ?w = "get_or [] (rq_queued ?q) dest"
  let ?w' = "if length ?w \<ge> MAX_QUEUED_PER_PEER then tl ?w else ?w"
  have "(d, es) \<in> insert (dest, ?w' @ [(now, fs)]) (set (rq_queued ?q))"
    using assms(1) set_update [of dest "?w' @ [(now, fs)]" "rq_queued ?q"] by (auto simp: rq_queue_def Let_def split: if_splits)
  moreover have "set ?w' \<subseteq> set ?w" by (cases ?w) auto
  ultimately have "(d, f) = (dest, fs) \<or> (\<exists>es. (d, es) \<in> set (rq_queued ?q) \<and> (t, f) \<in> set es)"
    using assms(2) get_or_in [of "(t, f)" "rq_queued ?q" dest] by auto
  then show ?thesis using pruned [of d _ now q] by blast
qed

lemma outgoing_send: "outgoing (fst (send_link n now exempt dest fs l)) \<subseteq> insert (dest, fs) (outgoing l)"
proof -
  let ?l = "fst (send_link n now exempt dest fs l)"
  have "set (lk_sent ?l) \<subseteq> insert (dest, fs) (set (lk_sent l))" by (auto simp: send_link_sent)
  moreover have "(d, f) \<in> insert (dest, fs) (outgoing l)"
    if "(d, es) \<in> set (rq_queued (lk_retry ?l))" "(t, f) \<in> set es" for d f es t
    using send_link_queue [of n now exempt dest fs l]
  proof
    assume "lk_retry ?l = lk_retry l"
    then show ?thesis using that by (auto simp: outgoing_def)
  next
    assume "lk_retry ?l = rq_queue now dest fs (lk_retry l)"
    then show ?thesis using queued_more [of d es now dest fs "lk_retry l" t f] that by (auto simp: outgoing_def)
  qed
  moreover have "set (lk_sent l) \<subseteq> outgoing l" by (simp add: outgoing_def)
  ultimately show ?thesis unfolding outgoing_def [of ?l] by blast
qed

lemma send_link_answers:
  "answers_in (sy_link (fst (sync_send n now dest fs s)))
     \<subseteq> (if field_get fs F_MSG_TYPE = PStr MT_SYNC_RESPONSE then insert (dest, fs) else id) (answers_in (sy_link s))"
  using outgoing_send [of n now "\<lambda>fs. field_get fs F_MSG_TYPE \<in> set RETRY_EXEMPT_TYPES" dest fs "sy_link s"]
  by (auto simp: sync_send_def answers_in_def split: prod.splits)

section \<open>Asking sends no answer\<close>

definition silent :: "sync \<Rightarrow> sync \<Rightarrow> bool" where
  "silent s s' \<longleftrightarrow> answers_in (sy_link s') \<subseteq> answers_in (sy_link s)"

lemma silent_trans: "silent s s' \<Longrightarrow> silent s' s'' \<Longrightarrow> silent s s''"
  and silent_same [simp]: "sy_link s' = sy_link s \<Longrightarrow> silent s s'"
  by (auto simp: silent_def)

lemma silent_each:
  assumes "\<And>x s. silent s (fst (f x s))"
  shows "silent s (fst (each f xs s))"
  by (rule each_keeps [where P = "silent s"]) (use assms silent_trans in blast, simp)

lemma request_type: "request_fields n ch since c q = Some fs \<Longrightarrow> field_get fs F_MSG_TYPE \<noteq> PStr MT_SYNC_RESPONSE"
  by (auto simp: request_fields_def control_fields_def field_get_def get_or_def)

lemma silent_request: "silent s (fst (send_sync_request n now dest ch since continuation q ladder s))"
proof -
  let ?q = "question_asked n now (sy_rows s) ch since q ladder"
  obtain s1 rid where b: "begin_request n now dest ch since continuation s = (s1, rid)" by force
  have s1: "sy_link s1 = sy_link s" using b by (auto simp: begin_request_def split: prod.splits)
  show ?thesis
  proof (cases "request_fields n ch since continuation ?q")
    case None
    then show ?thesis using s1 by (simp add: send_sync_request_def b)
  next
    case (Some fs)
    let ?s = "if continuation then s1 else s1\<lparr>sy_deferred := removeAll (ch, dest) (sy_deferred s1)\<rparr>"
    obtain s2 r where q: "sync_send n now dest fs ?s = (s2, r)" by force
    have "silent ?s s2" using send_link_answers [of n now dest fs ?s] request_type [OF Some] q by (auto simp: silent_def)
    then have "silent s s2" using s1 by (auto simp: silent_def split: if_splits)
    then show ?thesis
      by (auto simp: send_sync_request_def b Some q request_went_def request_failed_def Let_def silent_def split: bool.split)
  qed
qed

lemma silent_continue: "silent s (fst (continue_sync n now ch peer resume q s))"
  using silent_trans [OF _ silent_request] by (simp add: continue_sync_def Let_def)

lemma silent_reconcile: "silent s (fst (continue_reconcile n now ch peer rs ns s))"
  by (simp add: continue_reconcile_def silent_continue)

lemma silent_after_probe: "silent s (fst (ask_after_probe n now key s))"
proof -
  have "silent s s'" if "send_sync_request n now peer ch since False None True s = (s', r)" for s' r peer ch since
    using silent_request [of s n now peer ch since False None True] that by simp
  then show ?thesis
    by (auto simp: ask_after_probe_def silent_def split: prod.split option.split bool.split)
qed

lemma probe_link: "sy_link (fst (note_probe n now sender p s)) = sy_link s"
  by (simp add: note_probe_def prune_probes_def Let_def split: prod.splits)

lemma probes_link: "note_probes n now sender ps s = (s', ks) \<Longrightarrow> sy_link s' = sy_link s"
proof (induction ps arbitrary: s s' ks)
  case (Cons p ps)
  obtain s1 ask where p: "note_probe n now sender p s = (s1, ask)" by force
  obtain s2 ks2 where q: "note_probes n now sender ps s1 = (s2, ks2)" by force
  have "s' = s2" using Cons.prems by (simp add: p q)
  then show ?case using Cons.IH [OF q] probe_link [of n now sender p s] p by simp
qed simp

lemma silent_probes: "silent s (handle_probes n now fs sender s)"
proof -
  have "silent s (fst (each (ask_after_probe n now) ks s'))" if "note_probes n now sender ps s = (s', ks)" for ps s' ks
    using silent_trans [OF silent_same [OF probes_link [OF that]] silent_each [OF silent_after_probe]] .
  then show ?thesis by (simp add: handle_probes_def Let_def split: option.split prod.split)
qed

section \<open>The rows of an answer\<close>

text \<open>An answer to \<open>dest\<close> that is all right: it goes to someone who may take part in the channel, and its rows
  are rows of that channel in the table which the test for that peer passes. The channel is the one the
  answer names.\<close>

definition permitted_answer :: "net \<Rightarrow> store \<Rightarrow> message_row list \<Rightarrow> hexid \<times> fields \<Rightarrow> bool" where
  "permitted_answer n st held out \<longleftrightarrow>
     (\<exists>ch b test x rows. fromhex ch = Some b \<and> field_get (snd out) F_CHANNEL_HASH = PBytes b
        \<and> peer_may_participate st ch (fst out) = Inr True
        \<and> relay_test st (get_channel st ch) ch (fst out) = Inr test
        \<and> field_get (snd out) F_SYNC_MESSAGES = PBytes (nt_packb n (payload_value x rows))
        \<and> (\<forall>r\<in>set rows. r \<in> set held \<and> ms_channel r = ch \<and> test r))"

lemma truncated_subset: "set (fst (truncate_at_group_boundary rows)) \<subseteq> set rows"
  by (auto simp: truncate_at_group_boundary_def Let_def dest: in_set_takeD)

lemma by_ids: "r \<in> set (rows_by_ids rows ch ids) \<longleftrightarrow> r \<in> set rows \<and> ms_channel r = ch \<and> ms_id r \<in> set (take MAX_RESPONSE_MESSAGES ids)"
  by (auto simp: rows_by_ids_def get_messages_by_ids_def by_time_def)

lemma merged_subset: "set (merge_rows rss) \<subseteq> (\<Union>rs\<in>set rss. set rs)"
proof -
  have i: "set (insert_ignore ms_id r acc) \<subseteq> insert r (set acc)" for r acc
    by (auto simp: insert_ignore_def)
  have "set (foldl (\<lambda>acc r. insert_ignore ms_id r acc) acc rs) \<subseteq> set acc \<union> set rs" for acc rs
  proof (induction rs arbitrary: acc)
    case (Cons r rs)
    from Cons.IH [of "insert_ignore ms_id r acc"] i [of r acc] show ?case by auto
  qed simp
  from this [of "[]" "concat rss"] show ?thesis by (auto simp: merge_rows_def)
qed

lemma compared_ids:
  assumes "\<forall>i\<in>set (cp_send c). \<exists>r\<in>set rows. ms_id r = i \<and> ms_channel r = ch \<and> test r"
  shows "\<forall>i\<in>set (cp_send (compare_range sha packb test rows ch rg c)). \<exists>r\<in>set rows. ms_id r = i \<and> ms_channel r = ch \<and> test r"
proof (cases rg)
  case (IdRange lo hi prefixes)
  have "set (ids_they_lack (map index_row (filter test (get_message_index rows ch lo (Some hi)))) prefixes)
      \<subseteq> ms_id ` {r \<in> set rows. ms_channel r = ch \<and> test r}"
    by (auto simp: ids_they_lack_def sort_rows_def get_message_index_def index_row_def)
  then show ?thesis using assms IdRange by (auto simp: Let_def)
qed (use assms in \<open>auto simp: Let_def split: prod.split bool.split\<close>)

lemma compared_all:
  "\<forall>i\<in>set (cp_send (fold (compare_range sha packb test rows ch) rgs new_comparison)). \<exists>r\<in>set rows. ms_id r = i \<and> ms_channel r = ch \<and> test r"
proof -
  have "\<forall>i\<in>set (cp_send c). \<exists>r\<in>set rows. ms_id r = i \<and> ms_channel r = ch \<and> test r \<Longrightarrow>
      \<forall>i\<in>set (cp_send (fold (compare_range sha packb test rows ch) rgs c)). \<exists>r\<in>set rows. ms_id r = i \<and> ms_channel r = ch \<and> test r" for c
  proof (induction rgs arbitrary: c)
    case (Cons rg rgs)
    show ?case using Cons.IH [OF compared_ids [OF Cons.prems]] by simp
  qed simp
  from this [of new_comparison] show ?thesis by (simp add: new_comparison_def)
qed

text \<open>An id names one row, so a row fetched by an id that was found permitted is permitted.\<close>

lemma reconciled_rows:
  assumes u: "unique_key ms_id rows" and r: "reconcile_with sha packb test rows ch rgs ns = (found, rest)"
  shows "\<forall>x\<in>set found. x \<in> set rows \<and> ms_channel x = ch \<and> test x"
proof
  fix x assume "x \<in> set found"
  then have "x \<in> set (rows_by_ids rows ch (cp_send (fold (compare_range sha packb test rows ch) rgs new_comparison)))
      \<or> x \<in> set (rows_for_needs test rows ch ns)"
    using r merged_subset by (fastforce simp: reconcile_with_def Let_def split: if_splits)
  then show "x \<in> set rows \<and> ms_channel x = ch \<and> test x"
  proof
    assume "x \<in> set (rows_by_ids rows ch (cp_send (fold (compare_range sha packb test rows ch) rgs new_comparison)))"
    then have x: "x \<in> set rows" "ms_channel x = ch" "ms_id x \<in> set (cp_send (fold (compare_range sha packb test rows ch) rgs new_comparison))"
      by (auto simp: by_ids dest: in_set_takeD)
    then obtain r where "r \<in> set rows" "ms_id r = ms_id x" "test r" using compared_all by blast
    then show ?thesis using x u by (auto simp: unique_key_def dest: inj_onD distinct_map [THEN iffD1])
  qed (auto simp: rows_for_needs_def by_ids)
qed

lemma swept_rows: "r \<in> set (sw_permitted (sweep_pages test rows ch (new_sweep start))) \<Longrightarrow> r \<in> set rows \<and> ms_channel r = ch \<and> test r"
proof -
  obtain res rest where "rows_after rows ch start None = res @ rest" "swept test start (sweep_pages test rows ch (new_sweep start)) res rest"
    using sweep_spec [where test = test and rows = rows and ch = ch and start = start] by blast
  moreover assume "r \<in> set (sw_permitted (sweep_pages test rows ch (new_sweep start)))"
  ultimately have "test r" "r \<in> snd ` set (rows_after rows ch start None)" by (auto simp: swept_def)
  then show ?thesis by (auto simp: rows_after_def is_after_def Let_def in_set_enumerate_eq)
qed

lemma built_rows:
  assumes "unique_key ms_id (sy_rows s)"
  shows "\<forall>r\<in>set (an_rows (build_answer n test ch requester start question s)). r \<in> set (sy_rows s) \<and> ms_channel r = ch \<and> test r"
proof -
  have h: "\<forall>r\<in>set (hinted_rows test s ch requester). r \<in> set (sy_rows s) \<and> ms_channel r = ch \<and> test r"
    by (auto simp: hinted_rows_def by_ids)
  have m: "(\<And>rs. rs \<in> set rss \<Longrightarrow> \<forall>r\<in>set rs. P r) \<Longrightarrow> r \<in> set (merge_rows rss) \<Longrightarrow> P r" for rss r P
    using merged_subset [of rss] by blast
  show ?thesis
  proof (cases question)
    case None
    let ?start = "sweep_start_of (get_progress (sy_served s) ch requester) start"
    have "\<forall>r\<in>set (sw_permitted (sweep_pages test (sy_rows s) ch (new_sweep ?start))). r \<in> set (sy_rows s) \<and> ms_channel r = ch \<and> test r"
      using swept_rows by blast
    then show ?thesis using h None
      by (auto simp: build_answer_def swept_answer_def Let_def dest!: m [rotated, where P = "\<lambda>r. r \<in> set (sy_rows s) \<and> ms_channel r = ch \<and> test r"])
  next
    case (Some q)
    obtain rs ns where q: "q = (rs, ns)" by force
    obtain rows ranges needs further where c: "(if rs = [] \<and> ns = [] then ([], [], [], False)
        else reconcile_with (sy_sha n) (nt_packb n) test (sy_rows s) ch rs ns) = (rows, ranges, needs, further)"
      using prod_cases4 by blast
    have r: "\<forall>r\<in>set rows. r \<in> set (sy_rows s) \<and> ms_channel r = ch \<and> test r"
      using c reconciled_rows [OF assms, of "sy_sha n" "nt_packb n" test ch rs ns rows] by (auto split: if_splits)
    have "an_rows (build_answer n test ch requester start question s) = merge_rows [hinted_rows test s ch requester, rows]"
      by (simp add: build_answer_def reconciled_answer_def Some q c del: if_split)
    then show ?thesis
      using h r by (auto dest!: m [rotated, where P = "\<lambda>r. r \<in> set (sy_rows s) \<and> ms_channel r = ch \<and> test r"])
  qed
qed

section \<open>Sending an answer\<close>

text \<open>After an operation that may send an answer: what is new on its way is all right for the tables as they
  were before and the rows as they are now.\<close>

definition new_permitted :: "net \<Rightarrow> store \<Rightarrow> sync \<Rightarrow> sync \<Rightarrow> bool" where
  "new_permitted n st s s' \<longleftrightarrow>
     (\<forall>x\<in>answers_in (sy_link s') - answers_in (sy_link s). permitted_answer n st (sy_rows s') x)"

lemma new_permitted_silent: "silent s s' \<Longrightarrow> new_permitted n st s s'"
  by (auto simp: new_permitted_def silent_def)

lemma new_permitted_then:
  "new_permitted n st s s' \<Longrightarrow> silent s' s'' \<Longrightarrow> sy_rows s'' = sy_rows s' \<Longrightarrow> new_permitted n st s s''"
  by (auto simp: new_permitted_def silent_def)

lemma new_permitted_after: "sy_link s' = sy_link s \<Longrightarrow> new_permitted n st s' s'' \<Longrightarrow> new_permitted n st s s''"
  by (simp add: new_permitted_def)

lemma new_permitted_send:
  assumes "permitted_answer n st (sy_rows s) (dest, fs)"
  shows "new_permitted n st s (fst (sync_send n now dest fs s))"
  using send_link_answers [of n now dest fs s] assms by (auto simp: new_permitted_def split: if_splits)

lemma response_messages:
  "response_fields n x ch rows truncated = Some fs \<Longrightarrow>
   field_get (fs @ more') F_SYNC_MESSAGES = PBytes (nt_packb n (payload_value x rows))"
  by (auto simp: response_fields_def control_fields_def field_get_def get_or_def)

lemma response_channel:
  "response_fields n x ch rows truncated = Some fs \<Longrightarrow>
   \<exists>b. fromhex ch = Some b \<and> field_get (fs @ more') F_CHANNEL_HASH = PBytes b"
  by (auto simp: response_fields_def control_fields_def field_get_def get_or_def)

text \<open>What the test looks at, written out.\<close>

lemma relay_test_means:
  assumes "relay_test st channel ch peer = Inr test" and "test r"
  shows "row_is_signed r" and "has_any_tenure st ch \<Longrightarrow> was_member_at st ch (ms_sender r) (ms_ts r)"
    and "has_any_tenure st ch \<Longrightarrow> \<not> was_member_at st ch peer (ms_ts r) \<Longrightarrow>
      \<exists>perms. column_perms channel = Inr perms \<and> role_grants perms (get_role st ch peer) FULL_SYNC = Inr True"
proof -
  obtain perms where p: "column_perms channel = Inr perms" using assms(1) by (auto simp: relay_test_def ebind_Inr)
  have "row_is_signed r \<and> (has_any_tenure st ch \<longrightarrow> was_member_at st ch (ms_sender r) (ms_ts r)
      \<and> (was_member_at st ch peer (ms_ts r) \<or> role_grants perms (get_role st ch peer) FULL_SYNC = Inr True))"
    using assms p by (cases "role_grants perms (get_role st ch peer) FULL_SYNC") (auto simp: relay_test_def split: if_splits)
  then show "row_is_signed r" and "has_any_tenure st ch \<Longrightarrow> was_member_at st ch (ms_sender r) (ms_ts r)"
    and "has_any_tenure st ch \<Longrightarrow> \<not> was_member_at st ch peer (ms_ts r) \<Longrightarrow>
      \<exists>perms. column_perms channel = Inr perms \<and> role_grants perms (get_role st ch peer) FULL_SYNC = Inr True"
    using p by auto
qed

lemma collected_same:
  assumes "collect_author_keys n now rows s = (s', found)"
  shows "sy_link s' = sy_link s" "sy_rows s' = sy_rows s" "sy_reactions s' = sy_reactions s"
  using assms by (auto simp: collect_author_keys_def set_db_def split: prod.splits)

lemma deliver_permitted:
  assumes "permitted_answer n st (sy_rows s) (requester, fs)"
  shows "new_permitted n st s (deliver_answer n now ch requester a rows fs s)"
proof -
  obtain s1 rid where w: "await_needs n now ch requester a s = (s1, rid)" by force
  obtain s2 sent where q: "sync_send n now requester fs s1 = (s2, sent)" by force
  have s1: "sy_link s1 = sy_link s" "sy_rows s1 = sy_rows s" using w by (auto simp: await_needs_def split: if_splits prod.splits)
  have "new_permitted n st s1 s2" using new_permitted_send [of n st s1 requester fs now] assms s1 q by simp
  from new_permitted_after [OF s1(1) this] have p: "new_permitted n st s s2" .
  let ?s = "settle_needs n now ch requester a rid sent s2"
  have "sy_link (settle_needs n now ch requester a rid b s2) = sy_link s2" for b by (simp add: settle_needs_def)
  moreover have "sy_link (after_answer ch requester c rows s') = sy_link s'" for c s' by (simp add: after_answer_def Let_def)
  ultimately have "silent s2 (deliver_answer n now ch requester a rows fs s)" "sy_rows (deliver_answer n now ch requester a rows fs s) = sy_rows s2"
    by (cases sent; simp add: deliver_answer_def w q Let_def)+
  then show ?thesis using new_permitted_then [OF p] by blast
qed

lemma send_answer_permitted:
  assumes "peer_may_participate st ch requester = Inr True" "relay_test st (get_channel st ch) ch requester = Inr test"
    and "\<forall>r\<in>set (an_rows a). r \<in> set (sy_rows s) \<and> ms_channel r = ch \<and> test r"
  shows "new_permitted n st s (send_answer n now ch requester reconciling a s)"
proof -
  obtain rows capped where t: "truncate_at_group_boundary (an_rows a) = (rows, capped)" by force
  have rows: "\<forall>r\<in>set rows. r \<in> set (sy_rows s) \<and> ms_channel r = ch \<and> test r"
    using truncated_subset [of "an_rows a"] t assms(3) by auto
  show ?thesis
  proof (cases "response_fields n (sy_reactions s) ch rows (an_further a \<or> capped)")
    case None
    then show ?thesis by (simp add: send_answer_def t Let_def new_permitted_silent)
  next
    case (Some fs)
    obtain s1 found where c: "collect_author_keys n now rows s = (s1, found)" by force
    let ?fs = "fs @ answer_tail n reconciling a (an_further a \<or> capped) found"
    have "permitted_answer n st (sy_rows s1) (requester, ?fs)"
      unfolding permitted_answer_def fst_conv snd_conv response_messages [OF Some] collected_same [OF c]
      using assms(1,2) rows response_channel [OF Some] by blast
    from new_permitted_after [OF collected_same(1) [OF c] deliver_permitted [OF this]]
    show ?thesis by (simp add: send_answer_def t Some c Let_def)
  qed
qed

lemma needs_permitted:
  assumes "tenure_same st (sy_store s)"
  shows "new_permitted n st s (fst (answer_needs n now ch peer needs s))"
proof (cases "peer_may_participate (sy_store s) ch peer = Inr True")
  case True
  show ?thesis
  proof (cases "relay_test (sy_store s) (get_channel (sy_store s) ch) ch peer")
    case (Inr test)
    obtain rows capped where t: "truncate_at_group_boundary (rows_for_needs test (sy_rows s) ch needs) = (rows, capped)" by force
    have rows: "\<forall>r\<in>set rows. r \<in> set (sy_rows s) \<and> ms_channel r = ch \<and> test r"
      using truncated_subset [of "rows_for_needs test (sy_rows s) ch needs"] t by (auto simp: rows_for_needs_def by_ids)
    have gates: "peer_may_participate st ch peer = Inr True" "relay_test st (get_channel st ch) ch peer = Inr test"
      using assms True Inr by (simp_all add: tenure_same_def)
    show ?thesis
    proof (cases "response_fields n (sy_reactions s) ch rows capped")
      case (Some fs)
      obtain s1 found where c: "collect_author_keys n now rows s = (s1, found)" by force
      have "permitted_answer n st (sy_rows s1) (peer, fs @ author_key_fields found)"
        unfolding permitted_answer_def fst_conv snd_conv response_messages [OF Some] collected_same [OF c]
        using gates rows response_channel [OF Some] by blast
      from new_permitted_after [OF collected_same(1) [OF c] new_permitted_send [OF this]]
      show ?thesis using True Inr by (simp add: answer_needs_def t Some c)
    qed (use True Inr in \<open>simp add: answer_needs_def t new_permitted_silent\<close>)
  qed (use True in \<open>simp add: answer_needs_def new_permitted_silent\<close>)
qed (simp add: answer_needs_def new_permitted_silent)

section \<open>Taking an answer sends none\<close>

lemma set_db_link [simp]: "sy_link (set_db db s) = sy_link s" by (simp add: set_db_def)

lemma stored_link [simp]: "sy_link (on_message_stored n now ch mid s) = sy_link s"
  by (simp add: on_message_stored_def note_reference_def Let_def split: option.splits)

lemma apply_reactions_link: "sy_link (fst (apply_synced_reactions n now ch m responder s)) = sy_link s"
proof -
  have "sy_link (fst (apply_reaction n now ch mid responder v s)) = sy_link s" for mid v s
    by (auto simp: apply_reaction_def Let_def split: pyval.split sum.split py_error.split)
  then have "sy_link (fst (each (apply_reaction n now ch mid responder) rs s)) = sy_link s" for mid rs
    by (intro each_keeps [where P = "\<lambda>s'. sy_link s' = sy_link s"]) simp_all
  then show ?thesis by (auto simp: apply_synced_reactions_def Let_def split: pyval.split)
qed

lemma after_insert_link: "sy_link (fst (after_insert n now ch mid m responder s)) = sy_link s"
  by (auto simp: after_insert_def Let_def split: pyval.split)

lemma store_judged_link: "sy_link (in_sync (store_judged n now ch responder m c h i)) = sy_link (in_sync i)"
proof -
  obtain db' r where i: "insert_synced n now ch h (get_or (PStr []) m (PStr ''sender_name'')) c (sy_db (in_sync i)) = (db', r)" by force
  obtain s' broke where a: "apply_synced_reactions n now ch m responder (set_db db' (in_sync i)) = (s', broke)" by force
  have "sy_link s' = sy_link (in_sync i)" using apply_reactions_link [of n now ch m responder "set_db db' (in_sync i)"] a by simp
  moreover obtain s2 b2 where "after_insert n now ch (sm_id (cl_signed c)) m responder s' = (s2, b2)" by force
  moreover from this have "sy_link s2 = sy_link s'"
    using after_insert_link [where s = s' and n = n and now = now and ch = ch and mid = "sm_id (cl_signed c)" and m = m and responder = responder] by simp
  ultimately show ?thesis
    by (cases r) (auto simp: store_judged_def Let_def i a split: bool.split)
qed

lemma take_row_link: "take_synced_row n now ch responder full_sync v i = Some i' \<Longrightarrow> sy_link (in_sync i') = sy_link (in_sync i)"
  by (auto simp: take_synced_row_def store_judged_link Let_def split: pyval.splits sum.splits option.splits prod.splits judged.splits)

lemma take_rows_link: "sy_link (in_sync (fst (take_synced_rows n now ch responder full_sync vs i))) = sy_link (in_sync i)"
  by (induction vs arbitrary: i) (auto split: option.split dest: take_row_link)

lemma settle_link: "sy_link (settle_intake n fs ch peer received i) = sy_link (in_sync i)"
  by (simp add: settle_intake_def advance_watermarks_def Let_def)

lemma settle_tenure: "tenure_same st (sy_store (in_sync i)) \<Longrightarrow> tenure_same st (sy_store (settle_intake n fs ch peer received i))"
  by (auto simp: settle_intake_def advance_watermarks_def Let_def intro: tenure_same_trans tenure_synced)

lemma go_on_silent: "silent s (go_on_asking n now ch peer since truncated cursor resume cont s)"
proof -
  obtain rs ns d where c: "cont = (rs, ns, d)" by (cases cont)
  obtain s1 where s1: "s1 = (if truncated \<or> d then s\<lparr>sy_deferred := List.insert (ch, peer) (sy_deferred s)\<rparr> else s)" by simp
  obtain s2 r where q: "continue_reconcile n now ch peer rs ns s1 = (s2, r)" by force
  have "silent s s1" using s1 by simp
  moreover have "silent s1 s2" using silent_reconcile [of s1 n now ch peer rs ns] q by simp
  ultimately have s2: "silent s s2" by (rule silent_trans)
  have "silent s2 (fst (continue_sync n now ch peer resume None (s2\<lparr>sy_deferred := removeAll (ch, peer) (sy_deferred s2)\<rparr>)))"
    by (rule silent_trans [OF silent_same silent_continue]) simp
  from silent_trans [OF s2 this] show ?thesis
    using s2 by (simp add: go_on_asking_def c Let_def s1 [symmetric] q split: option.split bool.split)
qed

lemma finish_permitted:
  assumes "tenure_same st (sy_store (in_sync i))"
  shows "new_permitted n st (in_sync i) (finish_response n now fs ch peer since received i)"
proof -
  let ?s = "settle_intake n fs ch peer received i"
  obtain ranges needs bad where r: "read_reconcile_fields (ot_unpackb (nt_out n)) fs = (ranges, needs, bad)"
    using prod_cases3 by blast
  obtain rs ns where q: "(if bad then ([], []) else (or_empty ranges, or_empty needs)) = (rs, ns)" by force
  obtain s' broke where a: "(if ns = [] then (?s, False) else answer_needs n now ch peer ns ?s) = (s', broke)" by force
  have settled: "new_permitted n st (in_sync i) ?s" by (rule new_permitted_silent) (simp add: settle_link)
  have "new_permitted n st ?s s'"
    using a needs_permitted [of st ?s n now ch peer ns, OF settle_tenure [OF assms]]
    by (cases "ns = []") (auto simp: new_permitted_silent dest: arg_cong [where f = fst])
  then have p: "new_permitted n st (in_sync i) s'" by (rule new_permitted_after [OF settle_link])
  have "new_permitted n st (in_sync i) (go_on_asking n now ch peer since truncated cursor resume cont s')" for truncated cursor resume cont
    using new_permitted_then [OF p go_on_silent] go_on_keeps [of n s' now ch peer since truncated cursor resume cont] by (simp add: rows_kept_def)
  then show ?thesis
    unfolding finish_response_def Let_def r q a prod.case by (auto simp: settled p split: sum.split bool.split)
qed

lemma handle_response_permitted:
  assumes n: "rns_honest (sy_rns n)" and ok: "db_ok (nt_out n) (sy_db s)"
  shows "new_permitted n (sy_store s) s (handle_sync_response n now fs ch responder s)"
proof (cases "\<not> is_subscribed (sy_store s) ch \<or> peer_may_participate (sy_store s) ch (nt_self n) \<noteq> Inr True")
  case True
  then show ?thesis by (simp add: handle_sync_response_def new_permitted_silent)
next
  case False
  obtain t claim where c: "claim_request (sy_rns n) now ch responder (sy_requests s) = (t, claim)" by force
  show ?thesis
  proof (cases claim)
    case None
    then show ?thesis using False c by (simp add: handle_sync_response_def new_permitted_silent)
  next
    case (Some sp)
    obtain since peer where sp: "sp = (since, peer)" by force
    let ?s = "s\<lparr>sy_requests := t, sy_retries := AList.delete (ch, peer) (sy_retries s)\<rparr>"
    have body: "handle_sync_response n now fs ch responder s = (case response_rows n fs of
                     None \<Rightarrow> ?s\<lparr>sy_status := response_malformed ch peer (sy_status ?s)\<rparr>
                   | Some ms \<Rightarrow>
                       (case full_sync_granted n (sy_store ?s) ch of
                          Inl _ \<Rightarrow> ?s
                        | Inr full_sync \<Rightarrow>
                            (case take_answer n now fs ch responder full_sync ms ?s of
                               (i, True) \<Rightarrow> in_sync i
                             | (i, False) \<Rightarrow> finish_response n now fs ch peer since (length ms) i)))"
      using False c Some sp by (simp add: handle_sync_response_def Let_def)
    have took: "sy_link (in_sync i) = sy_link s \<and> tenure_same (sy_store s) (sy_store (in_sync i))"
      if "take_answer n now fs ch responder full_sync ms ?s = (i, escaped)" for full_sync ms i escaped
    proof -
      let ?db = "(sy_db s)\<lparr>db_keys := learn_author_keys n now (field_get fs F_AUTHOR_KEYS) (db_keys (sy_db s))\<rparr>"
      have "keys_ok (sy_rns n) (db_keys ?db)" using keys_ok_learned ok by (simp add: db_ok_def)
      then have "grown n now ch (sy_db s) full_sync ?db" by (intro grown_keys grown_refl ok) simp
      then show ?thesis
        using take_rows_grown [OF _ n, of now ch "sy_db s" full_sync "new_intake (set_db ?db ?s)" responder ms]
          take_rows_link [of n now ch responder full_sync ms "new_intake (set_db ?db ?s)"] that
        by (simp add: take_answer_def new_intake_def grown_def)
    qed
    show ?thesis
    proof (cases "response_rows n fs")
      case (Some ms)
      show ?thesis
      proof (cases "full_sync_granted n (sy_store ?s) ch")
        case (Inr full_sync)
        obtain i escaped where i: "take_answer n now fs ch responder full_sync ms ?s = (i, escaped)" by force
        have "new_permitted n (sy_store s) s (finish_response n now fs ch peer since (length ms) i)"
          by (rule new_permitted_after [OF _ finish_permitted]) (use took [OF i] in simp_all)
        moreover have "new_permitted n (sy_store s) s (in_sync i)" using took [OF i] by (intro new_permitted_silent) simp
        moreover have "handle_sync_response n now fs ch responder s = (if escaped then in_sync i else finish_response n now fs ch peer since (length ms) i)"
          unfolding body Some Inr i option.case sum.case prod.case by (cases escaped) simp_all
        ultimately show ?thesis by (cases escaped) simp_all
      next
        case (Inl e)
        then have "sy_link (handle_sync_response n now fs ch responder s) = sy_link s" unfolding body Some Inl by simp
        then show ?thesis by (intro new_permitted_silent silent_same)
      qed
    next
      case None
      then have "sy_link (handle_sync_response n now fs ch responder s) = sy_link s" using body by simp
      then show ?thesis by (intro new_permitted_silent silent_same)
    qed
  qed
qed

text \<open>C9. Every answer that a received message makes sync hand to the router, or hold for a peer whose
  identity is not known yet, is addressed to a peer who may take part in the channel the answer names, and its rows
  are signed rows of that channel in our table. Where we have tenure records of the channel at all, each row
  lies within its author's tenure and, unless the peer's role grants the full history, within the
  peer's own; without any record no row is held back. This holds for answers to a request, by sweep or by
  comparison of descriptions, and for rows a responder asked back for.\<close>

theorem answers_permitted:
  assumes "rns_honest (sy_rns n)" and "db_ok (nt_out n) (sy_db s)"
    and "out \<in> answers_in (sy_link (on_sync_message n now l s))" and "out \<notin> answers_in (sy_link s)"
  shows "\<exists>ch b x rows. fromhex ch = Some b \<and> field_get (snd out) F_CHANNEL_HASH = PBytes b
    \<and> peer_may_participate (sy_store s) ch (fst out) = Inr True
    \<and> field_get (snd out) F_SYNC_MESSAGES = PBytes (nt_packb n (payload_value x rows))
    \<and> (\<forall>r\<in>set rows. r \<in> set (sy_rows (on_sync_message n now l s)) \<and> ms_channel r = ch \<and> row_is_signed r
          \<and> (has_any_tenure (sy_store s) ch \<longrightarrow>
               was_member_at (sy_store s) ch (ms_sender r) (ms_ts r)
             \<and> (was_member_at (sy_store s) ch (fst out) (ms_ts r)
                \<or> (\<exists>perms. column_perms (get_channel (sy_store s) ch) = Inr perms
                     \<and> role_grants perms (get_role (sy_store s) ch (fst out)) FULL_SYNC = Inr True))))"
proof -
  let ?fs = "lx_fields l" and ?sender = "lx_sender (nt_out n) l"
  have u: "unique_key ms_id (sy_rows s)" using assms(2) by (simp add: db_ok_def)
  have request: "new_permitted n (sy_store s) s (handle_sync_request n now ?fs ch ?sender s)" for ch
  proof (cases rule: handle_request_cases [of n now ?fs ch ?sender s])
    case (refused d)
    then show ?thesis by (simp add: new_permitted_silent)
  next
    case (answered start ranges needs d test)
    let ?s = "s\<lparr>sy_deep := d\<rparr>" and ?q = "question_of ranges needs"
    have "\<forall>r\<in>set (an_rows (build_answer n test ch ?sender start ?q ?s)). r \<in> set (sy_rows ?s) \<and> ms_channel r = ch \<and> test r"
      by (rule built_rows) (simp add: u)
    from send_answer_permitted [OF answered(2,6) this, of n now "?q \<noteq> None"]
    show ?thesis unfolding answered(7) by (rule new_permitted_after [rotated]) simp
  qed
  have missed: "new_permitted n (sy_store s) s (handle_missed_delivery n now ?fs ch ?sender s)" for ch
    by (intro new_permitted_silent silent_same) (simp add: handle_missed_delivery_def Let_def)
  have probes: "new_permitted n (sy_store s) s (handle_probes n now ?fs ?sender s)" and same: "new_permitted n (sy_store s) s s"
    by (intro new_permitted_silent silent_probes, intro new_permitted_silent silent_same refl)
  have "new_permitted n (sy_store s) s (on_sync_message n now l s)"
  proof (cases "channel_text (nt_out n) ?fs")
    case None
    then have "on_sync_message n now l s = s \<or> on_sync_message n now l s = handle_probes n now ?fs ?sender s"
      by (simp add: on_sync_message_def Let_def)
    then show ?thesis using probes same by metis
  next
    case (Some ch)
    then have "on_sync_message n now l s = s \<or> on_sync_message n now l s = handle_probes n now ?fs ?sender s
        \<or> on_sync_message n now l s = handle_missed_delivery n now ?fs ch ?sender s
        \<or> on_sync_message n now l s = handle_sync_request n now ?fs ch ?sender s
        \<or> on_sync_message n now l s = handle_sync_response n now ?fs ch ?sender s"
      by (simp add: on_sync_message_def Let_def)
    then show ?thesis
      using request [of ch] missed [of ch] probes same handle_response_permitted [OF assms(1,2), of now ?fs ch ?sender] by metis
  qed
  then obtain ch b test x rows where g: "fromhex ch = Some b" "field_get (snd out) F_CHANNEL_HASH = PBytes b"
      "peer_may_participate (sy_store s) ch (fst out) = Inr True"
      "field_get (snd out) F_SYNC_MESSAGES = PBytes (nt_packb n (payload_value x rows))"
    and test: "relay_test (sy_store s) (get_channel (sy_store s) ch) ch (fst out) = Inr test"
      "\<forall>r\<in>set rows. r \<in> set (sy_rows (on_sync_message n now l s)) \<and> ms_channel r = ch \<and> test r"
    using assms(3,4) unfolding new_permitted_def permitted_answer_def by blast
  show ?thesis
    by (rule exI [of _ ch], rule exI [of _ b], rule exI [of _ x], rule exI [of _ rows])
      (use g test relay_test_means [OF test(1)] in blast)
qed

text \<open>We took one row from the friend, and the friend asks for what we hold.\<close>

definition asking_letter :: lxm where
  "asking_letter =
     \<lparr>lx_fields = [(PInt F_MSG_TYPE, PStr MT_SYNC_REQUEST), (PInt F_CHANNEL_HASH, PStr ''0a''), (PInt F_SYNC_WINDOW_START, PFloat (Finite 1))],
      lx_content = [], lx_timestamp = PNone, lx_ours = True, lx_source = replicate 16 0x77\<rparr>"

definition held_row :: message_row where
  "held_row = \<lparr>ms_channel = ''0a'', ms_sender = sample_friend, ms_name = ''f'', ms_content = ''hi'', ms_ts = 3, ms_id = ''01'',
     ms_reply = None, ms_last_seen = None, ms_received = 5, ms_image = None, ms_sig = Some [7], ms_image_stripped = False,
     ms_manifest = None, ms_file_stripped = False\<rparr>"

definition holding_sync :: sync where
  "holding_sync = new_sync 0 (empty_outbox ((fresh_db shared_store (fresh_friends []))\<lparr>db_rows := [held_row]\<rparr>)) [] [] []
     (new_reactions [] []) (new_subscriptions [] [])"

lemma held_digest: "author_digest (sy_sha chat_net) (ot_repr (nt_out chat_net)) ''0a'' (row_message held_row) \<noteq> None"
  by code_simp

lemma holding_ok: "db_ok (nt_out chat_net) (sy_db holding_sync)"
proof -
  obtain d where "author_digest (sy_sha chat_net) (ot_repr (nt_out chat_net)) ''0a'' (row_message held_row) = Some d"
    using held_digest by auto
  moreover have f: "fromhex sample_friend = Some (replicate 16 0x77)" and "compute_message_id (sy_sha chat_net) ''hi'' sample_friend 3 = ''01''"
    by code_simp+
  ultimately have "row_ok (nt_out chat_net) held_row"
    by (simp add: row_ok_def written_def held_row_def image_refused_def chat_net_def)
      (rule exI [of _ "\<lparr>pe_key = Some (replicate 16 0x77), pe_hash = replicate 16 0x77\<rparr>"], simp)
  then show ?thesis
    by (simp add: holding_sync_def new_sync_def empty_outbox_def db_ok_def fresh_db_def unique_key_def keys_ok_def)
qed

lemma answer_goes:
  "map (\<lambda>(d, fs). (d, field_get fs F_MSG_TYPE, field_get fs F_CHANNEL_HASH, field_get fs F_SYNC_MESSAGES)) (lk_sent (sy_link (on_sync_message chat_net 6 asking_letter holding_sync)))
     = [(sample_friend, PStr MT_SYNC_RESPONSE, PBytes [0x0a], PBytes [1])]"
  by code_simp

theorem answers_permitted_witness:
  "\<exists>ch x rows. fromhex ch = Some [0x0a] \<and> peer_may_participate (sy_store holding_sync) ch sample_friend = Inr True
    \<and> nt_packb chat_net (payload_value x rows) = [1]
    \<and> (\<forall>r\<in>set rows. ms_channel r = ch \<and> row_is_signed r
          \<and> (has_any_tenure (sy_store holding_sync) ch \<longrightarrow> was_member_at (sy_store holding_sync) ch (ms_sender r) (ms_ts r)))"
proof -
  obtain fs where fs: "lk_sent (sy_link (on_sync_message chat_net 6 asking_letter holding_sync)) = [(sample_friend, fs)]"
      "field_get fs F_MSG_TYPE = PStr MT_SYNC_RESPONSE" "field_get fs F_CHANNEL_HASH = PBytes [0x0a]" "field_get fs F_SYNC_MESSAGES = PBytes [1]"
    using answer_goes by (auto simp: map_eq_Cons_conv)
  have "answers_in (sy_link holding_sync) = {}"
    by (simp add: answers_in_def outgoing_def holding_sync_def new_sync_def new_link_def new_retry_queue_def)
  then have out: "(sample_friend, fs) \<in> answers_in (sy_link (on_sync_message chat_net 6 asking_letter holding_sync))"
    "(sample_friend, fs) \<notin> answers_in (sy_link holding_sync)"
    using fs by (auto simp: answers_in_def outgoing_def)
  show ?thesis
    using answers_permitted [OF chat_honest holding_ok out] fs(3,4) by fastforce
qed

end
