(* ===== verification/Sync_Gaps.thy ===== *)
theory Sync_Gaps
  imports Sync_Relay
begin

text \<open>
  Where taking an answer falls short of what its comments say: an answer with a row that is no dict leaves
  the peer pending, and a row that could not be inserted does not hold the watermark back.
\<close>

section \<open>A row that is no dict\<close>

lemma take_no_dict: "(\<forall>d. v \<noteq> PDict d) \<Longrightarrow> take_synced_row n now ch responder full_sync v i = None"
  by (cases v) (auto simp: take_synced_row_def)

lemma oldest_lives:
  assumes "take_oldest ch forms d = Some (d', e)"
  shows "(ch, e) \<in> live d"
proof -
  obtain form es where "entries_at d (ch, form) = e # es" using take_oldest_spec [OF assms] by blast
  then have "e \<in> set (entries_at d (ch, form))" by simp
  then show ?thesis by (auto simp: live_def)
qed

lemma nothing_to_claim:
  assumes "distinct (map fst (out_entries t))" and "\<forall>e. (ch, e) \<notin> live (out_entries t)"
  shows "snd (claim_request m now ch r t) = None"
proof (cases "take_oldest ch (peer_key_forms m r) (fresh_entries now (out_entries t))")
  case (Some de)
  obtain d e where "de = (d, e)" by (cases de)
  from oldest_lives [OF Some [unfolded this]] obtain form where "e \<in> set (entries_at (fresh_entries now (out_entries t)) (ch, form))"
    by (auto simp: live_def)
  then have "(ch, e) \<in> live (out_entries t)" using fresh_at [OF assms(1)] by (auto simp: live_def)
  then show ?thesis using assms(2) by blast
qed (simp add: claim_request_def Let_def)

lemma unclaimed_answer:
  assumes "snd (claim_request (sy_rns n) now ch responder (sy_requests s)) = None"
  shows "sy_rows (handle_sync_response n now fs ch responder s) = sy_rows s
    \<and> sy_status (handle_sync_response n now fs ch responder s) = sy_status s"
  using assms by (cases "claim_request (sy_rns n) now ch responder (sy_requests s)") (simp add: handle_sync_response_def)

text \<open>The claim takes the only request of the channel, so none is left.\<close>

lemma only_request_claimed:
  assumes "table_ok m t" and "claim_request m now ch responder t = (t', Some x)"
    and "\<forall>e e'. (ch, e) \<in> live (out_entries t) \<and> (ch, e') \<in> live (out_entries t) \<longrightarrow> e = e'"
  shows "\<forall>e. (ch, e) \<notin> live (out_entries t')" and "distinct (map fst (out_entries t'))"
proof -
  show "\<forall>e. (ch, e) \<notin> live (out_entries t')"
    by (rule claim_live [OF assms(1), where now = now and ch = ch and responder = responder]) (use assms(2,3) in auto)
  show "distinct (map fst (out_entries t'))"
    by (rule claim_live [OF assms(1), where now = now and ch = ch and responder = responder])
      (use assms(2) in \<open>auto simp: table_ok_def\<close>)
qed

text \<open>C35. An answer whose first row is not a dict consumes the request it answers and starts the
  retries over, but the peer that was pending stays pending. If that request was the only one outstanding on
  the channel, nothing is outstanding any more: no answer whatever can be claimed, from anyone, until we ask
  again, and an answer that comes changes neither rows nor tracker. No row, watermark or further request comes of
  the malformed answer. (The handler of the exception calls \<^verbatim>\<open>m.get\<close> again, which raises again, out of the loop.)\<close>

theorem malformed_row_strands_channel:
  assumes "is_subscribed (sy_store s) ch" and "peer_may_participate (sy_store s) ch (nt_self n) = Inr True"
    and "claim_request (sy_rns n) now ch responder (sy_requests s) = (t, Some (since, peer))"
    and "response_rows n fs = Some (v # vs)" and "\<forall>d. v \<noteq> PDict d"
    and "full_sync_granted n (sy_store s) ch = Inr full_sync"
    and "peer_of (sy_status s) ch peer = Some p" and "ps_state p = PENDING"
    and "table_ok (sy_rns n) (sy_requests s)"
    and "\<forall>e e'. (ch, e) \<in> live (out_entries (sy_requests s)) \<and> (ch, e') \<in> live (out_entries (sy_requests s)) \<longrightarrow> e = e'"
  shows "let s' = handle_sync_response n now fs ch responder s
    in peer_of (sy_status s') ch peer = Some p \<and> ps_state p = PENDING \<and> get_state (sy_status s') ch = get_state (sy_status s) ch
       \<and> (\<forall>e. (ch, e) \<notin> live (out_entries (sy_requests s')))
       \<and> (\<forall>m now' r. snd (claim_request m now' ch r (sy_requests s')) = None)
       \<and> (\<forall>now' fs' r. sy_rows (handle_sync_response n now' fs' ch r s') = sy_rows s
            \<and> sy_status (handle_sync_response n now' fs' ch r s') = sy_status s)
       \<and> sy_rows s' = sy_rows s \<and> sy_store s' = sy_store s
       \<and> sy_progress s' = sy_progress s \<and> sy_link s' = sy_link s \<and> map_of (sy_retries s') (ch, peer) = None"
proof -
  let ?s = "handle_sync_response n now fs ch responder s"
  have s: "sy_status ?s = sy_status s" "sy_requests ?s = t" "sy_rows ?s = sy_rows s" "sy_store ?s = sy_store s"
      "sy_progress ?s = sy_progress s" "sy_link ?s = sy_link s" "map_of (sy_retries ?s) (ch, peer) = None"
    using assms(1-4,6) take_no_dict [OF assms(5)]
    by (simp_all add: handle_sync_response_def take_answer_def new_intake_def set_db_def delete_conv Let_def)
  note gone = only_request_claimed [OF assms(9,3,10)]
  have none: "snd (claim_request m now' ch r (sy_requests ?s)) = None" for m now' r
    unfolding s(2) by (rule nothing_to_claim [OF gone(2,1)])
  have "sy_rows (handle_sync_response n now' fs' ch r ?s) = sy_rows s
      \<and> sy_status (handle_sync_response n now' fs' ch r ?s) = sy_status s" for now' fs' r
    using unclaimed_answer [OF none] s by simp
  then show ?thesis unfolding Let_def using none s gone(1) assms(7,8) by simp
qed

text \<open>The friend answers with the number 1 for a row.\<close>

definition odd_net :: net where
  "odd_net = chat_net\<lparr>nt_out := (nt_out chat_net)\<lparr>ot_unpackb := (\<lambda>_. Some (PList [PInt 1]))\<rparr>\<rparr>"

lemma waiting_requests:
  "(let e = \<lparr>ask_at = 0, ask_since = Finite 0, ask_dest = sample_friend, ask_id = 1\<rparr>
    in out_entries (sy_requests waiting_sync) = [((''0a'', sample_friend), [e, e])])
    \<and> out_seq (sy_requests waiting_sync) = 1 \<and> peer_key_forms (sy_rns odd_net) sample_friend = [sample_friend, sample_friend]"
  by code_simp

theorem malformed_row_strands_channel_witness:
  "let s' = handle_sync_response odd_net 5 (lx_fields history_letter) ''0a'' sample_friend waiting_sync
   in map_option ps_state (peer_of (sy_status s') ''0a'' sample_friend) = Some PENDING \<and> get_state (sy_status s') ''0a'' = SYNCING
      \<and> snd (claim_request (sy_rns odd_net) 5 ''0a'' sample_friend (sy_requests s')) = None"
proof -
  have c: "map_option snd (snd (claim_request (sy_rns odd_net) 5 ''0a'' sample_friend (sy_requests waiting_sync))) = Some sample_friend"
    by code_simp
  obtain t since where t: "claim_request (sy_rns odd_net) 5 ''0a'' sample_friend (sy_requests waiting_sync) = (t, Some (since, sample_friend))"
    using c by (cases "claim_request (sy_rns odd_net) 5 ''0a'' sample_friend (sy_requests waiting_sync)") auto
  have gates: "is_subscribed (sy_store waiting_sync) ''0a''"
    "peer_may_participate (sy_store waiting_sync) ''0a'' (nt_self odd_net) = Inr True"
    "response_rows odd_net (lx_fields history_letter) = Some (PInt 1 # [])"
    "full_sync_granted odd_net (sy_store waiting_sync) ''0a'' = Inr False"
    by code_simp+
  have "map_option ps_state (peer_of (sy_status waiting_sync) ''0a'' sample_friend) = Some PENDING" by code_simp
  then obtain p where p: "peer_of (sy_status waiting_sync) ''0a'' sample_friend = Some p" "ps_state p = PENDING" by auto
  have table: "table_ok (sy_rns odd_net) (sy_requests waiting_sync)"
    using waiting_requests by (auto simp: Let_def table_ok_def live_def get_or_def inj_on_def split: if_splits)
  have only: "\<forall>e e'. (''0a'', e) \<in> live (out_entries (sy_requests waiting_sync)) \<and> (''0a'', e') \<in> live (out_entries (sy_requests waiting_sync)) \<longrightarrow> e = e'"
    using waiting_requests by (auto simp: Let_def live_def get_or_def split: if_splits)
  have "get_state (sy_status waiting_sync) ''0a'' = SYNCING" by code_simp
  then show ?thesis
    using malformed_row_strands_channel [OF gates(1,2) t gates(3) _ gates(4) p table only] p(2) by (simp add: Let_def)
qed

section \<open>A row that could not be inserted\<close>

text \<open>The friend answers with two rows that verify; the first has no name, which the schema does not allow,
  so it is not stored. The watermarks move past it all the same.\<close>

definition nameless_row :: pyval where
  "nameless_row = PDict [(PStr ''sender_hash'', PStr sample_friend), (PStr ''sender_name'', PNone), (PStr ''content'', PStr ''a''),
     (PStr ''timestamp'', PFloat (Finite 2)), (PStr ''author_sig'', PBytes [7])]"

definition nameless_net :: net where
  "nameless_net = chat_net\<lparr>nt_out := (nt_out chat_net)\<lparr>ot_unpackb := (\<lambda>_. Some (PList [nameless_row, history_row]))\<rparr>\<rparr>"

lemma nameless_row_passed:
  "let i = fst (take_synced_rows nameless_net 5 ''0a'' sample_friend False [nameless_row, history_row] (new_intake waiting_sync))
   in map ms_ts (sy_rows (in_sync i)) = [3] \<and> in_failed i = None \<and> in_rejected i = 0 \<and> newest_usable i = 3"
  by code_simp

end
