(* ===== verification/Presence.thy ===== *)
theory Presence
  imports Sync_Intake
begin

text \<open>
  \<^verbatim>\<open>trenchchat/core/presence.py\<close>: who is online, and the beacons that keep a quiet peer from timing us out.
  \<^verbatim>\<open>PresenceManager\<close> is a table of when each peer was last heard of; the callbacks it makes are recorded in
  order (an exception in one is caught and changes nothing). \<^verbatim>\<open>PresenceBeacon\<close> keeps when we last sent to
  each peer; the random jitter of a peer is an argument. Left out: the listing for display, the
  names it shows, and the wait for LXMF to send the goodbyes, of which only the outcome is an argument.
\<close>

section \<open>Who is online\<close>

definition PRESENCE_TIMEOUT_SECS :: secs where "PRESENCE_TIMEOUT_SECS = 300"

record presence =
  pr_self :: hexid
  pr_timeout :: secs
  pr_last_seen :: "(hexid \<times> secs) list"
  pr_told :: "(hexid \<times> bool) list"
  pr_heard :: "hexid list"

definition new_presence :: "hexid \<Rightarrow> secs \<Rightarrow> presence" where
  "new_presence self timeout = \<lparr>pr_self = self, pr_timeout = timeout, pr_last_seen = [], pr_told = [], pr_heard = []\<rparr>"

definition online_locked :: "secs \<Rightarrow> presence \<Rightarrow> hexid \<Rightarrow> bool" where
  "online_locked now p peer =
     (case map_of (pr_last_seen p) peer of None \<Rightarrow> False | Some t \<Rightarrow> now - t < pr_timeout p)"

definition mark_seen :: "secs \<Rightarrow> hexid \<Rightarrow> presence \<Rightarrow> presence" where
  "mark_seen now peer p =
     (if peer = pr_self p then p
      else let was_online = online_locked now p peer;
               p = p\<lparr>pr_last_seen := AList.update peer now (pr_last_seen p)\<rparr>;
               p = (if was_online then p else p\<lparr>pr_told := pr_told p @ [(peer, True)]\<rparr>)
           in p\<lparr>pr_heard := pr_heard p @ [peer]\<rparr>)"

definition record_offline :: "secs \<Rightarrow> hexid \<Rightarrow> presence \<Rightarrow> presence" where
  "record_offline now peer p =
     (if peer = pr_self p then p
      else let was_online = online_locked now p peer;
               p = p\<lparr>pr_last_seen := AList.delete peer (pr_last_seen p)\<rparr>
           in if was_online then p\<lparr>pr_told := pr_told p @ [(peer, False)]\<rparr> else p)"

definition record_inbound :: "outside \<Rightarrow> secs \<Rightarrow> lxm \<Rightarrow> presence \<Rightarrow> presence \<times> hexid option" where
  "record_inbound k now l p =
     (case (if lx_source l = [] then None else rn_recall (ot_rns k) (lx_source l)) of
        None \<Rightarrow> (p, None)
      | Some peer \<Rightarrow>
          (let sender = to_hex (pe_hash peer)
           in (if control_type (ot_decode k) (lx_fields l) = Some MT_GOODBYE then record_offline now sender p
               else mark_seen now sender p, Some sender)))"

definition is_online :: "secs \<Rightarrow> presence \<Rightarrow> hexid \<Rightarrow> bool" where
  "is_online now p peer = (peer = pr_self p \<or> online_locked now p peer)"

definition last_seen_at :: "presence \<Rightarrow> hexid \<Rightarrow> secs" where
  "last_seen_at p peer = get_or 0 (pr_last_seen p) peer"

definition get_online_peers :: "secs \<Rightarrow> presence \<Rightarrow> hexid list" where
  "get_online_peers now p = map fst (filter (\<lambda>(_, t). now - t < pr_timeout p) (pr_last_seen p))"

definition prune_presence :: "secs \<Rightarrow> presence \<Rightarrow> presence" where
  "prune_presence now p =
     (let stale = filter (\<lambda>(_, t). now - t \<ge> pr_timeout p) (pr_last_seen p)
      in p\<lparr>pr_last_seen := filter (\<lambda>(_, t). \<not> now - t \<ge> pr_timeout p) (pr_last_seen p),
           pr_told := pr_told p @ map (\<lambda>(h, _). (h, False)) stale\<rparr>)"

section \<open>Beacons\<close>

definition PRESENCE_BEACON_AFTER_SECS :: secs where "PRESENCE_BEACON_AFTER_SECS = 180"
definition PRESENCE_BEACON_JITTER_FRACTION :: secs where "PRESENCE_BEACON_JITTER_FRACTION = 1 / 5"

text \<open>\<^verbatim>\<open>compute_channel_recipients\<close> and \<^verbatim>\<open>compute_send_recipients\<close> of \<^verbatim>\<open>core/actions.py\<close>.\<close>

definition compute_channel_recipients :: "store \<Rightarrow> subscriptions \<Rightarrow> hexid \<Rightarrow> hexid \<Rightarrow> py_error + hexid list" where
  "compute_channel_recipients s u ch self =
     ebind (column_perms (get_channel s ch)) (\<lambda>perms.
       Inr (if get_channel s ch \<noteq> None \<and> \<not> is_open_join perms then map mb_id (get_members s ch)
            else let dests = get_subscribers u ch in if self \<in> set dests then dests else dests @ [self]))"

definition compute_send_recipients :: "store \<Rightarrow> subscriptions \<Rightarrow> hexid \<Rightarrow> hexid \<Rightarrow> py_error + hexid list option" where
  "compute_send_recipients s u ch sender =
     ebind (column_perms (get_channel s ch)) (\<lambda>perms.
       if get_channel s ch \<noteq> None \<and> \<not> is_open_join perms
       then ebind (role_may s ch sender SEND_MESSAGE) (\<lambda>may.
              if may then ebind (compute_channel_recipients s u ch sender) (\<lambda>hs. Inr (Some hs)) else Inr None)
       else ebind (compute_channel_recipients s u ch sender) (\<lambda>hs. Inr (Some hs)))"

record beacon =
  bc_after :: secs
  bc_spread :: secs
  bc_last_sent :: "(hexid \<times> secs) list"
  bc_jitter :: "(hexid \<times> secs) list"
  bc_sent :: "(hexid \<times> fields) list"
  bc_paths :: "bytes list"

definition new_beacon :: "secs \<Rightarrow> secs \<Rightarrow> beacon" where
  "new_beacon after fraction =
     \<lparr>bc_after = after, bc_spread = after * fraction, bc_last_sent = [], bc_jitter = [], bc_sent = [], bc_paths = []\<rparr>"

definition record_sent :: "secs \<Rightarrow> hexid \<Rightarrow> beacon \<Rightarrow> beacon" where
  "record_sent now peer b = b\<lparr>bc_last_sent := AList.update peer now (bc_last_sent b)\<rparr>"

definition quiet_since :: "presence \<Rightarrow> beacon \<Rightarrow> hexid \<Rightarrow> secs" where
  "quiet_since p b peer = max (last_seen_at p peer) (get_or 0 (bc_last_sent b) peer)"

text \<open>\<open>draw\<close> is what \<^verbatim>\<open>random.uniform(-spread, spread)\<close> gives for the peer.\<close>

definition threshold :: "(hexid \<Rightarrow> secs) \<Rightarrow> hexid \<Rightarrow> beacon \<Rightarrow> beacon \<times> secs" where
  "threshold draw peer b =
     (case map_of (bc_jitter b) peer of
        Some j \<Rightarrow> (b, max 0 (bc_after b + j))
      | None \<Rightarrow> (b\<lparr>bc_jitter := AList.update peer (draw peer) (bc_jitter b)\<rparr>, max 0 (bc_after b + draw peer)))"

text \<open>The peers of the channels we follow, each once.\<close>

definition channel_peers :: "net \<Rightarrow> store \<Rightarrow> subscriptions \<Rightarrow> py_error + hexid list" where
  "channel_peers n s u =
     ebind (foldl (\<lambda>acc sb. ebind acc (\<lambda>hs.
              ebind (compute_channel_recipients s u (sb_channel sb) (nt_self n)) (\<lambda>ds. Inr (hs @ ds)))) (Inr []) (st_subs s))
       (\<lambda>hs. Inr (removeAll (nt_self n) (remdups hs)))"

text \<open>The probes for the channels a peer shares, packed; \<open>Inl\<close> where a channel hash is not hexadecimal.\<close>

definition probe_value :: "net \<Rightarrow> secs \<Rightarrow> message_row list \<Rightarrow> hexid \<Rightarrow> bytes \<Rightarrow> pyval" where
  "probe_value n now rows ch b =
     (let (count, digest) = probe (sy_sha n) (signed_index rows ch (probe_floor now) None)
      in PList [PBytes b, PInt (int count), PBytes digest])"

fun probe_entries ::
    "net \<Rightarrow> secs \<Rightarrow> message_db \<Rightarrow> subscriptions \<Rightarrow> hexid \<Rightarrow> pyval list \<Rightarrow> hexid list \<Rightarrow> py_error + pyval list" where
  "probe_entries n now db u peer acc [] = Inr acc"
| "probe_entries n now db u peer acc (ch # chs) =
     ebind (compute_channel_recipients (db_store db) u ch (nt_self n)) (\<lambda>recipients.
       if peer \<notin> set recipients then probe_entries n now db u peer acc chs
       else case fromhex ch of
              None \<Rightarrow> Inl ValueError
            | Some b \<Rightarrow>
                (let acc = acc @ [probe_value n now (db_rows db) ch b]
                 in if length acc \<ge> MAX_PROBED_CHANNELS then Inr acc else probe_entries n now db u peer acc chs))"

definition probes_for :: "net \<Rightarrow> secs \<Rightarrow> message_db \<Rightarrow> subscriptions \<Rightarrow> hexid \<Rightarrow> py_error + bytes option" where
  "probes_for n now db u peer =
     ebind (probe_entries n now db u peer [] (map sb_channel (st_subs (db_store db)))) (\<lambda>es.
       Inr (if es = [] then None else Some (nt_packb n (PList es))))"

text \<open>\<^verbatim>\<open>_send_presence\<close>: whether it went out, \<open>Inl\<close> where it raises.\<close>

definition send_presence ::
    "net \<Rightarrow> secs \<Rightarrow> message_db \<Rightarrow> subscriptions \<Rightarrow> hexid \<Rightarrow> string \<Rightarrow> beacon \<Rightarrow> beacon \<times> (py_error + bool)" where
  "send_presence n now db u peer mt b =
     (case recall_peer n peer of
        Inl _ \<Rightarrow> (b, Inl ValueError)
      | Inr (d, None) \<Rightarrow> (b\<lparr>bc_paths := bc_paths b @ [d]\<rparr>, Inr False)
      | Inr (d, Some _) \<Rightarrow>
          (case (if mt = MT_PRESENCE then probes_for n now db u peer else Inr None) of
             Inl e \<Rightarrow> (b, Inl e)
           | Inr probes \<Rightarrow>
               (let fs = [(PInt F_MSG_TYPE, PStr mt)] @ (case probes of None \<Rightarrow> [] | Some v \<Rightarrow> [(PInt F_SYNC_PROBE, PBytes v)])
                in if nt_sends n peer Direct (envelope_of n fs)
                   then (record_sent now peer (b\<lparr>bc_sent := bc_sent b @ [(peer, fs)]\<rparr>), Inr True)
                   else (b, Inl ValueError))))"

fun send_presences ::
    "net \<Rightarrow> secs \<Rightarrow> message_db \<Rightarrow> subscriptions \<Rightarrow> string \<Rightarrow> hexid list \<Rightarrow> beacon \<Rightarrow> beacon \<times> (py_error + hexid list)" where
  "send_presences n now db u mt [] b = (b, Inr [])"
| "send_presences n now db u mt (peer # peers) b =
     (case send_presence n now db u peer mt b of
        (b, Inl e) \<Rightarrow> (b, Inl e)
      | (b, Inr went) \<Rightarrow>
          (case send_presences n now db u mt peers b of
             (b, r) \<Rightarrow> (b, ebind r (\<lambda>hs. Inr (if went then peer # hs else hs)))))"

fun beacon_quiet ::
    "net \<Rightarrow> secs \<Rightarrow> (hexid \<Rightarrow> secs) \<Rightarrow> message_db \<Rightarrow> subscriptions \<Rightarrow> presence \<Rightarrow> hexid list \<Rightarrow> beacon \<Rightarrow> beacon \<times> (py_error + unit)" where
  "beacon_quiet n now draw db u p [] b = (b, Inr ())"
| "beacon_quiet n now draw db u p (peer # peers) b =
     (let since = quiet_since p b peer; (b, limit) = threshold draw peer b
      in if now - since \<ge> limit
         then case send_presence n now db u peer MT_PRESENCE b of
                (b, Inl e) \<Rightarrow> (b, Inl e)
              | (b, Inr _) \<Rightarrow> beacon_quiet n now draw db u p peers b
         else beacon_quiet n now draw db u p peers b)"

definition beacon_tick ::
    "net \<Rightarrow> secs \<Rightarrow> (hexid \<Rightarrow> secs) \<Rightarrow> message_db \<Rightarrow> subscriptions \<Rightarrow> presence \<Rightarrow> beacon \<Rightarrow> beacon \<times> (py_error + unit)" where
  "beacon_tick n now draw db u p b =
     (case channel_peers n (db_store db) u of Inl e \<Rightarrow> (b, Inl e) | Inr peers \<Rightarrow> beacon_quiet n now draw db u p peers b)"

text \<open>\<open>gone\<close> says of which peers the goodbye left the process in time.\<close>

definition announce_offline ::
    "net \<Rightarrow> secs \<Rightarrow> (hexid \<Rightarrow> bool) \<Rightarrow> message_db \<Rightarrow> subscriptions \<Rightarrow> beacon \<Rightarrow> beacon \<times> (py_error + nat)" where
  "announce_offline n now gone db u b =
     (case channel_peers n (db_store db) u of
        Inl e \<Rightarrow> (b, Inl e)
      | Inr peers \<Rightarrow>
          (case send_presences n now db u MT_GOODBYE peers b of
             (b, r) \<Rightarrow> (b, ebind r (\<lambda>hs. Inr (length (filter gone hs))))))"

end
