(* ===== verification/Presence_Safety.thy ===== *)
theory Presence_Safety
  imports Presence
begin

text \<open>
  What presence says after any history: a peer is online exactly when the last we heard of it is recent and
  was no goodbye, and what the callbacks were told agrees with it but for one gap.
\<close>

section \<open>Histories\<close>

datatype presence_event = Seen secs hexid | Goodbye secs hexid | Prune secs

fun presence_step :: "presence_event \<Rightarrow> presence \<Rightarrow> presence" where
  "presence_step (Seen now peer) p = mark_seen now peer p"
| "presence_step (Goodbye now peer) p = record_offline now peer p"
| "presence_step (Prune now) p = prune_presence now p"

fun event_time :: "presence_event \<Rightarrow> secs" where
  "event_time (Seen now _) = now"
| "event_time (Goodbye now _) = now"
| "event_time (Prune now) = now"

text \<open>The specification: when the peer was last heard of, unless it said goodbye since.\<close>

fun evidence_step :: "hexid \<Rightarrow> presence_event \<Rightarrow> secs option \<Rightarrow> secs option" where
  "evidence_step h (Seen now peer) e = (if peer = h then Some now else e)"
| "evidence_step h (Goodbye now peer) e = (if peer = h then None else e)"
| "evidence_step h (Prune now) e = e"

definition evidence :: "presence_event list \<Rightarrow> hexid \<Rightarrow> secs option" where
  "evidence es h = fold (evidence_step h) es None"

text \<open>What the callbacks were last told of a peer.\<close>

definition last_told :: "presence \<Rightarrow> hexid \<Rightarrow> bool option" where
  "last_told p h = map_of (rev (pr_told p)) h"

definition presence_ok :: "presence \<Rightarrow> bool" where
  "presence_ok p \<longleftrightarrow> distinct (map fst (pr_last_seen p)) \<and> pr_self p \<notin> fst ` set (pr_last_seen p)
     \<and> (\<forall>h. h \<in> fst ` set (pr_last_seen p) \<longrightarrow> last_told p h = Some True)"

lemma map_of_filter_keys:
  "distinct (map fst d) \<Longrightarrow> map_of (filter P d) k = (case map_of d k of None \<Rightarrow> None | Some v \<Rightarrow> if P (k, v) then Some v else None)"
  by (induction d) (auto simp: map_of_eq_None_iff split: option.splits)

lemma told_snoc: "last_told (p\<lparr>pr_told := pr_told q @ [(peer, b)]\<rparr>) h = (if h = peer then Some b else last_told q h)"
  by (simp add: last_told_def)

lemma told_cong: "pr_told p = pr_told q \<Longrightarrow> last_told p h = last_told q h"
  by (simp add: last_told_def)

lemma told_pruned:
  assumes "h \<notin> fst ` set hs"
  shows "last_told (p\<lparr>pr_last_seen := d, pr_told := pr_told p @ map (\<lambda>(h, _). (h, False)) hs\<rparr>) h = last_told p h"
proof -
  have "map_of (rev (map (\<lambda>(h, _). (h, False)) hs)) h = None"
    using assms by (force simp: map_of_eq_None_iff)
  then show ?thesis by (simp add: last_told_def map_add_def)
qed

lemma presence_ok_step: "presence_ok p \<Longrightarrow> presence_ok (presence_step e p)"
proof (cases e)
  case (Seen now peer)
  assume ok: "presence_ok p"
  show ?thesis
  proof (cases "peer = pr_self p")
    case False
    let ?p = "mark_seen now peer p"
    have told: "last_told ?p h = (if h = peer then Some True else last_told p h)" for h
    proof (cases "online_locked now p peer")
      case True
      then have "peer \<in> fst ` set (pr_last_seen p)"
        by (cases "map_of (pr_last_seen p) peer") (auto simp: online_locked_def dest!: map_of_SomeD intro: rev_image_eqI)
      then have "last_told p peer = Some True" using ok by (simp add: presence_ok_def)
      then show ?thesis using True False by (simp add: mark_seen_def Let_def last_told_def)
    qed (use False in \<open>simp add: mark_seen_def Let_def last_told_def\<close>)
    have seen: "pr_last_seen ?p = AList.update peer now (pr_last_seen p)" "pr_self ?p = pr_self p"
      using False by (simp_all add: mark_seen_def Let_def)
    have "fst ` set (AList.update peer now (pr_last_seen p)) = insert peer (fst ` set (pr_last_seen p))"
      by (metis dom_map_of_conv_image_fst update_conv' fun_upd_def dom_fun_upd option.distinct(1))
    then show ?thesis using ok False told Seen by (auto simp: presence_ok_def seen distinct_update)
  qed (use ok Seen in \<open>simp add: mark_seen_def\<close>)
next
  case (Goodbye now peer)
  assume ok: "presence_ok p"
  have "fst ` set (AList.delete peer (pr_last_seen p)) = fst ` set (pr_last_seen p) - {peer}"
    by (metis dom_map_of_conv_image_fst delete_conv' dom_fun_upd)
  then show ?thesis using ok Goodbye
    by (auto simp: presence_ok_def record_offline_def Let_def distinct_delete last_told_def)
next
  case (Prune now)
  assume ok: "presence_ok p"
  let ?fresh = "\<lambda>x. \<not> now - snd x \<ge> pr_timeout p"
  have d: "distinct (map fst (pr_last_seen p))" using ok by (simp add: presence_ok_def)
  have apart: "h \<notin> fst ` set (filter (\<lambda>(_, t). now - t \<ge> pr_timeout p) (pr_last_seen p))"
    if "h \<in> fst ` set (filter (\<lambda>(_, t). \<not> now - t \<ge> pr_timeout p) (pr_last_seen p))" for h
    using that d by (auto simp: eq_key_imp_eq_value dest: eq_key_imp_eq_value [OF d])
  show ?thesis using ok Prune apart d
    by (auto simp: presence_ok_def prune_presence_def Let_def told_pruned distinct_map_filter)
qed

interpretation presences: machine "new_presence self timeout" presence_step presence_ok for self timeout
  by unfold_locales (simp add: presence_ok_def new_presence_def, rule presence_ok_step)


lemma presence_constants:
  "pr_self (presence_step e p) = pr_self p \<and> pr_timeout (presence_step e p) = pr_timeout p"
  by (cases e) (simp_all add: mark_seen_def record_offline_def prune_presence_def Let_def)

lemma presence_constants_fold:
  "pr_self (fold presence_step es p) = pr_self p \<and> pr_timeout (fold presence_step es p) = pr_timeout p"
  by (induction es arbitrary: p) (simp_all add: presence_constants)

lemma presence_ok_history: "presence_ok (fold presence_step es (new_presence self timeout))"
  by (rule presences.inv_run)

section \<open>Online means recently heard of\<close>

text \<open>The table holds the evidence, or has dropped it as too old.\<close>

definition tracks :: "secs \<Rightarrow> presence \<Rightarrow> hexid \<Rightarrow> secs option \<Rightarrow> bool" where
  "tracks now p h e \<longleftrightarrow> map_of (pr_last_seen p) h = e
     \<or> map_of (pr_last_seen p) h = None \<and> (\<exists>t. e = Some t \<and> now - t \<ge> pr_timeout p)"

lemma tracks_later: "tracks t p h e \<Longrightarrow> t \<le> now \<Longrightarrow> tracks now p h e"
  unfolding tracks_def by force

lemma tracks_step:
  assumes "tracks (event_time e) p h ev" "h \<noteq> pr_self p" "presence_ok p"
  shows "tracks (event_time e) (presence_step e p) h (evidence_step h e ev)"
proof (cases e)
  case (Seen now peer)
  then show ?thesis using assms by (auto simp: tracks_def mark_seen_def Let_def update_conv')
next
  case (Goodbye now peer)
  then show ?thesis using assms by (auto simp: tracks_def record_offline_def Let_def delete_conv')
next
  case (Prune now)
  have "distinct (map fst (pr_last_seen p))" using assms(3) by (simp add: presence_ok_def)
  then show ?thesis using assms(1) Prune
    by (auto simp: tracks_def prune_presence_def Let_def map_of_filter_keys split: option.splits)
qed

lemma tracks_history:
  assumes "h \<noteq> self"
  shows "sorted (map event_time es) \<Longrightarrow> \<forall>e \<in> set es. event_time e \<le> now
    \<Longrightarrow> tracks now (fold presence_step es (new_presence self timeout)) h (evidence es h)"
proof (induction es arbitrary: now rule: rev_induct)
  case Nil
  show ?case by (simp add: tracks_def evidence_def new_presence_def)
next
  case (snoc e es)
  let ?p = "fold presence_step es (new_presence self timeout)"
  have "tracks (event_time e) ?p h (evidence es h)"
    using snoc.prems(1) by (intro snoc.IH) (auto simp: sorted_append)
  moreover have "h \<noteq> pr_self ?p" using assms by (simp add: presence_constants_fold new_presence_def)
  ultimately have "tracks (event_time e) (presence_step e ?p) h (evidence_step h e (evidence es h))"
    using presence_ok_history by (rule tracks_step)
  then show ?case using snoc.prems(2) by (auto simp: evidence_def intro: tracks_later)
qed

text \<open>C28. For any history of announces, messages, goodbyes and prunings in the order of the clock, a peer is
  shown online exactly when it is ourselves, or when it was heard of less than the timeout ago and has not
  said goodbye since: pruning never hides a live peer and never keeps a dead one.\<close>

theorem presence_is_recent_evidence:
  assumes "sorted (map event_time es)" "\<forall>e \<in> set es. event_time e \<le> now"
  shows "is_online now (fold presence_step es (new_presence self timeout)) h \<longleftrightarrow>
           h = self \<or> (case evidence es h of None \<Rightarrow> False | Some t \<Rightarrow> now - t < timeout)"
proof (cases "h = self")
  case False
  let ?p = "fold presence_step es (new_presence self timeout)"
  have "pr_self ?p = self" "pr_timeout ?p = timeout"
    by (simp_all add: presence_constants_fold) (simp_all add: new_presence_def)
  with tracks_history [OF False assms, of timeout] False show ?thesis
    by (auto simp: is_online_def online_locked_def tracks_def split: option.splits)
qed (simp add: is_online_def presence_constants_fold, simp add: new_presence_def)

theorem presence_is_recent_evidence_witness:
  "is_online 400 (fold presence_step [Seen 10 ''aa'', Seen 200 ''bb'', Prune 350, Goodbye 360 ''aa'', Seen 370 ''cc'']
     (new_presence ''00'' 300)) ''bb''"
  by (subst presence_is_recent_evidence) (simp_all add: evidence_def)

section \<open>A goodbye that comes late\<close>

lemma pruned_silently:
  "map_of (pr_last_seen p) h = None \<Longrightarrow> map_of (pr_last_seen (prune_presence now p)) h = None
     \<and> last_told (prune_presence now p) h = last_told p h"
proof -
  assume "map_of (pr_last_seen p) h = None"
  then have "h \<notin> fst ` set (filter P (pr_last_seen p))" for P by (auto simp: map_of_eq_None_iff)
  then show ?thesis by (simp add: prune_presence_def Let_def told_pruned map_of_eq_None_iff)
qed

lemma pruned_silently_always:
  "map_of (pr_last_seen p) h = None \<Longrightarrow> last_told (fold presence_step (map Prune ts) p) h = last_told p h"
  by (induction ts arbitrary: p) (simp_all add: pruned_silently)

text \<open>C37. Where a peer's goodbye arrives after its last sign of life has expired but before the next pruning,
  nothing is announced: the peer leaves the table, so that it is offline at every time after and no later
  pruning finds it, and the callbacks, last told that it is online, are never told otherwise.\<close>

theorem goodbye_after_expiry_unannounced:
  assumes "map_of (pr_last_seen (fold presence_step es (new_presence self timeout))) h = Some t" "now - t \<ge> timeout"
  defines "q \<equiv> record_offline now h (fold presence_step es (new_presence self timeout))"
  shows "\<not> is_online any_time q h \<and> last_told (fold presence_step (map Prune ts) q) h = Some True"
proof -
  let ?p = "fold presence_step es (new_presence self timeout)"
  have in_table: "h \<in> fst ` set (pr_last_seen ?p)" using assms(1) by (force dest: map_of_SomeD)
  have ok: "presence_ok ?p" by (rule presence_ok_history)
  have h: "h \<noteq> self" using ok in_table by (auto simp: presence_ok_def presence_constants_fold new_presence_def)
  have q: "q = ?p\<lparr>pr_last_seen := AList.delete h (pr_last_seen ?p)\<rparr>"
    using assms(1,2) h by (simp add: q_def record_offline_def Let_def online_locked_def presence_constants_fold new_presence_def)
  have gone: "map_of (pr_last_seen q) h = None" by (simp add: q delete_conv')
  have "last_told q h = Some True" using ok in_table by (simp add: q presence_ok_def last_told_def)
  then show ?thesis using gone h
    by (simp add: pruned_silently_always is_online_def online_locked_def q presence_constants_fold new_presence_def)
qed

theorem goodbye_after_expiry_unannounced_witness:
  "\<exists>q. q = record_offline 320 ''aa'' (fold presence_step [Seen 10 ''aa''] (new_presence ''00'' 300))
     \<and> \<not> is_online 330 q ''aa'' \<and> last_told (fold presence_step (map Prune [340, 900]) q) ''aa'' = Some True"
  using goodbye_after_expiry_unannounced [where es = "[Seen 10 ''aa'']" and self = "''00''" and timeout = 300
      and h = "''aa''" and t = 10 and now = 320 and any_time = 330 and ts = "[340, 900]"]
  by (simp add: mark_seen_def new_presence_def online_locked_def)

end
