(* ===== verification/File_Store.thy ===== *)
theory File_Store
  imports Messages
begin

text \<open>
  The shared file tables of \<^verbatim>\<open>trenchchat/core/storage.py\<close>: one row per file held or being
  downloaded, one row per stored chunk, the three budgets and the evictions that keep to them. Sizes are
  integers, chunk indices naturals. Whether the database has room for a chunk is the argument \<open>room\<close>; rows
  with equal sort keys come in the order of the table.
\<close>

section \<open>Tables\<close>

definition FILE_STORE_MAX_BYTES :: int where "FILE_STORE_MAX_BYTES = 256 * 1024 * 1024"
definition OWN_FILE_STORE_MAX_BYTES :: int where "OWN_FILE_STORE_MAX_BYTES = 256 * 1024 * 1024"
definition PARTIAL_STORE_MAX_BYTES :: int where "PARTIAL_STORE_MAX_BYTES = 20 * 1024 * 1024"
definition PARTIAL_FILE_TTL_SECS :: secs where "PARTIAL_FILE_TTL_SECS = SYNC_WINDOW_SECS"

record file_row =
  sf_hash :: hexid
  sf_size :: int
  sf_chunks :: nat
  sf_held :: int
  sf_complete :: bool
  sf_own :: bool
  sf_stored :: secs
  sf_used :: secs

record chunk_row =
  ck_hash :: hexid
  ck_idx :: nat
  ck_content :: bytes

record file_store =
  fs_files :: "file_row list"
  fs_chunks :: "chunk_row list"

text \<open>How many chunks a file of a size makes.\<close>

definition chunk_count_for :: "int \<Rightarrow> nat" where
  "chunk_count_for n = nat ((n + int FILE_CHUNK_BYTES - 1) div int FILE_CHUNK_BYTES)"

lemma chunk_count_for_code [code]: "chunk_count_for n = nat ((n + 32767) div 32768)"
  by (simp add: chunk_count_for_def FILE_CHUNK_BYTES_def)

section \<open>Rows\<close>

definition begin_file :: "secs \<Rightarrow> hexid \<Rightarrow> int \<Rightarrow> bool \<Rightarrow> file_store \<Rightarrow> file_store" where
  "begin_file now h n own fs =
     fs\<lparr>fs_files := upsert sf_hash
          \<lparr>sf_hash = h, sf_size = n, sf_chunks = chunk_count_for n, sf_held = 0, sf_complete = False, sf_own = own,
           sf_stored = now, sf_used = now\<rparr>
          (\<lambda>r. r\<lparr>sf_own := sf_own r \<or> own, sf_used := now\<rparr>) (fs_files fs)\<rparr>"

definition ck_key :: "chunk_row \<Rightarrow> hexid \<times> nat" where
  "ck_key c = (ck_hash c, ck_idx c)"

definition add_chunk :: "secs \<Rightarrow> hexid \<Rightarrow> nat \<Rightarrow> bytes \<Rightarrow> file_store \<Rightarrow> file_store" where
  "add_chunk now h i content fs =
     (if has_key ck_key (fs_chunks fs) (h, i) then fs
      else fs\<lparr>fs_chunks := fs_chunks fs @ [\<lparr>ck_hash = h, ck_idx = i, ck_content = content\<rparr>],
              fs_files := update_where (\<lambda>r. sf_hash r = h)
                (\<lambda>r. r\<lparr>sf_held := sf_held r + int (length content), sf_used := now\<rparr>) (fs_files fs)\<rparr>)"

definition put_file_chunk ::
    "(hexid \<Rightarrow> nat \<Rightarrow> bool) \<Rightarrow> secs \<Rightarrow> hexid \<Rightarrow> nat \<Rightarrow> bytes \<Rightarrow> file_store \<Rightarrow> file_store \<times> bool" where
  "put_file_chunk room now h i content fs = (if room h i then (add_chunk now h i content fs, True) else (fs, False))"

definition chunks_of_file :: "file_store \<Rightarrow> hexid \<Rightarrow> chunk_row list" where
  "chunks_of_file fs h = sort_key ck_idx (filter (\<lambda>c. ck_hash c = h) (fs_chunks fs))"

definition file_chunk_indices :: "file_store \<Rightarrow> hexid \<Rightarrow> nat list" where
  "file_chunk_indices fs h = map ck_idx (chunks_of_file fs h)"

definition get_file_chunks :: "file_store \<Rightarrow> hexid \<Rightarrow> nat \<Rightarrow> nat \<Rightarrow> bytes list" where
  "get_file_chunks fs h first n =
     map ck_content (filter (\<lambda>c. first \<le> ck_idx c \<and> ck_idx c < first + n) (chunks_of_file fs h))"

definition get_file :: "file_store \<Rightarrow> hexid \<Rightarrow> file_row option" where
  "get_file fs h = row_of sf_hash (fs_files fs) h"

definition get_file_bytes :: "file_store \<Rightarrow> hexid \<Rightarrow> bytes option" where
  "get_file_bytes fs h =
     (case get_file fs h of
        None \<Rightarrow> None
      | Some r \<Rightarrow> if sf_complete r then Some (concat (map ck_content (chunks_of_file fs h))) else None)"

definition mark_file_complete :: "secs \<Rightarrow> hexid \<Rightarrow> file_store \<Rightarrow> file_store" where
  "mark_file_complete now h fs =
     fs\<lparr>fs_files := update_where (\<lambda>r. sf_hash r = h) (\<lambda>r. r\<lparr>sf_complete := True, sf_used := now\<rparr>) (fs_files fs)\<rparr>"

definition touch_file :: "secs \<Rightarrow> hexid \<Rightarrow> file_store \<Rightarrow> file_store" where
  "touch_file now h fs = fs\<lparr>fs_files := update_where (\<lambda>r. sf_hash r = h) (\<lambda>r. r\<lparr>sf_used := now\<rparr>) (fs_files fs)\<rparr>"

definition delete_file :: "hexid \<Rightarrow> file_store \<Rightarrow> file_store" where
  "delete_file h fs =
     fs\<lparr>fs_chunks := delete_where (\<lambda>c. ck_hash c = h) (fs_chunks fs),
        fs_files := delete_where (\<lambda>r. sf_hash r = h) (fs_files fs)\<rparr>"

definition delete_files :: "hexid list \<Rightarrow> file_store \<Rightarrow> file_store" where
  "delete_files hs fs = fold delete_file hs fs"

text \<open>The file columns of a message row: the hash as text, as \<^verbatim>\<open>insert_message\<close> writes it.\<close>

definition row_file_hash :: "message_row \<Rightarrow> hexid option" where
  "row_file_hash r = (case ms_manifest r of None \<Rightarrow> None | Some m \<Rightarrow> map_option to_hex (man_hash m))"

definition file_channels :: "message_row list \<Rightarrow> hexid \<Rightarrow> hexid list" where
  "file_channels rows h = remdups (map ms_channel (filter (\<lambda>r. row_file_hash r = Some h) rows))"

definition messages_for_file :: "message_row list \<Rightarrow> hexid \<Rightarrow> message_row list" where
  "messages_for_file rows h = sort_key ms_ts (filter (\<lambda>r. row_file_hash r = Some h) rows)"

definition list_files :: "file_store \<Rightarrow> bool option \<Rightarrow> bool option \<Rightarrow> file_row list" where
  "list_files fs whole own =
     sort_key (\<lambda>r. - sf_used r)
       (filter (\<lambda>r. (whole = None \<or> whole = Some (sf_complete r)) \<and> (own = None \<or> own = Some (sf_own r))) (fs_files fs))"

section \<open>Budgets\<close>

record file_usage =
  fu_own :: int
  fu_received :: int
  fu_partial :: int

definition held_sum :: "(file_row \<Rightarrow> bool) \<Rightarrow> file_row list \<Rightarrow> int" where
  "held_sum p rows = sum_list (map sf_held (filter p rows))"

definition is_received :: "file_row \<Rightarrow> bool" where "is_received r \<longleftrightarrow> \<not> sf_own r \<and> sf_complete r"
definition is_partial :: "file_row \<Rightarrow> bool" where "is_partial r \<longleftrightarrow> \<not> sf_own r \<and> \<not> sf_complete r"

definition usage_without :: "hexid option \<Rightarrow> file_store \<Rightarrow> file_usage" where
  "usage_without excl fs =
     (let rows = filter (\<lambda>r. excl \<noteq> Some (sf_hash r)) (fs_files fs)
      in \<lparr>fu_own = held_sum sf_own rows, fu_received = held_sum is_received rows, fu_partial = held_sum is_partial rows\<rparr>)"

definition file_store_usage :: "file_store \<Rightarrow> file_usage" where
  "file_store_usage fs = usage_without None fs"

fun evict_files :: "file_row list \<Rightarrow> int \<Rightarrow> file_store \<Rightarrow> file_store" where
  "evict_files [] needed fs = fs"
| "evict_files (r # rows) needed fs =
     (if 0 \<ge> needed then fs else evict_files rows (needed - sf_held r) (delete_file (sf_hash r) fs))"

definition make_room :: "(file_row \<Rightarrow> bool) \<Rightarrow> (file_row \<Rightarrow> secs) \<Rightarrow> hexid \<Rightarrow> int \<Rightarrow> file_store \<Rightarrow> file_store" where
  "make_room p key h needed fs =
     (if needed > 0 then evict_files (sort_key key (filter (\<lambda>r. p r \<and> sf_hash r \<noteq> h) (fs_files fs))) needed fs else fs)"

definition admit_file :: "hexid \<Rightarrow> int \<Rightarrow> bool \<Rightarrow> file_store \<Rightarrow> file_store \<times> bool" where
  "admit_file h n own fs =
     (if own then (fs, n \<le> OWN_FILE_STORE_MAX_BYTES \<and> fu_own (usage_without (Some h) fs) + n \<le> OWN_FILE_STORE_MAX_BYTES)
      else if n > FILE_STORE_MAX_BYTES \<or> n > PARTIAL_STORE_MAX_BYTES then (fs, False)
      else let fs = make_room is_received sf_used h (fu_received (usage_without (Some h) fs) + n - FILE_STORE_MAX_BYTES) fs;
               fs = make_room is_partial sf_stored h (fu_partial (usage_without (Some h) fs) + n - PARTIAL_STORE_MAX_BYTES) fs;
               u = usage_without (Some h) fs
           in (fs, fu_received u + n \<le> FILE_STORE_MAX_BYTES \<and> fu_partial u + n \<le> PARTIAL_STORE_MAX_BYTES))"

text \<open>The files past the budget, in the order given: the total counts those deleted before.\<close>

fun over_budget :: "int \<Rightarrow> file_row list \<Rightarrow> hexid list" where
  "over_budget sum_so_far [] = []"
| "over_budget sum_so_far (r # rows) =
     (let sum_so_far = sum_so_far + sf_held r
      in if sum_so_far > FILE_STORE_MAX_BYTES then sf_hash r # over_budget sum_so_far rows else over_budget sum_so_far rows)"

definition prune_files :: "secs \<Rightarrow> file_store \<Rightarrow> file_store \<times> nat" where
  "prune_files now fs =
     (let stale = map sf_hash (filter (\<lambda>r. is_partial r \<and> sf_stored r < now - PARTIAL_FILE_TTL_SECS) (fs_files fs));
          fs = delete_files stale fs;
          excess = over_budget 0 (list_files fs (Some True) (Some False))
      in (delete_files excess fs, length stale + length excess))"

end
