(* ===== verification/Files.thy ===== *)
theory Files
  imports File_Store Presence
begin

text \<open>
  \<^verbatim>\<open>trenchchat/core/files.py\<close>: the download engine, the choice of holders and the serving of members.
  An operation reads a \<open>file_env\<close>: the clock, the tables and presence as they stand, what the transport answers,
  and the fetch id \<^verbatim>\<open>os.urandom\<close> would give. A request handed to the transport is recorded in
  \<open>fm_issued\<close>, and its outcome comes back as a later call of \<open>on_result\<close>; the snapshots handed to the callbacks
  are recorded in order. Python sets are lists without repetition.
\<close>

section \<open>Constants\<close>

definition MAX_HOLDER_ATTEMPTS :: nat where "MAX_HOLDER_ATTEMPTS = 4"
definition WINDOW_GROWTH_STREAK :: nat where "WINDOW_GROWTH_STREAK = 2"
definition DOWNLOAD_RETRY_SECS :: secs where "DOWNLOAD_RETRY_SECS = 120"
definition MAX_DOWNLOAD_RETRY_SECS :: secs where "MAX_DOWNLOAD_RETRY_SECS = 3600"
definition CACHE_PRUNE_INTERVAL_SECS :: secs where "CACHE_PRUNE_INTERVAL_SECS = 300"
definition FILE_ANNOUNCE_INTERVAL_SECS :: secs where "FILE_ANNOUNCE_INTERVAL_SECS = 300"
definition CHUNK_HASH_BYTES :: nat where "CHUNK_HASH_BYTES = 32"
definition FILE_REQUEST_MAX_CHUNKS :: nat where "FILE_REQUEST_MAX_CHUNKS = 16"
definition MAX_FILENAME_CHARS :: nat where "MAX_FILENAME_CHARS = 128"

datatype dl_state = DL_QUEUED | DL_FETCHING | DL_DONE | DL_UNAVAILABLE | DL_FAILED
datatype dl_reason = REASON_STORAGE | REASON_NO_HOLDER | REASON_REFUSED | REASON_CORRUPT

section \<open>Manifests of files to share\<close>

text \<open>\<^verbatim>\<open>clean_filename\<close> of \<^verbatim>\<open>core/fileutils.py\<close>.\<close>

definition clean_filename :: "(bytes \<Rightarrow> string) \<Rightarrow> pyval \<Rightarrow> string option" where
  "clean_filename decode v =
     (case (case v of PBytes b \<Rightarrow> Some (decode b) | PStr s \<Rightarrow> Some s | _ \<Rightarrow> None) of
        None \<Rightarrow> None
      | Some s \<Rightarrow>
          (let s = map (\<lambda>c. if c = CHR 0x5C then CHR ''/'' else c) s;
               s = rev (takeWhile (\<lambda>c. c \<noteq> CHR ''/'') (rev s));
               s = filter (\<lambda>c. is_printable c \<and> c \<noteq> CHR 0x22 \<and> c \<noteq> CHR 0x5C) s;
               s = take MAX_FILENAME_CHARS (strip_by (\<lambda>c. c = CHR ''.'') (strip_by is_py_space s))
           in if s = [] then None else Some s))"

definition build_manifest :: "(bytes \<Rightarrow> bytes) \<Rightarrow> (bytes \<Rightarrow> string) \<Rightarrow> pyval \<Rightarrow> bytes \<Rightarrow> manifest option" where
  "build_manifest sha decode name data =
     (case clean_filename decode name of
        None \<Rightarrow> None
      | Some cleaned \<Rightarrow>
          if data = [] then None
          else file_manifest (PStr cleaned) (PInt (int (length data))) (Some (sha data)) (Some (chunk_root sha (chunk_hashes sha data))))"

definition chunk_size_at :: "int \<Rightarrow> nat \<Rightarrow> nat" where
  "chunk_size_at n i =
     (let k = chunk_count_for n
      in if i + 1 < k then FILE_CHUNK_BYTES else nat (n - (int k - 1) * int FILE_CHUNK_BYTES))"

text \<open>The size and digests of a manifest that passed \<open>file_manifest\<close>, which are all there.\<close>

definition man_bytes :: "manifest \<Rightarrow> int" where
  "man_bytes m = (case man_size m of PInt k \<Rightarrow> k | _ \<Rightarrow> 0)"

definition man_digest :: "manifest \<Rightarrow> bytes" where
  "man_digest m = or_else [] (man_hash m)"

definition man_chunk_root :: "manifest \<Rightarrow> bytes" where
  "man_chunk_root m = or_else [] (man_root m)"

section \<open>One download\<close>

record download =
  dl_manifest :: manifest
  dl_hash :: hexid
  dl_size :: int
  dl_count :: nat
  dl_status :: dl_state
  dl_why :: "dl_reason option"
  dl_progress :: rat
  dl_holder :: "hexid option"
  dl_messages :: "string list"
  dl_channels :: "hexid list"
  dl_senders :: "hexid list"
  dl_held :: "nat list"
  dl_chunk_list :: "bytes list option"
  dl_window :: nat
  dl_wins :: nat
  dl_attempts :: nat
  dl_skipped :: "hexid list"
  dl_suspect :: "hexid list"
  dl_refused :: "hexid list"
  dl_contributors :: "hexid list"
  dl_admitted :: bool
  dl_fetch :: "string option"
  dl_wants_list :: bool
  dl_retry_at :: secs
  dl_backoff :: secs

definition new_download :: "manifest \<Rightarrow> download" where
  "new_download m =
     \<lparr>dl_manifest = m, dl_hash = to_hex (man_digest m), dl_size = man_bytes m, dl_count = chunk_count_for (man_bytes m),
      dl_status = DL_QUEUED, dl_why = None, dl_progress = 0, dl_holder = None, dl_messages = [], dl_channels = [],
      dl_senders = [], dl_held = [], dl_chunk_list = None, dl_window = 1, dl_wins = 0, dl_attempts = 0,
      dl_skipped = [], dl_suspect = [], dl_refused = [], dl_contributors = [], dl_admitted = False, dl_fetch = None,
      dl_wants_list = False, dl_retry_at = 0, dl_backoff = DOWNLOAD_RETRY_SECS\<rparr>"

definition grow_window :: "download \<Rightarrow> download" where
  "grow_window d =
     (let d = d\<lparr>dl_wins := dl_wins d + 1\<rparr>
      in if dl_wins d \<ge> WINDOW_GROWTH_STREAK
         then d\<lparr>dl_wins := 0, dl_window := min (dl_window d * 2) FILE_REQUEST_MAX_CHUNKS\<rparr> else d)"

definition shrink_window :: "download \<Rightarrow> download" where
  "shrink_window d = d\<lparr>dl_wins := 0, dl_window := max 1 (dl_window d div 2)\<rparr>"

definition reset_window :: "download \<Rightarrow> download" where
  "reset_window d = d\<lparr>dl_wins := 0, dl_window := 1\<rparr>"

definition note_progress :: "download \<Rightarrow> download" where
  "note_progress d =
     (if dl_count d = 0 then d
      else d\<lparr>dl_progress := max (dl_progress d) (of_nat (length (dl_held d)) / of_nat (dl_count d))\<rparr>)"

definition next_index :: "download \<Rightarrow> nat option" where
  "next_index d = find (\<lambda>i. i \<notin> set (dl_held d)) [0..<dl_count d]"

record dl_snapshot =
  sn_hash :: hexid
  sn_name :: pyval
  sn_size :: int
  sn_state :: dl_state
  sn_progress :: rat
  sn_reason :: "dl_reason option"
  sn_holder :: "hexid option"
  sn_messages :: "string list"
  sn_channels :: "hexid list"
  sn_held :: nat
  sn_count :: nat

definition dl_snap :: "download \<Rightarrow> dl_snapshot" where
  "dl_snap d =
     \<lparr>sn_hash = dl_hash d, sn_name = man_name (dl_manifest d), sn_size = dl_size d, sn_state = dl_status d,
      sn_progress = dl_progress d, sn_reason = dl_why d, sn_holder = dl_holder d, sn_messages = dl_messages d,
      sn_channels = sort (dl_channels d), sn_held = length (dl_held d), sn_count = dl_count d\<rparr>"

section \<open>The manager\<close>

datatype file_request = FetchList string hexid hexid | FetchChunks string hexid hexid "nat option" nat

record file_env =
  fe_now :: secs
  fe_db :: message_db
  fe_presence :: presence
  fe_self :: hexid
  fe_sha :: "bytes \<Rightarrow> bytes"
  fe_decode :: "bytes \<Rightarrow> string"
  fe_transport :: bool
  fe_reach :: "hexid \<Rightarrow> bool"
  fe_room :: "hexid \<Rightarrow> nat \<Rightarrow> bool"
  fe_fetch_id :: string

record files =
  fm_files :: file_store
  fm_downloads :: "(hexid \<times> download) list"
  fm_order :: "hexid list"
  fm_by_fetch :: "(string \<times> hexid) list"
  fm_active :: "hexid option"
  fm_last_holder :: "(hexid \<times> hexid) list"
  fm_chunk_lists :: "(hexid \<times> bytes) list"
  fm_told :: "dl_snapshot list"
  fm_issued :: "file_request list"
  fm_last_prune :: secs
  fm_last_announce :: secs
  fm_announced :: nat

definition put_dl :: "hexid \<Rightarrow> download \<Rightarrow> files \<Rightarrow> files" where
  "put_dl h d fm = fm\<lparr>fm_downloads := AList.update h d (fm_downloads fm)\<rparr>"

definition tell_dl :: "hexid \<Rightarrow> download \<Rightarrow> files \<Rightarrow> files" where
  "tell_dl h d fm = (put_dl h d fm)\<lparr>fm_told := fm_told fm @ [dl_snap d]\<rparr>"

definition get_dl :: "files \<Rightarrow> hexid \<Rightarrow> download option" where
  "get_dl fm h = map_of (fm_downloads fm) h"

definition store_do :: "(file_store \<Rightarrow> file_store) \<Rightarrow> files \<Rightarrow> files" where
  "store_do f fm = fm\<lparr>fm_files := f (fm_files fm)\<rparr>"

definition manifest_from_row :: "message_row \<Rightarrow> manifest option" where
  "manifest_from_row r =
     (case ms_manifest r of
        None \<Rightarrow> None
      | Some m \<Rightarrow>
          file_manifest (man_name m) (man_size m) (Option.bind (row_file_hash r) fromhex)
            (fromhex (or_else [] (map_option to_hex (man_root m)))))"

definition attach_message :: "hexid \<Rightarrow> message_row \<Rightarrow> download \<Rightarrow> download" where
  "attach_message self r d =
     (let d = (if ms_id r \<in> set (dl_messages d) then d else d\<lparr>dl_messages := dl_messages d @ [ms_id r]\<rparr>);
          d = d\<lparr>dl_channels := List.insert (ms_channel r) (dl_channels d)\<rparr>
      in if ms_sender r \<noteq> [] \<and> ms_sender r \<noteq> self \<and> ms_sender r \<notin> set (dl_senders d)
         then d\<lparr>dl_senders := dl_senders d @ [ms_sender r]\<rparr> else d)"

definition admit_dl :: "file_env \<Rightarrow> hexid \<Rightarrow> download \<Rightarrow> files \<Rightarrow> files" where
  "admit_dl e h d fm =
     (let (fs, ok) = admit_file h (dl_size d) False (fm_files fm); fm = fm\<lparr>fm_files := fs\<rparr>
      in if ok
         then let fm = store_do (begin_file (fe_now e) h (dl_size d) False) fm;
                  d = note_progress (d\<lparr>dl_admitted := True, dl_held := file_chunk_indices (fm_files fm) h\<rparr>)
              in if dl_why d = Some REASON_STORAGE then tell_dl h (d\<lparr>dl_why := None\<rparr>) fm else put_dl h d fm
         else if dl_status d \<noteq> DL_QUEUED \<or> dl_why d \<noteq> Some REASON_STORAGE
         then tell_dl h (d\<lparr>dl_status := DL_QUEUED, dl_why := Some REASON_STORAGE\<rparr>) fm else put_dl h d fm)"

section \<open>Holders\<close>

definition dl_file_channels :: "file_env \<Rightarrow> download \<Rightarrow> hexid list" where
  "dl_file_channels e d = remdups (file_channels (db_rows (fe_db e)) (dl_hash d) @ dl_channels d)"

definition add_peer :: "hexid \<Rightarrow> hexid list \<Rightarrow> hexid \<Rightarrow> hexid list" where
  "add_peer self ordered peer = (if peer = [] \<or> peer = self \<or> peer \<in> set ordered then ordered else ordered @ [peer])"

definition candidates :: "file_env \<Rightarrow> files \<Rightarrow> download \<Rightarrow> hexid list" where
  "candidates e fm d =
     (let members = concat (map (\<lambda>ch. map mb_id (get_members (db_store (fe_db e)) ch)) (dl_file_channels e d))
      in foldl (add_peer (fe_self e)) []
           (get_or [] (fm_last_holder fm) (dl_hash d) # dl_senders d @ sort_key (\<lambda>m. - last_seen_at (fe_presence e) m) members))"

definition peer_may_hold :: "file_env \<Rightarrow> download \<Rightarrow> hexid \<Rightarrow> bool" where
  "peer_may_hold e d peer =
     (peer \<in> set (dl_senders d) \<or> list_ex (\<lambda>ch. is_member (db_store (fe_db e)) ch peer) (dl_file_channels e d))"

definition holder_tier :: "file_env \<Rightarrow> hexid \<Rightarrow> nat" where
  "holder_tier e peer =
     (if fe_reach e peer then 0 else 2) + (if is_online (fe_now e) (fe_presence e) peer then 0 else 1)"

text \<open>The first candidate of the best tier, which is where the loop over the tiers ends.\<close>

definition next_holder :: "file_env \<Rightarrow> files \<Rightarrow> download \<Rightarrow> hexid option" where
  "next_holder e fm d =
     (if dl_attempts d \<ge> MAX_HOLDER_ATTEMPTS then None
      else let cs = filter (\<lambda>p. p \<notin> set (dl_suspect d) \<and> p \<notin> set (dl_skipped d)) (candidates e fm d);
               tiers = map (\<lambda>t. find (\<lambda>p. holder_tier e p = t) cs) [0, 1, 2, 3]
           in (case filter (\<lambda>x. x \<noteq> None) tiers of [] \<Rightarrow> None | x # _ \<Rightarrow> x))"

definition all_refused :: "file_env \<Rightarrow> files \<Rightarrow> download \<Rightarrow> bool" where
  "all_refused e fm d =
     (let cs = candidates e fm d
      in cs \<noteq> [] \<and> dl_refused d \<noteq> [] \<and> list_all (\<lambda>p. p \<in> set (dl_refused d) \<or> p \<in> set (dl_suspect d)) cs)"

section \<open>Issuing requests\<close>

fun activate_from :: "file_env \<Rightarrow> hexid list \<Rightarrow> files \<Rightarrow> files" where
  "activate_from e [] fm = fm"
| "activate_from e (h # hs) fm =
     (case get_dl fm h of
        None \<Rightarrow> activate_from e hs fm
      | Some d \<Rightarrow>
          if dl_status d \<noteq> DL_QUEUED then activate_from e hs fm
          else let fm = (if dl_admitted d then fm else admit_dl e h d fm)
               in (case get_dl fm h of
                     None \<Rightarrow> activate_from e hs fm
                   | Some d \<Rightarrow> if dl_admitted d then fm\<lparr>fm_active := Some h\<rparr> else activate_from e hs fm))"

definition activate_next :: "file_env \<Rightarrow> files \<Rightarrow> files" where
  "activate_next e fm = activate_from e (fm_order fm) (fm\<lparr>fm_active := None\<rparr>)"

definition active_dl :: "files \<Rightarrow> download option" where
  "active_dl fm = (case fm_active fm of None \<Rightarrow> None | Some h \<Rightarrow> get_dl fm h)"

definition stall :: "file_env \<Rightarrow> hexid \<Rightarrow> download \<Rightarrow> files \<Rightarrow> files" where
  "stall e h d fm =
     (let d = d\<lparr>dl_holder := None\<rparr>;
          d = (if all_refused e fm d then d\<lparr>dl_status := DL_FAILED, dl_why := Some REASON_REFUSED\<rparr>
               else d\<lparr>dl_status := DL_UNAVAILABLE, dl_why := Some REASON_NO_HOLDER, dl_retry_at := fe_now e + dl_backoff d\<rparr>)
      in (tell_dl h d fm)\<lparr>fm_active := None\<rparr>)"

text \<open>How far a range from \<open>first\<close> extends: over chunks not held, up to the window.\<close>

definition range_count :: "download \<Rightarrow> nat \<Rightarrow> nat" where
  "range_count d first =
     1 + length (takeWhile (\<lambda>i. i \<notin> set (dl_held d)) [first + 1..<min (first + dl_window d) (dl_count d)])"

text \<open>The request for the active download; with every chunk held there is no first index, which
  the transport is handed as None, or which raises where the window would be looked through.\<close>

definition issue_request :: "file_env \<Rightarrow> hexid \<Rightarrow> hexid \<Rightarrow> download \<Rightarrow> files \<Rightarrow> files \<times> (py_error + file_request)" where
  "issue_request e h holder d fm =
     (let fid = fe_fetch_id e;
          d = d\<lparr>dl_fetch := Some fid, dl_holder := Some holder, dl_attempts := dl_attempts d + 1,
                dl_wants_list := (dl_chunk_list d = None)\<rparr>;
          fm = (put_dl h d fm)\<lparr>fm_by_fetch := AList.update fid h (fm_by_fetch fm)\<rparr>;
          fm = (if dl_status d = DL_FETCHING then fm else tell_dl h (d\<lparr>dl_status := DL_FETCHING, dl_why := None\<rparr>) fm)
      in (fm, if dl_wants_list d then Inr (FetchList fid holder h)
              else case next_index d of
                     Some first \<Rightarrow> Inr (FetchChunks fid holder h (Some first) (range_count d first))
                   | None \<Rightarrow> if dl_window d > 1 then Inl TypeError else Inr (FetchChunks fid holder h None 1)))"


lemma count_update:
  "map_of ds h = Some d \<Longrightarrow>
     length (filter (\<lambda>x. P (snd x)) (AList.update h d' ds)) + (if P d then 1 else 0)
       = length (filter (\<lambda>x. P (snd x)) ds) + (if P d' then 1 else 0)"
  by (induction ds) auto

definition queued :: "files \<Rightarrow> nat" where
  "queued fm = length (filter (\<lambda>x. dl_status (snd x) = DL_QUEUED) (fm_downloads fm))"

lemma queued_put:
  "get_dl fm h = Some d \<Longrightarrow> queued (put_dl h d' fm) + (if dl_status d = DL_QUEUED then 1 else 0)
     = queued fm + (if dl_status d' = DL_QUEUED then 1 else 0)"
  using count_update [of "fm_downloads fm" h d "\<lambda>d. dl_status d = DL_QUEUED" d']
  by (simp add: queued_def put_dl_def get_dl_def)

lemma queued_apart [simp]:
  "queued (fm\<lparr>fm_files := fs\<rparr>) = queued fm" "queued (fm\<lparr>fm_told := ts\<rparr>) = queued fm"
  "queued (fm\<lparr>fm_active := a\<rparr>) = queued fm"
  by (simp_all add: queued_def)

lemma put_dl_apart [simp]:
  "fm_told (put_dl h d fm) = fm_told fm" "fm_files (put_dl h d fm) = fm_files fm"
  "fm_active (put_dl h d fm) = fm_active fm" "fm_order (put_dl h d fm) = fm_order fm"
  by (simp_all add: put_dl_def)

lemma get_dl_put [simp]: "get_dl (put_dl h d fm) h' = (if h' = h then Some d else get_dl fm h')"
  by (simp add: get_dl_def put_dl_def)

lemma get_dl_apart [simp]:
  "get_dl (fm\<lparr>fm_files := fs\<rparr>) h = get_dl fm h" "get_dl (fm\<lparr>fm_told := ts\<rparr>) h = get_dl fm h"
  "get_dl (fm\<lparr>fm_active := a\<rparr>) h = get_dl fm h"
  by (simp_all add: get_dl_def)

text \<open>Admission changes the store, the events and this download, and leaves it queued if it was.\<close>

lemma admit_dl_shape:
  obtains fs ts d' where "admit_dl e h d fm = (put_dl h d' fm)\<lparr>fm_files := fs, fm_told := ts\<rparr>"
    "dl_status d = DL_QUEUED \<Longrightarrow> dl_status d' = DL_QUEUED" "dl_manifest d' = dl_manifest d" "dl_hash d' = dl_hash d"
    "dl_fetch d' = dl_fetch d"
proof (cases "admit_file h (dl_size d) False (fm_files fm)")
  case (Pair fs ok)
  let ?fs = "begin_file (fe_now e) h (dl_size d) False fs"
  let ?d = "note_progress (d\<lparr>dl_admitted := True, dl_held := file_chunk_indices ?fs h\<rparr>)"
  let ?r = "put_dl h d fm" and ?told = "\<lambda>d. fm_told fm @ [dl_snap d]"
  have d: "dl_status ?d = dl_status d" "dl_why ?d = dl_why d" "dl_manifest ?d = dl_manifest d" "dl_hash ?d = dl_hash d"
    "dl_fetch ?d = dl_fetch d"
    by (simp_all add: note_progress_def)
  have shape: "put_dl h d' (fm\<lparr>fm_files := fs'\<rparr>) = (put_dl h d' fm)\<lparr>fm_files := fs', fm_told := fm_told fm\<rparr>"
    "tell_dl h d' (fm\<lparr>fm_files := fs'\<rparr>) = (put_dl h d' fm)\<lparr>fm_files := fs', fm_told := ?told d'\<rparr>" for d' fs'
    by (simp_all add: tell_dl_def put_dl_def)
  have ex: "\<exists>fs ts d'. admit_dl e h d fm = (put_dl h d' fm)\<lparr>fm_files := fs, fm_told := ts\<rparr>
      \<and> (dl_status d = DL_QUEUED \<longrightarrow> dl_status d' = DL_QUEUED) \<and> dl_manifest d' = dl_manifest d \<and> dl_hash d' = dl_hash d
      \<and> dl_fetch d' = dl_fetch d"
  proof (cases ok)
    case True
    show ?thesis
    proof (cases "dl_why d = Some REASON_STORAGE")
      case why: True
      have "admit_dl e h d fm = tell_dl h (?d\<lparr>dl_why := None\<rparr>) (fm\<lparr>fm_files := ?fs\<rparr>)"
        using Pair True why d by (simp add: admit_dl_def store_do_def Let_def)
      then show ?thesis unfolding shape using d
        by (intro exI [of _ ?fs] exI [of _ "?told (?d\<lparr>dl_why := None\<rparr>)"] exI [of _ "?d\<lparr>dl_why := None\<rparr>"]) simp
    next
      case False
      have "admit_dl e h d fm = put_dl h ?d (fm\<lparr>fm_files := ?fs\<rparr>)"
        using Pair True False d by (simp add: admit_dl_def store_do_def Let_def)
      then show ?thesis unfolding shape using d
        by (intro exI [of _ ?fs] exI [of _ "fm_told fm"] exI [of _ ?d]) simp
    qed
  next
    case False
    let ?q = "d\<lparr>dl_status := DL_QUEUED, dl_why := Some REASON_STORAGE\<rparr>"
    consider (told) "admit_dl e h d fm = (put_dl h ?q fm)\<lparr>fm_files := fs, fm_told := ?told ?q\<rparr>"
      | (quiet) "admit_dl e h d fm = (put_dl h d fm)\<lparr>fm_files := fs, fm_told := fm_told fm\<rparr>"
      using Pair False by (cases "dl_status d \<noteq> DL_QUEUED \<or> dl_why d \<noteq> Some REASON_STORAGE") (auto simp only: admit_dl_def Let_def prod.case shape if_True if_False not_not)
    then show ?thesis
    proof cases
      case told
      then show ?thesis by (intro exI [of _ fs] exI [of _ "?told ?q"] exI [of _ ?q]) simp
    next
      case quiet
      then show ?thesis by (intro exI [of _ fs] exI [of _ "fm_told fm"] exI [of _ d]) simp
    qed
  qed
  then show thesis using that by blast
qed

lemma activate_from_queued:
  "fm_active fm = None \<Longrightarrow> queued (activate_from e hs fm) = queued fm
     \<and> (case active_dl (activate_from e hs fm) of None \<Rightarrow> True | Some d \<Rightarrow> dl_status d = DL_QUEUED)"
proof (induction e hs fm rule: activate_from.induct)
  case (1 e fm)
  then show ?case by (simp add: active_dl_def)
next
  case (2 e h hs fm)
  show ?case
  proof (cases "get_dl fm h")
    case (Some d)
    show ?thesis
    proof (cases "dl_status d = DL_QUEUED")
      case True
      let ?fm = "if dl_admitted d then fm else admit_dl e h d fm"
      obtain fs ts d' where adm: "admit_dl e h d fm = (put_dl h d' fm)\<lparr>fm_files := fs, fm_told := ts\<rparr>"
        and d': "dl_status d' = DL_QUEUED" by (rule admit_dl_shape [of e h d fm]) (use True in blast)
      have same: "fm_active ?fm = None" "queued ?fm = queued fm" "\<exists>d. get_dl ?fm h = Some d \<and> dl_status d = DL_QUEUED"
        using "2.prems" adm d' True Some queued_put [OF Some, of d'] by simp_all
      then obtain d2 where d2: "get_dl ?fm h = Some d2" "dl_status d2 = DL_QUEUED" by blast
      have "activate_from e (h # hs) fm = (if dl_admitted d2 then ?fm\<lparr>fm_active := Some h\<rparr> else activate_from e hs ?fm)"
        using Some True d2 by (simp add: Let_def)
      moreover have "\<not> dl_admitted d2 \<Longrightarrow> queued (activate_from e hs ?fm) = queued ?fm
          \<and> (case active_dl (activate_from e hs ?fm) of None \<Rightarrow> True | Some d \<Rightarrow> dl_status d = DL_QUEUED)"
        using "2.IH"(4) [OF Some _ refl d2(1)] True same by simp
      ultimately show ?thesis using same d2 by (cases "dl_admitted d2") (simp_all add: active_dl_def)
    qed (use 2 Some in simp)
  qed (use 2 in simp)
qed


definition next_active :: "file_env \<Rightarrow> files \<Rightarrow> files" where
  "next_active e fm = (if active_dl fm = None then activate_next e fm else fm)"

text \<open>One request is issued at most; a download no reachable holder can answer is parked and the next one tried.\<close>

function prepare :: "file_env \<Rightarrow> files \<Rightarrow> files \<times> (py_error + file_request option)" where
  "prepare e fm =
     (let fm = next_active e fm
      in case active_dl fm of
           None \<Rightarrow> (fm, Inr None)
         | Some d \<Rightarrow>
             if dl_fetch d \<noteq> None then (fm, Inr None)
             else (case next_holder e fm d of
                     None \<Rightarrow> prepare e (stall e (the (fm_active fm)) d fm)
                   | Some holder \<Rightarrow>
                       (case issue_request e (the (fm_active fm)) holder d fm of
                          (fm, Inl err) \<Rightarrow> (fm, Inl err)
                        | (fm, Inr r) \<Rightarrow> (fm, Inr (Some r)))))"
  by pat_completeness auto

lemma queued_stall:
  "get_dl fm h = Some d \<Longrightarrow> queued (stall e h d fm) + (if dl_status d = DL_QUEUED then 1 else 0) = queued fm
     \<and> active_dl (stall e h d fm) = None"
  unfolding stall_def Let_def by (auto simp: active_dl_def tell_dl_def)
    (use queued_put [of fm h d] in force)+

lemma active_dl_Some: "active_dl fm = Some d \<Longrightarrow> \<exists>h. fm_active fm = Some h \<and> get_dl fm h = Some d"
  by (auto simp: active_dl_def split: option.splits)

termination prepare
proof (relation "measure (\<lambda>(e, fm). 2 * queued fm + (if active_dl fm = None then 0 else 1))", simp)
  fix e fm fm' d
  assume fm': "fm' = next_active e fm" and d: "active_dl fm' = Some d"
  obtain h where h: "fm_active fm' = Some h" "get_dl fm' h = Some d" using active_dl_Some [OF d] by blast
  have "queued fm' = queued fm \<and> (active_dl fm = None \<longrightarrow> dl_status d = DL_QUEUED)"
    using activate_from_queued [of "fm\<lparr>fm_active := None\<rparr>" e "fm_order fm"] d
    by (simp add: fm' next_active_def activate_next_def split: if_splits)
  with queued_stall [OF h(2), of e] d
  show "((e, stall e (the (fm_active fm')) d fm'), e, fm) \<in> measure (\<lambda>(e, fm). 2 * queued fm + (if active_dl fm = None then 0 else 1))"
    unfolding h(1) option.sel by (auto simp: fm' next_active_def split: if_splits)
qed

declare prepare.simps [simp del]

lemma prepare_idle: "active_dl (next_active e fm) = None \<Longrightarrow> prepare e fm = (next_active e fm, Inr None)"
  by (subst prepare.simps) (simp add: Let_def)

lemma prepare_active:
  "active_dl (next_active e fm) = Some d \<Longrightarrow> fm_active (next_active e fm) = Some h \<Longrightarrow>
     prepare e fm = (if dl_fetch d \<noteq> None then (next_active e fm, Inr None)
        else case next_holder e (next_active e fm) d of None \<Rightarrow> prepare e (stall e h d (next_active e fm))
          | Some holder \<Rightarrow> (case issue_request e h holder d (next_active e fm) of (fm, Inl err) \<Rightarrow> (fm, Inl err) | (fm, Inr r) \<Rightarrow> (fm, Inr (Some r))))"
  by (subst prepare.simps) (simp add: Let_def cong: option.case_cong)

definition pump :: "file_env \<Rightarrow> files \<Rightarrow> files \<times> (py_error + unit)" where
  "pump e fm =
     (case prepare e fm of
        (fm', Inl err) \<Rightarrow> (fm'\<lparr>fm_told := fm_told fm\<rparr>, Inl err)
      | (fm', Inr None) \<Rightarrow> (fm', Inr ())
      | (fm', Inr (Some r)) \<Rightarrow> (fm'\<lparr>fm_issued := fm_issued fm' @ [r]\<rparr>, Inr ()))"


section \<open>Announcing and pruning\<close>

definition announce_files :: "file_env \<Rightarrow> files \<Rightarrow> files" where
  "announce_files e fm =
     (if \<not> fe_transport e \<or> fe_now e - fm_last_announce fm < FILE_ANNOUNCE_INTERVAL_SECS then fm
      else let u = file_store_usage (fm_files fm)
           in if fu_own u = 0 \<and> fu_received u = 0 then fm
              else fm\<lparr>fm_last_announce := fe_now e, fm_announced := fm_announced fm + 1\<rparr>)"

definition drop_download :: "hexid \<Rightarrow> files \<Rightarrow> files" where
  "drop_download h fm =
     fm\<lparr>fm_downloads := AList.delete h (fm_downloads fm), fm_order := remove1 h (fm_order fm),
        fm_active := (if fm_active fm = Some h then None else fm_active fm)\<rparr>"

definition forget_gone :: "hexid \<Rightarrow> files \<Rightarrow> files" where
  "forget_gone h fm =
     (case get_dl fm h of
        None \<Rightarrow> fm
      | Some d \<Rightarrow>
          if \<not> dl_admitted d \<or> get_file (fm_files fm) h \<noteq> None then fm
          else (drop_download h fm)\<lparr>fm_chunk_lists := AList.delete h (fm_chunk_lists fm)\<rparr>)"

definition prune_locked :: "secs \<Rightarrow> files \<Rightarrow> files \<times> nat" where
  "prune_locked now fm =
     (let (fs, deleted) = prune_files now (fm_files fm); fm = fm\<lparr>fm_files := fs\<rparr>
      in (fold forget_gone (fm_order fm) fm, deleted))"

definition retry_one :: "secs \<Rightarrow> hexid \<Rightarrow> files \<Rightarrow> files" where
  "retry_one now h fm =
     (case get_dl fm h of
        None \<Rightarrow> fm
      | Some d \<Rightarrow>
          if dl_status d \<noteq> DL_UNAVAILABLE \<or> now < dl_retry_at d then fm
          else let d = d\<lparr>dl_backoff := min (dl_backoff d * 2) MAX_DOWNLOAD_RETRY_SECS\<rparr>
               in put_dl h (d\<lparr>dl_retry_at := now + dl_backoff d, dl_skipped := [], dl_attempts := 0,
                             dl_status := DL_QUEUED, dl_why := None\<rparr>) fm)"

definition retry_parked :: "secs \<Rightarrow> files \<Rightarrow> files" where
  "retry_parked now fm = fold (retry_one now) (fm_order fm) fm"

definition prune_if_due :: "secs \<Rightarrow> files \<Rightarrow> files" where
  "prune_if_due now fm =
     (if now - fm_last_prune fm \<ge> CACHE_PRUNE_INTERVAL_SECS then fst (prune_locked now (fm\<lparr>fm_last_prune := now\<rparr>)) else fm)"

definition files_tick :: "file_env \<Rightarrow> files \<Rightarrow> files \<times> (py_error + unit)" where
  "files_tick e fm = pump e (retry_parked (fe_now e) (prune_if_due (fe_now e) (announce_files e fm)))"

section \<open>Sharing\<close>

text \<open>The chunks of a file stored in order, from an index on; \<open>False\<close> where one finds no room.\<close>

fun put_chunks :: "file_env \<Rightarrow> hexid \<Rightarrow> nat \<Rightarrow> bytes list \<Rightarrow> file_store \<Rightarrow> file_store \<times> bool" where
  "put_chunks e h i [] fs = (fs, True)"
| "put_chunks e h i (c # cs) fs =
     (case put_file_chunk (fe_room e) (fe_now e) h i c fs of
        (fs, True) \<Rightarrow> put_chunks e h (i + 1) cs fs
      | (fs, False) \<Rightarrow> (fs, False))"

definition share_file :: "file_env \<Rightarrow> string \<Rightarrow> bytes \<Rightarrow> files \<Rightarrow> files \<times> manifest option" where
  "share_file e name data fm =
     (case build_manifest (fe_sha e) (fe_decode e) (PStr name) data of
        None \<Rightarrow> (fm, None)
      | Some m \<Rightarrow>
          (let h = to_hex (man_digest m); n = int (length data); now = fe_now e;
               own = (\<lambda>fs. touch_file now h (mark_file_complete now h fs))
           in if (case get_file (fm_files fm) h of None \<Rightarrow> False | Some r \<Rightarrow> sf_complete r)
              then (store_do (own \<circ> begin_file now h n True) fm, Some m)
              else case admit_file h n True (fm_files fm) of
                     (fs, False) \<Rightarrow> (fm\<lparr>fm_files := fs\<rparr>, None)
                   | (fs, True) \<Rightarrow>
                       (case put_chunks e h 0 (chunks_of FILE_CHUNK_BYTES data) (begin_file now h n True fs) of
                          (fs, False) \<Rightarrow> (fm\<lparr>fm_files := delete_file h fs\<rparr>, None)
                        | (fs, True) \<Rightarrow>
                            (announce_files e (fm\<lparr>fm_files := own fs, fm_chunk_lists := AList.delete h (fm_chunk_lists fm)\<rparr>),
                             Some m))))"

section \<open>Requests of the user and signs of peers\<close>

definition requested_manifest :: "file_env \<Rightarrow> hexid \<Rightarrow> string \<Rightarrow> (message_row \<times> manifest) option" where
  "requested_manifest e ch mid =
     (case get_message (db_rows (fe_db e)) ch mid of
        None \<Rightarrow> None
      | Some r \<Rightarrow>
          if ms_file_stripped r \<or> row_file_hash r \<in> {None, Some []} then None
          else if \<not> is_subscribed (db_store (fe_db e)) ch \<or> \<not> is_member (db_store (fe_db e)) ch (fe_self e) then None
          else map_option (Pair r) (manifest_from_row r))"

definition join_download :: "file_env \<Rightarrow> message_row \<Rightarrow> manifest \<Rightarrow> files \<Rightarrow> files" where
  "join_download e r m fm =
     (let h = to_hex (man_digest m); have = (case get_file (fm_files fm) h of None \<Rightarrow> False | Some f \<Rightarrow> sf_complete f);
          fm = (if have then store_do (touch_file (fe_now e) h) fm else fm);
          (d, fm) = (case get_dl fm h of Some d \<Rightarrow> (d, fm) | None \<Rightarrow> (new_download m, fm\<lparr>fm_order := fm_order fm @ [h]\<rparr>));
          d = attach_message (fe_self e) r d
      in if have
         then let d = note_progress (d\<lparr>dl_held := [0..<dl_count d]\<rparr>)
              in if dl_status d = DL_DONE then put_dl h d fm else tell_dl h (d\<lparr>dl_status := DL_DONE, dl_why := None\<rparr>) fm
         else let d = (if dl_status d \<in> {DL_UNAVAILABLE, DL_FAILED}
                       then d\<lparr>dl_status := DL_QUEUED, dl_why := None, dl_skipped := [], dl_attempts := 0\<rparr> else d)
              in if dl_admitted d then put_dl h d fm else admit_dl e h d fm)"

text \<open>Inl where the request that is issued then raises; the snapshot is taken before it is.\<close>

definition pump_with :: "file_env \<Rightarrow> 'a \<Rightarrow> files \<Rightarrow> files \<times> (py_error + 'a)" where
  "pump_with e x fm = (case pump e fm of (fm, res) \<Rightarrow> (fm, ebind res (\<lambda>_. Inr x)))"

definition pump_with_snap :: "file_env \<Rightarrow> hexid \<Rightarrow> files \<Rightarrow> files \<times> (py_error + dl_snapshot option)" where
  "pump_with_snap e h fm = pump_with e (map_option dl_snap (get_dl fm h)) fm"

definition begin_fetching :: "file_env \<Rightarrow> message_row \<times> manifest \<Rightarrow> files \<Rightarrow> files \<times> (py_error + dl_snapshot option)" where
  "begin_fetching e rm fm = pump_with_snap e (to_hex (man_digest (snd rm))) (join_download e (fst rm) (snd rm) fm)"

definition request_download :: "file_env \<Rightarrow> hexid \<Rightarrow> string \<Rightarrow> files \<Rightarrow> files \<times> (py_error + dl_snapshot option)" where
  "request_download e ch mid fm =
     (case requested_manifest e ch mid of
        None \<Rightarrow> (fm, Inr None)
      | Some rm \<Rightarrow> begin_fetching e rm fm)"

definition download_status :: "files \<Rightarrow> hexid \<Rightarrow> dl_snapshot option" where
  "download_status fm h = map_option dl_snap (get_dl fm h)"

definition list_downloads :: "files \<Rightarrow> dl_snapshot list" where
  "list_downloads fm = List.map_filter (download_status fm) (fm_order fm)"

definition file_bytes :: "file_env \<Rightarrow> hexid \<Rightarrow> files \<Rightarrow> files \<times> bytes option" where
  "file_bytes e h fm =
     (case get_file_bytes (fm_files fm) h of
        None \<Rightarrow> (fm, None)
      | Some data \<Rightarrow> (store_do (touch_file (fe_now e) h) fm, Some data))"

text \<open>One download woken by a peer; \<open>pruned\<close> says that the store was pruned for an earlier one.\<close>

definition wake_download :: "file_env \<Rightarrow> hexid \<Rightarrow> hexid \<Rightarrow> files \<times> bool \<Rightarrow> files \<times> bool" where
  "wake_download e peer h st =
     (case st of (fm, pruned) \<Rightarrow>
        (case get_dl fm h of
           None \<Rightarrow> (fm, pruned)
         | Some d \<Rightarrow>
             if dl_status d \<notin> {DL_UNAVAILABLE, DL_QUEUED} \<or> \<not> peer_may_hold e d peer then (fm, pruned)
             else let d = d\<lparr>dl_skipped := removeAll peer (dl_skipped d), dl_refused := removeAll peer (dl_refused d),
                           dl_attempts := 0, dl_retry_at := 0, dl_backoff := DOWNLOAD_RETRY_SECS\<rparr>
                  in if dl_status d = DL_UNAVAILABLE
                     then (tell_dl h (d\<lparr>dl_status := DL_QUEUED, dl_why := None\<rparr>) fm, pruned)
                     else if dl_why d = Some REASON_STORAGE \<and> \<not> pruned
                     then (fst (prune_locked (fe_now e) (put_dl h d fm)), True)
                     else (put_dl h d fm, pruned)))"

definition files_peer_appeared :: "file_env \<Rightarrow> hexid \<Rightarrow> files \<Rightarrow> files \<times> (py_error + unit)" where
  "files_peer_appeared e peer fm =
     (if peer = fe_self e then (fm, Inr ())
      else pump e (fst (fold (wake_download e peer) (fm_order fm) (fm, False))))"

section \<open>Serving\<close>

fun may_serve_in :: "file_env \<Rightarrow> hexid \<Rightarrow> hexid list \<Rightarrow> py_error + bool" where
  "may_serve_in e requester [] = Inr False"
| "may_serve_in e requester (ch # chs) =
     (let s = db_store (fe_db e)
      in case get_channel s ch of
           None \<Rightarrow> may_serve_in e requester chs
         | Some r \<Rightarrow>
             ebind (column_perms (Some r)) (\<lambda>perms.
               if \<not> is_open_join perms \<and> is_member s ch requester then Inr True else may_serve_in e requester chs))"

definition may_serve :: "file_env \<Rightarrow> hexid \<Rightarrow> hexid \<Rightarrow> py_error + bool" where
  "may_serve e h requester = may_serve_in e requester (file_channels (db_rows (fe_db e)) h)"

definition served_chunk_list :: "file_env \<Rightarrow> hexid \<Rightarrow> nat \<Rightarrow> files \<Rightarrow> files \<times> bytes option" where
  "served_chunk_list e h n fm =
     (case map_of (fm_chunk_lists fm) h of
        Some cached \<Rightarrow> (fm, Some cached)
      | None \<Rightarrow>
          (let chunks = get_file_chunks (fm_files fm) h 0 n; payload = concat (map (fe_sha e) chunks)
           in if length chunks \<noteq> n then (fm, None)
              else (fm\<lparr>fm_chunk_lists := AList.update h payload (fm_chunk_lists fm)\<rparr>, Some payload)))"

definition served_chunks :: "hexid \<Rightarrow> nat \<Rightarrow> nat \<Rightarrow> nat \<Rightarrow> files \<Rightarrow> bytes option" where
  "served_chunks h n first k fm =
     (if first \<ge> n then None
      else let chunks = get_file_chunks (fm_files fm) h first (min k (n - first))
           in if chunks = [] then None else Some (concat chunks))"

definition serve_file ::
    "file_env \<Rightarrow> hexid option \<Rightarrow> hexid \<Rightarrow> nat \<Rightarrow> nat \<Rightarrow> bool \<Rightarrow> files \<Rightarrow> files \<times> (py_error + bytes option)" where
  "serve_file e requester h first k want_list fm =
     (case (requester, get_file (fm_files fm) h) of
        (Some who, Some f) \<Rightarrow>
          if \<not> sf_complete f then (fm, Inr None)
          else (case may_serve e h who of
                  Inl err \<Rightarrow> (fm, Inl err)
                | Inr False \<Rightarrow> (fm, Inr None)
                | Inr True \<Rightarrow>
                    (case (if want_list then served_chunk_list e h (sf_chunks f) fm else (fm, served_chunks h (sf_chunks f) first k fm)) of
                       (fm, None) \<Rightarrow> (fm, Inr None)
                     | (fm, Some payload) \<Rightarrow> (store_do (touch_file (fe_now e) h) fm, Inr (Some payload))))
      | _ \<Rightarrow> (fm, Inr None))"


section \<open>Results of requests\<close>

definition finish_dl :: "hexid \<Rightarrow> dl_state \<Rightarrow> dl_reason option \<Rightarrow> download \<Rightarrow> files \<Rightarrow> files" where
  "finish_dl h state reason d fm =
     (let fm = tell_dl h (d\<lparr>dl_status := state, dl_why := reason, dl_holder := None\<rparr>) fm
      in fm\<lparr>fm_active := (if fm_active fm = Some h then None else fm_active fm)\<rparr>)"

definition round_reset :: "hexid \<Rightarrow> hexid \<Rightarrow> download \<Rightarrow> files \<Rightarrow> files" where
  "round_reset h holder d fm =
     (let d = d\<lparr>dl_attempts := 0, dl_skipped := [], dl_refused := removeAll holder (dl_refused d), dl_backoff := DOWNLOAD_RETRY_SECS\<rparr>
      in (put_dl h d fm)\<lparr>fm_last_holder := AList.update h holder (fm_last_holder fm)\<rparr>)"

text \<open>Whether the transport said that the holder refused is the last argument.\<close>

definition on_failed_request :: "hexid \<Rightarrow> hexid \<Rightarrow> bool \<Rightarrow> download \<Rightarrow> files \<Rightarrow> files" where
  "on_failed_request h holder refusal d fm =
     (let d = shrink_window d;
          d = (if holder = [] then d
               else d\<lparr>dl_skipped := List.insert holder (dl_skipped d),
                      dl_refused := (if refusal then List.insert holder (dl_refused d) else dl_refused d)\<rparr>)
      in put_dl h d fm)"

definition chunk_list_ok :: "(bytes \<Rightarrow> bytes) \<Rightarrow> download \<Rightarrow> bytes \<Rightarrow> bool" where
  "chunk_list_ok sha d data \<longleftrightarrow>
     length data = dl_count d * CHUNK_HASH_BYTES \<and> chunk_root sha (chunks_of CHUNK_HASH_BYTES data) = man_chunk_root (dl_manifest d)"

definition on_chunk_list :: "file_env \<Rightarrow> hexid \<Rightarrow> hexid \<Rightarrow> bytes \<Rightarrow> download \<Rightarrow> files \<Rightarrow> files" where
  "on_chunk_list e h holder data d fm =
     (if chunk_list_ok (fe_sha e) d data
      then round_reset h holder (d\<lparr>dl_chunk_list := Some (chunks_of CHUNK_HASH_BYTES data)\<rparr>) fm
      else put_dl h (reset_window (d\<lparr>dl_suspect := List.insert holder (dl_suspect d)\<rparr>)) fm)"

datatype chunk_end = Kept | Bad_Chunk | No_Room

text \<open>The loop over the indices from the first missing one: what the store and the download hold, how
  many chunks were taken and how it ended.\<close>

fun take_chunks ::
    "file_env \<Rightarrow> hexid \<Rightarrow> bytes list \<Rightarrow> nat list \<Rightarrow> bytes \<Rightarrow> nat \<Rightarrow> download \<times> file_store \<Rightarrow> (download \<times> file_store) \<times> nat \<times> chunk_end" where
  "take_chunks e h hashes [] data stored st = (st, stored, Kept)"
| "take_chunks e h hashes (i # idxs) data stored (d, fs) =
     (let len = chunk_size_at (dl_size d) i; chunk = take len data
      in if data = [] \<or> length chunk \<noteq> len then ((d, fs), stored, Kept)
         else if fe_sha e chunk \<noteq> hashes ! i then ((d, fs), stored, Bad_Chunk)
         else (case put_file_chunk (fe_room e) (fe_now e) h i chunk fs of
                 (fs, False) \<Rightarrow> ((d, fs), stored, No_Room)
               | (fs, True) \<Rightarrow>
                   take_chunks e h hashes idxs (drop len data) (stored + 1) (d\<lparr>dl_held := List.insert i (dl_held d)\<rparr>, fs)))"

text \<open>The whole file is checked before it counts as held.\<close>

definition file_matches :: "file_env \<Rightarrow> hexid \<Rightarrow> download \<Rightarrow> file_store \<Rightarrow> bool" where
  "file_matches e h d fs =
     (let chunks = get_file_chunks fs h 0 (dl_count d)
      in length chunks = dl_count d \<and> fe_sha e (concat chunks) = man_digest (dl_manifest d))"

definition start_again :: "file_env \<Rightarrow> hexid \<Rightarrow> download \<Rightarrow> files \<Rightarrow> files" where
  "start_again e h d fm =
     (let fm = store_do (delete_file h) fm;
          d = reset_window (d\<lparr>dl_suspect := List.union (dl_contributors d) (dl_suspect d), dl_contributors := [], dl_held := [],
                dl_chunk_list := None, dl_progress := 0, dl_admitted := False\<rparr>)
      in if filter (\<lambda>p. p \<notin> set (dl_suspect d)) (candidates e fm d) = [] then finish_dl h DL_FAILED (Some REASON_CORRUPT) d fm
         else let fm = store_do (begin_file (fe_now e) h (dl_size d) False) fm
              in (tell_dl h (d\<lparr>dl_admitted := True, dl_status := DL_QUEUED, dl_why := None\<rparr>) fm)\<lparr>fm_active := None\<rparr>)"

definition complete_dl :: "file_env \<Rightarrow> hexid \<Rightarrow> download \<Rightarrow> files \<Rightarrow> files" where
  "complete_dl e h d fm =
     (if file_matches e h d (fm_files fm)
      then finish_dl h DL_DONE None d (store_do (\<lambda>fs. touch_file (fe_now e) h (mark_file_complete (fe_now e) h fs)) fm)
      else start_again e h d fm)"

definition settle_chunks :: "file_env \<Rightarrow> hexid \<Rightarrow> hexid \<Rightarrow> nat \<Rightarrow> download \<Rightarrow> files \<Rightarrow> files" where
  "settle_chunks e h holder stored d fm =
     (let suspect = holder \<in> set (dl_suspect d)
      in if stored = 0
         then if suspect then put_dl h d fm
              else put_dl h (shrink_window (d\<lparr>dl_skipped := List.insert holder (dl_skipped d)\<rparr>)) fm
         else let d = note_progress (d\<lparr>dl_contributors := List.insert holder (dl_contributors d)\<rparr>);
                  fm = tell_dl h d fm;
                  fm = (if suspect then fm else round_reset h holder (grow_window d) fm)
              in case get_dl fm h of
                   None \<Rightarrow> fm
                 | Some d \<Rightarrow> if length (dl_held d) \<ge> dl_count d then complete_dl e h d fm else fm)"

definition on_chunks :: "file_env \<Rightarrow> hexid \<Rightarrow> hexid \<Rightarrow> bytes \<Rightarrow> download \<Rightarrow> files \<Rightarrow> files" where
  "on_chunks e h holder data d fm =
     (case (next_index d, dl_chunk_list d) of
        (Some first, Some hashes) \<Rightarrow>
          (case take_chunks e h hashes [first..<dl_count d] data 0 (d, fm_files fm) of
             ((d, fs), stored, how) \<Rightarrow>
               (let fm = fm\<lparr>fm_files := fs\<rparr>
                in case how of
                     No_Room \<Rightarrow> finish_dl h DL_FAILED (Some REASON_STORAGE) d fm
                   | Bad_Chunk \<Rightarrow> settle_chunks e h holder stored (reset_window (d\<lparr>dl_suspect := List.insert holder (dl_suspect d)\<rparr>)) fm
                   | Kept \<Rightarrow> settle_chunks e h holder stored d fm))
      | _ \<Rightarrow> put_dl h d fm)"

text \<open>What the transport reports: the payload, or whether the failure was a refusal.\<close>

datatype fetch_result = Fetched "bytes option" | Not_Fetched bool

definition take_result :: "file_env \<Rightarrow> hexid \<Rightarrow> fetch_result \<Rightarrow> download \<Rightarrow> files \<Rightarrow> files" where
  "take_result e h result d fm =
     (let d = d\<lparr>dl_fetch := None\<rparr>; holder = or_else [] (dl_holder d)
      in case result of
           Not_Fetched refusal \<Rightarrow> on_failed_request h holder refusal d fm
         | Fetched payload \<Rightarrow>
             (if dl_wants_list d then on_chunk_list e h holder (or_else [] payload) d fm
              else on_chunks e h holder (or_else [] payload) d fm))"

definition result_arrived :: "file_env \<Rightarrow> hexid \<Rightarrow> fetch_result \<Rightarrow> download \<Rightarrow> files \<Rightarrow> files \<times> (py_error + unit)" where
  "result_arrived e h result d fm = pump e (announce_files e (take_result e h result d fm))"

definition on_result :: "file_env \<Rightarrow> string \<Rightarrow> fetch_result \<Rightarrow> files \<Rightarrow> files \<times> (py_error + unit)" where
  "on_result e fid result fm =
     (let h = map_of (fm_by_fetch fm) fid; fm = fm\<lparr>fm_by_fetch := AList.delete fid (fm_by_fetch fm)\<rparr>
      in case (case h of None \<Rightarrow> None | Some h \<Rightarrow> map_option (Pair h) (get_dl fm h)) of
           None \<Rightarrow> (fm, Inr ())
         | Some (h, d) \<Rightarrow>
             if dl_fetch d \<noteq> Some fid then (fm, Inr ())
             else result_arrived e h result d fm)"

section \<open>Start\<close>

fun first_manifest :: "message_row list \<Rightarrow> manifest option" where
  "first_manifest [] = None"
| "first_manifest (r # rs) = (case manifest_from_row r of None \<Rightarrow> first_manifest rs | Some m \<Rightarrow> Some m)"

definition restore_one :: "file_env \<Rightarrow> file_row \<Rightarrow> files \<Rightarrow> files" where
  "restore_one e f fm =
     (let h = sf_hash f; messages = messages_for_file (db_rows (fe_db e)) h
      in case first_manifest messages of
           None \<Rightarrow> fm
         | Some m \<Rightarrow>
             (let d = note_progress ((new_download m)\<lparr>dl_admitted := True, dl_status := DL_UNAVAILABLE, dl_why := Some REASON_NO_HOLDER,
                        dl_held := file_chunk_indices (fm_files fm) h\<rparr>);
                  d = fold (attach_message (fe_self e)) messages d
              in (put_dl h d fm)\<lparr>fm_order := fm_order fm @ [h]\<rparr>))"

definition restore_downloads :: "file_env \<Rightarrow> files \<Rightarrow> files" where
  "restore_downloads e fm = fold (restore_one e) (list_files (fm_files fm) (Some False) (Some False)) fm"

definition new_files :: "file_env \<Rightarrow> file_store \<Rightarrow> files" where
  "new_files e fs =
     restore_downloads e
       \<lparr>fm_files = fs, fm_downloads = [], fm_order = [], fm_by_fetch = [], fm_active = None, fm_last_holder = [],
        fm_chunk_lists = [], fm_told = [], fm_issued = [], fm_last_prune = fe_now e, fm_last_announce = 0, fm_announced = 0\<rparr>"

end
