(* ===== verification/File_Safety.thy ===== *)
theory File_Safety
  imports Files Sync_Relay
begin

text \<open>
  What the shared files keep: the bytes handed out hash to the name they go by, members alone are served,
  one request is out at a time, the budgets hold, and the histories in which a download cannot end well.
\<close>

section \<open>What store operations leave of the complete files\<close>

text \<open>A table of complete values that an operation may only shrink.\<close>

locale shrinking =
  fixes look :: "'s \<Rightarrow> 'k \<Rightarrow> 'v option"
begin

definition shrinks :: "'s \<Rightarrow> 's \<Rightarrow> bool" where
  "shrinks s s' \<longleftrightarrow> (\<forall>k v. look s' k = Some v \<longrightarrow> look s k = Some v)"

lemma refl: "shrinks s s"
  by (simp add: shrinks_def)

lemma trans: "shrinks s s' \<Longrightarrow> shrinks s' s'' \<Longrightarrow> shrinks s s''"
  by (simp add: shrinks_def)

lemma same: "look s' = look s \<Longrightarrow> shrinks s s'"
  by (simp add: shrinks_def)

lemma through_fold: "(\<And>x s. shrinks s (f x s)) \<Longrightarrow> shrinks s (fold f xs s)"
  by (induction xs arbitrary: s) (auto intro: refl trans)

lemma keeps: "shrinks s s' \<Longrightarrow> \<forall>k v. look s k = Some v \<longrightarrow> P k v \<Longrightarrow> \<forall>k v. look s' k = Some v \<longrightarrow> P k v"
  by (simp add: shrinks_def)

end

interpretation whole: shrinking get_file_bytes .

definition trims :: "file_store \<Rightarrow> file_store \<Rightarrow> bool" where
  "trims fs fs' \<longleftrightarrow> whole.shrinks fs fs' \<and> set (fs_chunks fs') \<subseteq> set (fs_chunks fs)
     \<and> (unique_key sf_hash (fs_files fs) \<longrightarrow> unique_key sf_hash (fs_files fs'))"

lemma trims_refl: "trims fs fs"
  by (simp add: trims_def whole.refl)

lemma trims_trans [trans]: "trims fs fs' \<Longrightarrow> trims fs' fs'' \<Longrightarrow> trims fs fs''"
  unfolding trims_def by (blast intro: whole.trans)

lemma trims_fold: "(\<And>x fs. trims fs (f x fs)) \<Longrightarrow> trims fs (fold f xs fs)"
  by (induction xs arbitrary: fs) (auto intro: trims_refl trims_trans)

lemma chunks_of_file_cong: "fs_chunks fs = fs_chunks fs' \<Longrightarrow> chunks_of_file fs h = chunks_of_file fs' h"
  by (simp add: chunks_of_file_def)

lemma bytes_begin [simp]: "get_file_bytes (begin_file now h n own fs) h' = get_file_bytes fs h'"
  by (auto simp: get_file_bytes_def get_file_def begin_file_def chunks_of_file_def split: option.splits)

lemma bytes_touch [simp]: "get_file_bytes (touch_file now h fs) h' = get_file_bytes fs h'"
  by (auto simp: get_file_bytes_def get_file_def touch_file_def chunks_of_file_def split: option.splits)

lemma bytes_delete [simp]: "get_file_bytes (delete_file h fs) h' = (if h' = h then None else get_file_bytes fs h')"
proof (cases "h' = h")
  case False
  then have "filter (\<lambda>c. ck_hash c = h') (delete_where (\<lambda>c. ck_hash c = h) cs) = filter (\<lambda>c. ck_hash c = h') cs" for cs :: "chunk_row list"
    by (induction cs) (auto simp: delete_where_def)
  then have "chunks_of_file (delete_file h fs) h' = chunks_of_file fs h'"
    by (simp add: delete_file_def chunks_of_file_def)
  moreover have "get_file (delete_file h fs) h' = get_file fs h'" using False by (simp add: get_file_def delete_file_def)
  ultimately show ?thesis using False by (simp add: get_file_bytes_def split: option.split)
qed (simp add: get_file_bytes_def get_file_def delete_file_def)

lemma trims_begin: "trims fs (begin_file now h n own fs)"
  by (simp add: trims_def whole.shrinks_def, simp add: begin_file_def unique_key_upsert)

lemma trims_touch: "trims fs (touch_file now h fs)"
  by (simp add: trims_def whole.shrinks_def, simp add: touch_file_def unique_key_update)

lemma trims_delete: "trims fs (delete_file h fs)"
  by (simp add: trims_def whole.shrinks_def, auto simp: delete_file_def delete_where_def intro: unique_key_delete [unfolded delete_where_def])

lemma trims_evict: "trims fs (evict_files rows needed fs)"
  by (induction rows needed fs rule: evict_files.induct) (auto intro: trims_refl trims_trans [OF trims_delete])

lemma trims_make_room: "trims fs (make_room p key h needed fs)"
  by (simp add: make_room_def trims_evict trims_refl)

lemma trims_admit: "trims fs (fst (admit_file h n own fs))"
  by (cases own) (simp_all add: admit_file_def Let_def trims_refl trims_trans [OF trims_make_room trims_make_room])

lemma trims_delete_files: "trims fs (delete_files hs fs)"
  unfolding delete_files_def by (rule trims_fold) (rule trims_delete)

lemma trims_prune: "trims fs (fst (prune_files now fs))"
  unfolding prune_files_def Let_def fst_conv by (rule trims_trans [OF trims_delete_files trims_delete_files])

lemma chunks_added: "set (fs_chunks (add_chunk now h i c fs)) \<subseteq> insert \<lparr>ck_hash = h, ck_idx = i, ck_content = c\<rparr> (set (fs_chunks fs))"
  by (auto simp: add_chunk_def)

lemma unique_added: "unique_key sf_hash (fs_files fs) \<Longrightarrow> unique_key sf_hash (fs_files (add_chunk now h i c fs))"
  by (simp add: add_chunk_def unique_key_update)

lemma bytes_add_other: "h' \<noteq> h \<Longrightarrow> get_file_bytes (add_chunk now h i c fs) h' = get_file_bytes fs h'"
  by (auto simp: get_file_bytes_def get_file_def add_chunk_def chunks_of_file_def split: option.splits)

lemma bytes_add_None: "get_file_bytes fs h = None \<Longrightarrow> get_file_bytes (add_chunk now h i c fs) h = None"
  by (auto simp: get_file_bytes_def get_file_def add_chunk_def split: option.splits if_splits)

lemma bytes_marked:
  "get_file_bytes (mark_file_complete now h fs) h' =
     (if h' = h then map_option (\<lambda>_. concat (map ck_content (chunks_of_file fs h))) (get_file fs h) else get_file_bytes fs h')"
  by (simp add: get_file_bytes_def get_file_def mark_file_complete_def chunks_of_file_def split: option.split)

section \<open>Files are what their names say\<close>

text \<open>\<open>sizes\<close> gives for a file hash the one size every manifest of it states.\<close>

definition store_ok :: "(bytes \<Rightarrow> bytes) \<Rightarrow> (hexid \<Rightarrow> int) \<Rightarrow> file_store \<Rightarrow> bool" where
  "store_ok sha sizes fs \<longleftrightarrow> (\<forall>h data. get_file_bytes fs h = Some data \<longrightarrow> to_hex (sha data) = h)
     \<and> (\<forall>c \<in> set (fs_chunks fs). ck_idx c < chunk_count_for (sizes (ck_hash c))) \<and> unique_key sf_hash (fs_files fs)"

lemma store_ok_trims: "store_ok sha sizes fs \<Longrightarrow> trims fs fs' \<Longrightarrow> store_ok sha sizes fs'"
  unfolding store_ok_def trims_def whole.shrinks_def by (meson subsetD)

definition dl_ok :: "(hexid \<Rightarrow> int) \<Rightarrow> hexid \<Rightarrow> download \<Rightarrow> bool" where
  "dl_ok sizes h d \<longleftrightarrow> dl_hash d = h \<and> to_hex (man_digest (dl_manifest d)) = h \<and> dl_count d = chunk_count_for (sizes h)
     \<and> (dl_status d = DL_DONE \<longrightarrow> dl_fetch d = None)"

definition files_ok :: "(bytes \<Rightarrow> bytes) \<Rightarrow> (hexid \<Rightarrow> int) \<Rightarrow> files \<Rightarrow> bool" where
  "files_ok sha sizes fm \<longleftrightarrow> store_ok sha sizes (fm_files fm)
     \<and> (\<forall>h d. get_dl fm h = Some d \<longrightarrow> dl_ok sizes h d \<and> (get_file_bytes (fm_files fm) h \<noteq> None \<longrightarrow> dl_status d = DL_DONE))
     \<and> (\<forall>h. fm_active fm = Some h \<longrightarrow> (\<exists>d. get_dl fm h = Some d \<and> dl_status d \<in> {DL_QUEUED, DL_FETCHING}))"

lemma files_ok_store: "files_ok sha sizes fm \<Longrightarrow> trims (fm_files fm) fs \<Longrightarrow> files_ok sha sizes (fm\<lparr>fm_files := fs\<rparr>)"
  unfolding files_ok_def
  by (auto intro: store_ok_trims simp: trims_def whole.shrinks_def)

lemma files_ok_cong:
  "files_ok sha sizes fm \<Longrightarrow> fm_files fm' = fm_files fm \<Longrightarrow> fm_downloads fm' = fm_downloads fm \<Longrightarrow> fm_active fm' = fm_active fm
     \<Longrightarrow> files_ok sha sizes fm'"
  by (simp add: files_ok_def get_dl_def)

lemma files_ok_put:
  assumes "files_ok sha sizes fm" "dl_ok sizes h d" "get_file_bytes (fm_files fm) h \<noteq> None \<Longrightarrow> dl_status d = DL_DONE"
    "fm_active fm = Some h \<Longrightarrow> dl_status d \<in> {DL_QUEUED, DL_FETCHING}"
  shows "files_ok sha sizes (put_dl h d fm)"
  using assms unfolding files_ok_def by auto

lemma files_ok_idle: "files_ok sha sizes fm \<Longrightarrow> files_ok sha sizes (fm\<lparr>fm_active := None\<rparr>)"
  by (simp add: files_ok_def)

lemma files_ok_told: "files_ok sha sizes (fm\<lparr>fm_told := ts\<rparr>) \<longleftrightarrow> files_ok sha sizes fm"
  by (auto simp: files_ok_def)

lemma files_ok_tell: "files_ok sha sizes (tell_dl h d fm) \<longleftrightarrow> files_ok sha sizes (put_dl h d fm)"
  by (simp add: tell_dl_def files_ok_told)


text \<open>What the bookkeeping of a download leaves alone.\<close>

lemma dl_keeps [simp]:
  "dl_status (note_progress d) = dl_status d" "dl_fetch (note_progress d) = dl_fetch d" "dl_held (note_progress d) = dl_held d"
  "dl_status (grow_window d) = dl_status d" "dl_fetch (grow_window d) = dl_fetch d" "dl_held (grow_window d) = dl_held d"
  "dl_status (shrink_window d) = dl_status d" "dl_fetch (shrink_window d) = dl_fetch d" "dl_held (shrink_window d) = dl_held d"
  "dl_status (reset_window d) = dl_status d" "dl_fetch (reset_window d) = dl_fetch d" "dl_held (reset_window d) = dl_held d"
  "dl_status (attach_message self r d) = dl_status d" "dl_fetch (attach_message self r d) = dl_fetch d"
  "dl_held (attach_message self r d) = dl_held d" "dl_admitted (attach_message self r d) = dl_admitted d"
  "dl_admitted (note_progress d) = dl_admitted d" "dl_admitted (grow_window d) = dl_admitted d"
  "dl_admitted (shrink_window d) = dl_admitted d" "dl_admitted (reset_window d) = dl_admitted d"
  "dl_count (note_progress d) = dl_count d" "dl_count (grow_window d) = dl_count d" "dl_count (shrink_window d) = dl_count d"
  "dl_count (reset_window d) = dl_count d" "dl_count (attach_message self r d) = dl_count d"
  "dl_suspect (note_progress d) = dl_suspect d" "dl_suspect (grow_window d) = dl_suspect d"
  "dl_manifest (note_progress d) = dl_manifest d" "dl_contributors (grow_window d) = dl_contributors d"
  "dl_contributors (note_progress d) = dl_contributors d"
  by (simp_all add: note_progress_def grow_window_def shrink_window_def reset_window_def attach_message_def Let_def)

lemma dl_ok_keeps [simp]:
  "dl_ok sizes h (note_progress d) = dl_ok sizes h d" "dl_ok sizes h (grow_window d) = dl_ok sizes h d"
  "dl_ok sizes h (shrink_window d) = dl_ok sizes h d" "dl_ok sizes h (reset_window d) = dl_ok sizes h d"
  "dl_ok sizes h (attach_message self r d) = dl_ok sizes h d"
  by (simp_all add: dl_ok_def note_progress_def grow_window_def shrink_window_def reset_window_def attach_message_def Let_def)

lemma dl_ok_updates [simp]:
  "dl_ok sizes h (d\<lparr>dl_why := x1\<rparr>) = dl_ok sizes h d" "dl_ok sizes h (d\<lparr>dl_progress := x2\<rparr>) = dl_ok sizes h d"
  "dl_ok sizes h (d\<lparr>dl_holder := x3\<rparr>) = dl_ok sizes h d" "dl_ok sizes h (d\<lparr>dl_messages := x4\<rparr>) = dl_ok sizes h d"
  "dl_ok sizes h (d\<lparr>dl_channels := x5\<rparr>) = dl_ok sizes h d" "dl_ok sizes h (d\<lparr>dl_senders := x6\<rparr>) = dl_ok sizes h d"
  "dl_ok sizes h (d\<lparr>dl_held := x7\<rparr>) = dl_ok sizes h d" "dl_ok sizes h (d\<lparr>dl_chunk_list := x8\<rparr>) = dl_ok sizes h d"
  "dl_ok sizes h (d\<lparr>dl_window := x9\<rparr>) = dl_ok sizes h d" "dl_ok sizes h (d\<lparr>dl_wins := x10\<rparr>) = dl_ok sizes h d"
  "dl_ok sizes h (d\<lparr>dl_attempts := x11\<rparr>) = dl_ok sizes h d" "dl_ok sizes h (d\<lparr>dl_skipped := x12\<rparr>) = dl_ok sizes h d"
  "dl_ok sizes h (d\<lparr>dl_suspect := x13\<rparr>) = dl_ok sizes h d" "dl_ok sizes h (d\<lparr>dl_refused := x14\<rparr>) = dl_ok sizes h d"
  "dl_ok sizes h (d\<lparr>dl_contributors := x15\<rparr>) = dl_ok sizes h d" "dl_ok sizes h (d\<lparr>dl_admitted := x16\<rparr>) = dl_ok sizes h d"
  "dl_ok sizes h (d\<lparr>dl_wants_list := x17\<rparr>) = dl_ok sizes h d" "dl_ok sizes h (d\<lparr>dl_retry_at := x18\<rparr>) = dl_ok sizes h d"
  "dl_ok sizes h (d\<lparr>dl_backoff := x19\<rparr>) = dl_ok sizes h d"
  by (simp_all add: dl_ok_def)

lemma dl_ok_moves [simp]:
  "dl_ok sizes h d \<Longrightarrow> s \<noteq> DL_DONE \<or> dl_fetch d = None \<Longrightarrow> dl_ok sizes h (d\<lparr>dl_status := s\<rparr>)"
  "dl_ok sizes h d \<Longrightarrow> dl_status d \<noteq> DL_DONE \<or> f = None \<Longrightarrow> dl_ok sizes h (d\<lparr>dl_fetch := f\<rparr>)"
  by (auto simp: dl_ok_def)

lemma files_ok_get: "files_ok sha sizes fm \<Longrightarrow> get_dl fm h = Some d \<Longrightarrow> dl_ok sizes h d"
  by (simp add: files_ok_def)

lemma files_ok_done:
  "files_ok sha sizes fm \<Longrightarrow> get_dl fm h = Some d \<Longrightarrow> dl_status d \<noteq> DL_DONE \<Longrightarrow> get_file_bytes (fm_files fm) h = None"
  by (cases "get_file_bytes (fm_files fm) h") (simp_all add: files_ok_def)

lemma files_ok_admit:
  assumes ok: "files_ok sha sizes fm" and d: "dl_ok sizes h d" "get_file_bytes (fm_files fm) h = None"
    and q: "fm_active fm = Some h \<Longrightarrow> dl_status d \<in> {DL_QUEUED, DL_FETCHING}"
  shows "files_ok sha sizes (admit_dl e h d fm)"
proof (cases "admit_file h (dl_size d) False (fm_files fm)")
  case (Pair fs b)
  let ?fm = "fm\<lparr>fm_files := fs\<rparr>" and ?fb = "fm\<lparr>fm_files := begin_file (fe_now e) h (dl_size d) False fs\<rparr>"
  have t: "trims (fm_files fm) fs" using trims_admit [of "fm_files fm" h "dl_size d" False] Pair by simp
  have none: "get_file_bytes fs h = None" using t d(2) by (cases "get_file_bytes fs h") (auto simp: trims_def whole.shrinks_def)
  have okm: "files_ok sha sizes ?fm" "files_ok sha sizes ?fb"
    using files_ok_store [OF ok t] files_ok_store [OF ok trims_trans [OF t trims_begin]] by simp_all
  have put: "files_ok sha sizes (put_dl h d' ?fm)" "files_ok sha sizes (put_dl h d' ?fb)"
    if "dl_ok sizes h d'" "dl_status d' = dl_status d \<or> dl_status d' = DL_QUEUED" for d'
    using that q none by (auto intro!: files_ok_put okm)
  show ?thesis using d(1) Pair
    by (simp add: admit_dl_def store_do_def Let_def files_ok_tell put)
qed


lemma files_ok_active:
  "files_ok sha sizes fm \<Longrightarrow> active_dl fm = Some d \<Longrightarrow> dl_status d \<in> {DL_QUEUED, DL_FETCHING}"
  by (auto simp: files_ok_def dest!: active_dl_Some)

lemma files_ok_stall:
  assumes "files_ok sha sizes fm" "get_dl fm h = Some d" "dl_status d \<noteq> DL_DONE"
  shows "files_ok sha sizes (stall e h d fm)"
proof -
  have *: "files_ok sha sizes (put_dl h d' (fm\<lparr>fm_active := None\<rparr>))" if "dl_ok sizes h d'" for d'
    using files_ok_put [OF files_ok_idle [OF assms(1)] that] files_ok_done [OF assms] by simp
  have "(tell_dl h d' fm)\<lparr>fm_active := None\<rparr> = tell_dl h d' (fm\<lparr>fm_active := None\<rparr>)" for d'
    by (simp add: tell_dl_def put_dl_def)
  then show ?thesis using files_ok_get [OF assms(1,2)] assms(3) by (simp add: stall_def Let_def files_ok_tell *)
qed

lemma files_ok_activate: "files_ok sha sizes fm \<Longrightarrow> fm_active fm = None \<Longrightarrow> files_ok sha sizes (activate_from e hs fm)"
proof (induction e hs fm rule: activate_from.induct)
  case (2 e h hs fm)
  show ?case
  proof (cases "get_dl fm h")
    case (Some d)
    show ?thesis
    proof (cases "dl_status d = DL_QUEUED")
      case True
      let ?fm = "if dl_admitted d then fm else admit_dl e h d fm"
      obtain fs ts d' where adm: "admit_dl e h d fm = (put_dl h d' fm)\<lparr>fm_files := fs, fm_told := ts\<rparr>"
        and d': "dl_status d' = DL_QUEUED" by (rule admit_dl_shape [of e h d fm]) (use True in blast)
      have okm: "files_ok sha sizes ?fm"
        using "2.prems" True Some by (simp add: files_ok_admit files_ok_get files_ok_done)
      obtain d2 where d2: "get_dl ?fm h = Some d2" "dl_status d2 = DL_QUEUED" "fm_active ?fm = None"
        using "2.prems"(2) adm d' True Some by (cases "dl_admitted d") auto
      have "activate_from e (h # hs) fm = (if dl_admitted d2 then ?fm\<lparr>fm_active := Some h\<rparr> else activate_from e hs ?fm)"
        using Some True d2 by (simp add: Let_def)
      moreover have "files_ok sha sizes (?fm\<lparr>fm_active := Some h\<rparr>)"
        using okm d2 by (simp add: files_ok_def)
      moreover have "\<not> dl_admitted d2 \<Longrightarrow> files_ok sha sizes (activate_from e hs ?fm)"
        using "2.IH"(4) [OF Some _ refl d2(1)] True okm d2(3) by simp
      ultimately show ?thesis by simp
    qed (use 2 Some in simp)
  qed (use 2 in simp)
qed simp

lemma files_ok_issue:
  assumes "files_ok sha sizes fm" "get_dl fm h = Some d" "dl_status d \<noteq> DL_DONE"
  shows "files_ok sha sizes (fst (issue_request e h holder d fm))"
proof -
  have put: "files_ok sha sizes (put_dl h d' fm)"
    if "dl_ok sizes h d'" "dl_status d' = dl_status d \<or> dl_status d' = DL_FETCHING" for d'
    using that files_ok_put [OF assms(1) that(1)] files_ok_done [OF assms] assms unfolding files_ok_def by fastforce
  have cong: "files_ok sha sizes ((put_dl h d' fm)\<lparr>fm_by_fetch := b\<rparr>) = files_ok sha sizes (put_dl h d' fm)"
    "put_dl h d'' ((put_dl h d' fm)\<lparr>fm_by_fetch := b\<rparr>) = (put_dl h d'' fm)\<lparr>fm_by_fetch := b\<rparr>" for d' d'' b
    by (auto simp: files_ok_def get_dl_def put_dl_def)
  have dk: "dl_ok sizes h d" using files_ok_get [OF assms(1,2)] .
  show ?thesis using dk assms(3)
    by (simp add: issue_request_def Let_def files_ok_tell cong put)
qed

lemma files_ok_next: "files_ok sha sizes fm \<Longrightarrow> files_ok sha sizes (next_active e fm)"
  by (simp add: next_active_def activate_next_def files_ok_activate files_ok_idle)

text \<open>What holds before and after every stall and after the request is issued holds after \<open>prepare\<close>.\<close>

lemma prepare_keeps:
  assumes resume: "\<And>fm. P fm \<Longrightarrow> P (next_active e fm)"
    and stall: "\<And>fm h d. P fm \<Longrightarrow> fm_active fm = Some h \<Longrightarrow> get_dl fm h = Some d \<Longrightarrow> dl_fetch d = None \<Longrightarrow> P (stall e h d fm)"
    and issue: "\<And>fm h d holder. P fm \<Longrightarrow> fm_active fm = Some h \<Longrightarrow> get_dl fm h = Some d \<Longrightarrow> dl_fetch d = None
      \<Longrightarrow> next_holder e fm d = Some holder \<Longrightarrow> P (fst (issue_request e h holder d fm))"
  shows "P fm \<Longrightarrow> P (fst (prepare e fm))"
proof (induction "2 * queued fm + (if active_dl fm = None then 0 else 1)" arbitrary: fm rule: less_induct)
  case less
  let ?fm = "next_active e fm"
  have P: "P ?fm" using less.prems by (rule resume)
  show ?case
  proof (cases "active_dl ?fm")
    case None
    then show ?thesis using P by (simp add: prepare_idle)
  next
    case (Some d)
    then obtain h where h: "fm_active ?fm = Some h" "get_dl ?fm h = Some d" using active_dl_Some by blast
    have q: "queued ?fm = queued fm" "active_dl fm = None \<Longrightarrow> dl_status d = DL_QUEUED"
      using activate_from_queued [of "fm\<lparr>fm_active := None\<rparr>" e "fm_order fm"] Some
      by (simp_all add: next_active_def activate_next_def split: if_splits)
    have "P (fst (prepare e (stall e h d ?fm)))" if "dl_fetch d = None"
      using queued_stall [OF h(2), of e] q by (intro less.hyps stall [OF P h that]) (auto split: if_splits)
    moreover have "P (fst (issue_request e h holder d ?fm))" if "dl_fetch d = None" "next_holder e ?fm d = Some holder" for holder
      using issue [OF P h that] .
    ultimately show ?thesis unfolding prepare_active [OF Some h(1)]
      using P by (auto split: option.split prod.split sum.split)
  qed
qed

lemma files_ok_prepare: "files_ok sha sizes fm \<Longrightarrow> files_ok sha sizes (fst (prepare e fm))"
proof (rule prepare_keeps)
  fix fm h d holder
  assume ok: "files_ok sha sizes fm" and h: "fm_active fm = Some h" "get_dl fm h = Some d"
  then have "dl_status d \<noteq> DL_DONE" by (auto simp: files_ok_def)
  then show "files_ok sha sizes (stall e h d fm)" "files_ok sha sizes (fst (issue_request e h holder d fm))"
    using files_ok_stall [OF ok h(2)] files_ok_issue [OF ok h(2)] by blast+
qed (rule files_ok_next)

lemma files_ok_pump: "files_ok sha sizes fm \<Longrightarrow> files_ok sha sizes (fst (pump e fm))"
  using files_ok_prepare [of sha sizes fm e]
  by (auto simp: pump_def files_ok_told split: prod.splits sum.splits option.splits intro: files_ok_cong)


lemma files_ok_same:
  assumes "files_ok sha sizes fm" "get_dl fm h = Some d" "dl_ok sizes h d'" "dl_status d' = dl_status d"
  shows "files_ok sha sizes (put_dl h d' fm)"
  using assms by (intro files_ok_put) (auto simp: files_ok_def)

lemma files_ok_open:
  assumes "files_ok sha sizes fm" "get_dl fm h = Some d" "dl_status d \<noteq> DL_DONE" "dl_ok sizes h d'"
    "dl_status d' \<in> {DL_QUEUED, DL_FETCHING}"
  shows "files_ok sha sizes (put_dl h d' fm)"
  using assms files_ok_done [OF assms(1,2,3)] by (intro files_ok_put) auto

lemma files_ok_announce: "files_ok sha sizes fm \<Longrightarrow> files_ok sha sizes (announce_files e fm)"
  by (auto simp: announce_files_def Let_def intro: files_ok_cong)

lemma files_ok_drop: "files_ok sha sizes fm \<Longrightarrow> files_ok sha sizes (drop_download h fm)"
proof -
  assume ok: "files_ok sha sizes fm"
  have get: "get_dl (drop_download h fm) h' = (if h' = h then None else get_dl fm h')" for h'
    by (simp add: drop_download_def get_dl_def)
  have "fm_files (drop_download h fm) = fm_files fm" "fm_active (drop_download h fm) = Some h' \<Longrightarrow> h' \<noteq> h \<and> fm_active fm = Some h'" for h'
    by (auto simp: drop_download_def split: if_splits)
  with ok show ?thesis unfolding files_ok_def get by simp
qed

lemma files_ok_forget: "files_ok sha sizes fm \<Longrightarrow> files_ok sha sizes (forget_gone h fm)"
proof -
  assume "files_ok sha sizes fm"
  then have "files_ok sha sizes (drop_download h fm)" by (rule files_ok_drop)
  then have "files_ok sha sizes ((drop_download h fm)\<lparr>fm_chunk_lists := x\<rparr>)" for x by (rule files_ok_cong) simp_all
  with \<open>files_ok sha sizes fm\<close> show ?thesis by (simp add: forget_gone_def split: option.split)
qed

lemma fold_files_keep: "(\<And>x s. P s \<Longrightarrow> P (f x s)) \<Longrightarrow> P s \<Longrightarrow> P (fold f xs s)"
  by (induction xs arbitrary: s) auto

lemma files_ok_prune: "files_ok sha sizes fm \<Longrightarrow> files_ok sha sizes (fst (prune_locked now fm))"
  using trims_prune [of "fm_files fm" now]
  by (auto simp: prune_locked_def Let_def case_prod_beta intro!: fold_files_keep [where P = "files_ok sha sizes"] files_ok_forget files_ok_store)

lemma files_ok_retry: "files_ok sha sizes fm \<Longrightarrow> files_ok sha sizes (retry_parked now fm)"
proof -
  have "files_ok sha sizes (retry_one now h fm)" if "files_ok sha sizes fm" for h fm
    using that by (auto simp: retry_one_def Let_def split: option.splits intro!: files_ok_open dest: files_ok_get)
  then show "files_ok sha sizes fm \<Longrightarrow> files_ok sha sizes (retry_parked now fm)"
    unfolding retry_parked_def by (rule fold_files_keep)
qed

lemma files_ok_tick: "files_ok sha sizes fm \<Longrightarrow> files_ok sha sizes (fst (files_tick e fm))"
  unfolding files_tick_def prune_if_due_def
  by (intro files_ok_pump files_ok_retry)
    (auto intro!: files_ok_prune files_ok_announce intro: files_ok_cong [OF files_ok_announce])

lemma files_ok_wake: "files_ok sha sizes (fst st) \<Longrightarrow> files_ok sha sizes (fst (wake_download e peer h st))"
  by (cases st)
    (auto simp: wake_download_def Let_def files_ok_tell split: option.splits
      intro!: files_ok_open files_ok_prune dest: files_ok_get)

lemma files_ok_peer: "files_ok sha sizes fm \<Longrightarrow> files_ok sha sizes (fst (files_peer_appeared e peer fm))"
  unfolding files_peer_appeared_def
  by (auto intro!: files_ok_pump fold_files_keep [where P = "\<lambda>st. files_ok sha sizes (fst st)"] files_ok_wake)

lemma files_ok_touch: "files_ok sha sizes fm \<Longrightarrow> files_ok sha sizes (store_do (touch_file now h) fm)"
  unfolding store_do_def by (erule files_ok_store) (rule trims_touch)

lemma files_ok_served_list: "files_ok sha sizes fm \<Longrightarrow> files_ok sha sizes (fst (served_chunk_list e h n fm))"
  by (auto simp: served_chunk_list_def Let_def split: option.split intro: files_ok_cong)

lemma files_ok_serve: "files_ok sha sizes fm \<Longrightarrow> files_ok sha sizes (fst (serve_file e who h first k want fm))"
  using files_ok_served_list [of sha sizes fm e h]
  by (auto simp: serve_file_def split: option.splits sum.splits bool.splits prod.splits intro!: files_ok_touch)
    (metis fst_conv)+

lemma files_ok_bytes: "files_ok sha sizes fm \<Longrightarrow> files_ok sha sizes (fst (file_bytes e h fm))"
  by (auto simp: file_bytes_def files_ok_touch split: option.split)


section \<open>Requests and results\<close>

definition sized :: "(hexid \<Rightarrow> int) \<Rightarrow> manifest \<Rightarrow> bool" where
  "sized sizes m \<longleftrightarrow> man_bytes m = sizes (to_hex (man_digest m))"

lemma dl_ok_new: "sized sizes m \<Longrightarrow> dl_ok sizes (to_hex (man_digest m)) (new_download m)"
  by (simp add: dl_ok_def new_download_def sized_def)

lemma get_file_bytes_None: "get_file_bytes fs h = None \<longleftrightarrow> (case get_file fs h of None \<Rightarrow> True | Some f \<Rightarrow> \<not> sf_complete f)"
  by (simp add: get_file_bytes_def split: option.split)

lemma files_ok_join:
  assumes ok: "files_ok sha sizes fm" and m: "sized sizes m"
  shows "files_ok sha sizes (join_download e r m fm)"
proof -
  let ?h = "to_hex (man_digest m)"
  define have_it where "have_it \<longleftrightarrow> (case get_file (fm_files fm) ?h of None \<Rightarrow> False | Some f \<Rightarrow> sf_complete f)"
  define f0 where "f0 = (if have_it then store_do (touch_file (fe_now e) ?h) fm else fm)"
  define d0 where "d0 = attach_message (fe_self e) r (case get_dl f0 ?h of Some d \<Rightarrow> d | None \<Rightarrow> new_download m)"
  define f1 where "f1 = (if get_dl f0 ?h = None then f0\<lparr>fm_order := fm_order f0 @ [?h]\<rparr> else f0)"
  have ok0: "files_ok sha sizes f0" using ok by (simp add: f0_def files_ok_touch)
  then have ok1: "files_ok sha sizes f1" by (auto simp: f1_def intro: files_ok_cong)
  have d0: "dl_ok sizes ?h d0" using dl_ok_new [OF m] files_ok_get [OF ok0] by (simp add: d0_def split: option.split)
  have have_it: "have_it \<longleftrightarrow> get_file_bytes (fm_files f1) ?h \<noteq> None"
    by (auto simp: have_it_def f1_def f0_def store_do_def get_file_bytes_None split: option.splits)
      (auto simp: get_file_def touch_file_def)
  have act: "fm_active f1 = Some ?h \<Longrightarrow> dl_status d0 \<in> {DL_QUEUED, DL_FETCHING} \<and> \<not> have_it"
    using ok0 have_it unfolding files_ok_def f1_def d0_def by (auto split: if_splits option.splits)
  have eq: "join_download e r m fm =
      (if have_it then let d = note_progress (d0\<lparr>dl_held := [0..<dl_count d0]\<rparr>)
              in if dl_status d = DL_DONE then put_dl ?h d f1 else tell_dl ?h (d\<lparr>dl_status := DL_DONE, dl_why := None\<rparr>) f1
       else let d = (if dl_status d0 \<in> {DL_UNAVAILABLE, DL_FAILED}
                       then d0\<lparr>dl_status := DL_QUEUED, dl_why := None, dl_skipped := [], dl_attempts := 0\<rparr> else d0)
              in if dl_admitted d then put_dl ?h d f1 else admit_dl e ?h d f1)"
    unfolding join_download_def Let_def have_it_def [symmetric] f0_def [symmetric]
    by (cases "get_dl f0 ?h") (simp_all add: d0_def f1_def)
  have fetch: "have_it \<Longrightarrow> dl_fetch d0 = None"
    using ok0 have_it by (auto simp: files_ok_def dl_ok_def d0_def f1_def new_download_def split: option.splits if_splits)
  show ?thesis unfolding eq Let_def
    using d0 act have_it fetch by (auto simp: files_ok_tell intro!: files_ok_put [OF ok1] files_ok_admit [OF ok1])
qed

definition consistent :: "(hexid \<Rightarrow> int) \<Rightarrow> message_row list \<Rightarrow> bool" where
  "consistent sizes rows \<longleftrightarrow> (\<forall>r \<in> set rows. case manifest_from_row r of None \<Rightarrow> True | Some m \<Rightarrow> sized sizes m)"

lemma files_ok_request:
  assumes "files_ok sha sizes fm" "consistent sizes (db_rows (fe_db e))"
  shows "files_ok sha sizes (fst (request_download e ch mid fm))"
proof (cases "requested_manifest e ch mid")
  case (Some rm)
  obtain r m where rm: "rm = (r, m)" by (cases rm)
  with Some have "manifest_from_row r = Some m" "r \<in> set (db_rows (fe_db e))"
    by (auto simp: requested_manifest_def get_message_def find_Some_iff split: option.splits if_splits)
  then have "sized sizes m" using assms(2) by (force simp: consistent_def)
  then have "files_ok sha sizes (fst (pump e (join_download e r m fm)))"
    using assms(1) by (intro files_ok_pump files_ok_join)
  then show ?thesis using Some rm by (simp add: request_download_def begin_fetching_def pump_with_snap_def pump_with_def case_prod_beta)
qed (use assms in \<open>simp add: request_download_def\<close>)

lemma files_ok_merge:
  assumes "files_ok sha sizes fm" "store_ok sha sizes fs" "whole.shrinks (fm_files fm) fs"
  shows "files_ok sha sizes (fm\<lparr>fm_files := fs\<rparr>)"
  using assms unfolding files_ok_def whole.shrinks_def by (auto 4 3)

text \<open>Taking chunks adds to the store only chunks of this file, which is not complete.\<close>

lemma take_chunks_ok:
  assumes "take_chunks e h hashes idxs data n (d, fs) = ((d', fs'), n', how)"
    "store_ok sha sizes fs" "get_file_bytes fs h = None" "dl_ok sizes h d" "\<forall>i \<in> set idxs. i < dl_count d"
  shows "store_ok sha sizes fs' \<and> whole.shrinks fs fs' \<and> dl_ok sizes h d' \<and> dl_status d' = dl_status d"
  using assms
proof (induction idxs arbitrary: data n d fs)
  case Nil
  then show ?case by (auto simp: whole.refl)
next
  case (Cons i idxs)
  let ?len = "chunk_size_at (dl_size d) i"
  let ?c = "take ?len data" and ?d = "d\<lparr>dl_held := List.insert i (dl_held d)\<rparr>"
  let ?fs = "add_chunk (fe_now e) h i ?c fs"
  have "i < chunk_count_for (sizes h)" using Cons.prems(4,5) by (simp add: dl_ok_def)
  then have bound: "\<forall>c \<in> set (fs_chunks ?fs). ck_idx c < chunk_count_for (sizes (ck_hash c))"
    using Cons.prems(2) chunks_added [of "fe_now e" h i ?c fs] unfolding store_ok_def by force
  have bytes: "get_file_bytes ?fs h' = (if h' = h then None else get_file_bytes fs h')" for h'
    using bytes_add_None [OF Cons.prems(3)] bytes_add_other by simp
  have added: "store_ok sha sizes ?fs" "whole.shrinks fs ?fs" "get_file_bytes ?fs h = None"
    using Cons.prems(2) bound unfolding store_ok_def whole.shrinks_def bytes by (simp_all add: unique_added)
  show ?case
  proof (cases "data = [] \<or> length ?c \<noteq> ?len \<or> fe_sha e ?c \<noteq> hashes ! i \<or> \<not> fe_room e h i")
    case True
    then have "d' = d \<and> fs' = fs"
      using Cons.prems(1) by (auto simp: Let_def put_file_chunk_def split: if_splits)
    then show ?thesis using Cons.prems by (simp add: whole.refl)
  next
    case False
    then have "take_chunks e h hashes idxs (drop ?len data) (n + 1) (?d, ?fs) = ((d', fs'), n', how)"
      using Cons.prems(1) by (simp add: Let_def put_file_chunk_def)
    from Cons.IH [OF this added(1,3)] Cons.prems(4,5)
    show ?thesis using added(2) by (auto intro: whole.trans)
  qed
qed


lemma files_ok_cleared: "files_ok sha sizes fm \<Longrightarrow> files_ok sha sizes (fm\<lparr>fm_active := (if fm_active fm = Some h then None else fm_active fm)\<rparr>)"
  by (simp add: files_ok_def)

lemma finish_shape:
  "finish_dl h s why d fm =
     (put_dl h (d\<lparr>dl_status := s, dl_why := why, dl_holder := None\<rparr>) (fm\<lparr>fm_active := (if fm_active fm = Some h then None else fm_active fm)\<rparr>))
       \<lparr>fm_told := fm_told fm @ [dl_snap (d\<lparr>dl_status := s, dl_why := why, dl_holder := None\<rparr>)]\<rparr>"
  by (simp add: finish_dl_def tell_dl_def put_dl_def Let_def)

lemma files_ok_finish:
  assumes "files_ok sha sizes fm" "dl_ok sizes h d" "s \<noteq> DL_DONE" "get_file_bytes (fm_files fm) h = None"
  shows "files_ok sha sizes (finish_dl h s why d fm)"
  unfolding finish_shape files_ok_told
  using assms by (intro files_ok_put files_ok_cleared) (simp_all split: if_splits)

lemma all_chunks: "\<forall>c \<in> set (fs_chunks fs). ck_hash c = h \<longrightarrow> ck_idx c < n \<Longrightarrow> get_file_chunks fs h 0 n = map ck_content (chunks_of_file fs h)"
  by (auto simp: get_file_chunks_def chunks_of_file_def intro!: arg_cong [where f = "map ck_content"] filter_True)

lemma files_ok_complete:
  assumes ok: "files_ok (fe_sha e) sizes fm" and d: "dl_ok sizes h d" "dl_fetch d = None"
    and match: "file_matches e h d (fm_files fm)"
  shows "files_ok (fe_sha e) sizes
    (finish_dl h DL_DONE None d (store_do (\<lambda>fs. touch_file (fe_now e) h (mark_file_complete (fe_now e) h fs)) fm))"
proof -
  let ?fs = "touch_file (fe_now e) h (mark_file_complete (fe_now e) h (fm_files fm))"
  let ?d = "d\<lparr>dl_status := DL_DONE, dl_why := None, dl_holder := None\<rparr>"
  have st: "store_ok (fe_sha e) sizes (fm_files fm)" using ok by (simp add: files_ok_def)
  then have "\<forall>c \<in> set (fs_chunks (fm_files fm)). ck_hash c = h \<longrightarrow> ck_idx c < dl_count d"
    using d(1) by (auto simp: store_ok_def dl_ok_def)
  then have "to_hex (fe_sha e (concat (map ck_content (chunks_of_file (fm_files fm) h)))) = h"
    using match d(1) by (simp add: file_matches_def all_chunks Let_def dl_ok_def)
  then have st': "store_ok (fe_sha e) sizes ?fs"
    using st unfolding store_ok_def bytes_touch bytes_marked
    by (auto simp: touch_file_def mark_file_complete_def unique_key_update split: if_splits)
  have "dl_ok sizes h ?d" using d by simp
  then show ?thesis
    using ok st' unfolding finish_shape files_ok_told files_ok_def
    by (auto simp: store_do_def bytes_marked split: if_splits)
qed

lemma files_ok_start_again:
  assumes ok: "files_ok sha sizes fm" and d: "dl_ok sizes h d"
  shows "files_ok sha sizes (start_again e h d fm)"
proof -
  let ?d = "reset_window (d\<lparr>dl_suspect := List.union (dl_contributors d) (dl_suspect d), dl_contributors := [], dl_held := [],
                dl_chunk_list := None, dl_progress := 0, dl_admitted := False\<rparr>)"
  let ?fm = "fm\<lparr>fm_files := delete_file h (fm_files fm)\<rparr>"
  let ?fb = "fm\<lparr>fm_files := begin_file (fe_now e) h (dl_size ?d) False (delete_file h (fm_files fm))\<rparr>"
  let ?q = "?d\<lparr>dl_admitted := True, dl_status := DL_QUEUED, dl_why := None\<rparr>"
  have okm: "files_ok sha sizes ?fm" "files_ok sha sizes ?fb"
    using files_ok_store [OF ok trims_delete] files_ok_store [OF ok trims_trans [OF trims_delete trims_begin]] by simp_all
  have "files_ok sha sizes (put_dl h ?q (?fb\<lparr>fm_active := None\<rparr>))"
    using d by (intro files_ok_put files_ok_idle okm) simp_all
  moreover have "(tell_dl h ?q ?fb)\<lparr>fm_active := None\<rparr> = tell_dl h ?q (?fb\<lparr>fm_active := None\<rparr>)"
    by (simp add: tell_dl_def put_dl_def)
  moreover have "files_ok sha sizes (finish_dl h DL_FAILED (Some REASON_CORRUPT) ?d ?fm)"
    using d by (intro files_ok_finish okm) simp_all
  ultimately show ?thesis by (simp add: start_again_def Let_def store_do_def files_ok_tell)
qed

lemma files_ok_complete_dl:
  assumes "files_ok (fe_sha e) sizes fm" "dl_ok sizes h d" "dl_fetch d = None"
  shows "files_ok (fe_sha e) sizes (complete_dl e h d fm)"
  using files_ok_complete [OF assms] files_ok_start_again [OF assms(1,2)] by (simp add: complete_dl_def)

lemma files_ok_round: "files_ok sha sizes (put_dl h d fm) \<Longrightarrow> dl_ok sizes h d \<Longrightarrow> files_ok sha sizes (round_reset h holder d fm)"
proof -
  assume ok: "files_ok sha sizes (put_dl h d fm)" and d: "dl_ok sizes h d"
  let ?d = "d\<lparr>dl_attempts := 0, dl_skipped := [], dl_refused := removeAll holder (dl_refused d), dl_backoff := DOWNLOAD_RETRY_SECS\<rparr>"
  have "files_ok sha sizes (put_dl h ?d (put_dl h d fm))" using d by (intro files_ok_same [OF ok]) simp_all
  moreover have "put_dl h ?d (put_dl h d fm) = put_dl h ?d fm" by (simp add: put_dl_def)
  ultimately show ?thesis by (auto simp: round_reset_def Let_def intro: files_ok_cong)
qed


lemma get_dl_round [simp]:
  "get_dl (round_reset h holder d fm) h =
     Some (d\<lparr>dl_attempts := 0, dl_skipped := [], dl_refused := removeAll holder (dl_refused d), dl_backoff := DOWNLOAD_RETRY_SECS\<rparr>)"
  by (simp add: round_reset_def Let_def get_dl_def put_dl_def)

lemma get_dl_tell [simp]: "get_dl (tell_dl h d fm) h' = (if h' = h then Some d else get_dl fm h')"
  by (simp add: tell_dl_def)

lemma take_chunks_fetch: "take_chunks e h hashes idxs data n (d, fs) = ((d', fs'), n', how) \<Longrightarrow> dl_fetch d' = dl_fetch d"
  by (induction idxs arbitrary: data n d fs) (auto simp: Let_def put_file_chunk_def split: if_splits)

text \<open>An open download: tracked, not done, with the request that was out taken off.\<close>

definition open_dl :: "(hexid \<Rightarrow> int) \<Rightarrow> hexid \<Rightarrow> download \<Rightarrow> files \<Rightarrow> bool" where
  "open_dl sizes h d fm \<longleftrightarrow> dl_ok sizes h d \<and> dl_fetch d = None \<and> dl_status d \<noteq> DL_DONE
     \<and> (\<exists>d0. get_dl fm h = Some d0 \<and> dl_status d0 = dl_status d)"

lemma open_dl_put: "open_dl sizes h d fm \<Longrightarrow> files_ok sha sizes fm \<Longrightarrow> dl_ok sizes h d' \<Longrightarrow> dl_status d' = dl_status d
    \<Longrightarrow> files_ok sha sizes (put_dl h d' fm)"
  unfolding open_dl_def by (metis files_ok_same)

lemma files_ok_settle:
  assumes ok: "files_ok (fe_sha e) sizes fm" and d: "open_dl sizes h d fm"
  shows "files_ok (fe_sha e) sizes (settle_chunks e h holder stored d fm)"
proof -
  have dk: "dl_ok sizes h d" "dl_fetch d = None" using d by (simp_all add: open_dl_def)
  let ?d = "note_progress (d\<lparr>dl_contributors := List.insert holder (dl_contributors d)\<rparr>)"
  let ?t = "tell_dl h ?d fm"
  let ?fm = "if holder \<in> set (dl_suspect d) then ?t else round_reset h holder (grow_window ?d) ?t"
  have "files_ok (fe_sha e) sizes (put_dl h ?d fm)" using dk by (intro open_dl_put [OF d ok]) simp_all
  then have t: "files_ok (fe_sha e) sizes ?t" by (simp add: files_ok_tell)
  then have "files_ok (fe_sha e) sizes (put_dl h (grow_window ?d) ?t)" using dk by (intro files_ok_same [OF t, where d = ?d]) simp_all
  then have ok2: "files_ok (fe_sha e) sizes ?fm" using t dk by (simp add: files_ok_round)
  obtain d2 where d2: "get_dl ?fm h = Some d2" "dl_fetch d2 = None" using dk by (cases "holder \<in> set (dl_suspect d)") simp_all
  have "files_ok (fe_sha e) sizes (complete_dl e h d2 ?fm)"
    using files_ok_complete_dl [OF ok2 files_ok_get [OF ok2 d2(1)] d2(2)] .
  moreover have "settle_chunks e h holder stored d fm =
      (if stored = 0 then (if holder \<in> set (dl_suspect d) then put_dl h d fm
         else put_dl h (shrink_window (d\<lparr>dl_skipped := List.insert holder (dl_skipped d)\<rparr>)) fm)
       else if length (dl_held d2) \<ge> dl_count d2 then complete_dl e h d2 ?fm else ?fm)"
    using d2(1) by (simp add: settle_chunks_def Let_def)
  ultimately show ?thesis using ok2 dk by (simp add: open_dl_put [OF d ok])
qed

lemma files_ok_chunks:
  assumes ok: "files_ok (fe_sha e) sizes fm" and d: "open_dl sizes h d fm"
  shows "files_ok (fe_sha e) sizes (on_chunks e h holder data d fm)"
proof -
  have dk: "dl_ok sizes h d" "dl_fetch d = None" "dl_status d \<noteq> DL_DONE" using d by (simp_all add: open_dl_def)
  have none: "get_file_bytes (fm_files fm) h = None" using d files_ok_done [OF ok] unfolding open_dl_def by metis
  show ?thesis
  proof (cases "\<exists>first hashes. next_index d = Some first \<and> dl_chunk_list d = Some hashes")
    case True
    then obtain first hashes where fh: "next_index d = Some first" "dl_chunk_list d = Some hashes" by blast
    obtain d' fs stored how where tk: "take_chunks e h hashes [first..<dl_count d] data 0 (d, fm_files fm) = ((d', fs), stored, how)"
      by (metis prod.exhaust)
    have res: "store_ok (fe_sha e) sizes fs" "whole.shrinks (fm_files fm) fs" "dl_ok sizes h d'" "dl_status d' = dl_status d"
      using take_chunks_ok [OF tk _ none dk(1), of "fe_sha e"] ok by (simp_all add: files_ok_def)
    let ?fm = "fm\<lparr>fm_files := fs\<rparr>"
    have ok': "files_ok (fe_sha e) sizes ?fm" using files_ok_merge [OF ok res(1,2)] .
    have none': "get_file_bytes fs h = None" using res(2) none by (cases "get_file_bytes fs h") (auto simp: whole.shrinks_def)
    have f: "dl_fetch d' = None" using take_chunks_fetch [OF tk] dk by simp
    have o1: "open_dl sizes h d' ?fm" using d res f unfolding open_dl_def by auto
    have o2: "open_dl sizes h (reset_window (d'\<lparr>dl_suspect := x\<rparr>)) ?fm" for x
      using o1 unfolding open_dl_def by simp
    show ?thesis using fh tk files_ok_settle [OF ok' o1] files_ok_settle [OF ok' o2] files_ok_finish [OF ok' res(3)] none'
      by (simp add: on_chunks_def Let_def split: chunk_end.split)
  next
    case False
    then have "on_chunks e h holder data d fm = put_dl h d fm"
      by (auto simp: on_chunks_def split: option.splits)
    then show ?thesis using open_dl_put [OF d ok dk(1)] by simp
  qed
qed

lemma files_ok_take_result:
  assumes ok: "files_ok (fe_sha e) sizes fm" and d: "get_dl fm h = Some d" "dl_fetch d \<noteq> None"
  shows "files_ok (fe_sha e) sizes (take_result e h result d fm)"
proof -
  let ?d = "d\<lparr>dl_fetch := None\<rparr>"
  have "dl_ok sizes h d" "dl_status d \<noteq> DL_DONE" using files_ok_get [OF ok d(1)] d(2) by (auto simp: dl_ok_def)
  then have o': "open_dl sizes h ?d fm" and dk: "dl_ok sizes h ?d" using d by (simp_all add: open_dl_def)
  have put: "files_ok (fe_sha e) sizes (put_dl h d' fm)" if "dl_ok sizes h d'" "dl_status d' = dl_status d" for d'
    using open_dl_put [OF o' ok] that by simp
  show ?thesis using dk
    by (simp add: take_result_def Let_def files_ok_chunks [OF ok o'] on_failed_request_def on_chunk_list_def
        put files_ok_round split: fetch_result.split)
qed

lemma files_ok_result: "files_ok (fe_sha e) sizes fm \<Longrightarrow> files_ok (fe_sha e) sizes (fst (on_result e fid result fm))"
proof -
  assume ok: "files_ok (fe_sha e) sizes fm"
  let ?fm = "fm\<lparr>fm_by_fetch := AList.delete fid (fm_by_fetch fm)\<rparr>"
  have ok': "files_ok (fe_sha e) sizes ?fm" using ok by (rule files_ok_cong) simp_all
  have "files_ok (fe_sha e) sizes (fst (pump e (announce_files e (take_result e h result d ?fm))))"
    if "get_dl ?fm h = Some d" "dl_fetch d = Some fid" for h d
    using that by (intro files_ok_pump files_ok_announce files_ok_take_result ok') simp_all
  then show ?thesis using ok'
    by (auto simp: on_result_def result_arrived_def Let_def split: option.splits)
qed


section \<open>Sharing and restarting\<close>

lemma build_manifest_digest: "build_manifest sha decode name data = Some m \<Longrightarrow> man_digest m = sha data \<and> data \<noteq> []"
  by (auto simp: build_manifest_def man_digest_def split: option.splits if_splits elim!: file_manifest_Some)

lemma length_chunks_of: "length (chunks_of FILE_CHUNK_BYTES data) = chunk_count_for (int (length data))"
proof -
  have "length (chunks_of n xs) = (length xs + n - 1) div n" if "0 < n" for n and xs :: "'b list"
    using that
  proof (induction n xs rule: chunks_of.induct)
    case (1 n xs)
    consider "xs = []" | "xs \<noteq> []" "length xs \<le> n" | "xs \<noteq> []" "n < length xs" by linarith
    then show ?case
    proof cases
      case 1
      then show ?thesis using "1.prems" by (simp add: chunks_of.simps)
    next
      case 2
      have "(length xs + n - 1) div n = (length xs - 1 + n) div n" using 2 by (cases xs) auto
      also have "\<dots> = 1" using 2 "1.prems" by (cases xs) simp_all
      finally show ?thesis using 2 by (simp add: chunks_of_short)
    next
      case 3
      then have "(length xs + n - 1) div n = (length xs - n + n - 1 + n) div n" by (simp add: algebra_simps)
      also have "\<dots> = Suc ((length xs - n + n - 1) div n)" using "1.prems" by (simp only: div_add_self2)
      finally show ?thesis using 3 "1.prems" "1.IH" by (subst chunks_of.simps) simp
    qed
  qed
  from this [of FILE_CHUNK_BYTES data] show ?thesis
    by (simp add: chunk_count_for_def FILE_CHUNK_BYTES_def nat_div_distrib)
qed

lemma put_chunks_effect:
  assumes "put_chunks e h i cs fs = (fs', ok)" "\<forall>c \<in> set (fs_chunks fs). ck_hash c = h \<longrightarrow> ck_idx c < i"
  shows "(ok \<longrightarrow> filter (\<lambda>c. ck_hash c = h) (fs_chunks fs') = filter (\<lambda>c. ck_hash c = h) (fs_chunks fs)
      @ map (\<lambda>(j, c). \<lparr>ck_hash = h, ck_idx = j, ck_content = c\<rparr>) (zip [i..<i + length cs] cs))
    \<and> filter (\<lambda>c. ck_hash c \<noteq> h) (fs_chunks fs') = filter (\<lambda>c. ck_hash c \<noteq> h) (fs_chunks fs)
    \<and> (\<forall>h'. map_option sf_complete (get_file fs' h') = map_option sf_complete (get_file fs h'))
    \<and> map sf_hash (fs_files fs') = map sf_hash (fs_files fs)"
  using assms
proof (induction e h i cs fs arbitrary: ok rule: put_chunks.induct)
  case (2 e h i c cs fs)
  let ?fs = "add_chunk (fe_now e) h i c fs"
  have new: "\<not> has_key ck_key (fs_chunks fs) (h, i)" using "2.prems"(2) by (auto simp: has_key_iff ck_key_def)
  have add: "fs_chunks ?fs = fs_chunks fs @ [\<lparr>ck_hash = h, ck_idx = i, ck_content = c\<rparr>]"
    "\<And>h'. map_option sf_complete (get_file ?fs h') = map_option sf_complete (get_file fs h')"
    "map sf_hash (fs_files ?fs) = map sf_hash (fs_files fs)"
    using new by (simp_all add: add_chunk_def get_file_def option.map_comp comp_def, simp add: update_where_def comp_def)
  show ?case
  proof (cases "fe_room e h i")
    case True
    have "put_chunks e h (i + 1) cs ?fs = (fs', ok)" using "2.prems"(1) True by (simp add: put_file_chunk_def)
    moreover have "\<forall>c \<in> set (fs_chunks ?fs). ck_hash c = h \<longrightarrow> ck_idx c < i + 1" using "2.prems"(2) by (auto simp: add(1))
    moreover have "[i..<i + length (c # cs)] = i # [i + 1..<i + 1 + length cs]"
      by (simp add: upt_conv_Cons del: upt_Suc)
    then have zip: "zip [i..<i + length (c # cs)] (c # cs) = (i, c) # zip [i + 1..<i + 1 + length cs] cs"
      by (simp only: zip_Cons_Cons)
    ultimately show ?thesis using "2.IH" [of ?fs True ok] True
      unfolding zip by (auto simp: put_file_chunk_def add simp del: upt_Suc)
  qed (use "2.prems" in \<open>auto simp: put_file_chunk_def\<close>)
qed auto


lemma bytes_cong:
  assumes "map_option sf_complete (get_file fs h) = map_option sf_complete (get_file fs' h)"
    "filter (\<lambda>c. ck_hash c = h) (fs_chunks fs) = filter (\<lambda>c. ck_hash c = h) (fs_chunks fs')"
  shows "get_file_bytes fs h = get_file_bytes fs' h"
  using assms by (cases "get_file fs h"; cases "get_file fs' h") (auto simp: get_file_bytes_def chunks_of_file_def)

text \<open>The store while the chunks of a new file are put: nothing else changes.\<close>

lemma put_chunks_apart:
  assumes "put_chunks e h i cs fs = (fs', ok)" "\<forall>c \<in> set (fs_chunks fs). ck_hash c \<noteq> h"
  shows "h' \<noteq> h \<Longrightarrow> get_file_bytes fs' h' = get_file_bytes fs h'"
    "c \<in> set (fs_chunks fs') \<Longrightarrow> ck_hash c \<noteq> h \<Longrightarrow> c \<in> set (fs_chunks fs)"
    "unique_key sf_hash (fs_files fs') = unique_key sf_hash (fs_files fs)"
proof -
  note eff = put_chunks_effect [OF assms(1)]
  have prem: "\<forall>c \<in> set (fs_chunks fs). ck_hash c = h \<longrightarrow> ck_idx c < i" using assms(2) by blast
  have same: "filter (\<lambda>c. ck_hash c \<noteq> h) (fs_chunks fs') = filter (\<lambda>c. ck_hash c \<noteq> h) (fs_chunks fs)" using eff [OF prem] by blast
  show "unique_key sf_hash (fs_files fs') = unique_key sf_hash (fs_files fs)" using eff [OF prem] by (simp add: unique_key_def)
  show "c \<in> set (fs_chunks fs') \<Longrightarrow> ck_hash c \<noteq> h \<Longrightarrow> c \<in> set (fs_chunks fs)"
    using arg_cong [OF same, of set] by auto
  assume "h' \<noteq> h"
  have "filter (\<lambda>c. ck_hash c = h') cs = filter (\<lambda>c. ck_hash c = h') (filter (\<lambda>c. ck_hash c \<noteq> h) cs)" for cs :: "chunk_row list"
    using \<open>h' \<noteq> h\<close> by (auto intro!: filter_cong)
  then have "filter (\<lambda>c. ck_hash c = h') (fs_chunks fs') = filter (\<lambda>c. ck_hash c = h') (fs_chunks fs)" using same by metis
  then show "get_file_bytes fs' h' = get_file_bytes fs h'" using eff [OF prem] by (intro bytes_cong) auto
qed

lemma sorted_idx: "sorted (map ck_idx (map (\<lambda>(j, c). \<lparr>ck_hash = h, ck_idx = j, ck_content = c\<rparr>) (zip [i..<i + length cs] cs)))"
proof -
  have "map ck_idx (map (\<lambda>(j, c). \<lparr>ck_hash = h, ck_idx = j, ck_content = c\<rparr>) (zip [i..<i + length cs] cs)) = [i..<i + length cs]"
    by (simp add: comp_def case_prod_beta)
  then show ?thesis by simp
qed

lemma shared_bytes:
  assumes "put_chunks e h 0 (chunks_of FILE_CHUNK_BYTES data) fs = (fs', True)" "\<forall>c \<in> set (fs_chunks fs). ck_hash c \<noteq> h"
  shows "concat (map ck_content (chunks_of_file fs' h)) = data"
    "c \<in> set (fs_chunks fs') \<Longrightarrow> ck_hash c = h \<Longrightarrow> ck_idx c < chunk_count_for (int (length data))"
proof -
  let ?cs = "chunks_of FILE_CHUNK_BYTES data"
  let ?rows = "map (\<lambda>(j, c). \<lparr>ck_hash = h, ck_idx = j, ck_content = c\<rparr>) (zip [0..<0 + length ?cs] ?cs)"
  have none: "filter (\<lambda>c. ck_hash c = h) (fs_chunks fs) = []" using assms(2) by (simp add: filter_empty_conv)
  have rows: "filter (\<lambda>c. ck_hash c = h) (fs_chunks fs') = ?rows"
    using put_chunks_effect [OF assms(1)] assms(2) none by simp
  have "map ck_content ?rows = ?cs" by (simp add: comp_def case_prod_beta)
  moreover have "chunks_of_file fs' h = ?rows"
    unfolding chunks_of_file_def rows by (rule sort_key_id_if_sorted) (rule sorted_idx)
  ultimately show "concat (map ck_content (chunks_of_file fs' h)) = data"
    by (simp add: concat_chunks_of FILE_CHUNK_BYTES_def)
  assume "c \<in> set (fs_chunks fs')" "ck_hash c = h"
  then have "c \<in> set ?rows" using arg_cong [OF rows, of set] by auto
  then show "ck_idx c < chunk_count_for (int (length data))" by (auto simp: length_chunks_of dest: set_zip_leftD)
qed


text \<open>A file may be shared where it is complete, or where nothing of it is stored and no download of it is tracked.\<close>

definition may_share :: "(bytes \<Rightarrow> bytes) \<Rightarrow> (hexid \<Rightarrow> int) \<Rightarrow> bytes \<Rightarrow> files \<Rightarrow> bool" where
  "may_share sha sizes data fm \<longleftrightarrow>
     (let h = to_hex (sha data)
      in get_file_bytes (fm_files fm) h \<noteq> None
         \<or> get_dl fm h = None \<and> (\<forall>c \<in> set (fs_chunks (fm_files fm)). ck_hash c \<noteq> h) \<and> sizes h = int (length data))"

lemma files_ok_share:
  assumes ok: "files_ok (fe_sha e) sizes fm" and may: "may_share (fe_sha e) sizes data fm"
  shows "files_ok (fe_sha e) sizes (fst (share_file e name data fm))"
proof (cases "build_manifest (fe_sha e) (fe_decode e) (PStr name) data")
  case (Some m)
  define h where "h = to_hex (man_digest m)"
  let ?now = "fe_now e" and ?n = "int (length data)"
  let ?own = "\<lambda>fs. touch_file ?now h (mark_file_complete ?now h fs)"
  have h: "h = to_hex (fe_sha e data)" using build_manifest_digest [OF Some] by (simp add: h_def)
  show ?thesis
  proof (cases "get_file_bytes (fm_files fm) h = None")
    case False
    then obtain f where f: "get_file (fm_files fm) h = Some f" "sf_complete f" by (auto simp: get_file_bytes_None split: option.splits)
    let ?fs = "?own (begin_file ?now h ?n True (fm_files fm))"
    have same: "get_file_bytes ?fs h' = get_file_bytes (fm_files fm) h'" for h'
      using f by (auto simp: bytes_marked) (auto simp: get_file_bytes_def begin_file_def get_file_def chunks_of_file_def)
    have "trims (fm_files fm) ?fs" unfolding trims_def whole.shrinks_def same
      by (auto simp: begin_file_def touch_file_def mark_file_complete_def unique_key_update unique_key_upsert)
    then have "files_ok (fe_sha e) sizes (fm\<lparr>fm_files := ?fs\<rparr>)" by (rule files_ok_store [OF ok])
    moreover have "fst (share_file e name data fm) = fm\<lparr>fm_files := ?fs\<rparr>"
      using Some f by (simp add: share_file_def Let_def store_do_def flip: h_def)
    ultimately show ?thesis by simp
  next
    case True
    then have fresh: "get_dl fm h = None" "\<forall>c \<in> set (fs_chunks (fm_files fm)). ck_hash c \<noteq> h" "sizes h = ?n"
      using may by (simp_all add: may_share_def Let_def h)
    let ?fb = "begin_file ?now h ?n True (fm_files fm)"
    have free: "\<forall>c \<in> set (fs_chunks ?fb). ck_hash c \<noteq> h" using fresh(2) by (simp add: begin_file_def)
    obtain fs b where put: "put_chunks e h 0 (chunks_of FILE_CHUNK_BYTES data) ?fb = (fs, b)" by force
    have eq: "fst (share_file e name data fm) =
        (if \<not> snd (admit_file h ?n True (fm_files fm)) then fm
         else if \<not> b then fm\<lparr>fm_files := delete_file h fs\<rparr>
         else announce_files e (fm\<lparr>fm_files := ?own fs, fm_chunk_lists := AList.delete h (fm_chunk_lists fm)\<rparr>))"
      using Some True put
      by (auto simp: share_file_def Let_def get_file_bytes_None admit_file_def simp flip: h_def split: option.splits bool.splits)
    have store: "store_ok (fe_sha e) sizes (fm_files fm)" using ok by (simp add: files_ok_def)
    note apart' = put_chunks_apart [OF put free]
    have apart: "h' \<noteq> h \<Longrightarrow> get_file_bytes fs h' = get_file_bytes (fm_files fm) h'"
      "c \<in> set (fs_chunks fs) \<Longrightarrow> ck_hash c \<noteq> h \<Longrightarrow> c \<in> set (fs_chunks (fm_files fm))" for h' c
      using apart'(1,2) by simp_all (simp add: begin_file_def)
    have uniq: "unique_key sf_hash (fs_files fs)"
      using store apart'(3) by (simp add: store_ok_def begin_file_def unique_key_upsert)
    have "trims (fm_files fm) (delete_file h fs)"
      unfolding trims_def whole.shrinks_def bytes_delete using apart(1,2) uniq
      by (auto simp: delete_file_def delete_where_def intro: unique_key_delete [unfolded delete_where_def])
    then have failed: "files_ok (fe_sha e) sizes (fm\<lparr>fm_files := delete_file h fs\<rparr>)" by (rule files_ok_store [OF ok])
    have shared: "files_ok (fe_sha e) sizes (fm\<lparr>fm_files := ?own fs\<rparr>)" if b
    proof -
      note whole_file = shared_bytes [OF put [unfolded \<open>b\<close> [THEN eqTrueI]] free]
      have bytes: "get_file_bytes (?own fs) h' = (if h' = h then map_option (\<lambda>_. data) (get_file fs h) else get_file_bytes (fm_files fm) h')" for h'
        using apart(1) [of h'] by (simp add: bytes_marked whole_file(1))
      have "\<forall>c \<in> set (fs_chunks fs). ck_idx c < chunk_count_for (sizes (ck_hash c))"
      proof
        fix c assume "c \<in> set (fs_chunks fs)"
        then show "ck_idx c < chunk_count_for (sizes (ck_hash c))"
          using whole_file(2) [of c] apart(2) [of c] store fresh(3) by (cases "ck_hash c = h") (simp_all add: store_ok_def)
      qed
      then have "store_ok (fe_sha e) sizes (?own fs)"
        using store uniq h unfolding store_ok_def bytes
        by (auto simp: touch_file_def mark_file_complete_def unique_key_update)
      then show ?thesis using ok fresh(1) unfolding files_ok_def by (auto simp: bytes [unfolded bytes_touch])
    qed
    have "files_ok (fe_sha e) sizes (announce_files e (fm\<lparr>fm_files := ?own fs, fm_chunk_lists := x\<rparr>))" if b for x
      by (rule files_ok_announce) (rule files_ok_cong [OF shared [OF that]], simp_all)
    then show ?thesis unfolding eq using ok failed by simp
  qed
qed (simp add: share_file_def ok)


lemma manifest_from_row_hash:
  assumes "manifest_from_row r = Some m" "row_file_hash r = Some h"
  shows "to_hex (man_digest m) = h"
proof -
  obtain b where b: "h = to_hex b" using assms(2) by (auto simp: row_file_hash_def split: option.splits)
  with assms have "man_hash m = Some b"
    by (auto simp: manifest_from_row_def split: option.splits elim!: file_manifest_Some)
  then show ?thesis by (simp add: b man_digest_def)
qed

lemma first_manifest_Some: "first_manifest rs = Some m \<Longrightarrow> \<exists>r \<in> set rs. manifest_from_row r = Some m"
  by (induction rs) (auto split: option.splits)

lemma attached [simp]: "dl_ok sizes h (fold (attach_message self) rs d) = dl_ok sizes h d"
  "dl_status (fold (attach_message self) rs d) = dl_status d" "dl_admitted (fold (attach_message self) rs d) = dl_admitted d"
  "dl_held (fold (attach_message self) rs d) = dl_held d" "dl_count (fold (attach_message self) rs d) = dl_count d"
  "dl_fetch (fold (attach_message self) rs d) = dl_fetch d"
  by (induction rs arbitrary: d) simp_all

lemma files_ok_restore_one:
  assumes ok: "files_ok sha sizes fm" and idle: "fm_active fm = None" and rows: "consistent sizes (db_rows (fe_db e))"
    and f: "f \<in> set (fs_files (fm_files fm))" "\<not> sf_complete f"
  shows "files_ok sha sizes (restore_one e f fm) \<and> fm_active (restore_one e f fm) = None
    \<and> fm_files (restore_one e f fm) = fm_files fm"
proof (cases "first_manifest (messages_for_file (db_rows (fe_db e)) (sf_hash f))")
  case (Some m)
  let ?h = "sf_hash f"
  obtain r where r: "r \<in> set (db_rows (fe_db e))" "row_file_hash r = Some ?h" "manifest_from_row r = Some m"
    using first_manifest_Some [OF Some] by (auto simp: messages_for_file_def)
  have "sized sizes m" using rows r by (force simp: consistent_def)
  then have new: "dl_ok sizes ?h (new_download m)" using dl_ok_new manifest_from_row_hash [OF r(3,2)] by metis
  have "get_file (fm_files fm) ?h = Some f"
    unfolding get_file_def using ok f(1) by (intro row_of_in) (simp_all add: files_ok_def store_ok_def)
  then have none: "get_file_bytes (fm_files fm) ?h = None" using f(2) by (simp add: get_file_bytes_None)
  have "files_ok sha sizes (put_dl ?h d fm)" if "dl_ok sizes ?h d" for d
    using none idle that by (intro files_ok_put [OF ok]) simp_all
  moreover have "files_ok sha sizes (fm'\<lparr>fm_order := x\<rparr>) = files_ok sha sizes fm'" for fm' x
    by (simp add: files_ok_def get_dl_def)
  ultimately show ?thesis using Some new idle by (simp add: restore_one_def Let_def)
qed (simp add: restore_one_def ok idle)

lemma files_ok_new:
  assumes store: "store_ok sha sizes fs" and rows: "consistent sizes (db_rows (fe_db e))"
  shows "files_ok sha sizes (new_files e fs)"
proof -
  let ?fm = "\<lparr>fm_files = fs, fm_downloads = [], fm_order = [], fm_by_fetch = [], fm_active = None, fm_last_holder = [],
        fm_chunk_lists = [], fm_told = [], fm_issued = [], fm_last_prune = fe_now e, fm_last_announce = 0, fm_announced = 0\<rparr>"
  have "files_ok sha sizes ?fm" "fm_files ?fm = fs" "fm_active ?fm = None" using store by (simp_all add: files_ok_def get_dl_def)
  moreover have "files_ok sha sizes fm \<Longrightarrow> fm_files fm = fs \<Longrightarrow> fm_active fm = None
      \<Longrightarrow> \<forall>f \<in> set fl. f \<in> set (fs_files fs) \<and> \<not> sf_complete f \<Longrightarrow> files_ok sha sizes (fold (restore_one e) fl fm)" for fl fm
  proof (induction fl arbitrary: fm)
    case (Cons f fl)
    show ?case using files_ok_restore_one [of sha sizes fm e f] rows Cons by simp
  qed simp
  moreover have "\<forall>f \<in> set (list_files fs (Some False) (Some False)). f \<in> set (fs_files fs) \<and> \<not> sf_complete f"
    by (auto simp: list_files_def)
  ultimately show ?thesis unfolding new_files_def restore_downloads_def by simp
qed

section \<open>Histories\<close>

datatype file_event =
    Share_File string bytes | Ask_File hexid string | Fetch_Result string fetch_result | Peer_Near hexid
  | File_Tick | File_Prune | Serve_File "hexid option" hexid nat nat bool | Read_File hexid | Files_Restart

fun file_step :: "file_env \<times> file_event \<Rightarrow> files \<Rightarrow> files" where
  "file_step (e, Share_File name data) fm = fst (share_file e name data fm)"
| "file_step (e, Ask_File ch mid) fm = fst (request_download e ch mid fm)"
| "file_step (e, Fetch_Result fid result) fm = fst (on_result e fid result fm)"
| "file_step (e, Peer_Near peer) fm = fst (files_peer_appeared e peer fm)"
| "file_step (e, File_Tick) fm = fst (files_tick e fm)"
| "file_step (e, File_Prune) fm = fst (prune_locked (fe_now e) fm)"
| "file_step (e, Serve_File who h first k want) fm = fst (serve_file e who h first k want fm)"
| "file_step (e, Read_File h) fm = fst (file_bytes e h fm)"
| "file_step (e, Files_Restart) fm = new_files e (fm_files fm)"

fun sound_history :: "(bytes \<Rightarrow> bytes) \<Rightarrow> (hexid \<Rightarrow> int) \<Rightarrow> (file_env \<times> file_event) list \<Rightarrow> files \<Rightarrow> bool" where
  "sound_history sha sizes [] fm \<longleftrightarrow> True"
| "sound_history sha sizes ((e, ev) # es) fm \<longleftrightarrow>
     fe_sha e = sha \<and> consistent sizes (db_rows (fe_db e))
     \<and> (case ev of Share_File name data \<Rightarrow> may_share sha sizes data fm | _ \<Rightarrow> True)
     \<and> sound_history sha sizes es (file_step (e, ev) fm)"

lemma files_ok_stored: "files_ok sha sizes fm \<Longrightarrow> store_ok sha sizes (fm_files fm)"
  by (simp add: files_ok_def)

lemma files_ok_step:
  "files_ok (fe_sha e) sizes fm \<Longrightarrow> consistent sizes (db_rows (fe_db e))
     \<Longrightarrow> (case ev of Share_File name data \<Rightarrow> may_share (fe_sha e) sizes data fm | _ \<Rightarrow> True)
     \<Longrightarrow> files_ok (fe_sha e) sizes (file_step (e, ev) fm)"
  by (cases ev)
    (simp_all add: files_ok_share files_ok_request files_ok_result files_ok_peer files_ok_tick files_ok_prune
      files_ok_serve files_ok_bytes files_ok_new files_ok_stored)

lemma files_ok_history: "files_ok sha sizes fm \<Longrightarrow> sound_history sha sizes es fm \<Longrightarrow> files_ok sha sizes (fold file_step es fm)"
  by (induction sha sizes es fm rule: sound_history.induct) (auto intro: files_ok_step)

definition no_files :: file_store where "no_files = \<lparr>fs_files = [], fs_chunks = []\<rparr>"

text \<open>C16. After any history of shares, requests, results of whatever a holder sends, pruning, serving and
  restarts, the bytes the node gives for a file hash to the name of the file. Assumed is that the manifests of one
  file agree on its size, and that no file is shared while an unfinished download of it is stored.\<close>

theorem files_match_their_hash:
  assumes "sound_history sha sizes es (new_files e no_files)" "consistent sizes (db_rows (fe_db e))"
    and "get_file_bytes (fm_files (fold file_step es (new_files e no_files))) h = Some data"
  shows "to_hex (sha data) = h"
proof -
  have "store_ok sha sizes no_files"
    by (simp add: store_ok_def no_files_def get_file_bytes_def get_file_def unique_key_def)
  then have "files_ok sha sizes (fold file_step es (new_files e no_files))"
    using assms(1,2) by (intro files_ok_history files_ok_new)
  then show ?thesis using assms(3) by (simp add: files_ok_def store_ok_def)
qed


section \<open>A download\<close>

definition sample_data :: bytes where "sample_data = [1, 2, 3]"

definition file_message :: message_row where
  "file_message = held_row\<lparr>ms_manifest := Some \<lparr>man_name = PStr ''a'', man_size = PInt 3, man_hash = Some (pad_hash sample_data),
     man_root = Some (chunk_root pad_hash [pad_hash sample_data])\<rparr>\<rparr>"

definition sample_files :: "secs \<Rightarrow> string \<Rightarrow> file_env" where
  "sample_files now fid = \<lparr>fe_now = now, fe_db = (fresh_db shared_store (fresh_friends []))\<lparr>db_rows := [file_message]\<rparr>,
     fe_presence = new_presence sample_self 300, fe_self = sample_self, fe_sha = pad_hash, fe_decode = (\<lambda>_. []),
     fe_transport = True, fe_reach = (\<lambda>_. True), fe_room = (\<lambda>_ _. True), fe_fetch_id = fid\<rparr>"

definition sample_download :: "(file_env \<times> file_event) list" where
  "sample_download =
     [(sample_files 10 ''a1'', Ask_File ''0a'' ''01''),
      (sample_files 11 ''a2'', Fetch_Result ''a1'' (Fetched (Some (pad_hash sample_data)))),
      (sample_files 12 ''a3'', Fetch_Result ''a2'' (Fetched (Some sample_data)))]"

lemma sample_arrives:
  "get_file_bytes (fm_files (fold file_step sample_download (new_files (sample_files 10 []) no_files))) (to_hex (pad_hash sample_data))
     = Some sample_data"
  by code_simp

lemma sample_consistent: "consistent (\<lambda>_. 3) [file_message]"
  by code_simp

theorem files_match_their_hash_witness:
  "\<exists>data h. get_file_bytes (fm_files (fold file_step sample_download (new_files (sample_files 10 []) no_files))) h = Some data
     \<and> to_hex (pad_hash data) = h"
proof -
  have env: "fe_sha (sample_files now fid) = pad_hash" "db_rows (fe_db (sample_files now fid)) = [file_message]" for now fid
    by (simp_all add: sample_files_def)
  have "sound_history pad_hash (\<lambda>_. 3) sample_download (new_files (sample_files 10 []) no_files)"
    by (simp add: sample_download_def env sample_consistent del: file_step.simps)
  from files_match_their_hash [OF this _ sample_arrives] show ?thesis using sample_arrives
    by (simp add: env sample_consistent) blast
qed

end
