(* ===== verification/File_Budget.thy ===== *)
theory File_Budget
  imports File_Safety
begin

text \<open>
  The budgets of the file store: what admission and pruning leave of each class of files, and what they never touch.
\<close>

section \<open>Sums over the rows\<close>

definition held_ok :: "file_store \<Rightarrow> bool" where
  "held_ok fs \<longleftrightarrow> unique_key sf_hash (fs_files fs) \<and> (\<forall>r \<in> set (fs_files fs). 0 \<le> sf_held r)"

lemma held_ok_delete: "held_ok fs \<Longrightarrow> held_ok (delete_file h fs)"
  by (auto simp: held_ok_def delete_file_def delete_where_def unique_key_def distinct_map_filter)

lemma rows_delete: "fs_files (delete_file h fs) = filter (\<lambda>r. sf_hash r \<noteq> h) (fs_files fs)"
  by (simp add: delete_file_def delete_where_def)

text \<open>Deleting a row takes what it holds off the sum of its class.\<close>

lemma held_sum_delete:
  assumes "held_ok fs" "r \<in> set (fs_files fs)" "p r"
  shows "held_sum p (fs_files (delete_file (sf_hash r) fs)) = held_sum p (fs_files fs) - sf_held r"
proof -
  have "distinct (map sf_hash rows) \<Longrightarrow> r \<in> set rows \<Longrightarrow>
      held_sum p (filter (\<lambda>x. sf_hash x \<noteq> sf_hash r) rows) = held_sum p rows - sf_held r" for rows
  proof (induction rows)
    case (Cons x rows)
    show ?case
    proof (cases "x = r")
      case True
      then have "filter (\<lambda>x. sf_hash x \<noteq> sf_hash r) rows = rows"
        using Cons.prems(1) by (auto simp: filter_id_conv) (metis imageI)
      then show ?thesis using True assms(3) by (simp add: held_sum_def)
    next
      case False
      then have "r \<in> set rows" "sf_hash x \<noteq> sf_hash r" using Cons.prems by auto
      then show ?thesis using Cons by (simp add: held_sum_def)
    qed
  qed simp
  then show ?thesis using assms by (simp add: rows_delete held_ok_def unique_key_def)
qed

lemma held_sum_filter_le: "\<forall>r \<in> set rows. 0 \<le> sf_held r \<Longrightarrow> held_sum p (filter q rows) \<le> held_sum p rows"
  by (induction rows) (auto simp: held_sum_def)

lemma held_sum_mono: "\<forall>r \<in> set rows. 0 \<le> sf_held r \<Longrightarrow> (\<And>r. p r \<Longrightarrow> q r) \<Longrightarrow> held_sum p rows \<le> held_sum q rows"
  by (induction rows) (auto simp: held_sum_def intro: add_mono)

text \<open>The eviction loop frees what is needed, or has deleted every row it was given.\<close>

lemma evict_frees:
  assumes "held_ok fs" "distinct (map sf_hash rows)" "set rows \<subseteq> {r \<in> set (fs_files fs). p r}"
  shows "held_ok (evict_files rows needed fs) \<and>
    (held_sum p (fs_files (evict_files rows needed fs)) \<le> held_sum p (fs_files fs) - needed
     \<or> fs_files (evict_files rows needed fs) = filter (\<lambda>r. sf_hash r \<notin> sf_hash ` set rows) (fs_files fs))"
  using assms
proof (induction rows needed fs rule: evict_files.induct)
  case (2 r rows needed fs)
  show ?case
  proof (cases "0 \<ge> needed")
    case False
    let ?fs = "delete_file (sf_hash r) fs"
    have sub: "set rows \<subseteq> {x \<in> set (fs_files ?fs). p x}" using "2.prems"(2,3) by (auto simp: rows_delete) (metis imageI)
    have sum: "held_sum p (fs_files ?fs) = held_sum p (fs_files fs) - sf_held r"
      using "2.prems" by (intro held_sum_delete) auto
    have rest: "filter (\<lambda>x. sf_hash x \<notin> sf_hash ` set rows) (fs_files ?fs) = filter (\<lambda>x. sf_hash x \<notin> sf_hash ` set (r # rows)) (fs_files fs)"
      by (auto simp: rows_delete intro: filter_cong)
    from "2.IH" [OF False held_ok_delete [OF "2.prems"(1)] _ sub] "2.prems"(2) show ?thesis
      using False unfolding rest sum by auto
  qed (use 2 in simp)
qed simp

lemma evict_keeps:
  assumes "r \<in> set (fs_files fs)" "sf_hash r \<notin> sf_hash ` set rows"
  shows "r \<in> set (fs_files (evict_files rows needed fs))"
  using assms by (induction rows needed fs rule: evict_files.induct) (auto simp: rows_delete)

lemma evict_sub: "set (fs_files (evict_files rows needed fs)) \<subseteq> set (fs_files fs)"
  by (induction rows needed fs rule: evict_files.induct) (auto simp: rows_delete)

lemma evict_is_filter: "\<exists>hs. fs_files (evict_files rows needed fs) = filter (\<lambda>r. sf_hash r \<notin> hs) (fs_files fs)"
proof (induction rows needed fs rule: evict_files.induct)
  case (2 r rows needed fs)
  show ?case
  proof (cases "0 \<ge> needed")
    case False
    from "2.IH" [OF this] obtain hs where "fs_files (evict_files rows (needed - sf_held r) (delete_file (sf_hash r) fs))
        = filter (\<lambda>r. sf_hash r \<notin> hs) (fs_files (delete_file (sf_hash r) fs))" by blast
    also have "\<dots> = filter (\<lambda>x. sf_hash x \<notin> insert (sf_hash r) hs) (fs_files fs)" by (auto simp: rows_delete intro: filter_cong)
    finally have "fs_files (evict_files (r # rows) needed fs) = filter (\<lambda>x. sf_hash x \<notin> insert (sf_hash r) hs) (fs_files fs)"
      using False by simp
    then show ?thesis by (rule exI)
  qed (auto intro: exI [of _ "{}"])
qed (auto intro: exI [of _ "{}"])

lemma make_room_sub: "\<exists>hs. fs_files (make_room p key h needed fs) = filter (\<lambda>r. sf_hash r \<notin> hs) (fs_files fs)"
  using evict_is_filter by (auto simp: make_room_def intro: exI [of _ "{}"])

section \<open>Admission\<close>

definition usage_of :: "(file_row \<Rightarrow> bool) \<Rightarrow> hexid \<Rightarrow> file_store \<Rightarrow> int" where
  "usage_of p h fs = held_sum (\<lambda>r. p r \<and> sf_hash r \<noteq> h) (fs_files fs)"

lemma usage_without_parts:
  "fu_received (usage_without (Some h) fs) = usage_of is_received h fs" "fu_partial (usage_without (Some h) fs) = usage_of is_partial h fs"
  by (simp_all add: usage_without_def usage_of_def held_sum_def Let_def conj_commute eq_commute [of h])

lemma make_room_frees:
  assumes ok: "held_ok fs" and room: "0 \<le> limit"
  shows "held_ok (make_room p key h (usage_of p h fs - limit) fs)
    \<and> usage_of p h (make_room p key h (usage_of p h fs - limit) fs) \<le> limit
    \<and> set (fs_files (make_room p key h (usage_of p h fs - limit) fs)) \<subseteq> set (fs_files fs)
    \<and> (\<forall>r \<in> set (fs_files fs). \<not> p r \<or> sf_hash r = h \<longrightarrow> r \<in> set (fs_files (make_room p key h (usage_of p h fs - limit) fs)))"
proof (cases "usage_of p h fs - limit > 0")
  case True
  let ?q = "\<lambda>r. p r \<and> sf_hash r \<noteq> h"
  let ?rows = "sort_key key (filter ?q (fs_files fs))"
  let ?fs = "evict_files ?rows (usage_of p h fs - limit) fs"
  have uniq: "distinct (map sf_hash (fs_files fs))" using ok by (simp add: held_ok_def unique_key_def)
  have "distinct (map sf_hash (filter ?q (fs_files fs)))" using uniq by (rule distinct_map_filter)
  then have d: "distinct (map sf_hash ?rows)" by (simp add: distinct_map)
  have set_rows: "set ?rows = {r \<in> set (fs_files fs). ?q r}" by auto
  have res: "held_ok ?fs" "held_sum ?q (fs_files ?fs) \<le> limit
      \<or> fs_files ?fs = filter (\<lambda>r. sf_hash r \<notin> sf_hash ` set ?rows) (fs_files fs)"
  proof -
    have u: "held_sum ?q (fs_files fs) = usage_of p h fs" by (simp add: usage_of_def)
    note ev = evict_frees [OF ok d equalityD1 [OF set_rows], of "usage_of p h fs - limit", unfolded u]
    show "held_ok ?fs" by (rule conjunct1 [OF ev])
    show "held_sum ?q (fs_files ?fs) \<le> limit \<or> fs_files ?fs = filter (\<lambda>r. sf_hash r \<notin> sf_hash ` set ?rows) (fs_files fs)"
      using conjunct2 [OF ev] by simp
  qed
  have gone: "held_sum ?q (filter (\<lambda>r. sf_hash r \<notin> sf_hash ` {r \<in> set (fs_files fs). ?q r}) (fs_files fs)) = 0"
  proof -
    have "filter ?q (filter (\<lambda>r. sf_hash r \<notin> sf_hash ` {r \<in> set (fs_files fs). ?q r}) (fs_files fs)) = []"
      unfolding filter_empty_conv by auto
    then show ?thesis unfolding held_sum_def by simp
  qed
  have "usage_of p h ?fs \<le> limit" using res(2) gone room set_rows by (auto simp: usage_of_def)
  moreover have "\<forall>r \<in> set (fs_files fs). \<not> p r \<or> sf_hash r = h \<longrightarrow> r \<in> set (fs_files ?fs)"
  proof (intro ballI impI)
    fix r assume r: "r \<in> set (fs_files fs)" "\<not> p r \<or> sf_hash r = h"
    have "sf_hash r \<notin> sf_hash ` set ?rows"
    proof
      assume "sf_hash r \<in> sf_hash ` set ?rows"
      then obtain r' where "r' \<in> set (fs_files fs)" "?q r'" "sf_hash r' = sf_hash r" by auto
      then show False using r uniq by (auto simp: distinct_map dest: inj_onD)
    qed
    then show "r \<in> set (fs_files ?fs)" using r(1) by (intro evict_keeps)
  qed
  ultimately show ?thesis using True res(1) evict_sub by (simp add: make_room_def)
qed (use ok in \<open>simp add: make_room_def\<close>)


text \<open>C31. In a table of distinct files with non-negative holdings every download of up to 20 MiB, so every file a manifest can
  name, is admitted: afterwards the received and the partial files fit their budgets with the new file counted to
  each, and no file of our own, nor the row of the file itself, was evicted.\<close>

theorem admission_makes_room:
  assumes ok: "held_ok fs" and n: "0 \<le> n" "n \<le> PARTIAL_STORE_MAX_BYTES"
  shows "case admit_file h n False fs of (fs', ok) \<Rightarrow>
      ok \<and> fu_received (usage_without (Some h) fs') + n \<le> FILE_STORE_MAX_BYTES
      \<and> fu_partial (usage_without (Some h) fs') + n \<le> PARTIAL_STORE_MAX_BYTES
      \<and> set (fs_files fs') \<subseteq> set (fs_files fs)
      \<and> (\<forall>r \<in> set (fs_files fs). sf_own r \<or> sf_hash r = h \<longrightarrow> r \<in> set (fs_files fs'))"
proof -
  let ?a = "make_room is_received sf_used h (usage_of is_received h fs - (FILE_STORE_MAX_BYTES - n)) fs"
  let ?b = "make_room is_partial sf_stored h (usage_of is_partial h ?a - (PARTIAL_STORE_MAX_BYTES - n)) ?a"
  have le: "n \<le> FILE_STORE_MAX_BYTES" using n(2) by (simp add: PARTIAL_STORE_MAX_BYTES_def FILE_STORE_MAX_BYTES_def)
  have a: "held_ok ?a" "usage_of is_received h ?a \<le> FILE_STORE_MAX_BYTES - n" "set (fs_files ?a) \<subseteq> set (fs_files fs)"
    "\<forall>r \<in> set (fs_files fs). \<not> is_received r \<or> sf_hash r = h \<longrightarrow> r \<in> set (fs_files ?a)"
    using make_room_frees [OF ok, of "FILE_STORE_MAX_BYTES - n" is_received sf_used h] le by simp_all
  have b: "held_ok ?b" "usage_of is_partial h ?b \<le> PARTIAL_STORE_MAX_BYTES - n" "set (fs_files ?b) \<subseteq> set (fs_files ?a)"
    "\<forall>r \<in> set (fs_files ?a). \<not> is_partial r \<or> sf_hash r = h \<longrightarrow> r \<in> set (fs_files ?b)"
    using make_room_frees [OF a(1), of "PARTIAL_STORE_MAX_BYTES - n" is_partial sf_stored h] n(2) by simp_all
  have "usage_of is_received h ?b \<le> usage_of is_received h ?a"
  proof -
    obtain hs where hs: "fs_files ?b = filter (\<lambda>r. sf_hash r \<notin> hs) (fs_files ?a)" using make_room_sub by metis
    show ?thesis unfolding usage_of_def [of is_received h ?b] usage_of_def [of is_received h ?a] hs
      using a(1) by (intro held_sum_filter_le) (simp add: held_ok_def)
  qed
  moreover have "admit_file h n False fs = (?b, usage_of is_received h ?b + n \<le> FILE_STORE_MAX_BYTES \<and> usage_of is_partial h ?b + n \<le> PARTIAL_STORE_MAX_BYTES)"
    using n(2) le by (simp add: admit_file_def Let_def usage_without_parts algebra_simps)
  ultimately show ?thesis using a b by (auto simp: usage_without_parts is_received_def is_partial_def)
qed


lemma no_files_ok: "held_ok no_files"
  by (simp add: held_ok_def no_files_def unique_key_def)

theorem admission_makes_room_witness: "snd (admit_file ''aa'' 7 False no_files)"
  using admission_makes_room [OF no_files_ok, of 7 "''aa''"] by (simp add: PARTIAL_STORE_MAX_BYTES_def split: prod.splits)

section \<open>Pruning\<close>

lemma over_budget_all:
  "FILE_STORE_MAX_BYTES < s \<Longrightarrow> \<forall>r \<in> set rows. 0 \<le> sf_held r \<Longrightarrow> over_budget s rows = map sf_hash rows"
  by (induction s rows rule: over_budget.induct) (auto simp: Let_def)

lemma over_budget_sub: "set (over_budget s rows) \<subseteq> sf_hash ` set rows"
  by (induction s rows rule: over_budget.induct) (auto simp: Let_def)

lemma kept_within_budget:
  "s \<le> FILE_STORE_MAX_BYTES \<Longrightarrow> \<forall>r \<in> set rows. 0 \<le> sf_held r \<Longrightarrow> distinct (map sf_hash rows)
     \<Longrightarrow> s + held_sum (\<lambda>_. True) (filter (\<lambda>r. sf_hash r \<notin> set (over_budget s rows)) rows) \<le> FILE_STORE_MAX_BYTES"
proof (induction s rows rule: over_budget.induct)
  case (2 s r rows)
  show ?case
  proof (cases "s + sf_held r > FILE_STORE_MAX_BYTES")
    case True
    then have "over_budget s (r # rows) = map sf_hash (r # rows)" using "2.prems"(2) by (simp add: Let_def over_budget_all)
    then have "filter (\<lambda>x. sf_hash x \<notin> set (over_budget s (r # rows))) (r # rows) = []" by (auto simp: filter_empty_conv)
    then show ?thesis using "2.prems"(1) by (simp only: held_sum_def) simp
  next
    case False
    then have same: "over_budget s (r # rows) = over_budget (s + sf_held r) rows" by (simp add: Let_def)
    have "sf_hash r \<notin> set (over_budget s (r # rows))" using over_budget_sub [of "s + sf_held r" rows] "2.prems"(3) same by auto
    then have "filter (\<lambda>x. sf_hash x \<notin> set (over_budget s (r # rows))) (r # rows)
        = r # filter (\<lambda>x. sf_hash x \<notin> set (over_budget (s + sf_held r) rows)) rows" using same by simp
    then show ?thesis using "2.IH" [OF refl] "2.prems"(2,3) False by (simp only: held_sum_def) simp
  qed
qed (simp add: held_sum_def)

lemma rows_delete_files: "fs_files (delete_files hs fs) = filter (\<lambda>r. sf_hash r \<notin> set hs) (fs_files fs)"
  by (induction hs arbitrary: fs) (auto simp: delete_files_def rows_delete intro: filter_cong)

lemma held_sum_perm: "mset xs = mset ys \<Longrightarrow> held_sum (\<lambda>_. True) xs = held_sum (\<lambda>_. True) ys"
  unfolding held_sum_def by (simp flip: sum_mset_sum_list)

text \<open>C32. After a pruning the received files fit their budget, no unfinished download is older than seven days, what is left
  was there before, and nothing of our own was deleted.\<close>

theorem pruning_meets_budget:
  fixes now :: secs and fs :: file_store
  assumes ok: "held_ok fs"
  defines "fs' \<equiv> fst (prune_files now fs)"
  shows "fu_received (file_store_usage fs') \<le> FILE_STORE_MAX_BYTES
    \<and> (\<forall>r \<in> set (fs_files fs'). is_partial r \<longrightarrow> now - PARTIAL_FILE_TTL_SECS \<le> sf_stored r)
    \<and> set (fs_files fs') \<subseteq> set (fs_files fs) \<and> (\<forall>r \<in> set (fs_files fs). sf_own r \<longrightarrow> r \<in> set (fs_files fs'))"
proof -
  let ?stale = "map sf_hash (filter (\<lambda>r. is_partial r \<and> sf_stored r < now - PARTIAL_FILE_TTL_SECS) (fs_files fs))"
  let ?fs = "delete_files ?stale fs"
  let ?list = "list_files ?fs (Some True) (Some False)"
  let ?excess = "over_budget 0 ?list"
  have eq: "fs' = delete_files ?excess ?fs" by (simp add: fs'_def prune_files_def Let_def)
  have uniq: "distinct (map sf_hash (fs_files fs))" and pos: "\<forall>r \<in> set (fs_files fs). 0 \<le> sf_held r"
    using ok by (simp_all add: held_ok_def unique_key_def)
  have list: "set ?list = {r \<in> set (fs_files ?fs). is_received r}" "mset ?list = mset (filter is_received (fs_files ?fs))"
    by (auto simp: list_files_def is_received_def) (simp add: conj_commute)
  have sub: "set (fs_files ?fs) \<subseteq> set (fs_files fs)" by (auto simp: rows_delete_files)
  have "distinct (map sf_hash ?list)"
    using uniq by (simp add: list_files_def distinct_map rows_delete_files inj_on_def)
  then have "held_sum (\<lambda>_. True) (filter (\<lambda>r. sf_hash r \<notin> set ?excess) ?list) \<le> FILE_STORE_MAX_BYTES"
    using kept_within_budget [of 0 ?list] pos sub list(1) by (auto simp: FILE_STORE_MAX_BYTES_def)
  moreover have "fu_received (file_store_usage fs') = held_sum (\<lambda>_. True) (filter (\<lambda>r. sf_hash r \<notin> set ?excess) ?list)"
  proof -
    have "fu_received (file_store_usage fs') = held_sum (\<lambda>_. True) (filter is_received (fs_files fs'))"
      by (simp add: file_store_usage_def usage_without_def held_sum_def Let_def)
    also have "\<dots> = held_sum (\<lambda>_. True) (filter (\<lambda>r. sf_hash r \<notin> set ?excess) ?list)"
      by (rule held_sum_perm) (simp add: eq rows_delete_files [of ?excess] list(2) filter_filter_mset conj_commute)
    finally show ?thesis .
  qed
  moreover have "\<forall>r \<in> set (fs_files fs'). is_partial r \<longrightarrow> now - PARTIAL_FILE_TTL_SECS \<le> sf_stored r"
    by (force simp: eq rows_delete_files)
  moreover have "r \<in> set (fs_files fs')" if r: "r \<in> set (fs_files fs)" "sf_own r" for r
  proof -
    have same: "r' = r" if "r' \<in> set (fs_files fs)" "sf_hash r' = sf_hash r" for r'
      using uniq r(1) that by (auto simp: distinct_map dest: inj_onD)
    have "sf_hash r \<notin> set ?stale" using same r(2) by (auto simp: is_partial_def)
    moreover have "sf_hash r \<notin> set ?excess"
      using over_budget_sub [of 0 ?list] list(1) sub same r(2) by (fastforce simp: is_received_def)
    ultimately show ?thesis using r(1) by (simp add: eq rows_delete_files del: set_map)
  qed
  moreover have "set (fs_files fs') \<subseteq> set (fs_files fs)" by (auto simp: eq rows_delete_files)
  ultimately show ?thesis by simp
qed

definition big_row :: "hexid \<Rightarrow> secs \<Rightarrow> file_row" where
  "big_row h used = \<lparr>sf_hash = h, sf_size = 200000000, sf_chunks = 6104, sf_held = 200000000, sf_complete = True, sf_own = False,
     sf_stored = 0, sf_used = used\<rparr>"

definition full_store :: file_store where
  "full_store = \<lparr>fs_files = [big_row ''aa'' 1, big_row ''bb'' 2], fs_chunks = []\<rparr>"

theorem pruning_meets_budget_witness:
  "map sf_hash (fs_files (fst (prune_files 5 full_store))) = [''bb'']
    \<and> fu_received (file_store_usage (fst (prune_files 5 full_store))) \<le> FILE_STORE_MAX_BYTES"
proof -
  have "held_ok full_store" by (simp add: held_ok_def full_store_def unique_key_def big_row_def)
  from pruning_meets_budget [OF this, of 5] show ?thesis
    by (intro conjI) (code_simp, blast)
qed

end
