(* ===== verification/File_Flow.thy ===== *)
theory File_Flow
  imports File_Budget
begin

text \<open>
  The flow of requests of the shared files: one request is out at a time whatever happens, and what a request of
  somebody else is answered with.
\<close>

section \<open>One request at a time\<close>

definition flow_ok :: "files \<Rightarrow> bool" where
  "flow_ok fm \<longleftrightarrow> (\<forall>h d. get_dl fm h = Some d \<longrightarrow> dl_fetch d \<noteq> None \<longrightarrow> fm_active fm = Some h)"

definition calm :: "files \<Rightarrow> bool" where
  "calm fm \<longleftrightarrow> (\<forall>h d. get_dl fm h = Some d \<longrightarrow> dl_fetch d = None)"

lemma calm_flow: "calm fm \<Longrightarrow> flow_ok fm"
  by (simp add: calm_def flow_ok_def)

lemma flow_cong: "fm_downloads fm' = fm_downloads fm \<Longrightarrow> fm_active fm' = fm_active fm \<Longrightarrow> flow_ok fm' = flow_ok fm"
  by (simp add: flow_ok_def get_dl_def)

lemma calm_cong: "fm_downloads fm' = fm_downloads fm \<Longrightarrow> calm fm' = calm fm"
  by (simp add: calm_def get_dl_def)

lemma flow_store [simp]: "flow_ok (store_do f fm) = flow_ok fm" "flow_ok (fm\<lparr>fm_files := fs\<rparr>) = flow_ok fm"
  "flow_ok (fm\<lparr>fm_told := ts\<rparr>) = flow_ok fm" "flow_ok (fm\<lparr>fm_order := hs\<rparr>) = flow_ok fm"
  "flow_ok (fm\<lparr>fm_by_fetch := b\<rparr>) = flow_ok fm" "flow_ok (fm\<lparr>fm_chunk_lists := c\<rparr>) = flow_ok fm"
  "flow_ok (fm\<lparr>fm_last_holder := l\<rparr>) = flow_ok fm" "flow_ok (fm\<lparr>fm_last_prune := p\<rparr>) = flow_ok fm"
  "flow_ok (fm\<lparr>fm_issued := is\<rparr>) = flow_ok fm"
  by (simp_all add: flow_ok_def get_dl_def store_do_def)

lemma flow_put: "flow_ok fm \<Longrightarrow> (dl_fetch d \<noteq> None \<Longrightarrow> fm_active fm = Some h) \<Longrightarrow> flow_ok (put_dl h d fm)"
  by (auto simp: flow_ok_def)

lemma flow_same: "flow_ok fm \<Longrightarrow> get_dl fm h = Some d \<Longrightarrow> dl_fetch d' = dl_fetch d \<Longrightarrow> flow_ok (put_dl h d' fm)"
  by (auto simp: flow_ok_def)

lemma flow_tell [simp]: "flow_ok (tell_dl h d fm) = flow_ok (put_dl h d fm)"
  by (simp add: tell_dl_def)

lemma flow_admit: "flow_ok fm \<Longrightarrow> (dl_fetch d \<noteq> None \<Longrightarrow> fm_active fm = Some h) \<Longrightarrow> flow_ok (admit_dl e h d fm)"
proof -
  assume ok: "flow_ok fm" "dl_fetch d \<noteq> None \<Longrightarrow> fm_active fm = Some h"
  obtain fs ts d' where adm: "admit_dl e h d fm = (put_dl h d' fm)\<lparr>fm_files := fs, fm_told := ts\<rparr>" "dl_fetch d' = dl_fetch d"
    by (rule admit_dl_shape [of e h d fm]) blast
  show ?thesis using flow_put [OF ok(1), of d' h] ok(2) adm(2) unfolding adm(1) by simp
qed

lemma calm_put: "calm fm \<Longrightarrow> dl_fetch d = None \<Longrightarrow> calm (put_dl h d fm)"
  by (simp add: calm_def)

lemma calm_admit: "calm fm \<Longrightarrow> dl_fetch d = None \<Longrightarrow> calm (admit_dl e h d fm)"
proof -
  assume ok: "calm fm" "dl_fetch d = None"
  obtain fs ts d' where adm: "admit_dl e h d fm = (put_dl h d' fm)\<lparr>fm_files := fs, fm_told := ts\<rparr>" "dl_fetch d' = dl_fetch d"
    by (rule admit_dl_shape [of e h d fm]) blast
  show ?thesis using calm_put [OF ok(1), of d' h] ok(2) adm(2) unfolding adm(1) by (simp add: calm_def)
qed

text \<open>What admissions and the choice of the active download keep, activation keeps.\<close>

lemma activate_keeps:
  assumes admit: "\<And>fm h d. P fm \<Longrightarrow> get_dl fm h = Some d \<Longrightarrow> dl_status d = DL_QUEUED \<Longrightarrow> \<not> dl_admitted d \<Longrightarrow> P (admit_dl e h d fm)"
    and act: "\<And>fm h. P fm \<Longrightarrow> P (fm\<lparr>fm_active := Some h\<rparr>)"
  shows "P fm \<Longrightarrow> P (activate_from e hs fm)"
proof (induction hs arbitrary: fm)
  case (Cons h hs)
  show ?case
  proof (cases "get_dl fm h")
    case (Some d)
    show ?thesis
    proof (cases "dl_status d = DL_QUEUED")
      case True
      define f where "f = (if dl_admitted d then fm else admit_dl e h d fm)"
      have P: "P f" using Cons.prems admit [OF Cons.prems Some True] by (simp add: f_def)
      have eq: "activate_from e (h # hs) fm = (case get_dl f h of None \<Rightarrow> activate_from e hs f
          | Some d \<Rightarrow> if dl_admitted d then f\<lparr>fm_active := Some h\<rparr> else activate_from e hs f)"
        unfolding activate_from.simps Some option.case Let_def True f_def by (simp only: simp_thms if_False)
      show ?thesis unfolding eq using Cons.IH [OF P] act [OF P] by (simp split: option.split)
    qed (use Cons Some in simp)
  qed (use Cons in simp)
qed simp

lemma calm_activate: "calm fm \<Longrightarrow> calm (activate_from e hs fm)"
  by (rule activate_keeps [where P = calm]) (metis calm_admit calm_def, simp add: calm_def)

lemma flow_idle: "flow_ok fm \<Longrightarrow> active_dl fm = None \<Longrightarrow> calm fm"
  by (force simp: flow_ok_def calm_def active_dl_def split: option.splits)

lemma flow_next: "flow_ok fm \<Longrightarrow> flow_ok (next_active e fm)"
proof (cases "active_dl fm = None")
  case True
  assume "flow_ok fm"
  then have "calm (fm\<lparr>fm_active := None\<rparr>)" using flow_idle True by (simp add: calm_def)
  then show ?thesis using True by (simp add: next_active_def activate_next_def calm_flow calm_activate)
next
  case False
  then show "flow_ok fm \<Longrightarrow> flow_ok (next_active e fm)" by (simp only: next_active_def if_False)
qed

lemma calm_active: "flow_ok fm \<Longrightarrow> fm_active fm = Some h \<Longrightarrow> get_dl fm h = Some d \<Longrightarrow> dl_fetch d = None \<Longrightarrow> calm fm"
  by (force simp: flow_ok_def calm_def)

lemma flow_stall: "calm fm \<Longrightarrow> dl_fetch d = None \<Longrightarrow> flow_ok (stall e h d fm)"
  by (rule calm_flow) (auto simp: stall_def Let_def calm_def)

lemma flow_pump: "flow_ok fm \<Longrightarrow> flow_ok (fst (pump e fm))"
proof -
  assume "flow_ok fm"
  then have "flow_ok (fst (prepare e fm))"
  proof (rule prepare_keeps [where P = flow_ok, rotated -1])
    fix fm h d holder
    assume a: "flow_ok fm" "fm_active fm = Some h" "get_dl fm h = Some d" "dl_fetch d = None"
    show "flow_ok (stall e h d fm)" using calm_active [OF a] a(4) by (rule flow_stall)
    have "flow_ok (put_dl h d' fm)" "fm_active (put_dl h d' fm) = Some h" for d' using a(1,2) flow_put by simp_all
    then show "flow_ok (fst (issue_request e h holder d fm))"
      by (auto simp: issue_request_def Let_def intro!: flow_put)
  qed (rule flow_next)
  then show ?thesis by (auto simp: pump_def split: prod.splits sum.splits option.splits)
qed


lemma flow_announce: "flow_ok fm \<Longrightarrow> flow_ok (announce_files e fm)"
  by (simp add: announce_files_def Let_def flow_ok_def get_dl_def)

lemma flow_drop: "flow_ok fm \<Longrightarrow> flow_ok (drop_download h fm)"
proof -
  assume ok: "flow_ok fm"
  have get: "get_dl (drop_download h fm) h' = (if h' = h then None else get_dl fm h')"
    "fm_active (drop_download h fm) = (if fm_active fm = Some h then None else fm_active fm)" for h'
    by (simp_all add: drop_download_def get_dl_def)
  show ?thesis using ok unfolding flow_ok_def get by (metis option.inject option.distinct(1))
qed

lemma flow_forget: "flow_ok fm \<Longrightarrow> flow_ok (forget_gone h fm)"
  by (simp add: forget_gone_def flow_drop split: option.split)

lemma flow_prune: "flow_ok fm \<Longrightarrow> flow_ok (fst (prune_locked now fm))"
  unfolding prune_locked_def Let_def by (auto simp: case_prod_beta intro!: fold_files_keep [where P = flow_ok] flow_forget)

lemma flow_retry: "flow_ok fm \<Longrightarrow> flow_ok (retry_parked now fm)"
  unfolding retry_parked_def
  by (rule fold_files_keep [where P = flow_ok]) (auto simp: retry_one_def Let_def split: option.split intro!: flow_put simp: flow_ok_def)

lemma flow_tick: "flow_ok fm \<Longrightarrow> flow_ok (fst (files_tick e fm))"
  unfolding files_tick_def prune_if_due_def by (intro flow_pump flow_retry) (simp add: flow_prune flow_announce)

lemma flow_wake: "flow_ok (fst st) \<Longrightarrow> flow_ok (fst (wake_download e peer h st))"
  by (cases st) (auto simp: wake_download_def Let_def split: option.split intro!: flow_prune flow_same)

lemma flow_peer: "flow_ok fm \<Longrightarrow> flow_ok (fst (files_peer_appeared e peer fm))"
  unfolding files_peer_appeared_def
  by (auto intro!: flow_pump fold_files_keep [where P = "\<lambda>st. flow_ok (fst st)"] flow_wake)

lemma flow_join: "flow_ok fm \<Longrightarrow> flow_ok (join_download e r m fm)"
proof -
  assume ok: "flow_ok fm"
  let ?h = "to_hex (man_digest m)"
  have get: "get_dl (store_do f fm) h = get_dl fm h" "get_dl (fm'\<lparr>fm_order := os\<rparr>) h = get_dl fm' h"
    "fm_active (store_do f fm) = fm_active fm" for f h fm' os
    by (simp_all add: store_do_def get_dl_def)
  have new: "dl_fetch (new_download m) = None" by (simp add: new_download_def)
  show ?thesis
  proof (cases "get_dl fm ?h")
    case None
    then show ?thesis using ok by (auto simp: join_download_def Let_def get new intro!: flow_put flow_admit)
  next
    case (Some d)
    then have "dl_fetch d \<noteq> None \<Longrightarrow> fm_active fm = Some ?h" using ok by (simp add: flow_ok_def)
    then show ?thesis using ok Some by (auto simp: join_download_def Let_def get intro!: flow_put flow_admit)
  qed
qed

lemma flow_request: "flow_ok fm \<Longrightarrow> flow_ok (fst (request_download e ch mid fm))"
  by (auto simp: request_download_def begin_fetching_def pump_with_snap_def pump_with_def case_prod_beta flow_pump flow_join
    split: option.split)


text \<open>A result takes the request off its download, which was the only one with a request out: every way
  to settle it writes that download back with no request.\<close>

definition calm_but :: "hexid \<Rightarrow> files \<Rightarrow> bool" where
  "calm_but h fm \<longleftrightarrow> (\<forall>h' d. h' \<noteq> h \<longrightarrow> get_dl fm h' = Some d \<longrightarrow> dl_fetch d = None)"

lemma calm_but_calm: "calm fm \<Longrightarrow> calm_but h fm"
  by (simp add: calm_def calm_but_def)

lemma calm_but_files [simp]: "calm_but h (fm\<lparr>fm_files := fs\<rparr>) = calm_but h fm" "calm_but h (store_do f fm) = calm_but h fm"
  by (simp_all add: calm_but_def store_do_def)

lemma calm_writes:
  assumes "calm_but h fm" "dl_fetch d = None"
  shows "calm (put_dl h d fm)" "calm (tell_dl h d fm)" "calm (round_reset h holder d fm)" "calm (finish_dl h s why d fm)"
proof -
  show put: "calm (put_dl h d fm)" "calm (tell_dl h d fm)" using assms by (simp_all add: calm_def calm_but_def)
  show "calm (round_reset h holder d fm)" using assms
    by (simp add: round_reset_def Let_def calm_def calm_but_def get_dl_def put_dl_def)
  show "calm (finish_dl h s why d fm)" using assms
    by (simp add: finish_shape calm_def calm_but_def get_dl_def put_dl_def)
qed

lemma calm_complete:
  assumes "calm_but h fm" "dl_fetch d = None"
  shows "calm (complete_dl e h d fm)"
proof -
  have act: "calm (f\<lparr>fm_active := a\<rparr>) = calm f" for f :: files and a by (simp add: calm_def)
  show ?thesis using assms
    by (simp add: complete_dl_def start_again_def Let_def act calm_writes)
qed

lemma calm_settle_chunks:
  assumes c: "calm_but h fm" "dl_fetch d = None"
  shows "calm (settle_chunks e h holder stored d fm)"
proof -
  let ?d = "note_progress (d\<lparr>dl_contributors := List.insert holder (dl_contributors d)\<rparr>)"
  define f where "f = (if holder \<in> set (dl_suspect d) then tell_dl h ?d fm else round_reset h holder (grow_window ?d) (tell_dl h ?d fm))"
  have "calm (tell_dl h ?d fm)" using c by (simp add: calm_writes)
  then have f: "calm f" using c by (simp add: f_def calm_writes calm_but_calm)
  have eq: "settle_chunks e h holder stored d fm =
      (if stored = 0 then (if holder \<in> set (dl_suspect d) then put_dl h d fm
         else put_dl h (shrink_window (d\<lparr>dl_skipped := List.insert holder (dl_skipped d)\<rparr>)) fm)
       else case get_dl f h of None \<Rightarrow> f | Some d \<Rightarrow> if length (dl_held d) \<ge> dl_count d then complete_dl e h d f else f)"
    unfolding f_def by (simp add: settle_chunks_def Let_def)
  have "\<And>d. get_dl f h = Some d \<Longrightarrow> dl_fetch d = None" using f by (simp add: calm_def)
  then show ?thesis unfolding eq using c f by (auto simp: calm_writes calm_complete calm_but_calm split: option.split)
qed

lemma calm_chunks:
  assumes c: "calm_but h fm" "dl_fetch d = None"
  shows "calm (on_chunks e h holder data d fm)"
  using c by (auto simp: on_chunks_def Let_def calm_writes calm_settle_chunks dest: take_chunks_fetch
      split: option.split prod.split chunk_end.split)

lemma calm_take_result:
  assumes ok: "flow_ok fm" and d: "get_dl fm h = Some d" "dl_fetch d \<noteq> None"
  shows "calm (take_result e h result d fm)"
proof -
  have "fm_active fm = Some h" using ok d by (simp add: flow_ok_def)
  then have others: "calm_but h fm" using ok unfolding flow_ok_def calm_but_def by fastforce
  show ?thesis
    by (auto simp: take_result_def Let_def on_failed_request_def on_chunk_list_def calm_chunks [OF others] calm_writes [OF others]
      split: fetch_result.split)
qed

lemma flow_result: "flow_ok fm \<Longrightarrow> flow_ok (fst (on_result e fid result fm))"
proof -
  assume ok: "flow_ok fm"
  let ?fm = "fm\<lparr>fm_by_fetch := AList.delete fid (fm_by_fetch fm)\<rparr>"
  have "flow_ok (fst (result_arrived e h result d ?fm))" if "get_dl ?fm h = Some d" "dl_fetch d = Some fid" for h d
    unfolding result_arrived_def
    by (rule flow_pump, rule flow_announce, rule calm_flow, rule calm_take_result) (use ok that in simp_all)
  then show ?thesis using ok by (auto simp: on_result_def Let_def split: option.splits)
qed

lemma calm_new: "calm (new_files e fs)"
proof -
  have "calm (restore_one e f fm)" if "calm fm" for f fm
  proof -
    have "calm (fm'\<lparr>fm_order := x\<rparr>) = calm fm'" for fm' x by (simp add: calm_def get_dl_def)
    then show ?thesis using that by (auto simp: restore_one_def Let_def calm_put new_download_def split: option.split)
  qed
  then show ?thesis unfolding new_files_def restore_downloads_def
    by (intro fold_files_keep [where P = calm]) (simp_all add: calm_def get_dl_def)
qed

lemma flow_share: "flow_ok fm \<Longrightarrow> flow_ok (fst (share_file e name data fm))"
  by (auto simp: share_file_def Let_def flow_announce split: option.splits prod.splits bool.splits)

lemma flow_step: "flow_ok fm \<Longrightarrow> flow_ok (file_step (e, ev) fm)"
  by (cases ev)
    (auto simp: flow_share flow_request flow_result flow_peer flow_tick flow_prune calm_new calm_flow
      serve_file_def served_chunk_list_def file_bytes_def Let_def
      split: option.splits sum.splits bool.splits prod.splits if_splits)

interpretation flow: machine "new_files e fs" "\<lambda>ev. file_step ev" flow_ok for e fs
  by unfold_locales (simp add: calm_new calm_flow, metis flow_step surj_pair)

text \<open>C23. After any history of shares, requests, results, signs of peers, ticks, pruning, serving and restarts at most one
  download has a request out, and that is the active one.\<close>

theorem one_request_at_a_time:
  assumes "get_dl (fold file_step es (new_files e fs)) h = Some d" "dl_fetch d \<noteq> None"
    and "get_dl (fold file_step es (new_files e fs)) h' = Some d'" "dl_fetch d' \<noteq> None"
  shows "h' = h \<and> fm_active (fold file_step es (new_files e fs)) = Some h"
  using flow.inv_run [of es e fs] assms unfolding flow_ok_def by (metis option.inject)

theorem one_request_at_a_time_witness:
  "\<exists>h d. get_dl (fold file_step (take 1 sample_download) (new_files (sample_files 10 []) no_files)) h = Some d \<and> dl_fetch d \<noteq> None
     \<and> fm_active (fold file_step (take 1 sample_download) (new_files (sample_files 10 []) no_files)) = Some h"
proof -
  let ?fm = "fold file_step (take 1 sample_download) (new_files (sample_files 10 []) no_files)"
  have "map_option dl_fetch (get_dl ?fm (to_hex (pad_hash sample_data))) = Some (Some ''a1'')" by code_simp
  then obtain d where d: "get_dl ?fm (to_hex (pad_hash sample_data)) = Some d" "dl_fetch d \<noteq> None" by auto
  from one_request_at_a_time [OF d d] d show ?thesis by blast
qed


section \<open>Members alone are served\<close>

lemma may_serve_in_True:
  "may_serve_in e who chs = Inr True \<Longrightarrow> \<exists>ch \<in> set chs. \<exists>r perms. get_channel (db_store (fe_db e)) ch = Some r
     \<and> column_perms (Some r) = Inr perms \<and> \<not> is_open_join perms \<and> is_member (db_store (fe_db e)) ch who"
  by (induction e who chs rule: may_serve_in.induct) (force simp: Let_def ebind_Inr split: option.splits if_splits)+

lemma filter_interval:
  "sorted (map f xs) \<Longrightarrow> a \<le> b \<Longrightarrow> xs = filter (\<lambda>x. f x < a) xs @ filter (\<lambda>x. a \<le> f x \<and> f x < b) xs @ filter (\<lambda>x. b \<le> f x) xs"
  for f :: "'b \<Rightarrow> nat"
proof (induction xs)
  case (Cons x xs)
  have ge: "\<forall>y \<in> set xs. f x \<le> f y" using Cons.prems(1) by auto
  consider "f x < a" | "a \<le> f x" "f x < b" | "b \<le> f x" by linarith
  then show ?case
  proof cases
    case 1
    then show ?thesis using Cons by simp
  next
    case 2
    then have "filter (\<lambda>x. f x < a) xs = []" using ge by (auto simp: filter_empty_conv)
    then show ?thesis using Cons 2 by auto
  next
    case 3
    then have "filter (\<lambda>x. f x < a) xs = []" "filter (\<lambda>x. a \<le> f x \<and> f x < b) xs = []"
      using ge Cons.prems(2) by (auto simp: filter_empty_conv)
    then show ?thesis using Cons 3 by auto
  qed
qed simp

text \<open>The chunks of a range are a contiguous part of the file.\<close>

lemma range_in_file:
  "\<exists>pre post. concat (map ck_content (chunks_of_file fs h)) = pre @ concat (get_file_chunks fs h first n) @ post"
proof -
  have "sorted (map ck_idx (chunks_of_file fs h))" by (simp add: chunks_of_file_def)
  from filter_interval [OF this, of first "first + n"]
  have "concat (map ck_content (chunks_of_file fs h)) = concat (map ck_content (filter (\<lambda>c. ck_idx c < first) (chunks_of_file fs h)))
      @ concat (get_file_chunks fs h first n) @ concat (map ck_content (filter (\<lambda>c. first + n \<le> ck_idx c) (chunks_of_file fs h)))"
    unfolding get_file_chunks_def concat_append [symmetric] map_append [symmetric] by simp
  then show ?thesis by blast
qed

lemma list_served:
  assumes "snd (served_chunk_list e h n fm) = Some payload"
  shows "map_of (fm_chunk_lists fm) h = Some payload
    \<or> (length (get_file_chunks (fm_files fm) h 0 n) = n \<and> payload = concat (map (fe_sha e) (get_file_chunks (fm_files fm) h 0 n)))"
  using assms by (auto simp: served_chunk_list_def Let_def split: option.splits if_splits)

text \<open>C17. Whoever is served the chunk list or chunks of a file identified on the link and is a member of a channel
  that is not open to all and in which a stored message names the file; and the file is complete here. What is
  sent for chunks is a contiguous part of the file; for the list it is the hashes of all its chunks as they are
  stored, or the list remembered for the file.\<close>

theorem members_alone_are_served:
  assumes "snd (serve_file e requester h first k want_list fm) = Inr (Some payload)"
  shows "\<exists>who msg r perms f data. requester = Some who
    \<and> msg \<in> set (db_rows (fe_db e)) \<and> row_file_hash msg = Some h
    \<and> get_channel (db_store (fe_db e)) (ms_channel msg) = Some r \<and> column_perms (Some r) = Inr perms \<and> \<not> is_open_join perms
    \<and> is_member (db_store (fe_db e)) (ms_channel msg) who
    \<and> get_file (fm_files fm) h = Some f \<and> sf_complete f \<and> get_file_bytes (fm_files fm) h = Some data
    \<and> (if want_list
        then map_of (fm_chunk_lists fm) h = Some payload
          \<or> (length (get_file_chunks (fm_files fm) h 0 (sf_chunks f)) = sf_chunks f
              \<and> payload = concat (map (fe_sha e) (get_file_chunks (fm_files fm) h 0 (sf_chunks f))))
        else \<exists>pre post. data = pre @ payload @ post)"
proof -
  obtain who f where w: "requester = Some who" "get_file (fm_files fm) h = Some f" "sf_complete f" "may_serve e h who = Inr True"
    and p: "snd (if want_list then served_chunk_list e h (sf_chunks f) fm else (fm, served_chunks h (sf_chunks f) first k fm)) = Some payload"
    using assms by (auto simp: serve_file_def split: option.splits sum.splits bool.splits if_splits prod.splits)
  obtain ch r perms where ch: "ch \<in> set (file_channels (db_rows (fe_db e)) h)" "get_channel (db_store (fe_db e)) ch = Some r"
    "column_perms (Some r) = Inr perms" "\<not> is_open_join perms" "is_member (db_store (fe_db e)) ch who"
    using may_serve_in_True w(4) unfolding may_serve_def by blast
  obtain msg where msg: "msg \<in> set (db_rows (fe_db e))" "row_file_hash msg = Some h" "ms_channel msg = ch"
    using ch(1) by (auto simp: file_channels_def)
  let ?data = "concat (map ck_content (chunks_of_file (fm_files fm) h))"
  have "\<exists>pre post. ?data = pre @ payload @ post" if "\<not> want_list"
  proof -
    have "payload = concat (get_file_chunks (fm_files fm) h first (min k (sf_chunks f - first)))"
      using p that by (simp add: served_chunks_def Let_def split: if_splits)
    with range_in_file show ?thesis by metis
  qed
  moreover have "get_file_bytes (fm_files fm) h = Some ?data" using w by (simp add: get_file_bytes_def)
  moreover have "map_of (fm_chunk_lists fm) h = Some payload
      \<or> (length (get_file_chunks (fm_files fm) h 0 (sf_chunks f)) = sf_chunks f
        \<and> payload = concat (map (fe_sha e) (get_file_chunks (fm_files fm) h 0 (sf_chunks f))))" if want_list
    using p that list_served by simp
  ultimately show ?thesis using w(1-3) ch(2-5) msg by (cases want_list) auto
qed

lemma sample_served:
  "snd (serve_file (sample_files 20 []) (Some sample_friend) (to_hex (pad_hash sample_data)) 0 4 False
     (fold file_step sample_download (new_files (sample_files 10 []) no_files))) = Inr (Some sample_data)"
  by code_simp

lemma sample_list_served:
  "snd (serve_file (sample_files 20 []) (Some sample_friend) (to_hex (pad_hash sample_data)) 0 4 True
     (fold file_step sample_download (new_files (sample_files 10 []) no_files)))
   = Inr (Some (concat (map pad_hash (get_file_chunks (fm_files (fold file_step sample_download (new_files (sample_files 10 []) no_files)))
       (to_hex (pad_hash sample_data)) 0 1))))"
  by code_simp

theorem members_alone_are_served_witness:
  "\<exists>msg data pre post. msg \<in> set (db_rows (fe_db (sample_files 20 []))) \<and> row_file_hash msg = Some (to_hex (pad_hash sample_data))
     \<and> is_member (db_store (fe_db (sample_files 20 []))) (ms_channel msg) sample_friend
     \<and> get_file_bytes (fm_files (fold file_step sample_download (new_files (sample_files 10 []) no_files))) (to_hex (pad_hash sample_data)) = Some data
     \<and> data = pre @ sample_data @ post
     \<and> (\<exists>f. get_file (fm_files (fold file_step sample_download (new_files (sample_files 10 []) no_files))) (to_hex (pad_hash sample_data)) = Some f \<and> sf_complete f)"
  using members_alone_are_served [OF sample_served] members_alone_are_served [OF sample_list_served] by (simp, blast)

end
