(* ===== verification/File_Gaps.thy ===== *)
theory File_Gaps
  imports File_Flow
begin

text \<open>
  Where the shared files do not do what they mean to: a download that holds every chunk and never ends, a holder
  blamed for an eviction, a file shared over what a download left, an evicted file reported as done.
\<close>

section \<open>A download that holds every chunk never ends\<close>

text \<open>The download of a file, if it is tracked, is admitted, misses no chunk and is not done.\<close>

definition stuck :: "hexid \<Rightarrow> files \<Rightarrow> bool" where
  "stuck h fm \<longleftrightarrow> (\<forall>d. get_dl fm h = Some d \<longrightarrow> dl_admitted d \<and> next_index d = None \<and> dl_status d \<noteq> DL_DONE)"

definition stuck_dl :: "download \<Rightarrow> bool" where
  "stuck_dl d \<longleftrightarrow> dl_admitted d \<and> next_index d = None \<and> dl_status d \<noteq> DL_DONE"

lemma next_index_cong: "dl_held d' = dl_held d \<Longrightarrow> dl_count d' = dl_count d \<Longrightarrow> next_index d' = next_index d"
  by (simp add: next_index_def)

lemma stuck_apart [simp]: "stuck h (fm\<lparr>fm_files := fs\<rparr>) = stuck h fm" "stuck h (fm\<lparr>fm_told := ts\<rparr>) = stuck h fm"
  "stuck h (fm\<lparr>fm_active := a\<rparr>) = stuck h fm" "stuck h (fm\<lparr>fm_by_fetch := b\<rparr>) = stuck h fm"
  "stuck h (fm\<lparr>fm_last_holder := l\<rparr>) = stuck h fm" "stuck h (fm\<lparr>fm_last_prune := p\<rparr>) = stuck h fm"
  "stuck h (fm\<lparr>fm_issued := is\<rparr>) = stuck h fm" "stuck h (fm\<lparr>fm_chunk_lists := c\<rparr>) = stuck h fm"
  "stuck h (store_do f fm) = stuck h fm" "stuck h (tell_dl h' d fm) = stuck h (put_dl h' d fm)"
  by (simp_all add: stuck_def get_dl_def store_do_def tell_dl_def)

lemma stuck_put: "stuck h fm \<Longrightarrow> (h' = h \<Longrightarrow> stuck_dl d) \<Longrightarrow> stuck h (put_dl h' d fm)"
  by (simp add: stuck_def stuck_dl_def)

lemma stuck_other: "h' \<noteq> h \<Longrightarrow> stuck h (put_dl h' d fm) = stuck h fm"
  by (simp add: stuck_def)

lemma stuck_get: "stuck h fm \<Longrightarrow> get_dl fm h = Some d \<Longrightarrow> stuck_dl d"
  by (simp add: stuck_def stuck_dl_def)

lemma stuck_fields [simp]:
  "stuck_dl (d\<lparr>dl_why := x1\<rparr>) = stuck_dl d" "stuck_dl (d\<lparr>dl_holder := x2\<rparr>) = stuck_dl d"
  "stuck_dl (d\<lparr>dl_retry_at := x3\<rparr>) = stuck_dl d" "stuck_dl (d\<lparr>dl_backoff := x4\<rparr>) = stuck_dl d"
  "stuck_dl (d\<lparr>dl_skipped := x5\<rparr>) = stuck_dl d" "stuck_dl (d\<lparr>dl_refused := x6\<rparr>) = stuck_dl d"
  "stuck_dl (d\<lparr>dl_suspect := x7\<rparr>) = stuck_dl d" "stuck_dl (d\<lparr>dl_attempts := x8\<rparr>) = stuck_dl d"
  "stuck_dl (d\<lparr>dl_fetch := x9\<rparr>) = stuck_dl d" "stuck_dl (d\<lparr>dl_wants_list := xa\<rparr>) = stuck_dl d"
  "stuck_dl (d\<lparr>dl_chunk_list := xb\<rparr>) = stuck_dl d" "stuck_dl (shrink_window d) = stuck_dl d" "stuck_dl (reset_window d) = stuck_dl d"
  by (simp_all add: stuck_dl_def next_index_def)

lemma stuck_status [simp]: "stuck_dl d \<Longrightarrow> s \<noteq> DL_DONE \<Longrightarrow> stuck_dl (d\<lparr>dl_status := s\<rparr>)"
  by (simp add: stuck_dl_def next_index_def)

lemma stuck_activate: "stuck h fm \<Longrightarrow> stuck h (activate_from e hs fm)"
proof (rule activate_keeps [where P = "stuck h"])
  fix fm h' d
  assume s: "stuck h fm" "get_dl fm h' = Some d" "\<not> dl_admitted d"
  then have "h' \<noteq> h" by (auto simp: stuck_def)
  obtain fs ts d' where "admit_dl e h' d fm = (put_dl h' d' fm)\<lparr>fm_files := fs, fm_told := ts\<rparr>"
    by (rule admit_dl_shape [of e h' d fm]) blast
  then show "stuck h (admit_dl e h' d fm)" using s(1) \<open>h' \<noteq> h\<close> by (simp add: stuck_other)
qed simp_all

lemma stuck_pump: "stuck h fm \<Longrightarrow> stuck h (fst (pump e fm))"
proof -
  assume "stuck h fm"
  then have "stuck h (fst (prepare e fm))"
  proof (rule prepare_keeps [where P = "stuck h", rotated -1])
    fix fm assume "stuck h fm"
    then show "stuck h (next_active e fm)" by (simp add: next_active_def activate_next_def stuck_activate)
  next
    fix fm h' d holder
    assume a: "stuck h fm" "get_dl fm h' = Some d"
    have s: "h' = h \<Longrightarrow> stuck_dl d" using a stuck_get by blast
    show "stuck h (stall e h' d fm)" using a s by (auto simp: stall_def Let_def intro!: stuck_put)
    have i: "stuck h (put_dl h' d' fm)" if "d' = d\<lparr>dl_fetch := x, dl_holder := y, dl_attempts := z, dl_wants_list := w\<rparr>" for d' x y z w
      using a s that by (intro stuck_put) auto
    show "stuck h (fst (issue_request e h' holder d fm))" using a s
      by (auto simp: issue_request_def Let_def intro!: stuck_put)
  qed
  then show ?thesis by (auto simp: pump_def split: prod.splits sum.splits option.splits)
qed

lemma stuck_drop: "stuck h fm \<Longrightarrow> stuck h (drop_download h' fm)"
  by (auto simp: stuck_def drop_download_def get_dl_def split: if_splits)

lemma stuck_prune: "stuck h fm \<Longrightarrow> stuck h (fst (prune_locked now fm))"
proof -
  have "stuck h fm \<Longrightarrow> stuck h (forget_gone h' fm)" for h' fm
    by (simp add: forget_gone_def stuck_drop split: option.split)
  then show "stuck h fm \<Longrightarrow> stuck h (fst (prune_locked now fm))"
    by (auto simp: prune_locked_def Let_def case_prod_beta intro!: fold_files_keep [where P = "stuck h"])
qed

lemma stuck_tick: "stuck h fm \<Longrightarrow> stuck h (fst (files_tick e fm))"
proof -
  have "stuck h fm \<Longrightarrow> stuck h (retry_one now h' fm)" for now h' fm
    by (auto simp: retry_one_def Let_def split: option.split intro!: stuck_put dest: stuck_get)
  then have "stuck h fm \<Longrightarrow> stuck h (retry_parked now fm)" for now fm
    unfolding retry_parked_def by (rule fold_files_keep [where P = "stuck h"])
  moreover have "stuck h fm \<Longrightarrow> stuck h (announce_files e fm)" for fm
    by (simp add: announce_files_def Let_def stuck_def get_dl_def)
  ultimately show "stuck h fm \<Longrightarrow> stuck h (fst (files_tick e fm))"
    by (simp add: files_tick_def prune_if_due_def stuck_pump stuck_prune)
qed

lemma stuck_peer: "stuck h fm \<Longrightarrow> stuck h (fst (files_peer_appeared e peer fm))"
proof -
  have "stuck h (fst st) \<Longrightarrow> stuck h (fst (wake_download e peer h' st))" for h' st
    by (cases st) (auto simp: wake_download_def Let_def split: option.split intro!: stuck_prune stuck_put dest: stuck_get)
  then show "stuck h fm \<Longrightarrow> stuck h (fst (files_peer_appeared e peer fm))"
    by (auto simp: files_peer_appeared_def intro!: stuck_pump fold_files_keep [where P = "\<lambda>st. stuck h (fst st)"])
qed


lemma stuck_elsewhere:
  assumes "h' \<noteq> h"
  shows "stuck h (round_reset h' holder d fm) = stuck h fm" "stuck h (finish_dl h' s why d fm) = stuck h fm"
    "stuck h (start_again e h' d fm) = stuck h fm" "stuck h (complete_dl e h' d fm) = stuck h fm"
proof -
  show fin: "stuck h (finish_dl h' s why d fm) = stuck h fm" for s why d fm using assms by (simp add: finish_shape stuck_other)
  show "stuck h (round_reset h' holder d fm) = stuck h fm" using assms by (simp add: round_reset_def Let_def stuck_other)
  show again: "stuck h (start_again e h' d fm) = stuck h fm" using assms by (simp add: start_again_def Let_def stuck_other fin)
  show "stuck h (complete_dl e h' d fm) = stuck h fm" by (simp add: complete_dl_def fin again)
qed

lemma stuck_settle: "h' \<noteq> h \<Longrightarrow> stuck h (settle_chunks e h' holder stored d fm) = stuck h fm"
  by (auto simp: settle_chunks_def Let_def stuck_other stuck_elsewhere split: option.split)

lemma stuck_chunks: "h' \<noteq> h \<Longrightarrow> stuck h (on_chunks e h' holder data d fm) = stuck h fm"
  by (auto simp: on_chunks_def Let_def stuck_other stuck_elsewhere stuck_settle split: option.split prod.split chunk_end.split)

lemma stuck_take_result:
  assumes s: "stuck h fm" and d: "get_dl fm h' = Some d"
  shows "stuck h (take_result e h' result d fm)"
proof (cases "h' = h")
  case True
  have sd: "stuck_dl d" using s d True stuck_get by blast
  have none: "next_index (d\<lparr>dl_fetch := None\<rparr>) = None" using sd by (simp add: stuck_dl_def next_index_def)
  have put: "stuck_dl d' \<Longrightarrow> stuck h (put_dl h d' fm)" for d' using s by (intro stuck_put)
  have chunks: "on_chunks e h holder data (d\<lparr>dl_fetch := None\<rparr>) fm = put_dl h (d\<lparr>dl_fetch := None\<rparr>) fm" for holder data
    by (simp add: on_chunks_def none)
  show ?thesis using True sd
    by (simp add: take_result_def Let_def on_failed_request_def on_chunk_list_def chunks round_reset_def put
      split: fetch_result.split)
next
  case False
  then show ?thesis using s
    by (simp add: take_result_def Let_def on_failed_request_def on_chunk_list_def stuck_chunks stuck_elsewhere stuck_other
      split: fetch_result.split)
qed

lemma stuck_result: "stuck h fm \<Longrightarrow> stuck h (fst (on_result e fid result fm))"
proof -
  assume s: "stuck h fm"
  let ?fm = "fm\<lparr>fm_by_fetch := AList.delete fid (fm_by_fetch fm)\<rparr>"
  have ann: "stuck h (announce_files e fm') = stuck h fm'" for fm'
    by (simp add: announce_files_def Let_def stuck_def get_dl_def)
  have "stuck h (fst (result_arrived e h' result d ?fm))" if "get_dl ?fm h' = Some d" for h' d
    unfolding result_arrived_def using stuck_take_result [OF _ that] s by (simp add: stuck_pump ann)
  then show ?thesis using s by (auto simp: on_result_def Let_def split: option.splits)
qed

text \<open>The events in which the user asks for nothing and shares nothing, and the program runs on.\<close>

fun runs_on :: "file_event \<Rightarrow> bool" where
  "runs_on (Fetch_Result _ _) = True"
| "runs_on (Peer_Near _) = True"
| "runs_on File_Tick = True"
| "runs_on File_Prune = True"
| "runs_on _ = False"

lemma stuck_history: "stuck h fm \<Longrightarrow> \<forall>ev \<in> set es. runs_on (snd ev) \<Longrightarrow> stuck h (fold file_step es fm)"
proof (induction es arbitrary: fm)
  case (Cons ev es)
  obtain e x where ev: "ev = (e, x)" by (cases ev)
  have "stuck h (file_step ev fm)" using Cons.prems ev
    by (cases x) (simp_all add: stuck_result stuck_peer stuck_tick stuck_prune)
  then show ?case using Cons by simp
qed simp

definition all_parked :: "files \<Rightarrow> bool" where
  "all_parked fm \<longleftrightarrow> (\<forall>h d. get_dl fm h = Some d \<longrightarrow> dl_admitted d \<and> dl_status d = DL_UNAVAILABLE)"

lemma restored: "all_parked (new_files e fs)"
proof -
  have order: "all_parked (fm\<lparr>fm_order := x\<rparr>) = all_parked fm" for fm x by (simp add: all_parked_def get_dl_def)
  have put: "all_parked (put_dl h d fm)" if "all_parked fm" "dl_admitted d" "dl_status d = DL_UNAVAILABLE" for h d fm
    using that by (simp add: all_parked_def)
  have "all_parked (restore_one e f fm)" if "all_parked fm" for f fm
  proof (cases "first_manifest (messages_for_file (db_rows (fe_db e)) (sf_hash f))")
    case (Some m)
    then show ?thesis unfolding restore_one_def Let_def Some option.case order by (intro put that) simp_all
  qed (use that in \<open>simp add: restore_one_def Let_def\<close>)
  note one = this
  show ?thesis unfolding new_files_def restore_downloads_def
    by (rule fold_files_keep [where P = all_parked, OF one], assumption) (simp add: all_parked_def get_dl_def)
qed

text \<open>C38. Where the process stops between storing the last chunk of a download and marking the file complete, the download restored
  at the next start holds every chunk and is never done, whatever holders answer and however long it runs: its
  requests have no first index, and only the arrival of a missing chunk completes a file.\<close>

theorem full_download_never_done:
  assumes "get_dl (new_files e fs) h = Some d" "next_index d = None" "\<forall>ev \<in> set es. runs_on (snd ev)"
    and "get_dl (fold file_step es (new_files e fs)) h = Some d'"
  shows "dl_status d' \<noteq> DL_DONE"
proof -
  have "stuck h (new_files e fs)" using assms(1,2) restored [of e fs] by (simp add: stuck_def all_parked_def)
  then have "stuck h (fold file_step es (new_files e fs))" using assms(3) by (rule stuck_history)
  then show ?thesis using assms(4) by (simp add: stuck_def)
qed

text \<open>The store as a crash at that point leaves it.\<close>

definition crashed_store :: file_store where
  "crashed_store = \<lparr>fs_files = [\<lparr>sf_hash = to_hex (pad_hash sample_data), sf_size = 3, sf_chunks = 1, sf_held = 3, sf_complete = False,
        sf_own = False, sf_stored = 1, sf_used = 1\<rparr>],
     fs_chunks = [\<lparr>ck_hash = to_hex (pad_hash sample_data), ck_idx = 0, ck_content = sample_data\<rparr>]\<rparr>"

definition helpful_holder :: "(file_env \<times> file_event) list" where
  "helpful_holder =
     [(sample_files 20 ''b1'', Peer_Near sample_friend),
      (sample_files 21 ''b2'', Fetch_Result ''b1'' (Fetched (Some (pad_hash sample_data)))),
      (sample_files 22 ''b3'', Fetch_Result ''b2'' (Fetched (Some sample_data)))]"

theorem full_download_never_done_witness:
  "\<exists>d. get_dl (fold file_step helpful_holder (new_files (sample_files 10 []) crashed_store)) (to_hex (pad_hash sample_data)) = Some d
     \<and> dl_status d \<noteq> DL_DONE
     \<and> FetchChunks ''b2'' sample_friend (to_hex (pad_hash sample_data)) None 1
         \<in> set (fm_issued (fold file_step helpful_holder (new_files (sample_files 10 []) crashed_store)))"
proof -
  let ?h = "to_hex (pad_hash sample_data)"
  let ?fm = "fold file_step helpful_holder (new_files (sample_files 10 []) crashed_store)"
  have "map_option next_index (get_dl (new_files (sample_files 10 []) crashed_store) ?h) = Some None" by code_simp
  then obtain d where d: "get_dl (new_files (sample_files 10 []) crashed_store) ?h = Some d" "next_index d = None" by auto
  have "map_option dl_admitted (get_dl ?fm ?h) = Some True" by code_simp
  then obtain d' where d': "get_dl ?fm ?h = Some d'" by auto
  have "list_ex (\<lambda>r. r = FetchChunks ''b2'' sample_friend ?h None 1) (fm_issued ?fm)" by code_simp
  moreover have "\<forall>ev \<in> set helpful_holder. runs_on (snd ev)" by (simp add: helpful_holder_def)
  ultimately show ?thesis using full_download_never_done [OF d _ d'] d' by (auto simp: list_ex_iff)
qed


section \<open>A holder blamed for an eviction\<close>

lemma suspect_again: "map_option dl_suspect (get_dl (start_again e h d fm) h) = Some (List.union (dl_contributors d) (dl_suspect d))"
  by (simp add: start_again_def Let_def finish_shape reset_window_def)

text \<open>C39. Where admitting another file evicted what a download had stored, and the download asks on before the next
  pruning forgets it, the holder that sends the last chunk it counts as missing, intact and as its list says, is marked as
  serving bad bytes for as long as the download lives.\<close>

theorem eviction_blames_holder:
  assumes d: "dl_holder d = Some holder" "\<not> dl_wants_list d" "dl_chunk_list d = Some hashes" "holder \<notin> set (dl_suspect d)"
    and last_one: "next_index d = Some i" "i + 1 = dl_count d" "i \<noteq> 0" "length (dl_held d) = i"
    and evicted: "\<forall>c \<in> set (fs_chunks (fm_files fm)). ck_hash c \<noteq> h"
    and intact: "data \<noteq> []" "length data = chunk_size_at (dl_size d) i" "fe_sha e data = hashes ! i" "fe_room e h i"
  shows "\<exists>suspects. map_option dl_suspect (get_dl (take_result e h (Fetched (Some data)) d fm) h) = Some suspects \<and> holder \<in> set suspects"
proof -
  let ?d = "d\<lparr>dl_fetch := None\<rparr>"
  let ?d1 = "?d\<lparr>dl_held := List.insert i (dl_held d)\<rparr>"
  let ?fs = "add_chunk (fe_now e) h i data (fm_files fm)"
  let ?fm = "fm\<lparr>fm_files := ?fs\<rparr>"
  have ni: "next_index ?d = Some i" using last_one(1) by (simp add: next_index_def)
  have new: "i \<notin> set (dl_held d)" using last_one(1) by (auto simp: next_index_def find_Some_iff)
  have tk: "take_chunks e h hashes [i..<dl_count ?d] data 0 (?d, fm_files fm) = ((?d1, ?fs), 1, Kept)"
    using intact last_one(2) by (simp add: Let_def put_file_chunk_def flip: last_one(2))
  let ?c = "note_progress (?d1\<lparr>dl_contributors := List.insert holder (dl_contributors ?d1)\<rparr>)"
  let ?r = "(grow_window ?c)\<lparr>dl_attempts := 0, dl_skipped := [], dl_refused := removeAll holder (dl_refused (grow_window ?c)),
      dl_backoff := DOWNLOAD_RETRY_SECS\<rparr>"
  let ?f = "round_reset h holder (grow_window ?c) (tell_dl h ?c ?fm)"
  have "length (dl_held ?r) \<ge> dl_count ?r" using new last_one by simp
  then have res: "take_result e h (Fetched (Some data)) d fm = complete_dl e h ?r ?f"
    using d tk ni by (simp add: take_result_def on_chunks_def settle_chunks_def Let_def)
  have few: "length (get_file_chunks (fm_files ?f) h 0 (dl_count ?r)) \<le> 1"
  proof -
    have no_chunks: "filter (\<lambda>c. ck_hash c = h) (fs_chunks (fm_files fm)) = []" using evicted by (simp add: filter_empty_conv)
    have "length (filter (\<lambda>c. ck_hash c = h) (fs_chunks ?fs)) \<le> 1"
      using no_chunks by (simp add: add_chunk_def)
    moreover have "fm_files ?f = ?fs" by (simp add: round_reset_def Let_def tell_dl_def)
    ultimately show ?thesis
      unfolding get_file_chunks_def chunks_of_file_def
      by (metis (no_types, lifting) length_filter_le length_map length_sort le_trans)
  qed
  have "\<not> file_matches e h ?r (fm_files ?f)" using few last_one(2,3) by (auto simp: file_matches_def Let_def)
  then have "complete_dl e h ?r ?f = start_again e h ?r ?f" by (simp add: complete_dl_def)
  then have "map_option dl_suspect (get_dl (take_result e h (Fetched (Some data)) d fm) h) = Some (List.union (dl_contributors ?r) (dl_suspect ?r))"
    unfolding res by (simp only: suspect_again)
  moreover have "holder \<in> set (List.union (dl_contributors ?r) (dl_suspect ?r))" by simp
  ultimately show ?thesis by blast
qed

section \<open>A file shared over what a download left\<close>

lemma put_chunks_keep:
  "put_chunks e h i cs fs = (fs', ok) \<Longrightarrow> set (fs_chunks fs) \<subseteq> set (fs_chunks fs')"
  by (induction e h i cs fs rule: put_chunks.induct) (auto simp: put_file_chunk_def add_chunk_def split: if_splits)

lemma put_chunks_own:
  "put_chunks e h i cs fs = (fs', ok) \<Longrightarrow> map_option sf_own (row_of sf_hash (fs_files fs') h') = map_option sf_own (row_of sf_hash (fs_files fs) h')"
  by (induction e h i cs fs rule: put_chunks.induct)
    (auto simp: put_file_chunk_def add_chunk_def option.map_comp comp_def split: if_splits)

text \<open>Sharing a file of which an unfinished download left chunks keeps those chunks in place of the file's own: the file is marked
  complete and own, to be served and never evicted, with what was there.\<close>

theorem shared_over_leftovers:
  assumes "share_file e name data fm = (fm', Some m)" "c \<in> set (fs_chunks (fm_files fm))" "ck_hash c = to_hex (fe_sha e data)"
    and "get_file_bytes (fm_files fm) (to_hex (fe_sha e data)) = None"
  shows "c \<in> set (fs_chunks (fm_files fm'))
    \<and> (\<exists>f. get_file (fm_files fm') (to_hex (fe_sha e data)) = Some f \<and> sf_complete f \<and> sf_own f)"
proof -
  let ?h = "to_hex (fe_sha e data)" and ?now = "fe_now e" and ?n = "int (length data)"
  have bm: "build_manifest (fe_sha e) (fe_decode e) (PStr name) data = Some m"
    using assms(1) by (cases "build_manifest (fe_sha e) (fe_decode e) (PStr name) data")
      (auto simp: share_file_def Let_def split: prod.splits bool.splits if_splits)
  then have h: "to_hex (man_digest m) = ?h" using build_manifest_digest by simp
  have new: "(case get_file (fm_files fm) ?h of None \<Rightarrow> False | Some r \<Rightarrow> sf_complete r) = False"
    using assms(4) by (auto simp: get_file_bytes_None split: option.splits)
  obtain fs where put: "put_chunks e ?h 0 (chunks_of FILE_CHUNK_BYTES data) (begin_file ?now ?h ?n True (fm_files fm)) = (fs, True)"
    and files: "fm_files fm' = touch_file ?now ?h (mark_file_complete ?now ?h fs)"
    using assms(1) unfolding share_file_def bm option.case Let_def h new if_False
    by (auto simp: admit_file_def announce_files_def Let_def split: prod.splits bool.splits if_splits)
  have "c \<in> set (fs_chunks fs)" using put_chunks_keep [OF put] assms(2) by (auto simp: begin_file_def)
  moreover have own: "row_of sf_hash (fs_files fs) ?h \<noteq> None
      \<and> (\<forall>r. row_of sf_hash (fs_files fs) ?h = Some r \<longrightarrow> sf_own r)"
    using put_chunks_own [OF put, of ?h]
    by (cases "row_of sf_hash (fs_files (fm_files fm)) ?h") (auto simp: begin_file_def)
  ultimately show ?thesis unfolding files
    by (auto simp: get_file_def touch_file_def mark_file_complete_def)
qed

lemma leftover_example:
  "(case share_file (sample_files 20 []) ''a'' sample_data
      ((new_files (sample_files 10 []) no_files)\<lparr>fm_files := crashed_store\<lparr>fs_chunks :=
         [\<lparr>ck_hash = to_hex (pad_hash sample_data), ck_idx = 0, ck_content = [9]\<rparr>]\<rparr>\<rparr>) of
     (fm, m) \<Rightarrow> m \<noteq> None \<and> get_file_bytes (fm_files fm) (to_hex (pad_hash sample_data)) = Some [9])"
  by code_simp


theorem shared_over_leftovers_witness:
  "\<exists>(c :: chunk_row) (fm :: files). ck_content c = [9] \<and> c \<in> set (fs_chunks (fm_files fm)) \<and> (\<exists>f. get_file (fm_files fm) (to_hex (pad_hash sample_data)) = Some f
     \<and> sf_complete f \<and> sf_own f) \<and> get_file_bytes (fm_files fm) (to_hex (pad_hash sample_data)) = Some [9]"
proof -
  let ?h = "to_hex (pad_hash sample_data)" and ?c = "\<lparr>ck_hash = to_hex (pad_hash sample_data), ck_idx = 0, ck_content = [9]\<rparr>"
  let ?fm = "(new_files (sample_files 10 []) no_files)\<lparr>fm_files := crashed_store\<lparr>fs_chunks := [?c]\<rparr>\<rparr>"
  obtain fm m where s: "share_file (sample_files 20 []) ''a'' sample_data ?fm = (fm, Some m)" "get_file_bytes (fm_files fm) ?h = Some [9]"
    using leftover_example by (auto split: prod.splits)
  have sha: "fe_sha (sample_files 20 []) = pad_hash" by (simp add: sample_files_def)
  have "get_file_bytes (fm_files ?fm) ?h = None" by (simp add: get_file_bytes_None get_file_def crashed_store_def)
  from shared_over_leftovers [OF s(1), of ?c, unfolded sha, OF _ _ this]
  have "?c \<in> set (fs_chunks (fm_files fm)) \<and> (\<exists>f. get_file (fm_files fm) ?h = Some f \<and> sf_complete f \<and> sf_own f)" by simp
  moreover have "ck_content ?c = [9]" by simp
  ultimately show ?thesis using s(2) by blast
qed

text \<open>A last chunk that arrives after its file was evicted: the second of two chunks of a file of 32769 bytes.\<close>

theorem eviction_blames_holder_witness:
  "\<exists>d e suspects. map_option dl_suspect (get_dl (take_result e (to_hex []) (Fetched (Some [1])) d (new_files e no_files)) (to_hex [])) = Some suspects
     \<and> sample_friend \<in> set suspects"
proof -
  let ?m = "\<lparr>man_name = PStr ''a'', man_size = PInt 32769, man_hash = Some [], man_root = Some []\<rparr>"
  let ?d = "(new_download ?m)\<lparr>dl_holder := Some sample_friend, dl_chunk_list := Some [[], pad_hash [1]], dl_held := [0], dl_fetch := Some ''f''\<rparr>"
  let ?e = "sample_files 20 []"
  have c: "chunk_count_for 32769 = 2" by code_simp
  then have "next_index ?d = Some 1" "dl_count ?d = 2" by (simp_all add: next_index_def new_download_def man_bytes_def upt_rec)
  moreover have "chunk_size_at 32769 1 = 1" by (simp add: chunk_size_at_def c FILE_CHUNK_BYTES_def)
  moreover have "\<forall>c \<in> set (fs_chunks (fm_files (new_files ?e no_files))). ck_hash c \<noteq> to_hex []" by code_simp
  ultimately show ?thesis
    using eviction_blames_holder [of ?d sample_friend "[[], pad_hash [1]]" 1 "new_files ?e no_files" "to_hex []" "[1]" ?e]
    by (intro exI [of _ ?d] exI [of _ ?e]) (simp add: new_download_def man_bytes_def sample_files_def)
qed

section \<open>Reports\<close>

text \<open>A file that was evicted to make room is reported as done when it is asked for again, and not fetched.\<close>

lemma evicted_file_reported_done:
  assumes "get_dl fm (to_hex (man_digest m)) = Some d" "dl_status d = DL_DONE" "dl_admitted d"
    and "get_file (fm_files fm) (to_hex (man_digest m)) = None"
  shows "map_option dl_status (get_dl (join_download e r m fm) (to_hex (man_digest m))) = Some DL_DONE
    \<and> fm_files (join_download e r m fm) = fm_files fm"
  using assms by (simp add: join_download_def Let_def)

text \<open>A name that is cleaned for the receiver is not always one the receiver accepts.\<close>

lemma cleaned_name_refused:
  "clean_filename decode (PStr ''a .'') = Some ''a ''" "build_manifest sha decode (PStr ''a .'') data = None"
proof -
  have c: "clean_filename (\<lambda>_. []) (PStr ''a .'') = Some ''a ''" by code_simp
  then show clean: "clean_filename decode (PStr ''a .'') = Some ''a ''" by (simp add: clean_filename_def)
  have "\<not> name_is_clean ''a ''" by code_simp
  then show "build_manifest sha decode (PStr ''a .'') data = None" by (simp add: build_manifest_def clean file_manifest_def)
qed

end
