(* ===== verification/Spec2Isabelle.thy ===== *)
theory Spec2Isabelle
  imports Permissions Protocol Sync_Ranges Reconcile Friends Control_Retry Direct Sync_Status Voice_Wire Jitter
    User_Directory Connectivity Link_Metrics Authorship Document_Gaps Doubles Invite_Safety Message_Safety Outbox_Safety
    Message_History Subscriber_Safety Reaction_Safety Serving_Safety Pending_Safety Sync_Gaps Presence_Safety File_Gaps
begin

text \<open>
  TrenchChat, a decentralised group chat over Reticulum and LXMF.

  This is a model of the core of \<^verbatim>\<open>src/trenchchat\<close> in Isabelle/HOL, definition by definition, with the
  theorems that make it correct. There is no server: each node keeps its own tables, and what it
  accepts from peers is decided by signatures, by what the stored state says of the signer and by
  caps. The theories follow the modules of the code.

  \<^bold>\<open>Shared.\<close> \<open>Prelude\<close>: Python values as msgpack gives them, exceptions as a sum type, hex, tables as
  lists of rows with a key. \<open>Contracts\<close>: the locales that several components share (a store with an
  invariant that every event keeps, a bounded table, a codec). \<open>Values\<close>: comparison, sorting, numbers
  and SQL columns of Python values. \<open>Doubles\<close>: the eight bytes of a float.

  \<^bold>\<open>Roles and authority.\<close> \<open>Permissions\<close> is \<^verbatim>\<open>core/permissions.py\<close>. \<open>Membership\<close> holds the membership tables
  of \<^verbatim>\<open>core/storage.py\<close> and the cache that resolves a channel to the scope that owns its membership.
  \<open>Documents\<close> and \<open>Acceptance\<close> are the member list documents of \<^verbatim>\<open>core/invite.py\<close>: the checks a document
  passes, and what it is applied to. \<open>Authority\<close> proves over every history of inbound documents and
  confirmations that only an owner changes the owners, that versions never go back and that an
  accepted document is signed by someone who may do what it does; \<open>Document_Gaps\<close> shows where the code
  falls short of its comments. \<open>Invites\<close> is the rest of \<^verbatim>\<open>core/invite.py\<close>: tokens, join requests and
  the publishing of a member list; \<open>Invite_Safety\<close> shows that a join needs a live token for its sender
  and that a token is redeemed once per scope over any history. \<open>Authorship\<close> is \<^verbatim>\<open>core/authorship.py\<close> with the
  key cache, which never replaces a key. \<open>Subscribers\<close> is \<^verbatim>\<open>core/subscription.py\<close> with its
  tables; \<open>Subscriber_Safety\<close> compares it, event by event, with a specification of versioned rosters
  (\<open>roster_spec\<close>), restarts included.

  \<^bold>\<open>Messages.\<close> \<open>Messages\<close> is the inbound half of \<^verbatim>\<open>core/messaging.py\<close> with the \<^verbatim>\<open>messages\<close> table, \<open>Interop\<close> is
  \<^verbatim>\<open>core/interop.py\<close> and \<open>Outbox\<close> the outbound half: sending, queueing, retrying, delivery states.
  \<open>Message_Safety\<close> shows who may put a row into the table, \<open>Outbox_Safety\<close> the bounds of the queues and that a
  message sent is the message received, and \<open>Message_History\<close> joins deliveries, sends and sync in one
  history after which every row is what its id and signature say. \<open>Reactions\<close> is \<^verbatim>\<open>core/reaction.py\<close>
  with the emoji library; \<open>Reaction_Safety\<close> its permissions and invariants. \<open>Control_Send\<close> is what every manager
  does to send a control message.

  \<^bold>\<open>Wire.\<close> \<open>Protocol\<close> is \<^verbatim>\<open>core/protocol.py\<close>: envelopes, message ids, author digests, mentions, file
  manifests, chunk roots. \<open>Voice_Wire\<close> and \<open>Jitter\<close> are the voice packets and the playout buffer.

  \<^bold>\<open>Synchronisation.\<close> \<open>Sync_Ranges\<close> and \<open>Reconcile\<close> are \<^verbatim>\<open>core/sync_ranges.py\<close>: the descriptions two peers
  exchange, and what they show of a difference. \<open>Sync_Status\<close> is the tracker behind the indicator. The
  manager of \<^verbatim>\<open>core/sync.py\<close> is in five theories: \<open>Serving\<close> (which rows may be shown to whom, sweeps and caps),
  \<open>Pending\<close> (the books of outstanding requests), \<open>Sync\<close> (its state, asking, hints, probes, retries), \<open>Sync_Answer\<close>
  and \<open>Sync_Intake\<close> (both ends of an answer). \<open>Serving_Safety\<close> shows what a sweep returns and that sweeps get through
  everything, \<open>Pending_Safety\<close> that an answer is matched to one request, \<open>Sync_Frame\<close> what each operation
  leaves alone, \<open>Sync_Safety\<close> that what comes in was asked for and is signed, \<open>Sync_Relay\<close> that what goes out
  may be seen by whom it goes to, and \<open>Sync_Gaps\<close> two histories in which an answer is not taken as meant.

  \<^bold>\<open>Files.\<close> \<open>File_Store\<close> is the shared file tables of \<^verbatim>\<open>core/storage.py\<close> with admission and pruning, \<open>Files\<close> the
  download engine of \<^verbatim>\<open>core/files.py\<close>. \<open>File_Safety\<close>: the bytes handed out hash to the name of the file;
  \<open>File_Budget\<close>: the budgets; \<open>File_Flow\<close>: one request at a time, and members alone are served;
  \<open>File_Gaps\<close>: the histories in which a download cannot end well. What the transport answers is an
  argument of the events.

  \<^bold>\<open>Peers.\<close> \<open>Friends\<close>, \<open>Direct\<close>, \<open>Control_Retry\<close>, \<open>User_Directory\<close>, \<open>Connectivity\<close> and \<open>Link_Metrics\<close> are the
  modules of those names under \<^verbatim>\<open>core\<close> (the last one \<^verbatim>\<open>bandwidth.py\<close> and \<^verbatim>\<open>link_quality.py\<close>).
  \<open>Presence\<close> is \<^verbatim>\<open>core/presence.py\<close>, and \<open>Presence_Safety\<close> shows that a peer is online exactly on recent
  evidence.

  \<^bold>\<open>Histories and bounds.\<close> A history is a list of events folded over a state; invariants are proved for one step
  and lifted by the \<open>machine\<close> locale or by a fold. What other parts of the program do in between is an
  event that puts arbitrary tables in place. Loops over pages, continuations and queues recurse on
  their lists; where the code counts rounds, the model keeps the constant of the code.

  \<^bold>\<open>Not modelled.\<close> The call state machine of \<^verbatim>\<open>voice.py\<close> and the links of the voice, file and node transports, whose
  handshakes are those of Reticulum; the announcing and creating of channels and servers
  (\<^verbatim>\<open>channel.py\<close>, \<^verbatim>\<open>server.py\<close>, \<^verbatim>\<open>discovery.py\<close>), which call the operations modelled here; the choice of
  propagation nodes; the routers; image decoding, the audio engine and Opus; identities and encryption
  at rest; the node browser and the network map; configuration; the window; the test environment and
  packaging.

  \<^bold>\<open>Conventions.\<close> Time is a rational number and an argument (\<open>now\<close>) of the operation that reads the
  clock. A text is a string of characters below 256. Bytes are lists of 8-bit words. Reticulum, LXMF,
  msgpack, SHA-256, JSON and the parsing of a number from a text are parameters, with what the code
  relies on as named hypotheses where a theorem needs it. SQL statements are operations on lists of
  rows with the constraints the schema gives. A method that raises returns \<open>Inl\<close> of the exception;
  one that commits in several transactions returns the state it reached as well. Locks are left out,
  except where an operation drops the lock in between (\<open>scope_cache_race\<close>).
\<close>

end
